(* ===== verification/Cpp_Prelude.thy ===== *)
theory Cpp_Prelude
  imports Main "HOL-Library.Sublist" "HOL-Library.Monad_Syntax"
begin

section \<open>Shared vocabulary: the C++ string and integer operations the sources use\<close>

text \<open>
  This theory models the part of the C++ standard library that gz-common's string code is
  written in, and collects the lemmas the component theories share.

  \<^item> \<open>std::string\<close> is \<^typ>\<open>string\<close>: a list of bytes, so \<open>length\<close> is \<open>size()\<close>.
  \<^item> A position returned by \<open>find\<close> is a \<^typ>\<open>nat option\<close>, with \<^const>\<open>None\<close> for \<open>npos\<close>.
  \<^item> \<open>substr (pos, n)\<close> throws \<open>std::out_of_range\<close> when \<open>pos > size()\<close>: the model returns
    \<^const>\<open>None\<close> there. The length argument is a \<^typ>\<open>nat option\<close>, \<^const>\<open>None\<close> for \<open>npos\<close>.
  \<^item> A call that may throw returns an option, and a sequence of calls is written in the
    option monad.
\<close>

named_theorems cpp_find \<comment> \<open>characterisations of the find family\<close>
named_theorems wf_intro \<comment> \<open>an operation keeps a component's invariant\<close>

subsection \<open>Searching\<close>

fun find_index :: "('a \<Rightarrow> bool) \<Rightarrow> 'a list \<Rightarrow> nat option" where
  "find_index P [] = None"
| "find_index P (x # xs) = (if P x then Some 0 else map_option Suc (find_index P xs))"

definition find_from :: "('a \<Rightarrow> bool) \<Rightarrow> 'a list \<Rightarrow> nat \<Rightarrow> nat option" where
  "find_from P s pos = map_option ((+) pos) (find_index P (drop pos s))"

text \<open>\<open>s.find(c, pos)\<close>, \<open>s.find_first_of(cs, pos)\<close> and \<open>s.find_first_not_of(cs, pos)\<close>.\<close>

definition str_find_char :: "string \<Rightarrow> char \<Rightarrow> nat \<Rightarrow> nat option" where
  "str_find_char s c pos = find_from (\<lambda>x. x = c) s pos"

definition find_first_of :: "string \<Rightarrow> string \<Rightarrow> nat \<Rightarrow> nat option" where
  "find_first_of s cs pos = find_from (\<lambda>x. x \<in> set cs) s pos"

definition find_first_not_of :: "string \<Rightarrow> string \<Rightarrow> nat \<Rightarrow> nat option" where
  "find_first_not_of s cs pos = find_from (\<lambda>x. x \<notin> set cs) s pos"

text \<open>\<open>s.find_last_of(cs)\<close>.\<close>

definition find_last_of :: "string \<Rightarrow> string \<Rightarrow> nat option" where
  "find_last_of s cs =
     map_option (\<lambda>i. length s - 1 - i) (find_index (\<lambda>x. x \<in> set cs) (rev s))"

text \<open>\<open>s.find(k, pos)\<close> for a string \<open>k\<close>: an empty \<open>k\<close> is found at every position up to
  \<open>size()\<close>.\<close>

fun find_sub :: "'a list \<Rightarrow> 'a list \<Rightarrow> nat option" where
  "find_sub k [] = (if k = [] then Some 0 else None)"
| "find_sub k (x # s) = (if prefix k (x # s) then Some 0 else map_option Suc (find_sub k s))"

definition str_find :: "string \<Rightarrow> string \<Rightarrow> nat \<Rightarrow> nat option" where
  "str_find s k pos =
     (if pos \<le> length s then map_option ((+) pos) (find_sub k (drop pos s)) else None)"

definition str_substr :: "string \<Rightarrow> nat \<Rightarrow> nat option \<Rightarrow> string option" where
  "str_substr s pos n =
     (if length s < pos then None
      else Some (case n of None \<Rightarrow> drop pos s | Some k \<Rightarrow> take k (drop pos s)))"

text \<open>The same call where the position is known to be inside the string.\<close>

definition sub :: "'a list \<Rightarrow> nat \<Rightarrow> nat option \<Rightarrow> 'a list" where
  "sub s pos n = (case n of None \<Rightarrow> drop pos s | Some k \<Rightarrow> take k (drop pos s))"

text \<open>\<open>s.erase(0, n)\<close> and the two-argument \<open>npos\<close>-aware difference \<open>p - k\<close> of \<open>size_t\<close>
  values: \<open>npos - k\<close> is still past the end of every string, so it stays \<open>npos\<close>.\<close>

definition str_erase_front :: "string \<Rightarrow> nat option \<Rightarrow> string" where
  "str_erase_front s n = (case n of None \<Rightarrow> [] | Some k \<Rightarrow> drop k s)"

lemma find_index_Some_iff [cpp_find]:
  "find_index P xs = Some i \<longleftrightarrow>
     i < length xs \<and> P (xs ! i) \<and> (\<forall>j < i. \<not> P (xs ! j))"
proof (induction xs arbitrary: i)
  case Nil
  then show ?case by simp
next
  case (Cons x xs)
  show ?case
    by (cases i) (auto simp: Cons.IH less_Suc_eq_0_disj)
qed

lemma find_index_None_iff [cpp_find]: "find_index P xs = None \<longleftrightarrow> (\<forall>x \<in> set xs. \<not> P x)"
  by (induction xs) auto

lemma find_index_less: "find_index P xs = Some i \<Longrightarrow> i < length xs"
  by (simp add: find_index_Some_iff)

lemma find_index_append:
  "find_index P (xs @ ys) =
     (case find_index P xs of Some i \<Rightarrow> Some i
      | None \<Rightarrow> map_option ((+) (length xs)) (find_index P ys))"
proof (induction xs)
  case Nil
  then show ?case by (cases "find_index P ys") simp_all
next
  case (Cons x xs)
  then show ?case by (cases "find_index P ys") (auto split: option.splits)
qed

lemma find_index_hit: "\<forall>x \<in> set xs. \<not> P x \<Longrightarrow> P y \<Longrightarrow>
    find_index P (xs @ y # ys) = Some (length xs)"
  by (induction xs) auto

lemma find_index_take: "find_index P xs = Some i \<Longrightarrow> \<forall>x \<in> set (take i xs). \<not> P x"
  by (auto simp: find_index_Some_iff in_set_conv_nth)

lemma find_index_split:
  "find_index P xs = Some i \<Longrightarrow> xs = take i xs @ xs ! i # drop (Suc i) xs"
  by (simp add: find_index_Some_iff id_take_nth_drop)

lemma find_index_takeWhile:
  "find_index P xs = Some i \<Longrightarrow> take i xs = takeWhile (Not \<circ> P) xs \<and>
     drop i xs = dropWhile (Not \<circ> P) xs"
  by (induction xs arbitrary: i) (auto split: if_splits)

lemma find_from_0 [simp]: "find_from P s 0 = find_index P s"
  by (cases "find_index P s") (simp_all add: find_from_def)

lemma find_from_None_iff [cpp_find]:
  "find_from P s pos = None \<longleftrightarrow> (\<forall>x \<in> set (drop pos s). \<not> P x)"
  by (simp add: find_from_def find_index_None_iff)

lemma find_from_bounds: "find_from P s pos = Some i \<Longrightarrow> pos \<le> i \<and> i < length s \<and> P (s ! i)"
  by (auto simp: find_from_def find_index_Some_iff)

lemma str_find_char_0: "str_find_char s c 0 = find_index (\<lambda>x. x = c) s"
  by (simp add: str_find_char_def)

lemma find_sub_Nil [simp]: "find_sub [] s = Some 0"
  by (cases s) simp_all

lemma find_sub_singleton: "find_sub [c] s = find_index (\<lambda>x. x = c) s"
  by (induction s) auto

lemma find_sub_Some_iff [cpp_find]:
  "find_sub k s = Some i \<longleftrightarrow>
     i \<le> length s \<and> prefix k (drop i s) \<and> (\<forall>j < i. \<not> prefix k (drop j s))"
proof (induction s arbitrary: i)
  case Nil
  show ?case by auto
next
  case (Cons x s)
  show ?case
    by (cases i) (auto simp: Cons.IH less_Suc_eq_0_disj)
qed

lemma find_sub_None_iff [cpp_find]: "find_sub k s = None \<longleftrightarrow> \<not> sublist k s"
proof (induction s)
  case Nil
  show ?case by simp
next
  case (Cons x s)
  then show ?case by (auto simp: sublist_Cons_right)
qed

lemma find_sub_0_iff: "find_sub k s = Some 0 \<longleftrightarrow> prefix k s"
  by (simp add: find_sub_Some_iff)

lemma str_find_0: "str_find s k 0 = find_sub k s"
  by (cases "find_sub k s") (simp_all add: str_find_def)

lemma str_find_singleton: "str_find s [c] pos = str_find_char s c pos"
  by (simp add: str_find_def str_find_char_def find_from_def find_sub_singleton)

lemma str_find_bounds:
  "str_find s k pos = Some i \<Longrightarrow> pos \<le> i \<and> i + length k \<le> length s \<and> prefix k (drop i s)"
  by (auto simp: str_find_def find_sub_Some_iff add.commute split: if_splits
           dest: prefix_length_le)

lemma str_substr_0 [simp]: "str_substr s 0 n = Some (case n of None \<Rightarrow> s | Some k \<Rightarrow> take k s)"
  by (simp add: str_substr_def split: option.split)

lemma str_substr_sub: "pos \<le> length s \<Longrightarrow> str_substr s pos n = Some (sub s pos n)"
  by (simp add: str_substr_def sub_def)

lemma str_find_char_hit:
  "c \<notin> set b \<Longrightarrow> str_find_char (a @ b @ c # r) c (length a) = Some (length a + length b)"
  by (auto simp: str_find_char_def find_from_def intro!: find_index_hit)

lemma str_find_char_miss: "c \<notin> set b \<Longrightarrow> str_find_char (a @ b) c (length a) = None"
  by (auto simp: str_find_char_def find_from_None_iff)

lemma find_first_not_of_None: "set s \<subseteq> set cs \<Longrightarrow> find_first_not_of s cs pos = None"
  by (auto simp: find_first_not_of_def find_from_None_iff dest: in_set_dropD)

lemma str_substr_Some: "pos \<le> length s \<Longrightarrow> str_substr s pos None = Some (drop pos s)"
  by (simp add: str_substr_def)

lemma length_str_erase_front: "length (str_erase_front s n) \<le> length s"
  by (simp add: str_erase_front_def split: option.split)

subsection \<open>Characters\<close>

text \<open>The C-locale character classes, on the byte value.\<close>

definition code :: "char \<Rightarrow> nat" where
  "code c = of_char c"

definition isspace :: "char \<Rightarrow> bool" where
  "isspace c \<longleftrightarrow> code c = 32 \<or> (9 \<le> code c \<and> code c \<le> 13)"

definition isdigit :: "char \<Rightarrow> bool" where
  "isdigit c \<longleftrightarrow> 48 \<le> code c \<and> code c \<le> 57"

definition isupper :: "char \<Rightarrow> bool" where
  "isupper c \<longleftrightarrow> 65 \<le> code c \<and> code c \<le> 90"

definition islower :: "char \<Rightarrow> bool" where
  "islower c \<longleftrightarrow> 97 \<le> code c \<and> code c \<le> 122"

definition isalnum :: "char \<Rightarrow> bool" where
  "isalnum c \<longleftrightarrow> isdigit c \<or> isupper c \<or> islower c"

definition tolower :: "char \<Rightarrow> char" where
  "tolower c = (if isupper c then char_of (code c + 32) else c)"

definition NUL :: char where
  "NUL = CHR 0x00"

lemma code_less [simp]: "code c < 256"
  by (simp add: code_def)

lemma char_of_code [simp]: "char_of (code c) = c"
  by (simp add: code_def)

lemma code_char_of [simp]: "code (char_of n) = n mod 256"
  by (simp add: code_def)

lemma code_inject [simp]: "code c = code d \<longleftrightarrow> c = d"
  by (simp add: code_def)

lemma tolower_idem [simp]: "tolower (tolower c) = tolower c"
  by (auto simp: tolower_def isupper_def)

lemma isupper_tolower [simp]: "\<not> isupper (tolower c)"
  by (auto simp: tolower_def isupper_def)

subsection \<open>Decimal numbers: \<open>std::to_string\<close> and \<open>std::stoi\<close>\<close>

definition digit_char :: "nat \<Rightarrow> char" where
  "digit_char d = char_of (48 + d)"

fun show_nat :: "nat \<Rightarrow> string" where
  "show_nat n = (if n < 10 then [digit_char n] else show_nat (n div 10) @ [digit_char (n mod 10)])"

declare show_nat.simps [simp del]

definition show_int :: "int \<Rightarrow> string" where
  "show_int i = (if i < 0 then CHR ''-'' # show_nat (nat (- i)) else show_nat (nat i))"

definition digit_val :: "char \<Rightarrow> nat" where
  "digit_val c = code c - 48"

definition read_nat :: "string \<Rightarrow> nat" where
  "read_nat ds = foldl (\<lambda>n c. 10 * n + digit_val c) 0 ds"

text \<open>\<open>std::stoi\<close>: skip white space, one optional sign, the longest run of digits.
  \<^const>\<open>None\<close> is a throw: \<open>std::invalid_argument\<close> when there is no digit,
  \<open>std::out_of_range\<close> when the value is no 32-bit \<open>int\<close>. What follows the digits is
  ignored.\<close>

definition stoi :: "string \<Rightarrow> int option" where
  "stoi s =
     (let s1 = dropWhile isspace s;
          neg = (s1 \<noteq> [] \<and> hd s1 = CHR ''-'');
          s2 = (if s1 \<noteq> [] \<and> (hd s1 = CHR ''-'' \<or> hd s1 = CHR ''+'') then tl s1 else s1);
          ds = takeWhile isdigit s2;
          v = (if neg then - int (read_nat ds) else int (read_nat ds))
      in if ds = [] then None
         else if - (2 ^ 31) \<le> v \<and> v < 2 ^ 31 then Some v else None)"

lemma isdigit_digit_char [simp]: "d < 10 \<Longrightarrow> isdigit (digit_char d)"
  by (simp add: isdigit_def digit_char_def)

lemma digit_val_digit_char [simp]: "d < 10 \<Longrightarrow> digit_val (digit_char d) = d"
  by (simp add: digit_val_def digit_char_def)

lemma digits_list: "''0123456789'' = map digit_char [0..<10]"
  by code_simp

lemma isdigit_mem: "isdigit c \<longleftrightarrow> c \<in> set ''0123456789''"
proof
  assume "isdigit c"
  then have "c = digit_char (code c - 48)" and "code c - 48 < 10"
    by (auto simp: isdigit_def digit_char_def)
  then show "c \<in> set ''0123456789''" unfolding digits_list by auto
next
  assume "c \<in> set ''0123456789''"
  then show "isdigit c" unfolding digits_list by (auto simp: isdigit_def digit_char_def)
qed

lemma show_nat_nonempty [simp]: "show_nat n \<noteq> []"
  by (subst show_nat.simps) simp

lemma show_nat_digits: "\<forall>c \<in> set (show_nat n). isdigit c"
proof (induction n rule: show_nat.induct)
  case (1 n)
  then show ?case by (subst show_nat.simps) auto
qed

lemma read_nat_snoc: "read_nat (ds @ [c]) = 10 * read_nat ds + digit_val c"
  by (simp add: read_nat_def)

lemma read_show_nat [simp]: "read_nat (show_nat n) = n"
proof (induction n rule: show_nat.induct)
  case (1 n)
  show ?case
  proof (cases "n < 10")
    case True
    then show ?thesis by (subst show_nat.simps) (simp add: read_nat_def)
  next
    case False
    with 1 show ?thesis by (subst show_nat.simps) (simp add: read_nat_snoc)
  qed
qed

lemma show_nat_inject [simp]: "show_nat m = show_nat n \<longleftrightarrow> m = n"
  by (metis read_show_nat)

lemma stoi_show_nat:
  assumes "n < 2 ^ 31" and "rest = [] \<or> \<not> isdigit (hd rest)"
  shows "stoi (show_nat n @ rest) = Some (int n)"
proof -
  obtain d ds where sn: "show_nat n = d # ds" by (cases "show_nat n") auto
  with show_nat_digits [of n] have d: "isdigit d" by simp
  then have nospace: "\<not> isspace d" and nosign: "d \<noteq> CHR ''-''" "d \<noteq> CHR ''+''"
    by (auto simp: isdigit_def isspace_def code_def)
  have tw: "takeWhile isdigit (show_nat n @ rest) = show_nat n"
    using show_nat_digits [of n] assms(2) by (auto simp: takeWhile_eq_Nil_iff)
  from sn nospace nosign tw assms(1) show ?thesis
    by (simp add: stoi_def Let_def) (metis read_show_nat sn)
qed

lemma stoi_show_int:
  assumes "- (2 ^ 31) \<le> i" and "i < 2 ^ 31"
  shows "stoi (show_int i) = Some i"
proof (cases "i < 0")
  case True
  have tw: "takeWhile isdigit (show_nat (nat (- i))) = show_nat (nat (- i))"
    using show_nat_digits [of "nat (- i)"] by (simp add: takeWhile_eq_all_conv)
  from True assms(1) show ?thesis
    by (simp add: stoi_def Let_def show_int_def isspace_def code_def tw)
next
  case False
  with assms(2) stoi_show_nat [of "nat i" "[]"] show ?thesis
    by (simp add: show_int_def)
qed

lemma drop_show_int_isdigit: "c \<in> set (drop 1 (show_int i)) \<Longrightarrow> isdigit c"
  using show_nat_digits [of "nat i"] show_nat_digits [of "nat (- i)"]
  by (auto simp: show_int_def split: if_splits dest: in_set_dropD)

lemma drop_show_int_digits: "set (drop 1 (show_int i)) \<subseteq> set ''0123456789''"
  using drop_show_int_isdigit isdigit_mem by blast

lemma find_first_not_of_show_int: "find_first_not_of (show_int i) ''0123456789'' 1 = None"
  unfolding find_first_not_of_def find_from_None_iff using drop_show_int_digits [of i] by blast

lemma show_int_chars: "c \<in> set (show_int i) \<Longrightarrow> c = CHR ''-'' \<or> isdigit c"
  using show_nat_digits [of "nat i"] show_nat_digits [of "nat (- i)"]
  by (auto simp: show_int_def split: if_splits)

lemma show_int_nonempty [simp]: "show_int i \<noteq> []"
  by (simp add: show_int_def)

end
