(* ===== verification/Base64_Codec.thy ===== *)
theory Base64_Codec
  imports Cpp_Prelude "HOL-Library.Word"
begin

unbundle bit_operations_syntax

section \<open>Base64: the encoder and the decoder\<close>

text \<open>
  \<^verbatim>\<open>src/src/Base64.cc\<close>. A byte is an \<^typ>\<open>8 word\<close> while it is computed with. The
  buffers \<open>charArray3[0..i)\<close> and \<open>charArray4[0..i)\<close> of the two loops are lists whose length
  is the counter \<open>i\<close>.
\<close>

type_synonym byte = "8 word"

definition byte_of :: "char \<Rightarrow> byte" where
  "byte_of c = word_of_nat (code c)"

definition char_of_byte :: "byte \<Rightarrow> char" where
  "char_of_byte w = char_of (unat w)"

definition base64Chars :: string where
  "base64Chars = ''ABCDEFGHIJKLMNOPQRSTUVWXYZabcdefghijklmnopqrstuvwxyz0123456789+/''"

definition IsBase64 :: "char \<Rightarrow> bool" where
  "IsBase64 c \<longleftrightarrow> isalnum c \<or> c = CHR ''+'' \<or> c = CHR ''/''"

subsection \<open>Encoding\<close>

text \<open>The four 6-bit values of three bytes, and the alphabet.\<close>

fun enc4 :: "byte list \<Rightarrow> byte list" where
  "enc4 [a, b, c] =
     [drop_bit 2 (a AND 0xfc),
      push_bit 4 (a AND 0x03) + drop_bit 4 (b AND 0xf0),
      push_bit 2 (b AND 0x0f) + drop_bit 6 (c AND 0xc0),
      c AND 0x3f]"
| "enc4 _ = []"

definition enc_char :: "byte \<Rightarrow> char" where
  "enc_char w = base64Chars ! unat w"

fun Encode_loop :: "byte list \<Rightarrow> string \<Rightarrow> string \<Rightarrow> string \<times> byte list" where
  "Encode_loop charArray3 [] result = (result, charArray3)"
| "Encode_loop charArray3 (c # bytes) result =
     (let buf = charArray3 @ [byte_of c]
      in if length buf = 3
         then Encode_loop [] bytes (result @ map enc_char (enc4 buf))
         else Encode_loop buf bytes result)"

definition Encode :: "string \<Rightarrow> string \<Rightarrow> string" where
  "Encode bytesToEncode result =
     (let (result, charArray3) = Encode_loop [] bytesToEncode result;
          i = length charArray3
      in if i \<noteq> 0
         then result
                @ map enc_char (take (i + 1) (enc4 (charArray3 @ replicate (3 - i) 0)))
                @ replicate (3 - i) CHR ''=''
         else result)"

subsection \<open>Decoding\<close>

text \<open>\<open>std::find\<close> over the 64 letters: 64 when there is none (the padding NUL).\<close>

definition dec_val :: "byte \<Rightarrow> byte" where
  "dec_val w =
     (case find_index (\<lambda>x. x = char_of_byte w) base64Chars of
        None \<Rightarrow> word_of_nat (length base64Chars) | Some i \<Rightarrow> word_of_nat i)"

fun dec3 :: "byte list \<Rightarrow> byte list" where
  "dec3 [a, b, c, d] =
     [push_bit 2 a + drop_bit 4 (b AND 0x30),
      push_bit 4 (b AND 0xf) + drop_bit 2 (c AND 0x3c),
      push_bit 6 (c AND 0x3) + d]"
| "dec3 _ = []"

fun Decode_loop :: "byte list \<Rightarrow> string \<Rightarrow> string \<Rightarrow> string \<times> byte list" where
  "Decode_loop charArray4 [] ret = (ret, charArray4)"
| "Decode_loop charArray4 (c # s) ret =
     (if c \<noteq> CHR ''='' \<and> IsBase64 c
      then (let buf = charArray4 @ [byte_of c]
            in if length buf = 4
               then Decode_loop [] s (ret @ map char_of_byte (dec3 (map dec_val buf)))
               else Decode_loop buf s ret)
      else (ret, charArray4))"

text \<open>
  \<open>int inLen = size()\<close> keeps the low 32 bits, as a signed number. A negative count is not
  zero in any turn of the loop, which then ends at the NUL behind the text.
\<close>

definition Decode_input :: "string \<Rightarrow> string" where
  "Decode_input s =
     (let inLen = sint (word_of_nat (length s) :: 32 word)
      in if inLen < 0 then s else take (nat inLen) s)"

definition Decode_end :: "string \<times> byte list \<Rightarrow> string" where
  "Decode_end st =
     (let (ret, charArray4) = st;
          i = length charArray4
      in if i \<noteq> 0
         then ret @ take (i - 1)
                (map char_of_byte (dec3 (map dec_val (charArray4 @ replicate (4 - i) 0))))
         else ret)"

definition Decode :: "string \<Rightarrow> string" where
  "Decode encodedString = Decode_end (Decode_loop [] (Decode_input encodedString) [])"

subsection \<open>One group\<close>

lemma byte_of_char_of_byte [simp]: "byte_of (char_of_byte w) = w"
proof -
  have "unat w < 256" using unsigned_less [of w] by simp
  then show ?thesis by (simp add: byte_of_def char_of_byte_def)
qed

lemma char_of_byte_of [simp]: "char_of_byte (byte_of c) = c"
proof -
  have "unat (word_of_nat (code c) :: byte) = code c"
    using code_less [of c] by (simp add: unat_of_nat)
  then show ?thesis by (simp add: byte_of_def char_of_byte_def)
qed

text \<open>Every sum in the two group functions is of words with no bit in common, so it is their
  disjunction, and a group law is checked bit by bit.\<close>

lemma byte_eqI: "(\<And>n. n < 8 \<Longrightarrow> bit (x :: byte) n = bit y n) \<Longrightarrow> x = y"
  by (rule bit_word_eqI) simp

lemma less_8_cases:
  "n < 8 \<longleftrightarrow> n = 0 \<or> n = 1 \<or> n = 2 \<or> n = 3 \<or> n = 4 \<or> n = 5 \<or> n = 6 \<or> n = (7 :: nat)"
  by arith

lemma plus_or: "x AND y = 0 \<Longrightarrow> x + y = x OR (y :: byte)"
  using word_plus_and_or [of x y] by simp

lemma not_bit_8 [simp]: "\<not> bit (w :: byte) 8" "\<not> bit (w :: byte) 9" "\<not> bit (w :: byte) 10"
    "\<not> bit (w :: byte) 11" "\<not> bit (w :: byte) 12" "\<not> bit (w :: byte) 13"
  by (auto dest: bit_imp_le_length)

lemmas byte_bits = bit_simps less_8_cases

lemma enc4_or:
  "enc4 [a, b, c] =
     [drop_bit 2 a, push_bit 4 (a AND 3) OR drop_bit 4 b,
      push_bit 2 (b AND 15) OR drop_bit 6 c, c AND 63]"
proof -
  have "push_bit 4 (a AND 3) + drop_bit 4 (b AND 0xf0) = push_bit 4 (a AND 3) OR drop_bit 4 (b AND 0xf0)"
    by (rule plus_or, rule byte_eqI) (auto simp: byte_bits)
  moreover have "push_bit 2 (b AND 15) + drop_bit 6 (c AND 0xc0) =
      push_bit 2 (b AND 15) OR drop_bit 6 (c AND 0xc0)"
    by (rule plus_or, rule byte_eqI) (auto simp: byte_bits)
  moreover have "drop_bit 2 (a AND 0xfc) = drop_bit 2 a" "drop_bit 4 (b AND 0xf0) = drop_bit 4 b"
      "drop_bit 6 (c AND 0xc0) = drop_bit 6 c"
    by (rule byte_eqI, auto simp: byte_bits)+
  ultimately show ?thesis by simp
qed

lemma dec3_or:
  "dec3 [x, y, z, d AND 63] =
     [push_bit 2 x OR drop_bit 4 (y AND 0x30), push_bit 4 (y AND 15) OR drop_bit 2 (z AND 0x3c),
      push_bit 6 (z AND 3) OR (d AND 63)]"
proof -
  have "push_bit 2 x + drop_bit 4 (y AND 0x30) = push_bit 2 x OR drop_bit 4 (y AND 0x30)"
    by (rule plus_or, rule byte_eqI) (auto simp: byte_bits)
  moreover have "push_bit 4 (y AND 15) + drop_bit 2 (z AND 0x3c) =
      push_bit 4 (y AND 15) OR drop_bit 2 (z AND 0x3c)"
    by (rule plus_or, rule byte_eqI) (auto simp: byte_bits)
  moreover have "push_bit 6 (z AND 3) + (d AND 63) = push_bit 6 (z AND 3) OR (d AND 63)"
    by (rule plus_or, rule byte_eqI) (auto simp: byte_bits)
  ultimately show ?thesis by simp
qed

lemma dec3_enc4: "dec3 (enc4 [a, b, c]) = [a, b, c]"
proof -
  have "push_bit 2 (drop_bit 2 a) OR drop_bit 4 ((push_bit 4 (a AND 3) OR drop_bit 4 b) AND 0x30) = a"
    by (rule byte_eqI) (auto simp: byte_bits numeral_2_eq_2 [symmetric] numeral_3_eq_3 [symmetric])
  moreover have "push_bit 4 ((push_bit 4 (a AND 3) OR drop_bit 4 b) AND 15) OR
      drop_bit 2 ((push_bit 2 (b AND 15) OR drop_bit 6 c) AND 0x3c) = b"
    by (rule byte_eqI) (auto simp: byte_bits numeral_2_eq_2 [symmetric] numeral_3_eq_3 [symmetric])
  moreover have "push_bit 6 ((push_bit 2 (b AND 15) OR drop_bit 6 c) AND 3) OR (c AND 63) = c"
    by (rule byte_eqI) (auto simp: byte_bits numeral_2_eq_2 [symmetric] numeral_3_eq_3 [symmetric])
  ultimately show ?thesis by (simp only: enc4_or dec3_or)
qed

declare enc4.simps [simp del] dec3.simps [simp del]

lemma enc4_small: "w \<in> set (enc4 bs) \<Longrightarrow> unat w < 64"
proof -
  have mask: "unat (v AND 63) < 64" for v :: byte
  proof -
    have "v AND 63 = take_bit 6 v" by (simp add: take_bit_eq_mask mask_eq_exp_minus_1)
    then show ?thesis
      using take_bit_nat_less_exp [of 6 "unat v"] by (simp add: unsigned_take_bit_eq)
  qed
  have small: "unat v < 64" if "v AND 63 = v" for v :: byte
    using mask [of v] that by simp
  assume "w \<in> set (enc4 bs)"
  then obtain a b c where "w \<in> set (enc4 [a, b, c])"
    by (cases bs rule: enc4.cases) (auto simp: enc4.simps)
  moreover have "drop_bit 2 a AND 63 = drop_bit 2 a"
      "(push_bit 4 (a AND 3) OR drop_bit 4 b) AND 63 = push_bit 4 (a AND 3) OR drop_bit 4 b"
      "(push_bit 2 (b AND 15) OR drop_bit 6 c) AND 63 = push_bit 2 (b AND 15) OR drop_bit 6 c"
      "(c AND 63) AND 63 = c AND 63"
    by (rule byte_eqI, auto simp: byte_bits)+
  ultimately show ?thesis using small by (auto simp: enc4_or)
qed

subsection \<open>The alphabet\<close>

lemma alphabet_code:
  "list_all (\<lambda>i. IsBase64 (base64Chars ! i) \<and> base64Chars ! i \<noteq> CHR ''='' \<and>
      find_index (\<lambda>x. x = base64Chars ! i) base64Chars = Some i) [0..<64]"
  by code_simp

lemma alphabet:
  assumes "i < 64"
  shows "IsBase64 (base64Chars ! i)" and "base64Chars ! i \<noteq> CHR ''=''"
    and "find_index (\<lambda>x. x = base64Chars ! i) base64Chars = Some i"
  using alphabet_code assms by (auto simp: list_all_iff)

lemma enc_char_valid:
  assumes "unat w < 64"
  shows "IsBase64 (enc_char w)" and "enc_char w \<noteq> CHR ''=''"
    and "dec_val (byte_of (enc_char w)) = w"
  using alphabet [OF assms] by (simp_all add: enc_char_def dec_val_def)

lemma IsBase64_alphabet: "IsBase64 c \<longleftrightarrow> c \<in> set base64Chars"
proof -
  have "map code base64Chars = [65..<91] @ [97..<123] @ [48..<58] @ [43, 47]"
    by (simp add: upt_rec base64Chars_def code_def)
  from arg_cong [OF this, of set]
  have "code ` set base64Chars = {65..<91} \<union> ({97..<123} \<union> ({48..<58} \<union> {43, 47}))"
    by (simp only: set_map set_append set_upt list.set)
  moreover have "c \<in> set base64Chars \<longleftrightarrow> code c \<in> code ` set base64Chars" by auto
  moreover have "c = CHR ''+'' \<longleftrightarrow> code c = 43" "c = CHR ''/'' \<longleftrightarrow> code c = 47"
    using code_inject [of c "CHR ''+''"] code_inject [of c "CHR ''/''"] by (simp_all add: code_def)
  ultimately show ?thesis
    by (auto simp: IsBase64_def isalnum_def isdigit_def isupper_def islower_def)
qed

subsection \<open>Groups of three bytes\<close>

text \<open>The reference encoder: three bytes at a time, then the padded rest.\<close>

fun enc_groups :: "string \<Rightarrow> string" where
  "enc_groups (a # b # c # s) =
     map enc_char (enc4 [byte_of a, byte_of b, byte_of c]) @ enc_groups s"
| "enc_groups [a, b] = map enc_char (take 3 (enc4 [byte_of a, byte_of b, 0])) @ ''=''"
| "enc_groups [a] = map enc_char (take 2 (enc4 [byte_of a, 0, 0])) @ ''==''"
| "enc_groups [] = []"

lemma Encode_enc_groups: "Encode s result = result @ enc_groups s"
proof (induction s arbitrary: result rule: enc_groups.induct)
  case (1 a b c s)
  have "Encode (a # b # c # s) result =
      Encode s (result @ map enc_char (enc4 [byte_of a, byte_of b, byte_of c]))"
    by (simp add: Encode_def Let_def)
  with 1 show ?case by simp
qed (simp_all add: Encode_def Let_def numeral_2_eq_2 numeral_3_eq_3)

lemma Decode_loop_step:
  assumes "unat w < 64"
  shows "Decode_loop buf (enc_char w # s) ret =
    (if length buf = 3
     then Decode_loop [] s (ret @ map char_of_byte (dec3 (map dec_val (buf @ [byte_of (enc_char w)]))))
     else Decode_loop (buf @ [byte_of (enc_char w)]) s ret)"
  using enc_char_valid [OF assms] by (simp add: Let_def)

lemma enc4_list:
  obtains w x y z where "enc4 [a, b, c] = [w, x, y, z]"
    and "unat w < 64" "unat x < 64" "unat y < 64" "unat z < 64"
proof -
  obtain w x y z where e: "enc4 [a, b, c] = [w, x, y, z]" by (simp add: enc4_or)
  with enc4_small [of _ "[a, b, c]"] show ?thesis by (intro that [OF e]) auto
qed

lemma dec3_prefix:
  "take 2 (dec3 [w, x, y, z]) = take 2 (dec3 [w, x, y, z'])"
  "take 1 (dec3 [w, x, y, z]) = take 1 (dec3 [w, x, y', z'])"
  by (simp_all add: dec3.simps numeral_2_eq_2)

lemma Decode_end_enc_groups: "Decode_end (Decode_loop [] (enc_groups s) ret) = ret @ s"
proof (induction s arbitrary: ret rule: enc_groups.induct)
  case (1 a b c s)
  obtain w x y z where e: "enc4 [byte_of a, byte_of b, byte_of c] = [w, x, y, z]"
    and small: "unat w < 64" "unat x < 64" "unat y < 64" "unat z < 64" by (rule enc4_list)
  have "dec3 [w, x, y, z] = [byte_of a, byte_of b, byte_of c]"
    using dec3_enc4 [of "byte_of a" "byte_of b" "byte_of c"] by (simp only: e)
  with e small 1 show ?case by (simp add: Decode_loop_step enc_char_valid)
next
  case (2 a b)
  obtain w x y z where e: "enc4 [byte_of a, byte_of b, 0] = [w, x, y, z]"
    and small: "unat w < 64" "unat x < 64" "unat y < 64" "unat z < 64" by (rule enc4_list)
  have "take 2 (dec3 [w, x, y, dec_val 0]) = take 2 (dec3 (enc4 [byte_of a, byte_of b, 0]))"
    unfolding e by (rule dec3_prefix)
  then have "take 2 (dec3 [w, x, y, dec_val 0]) = [byte_of a, byte_of b]"
    by (simp add: dec3_enc4)
  with e small show ?case
    by (simp add: Decode_loop_step enc_char_valid Decode_end_def take_map numeral_3_eq_3 
        numeral_2_eq_2)
next
  case (3 a)
  obtain w x y z where e: "enc4 [byte_of a, 0, 0] = [w, x, y, z]"
    and small: "unat w < 64" "unat x < 64" "unat y < 64" "unat z < 64" by (rule enc4_list)
  have "take 1 (dec3 [w, x, dec_val 0, dec_val 0]) = take 1 (dec3 (enc4 [byte_of a, 0, 0]))"
    unfolding e by (rule dec3_prefix)
  then have "take 1 (dec3 [w, x, dec_val 0, dec_val 0]) = [byte_of a]"
    by (simp add: dec3_enc4)
  with e small show ?case
    by (simp add: Decode_loop_step enc_char_valid Decode_end_def take_map numeral_2_eq_2)
qed (simp add: Decode_end_def)

lemma Decode_input_id: "length s < 2 ^ 31 \<Longrightarrow> Decode_input s = s"
proof -
  assume "length s < 2 ^ 31"
  then have "sint (word_of_nat (length s) :: 32 word) = int (length s)"
    by (simp add: signed_of_nat signed_take_bit_int_eq_self)
  then show ?thesis by (simp add: Decode_input_def)
qed

lemma Decode_loop_stop:
  assumes "\<not> IsBase64 c"
  shows "Decode_loop buf (s @ c # t) ret = Decode_loop buf s ret"
  using assms by (induction s arbitrary: buf ret) (simp_all add: Let_def)

lemma length_enc_groups: "length (enc_groups s) = 4 * ((length s + 2) div 3)"
proof (induction s rule: enc_groups.induct)
  case (1 a b c s)
  have "(length (a # b # c # s) + 2) div 3 = Suc ((length s + 2) div 3)" by simp
  with 1 show ?case by (simp only: enc_groups.simps) (simp add: enc4_or)
qed (simp_all add: enc4_or)

lemma set_enc_groups: "set (enc_groups s) \<subseteq> set base64Chars \<union> {CHR ''=''}"
proof (induction s rule: enc_groups.induct)
  have *: "enc_char ` set (enc4 ws) \<subseteq> set base64Chars" for ws
    using enc4_small [of _ ws] enc_char_valid(1) IsBase64_alphabet by fastforce
  {
    case (1 a b c s)
    then show ?case using * [of "[byte_of a, byte_of b, byte_of c]"] by auto
  next
    case (2 a b)
    show ?case using * [of "[byte_of a, byte_of b, 0]"] by (auto dest!: in_set_takeD)
  next
    case (3 a)
    show ?case using * [of "[byte_of a, 0, 0]"] by (auto dest!: in_set_takeD)
  }
qed simp

subsection \<open>Properties\<close>

text \<open>
  C3. Decoding what was encoded gives the bytes back, for every byte string, binary ones
  included, whose encoding is below the 2 GiB that \<open>int inLen\<close> can count.
\<close>

theorem Decode_Encode:
  assumes "length (Encode s []) < 2 ^ 31"
  shows "Decode (Encode s []) = s"
  using assms Decode_end_enc_groups [of s "[]"]
  by (simp add: Decode_def Decode_input_id Encode_enc_groups)

lemma Decode_Encode_witness: "Decode (Encode ''gz\<newline>!'' []) = ''gz\<newline>!''"
proof (rule Decode_Encode)
  have "length (enc_groups ''gz\<newline>!'') = 8" by (simp only: length_enc_groups) simp
  then show "length (Encode ''gz\<newline>!'' []) < 2 ^ 31" by (simp only: Encode_enc_groups) simp
qed

text \<open>
  The encoder appends to the result string four characters for every started group of
  three bytes, all from the alphabet or the padding character.
\<close>

theorem Encode_shape:
  "take (length result) (Encode s result) = result \<and>
   length (Encode s result) = length result + 4 * ((length s + 2) div 3) \<and>
   set (drop (length result) (Encode s result)) \<subseteq> set base64Chars \<union> {CHR ''=''}"
  using set_enc_groups [of s] by (simp add: Encode_enc_groups length_enc_groups)

text \<open>
  The decoder stops at the first character outside the alphabet (padding included) and
  ignores everything behind it.
\<close>

theorem Decode_stops:
  assumes "\<not> IsBase64 c" and "length (s @ c # t) < 2 ^ 31"
  shows "Decode (s @ c # t) = Decode s"
  using assms by (simp add: Decode_def Decode_input_id Decode_loop_stop)

end
