(* ===== verification/String_Utils.thy ===== *)
theory String_Utils
  imports Cpp_Prelude
begin

section \<open>StringUtils: splitting and joining at one character\<close>

text \<open>
  The functions of \<^verbatim>\<open>src/src/StringUtils.cc\<close>. \<open>Split\<close> is the source's loop over the two
  positions \<open>pos1\<close> and \<open>pos2\<close>; every \<open>substr\<close> it makes starts inside the string
  (\<open>pos1 \<le> size()\<close>), so it is written with \<^const>\<open>take\<close> and \<^const>\<open>drop\<close>.
\<close>

function Split_loop :: "string \<Rightarrow> char \<Rightarrow> nat \<Rightarrow> nat option \<Rightarrow> string list" where
  "Split_loop orig delim pos1 None = [drop pos1 orig]"
| "Split_loop orig delim pos1 (Some pos2) =
     take (pos2 - pos1) (drop pos1 orig) #
     Split_loop orig delim (pos2 + 1) (str_find_char orig delim (pos2 + 1))"
  by pat_completeness auto
termination
  by (relation "measure (\<lambda>(s, d, p1, p2).
        case p2 of None \<Rightarrow> 0 | Some p \<Rightarrow> Suc (length s - p))")
     (auto simp: str_find_char_def split: option.split dest!: find_from_bounds)

definition Split :: "string \<Rightarrow> char \<Rightarrow> string list" where
  "Split orig delim = Split_loop orig delim 0 (str_find_char orig delim 0)"

text \<open>\<open>Join\<close> skips empty pieces; \<open>ii < size() - 1\<close> says that this piece is not the last
  element of the vector.\<close>

fun Join :: "string list \<Rightarrow> string \<Rightarrow> string" where
  "Join [] delim = []"
| "Join (x # xs) delim =
     (if x = [] then Join xs delim
      else x @ (if xs \<noteq> [] then delim else []) @ Join xs delim)"

definition Join_char :: "string list \<Rightarrow> char \<Rightarrow> string" where
  "Join_char orig delim = Join orig [delim]"

definition StartsWith :: "string \<Rightarrow> string \<Rightarrow> bool" where
  "StartsWith s1 s2 = (if length s1 \<ge> length s2 then take (length s2) s1 = s2 else False)"

definition EndsWith :: "string \<Rightarrow> string \<Rightarrow> bool" where
  "EndsWith s1 s2 =
     (if length s1 \<ge> length s2
      then take (length s2) (drop (length s1 - length s2) s1) = s2 else False)"

definition PluralCast :: "string \<Rightarrow> string \<Rightarrow> int \<Rightarrow> string" where
  "PluralCast singular plural n = (if \<bar>n\<bar> = 1 then singular else plural)"

definition PluralCast_base :: "string \<Rightarrow> int \<Rightarrow> string" where
  "PluralCast_base baseWord n = PluralCast baseWord (baseWord @ ''s'') n"

subsection \<open>The reference: pieces without the delimiter, joined by it\<close>

fun sep_concat :: "'a list \<Rightarrow> 'a list list \<Rightarrow> 'a list" where
  "sep_concat d [] = []"
| "sep_concat d [x] = x"
| "sep_concat d (x # y # ys) = x @ d @ sep_concat d (y # ys)"

fun pieces :: "char \<Rightarrow> string \<Rightarrow> string list" where
  "pieces d [] = [[]]"
| "pieces d (c # s) =
     (if c = d then [] # pieces d s
      else case pieces d s of [] \<Rightarrow> [[c]] | p # ps \<Rightarrow> (c # p) # ps)"

lemma sep_concat_Cons: "xs \<noteq> [] \<Longrightarrow> sep_concat d (x # xs) = x @ d @ sep_concat d xs"
  by (cases xs) simp_all

lemma pieces_nonempty [simp]: "pieces d s \<noteq> []"
  by (induction s) (auto split: list.split)

lemma pieces_Cons_other: "c \<noteq> d \<Longrightarrow> pieces d (c # s) = (c # hd (pieces d s)) # tl (pieces d s)"
  by (cases "pieces d s") auto

lemma sep_concat_pieces [simp]: "sep_concat [d] (pieces d s) = s"
proof (induction s)
  case (Cons c s)
  then show ?case
    by (cases "pieces d s"; cases "tl (pieces d s)") (auto simp: sep_concat_Cons)
qed simp

lemma pieces_delim_free: "\<forall>p \<in> set (pieces d s). d \<notin> set p"
  by (induction s) (auto split: list.split)

lemma pieces_delim_free_id: "d \<notin> set p \<Longrightarrow> pieces d p = [p]"
  by (induction p) auto

lemma pieces_append: "d \<notin> set p \<Longrightarrow> pieces d (p @ d # s) = p # pieces d s"
  by (induction p) auto

lemma pieces_sep_concat:
  "ps \<noteq> [] \<Longrightarrow> \<forall>p \<in> set ps. d \<notin> set p \<Longrightarrow> pieces d (sep_concat [d] ps) = ps"
proof (induction "[d]" ps rule: sep_concat.induct)
  case (3 x y ys)
  then show ?case by (simp add: pieces_append)
qed (auto simp: pieces_delim_free_id)

lemma length_pieces: "length (pieces d s) = Suc (count_list s d)"
  by (induction s) (auto split: list.splits)

subsection \<open>\<open>Split\<close> computes the pieces\<close>

lemma Split_loop_pieces:
  "pos1 \<le> length orig \<Longrightarrow>
     Split_loop orig delim pos1 (str_find_char orig delim pos1) = pieces delim (drop pos1 orig)"
proof (induction "length orig - pos1" arbitrary: pos1 rule: less_induct)
  case less
  show ?case
  proof (cases "str_find_char orig delim pos1")
    case None
    then have "delim \<notin> set (drop pos1 orig)"
      by (auto simp: str_find_char_def find_from_None_iff)
    with None show ?thesis by (simp add: pieces_delim_free_id)
  next
    case (Some pos2)
    let ?r = "drop pos1 orig"
    from Some obtain i where i: "find_index (\<lambda>x. x = delim) ?r = Some i" and p2: "pos2 = pos1 + i"
      by (auto simp: str_find_char_def find_from_def)
    from i have lt: "i < length ?r" and hit: "?r ! i = delim"
      by (auto simp: find_index_Some_iff)
    from find_index_take [OF i] have free: "delim \<notin> set (take i ?r)" by auto
    have "?r = take i ?r @ delim # drop (Suc i) ?r"
      using find_index_split [OF i] hit by simp
    then have "pieces delim ?r = take i ?r # pieces delim (drop (Suc i) ?r)"
      using pieces_append [OF free] by metis
    moreover have "Split_loop orig delim (pos2 + 1) (str_find_char orig delim (pos2 + 1)) =
        pieces delim (drop (pos2 + 1) orig)"
      using lt p2 by (intro less) auto
    ultimately show ?thesis using Some p2 by (simp add: add.commute)
  qed
qed

lemma Split_pieces: "Split orig delim = pieces delim orig"
  using Split_loop_pieces [of 0 orig delim] by (simp add: Split_def)

lemma StartsWith_prefix: "StartsWith s1 s2 \<longleftrightarrow> prefix s2 s1"
  by (auto simp: StartsWith_def prefix_def) (metis append_take_drop_id)

lemma EndsWith_suffix: "EndsWith s1 s2 \<longleftrightarrow> suffix s2 s1"
  by (auto simp: EndsWith_def suffix_def) (metis append_take_drop_id)

lemma Join_sep_concat: "\<forall>p \<in> set ps. p \<noteq> [] \<Longrightarrow> Join ps d = sep_concat d ps"
  by (induction ps rule: induct_list012) auto

subsection \<open>Properties\<close>

text \<open>
  \<open>Split\<close> is characterised completely: its result is the one non-empty list of
  delimiter-free pieces that gives the input back when the delimiter is put between them.
  In particular nothing of the input is lost, empty pieces at either end included.
\<close>

theorem Split_characterised:
  "Split s d = ps \<longleftrightarrow>
     ps \<noteq> [] \<and> (\<forall>p \<in> set ps. d \<notin> set p) \<and> sep_concat [d] ps = s"
  using pieces_sep_concat [of ps d] pieces_delim_free [of d s]
  by (auto simp: Split_pieces)

text \<open>
  \<open>Join\<close> undoes \<open>Split\<close> exactly when no piece was empty: then the joined string is the
  original one.
\<close>

theorem Join_char_Split:
  assumes "\<forall>p \<in> set (Split s d). p \<noteq> []"
  shows "Join_char (Split s d) d = s"
  using assms by (simp add: Join_char_def Join_sep_concat Split_pieces)

text \<open>
  The delimiter is left at the end of the result when the last pieces are empty. (The
  header says the delimiter is never appended to the output.)
\<close>

theorem Join_trailing_delimiter:
  assumes "x \<noteq> []" and "n > 0"
  shows "Join (x # replicate n []) d = x @ d"
proof -
  have "Join (replicate n []) d = []" by (induction n) auto
  with assms show ?thesis by (cases n) auto
qed

end
