(* ===== verification/Text_Util.thy ===== *)
theory Text_Util
  imports String_Utils "HOL-Library.Word"
begin

unbundle bit_operations_syntax

section \<open>Util: tokens, trimming, replacing, hashing and the environment\<close>

text \<open>
  The string helpers of \<^verbatim>\<open>src/src/Util.cc\<close>, \<open>hash64\<close> of \<^verbatim>\<open>Util.hh\<close>, and the three
  functions over environment variables, whose state is the map \<open>environ\<close>. A C string ends at
  the first NUL byte (\<open>c_str\<close>).
\<close>

definition c_str :: "string \<Rightarrow> string" where
  "c_str s = takeWhile (\<lambda>c. c \<noteq> NUL) s"

subsection \<open>\<open>split\<close>, over \<open>strtok_r\<close>\<close>

text \<open>\<open>strtok_r\<close>: skip delimiters, return the longest run of other bytes, continue after
  the one delimiter that ends it.\<close>

definition strtok :: "string \<Rightarrow> string \<Rightarrow> (string \<times> string) option" where
  "strtok delim s =
     (let s1 = dropWhile (\<lambda>c. c \<in> set delim) s
      in if s1 = [] then None
         else Some (takeWhile (\<lambda>c. c \<notin> set delim) s1,
                    drop 1 (dropWhile (\<lambda>c. c \<notin> set delim) s1)))"

lemma strtok_decreases: "strtok delim s = Some (tok, rest) \<Longrightarrow> length rest < length s"
proof -
  assume a: "strtok delim s = Some (tok, rest)"
  let ?s1 = "dropWhile (\<lambda>c. c \<in> set delim) s"
  from a have ne: "?s1 \<noteq> []" and rest: "rest = drop 1 (dropWhile (\<lambda>c. c \<notin> set delim) ?s1)"
    by (auto simp: strtok_def Let_def split: if_splits)
  have "length (drop 1 (dropWhile (\<lambda>c. c \<notin> set delim) ?s1)) < length ?s1"
    using ne by (cases ?s1) (auto simp: le_imp_less_Suc length_dropWhile_le
      intro: le_less_trans [OF diff_le_self])
  with rest show ?thesis
    using length_dropWhile_le [of "\<lambda>c. c \<in> set delim" s] by simp
qed

function split_loop :: "string \<Rightarrow> string \<Rightarrow> string list" where
  "split_loop delim s =
     (case strtok delim s of None \<Rightarrow> [] | Some (tok, rest) \<Rightarrow> tok # split_loop delim rest)"
  by pat_completeness auto
termination
  by (relation "measure (\<lambda>(d, s). length s)") (auto dest: strtok_decreases)

declare split_loop.simps [simp del]

definition split :: "string \<Rightarrow> string \<Rightarrow> string list" where
  "split str delim = split_loop (c_str delim) (c_str str)"

subsection \<open>Trimming and case\<close>

definition ltrim :: "string \<Rightarrow> string" where
  "ltrim s = drop (case find_index (\<lambda>c. \<not> isspace c) s of None \<Rightarrow> length s | Some i \<Rightarrow> i) s"

definition rtrim :: "string \<Rightarrow> string" where
  "rtrim s = take (length s - (case find_index (\<lambda>c. \<not> isspace c) (rev s) of
                                 None \<Rightarrow> length s | Some i \<Rightarrow> i)) s"

definition trim :: "string \<Rightarrow> string" where
  "trim s = rtrim (ltrim s)"

definition ltrimmed :: "string \<Rightarrow> string" where
  "ltrimmed s = ltrim s"

definition rtrimmed :: "string \<Rightarrow> string" where
  "rtrimmed s = rtrim s"

definition trimmed :: "string \<Rightarrow> string" where
  "trimmed s = trim s"

definition lowercase :: "string \<Rightarrow> string" where
  "lowercase s = map tolower s"

subsection \<open>\<open>replaceAll\<close>\<close>

text \<open>The loop need not end (an empty key is found everywhere), so it is a partial function:
  \<^const>\<open>None\<close> is a call that does not return.\<close>

partial_function (option) replaceAll_loop ::
    "string \<Rightarrow> string \<Rightarrow> string \<Rightarrow> nat \<Rightarrow> string option" where
  "replaceAll_loop key replacement result pos =
     (case str_find result key pos of
        None \<Rightarrow> Some result
      | Some p \<Rightarrow>
          replaceAll_loop key replacement
            (take p result @ replacement @ drop (p + length key) result)
            (p + (if length key > length replacement then 0 else length replacement)))"

definition replaceAll :: "string \<Rightarrow> string \<Rightarrow> string \<Rightarrow> string option" where
  "replaceAll orig key replacement = replaceAll_loop key replacement orig 0"

subsection \<open>\<open>hash64\<close>\<close>

definition hash64 :: "string \<Rightarrow> 64 word" where
  "hash64 key =
     foldl (\<lambda>hash c. (hash XOR word_of_nat (code c)) * 0x100000001b3) 0xcbf29ce484222325 key"

subsection \<open>Environment variables\<close>

text \<open>\<open>::setenv\<close> and \<open>::unsetenv\<close> fail (\<open>EINVAL\<close>) for an empty name or one that holds
  an equals sign. \<open>env\<close> returns the value only when it is valid.\<close>

type_synonym environ = "string \<Rightarrow> string option"

definition env_name_ok :: "string \<Rightarrow> bool" where
  "env_name_ok name \<longleftrightarrow> c_str name \<noteq> [] \<and> CHR ''='' \<notin> set (c_str name)"

definition env :: "environ \<Rightarrow> string \<Rightarrow> bool \<Rightarrow> string option" where
  "env E name allowEmpty =
     (case E (c_str name) of
        None \<Rightarrow> None
      | Some v \<Rightarrow> if v = [] \<and> \<not> allowEmpty then None else Some v)"

definition setenv :: "environ \<Rightarrow> string \<Rightarrow> string \<Rightarrow> bool \<times> environ" where
  "setenv E name value =
     (if env_name_ok name then (True, E(c_str name \<mapsto> c_str value)) else (False, E))"

definition unsetenv :: "environ \<Rightarrow> string \<Rightarrow> bool \<times> environ" where
  "unsetenv E name =
     (if env_name_ok name then (True, E(c_str name := None)) else (False, E))"

subsection \<open>Lemmas on tokens\<close>

text \<open>The reference for \<open>split\<close>: the maximal runs of non-delimiters.\<close>

fun runs :: "string \<Rightarrow> string \<Rightarrow> string \<Rightarrow> string list" where
  "runs delim [] acc = (if acc = [] then [] else [rev acc])"
| "runs delim (c # s) acc =
     (if c \<in> set delim then (if acc = [] then runs delim s [] else rev acc # runs delim s [])
      else runs delim s (c # acc))"

lemma runs_skip: "runs delim s [] = runs delim (dropWhile (\<lambda>c. c \<in> set delim) s) []"
  by (induction s) auto

lemma runs_token:
  "runs delim s acc =
     (let t = rev acc @ takeWhile (\<lambda>c. c \<notin> set delim) s;
          r = drop 1 (dropWhile (\<lambda>c. c \<notin> set delim) s)
      in if t = [] then runs delim r [] else t # runs delim r [])"
  by (induction s arbitrary: acc) (auto simp: Let_def)

lemma split_loop_runs: "split_loop delim s = runs delim s []"
proof (induction "length s" arbitrary: s rule: less_induct)
  case less
  let ?s1 = "dropWhile (\<lambda>c. c \<in> set delim) s"
  show ?case
  proof (cases "?s1 = []")
    case True
    then show ?thesis
      by (simp only: split_loop.simps [of delim s] strtok_def runs_skip [of delim s] Let_def)
         simp
  next
    case False
    let ?t = "takeWhile (\<lambda>c. c \<notin> set delim) ?s1"
    let ?r = "drop 1 (dropWhile (\<lambda>c. c \<notin> set delim) ?s1)"
    from False have st: "strtok delim s = Some (?t, ?r)" by (simp add: strtok_def Let_def)
    from False have "?t \<noteq> []"
      using hd_dropWhile [of "\<lambda>c. c \<in> set delim" s] by (cases ?s1) auto
    then have "runs delim ?s1 [] = ?t # runs delim ?r []"
      by (subst runs_token) (simp add: Let_def)
    with st less [OF strtok_decreases [OF st]] show ?thesis
      by (simp add: split_loop.simps [of delim s] runs_skip [of delim s])
  qed
qed

lemma split_runs: "split str delim = runs (c_str delim) (c_str str) []"
  by (simp add: split_def split_loop_runs)

lemma c_str_id [simp]: "NUL \<notin> set s \<Longrightarrow> c_str s = s"
  by (auto simp: c_str_def takeWhile_eq_all_conv)

lemma c_str_idem [simp]: "c_str (c_str s) = c_str s"
  by (simp add: c_str_def)

lemma c_str_subset: "set (c_str s) \<subseteq> set s"
  by (auto simp: c_str_def dest: set_takeWhileD)

lemma c_str_append: "NUL \<notin> set s \<Longrightarrow> c_str (s @ t) = s @ c_str t"
  by (induction s) (auto simp: c_str_def)

lemma length_c_str: "length (c_str s) \<le> length s"
  by (simp add: c_str_def length_takeWhile_le)

lemma runs_char: "runs [d] s acc =
    (case pieces d s of [] \<Rightarrow> [] | p # ps \<Rightarrow> filter (\<lambda>x. x \<noteq> []) ((rev acc @ p) # ps))"
proof (induction s arbitrary: acc)
  case (Cons c s)
  then show ?case by (cases "pieces d s") (auto split: list.splits)
qed simp

lemma split_char: "d \<noteq> NUL \<Longrightarrow> split s [d] = filter (\<lambda>x. x \<noteq> []) (pieces d (c_str s))"
  by (cases "pieces d (c_str s)") (auto simp: split_runs runs_char c_str_def)

lemma split_parts: "p \<in> set (split s delim) \<Longrightarrow> p \<noteq> [] \<and> set p \<subseteq> set s \<and> NUL \<notin> set p \<and>
    (\<forall>c \<in> set p. c \<notin> set (c_str delim))"
proof -
  have *: "\<forall>p \<in> set (runs d t acc). p \<noteq> [] \<and> set p \<subseteq> set t \<union> set acc \<and>
      (set acc \<inter> set d = {} \<longrightarrow> set p \<inter> set d = {})" for d t acc
  proof (induction t arbitrary: acc)
    case (Cons c t)
    show ?case using Cons [of "[]"] Cons [of "c # acc"] by (auto simp: subset_iff)
  qed simp
  have nul: "NUL \<notin> set (c_str s)" by (auto simp: c_str_def dest: set_takeWhileD)
  assume "p \<in> set (split s delim)"
  with * [of "c_str delim" "c_str s" "[]"] nul c_str_subset [of s] show ?thesis
    by (fastforce simp: split_runs)
qed

subsection \<open>Lemmas on trimming\<close>

lemma ltrim_dropWhile: "ltrim s = dropWhile isspace s"
proof (cases "find_index (\<lambda>c. \<not> isspace c) s")
  case None
  then have "dropWhile isspace s = []" by (simp add: find_index_None_iff dropWhile_eq_Nil_conv)
  with None show ?thesis by (simp only: ltrim_def option.case drop_all order_refl)
next
  case (Some i)
  then show ?thesis using find_index_takeWhile [OF Some] by (simp add: ltrim_def comp_def)
qed

lemma rtrim_rev: "rtrim s = rev (ltrim (rev s))"
  by (simp add: rtrim_def ltrim_def rev_drop split: option.split)

lemma trimmed_eq: "trimmed s = rev (dropWhile isspace (rev (dropWhile isspace s)))"
  by (simp add: trimmed_def trim_def rtrim_rev ltrim_dropWhile)

lemma trimmed_Nil_iff: "trimmed s = [] \<longleftrightarrow> (\<forall>c \<in> set s. isspace c)"
proof
  assume "trimmed s = []"
  then have "\<forall>c \<in> set (dropWhile isspace s). isspace c" by (simp add: trimmed_eq)
  then show "\<forall>c \<in> set s. isspace c"
    by (metis UnE set_append set_takeWhileD takeWhile_dropWhile_id)
next
  assume "\<forall>c \<in> set s. isspace c"
  then show "trimmed s = []" by (auto simp: trimmed_eq dest: set_dropWhileD)
qed

lemma trimmed_id: "s = [] \<or> (\<not> isspace (hd s) \<and> \<not> isspace (last s)) \<Longrightarrow> trimmed s = s"
proof (cases "s = []")
  case False
  assume "s = [] \<or> (\<not> isspace (hd s) \<and> \<not> isspace (last s))"
  with False have h: "\<not> isspace (hd s)" and l: "\<not> isspace (last s)" by auto
  from False h have "dropWhile isspace s = s" by (cases s) simp_all
  moreover from False l have "dropWhile isspace (rev s) = rev s"
    by (cases s rule: rev_cases) simp_all
  ultimately show ?thesis by (simp add: trimmed_eq)
qed (simp add: trimmed_eq)

lemma set_trimmed: "set (trimmed s) \<subseteq> set s"
  unfolding trimmed_eq by (auto dest!: set_dropWhileD)

lemma trimmed_idem: "trimmed (trimmed s) = trimmed s"
proof (cases "trimmed s = []")
  case False
  let ?t = "dropWhile isspace s"
  let ?r = "dropWhile isspace (rev ?t)"
  from False have r: "?r \<noteq> []" by (simp only: trimmed_eq rev_is_Nil_conv not_False_eq_True)
  then have l: "\<not> isspace (last (trimmed s))"
    by (simp add: trimmed_eq last_rev hd_dropWhile)
  from r have t: "?t \<noteq> []" by (metis dropWhile.simps(1) rev.simps(1))
  then have "last ?r = last (rev ?t)"
    using r by (metis last_appendR takeWhile_dropWhile_id)
  then have "hd (trimmed s) = hd ?t"
    using r t by (simp add: trimmed_eq hd_rev last_rev)
  with t have "\<not> isspace (hd (trimmed s))" by (simp add: hd_dropWhile)
  with l show ?thesis by (intro trimmed_id) simp
next
  case True
  then show ?thesis by (simp only:) (simp add: trimmed_eq)
qed

subsection \<open>Lemmas on replacing\<close>

text \<open>The reference: replace the leftmost occurrence, go on behind it in the input.\<close>

function subst_all :: "string \<Rightarrow> string \<Rightarrow> string \<Rightarrow> string" where
  "subst_all k r s =
     (if k = [] then s
      else case find_sub k s of
             None \<Rightarrow> s
           | Some i \<Rightarrow> take i s @ r @ subst_all k r (drop (i + length k) s))"
  by pat_completeness auto
termination
proof (relation "measure (\<lambda>(k, r, s). length s)", goal_cases)
  case (2 k r s i)
  then show ?case
    by (cases k) (auto simp: find_sub_Some_iff dest!: prefix_length_le)
qed simp

declare subst_all.simps [simp del]

lemma str_find_at_prefix:
  "str_find (pre @ s) k (length pre) = map_option ((+) (length pre)) (find_sub k s)"
  by (simp add: str_find_def)

lemma replaceAll_loop_subst_all:
  assumes "k \<noteq> []" and "length k \<le> length r \<or> r = []"
  shows "replaceAll_loop k r (pre @ s) (length pre) = Some (pre @ subst_all k r s)"
proof (induction "length s" arbitrary: pre s rule: less_induct)
  case less
  show ?case
  proof (cases "find_sub k s")
    case None
    then show ?thesis
      by (simp add: replaceAll_loop.simps [of k r "pre @ s"] str_find_at_prefix
          subst_all.simps [of k r s])
  next
    case (Some i)
    let ?t = "drop (i + length k) s"
    from Some have i: "i \<le> length s" and "prefix k (drop i s)"
      by (auto simp: find_sub_Some_iff)
    then have "i + length k \<le> length s" by (auto dest: prefix_length_le)
    with assms(1) have "length ?t < length s" by (cases k) auto
    from less [OF this, of "pre @ take i s @ r"] i
    have "replaceAll_loop k r (pre @ take i s @ r @ ?t) (length pre + (i + length r)) =
        Some (pre @ take i s @ r @ subst_all k r ?t)" by simp
    with Some i assms show ?thesis
      by (auto simp: replaceAll_loop.simps [of k r "pre @ s"] str_find_at_prefix
          subst_all.simps [of k r s] ac_simps)
  qed
qed

lemma replaceAll_loop_shrink:
  assumes "length r < length k"
  shows "\<exists>y. replaceAll_loop k r s pos = Some y"
proof (induction "length s" arbitrary: s pos rule: less_induct)
  case less
  show ?case
  proof (cases "str_find s k pos")
    case None
    then show ?thesis by (simp add: replaceAll_loop.simps [of k r s])
  next
    case (Some p)
    let ?s = "take p s @ r @ drop (p + length k) s"
    from Some have "p + length k \<le> length s" by (auto dest: str_find_bounds)
    with assms have "length ?s < length s" by simp
    from less [OF this] obtain y where "replaceAll_loop k r ?s p = Some y"
      by blast
    with Some assms show ?thesis by (simp add: replaceAll_loop.simps [of k r s pos])
  qed
qed

lemma replaceAll_loop_empty_key:
  assumes "replaceAll_loop k r s pos = Some y"
  shows "k = [] \<longrightarrow> length s < pos"
proof (rule replaceAll_loop.raw_induct [where P = "\<lambda>k r s pos y. k = [] \<longrightarrow> length s < pos",
    OF _ assms])
  fix f k r s pos y
  assume IH: "\<And>k r s pos y. f k r s pos = Some y \<Longrightarrow> k = [] \<longrightarrow> length s < pos"
    and eq: "(case str_find s k pos of None \<Rightarrow> Some s
      | Some p \<Rightarrow> f k r (take p s @ r @ drop (p + length k) s)
          (p + (if length r < length k then 0 else length r))) = Some y"
  show "k = [] \<longrightarrow> length s < pos"
    using eq by (fastforce simp: str_find_def split: if_splits dest: IH)
qed

lemma subst_all_char: "subst_all [c] r s = concat (map (\<lambda>x. if x = c then r else [x]) s)"
proof (induction "length s" arbitrary: s rule: less_induct)
  case less
  let ?f = "\<lambda>x. if x = c then r else [x]"
  show ?case
  proof (cases "find_index (\<lambda>x. x = c) s")
    case None
    then have "c \<notin> set s" by (auto simp: find_index_None_iff)
    then have "concat (map ?f s) = s" by (induction s) auto
    with None show ?thesis
      by (simp add: subst_all.simps [of "[c]" r s] find_sub_singleton)
  next
    case (Some i)
    then have i: "i < length s" "s ! i = c" by (auto simp: find_index_Some_iff)
    from find_index_take [OF Some] have "c \<notin> set (take i s)" by auto
    have "c \<notin> set t \<Longrightarrow> concat (map ?f t) = t" for t by (induction t) auto
    from this [OF \<open>c \<notin> set (take i s)\<close>] have *: "concat (map ?f (take i s)) = take i s" .
    have "concat (map ?f s) = concat (map ?f (take i s @ c # drop (Suc i) s))"
      using find_index_split [OF Some] i by simp
    also have "\<dots> = take i s @ r @ concat (map ?f (drop (Suc i) s))"
      using * by simp
    finally show ?thesis
      using Some i less [of "drop (Suc i) s"]
      by (simp add: subst_all.simps [of "[c]" r s] find_sub_singleton)
  qed
qed

subsection \<open>Properties\<close>

text \<open>
  \<open>replaceAll\<close> returns exactly for a non-empty key: with an empty one the loop finds the
  key at every position and runs for ever.
\<close>

theorem replaceAll_returns_iff: "(\<exists>y. replaceAll s k r = Some y) \<longleftrightarrow> k \<noteq> []"
proof
  assume "\<exists>y. replaceAll s k r = Some y"
  then show "k \<noteq> []" by (auto simp: replaceAll_def dest: replaceAll_loop_empty_key)
next
  assume "k \<noteq> []"
  then show "\<exists>y. replaceAll s k r = Some y"
    using replaceAll_loop_subst_all [of k r "[]" s] replaceAll_loop_shrink [of r k s 0]
    by (cases "length k \<le> length r") (auto simp: replaceAll_def)
qed

text \<open>
  With a replacement no shorter than the key (or an empty one), \<open>replaceAll\<close> replaces
  the leftmost occurrence and goes on behind it: text it has put in is never looked at again.
\<close>

theorem replaceAll_leftmost:
  assumes "k \<noteq> []" and "length k \<le> length r \<or> r = []"
  shows "replaceAll s k r = Some (subst_all k r s)"
  using replaceAll_loop_subst_all [OF assms, of "[]" s] by (simp add: replaceAll_def)

lemma replaceAll_char:
  "replaceAll s [c] r = Some (concat (map (\<lambda>x. if x = c then r else [x]) s))"
proof -
  have "length [c] \<le> length r \<or> r = []" by (cases r) auto
  then show ?thesis
    using replaceAll_loop_subst_all [of "[c]" r "[]" s]
    by (simp add: replaceAll_def subst_all_char)
qed

text \<open>
  The two splitting functions of the library agree up to empty pieces: \<open>split\<close> at one
  character (over \<open>strtok_r\<close>) gives the non-empty pieces of \<open>Split\<close>, of the text up to
  the first NUL byte.
\<close>

theorem split_Split:
  assumes "d \<noteq> NUL"
  shows "split s [d] = filter (\<lambda>p. p \<noteq> []) (Split (c_str s) d)"
  using assms by (simp add: split_char Split_pieces)

text \<open>
  Setting an environment variable succeeds exactly for a name the system accepts; then
  reading that name gives the value, up to its first NUL byte, and every other name reads as
  before.
\<close>

theorem setenv_env:
  assumes "setenv E n v = (True, E')"
  shows "env E' n True = Some (c_str v) \<and>
    (\<forall>m a. c_str m \<noteq> c_str n \<longrightarrow> env E' m a = env E m a)"
  using assms by (auto simp: setenv_def env_def split: if_splits)

end
