(* ===== verification/Sha1_Digest.thy ===== *)
theory Sha1_Digest
  imports Text_Util "HOL-Library.While_Combinator"
begin

unbundle bit_operations_syntax

section \<open>SHA-1: the streaming digest and the standard it implements\<close>

text \<open>
  Class \<open>Sha1\<close> of \<^verbatim>\<open>src/src/Util.cc\<close> and the function \<open>sha1\<close> over it. The state keeps the
  bytes of the unfinished block (the first \<open>blockByteIndex\<close> entries of the array \<open>block\<close>)
  and the two halves of the bit count, which are \<open>size_t\<close> values used as 32-bit counters.
  \<open>unsigned int\<close> is a \<^typ>\<open>32 word\<close>, so sums wrap as they do in the code.
\<close>

type_synonym u8 = "8 word"
type_synonym u32 = "32 word"
type_synonym digest5 = "u32 \<times> u32 \<times> u32 \<times> u32 \<times> u32"

record sha1_state =
  block :: "u8 list"
  bitCountLow :: "64 word"
  bitCountHigh :: "64 word"

definition Sha1 :: sha1_state where
  "Sha1 = \<lparr>block = [], bitCountLow = 0, bitCountHigh = 0\<rparr>"

abbreviation blockByteIndex :: "sha1_state \<Rightarrow> nat" where
  "blockByteIndex st \<equiv> length (block st)"

definition LEFT_ROTATE :: "u32 \<Rightarrow> nat \<Rightarrow> u32" where
  "LEFT_ROTATE x n = push_bit n x XOR drop_bit (32 - n) x"

text \<open>The first sixteen words of the schedule, from the block, and the other sixty-four.\<close>

definition block_word :: "u8 list \<Rightarrow> nat \<Rightarrow> u32" where
  "block_word blk i =
     ((push_bit 24 (ucast (blk ! (i * 4 + 0))) OR push_bit 16 (ucast (blk ! (i * 4 + 1))))
      OR push_bit 8 (ucast (blk ! (i * 4 + 2)))) OR ucast (blk ! (i * 4 + 3))"

definition schedule :: "u8 list \<Rightarrow> u32 list" where
  "schedule blk =
     fold (\<lambda>i w. w @ [LEFT_ROTATE (w ! (i - 3) XOR w ! (i - 8) XOR w ! (i - 14) XOR w ! (i - 16)) 1])
       [16..<80] (map (block_word blk) [0..<16])"

definition round :: "u32 list \<Rightarrow> nat \<Rightarrow> digest5 \<Rightarrow> digest5" where
  "round w i = (\<lambda>(a, b, c, d, e).
     let (f, k) =
           (if i < 20 then ((b AND c) OR (NOT b AND d), 0x5A827999)
            else if i < 40 then (b XOR c XOR d, 0x6ED9EBA1)
            else if i < 60 then ((b AND c) OR (b AND d) OR (c AND d), 0x8F1BBCDC)
            else (b XOR c XOR d, 0xCA62C1D6));
         temp = LEFT_ROTATE a 5 + f + e + k + w ! i
     in (temp, a, LEFT_ROTATE b 30, c, d))"

definition add5 :: "digest5 \<Rightarrow> digest5 \<Rightarrow> digest5" where
  "add5 = (\<lambda>(h0, h1, h2, h3, h4) (a, b, c, d, e). (h0 + a, h1 + b, h2 + c, h3 + d, h4 + e))"

definition Byte :: "u8 \<Rightarrow> digest5 \<times> sha1_state \<Rightarrow> digest5 \<times> sha1_state" where
  "Byte b = (\<lambda>(hash, st).
     let st = st\<lparr>block := block st @ [b]\<rparr>
     in if blockByteIndex st = 64
        then (let w = schedule (block st)
              in (add5 hash (fold (round w) [0..<80] hash), st\<lparr>block := []\<rparr>))
        else (hash, st))"

text \<open>One turn of the counting loop; \<^const>\<open>None\<close> is the \<open>return false\<close> on too many bytes.\<close>

definition count_byte :: "sha1_state \<Rightarrow> sha1_state option" where
  "count_byte st =
     (if bitCountLow st < 0xFFFFFFF8 then Some (st\<lparr>bitCountLow := bitCountLow st + 8\<rparr>)
      else if bitCountHigh st \<le> 0xFFFFFFFE
      then Some (st\<lparr>bitCountLow := 0, bitCountHigh := bitCountHigh st + 1\<rparr>)
      else None)"

fun feed_counted :: "u8 list \<Rightarrow> digest5 \<times> sha1_state \<Rightarrow> (digest5 \<times> sha1_state) option" where
  "feed_counted [] hs = Some hs"
| "feed_counted (b # bs) hs =
     (let (hash, st) = Byte b hs
      in case count_byte st of None \<Rightarrow> None | Some st' \<Rightarrow> feed_counted bs (hash, st'))"

definition zeros_while :: "(nat \<Rightarrow> bool) \<Rightarrow> digest5 \<times> sha1_state \<Rightarrow> digest5 \<times> sha1_state" where
  "zeros_while P = while (\<lambda>(hash, st). P (blockByteIndex st)) (Byte 0)"

definition count_bytes :: "sha1_state \<Rightarrow> u8 list" where
  "count_bytes st =
     map (\<lambda>n. ucast (drop_bit n (bitCountHigh st) AND 0xFF)) [24, 16, 8, 0]
     @ map (\<lambda>n. ucast (drop_bit n (bitCountLow st) AND 0xFF)) [24, 16, 8, 0]"

definition init_hash :: digest5 where
  "init_hash = (0x67452301, 0xEFCDAB89, 0x98BADCFE, 0x10325476, 0xC3D2E1F0)"

definition Digest :: "u8 list \<Rightarrow> digest5 option" where
  "Digest buffer =
     (case feed_counted buffer (init_hash, Sha1) of
        None \<Rightarrow> None
      | Some hs \<Rightarrow>
          (let hs = Byte 0x80 hs;
               hs = (if blockByteIndex (snd hs) > 56
                     then zeros_while (\<lambda>i. i < 56) (zeros_while (\<lambda>i. i \<noteq> 0) hs)
                     else zeros_while (\<lambda>i. i < 56) hs)
           in Some (fst (fold Byte (count_bytes (snd hs)) hs))))"

definition hex_digit :: "nat \<Rightarrow> char" where
  "hex_digit n = char_of (if n < 10 then 48 + n else 87 + n)"

definition hex_word :: "u32 \<Rightarrow> string" where
  "hex_word h = map (\<lambda>n. hex_digit (unat (drop_bit (4 * n) h AND 0xF))) [7, 6, 5, 4, 3, 2, 1, 0]"

definition sha1 :: "u8 list \<Rightarrow> string" where
  "sha1 buffer =
     (case Digest buffer of
        None \<Rightarrow> []
      | Some (h0, h1, h2, h3, h4) \<Rightarrow>
          hex_word h0 @ hex_word h1 @ hex_word h2 @ hex_word h3 @ hex_word h4)"

subsection \<open>The standard: FIPS 180-4\<close>

text \<open>
  The reference is the text of the standard: the functions \<open>Ch\<close>, \<open>Parity\<close> and \<open>Maj\<close>, the
  rotation of the word library, the schedule as a recursion, and a padding function on the
  whole message, which is cut into blocks of 64 bytes.
\<close>

definition fips_f :: "nat \<Rightarrow> u32 \<Rightarrow> u32 \<Rightarrow> u32 \<Rightarrow> u32" where
  "fips_f t x y z =
     (if t < 20 then (x AND y) XOR (NOT x AND z)
      else if t < 40 then x XOR y XOR z
      else if t < 60 then (x AND y) XOR (x AND z) XOR (y AND z)
      else x XOR y XOR z)"

definition fips_k :: "nat \<Rightarrow> u32" where
  "fips_k t = (if t < 20 then 0x5A827999 else if t < 40 then 0x6ED9EBA1
               else if t < 60 then 0x8F1BBCDC else 0xCA62C1D6)"

fun fips_w :: "u8 list \<Rightarrow> nat \<Rightarrow> u32" where
  "fips_w blk t =
     (if t < 16 then block_word blk t
      else word_rotl 1 (fips_w blk (t - 3) XOR fips_w blk (t - 8)
                        XOR fips_w blk (t - 14) XOR fips_w blk (t - 16)))"

declare fips_w.simps [simp del]

fun fips_rounds :: "u8 list \<Rightarrow> nat \<Rightarrow> digest5 \<Rightarrow> digest5" where
  "fips_rounds blk 0 h = h"
| "fips_rounds blk (Suc t) h =
     (let (a, b, c, d, e) = fips_rounds blk t h
      in (word_rotl 5 a + fips_f t b c d + e + fips_k t + fips_w blk t, a, word_rotl 30 b, c, d))"

definition fips_block :: "digest5 \<Rightarrow> u8 list \<Rightarrow> digest5" where
  "fips_block h blk = add5 h (fips_rounds blk 80 h)"

function chunks64 :: "u8 list \<Rightarrow> u8 list list" where
  "chunks64 xs = (if length xs < 64 then [] else take 64 xs # chunks64 (drop 64 xs))"
  by pat_completeness auto
termination
  by (relation "measure length") auto

declare chunks64.simps [simp del]

definition rest64 :: "u8 list \<Rightarrow> u8 list" where
  "rest64 xs = drop (64 * (length xs div 64)) xs"

definition be64 :: "nat \<Rightarrow> u8 list" where
  "be64 v = map (\<lambda>s. word_of_nat (drop_bit s v)) [56, 48, 40, 32, 24, 16, 8, 0]"

definition fips_pad :: "u8 list \<Rightarrow> u8 list" where
  "fips_pad m =
     m @ [0x80] @ replicate ((119 - length m mod 64) mod 64) 0 @ be64 (8 * length m)"

definition fips_sha1 :: "u8 list \<Rightarrow> digest5" where
  "fips_sha1 m = foldl fips_block init_hash (chunks64 (fips_pad m))"

subsection \<open>One block\<close>

lemma LEFT_ROTATE_rotl: "0 < n \<Longrightarrow> n < 32 \<Longrightarrow> LEFT_ROTATE x n = word_rotl n x"
proof (rule bit_word_eqI)
  fix m
  assume n: "0 < n" "n < 32" and "m < LENGTH(32)"
  then have m: "m < 32" by simp
  have len: "LENGTH(32) = 32" by simp
  have rot: "bit (word_rotl n x) m \<longleftrightarrow> bit x ((m + (32 - n)) mod 32)"
    unfolding bit_word_rotl_iff len mod_less [OF n(2)] using m by simp
  have shifts: "bit (LEFT_ROTATE x n) m \<longleftrightarrow> (n \<le> m \<and> bit x (m - n)) \<noteq> bit x (m + (32 - n))"
    using m by (simp add: LEFT_ROTATE_def bit_xor_iff bit_push_bit_iff bit_drop_bit_eq add.commute)
  show "bit (LEFT_ROTATE x n) m \<longleftrightarrow> bit (word_rotl n x) m"
  proof (cases "n \<le> m")
    case True
    then have "(m + (32 - n)) mod 32 = m - n" using n m by (simp add: mod_if)
    moreover have "\<not> bit x (m + (32 - n))" using True n by (auto dest: bit_imp_le_length)
    ultimately show ?thesis using True by (simp only: rot shifts) simp
  next
    case False
    then have "(m + (32 - n)) mod 32 = m + (32 - n)" using n by (intro mod_less) linarith
    with False show ?thesis by (simp only: rot shifts) simp
  qed
qed

lemma round_fips:
  "round w t (a, b, c, d, e) =
     (word_rotl 5 a + fips_f t b c d + e + fips_k t + w ! t, a, word_rotl 30 b, c, d)"
proof -
  have "(b AND c) OR (NOT b AND d) = (b AND c) XOR (NOT b AND d)"
    by (rule bit_word_eqI) (auto simp: bit_simps)
  moreover have "(b AND c) OR (b AND d) OR (c AND d) = (b AND c) XOR (b AND d) XOR (c AND d)"
    by (rule bit_word_eqI) (auto simp: bit_simps)
  ultimately show ?thesis
    by (simp add: round_def LEFT_ROTATE_rotl fips_f_def fips_k_def Let_def)
qed

lemma schedule_prefix:
  "n \<le> 64 \<Longrightarrow>
    fold (\<lambda>i w. w @ [LEFT_ROTATE (w ! (i - 3) XOR w ! (i - 8) XOR w ! (i - 14) XOR w ! (i - 16)) 1])
      [16..<16 + n] (map (block_word blk) [0..<16]) = map (fips_w blk) [0..<16 + n]"
proof (induction n)
  case 0
  show ?case by (simp add: fips_w.simps)
next
  case (Suc n)
  have "fips_w blk (16 + n) = LEFT_ROTATE (fips_w blk (16 + n - 3) XOR fips_w blk (16 + n - 8)
      XOR fips_w blk (16 + n - 14) XOR fips_w blk (16 + n - 16)) 1"
    by (subst fips_w.simps) (simp add: LEFT_ROTATE_rotl)
  moreover have "[16..<16 + Suc n] = [16..<16 + n] @ [16 + n]"
      "[0..<16 + Suc n] = [0..<16 + n] @ [16 + n]"
    using upt_Suc_append [of 16 "16 + n"] upt_Suc_append [of 0 "16 + n"]
    by (simp_all only: add_Suc_right le_add1 le0 simp_thms)
  ultimately show ?case using Suc by (simp only: fold_append map_append) simp
qed

lemma schedule_fips_w: "schedule blk = map (fips_w blk) [0..<80]"
proof -
  have "16 + 64 = (80 :: nat)" by simp
  with schedule_prefix [of 64 blk] show ?thesis by (simp only: schedule_def order_refl)
qed

lemma rounds_fips: "n \<le> 80 \<Longrightarrow> fold (round (schedule blk)) [0..<n] h = fips_rounds blk n h"
proof (induction n)
  case (Suc n)
  obtain a b c d e where r: "fips_rounds blk n h = (a, b, c, d, e)" by (metis prod_cases5)
  have "schedule blk ! n = fips_w blk n" using Suc.prems by (simp add: schedule_fips_w)
  with Suc r show ?case by (simp add: round_fips)
qed simp

lemma Byte_fips:
  "Byte b (h, st) =
     (if blockByteIndex st = 63
      then (fips_block h (block st @ [b]), st\<lparr>block := []\<rparr>)
      else (h, st\<lparr>block := block st @ [b]\<rparr>))"
proof -
  have "add5 h (fold (round (schedule blk)) [0..<80] h) = fips_block h blk" for blk
    by (simp only: rounds_fips order_refl fips_block_def)
  then show ?thesis by (simp only: Byte_def Let_def case_prod_conv) simp
qed

subsection \<open>Streaming\<close>

text \<open>Bytes may come one at a time: what counts is the unfinished block followed by the
  input.\<close>

lemma chunks64_short: "length xs < 64 \<Longrightarrow> chunks64 xs = []"
  by (simp add: chunks64.simps)

lemma rest64_short: "length xs < 64 \<Longrightarrow> rest64 xs = xs"
  by (simp add: rest64_def)

lemma chunks64_block: "length b = 64 \<Longrightarrow> chunks64 (b @ xs) = b # chunks64 xs"
  by (subst chunks64.simps) simp

lemma rest64_block: "length b = 64 \<Longrightarrow> rest64 (b @ xs) = rest64 xs"
proof -
  have "(64 + length xs) div 64 = length xs div 64 + 1" by (rule div_add_self1) simp
  then have "64 * ((64 + length xs) div 64) = 64 + 64 * (length xs div 64)" by linarith
  moreover assume "length b = 64"
  ultimately show ?thesis by (simp only: rest64_def length_append) simp
qed

lemma length_rest64: "length (rest64 xs) = length xs mod 64"
  by (simp add: rest64_def minus_mult_div_eq_mod)

lemma fold_Byte:
  assumes "blockByteIndex st < 64"
  shows "fold Byte bs (h, st) =
    (foldl fips_block h (chunks64 (block st @ bs)), st\<lparr>block := rest64 (block st @ bs)\<rparr>)"
  using assms
proof (induction bs arbitrary: h st)
  case Nil
  then show ?case by (simp add: chunks64_short rest64_short)
next
  case (Cons b bs)
  show ?case
  proof (cases "blockByteIndex st = 63")
    case True
    then have "length (block st @ [b]) = 64" by simp
    from chunks64_block [OF this, of bs] rest64_block [OF this, of bs] True
      Cons.IH [of "st\<lparr>block := []\<rparr>"]
    show ?thesis by (simp add: Byte_fips)
  next
    case False
    with Cons.prems Cons.IH [of "st\<lparr>block := block st @ [b]\<rparr>"] show ?thesis
      by (simp add: Byte_fips)
  qed
qed

lemma fold_Byte_index:
  "blockByteIndex st < 64 \<Longrightarrow>
    blockByteIndex (snd (fold Byte bs (h, st))) = (blockByteIndex st + length bs) mod 64"
  by (simp add: fold_Byte length_rest64)

text \<open>The padding loops: as many zeros as are missing.\<close>

lemma while_Byte_zeros:
  assumes "\<And>m. m < n \<Longrightarrow> P ((i + m) mod 64)" and "\<not> P ((i + n) mod 64)"
    and "blockByteIndex st = i" and "i < 64"
  shows "zeros_while P (h, st) = fold Byte (replicate n 0) (h, st)"
  using assms
proof (induction n arbitrary: i h st)
  case 0
  then show ?case by (simp add: zeros_while_def while_unfold)
next
  case (Suc n)
  obtain h' st' where B: "Byte 0 (h, st) = (h', st')" by (metis surj_pair)
  have i': "blockByteIndex st' = Suc i mod 64"
    using fold_Byte_index [of st "[0]" h] Suc.prems B by simp
  have "P i" using Suc.prems(1) [of 0] Suc.prems by simp
  then have "zeros_while P (h, st) = zeros_while P (h', st')"
    using B Suc.prems by (simp add: zeros_while_def) (subst while_unfold, simp)
  also have "\<dots> = fold Byte (replicate n 0) (h', st')"
  proof (rule Suc.IH [OF _ _ i'])
    fix m assume "m < n"
    then show "P ((Suc i mod 64 + m) mod 64)"
      using Suc.prems(1) [of "Suc m"] by (simp add: mod_add_left_eq)
  next
    show "\<not> P ((Suc i mod 64 + n) mod 64)"
      using Suc.prems(2) by (simp add: mod_add_left_eq)
  qed simp
  finally show ?case using B by simp
qed

lemma zeros_to_56:
  assumes "blockByteIndex st \<le> 56"
  shows "zeros_while (\<lambda>i. i < 56) (h, st) = fold Byte (replicate (56 - blockByteIndex st) 0) (h, st)"
  using assms by (intro while_Byte_zeros [OF _ _ refl]) auto

lemma zeros_to_0:
  assumes "56 < blockByteIndex st" and "blockByteIndex st < 64"
  shows "zeros_while (\<lambda>i. i \<noteq> 0) (h, st) = fold Byte (replicate (64 - blockByteIndex st) 0) (h, st)"
  using assms by (intro while_Byte_zeros [OF _ _ refl]) auto

lemma zeros_padding:
  assumes "blockByteIndex st < 64"
  shows "(if blockByteIndex st > 56
     then zeros_while (\<lambda>i. i < 56) (zeros_while (\<lambda>i. i \<noteq> 0) (h, st))
     else zeros_while (\<lambda>i. i < 56) (h, st)) =
   fold Byte (replicate ((120 - blockByteIndex st) mod 64) 0) (h, st)"
proof (cases "blockByteIndex st > 56")
  case True
  let ?i = "blockByteIndex st"
  obtain h' st' where s: "fold Byte (replicate (64 - ?i) 0) (h, st) = (h', st')" by (metis surj_pair)
  have "blockByteIndex st' = 0"
    using fold_Byte_index [of st "replicate (64 - ?i) 0" h] assms s by simp
  then have "zeros_while (\<lambda>i. i < 56) (h', st') = fold Byte (replicate 56 0) (h', st')"
    using zeros_to_56 [of st' h'] by simp
  moreover have "(120 - ?i) mod 64 = (64 - ?i) + 56" using True assms by (simp add: mod_if)
  moreover have "fold Byte (replicate ((64 - ?i) + 56) 0) (h, st) = fold Byte (replicate 56 0) (h', st')"
    by (simp only: replicate_add fold_append comp_apply s)
  moreover have "zeros_while (\<lambda>i. i \<noteq> 0) (h, st) = (h', st')"
    using zeros_to_0 [OF True assms, of h] s by simp
  ultimately show ?thesis using True by (simp only: if_True)
next
  case False
  then have "(120 - blockByteIndex st) mod 64 = 56 - blockByteIndex st"
    by (simp add: mod_if)
  with False show ?thesis by (simp add: zeros_to_56)
qed

lemma fold_Byte_only_block:
  assumes "block st = block st'" and "blockByteIndex st < 64"
  shows "fst (fold Byte bs (h, st)) = fst (fold Byte bs (h, st')) \<and>
    block (snd (fold Byte bs (h, st))) = block (snd (fold Byte bs (h, st')))"
  using assms by (simp add: fold_Byte)

subsection \<open>Counting\<close>

definition counted :: "sha1_state \<Rightarrow> nat \<Rightarrow> bool" where
  "counted st v \<longleftrightarrow> v < 2 ^ 64 \<and> v mod 8 = 0 \<and>
     bitCountLow st = word_of_nat (v mod 2 ^ 32) \<and> bitCountHigh st = word_of_nat (v div 2 ^ 32)"

lemma unat_of_small: "n < 2 ^ 64 \<Longrightarrow> unat (word_of_nat n :: 64 word) = n"
  by (simp add: unat_of_nat)

lemma div_mod_shift:
  fixes v m k :: nat
  assumes "0 < m"
  shows "(v + k) div m = v div m + (v mod m + k) div m" and "(v + k) mod m = (v mod m + k) mod m"
proof -
  have "v + k = (v mod m + k) + m * (v div m)" by simp
  then show "(v + k) div m = v div m + (v mod m + k) div m"
    using assms by (metis div_mult_self2 not_less_zero)
  show "(v + k) mod m = (v mod m + k) mod m" by (simp only: mod_add_left_eq)
qed

lemma div_mod_no_carry:
  "v mod m + k < m \<Longrightarrow> (v + k) div m = v div m \<and> (v + k) mod m = v mod m + k" for m :: nat
  using div_mod_shift [of m v k] by simp

lemma div_mod_carry:
  "v mod m + k = m \<Longrightarrow> 0 < m \<Longrightarrow> (v + k) div m = v div m + 1 \<and> (v + k) mod m = 0" for m :: nat
  using div_mod_shift [of m v k] by simp

lemma last_multiple_of_8: "l < 4294967296 \<Longrightarrow> l mod 8 = 0 \<Longrightarrow> \<not> l < 4294967288 \<Longrightarrow> l = 4294967288"
  for l :: nat
  by presburger

lemma count_byte_counted:
  assumes "counted st v"
  shows "count_byte st =
    (if v + 8 < 2 ^ 64
     then Some (st\<lparr>bitCountLow := word_of_nat ((v + 8) mod 2 ^ 32),
                   bitCountHigh := word_of_nat ((v + 8) div 2 ^ 32)\<rparr>)
     else None)"
proof -
  let ?l = "v mod 2 ^ 32" and ?h = "v div 2 ^ 32"
  from assms have v: "v < 2 ^ 64" "v mod 8 = 0" and low: "bitCountLow st = word_of_nat ?l"
    and high: "bitCountHigh st = word_of_nat ?h" by (simp_all add: counted_def)
  have l8: "?l mod 8 = 0" using v(2) by (simp add: mod_mod_cancel)
  have l: "?l < 2 ^ 32" by simp
  have h: "?h < 2 ^ 32" using v(1) by (simp add: less_mult_imp_div_less)
  have vlh: "v = 2 ^ 32 * ?h + ?l" by simp
  have cl: "bitCountLow st < 0xFFFFFFF8 \<longleftrightarrow> ?l < 0xFFFFFFF8"
    using l unfolding low by (simp add: word_less_nat_alt unat_of_nat)
  have ch: "bitCountHigh st \<le> 0xFFFFFFFE \<longleftrightarrow> ?h \<le> 0xFFFFFFFE"
    using h unfolding high by (simp add: word_le_nat_alt unat_of_nat)
  show ?thesis
  proof (cases "?l < 0xFFFFFFF8")
    case True
    have carry: "(v + 8) div 2 ^ 32 = ?h" "(v + 8) mod 2 ^ 32 = ?l + 8"
      using div_mod_no_carry [of v "2 ^ 32" 8] True by simp_all
    have low': "word_of_nat ((v + 8) mod 2 ^ 32) = bitCountLow st + 8"
      unfolding low carry by (simp only: of_nat_add) simp
    have high': "word_of_nat ((v + 8) div 2 ^ 32) = bitCountHigh st"
      by (simp only: high carry)
    have "(v + 8) div 2 ^ 32 < 2 ^ 32" by (simp only: carry h)
    then have "v + 8 < 2 ^ 64" by (simp add: div_less_iff_less_mult)
    with True show ?thesis
      unfolding low' high' by (simp only: count_byte_def cl if_True) simp
  next
    case False
    with l l8 have "?l = 0xFFFFFFF8" by (intro last_multiple_of_8) simp_all
    then have m: "(v + 8) mod 2 ^ 32 = 0" and d: "(v + 8) div 2 ^ 32 = ?h + 1"
      using div_mod_carry [of v "2 ^ 32" 8] by simp_all
    have fits: "v + 8 < 2 ^ 64 \<longleftrightarrow> ?h \<le> 0xFFFFFFFE"
    proof -
      have "v + 8 < 2 ^ 64 \<longleftrightarrow> (v + 8) div 2 ^ 32 < 2 ^ 32"
        by (simp add: div_less_iff_less_mult)
      also have "\<dots> \<longleftrightarrow> ?h + 1 < 2 ^ 32" by (simp only: d)
      finally show ?thesis by auto
    qed
    have "word_of_nat ((v + 8) div 2 ^ 32) = bitCountHigh st + 1"
      unfolding d high by (simp only: of_nat_add of_nat_1)
    with False m show ?thesis
      by (simp only: count_byte_def cl if_False ch fits) simp
  qed
qed

lemma Byte_counts [simp]:
  "bitCountLow (snd (Byte b hs)) = bitCountLow (snd hs)"
  "bitCountHigh (snd (Byte b hs)) = bitCountHigh (snd hs)"
  by (cases hs; simp add: Byte_fips)+

lemma feed_counted_fold:
  assumes "counted st v" and "blockByteIndex st < 64"
  shows "if v + 8 * length bs < 2 ^ 64
    then \<exists>st'. feed_counted bs (h, st) = Some (fst (fold Byte bs (h, st)), st') \<and>
           block st' = block (snd (fold Byte bs (h, st))) \<and> counted st' (v + 8 * length bs)
    else feed_counted bs (h, st) = None"
  using assms
proof (induction bs arbitrary: h st v)
  case Nil
  then show ?case by (auto simp: counted_def)
next
  case (Cons b bs)
  obtain h1 st1 where B: "Byte b (h, st) = (h1, st1)" by (metis surj_pair)
  have c1: "counted st1 v"
    using Cons.prems(1) Byte_counts [of b "(h, st)"] by (simp add: B counted_def)
  have i1: "blockByteIndex st1 < 64"
    using fold_Byte_index [of st "[b]" h] Cons.prems(2) by (simp add: B)
  show ?case
  proof (cases "v + 8 < 2 ^ 64")
    case False
    then have "count_byte st1 = None" by (simp only: count_byte_counted [OF c1] if_False)
    with False show ?thesis by (simp add: B)
  next
    case True
    let ?st = "st1\<lparr>bitCountLow := word_of_nat ((v + 8) mod 2 ^ 32),
      bitCountHigh := word_of_nat ((v + 8) div 2 ^ 32)\<rparr>"
    have cb: "count_byte st1 = Some ?st" using True by (simp only: count_byte_counted [OF c1] if_True)
    have c2: "counted ?st (v + 8)"
    proof -
      have "(v + 8) mod 8 = 0" using c1 by (simp only: counted_def mod_add_self2)
      moreover have "bitCountLow ?st = word_of_nat ((v + 8) mod 2 ^ 32)"
        "bitCountHigh ?st = word_of_nat ((v + 8) div 2 ^ 32)" by simp_all
      ultimately show ?thesis using True by (simp only: counted_def simp_thms)
    qed
    have same: "fst (fold Byte bs (h1, ?st)) = fst (fold Byte bs (h1, st1))"
        "block (snd (fold Byte bs (h1, ?st))) = block (snd (fold Byte bs (h1, st1)))"
      using fold_Byte_only_block [of ?st st1 bs h1] i1 by simp_all
    have "blockByteIndex ?st < 64" using i1 by simp
    from Cons.IH [OF c2 this, of h1]
    have *: "if v + 8 + 8 * length bs < 2 ^ 64
      then \<exists>st'. feed_counted bs (h1, ?st) = Some (fst (fold Byte bs (h1, st1)), st') \<and>
           block st' = block (snd (fold Byte bs (h1, st1))) \<and> counted st' (v + 8 + 8 * length bs)
      else feed_counted bs (h1, ?st) = None" by (simp only: same)
    have "feed_counted (b # bs) (h, st) = feed_counted bs (h1, ?st)"
      by (simp only: feed_counted.simps B cb Let_def case_prod_conv option.case)
    moreover have "v + 8 * length (b # bs) = v + 8 + 8 * length bs" by simp
    ultimately show ?thesis using * by (simp only: B fold_simps)
  qed
qed

lemma count_bytes_be64:
  assumes "counted st v"
  shows "count_bytes st = be64 v"
proof -
  from assms have v: "v < 2 ^ 64" and low: "bitCountLow st = word_of_nat (take_bit 32 v)"
    and high: "bitCountHigh st = word_of_nat (drop_bit 32 v)"
    by (simp_all add: counted_def take_bit_eq_mod drop_bit_eq_div)
  have byte: "0xFF = (mask 8 :: 64 word)" by (simp add: mask_eq_exp_minus_1)
  have l: "(ucast (drop_bit n (bitCountLow st) AND 0xFF) :: u8) = word_of_nat (drop_bit n v)"
    if "n \<le> 24" for n
    unfolding low byte using that
    by (intro bit_word_eqI) (auto simp: bit_simps)
  have h: "(ucast (drop_bit n (bitCountHigh st) AND 0xFF) :: u8) = word_of_nat (drop_bit (n + 32) v)"
    if "n \<le> 24" for n
    unfolding high byte using that
    by (intro bit_word_eqI) (auto simp: bit_simps ac_simps)
  show ?thesis unfolding count_bytes_def be64_def by (simp only: list.map l h) simp
qed

lemma counted_fold_Byte: "counted (snd (fold Byte bs hs)) v = counted (snd hs) v"
proof (induction bs arbitrary: hs)
  case (Cons b bs)
  show ?case by (simp add: Cons.IH) (simp add: counted_def)
qed simp

lemma padding_length: "(120 - (n + 1) mod 64) mod 64 = (119 - n mod 64) mod (64 :: nat)"
proof (cases "n mod 64 = 63")
  case True
  then have "(n + 1) mod 64 = 0" using div_mod_carry [of n 64 1] by simp
  with True show ?thesis by simp
next
  case False
  moreover have "n mod 64 < 64" by simp
  ultimately have "n mod 64 + 1 < 64" by linarith
  then show ?thesis using div_mod_no_carry [of n 64 1] by simp
qed

lemma Digest_fips:
  "Digest m = (if 8 * length m < 2 ^ 64 then Some (fips_sha1 m) else None)"
proof -
  have init: "counted Sha1 0" "blockByteIndex Sha1 < 64" by (simp_all add: counted_def Sha1_def)
  let ?F = "fold Byte m (init_hash, Sha1)"
  note feed = feed_counted_fold [OF init, of m init_hash, unfolded add_0]
  show ?thesis
  proof (cases "8 * length m < 2 ^ 64")
    case False
    with feed have "feed_counted m (init_hash, Sha1) = None" by (simp only: if_False)
    with False show ?thesis by (simp only: Digest_def option.case if_False)
  next
    case True
    with feed obtain st' where
      fed: "feed_counted m (init_hash, Sha1) = Some (fst ?F, st')" and
      blk: "block st' = block (snd ?F)" and cnt: "counted st' (8 * length m)"
      by (auto simp only: if_True)
    have i: "blockByteIndex st' < 64" "blockByteIndex st' = length m mod 64"
      using fold_Byte_index [OF init(2), of m init_hash] blk by (simp_all add: Sha1_def)
    obtain h1 st1 where B: "Byte 0x80 (fst ?F, st') = (h1, st1)" by (metis surj_pair)
    have i1: "blockByteIndex st1 = (length m + 1) mod 64"
      using fold_Byte_index [OF i(1), of "[0x80]" "fst ?F"] i(2) by (simp add: B mod_Suc_eq)
    let ?z = "replicate ((119 - length m mod 64) mod 64) 0"
    have "blockByteIndex st1 < 64" using i1 by simp
    from zeros_padding [OF this, of h1]
    have Z: "(if blockByteIndex st1 > 56
        then zeros_while (\<lambda>i. i < 56) (zeros_while (\<lambda>i. i \<noteq> 0) (h1, st1))
        else zeros_while (\<lambda>i. i < 56) (h1, st1)) = fold Byte ?z (h1, st1)"
      by (simp only: i1 padding_length)
    let ?hs = "fold Byte ([0x80] @ ?z) (fst ?F, st')"
    have hs: "fold Byte ?z (h1, st1) = ?hs" by (simp only: fold_append comp_apply fold_simps B)
    have "counted (snd ?hs) (8 * length m)" by (simp only: counted_fold_Byte snd_conv cnt)
    then have "count_bytes (snd ?hs) = be64 (8 * length m)" by (rule count_bytes_be64)
    then have "Digest m = Some (fst (fold Byte (be64 (8 * length m)) ?hs))"
      by (simp only: Digest_def fed option.case Let_def B snd_conv Z hs)
    also have "fold Byte (be64 (8 * length m)) ?hs =
        fold Byte ([0x80] @ ?z @ be64 (8 * length m)) (fst ?F, st')"
      by (simp only: fold_append comp_apply append_assoc)
    also have "fst \<dots> = fst (fold Byte ([0x80] @ ?z @ be64 (8 * length m)) (fst ?F, snd ?F))"
      by (rule fold_Byte_only_block [OF blk i(1), THEN conjunct1])
    also have "\<dots> = fst (fold Byte (fips_pad m) (init_hash, Sha1))"
      by (simp only: fips_pad_def fold_append comp_apply prod.collapse)
    also have "\<dots> = fips_sha1 m"
      by (simp add: fold_Byte [OF init(2)] fips_sha1_def) (simp add: Sha1_def)
    finally show ?thesis using True by (simp only: if_True)
  qed
qed

subsection \<open>Properties\<close>

text \<open>
  C2. The streaming digest is SHA-1 as FIPS 180-4 states it, for every message whose length
  in bits fits the 64-bit counter; a longer one is refused.
\<close>

theorem Digest_fips_sha1:
  "Digest m = (if 8 * length m < 2 ^ 64 then Some (fips_sha1 m) else None)"
  by (rule Digest_fips)

lemma length_hex_word [simp]: "length (hex_word h) = 8"
  by (simp add: hex_word_def)

lemma hex_word_chars: "c \<in> set (hex_word h) \<Longrightarrow> isdigit c \<or> (97 \<le> code c \<and> code c \<le> 102)"
proof -
  have small: "unat (w AND 0xF) < 16" for w :: u32
  proof -
    have "w AND 0xF = take_bit 4 w" by (simp add: take_bit_eq_mask mask_eq_exp_minus_1)
    then show ?thesis using take_bit_nat_less_exp [of 4 "unat w"] by (simp add: unsigned_take_bit_eq)
  qed
  have "isdigit (hex_digit n) \<or> (97 \<le> code (hex_digit n) \<and> code (hex_digit n) \<le> 102)"
    if "n < 16" for n
    using that by (simp add: hex_digit_def isdigit_def)
  with small show "c \<in> set (hex_word h) \<Longrightarrow> isdigit c \<or> (97 \<le> code c \<and> code c \<le> 102)"
    unfolding hex_word_def by (auto simp del: list.map)
qed

text \<open>
  The text form is forty lower-case hexadecimal digits for every message below 2^61
  bytes, and empty beyond.
\<close>

theorem sha1_text:
  "(if length m < 2 ^ 61
    then length (sha1 m) = 40 \<and>
      (\<forall>c \<in> set (sha1 m). isdigit c \<or> (97 \<le> code c \<and> code c \<le> 102))
    else sha1 m = [])"
proof (cases "length m < 2 ^ 61")
  case True
  then have "8 * length m < 2 ^ 64" by simp
  then have "Digest m = Some (fips_sha1 m)" by (simp only: Digest_fips if_True)
  moreover obtain a b c d e where "fips_sha1 m = (a, b, c, d, e)" by (metis prod_cases5)
  ultimately show ?thesis using True by (auto simp: sha1_def dest!: hex_word_chars)
next
  case False
  then have "\<not> 8 * length m < 2 ^ 64" by simp
  then have "Digest m = None" by (simp only: Digest_fips if_False)
  with False show ?thesis by (simp add: sha1_def)
qed

end
