(* ===== verification/Filesystem_Paths.thy ===== *)
theory Filesystem_Paths
  imports Text_Util
begin

section \<open>Filesystem: path text and guarded file operations\<close>

text \<open>
  \<^verbatim>\<open>src/src/Filesystem.cc\<close> on a POSIX system (\<open>preferred_separator\<close> is the slash). The part of
  \<open>std::filesystem::path\<close> the file relies on is modelled on the text of a path: \<open>operator/\<close>,
  \<open>lexically_normal\<close>, \<open>parent_path\<close> and \<open>filename\<close>. The calls that reach the disk are the
  functions of the record \<open>fs_ops\<close>, over a disk state of any type; the operating system is a
  parameter of the model. Whether a path exists is a predicate in the functions that only
  look (\<open>uniqueFilePath\<close>).
\<close>

subsection \<open>\<open>std::filesystem::path\<close>\<close>

definition preferred_separator :: char where
  "preferred_separator = CHR ''/''"

definition path_append :: "string \<Rightarrow> string \<Rightarrow> string" where
  "path_append p q =
     (if q \<noteq> [] \<and> hd q = CHR ''/'' then q
      else if p \<noteq> [] \<and> last p \<noteq> CHR ''/'' then p @ ''/'' @ q
      else p @ q)"

text \<open>\<open>lexically_normal\<close>: a dot disappears, a double dot takes away the component before it
  (at the root it disappears), and the components that stay are joined by one slash. The
  stack \<open>st\<close> holds the components kept so far, last one first.\<close>

fun norm_comps :: "bool \<Rightarrow> string list \<Rightarrow> string list \<Rightarrow> string list" where
  "norm_comps ab st [] = rev st"
| "norm_comps ab st (c # cs) =
     (if c = [] \<or> c = ''.'' then norm_comps ab st cs
      else if c = ''..'' then
        (case st of
           [] \<Rightarrow> if ab then norm_comps ab [] cs else norm_comps ab [''..''] cs
         | t # ts \<Rightarrow> if t = ''..'' then norm_comps ab (c # st) cs else norm_comps ab ts cs)
      else norm_comps ab (c # st) cs)"

definition is_abs :: "string \<Rightarrow> bool" where
  "is_abs s \<longleftrightarrow> s \<noteq> [] \<and> hd s = CHR ''/''"

definition render_path :: "bool \<Rightarrow> string list \<Rightarrow> bool \<Rightarrow> string" where
  "render_path ab cs trail =
     (let r = (if ab then ''/'' else []) @ sep_concat ''/'' cs @
              (if trail \<and> cs \<noteq> [] \<and> last cs \<noteq> ''..'' then ''/'' else [])
      in if r = [] then ''.'' else r)"

definition lexically_normal :: "string \<Rightarrow> string" where
  "lexically_normal s =
     (if s = [] then []
      else let ps = pieces CHR ''/'' s
      in render_path (is_abs s) (norm_comps (is_abs s) [] ps) (last ps \<in> {[], ''.'', ''..''}))"

definition path_filename :: "string \<Rightarrow> string" where
  "path_filename s = last (pieces CHR ''/'' s)"

definition path_parent :: "string \<Rightarrow> string" where
  "path_parent s =
     (case find_last_of s ''/'' of
        None \<Rightarrow> []
      | Some i \<Rightarrow>
          (let d = rev (dropWhile (\<lambda>c. c = CHR ''/'') (rev (take i s)))
           in if d = [] then ''/'' else d))"

subsection \<open>Text operations\<close>

definition separator :: "string \<Rightarrow> string" where
  "separator s = s @ [preferred_separator]"

definition changeFromUnixPath :: "string \<Rightarrow> string" where
  "changeFromUnixPath p = map (\<lambda>c. if c = CHR ''/'' then preferred_separator else c) p"

definition copyFromUnixPath :: "string \<Rightarrow> string" where
  "copyFromUnixPath p = (let copy = p in changeFromUnixPath copy)"

definition changeToUnixPath :: "string \<Rightarrow> string" where
  "changeToUnixPath p = map (\<lambda>c. if c = preferred_separator then CHR ''/'' else c) p"

definition copyToUnixPath :: "string \<Rightarrow> string" where
  "copyToUnixPath p = (let copy = p in changeToUnixPath copy)"

definition joinPaths :: "string \<Rightarrow> string \<Rightarrow> string" where
  "joinPaths path1 path2 =
     (let p1 = (if path1 = [] then separator [] else path1);
          p2 = path2;
          url1 = (str_find path1 ''://'' 0 \<noteq> None);
          url2 = (str_find path2 ''://'' 0 \<noteq> None);
          p1 = (if \<not> url1 then lexically_normal p1 else p1);
          p2 = (if \<not> url2 then lexically_normal p2 else p2);
          p2 = (if p2 \<noteq> [] \<and> hd p2 = preferred_separator then drop 1 p2 else p2);
          ret = path_append p1 p2
      in if url1 \<or> url2 then copyToUnixPath ret else lexically_normal ret)"

definition basename :: "string \<Rightarrow> string" where
  "basename s =
     (let p = path_append s ''FOO.TXT'';
          p = lexically_normal p;
          p = path_parent p
      in if path_filename p = [] then [preferred_separator] else path_filename p)"

text \<open>\<open>npos\<close> equals \<open>length () - 1\<close> only for the empty string.\<close>

definition parentPath :: "string \<Rightarrow> string" where
  "parentPath s =
     (let last_sep = find_last_of s (separator []);
          last_sep =
            (if (case last_sep of Some i \<Rightarrow> i + 1 = length s | None \<Rightarrow> s = [])
             then find_last_of (sub s 0 last_sep) (separator []) else last_sep)
      in sub s 0 last_sep)"

subsection \<open>Unique names\<close>

text \<open>The search for a free name may run for ever: \<^const>\<open>None\<close>. The counter is an \<open>int\<close>
  that no disk fills up, and is kept unbounded here.\<close>

definition unique_candidate :: "string \<Rightarrow> string \<Rightarrow> nat \<Rightarrow> string" where
  "unique_candidate name tail count =
     (if count = 0 then name @ tail else name @ ''('' @ show_nat count @ '')'' @ tail)"

partial_function (option) unique_loop ::
    "(string \<Rightarrow> bool) \<Rightarrow> string \<Rightarrow> string \<Rightarrow> string \<Rightarrow> nat \<Rightarrow> string option" where
  "unique_loop ex name tail result count =
     (if ex result then unique_loop ex name tail (unique_candidate name tail count) (count + 1)
      else Some result)"

definition uniqueFilePath :: "(string \<Rightarrow> bool) \<Rightarrow> string \<Rightarrow> string \<Rightarrow> string option" where
  "uniqueFilePath ex pathAndName extension =
     unique_loop ex pathAndName (''.'' @ extension) (pathAndName @ ''.'' @ extension) 1"

definition uniqueDirectoryPath :: "(string \<Rightarrow> bool) \<Rightarrow> string \<Rightarrow> string option" where
  "uniqueDirectoryPath ex dir = unique_loop ex dir [] dir 1"

subsection \<open>Operations on the disk\<close>

text \<open>Each system call takes the disk and gives its result, an error code (\<^const>\<open>None\<close> when
  there is none) and the disk afterwards.\<close>

type_synonym ec = "nat option"

record 'd fs_ops =
  os_exists :: "'d \<Rightarrow> string \<Rightarrow> bool"
  os_is_directory :: "'d \<Rightarrow> string \<Rightarrow> bool"
  os_is_regular_file :: "'d \<Rightarrow> string \<Rightarrow> bool"
  os_create_directory :: "string \<Rightarrow> 'd \<Rightarrow> ec \<times> 'd"
  os_create_directories :: "string \<Rightarrow> 'd \<Rightarrow> ec \<times> 'd"
  os_absolute :: "'d \<Rightarrow> string \<Rightarrow> ec \<times> string"
  os_current_path :: "'d \<Rightarrow> ec \<times> string"
  os_set_current_path :: "string \<Rightarrow> 'd \<Rightarrow> ec \<times> 'd"
  os_copy_file :: "string \<Rightarrow> string \<Rightarrow> 'd \<Rightarrow> bool \<times> ec \<times> 'd"
  os_copy :: "string \<Rightarrow> string \<Rightarrow> 'd \<Rightarrow> ec \<times> 'd"
  os_rename :: "string \<Rightarrow> string \<Rightarrow> 'd \<Rightarrow> ec \<times> 'd"
  os_remove :: "string \<Rightarrow> 'd \<Rightarrow> bool \<times> ec \<times> 'd"
  os_remove_all :: "string \<Rightarrow> 'd \<Rightarrow> ec \<times> 'd"

definition fsWarn :: "ec \<Rightarrow> bool" where
  "fsWarn e = (if e \<noteq> None then False else True)"

definition exists_path :: "'d fs_ops \<Rightarrow> 'd \<Rightarrow> string \<Rightarrow> bool" where
  "exists_path os d p = os_exists os d p"

definition isDirectory :: "'d fs_ops \<Rightarrow> 'd \<Rightarrow> string \<Rightarrow> bool" where
  "isDirectory os d p = os_is_directory os d p"

definition isFile :: "'d fs_ops \<Rightarrow> 'd \<Rightarrow> string \<Rightarrow> bool" where
  "isFile os d p = os_is_regular_file os d p"

definition isRelativePath :: "string \<Rightarrow> bool" where
  "isRelativePath p \<longleftrightarrow> \<not> is_abs p"

definition createDirectory :: "'d fs_ops \<Rightarrow> string \<Rightarrow> 'd \<Rightarrow> bool \<times> 'd" where
  "createDirectory os p d = (let (e, d1) = os_create_directory os p d in (fsWarn e, d1))"

definition createDirectories :: "'d fs_ops \<Rightarrow> string \<Rightarrow> 'd \<Rightarrow> bool \<times> 'd" where
  "createDirectories os p d = (let (e, d1) = os_create_directories os p d in (fsWarn e, d1))"

definition absPath :: "'d fs_ops \<Rightarrow> 'd \<Rightarrow> string \<Rightarrow> string" where
  "absPath os d p = (let (e, path) = os_absolute os d p in if \<not> fsWarn e then [] else path)"

definition cwd :: "'d fs_ops \<Rightarrow> 'd \<Rightarrow> string" where
  "cwd os d = (let (e, path) = os_current_path os d in if \<not> fsWarn e then [] else path)"

definition chdir :: "'d fs_ops \<Rightarrow> string \<Rightarrow> 'd \<Rightarrow> bool \<times> 'd" where
  "chdir os dir d = (let (e, d1) = os_set_current_path os dir d in (fsWarn e, d1))"

definition copyFile :: "'d fs_ops \<Rightarrow> string \<Rightarrow> string \<Rightarrow> 'd \<Rightarrow> bool \<times> 'd" where
  "copyFile os old new d = (let (ret, e, d1) = os_copy_file os old new d in (ret \<and> fsWarn e, d1))"

definition copyDirectory :: "'d fs_ops \<Rightarrow> string \<Rightarrow> string \<Rightarrow> 'd \<Rightarrow> bool \<times> 'd" where
  "copyDirectory os old new d =
     (let (ok, d1) = createDirectories os new d
      in if \<not> ok then (False, d1)
         else let (e, d2) = os_copy os old new d1 in (fsWarn e, d2))"

definition moveFile :: "'d fs_ops \<Rightarrow> string \<Rightarrow> string \<Rightarrow> 'd \<Rightarrow> bool \<times> 'd" where
  "moveFile os old new d = (let (e, d1) = os_rename os old new d in (fsWarn e, d1))"

definition removeDirectoryOrFile :: "'d fs_ops \<Rightarrow> string \<Rightarrow> 'd \<Rightarrow> bool \<times> 'd" where
  "removeDirectoryOrFile os p d = (let (ret, e, d1) = os_remove os p d in (ret, d1))"

definition removeDirectory :: "'d fs_ops \<Rightarrow> string \<Rightarrow> 'd \<Rightarrow> bool \<times> 'd" where
  "removeDirectory os p d = (if \<not> isDirectory os d p then (False, d) else removeDirectoryOrFile os p d)"

definition removeFile :: "'d fs_ops \<Rightarrow> string \<Rightarrow> 'd \<Rightarrow> bool \<times> 'd" where
  "removeFile os p d = (if \<not> isFile os d p then (False, d) else removeDirectoryOrFile os p d)"

definition removeAll :: "'d fs_ops \<Rightarrow> string \<Rightarrow> 'd \<Rightarrow> bool \<times> 'd" where
  "removeAll os p d = (let (e, d1) = os_remove_all os p d in (fsWarn e, d1))"

subsection \<open>Unique names: the first free candidate\<close>

lemma unique_candidate_inject:
  "unique_candidate name tail m = unique_candidate name tail n \<longleftrightarrow> m = n"
  by (auto simp: unique_candidate_def)

lemma unique_loop_finds:
  assumes "n \<le> m" and "\<forall>j. n \<le> j \<and> j < m \<longrightarrow> ex (unique_candidate name tail j)"
    and "\<not> ex (unique_candidate name tail m)"
  shows "unique_loop ex name tail (unique_candidate name tail n) (n + 1) =
           Some (unique_candidate name tail m)"
  using assms
proof (induction "m - n" arbitrary: n)
  case 0
  then show ?case by (simp add: unique_loop.simps)
next
  case (Suc k)
  then have "ex (unique_candidate name tail n)" by simp
  moreover have "unique_loop ex name tail (unique_candidate name tail (Suc n)) (Suc n + 1) =
      Some (unique_candidate name tail m)"
    using Suc.hyps(2) Suc.prems by (intro Suc.hyps(1)) auto
  ultimately show ?case by (subst unique_loop.simps) simp
qed

lemma unique_loop_least:
  assumes "finite {p. ex p}"
  shows "\<exists>n. unique_loop ex name tail (name @ tail) 1 = Some (unique_candidate name tail n) \<and>
     \<not> ex (unique_candidate name tail n) \<and> (\<forall>m < n. ex (unique_candidate name tail m))"
proof -
  have "\<exists>n. \<not> ex (unique_candidate name tail n)"
  proof (rule ccontr)
    assume "\<nexists>n. \<not> ex (unique_candidate name tail n)"
    then have "range (unique_candidate name tail) \<subseteq> {p. ex p}" by auto
    with assms have "finite (range (unique_candidate name tail))" by (rule rev_finite_subset)
    then show False
      using finite_imageD [of "unique_candidate name tail" UNIV]
      by (auto simp: inj_on_def unique_candidate_inject)
  qed
  then obtain n where n: "\<not> ex (unique_candidate name tail n)"
      "\<forall>m < n. ex (unique_candidate name tail m)"
    using exists_least_iff [of "\<lambda>n. \<not> ex (unique_candidate name tail n)"] by auto
  from unique_loop_finds [of 0 n ex name tail] n show ?thesis
    by (auto simp: unique_candidate_def [of name tail 0])
qed

subsection \<open>The last component\<close>

lemma find_last_of_hit:
  "CHR ''/'' \<notin> set b \<Longrightarrow> find_last_of (a @ CHR ''/'' # b) ''/'' = Some (length a)"
proof -
  assume "CHR ''/'' \<notin> set b"
  then have "find_index (\<lambda>x. x \<in> set ''/'') (rev b @ CHR ''/'' # rev a) = Some (length (rev b))"
    by (intro find_index_hit) auto
  then show ?thesis by (simp add: find_last_of_def)
qed

lemma find_last_of_miss: "CHR ''/'' \<notin> set b \<Longrightarrow> find_last_of b ''/'' = None"
  by (auto simp: find_last_of_def find_index_None_iff)

lemma norm_comps_append:
  "norm_comps ab st (xs @ ys) = norm_comps ab (rev (norm_comps ab st xs)) ys"
  by (induction ab st xs rule: norm_comps.induct) (auto split: list.split)

lemma norm_comps_subset: "set (norm_comps ab st cs) \<subseteq> set st \<union> set cs"
  by (induction ab st cs rule: norm_comps.induct) (auto split: list.splits)

lemma norm_comps_nonempty: "[] \<notin> set st \<Longrightarrow> [] \<notin> set (norm_comps ab st cs)"
  by (induction ab st cs rule: norm_comps.induct) (auto split: list.splits)

definition plain_name :: "string \<Rightarrow> bool" where
  "plain_name f \<longleftrightarrow> f \<notin> {[], ''.'', ''..''} \<and> CHR ''/'' \<notin> set f"

lemma norm_comps_plain: "plain_name f \<Longrightarrow> norm_comps ab st (xs @ [f]) = norm_comps ab st xs @ [f]"
  by (auto simp: norm_comps_append plain_name_def)

lemma pieces_join: "CHR ''/'' \<notin> set f \<Longrightarrow> pieces CHR ''/'' (p @ ''/'' @ f) = pieces CHR ''/'' p @ [f]"
proof (induction p)
  case Nil
  then show ?case by (simp add: pieces_delim_free_id)
next
  case (Cons c p)
  then show ?case by (cases "pieces CHR ''/'' p") auto
qed

lemma sep_concat_snoc: "ps \<noteq> [] \<Longrightarrow> sep_concat d (ps @ [x]) = sep_concat d ps @ d @ x"
  by (induction d ps rule: sep_concat.induct) auto

lemma sep_concat_suffix: "\<exists>a. sep_concat d (ps @ [x]) = a @ x"
  by (cases "ps = []") (auto simp: sep_concat_snoc)

lemma lexically_normal_plain:
  assumes "pieces CHR ''/'' t = xs @ [f]" and "plain_name f"
  shows "lexically_normal t = (if is_abs t then ''/'' else []) @
           sep_concat ''/'' (norm_comps (is_abs t) [] xs @ [f])"
proof -
  from assms have "t \<noteq> []" by (auto simp: plain_name_def)
  moreover have "sep_concat ''/'' (norm_comps (is_abs t) [] xs @ [f]) \<noteq> []"
    using sep_concat_suffix [of "''/''" "norm_comps (is_abs t) [] xs" f] assms(2)
    by (auto simp: plain_name_def)
  ultimately show ?thesis
    using assms by (simp add: lexically_normal_def render_path_def norm_comps_plain Let_def)
       (simp add: plain_name_def)
qed

lemma path_append_pieces:
  assumes "p \<noteq> []" and "plain_name f"
  shows "\<exists>xs. pieces CHR ''/'' (path_append p f) = xs @ [f]"
    and "is_abs (path_append p f) = is_abs p"
proof -
  from assms(2) have f: "f \<noteq> []" "hd f \<noteq> CHR ''/''" "CHR ''/'' \<notin> set f"
    by (auto simp: plain_name_def) (metis hd_in_set)
  show "is_abs (path_append p f) = is_abs p"
    using f assms(1) by (auto simp: path_append_def is_abs_def)
  show "\<exists>xs. pieces CHR ''/'' (path_append p f) = xs @ [f]"
  proof (cases "last p = CHR ''/''")
    case True
    with assms(1) have "p @ f = butlast p @ ''/'' @ f"
      by (metis append_assoc append_butlast_last_id)
    then have "pieces CHR ''/'' (p @ f) = pieces CHR ''/'' (butlast p) @ [f]"
      by (simp only: pieces_join [OF f(3)])
    then show ?thesis using f True by (auto simp: path_append_def)
  next
    case False
    have "path_append p f = p @ ''/'' @ f" using f False assms(1) by (simp add: path_append_def)
    then show ?thesis using pieces_join [OF f(3), of p] by auto
  qed
qed

lemma path_parent_foo:
  assumes "b \<noteq> []" and "last b \<noteq> CHR ''/''" and "CHR ''/'' \<notin> set f"
  shows "path_parent (b @ ''/'' @ f) = b"
proof -
  from assms(1,2) have "dropWhile (\<lambda>c. c = CHR ''/'') (rev b) = rev b"
    by (cases b rule: rev_cases) auto
  with assms(1) find_last_of_hit [OF assms(3), of b] show ?thesis
    by (simp add: path_parent_def)
qed

lemma basename_plain:
  assumes t: "t = (if ab then ''/'' else []) @ sep_concat ''/'' (cs @ [f])"
    and cs: "\<forall>c \<in> set cs. CHR ''/'' \<notin> set c" and f: "plain_name f" and ab: "is_abs t = ab"
  shows "basename t = f"
proof -
  obtain a where a: "sep_concat ''/'' (cs @ [f]) = a @ f" using sep_concat_suffix by metis
  from f have fs: "f \<noteq> []" "CHR ''/'' \<notin> set f" "last f \<noteq> CHR ''/''"
    by (auto simp: plain_name_def) (metis last_in_set)
  have pt: "pieces CHR ''/'' t = (if ab then [[]] else []) @ cs @ [f]"
    using cs fs(2) by (auto simp: t pieces_sep_concat)
  from t a fs have tne: "t \<noteq> []" "last t \<noteq> CHR ''/''" by auto
  then have app: "path_append t ''FOO.TXT'' = t @ ''/'' @ ''FOO.TXT''"
    by (simp add: path_append_def)
  have foo: "plain_name ''FOO.TXT''" by (simp add: plain_name_def)
  have "pieces CHR ''/'' (t @ ''/'' @ ''FOO.TXT'') = pieces CHR ''/'' t @ [''FOO.TXT'']"
    by (rule pieces_join) simp
  from lexically_normal_plain [OF this foo]
  have "lexically_normal (t @ ''/'' @ ''FOO.TXT'') = (if ab then ''/'' else []) @
      sep_concat ''/'' (norm_comps ab [] (pieces CHR ''/'' t) @ [''FOO.TXT''])"
    using ab tne(1) by (simp add: is_abs_def)
  moreover have norm: "norm_comps ab [] (pieces CHR ''/'' t) = norm_comps ab [] cs @ [f]"
    by (simp add: pt norm_comps_plain [OF f, of _ _ "[]", simplified] norm_comps_plain [OF f])
  define b where "b = (if ab then ''/'' else []) @ sep_concat ''/'' (norm_comps ab [] cs @ [f])"
  ultimately have ln: "lexically_normal (t @ ''/'' @ ''FOO.TXT'') = b @ ''/'' @ ''FOO.TXT''"
    using sep_concat_snoc [of "norm_comps ab [] cs @ [f]" "''/''" "''FOO.TXT''"]
    by (simp add: norm b_def)
  obtain a' where a': "sep_concat ''/'' (norm_comps ab [] cs @ [f]) = a' @ f"
    using sep_concat_suffix by metis
  then have b: "b \<noteq> []" "last b \<noteq> CHR ''/''" using fs by (auto simp: b_def)
  have "path_parent (b @ ''/'' @ ''FOO.TXT'') = b"
    by (rule path_parent_foo [OF b]) simp
  moreover have "path_filename b = f"
  proof -
    have "\<forall>c \<in> set (norm_comps ab [] cs @ [f]). CHR ''/'' \<notin> set c"
      using cs fs norm_comps_subset [of ab "[]" cs] by auto
    then have "pieces CHR ''/'' b = (if ab then [[]] else []) @ norm_comps ab [] cs @ [f]"
      by (auto simp: b_def pieces_sep_concat)
    then show ?thesis by (simp add: path_filename_def)
  qed
  ultimately show ?thesis using fs(1) unfolding basename_def app ln Let_def by simp
qed

lemma is_abs_normal:
  assumes "s \<noteq> []"
  shows "lexically_normal s \<noteq> []"
  using assms by (simp add: lexically_normal_def render_path_def Let_def)

lemma find_sub_url_plain: "plain_name f \<Longrightarrow> str_find f ''://'' 0 = None"
  by (auto simp: plain_name_def str_find_0 find_sub_None_iff dest!: set_mono_sublist)

lemma basename_joinPaths:
  assumes d: "str_find d ''://'' 0 = None" and f: "plain_name f"
  shows "basename (joinPaths d f) = f"
proof -
  let ?p1 = "lexically_normal (if d = [] then separator [] else d)"
  have p1: "?p1 \<noteq> []" by (rule is_abs_normal) (simp add: separator_def)
  have "pieces CHR ''/'' f = [f]" "\<not> is_abs f"
    using f by (auto simp: plain_name_def pieces_delim_free_id is_abs_def) (metis hd_in_set)
  then have p2: "lexically_normal f = f"
    using f by (simp add: lexically_normal_def render_path_def plain_name_def)
  have hd: "hd f \<noteq> CHR ''/''" using f by (auto simp: plain_name_def) (metis hd_in_set)
  have join: "joinPaths d f = lexically_normal (path_append ?p1 f)"
    using d p2 hd f by (simp add: joinPaths_def find_sub_url_plain preferred_separator_def Let_def)
  obtain xs where xs: "pieces CHR ''/'' (path_append ?p1 f) = xs @ [f]"
    using path_append_pieces(1) [OF p1 f] by auto
  let ?ab = "is_abs (path_append ?p1 f)" and ?cs = "norm_comps (is_abs (path_append ?p1 f)) [] xs"
  have t: "joinPaths d f = (if ?ab then ''/'' else []) @ sep_concat ''/'' (?cs @ [f])"
    unfolding join by (rule lexically_normal_plain [OF xs f])
  have free: "\<forall>c \<in> set xs. CHR ''/'' \<notin> set c"
    using pieces_delim_free [of "CHR ''/''" "path_append ?p1 f"] by (auto simp: xs)
  then have cs: "\<forall>c \<in> set ?cs. CHR ''/'' \<notin> set c"
    using norm_comps_subset [of ?ab "[]" xs] by auto
  have ab: "is_abs (joinPaths d f) = ?ab"
  proof (cases ?ab)
    case False
    have "hd (sep_concat ''/'' (?cs @ [f])) \<noteq> CHR ''/''"
    proof (cases ?cs)
      case Nil
      then show ?thesis using hd by simp
    next
      case (Cons c cs)
      have "[] \<notin> set ?cs" by (rule norm_comps_nonempty) simp
      with Cons have "c \<noteq> []" by auto
      moreover have "CHR ''/'' \<notin> set c" using cs Cons by simp
      ultimately have "hd c \<noteq> CHR ''/''" by (metis hd_in_set)
      with Cons \<open>c \<noteq> []\<close> show ?thesis by (simp add: sep_concat_Cons)
    qed
    moreover have "joinPaths d f = sep_concat ''/'' (?cs @ [f])" using t False by simp
    ultimately show ?thesis using False unfolding is_abs_def [of "joinPaths d f"] by metis
  next
    case True
    with t have "\<exists>r. joinPaths d f = CHR ''/'' # r" by simp
    with True show ?thesis unfolding is_abs_def [of "joinPaths d f"] by auto
  qed
  from basename_plain [OF t cs f ab] show ?thesis .
qed

lemma parentPath_child:
  assumes "n \<noteq> []" and "CHR ''/'' \<notin> set n"
  shows "parentPath (d @ ''/'' @ n) = d" and "parentPath (d @ ''/'' @ n @ ''/'') = d"
    and "parentPath (n @ ''/'') = n @ ''/''"
proof -
  note sep = separator_def preferred_separator_def
  show "parentPath (d @ ''/'' @ n) = d"
    using find_last_of_hit [OF assms(2), of d] assms(1)
    by (simp add: parentPath_def sep sub_def Let_def)
  have "find_last_of (d @ ''/'' @ n @ ''/'') ''/'' = Some (length (d @ ''/'' @ n))"
    using find_last_of_hit [of "[]" "d @ ''/'' @ n"] by simp
  then show "parentPath (d @ ''/'' @ n @ ''/'') = d"
    using find_last_of_hit [OF assms(2), of d]
    by (simp add: parentPath_def sep sub_def Let_def)
  have "find_last_of (n @ ''/'') ''/'' = Some (length n)"
    using find_last_of_hit [of "[]" n] by simp
  then show "parentPath (n @ ''/'') = n @ ''/''"
    using find_last_of_miss [OF assms(2)]
    by (simp add: parentPath_def sep sub_def Let_def)
qed

subsection \<open>Properties\<close>

text \<open>
  On a disk with finitely many paths \<open>uniqueFilePath\<close> returns: the name of the first
  candidate (the plain name, then the name with (1), (2), ...) that does not exist.
\<close>

theorem uniqueFilePath_first_free:
  assumes "finite {p. ex p}"
  shows "\<exists>n. uniqueFilePath ex name ext = Some (unique_candidate name (''.'' @ ext) n) \<and>
     \<not> ex (unique_candidate name (''.'' @ ext) n) \<and>
     (\<forall>m < n. ex (unique_candidate name (''.'' @ ext) m))"
  using unique_loop_least [OF assms, of name "''.'' @ ext"] by (simp add: uniqueFilePath_def)

text \<open>
  The base name of a joined path is the name that was joined, whatever the directory
  (relative, absolute, with dots, empty), as long as it is no URL.
\<close>

theorem joinPaths_basename:
  assumes "str_find d ''://'' 0 = None" and "plain_name f"
  shows "basename (joinPaths d f) = f"
  by (rule basename_joinPaths [OF assms])

text \<open>
  The parent of a path is what is in front of its last component, with or without a
  slash at the end; a single component with a slash at the end is its own parent, and keeps
  the slash. (The header promises a result without separator at the end.)
\<close>

theorem parentPath_cases:
  assumes "n \<noteq> []" and "CHR ''/'' \<notin> set n"
  shows "parentPath (d @ ''/'' @ n) = d \<and> parentPath (d @ ''/'' @ n @ ''/'') = d \<and>
         parentPath (n @ ''/'') = n @ ''/''"
  using parentPath_child [OF assms] by blast

end
