(* ===== verification/Uri_Authority.thy ===== *)
theory Uri_Authority
  imports Text_Util
begin

section \<open>URIAuthority: user information, host and port\<close>

text \<open>
  Class \<open>URIAuthority\<close> of \<^verbatim>\<open>src/src/URI.cc\<close>. The record is its private data; an operation
  that changes the object returns the new record. \<open>Parse\<close> makes \<open>substr\<close> calls that can
  throw \<open>std::out_of_range\<close>, so it runs in the option monad and \<^const>\<open>None\<close> is the throw;
  every \<open>substr\<close> of \<open>Valid\<close> starts inside the string (\<open>sub\<close>), because \<open>Valid\<close> has checked
  the two leading slashes.

  The locale \<open>uri_part\<close> is the contract all four parts of a URI share: a well-formed value
  prints to a valid string, which parses back to the same value whatever the object held
  before, and an invalid string leaves the object alone.
\<close>

subsection \<open>The contract of a URI part\<close>

locale uri_part =
  fixes valid :: "string \<Rightarrow> bool"
    and parse :: "string \<Rightarrow> 'a \<Rightarrow> (bool \<times> 'a) option"
    and str :: "'a \<Rightarrow> string"
    and wf :: "'a \<Rightarrow> bool"
  assumes reject: "\<not> valid s \<Longrightarrow> parse s x = Some (False, x)"
    and valid_str: "wf x \<Longrightarrow> valid (str x)"
    and parse_str: "wf x \<Longrightarrow> parse (str x) y = Some (True, x)"
begin

lemma str_inject: "wf x \<Longrightarrow> wf y \<Longrightarrow> str x = str y \<longleftrightarrow> x = y"
  using parse_str by (metis option.inject prod.inject)

lemma parse_twice:
  "wf x \<Longrightarrow> Option.bind (parse (str x) y) (\<lambda>(ok, z). parse (str z) w) = parse (str x) v"
  by (simp add: parse_str)

lemma accept_iff: "parse s x = Some (True, y) \<Longrightarrow> valid s"
  using reject by fastforce

end

subsection \<open>State, accessors and printing\<close>

record URIAuthority =
  userInfo :: string
  host :: string
  port :: "int option"
  emptyHostValid :: bool
  hasEmptyHost :: bool

definition URIAuthority_empty :: URIAuthority where
  "URIAuthority_empty =
     \<lparr> userInfo = [], host = [], port = None, emptyHostValid = False, hasEmptyHost = False \<rparr>"

definition URIAuthority_Clear :: "URIAuthority \<Rightarrow> URIAuthority" where
  "URIAuthority_Clear a =
     a \<lparr> userInfo := [], host := [], port := None, emptyHostValid := False,
         hasEmptyHost := False \<rparr>"

definition URIAuthority_SetUserInfo :: "string \<Rightarrow> URIAuthority \<Rightarrow> URIAuthority" where
  "URIAuthority_SetUserInfo s a = a \<lparr> userInfo := s \<rparr>"

definition URIAuthority_SetHost :: "string \<Rightarrow> URIAuthority \<Rightarrow> URIAuthority" where
  "URIAuthority_SetHost s a = a \<lparr> host := s \<rparr>"

definition URIAuthority_SetPort :: "int \<Rightarrow> URIAuthority \<Rightarrow> URIAuthority" where
  "URIAuthority_SetPort p a = a \<lparr> port := Some p \<rparr>"

definition URIAuthority_SetEmptyHostValid :: "bool \<Rightarrow> URIAuthority \<Rightarrow> URIAuthority" where
  "URIAuthority_SetEmptyHostValid v a = a \<lparr> emptyHostValid := v \<rparr>"

definition URIAuthority_eq :: "URIAuthority \<Rightarrow> URIAuthority \<Rightarrow> bool" where
  "URIAuthority_eq a b \<longleftrightarrow>
     userInfo a = userInfo b \<and> host a = host b \<and> port a = port b \<and>
     emptyHostValid a = emptyHostValid b"

definition URIAuthority_Str :: "URIAuthority \<Rightarrow> string" where
  "URIAuthority_Str a =
     (if host a \<noteq> [] \<or> (emptyHostValid a \<and> hasEmptyHost a)
      then ''//'' @ (if userInfo a = [] then [] else userInfo a @ ''@'') @ host a @
           (case port a of None \<Rightarrow> [] | Some p \<Rightarrow> '':'' @ show_int p)
      else [])"

subsection \<open>Validation and parsing\<close>

definition alnumChars :: string where
  "alnumChars = ''qwertzuiopasdfghjklyxcvbnmQWERTZUIOPASDFGHJKLYXCVBNM0123456789''"

definition userInfoChars :: string where
  "userInfoChars = alnumChars @ ''-._~%!$&'' @ [CHR 0x27] @ ''()*+,;=''"

definition hostAllowedChars :: string where
  "hostAllowedChars = alnumChars @ ''%-._[] :''"

text \<open>The host selection \<open>Valid\<close> and \<open>Parse\<close> share. The length argument of the first
  \<open>substr\<close> is the end index, as in the source.\<close>

definition authority_host :: "string \<Rightarrow> nat \<Rightarrow> string option" where
  "authority_host str userInfoIndex =
     (case str_find_char str CHR ''['' userInfoIndex of
        Some ipv6StartIndex \<Rightarrow>
          str_substr str ipv6StartIndex (str_find_char str CHR '']'' ipv6StartIndex)
      | None \<Rightarrow>
          (case str_find_char str CHR '':'' userInfoIndex of
             Some p \<Rightarrow> str_substr str userInfoIndex (Some (p - userInfoIndex))
           | None \<Rightarrow> str_substr str userInfoIndex None))"

definition authority_host_ok :: "string \<Rightarrow> nat \<Rightarrow> string \<Rightarrow> bool \<Rightarrow> bool" where
  "authority_host_ok str userInfoIndex h emptyOk \<longleftrightarrow>
     (if h = [] \<and> \<not> emptyOk then False
      else if find_first_not_of h hostAllowedChars 1 \<noteq> None then False
      else (case str_find_char str CHR '':'' (userInfoIndex + length h) of
              None \<Rightarrow> True
            | Some portIndex \<Rightarrow>
                find_first_not_of (sub str (portIndex + 1) None) ''0123456789'' 1 = None))"

definition URIAuthority_Valid_from :: "string \<Rightarrow> nat \<Rightarrow> bool \<Rightarrow> bool" where
  "URIAuthority_Valid_from str userInfoIndex emptyOk =
     (case str_find_char str CHR ''['' userInfoIndex of
        Some i \<Rightarrow>
          if str_find_char str CHR '']'' i = None then False
          else authority_host_ok str userInfoIndex
                 (sub str i (str_find_char str CHR '']'' i)) emptyOk
      | None \<Rightarrow>
          authority_host_ok str userInfoIndex
            (case str_find_char str CHR '':'' userInfoIndex of
               Some p \<Rightarrow> sub str userInfoIndex (Some (p - userInfoIndex))
             | None \<Rightarrow> sub str userInfoIndex None) emptyOk)"

definition URIAuthority_Valid :: "string \<Rightarrow> bool \<Rightarrow> bool" where
  "URIAuthority_Valid s emptyOk =
     (let str = trimmed s
      in if str = [] then True
         else if str_find str ''//'' 0 \<noteq> Some 0 then False
         else case str_find_char str CHR ''@'' 2 of
                Some userInfoIndex \<Rightarrow>
                  if find_first_not_of (sub str 2 (Some (userInfoIndex - 2))) userInfoChars 1
                       \<noteq> None
                  then False
                  else URIAuthority_Valid_from str (userInfoIndex + 1) emptyOk
              | None \<Rightarrow> URIAuthority_Valid_from str 2 emptyOk)"

text \<open>\<open>size_t\<close> subtraction wraps: below zero it is past the end of any string.\<close>

definition size_diff :: "nat \<Rightarrow> nat \<Rightarrow> nat option" where
  "size_diff a b = (if a < b then None else Some (a - b))"

definition URIAuthority_Parse ::
    "string \<Rightarrow> bool \<Rightarrow> URIAuthority \<Rightarrow> (bool \<times> URIAuthority) option" where
  "URIAuthority_Parse s emptyOk a =
     (if \<not> URIAuthority_Valid s emptyOk then Some (False, a)
      else let a1 = (URIAuthority_Clear a) \<lparr> emptyHostValid := emptyOk \<rparr>
      in if s = [] \<or> s = ''//'' then Some (True, a1 \<lparr> hasEmptyHost := True \<rparr>)
      else do {
        (a2, userInfoIndex) \<leftarrow>
          (case str_find_char s CHR ''@'' 0 of
             Some i \<Rightarrow> do {
               u \<leftarrow> str_substr s 2 (size_diff i 2);
               Some (a1 \<lparr> userInfo := u \<rparr>, i + 1)
             }
           | None \<Rightarrow> Some (a1, 2));
        h \<leftarrow> authority_host s userInfoIndex;
        let a3 = a2 \<lparr> host := h \<rparr>;
        Some (True,
          case str_find_char s CHR '':'' (userInfoIndex + length h) of
            None \<Rightarrow> a3
          | Some portIndex \<Rightarrow>
              (case stoi (sub s (portIndex + 1) None) of
                 None \<Rightarrow> a3
               | Some p \<Rightarrow> a3 \<lparr> port := Some p \<rparr>))
      })"

text \<open>The one-argument constructor: parse into a new object, whose result is ignored; the
  object's own check validates what it prints, with an empty host refused.\<close>

definition URIAuthority_new :: "string \<Rightarrow> URIAuthority option" where
  "URIAuthority_new s = map_option snd (URIAuthority_Parse s False URIAuthority_empty)"

definition URIAuthority_Valid_self :: "URIAuthority \<Rightarrow> bool" where
  "URIAuthority_Valid_self a = URIAuthority_Valid (URIAuthority_Str a) False"

subsection \<open>Well-formed authorities\<close>

definition port_text :: "int option \<Rightarrow> string" where
  "port_text p = (case p of None \<Rightarrow> [] | Some i \<Rightarrow> '':'' @ show_int i)"

definition host_plain :: "string \<Rightarrow> bool" where
  "host_plain h \<longleftrightarrow> h \<noteq> [] \<and> set h \<subseteq> set hostAllowedChars - set ''[]: ''"

definition int32 :: "int \<Rightarrow> bool" where
  "int32 i \<longleftrightarrow> - (2 ^ 31) \<le> i \<and> i < 2 ^ 31"

definition URIAuthority_wf :: "bool \<Rightarrow> URIAuthority \<Rightarrow> bool" where
  "URIAuthority_wf e a \<longleftrightarrow>
     set (userInfo a) \<subseteq> set userInfoChars \<and> host_plain (host a) \<and>
     (case port a of None \<Rightarrow> True | Some i \<Rightarrow> int32 i) \<and>
     emptyHostValid a = e \<and> \<not> hasEmptyHost a"

lemma userInfoChars_facts: "CHR ''@'' \<notin> set userInfoChars" "CHR ''/'' \<notin> set userInfoChars"
  "CHR ''?'' \<notin> set userInfoChars" "CHR ''#'' \<notin> set userInfoChars"
  by (simp_all add: userInfoChars_def alnumChars_def)

lemma hostAllowedChars_facts: "CHR ''@'' \<notin> set hostAllowedChars" "CHR ''/'' \<notin> set hostAllowedChars"
  "CHR ''?'' \<notin> set hostAllowedChars" "CHR ''#'' \<notin> set hostAllowedChars"
  by (simp_all add: hostAllowedChars_def alnumChars_def)

lemma hostAllowedChars_space: "\<forall>c \<in> set hostAllowedChars. isspace c \<longrightarrow> c = CHR '' ''"
  by (simp add: hostAllowedChars_def alnumChars_def isspace_def code_def)

lemma host_plain_facts:
  assumes "host_plain h"
  shows "h \<noteq> []" "set h \<subseteq> set hostAllowedChars"
    "CHR ''@'' \<notin> set h" "CHR ''['' \<notin> set h" "CHR '':'' \<notin> set h"
    "CHR ''/'' \<notin> set h" "CHR ''?'' \<notin> set h" "CHR ''#'' \<notin> set h" "\<not> isspace (last h)"
proof -
  from assms show h: "h \<noteq> []" "set h \<subseteq> set hostAllowedChars"
    by (auto simp: host_plain_def)
  from assms show "CHR ''['' \<notin> set h" "CHR '':'' \<notin> set h"
    by (auto simp: host_plain_def)
  from h hostAllowedChars_facts
  show "CHR ''@'' \<notin> set h" "CHR ''/'' \<notin> set h" "CHR ''?'' \<notin> set h" "CHR ''#'' \<notin> set h"
    by blast+
  from h(1) have "last h \<in> set h" by simp
  with assms have "last h \<in> set hostAllowedChars - set ''[]: ''"
    unfolding host_plain_def by blast
  then have "last h \<in> set hostAllowedChars" "last h \<noteq> CHR '' ''" by auto
  with hostAllowedChars_space show "\<not> isspace (last h)" by blast
qed

lemma isdigit_not: "isdigit c \<Longrightarrow> \<not> isspace c \<and> c \<notin> set ''[]:@/?#-''"
  by (auto simp: isdigit_def isspace_def code_def)

lemma port_text_chars:
  "c \<in> set (port_text p) \<Longrightarrow> c = CHR '':'' \<or> c = CHR ''-'' \<or> isdigit c"
  by (auto simp: port_text_def dest: show_int_chars split: option.splits)

lemma port_text_free: "set (port_text p) \<inter> set ''[]@/?#'' = {}"
proof -
  have "c \<notin> set ''[]@/?#''" if "c \<in> set (port_text p)" for c
    using port_text_chars [OF that] isdigit_not [of c] by auto
  then show ?thesis by blast
qed

lemma URIAuthority_Str_wf:
  assumes "URIAuthority_wf e a"
  shows "URIAuthority_Str a =
     ''//'' @ (if userInfo a = [] then [] else userInfo a @ ''@'') @ host a @ port_text (port a)"
  using assms
  by (auto simp: URIAuthority_Str_def URIAuthority_wf_def host_plain_def port_text_def)

lemma last_show_int: "\<not> isspace (last (show_int i))"
proof -
  have "last (show_int i) \<in> set (show_int i)" by simp
  from show_int_chars [OF this] show ?thesis
  proof
    assume "last (show_int i) = CHR ''-''"
    then show ?thesis by (simp add: isspace_def code_def)
  qed (simp add: isdigit_not)
qed

lemma trimmed_authority:
  assumes "host_plain h"
  shows "trimmed (''//'' @ u @ h @ port_text p) = ''//'' @ u @ h @ port_text p"
proof (rule trimmed_id, rule disjI2, rule conjI)
  show "\<not> isspace (hd (''//'' @ u @ h @ port_text p))"
    by (simp add: isspace_def code_def)
  show "\<not> isspace (last (''//'' @ u @ h @ port_text p))"
    using host_plain_facts [OF assms] last_show_int
    by (auto simp: port_text_def split: option.split)
qed

subsection \<open>Parsing what was printed\<close>

lemma authority_host_plain:
  assumes "host_plain h"
  shows "str_find_char (pre @ h @ port_text p) CHR ''['' (length pre) = None"
    and "str_find_char (pre @ h @ port_text p) CHR '':'' (length pre) =
           (if p = None then None else Some (length pre + length h))"
    and "str_find_char (pre @ h @ port_text p) CHR '':'' (length pre + length h) =
           (if p = None then None else Some (length pre + length h))"
    and "authority_host (pre @ h @ port_text p) (length pre) = Some h"
proof -
  note h = host_plain_facts [OF assms]
  from h port_text_free [of p]
  show 1: "str_find_char (pre @ h @ port_text p) CHR ''['' (length pre) = None"
    by (intro str_find_char_miss) auto
  from h show 2: "str_find_char (pre @ h @ port_text p) CHR '':'' (length pre) =
      (if p = None then None else Some (length pre + length h))"
    using str_find_char_hit [of "CHR '':''" h pre] str_find_char_miss [of "CHR '':''" h pre]
    by (auto simp: port_text_def)
  show "str_find_char (pre @ h @ port_text p) CHR '':'' (length pre + length h) =
      (if p = None then None else Some (length pre + length h))"
    using str_find_char_hit [of "CHR '':''" "[]" "pre @ h"]
      str_find_char_miss [of "CHR '':''" "[]" "pre @ h"]
    by (auto simp: port_text_def)
  show "authority_host (pre @ h @ port_text p) (length pre) = Some h"
    unfolding authority_host_def 1 2 by (auto simp: str_substr_def port_text_def)
qed

lemma authority_Valid_from:
  assumes "host_plain h"
  shows "URIAuthority_Valid_from (pre @ h @ port_text p) (length pre) e"
proof -
  note h = host_plain_facts [OF assms]
  note find = authority_host_plain [OF assms, of pre p]
  have host: "(case str_find_char (pre @ h @ port_text p) CHR '':'' (length pre) of
       Some q \<Rightarrow> sub (pre @ h @ port_text p) (length pre) (Some (q - length pre))
     | None \<Rightarrow> sub (pre @ h @ port_text p) (length pre) None) = h"
    unfolding find by (auto simp: sub_def port_text_def)
  have digits: "find_first_not_of (sub (pre @ h @ port_text p) (length pre + length h + 1) None)
      ''0123456789'' 1 = None" if "p = Some i" for i
  proof -
    from that have "sub (pre @ h @ port_text p) (length pre + length h + 1) None = show_int i"
      by (simp add: sub_def port_text_def)
    then show ?thesis by (simp only: find_first_not_of_show_int)
  qed
  show ?thesis
    unfolding URIAuthority_Valid_from_def host unfolding find(1) authority_host_ok_def find(3)
    using h digits by (auto simp: find_first_not_of_None)
qed

lemma authority_find_at:
  assumes "set u \<subseteq> set userInfoChars" and "host_plain h"
  shows "str_find_char (''//'' @ (if u = [] then [] else u @ ''@'') @ h @ port_text p) CHR ''@'' 0 =
           (if u = [] then None else Some (2 + length u))"
    and "str_find_char (''//'' @ (if u = [] then [] else u @ ''@'') @ h @ port_text p) CHR ''@'' 2 =
           (if u = [] then None else Some (2 + length u))"
proof -
  note h = host_plain_facts [OF assms(2)]
  from assms(1) userInfoChars_facts have u: "CHR ''@'' \<notin> set u" by blast
  from h port_text_free [of p] have tl: "CHR ''@'' \<notin> set (h @ port_text p)" by auto
  show "str_find_char (''//'' @ (if u = [] then [] else u @ ''@'') @ h @ port_text p) CHR ''@'' 0 =
      (if u = [] then None else Some (2 + length u))"
    using u tl str_find_char_hit [of "CHR ''@''" "''//'' @ u" "[]" "h @ port_text p"]
      str_find_char_miss [of "CHR ''@''" "''//'' @ h @ port_text p" "[]"] by auto
  show "str_find_char (''//'' @ (if u = [] then [] else u @ ''@'') @ h @ port_text p) CHR ''@'' 2 =
      (if u = [] then None else Some (2 + length u))"
    using u tl str_find_char_hit [of "CHR ''@''" u "''//''" "h @ port_text p"]
      str_find_char_miss [of "CHR ''@''" "h @ port_text p" "''//''"]
    by (auto simp: numeral_2_eq_2)
qed

lemma str_find_00: "str_find (''//'' @ t) ''//'' 0 = Some 0"
  by (simp add: str_find_0 find_sub_0_iff)

lemma Valid_run:
  assumes "trimmed S = S" and "S \<noteq> []" and "str_find S ''//'' 0 = Some 0"
    and "str_find_char S CHR ''@'' 2 = (if u = [] then None else Some (2 + length u))"
    and "u \<noteq> [] \<Longrightarrow> sub S 2 (Some (length u)) = u" and "set u \<subseteq> set userInfoChars"
    and "URIAuthority_Valid_from S (2 + (if u = [] then 0 else length u + 1)) e"
  shows "URIAuthority_Valid S e"
  using assms find_first_not_of_None [OF assms(6)]
  by (auto simp: URIAuthority_Valid_def Let_def numeral_2_eq_2 split: if_splits)

lemma Parse_run:
  assumes "URIAuthority_Valid S e" and "S \<noteq> []" and "S \<noteq> ''//''"
    and "str_find_char S CHR ''@'' 0 = (if u = [] then None else Some (2 + length u))"
    and "u \<noteq> [] \<Longrightarrow> str_substr S 2 (size_diff (2 + length u) 2) = Some u"
    and "authority_host S i = Some h" and "i = 2 + (if u = [] then 0 else length u + 1)"
    and "str_find_char S CHR '':'' (i + length h) = (if p = None then None else Some k)"
    and "\<And>j. p = Some j \<Longrightarrow> stoi (sub S (k + 1) None) = Some j"
  shows "URIAuthority_Parse S e b = Some (True,
     \<lparr> userInfo = u, host = h, port = p, emptyHostValid = e, hasEmptyHost = False \<rparr>)"
  using assms
  by (cases b; cases p)
     (auto simp: URIAuthority_Parse_def URIAuthority_Clear_def Let_def numeral_2_eq_2)

lemma URIAuthority_Valid_Str:
  assumes "URIAuthority_wf e a"
  shows "URIAuthority_Valid (URIAuthority_Str a) e'"
proof -
  let ?u = "userInfo a" and ?h = "host a" and ?p = "port a"
  let ?v = "if ?u = [] then [] else ?u @ ''@''"
  from assms have u: "set ?u \<subseteq> set userInfoChars" and h: "host_plain ?h"
    by (auto simp: URIAuthority_wf_def)
  let ?s = "''//'' @ ?v @ ?h @ port_text ?p"
  have len: "length (''//'' @ ?v) = 2 + (if ?u = [] then 0 else length ?u + 1)" by simp
  show ?thesis
    unfolding URIAuthority_Str_wf [OF assms]
  proof (rule Valid_run)
    show "trimmed ?s = ?s" by (rule trimmed_authority [OF h])
    show "str_find ?s ''//'' 0 = Some 0" by (rule str_find_00)
    show "str_find_char ?s CHR ''@'' 2 = (if ?u = [] then None else Some (2 + length ?u))"
      by (rule authority_find_at [OF u h])
    show "URIAuthority_Valid_from ?s (2 + (if ?u = [] then 0 else length ?u + 1)) e'"
      using authority_Valid_from [OF h, of "''//'' @ ?v" ?p e'] by (simp only: len append.assoc)
  qed (simp_all add: sub_def u)
qed

lemma URIAuthority_Parse_Str:
  assumes "URIAuthority_wf e a"
  shows "URIAuthority_Parse (URIAuthority_Str a) e b = Some (True, a)"
proof -
  let ?u = "userInfo a" and ?h = "host a" and ?p = "port a"
  let ?v = "if ?u = [] then [] else ?u @ ''@''"
  from assms have u: "set ?u \<subseteq> set userInfoChars" and h: "host_plain ?h"
    and p: "case ?p of None \<Rightarrow> True | Some i \<Rightarrow> int32 i"
    by (auto simp: URIAuthority_wf_def)
  let ?s = "''//'' @ ?v @ ?h @ port_text ?p"
  let ?i = "2 + (if ?u = [] then 0 else length ?u + 1)"
  have len: "length (''//'' @ ?v) = ?i" by simp
  have rec: "a = \<lparr> userInfo = ?u, host = ?h, port = ?p, emptyHostValid = e, hasEmptyHost = False \<rparr>"
    using assms by (simp add: URIAuthority_wf_def)
  note host = authority_host_plain [OF h, of "''//'' @ ?v" ?p, unfolded len append.assoc]
  have "URIAuthority_Parse ?s e b = Some (True,
     \<lparr> userInfo = ?u, host = ?h, port = ?p, emptyHostValid = e, hasEmptyHost = False \<rparr>)"
  proof (rule Parse_run)
    show "URIAuthority_Valid ?s e"
      using URIAuthority_Valid_Str [OF assms] by (simp only: URIAuthority_Str_wf [OF assms])
    show "str_find_char ?s CHR ''@'' 0 = (if ?u = [] then None else Some (2 + length ?u))"
      by (rule authority_find_at [OF u h])
    show "authority_host ?s ?i = Some ?h" by (rule host)
    show "str_find_char ?s CHR '':'' (?i + length ?h) =
        (if ?p = None then None else Some (?i + length ?h))" by (rule host)
    show "stoi (sub ?s (?i + length ?h + 1) None) = Some j" if "?p = Some j" for j
    proof -
      from that have "sub ?s (?i + length ?h + 1) None = show_int j"
        by (simp add: sub_def port_text_def)
      with p that show ?thesis by (simp add: int32_def stoi_show_int)
    qed
    show "?s \<noteq> ''//''" using host_plain_facts(1) [OF h] by simp
  qed (simp_all add: str_substr_def size_diff_def)
  then show ?thesis
    using rec by (simp only: URIAuthority_Str_wf [OF assms])
qed

interpretation auth: uri_part "\<lambda>s. URIAuthority_Valid s e" "\<lambda>s. URIAuthority_Parse s e"
  URIAuthority_Str "URIAuthority_wf e" for e
  by unfold_locales
     (simp_all add: URIAuthority_Valid_Str URIAuthority_Parse_Str, simp add: URIAuthority_Parse_def)

subsection \<open>When \<open>Parse\<close> throws, and what it makes of an IPv6 address\<close>

lemma authority_host_None_iff: "authority_host s i = None \<longleftrightarrow> length s < i"
proof
  assume "authority_host s i = None"
  then show "length s < i"
    by (auto simp: authority_host_def str_substr_def str_find_char_def
        dest: find_from_bounds split: option.splits if_splits)
next
  assume "length s < i"
  then have "str_find_char s c i = None" for c
    by (simp add: str_find_char_def find_from_def)
  with \<open>length s < i\<close> show "authority_host s i = None"
    by (simp add: authority_host_def str_substr_def)
qed

lemma whitespace_no_at: "\<forall>c \<in> set s. isspace c \<Longrightarrow> str_find_char s CHR ''@'' 0 = None"
  by (auto simp: str_find_char_def find_index_None_iff isspace_def code_def)

lemma trimmed_split: "\<exists>p q. s = p @ trimmed s @ q \<and> (\<forall>c \<in> set p. isspace c)"
proof -
  let ?d = "dropWhile isspace s"
  have "suffix (dropWhile isspace (rev ?d)) (rev ?d)" by (rule suffix_dropWhile)
  then obtain z where "rev ?d = z @ dropWhile isspace (rev ?d)" by (auto simp: suffix_def)
  then have "?d = trimmed s @ rev z"
    by (metis rev_append rev_rev_ident trimmed_eq)
  then have "s = takeWhile isspace s @ trimmed s @ rev z"
    by (metis takeWhile_dropWhile_id)
  then show ?thesis by (metis set_takeWhileD)
qed

lemma Valid_at_position:
  assumes "URIAuthority_Valid s e" and "str_find_char s CHR ''@'' 0 = Some i"
  shows "2 \<le> i \<and> i < length s"
proof -
  obtain p q where s: "s = p @ trimmed s @ q" and p: "\<forall>c \<in> set p. isspace c"
    using trimmed_split by metis
  from assms(2) have i: "i < length s" "s ! i = CHR ''@''"
    by (auto simp: str_find_char_def find_index_Some_iff)
  have "trimmed s \<noteq> []"
    using whitespace_no_at [of s] assms(2) by (auto simp: trimmed_Nil_iff)
  with assms(1) have "prefix ''//'' (trimmed s)"
    by (auto simp: URIAuthority_Valid_def Let_def str_find_0 find_sub_0_iff split: if_splits)
  then obtain t where t: "trimmed s = ''//'' @ t" by (auto simp: prefix_def)
  have "i \<noteq> j" if "j < length p + 2" for j
  proof (cases "j < length p")
    case True
    then have "isspace (s ! j)" using p by (subst s) (simp add: nth_append)
    with i show ?thesis by (auto simp: isspace_def code_def)
  next
    case False
    with that have "j = length p \<or> j = length p + 1" by auto
    then have "s ! j = CHR ''/''" by (subst s) (auto simp: t nth_append)
    with i show ?thesis by auto
  qed
  then have "2 \<le> i" by (metis add.commute le_add1 less_le_trans not_le)
  with i show ?thesis by simp
qed

lemma Valid_short:
  assumes "URIAuthority_Valid s e" and "s \<noteq> []" and "length s < 2"
  shows "\<exists>c. s = [c] \<and> isspace c"
proof -
  from assms(2,3) obtain c where c: "s = [c]" by (cases s) auto
  have "\<not> URIAuthority_Valid [c] e" if "\<not> isspace c"
  proof -
    from that have "trimmed [c] = [c]" by (simp add: trimmed_id)
    then show ?thesis by (simp add: URIAuthority_Valid_def str_find_0 find_sub_0_iff)
  qed
  with assms(1) c show ?thesis by auto
qed

lemma Parse_throws: "URIAuthority_Parse s e a = None \<longleftrightarrow> length s = 1 \<and> isspace (hd s)"
proof (cases "URIAuthority_Valid s e \<and> s \<noteq> []")
  case False
  have "URIAuthority_Valid s e" if "length s = 1" "isspace (hd s)"
    using that by (cases s) (auto simp: URIAuthority_Valid_def trimmed_Nil_iff)
  with False show ?thesis by (auto simp: URIAuthority_Parse_def)
next
  case True
  show ?thesis
  proof (cases "str_find_char s CHR ''@'' 0")
    case None
    have "URIAuthority_Parse s e a = None \<longleftrightarrow> s \<noteq> ''//'' \<and> authority_host s 2 = None"
      using True None
      by (cases "authority_host s 2") (auto simp: URIAuthority_Parse_def Let_def)
    also have "\<dots> \<longleftrightarrow> length s < 2"
      by (auto simp: authority_host_None_iff)
    also have "\<dots> \<longleftrightarrow> length s = 1 \<and> isspace (hd s)"
      using True Valid_short [of s e] by auto
    finally show ?thesis .
  next
    case (Some i)
    with True Valid_at_position [of s e i] have i: "2 \<le> i" "i < length s" by auto
    then obtain h u where "authority_host s (Suc i) = Some h"
        "str_substr s 2 (size_diff i 2) = Some u"
      using authority_host_None_iff [of s "Suc i"] by (auto simp: str_substr_def)
    then have "URIAuthority_Parse s e a \<noteq> None"
      using True Some by (auto simp: URIAuthority_Parse_def Let_def)
    with i show ?thesis by auto
  qed
qed

lemma Parse_ipv6_port:
  assumes x: "set x \<subseteq> set hostAllowedChars - set ''[]''"
    and s: "s = ''//['' @ x @ '']:'' @ show_int n"
  shows "URIAuthority_Parse s e a = Some (True,
     \<lparr> userInfo = [], host = ''['' @ x @ '']:'', port = None, emptyHostValid = e,
       hasEmptyHost = False \<rparr>)"
proof -
  let ?h = "''['' @ x @ '']:''"
  from x hostAllowedChars_facts have free: "CHR '']'' \<notin> set x" "CHR ''@'' \<notin> set x" by auto
  have n: "CHR ''@'' \<notin> set (show_int n)" "CHR '':'' \<notin> set (show_int n)"
    using isdigit_not by (auto dest: show_int_chars)
  have at: "str_find_char s CHR ''@'' i = None" for i
    using free n by (auto simp: s str_find_char_def find_from_None_iff dest!: in_set_dropD)
  have open6: "str_find_char s CHR ''['' 2 = Some 2"
    by (simp add: s str_find_char_def find_from_def)
  have close6: "str_find_char s CHR '']'' 2 = Some (3 + length x)"
    using str_find_char_hit [of "CHR '']''" "''['' @ x" "''//''"] free
    by (simp add: s numeral_2_eq_2 numeral_3_eq_3)
  have host: "sub s 2 (Some (3 + length x)) = ?h"
    by (simp add: s sub_def numeral_2_eq_2 numeral_3_eq_3)
  have colon: "str_find_char s CHR '':'' (2 + length ?h) = None"
    using str_find_char_miss [of "CHR '':''" "show_int n" "''//'' @ ?h"] n
    by (simp add: s numeral_2_eq_2)
  have trim: "trimmed s = s"
    using last_show_int [of n] by (auto simp: s isspace_def code_def intro!: trimmed_id)
  have "set ?h \<subseteq> set hostAllowedChars"
  proof -
    have "set ''[]:'' \<subseteq> set hostAllowedChars" by (simp add: hostAllowedChars_def)
    moreover have "set x \<subseteq> set hostAllowedChars" using x by blast
    moreover have "set ?h = set ''[]:'' \<union> set x" by auto
    ultimately show ?thesis by simp
  qed
  then have first: "find_first_not_of ?h hostAllowedChars 1 = None"
    by (rule find_first_not_of_None)
  have "URIAuthority_Valid_from s 2 e"
    unfolding URIAuthority_Valid_from_def open6 option.case close6 host authority_host_ok_def
      colon first by simp
  then have valid: "URIAuthority_Valid s e"
    by (simp add: URIAuthority_Valid_def Let_def trim at str_find_0 find_sub_0_iff) (simp add: s)
  have "authority_host s 2 = Some ?h"
  proof -
    have "2 \<le> length s" by (simp add: s)
    then show ?thesis using host by (simp add: authority_host_def open6 close6 str_substr_sub)
  qed
  then show ?thesis
    by (intro Parse_run [where u = "[]" and p = None and i = 2])
       (use valid colon in \<open>simp_all add: at, simp_all add: s\<close>)
qed

subsection \<open>Properties\<close>

text \<open>
  C40. For an authority with user information of the allowed characters, a plain host name (not empty, without
  brackets and colons, so no IPv6 address), no port or any 32-bit port number, negative ones included, and
  the setting for empty hosts that the parser is called with: the printed string is accepted and
  parses back to the same value, whatever the object held before. (An IPv6 host with a port does not come
  back: \<open>URIAuthority_ipv6_port_lost\<close>.)
\<close>

theorem URIAuthority_round_trip:
  assumes "URIAuthority_wf e a"
  shows "URIAuthority_Valid (URIAuthority_Str a) e \<and>
         URIAuthority_Parse (URIAuthority_Str a) e b = Some (True, a)"
  using auth.valid_str [OF assms] auth.parse_str [OF assms] by blast

lemma URIAuthority_round_trip_witness:
  "URIAuthority_Parse (URIAuthority_Str
      \<lparr> userInfo = ''me'', host = ''fuel.org'', port = Some 80, emptyHostValid = False,
        hasEmptyHost = False \<rparr>) False URIAuthority_empty =
    Some (True, \<lparr> userInfo = ''me'', host = ''fuel.org'', port = Some 80,
      emptyHostValid = False, hasEmptyHost = False \<rparr>)"
  by (rule URIAuthority_round_trip [THEN conjunct2])
     (simp add: URIAuthority_wf_def host_plain_def userInfoChars_def hostAllowedChars_def
        alnumChars_def int32_def)

text \<open>
  \<open>Parse\<close> throws \<open>std::out_of_range\<close> for exactly one kind of input, a string that is one
  white-space character: \<open>Valid\<close> accepts it because it trims, and \<open>Parse\<close> then takes the
  substring from position 2 of the untrimmed string.
\<close>

theorem URIAuthority_Parse_throws_iff:
  "URIAuthority_Parse s e a = None \<longleftrightarrow> length s = 1 \<and> isspace (hd s)"
  by (rule Parse_throws)

text \<open>
  An IPv6 authority loses its port: the end position of the address is used as the
  length of the substring, so the host takes the colon after the bracket and no port is found.
\<close>

theorem URIAuthority_ipv6_port_lost:
  assumes "set x \<subseteq> set hostAllowedChars - set ''[]''"
  shows "URIAuthority_Parse (''//['' @ x @ '']:'' @ show_int n) e a = Some (True,
     \<lparr> userInfo = [], host = ''['' @ x @ '']:'', port = None, emptyHostValid = e,
       hasEmptyHost = False \<rparr>)"
  using assms refl by (rule Parse_ipv6_port)

end
