(* ===== verification/Uri_Path.thy ===== *)
theory Uri_Path
  imports Uri_Authority
begin

section \<open>URIPath: the list of path segments\<close>

text \<open>
  Class \<open>URIPath\<close> of \<^verbatim>\<open>src/src/URI.cc\<close>: the record of its private data, one definition per
  method, the step relation \<open>path_step\<close> of all calls that change a path, and the invariant
  that no segment ever holds a slash. \<open>Parse\<close> and \<open>Str\<close> are an instance of the contract
  \<open>uri_part\<close>.
\<close>

record URIPath =
  path :: "string list"
  isAbsolute :: bool
  trailingSlash :: bool

definition URIPath_empty :: URIPath where
  "URIPath_empty = \<lparr> path = [], isAbsolute = False, trailingSlash = False \<rparr>"

definition IsStringAbsolute :: "string \<Rightarrow> bool" where
  "IsStringAbsolute s \<longleftrightarrow>
     (length s > 0 \<and> s ! 0 = CHR ''/'') \<or> (length s > 1 \<and> s ! 1 = CHR '':'')"

definition drive :: "string \<Rightarrow> bool" where
  "drive s \<longleftrightarrow> length s \<ge> 2 \<and> s ! 1 = CHR '':''"

subsection \<open>Operations\<close>

definition URIPath_SetAbsolute :: "bool \<Rightarrow> URIPath \<Rightarrow> URIPath" where
  "URIPath_SetAbsolute absolute p =
     (if isAbsolute p \<and> \<not> absolute \<and> path p \<noteq> [] \<and> drive (hd (path p)) then p
      else p \<lparr> isAbsolute := absolute \<rparr>)"

definition URIPath_SetRelative :: "URIPath \<Rightarrow> URIPath" where
  "URIPath_SetRelative p = URIPath_SetAbsolute False p"

text \<open>\<open>replaceAll\<close> of a one-character key returns (\<open>replaceAll_char\<close>), so the value is taken
  out of the option.\<close>

definition encode_slashes :: "string \<Rightarrow> string" where
  "encode_slashes part =
     (if str_find_char part CHR ''/'' 0 \<noteq> None then the (replaceAll part ''/'' ''%2F'') else part)"

definition URIPath_PushFront :: "string \<Rightarrow> URIPath \<Rightarrow> URIPath" where
  "URIPath_PushFront s p =
     (if s = [] then p
      else let (part, p1) =
             (if s ! 0 = CHR ''/'' then (drop 1 s, URIPath_SetAbsolute True p)
              else if drive s then (s, URIPath_SetAbsolute True p)
              else (s, p));
           part' = encode_slashes part
      in if part' \<noteq> [] then p1 \<lparr> path := part' # path p1 \<rparr> else p1)"

definition URIPath_PushBack :: "string \<Rightarrow> URIPath \<Rightarrow> URIPath" where
  "URIPath_PushBack s p =
     (if s = [] then p
      else let (part, p1) =
             (if path p = [] \<and> s ! 0 = CHR ''/'' then (drop 1 s, URIPath_SetAbsolute True p)
              else if path p = [] \<and> drive s then (s, URIPath_SetAbsolute True p)
              else (s, p))
      in p1 \<lparr> path := path p1 @ [encode_slashes part] \<rparr>)"

definition URIPath_PopFront :: "URIPath \<Rightarrow> string \<times> URIPath" where
  "URIPath_PopFront p =
     (if path p = [] then ([], p) else (hd (path p), p \<lparr> path := tl (path p) \<rparr>))"

definition URIPath_PopBack :: "URIPath \<Rightarrow> string \<times> URIPath" where
  "URIPath_PopBack p =
     (if path p = [] then ([], p) else (last (path p), p \<lparr> path := butlast (path p) \<rparr>))"

definition URIPath_div :: "URIPath \<Rightarrow> string \<Rightarrow> URIPath" where
  "URIPath_div p part = URIPath_PushBack part p"

fun path_Str_loop :: "string \<Rightarrow> bool \<Rightarrow> string list \<Rightarrow> string" where
  "path_Str_loop delim firstPart [] = []"
| "path_Str_loop delim firstPart (part # parts) =
     (if firstPart then [] else delim) @ part @ path_Str_loop delim False parts"

definition URIPath_Str :: "string \<Rightarrow> URIPath \<Rightarrow> string" where
  "URIPath_Str delim p =
     (if path p \<noteq> [] \<and> drive (hd (path p)) then [] else if isAbsolute p then ''/'' else []) @
     path_Str_loop delim True (path p) @ (if trailingSlash p then ''/'' else [])"

definition URIPath_Clear :: "URIPath \<Rightarrow> URIPath" where
  "URIPath_Clear p = p \<lparr> path := [], isAbsolute := False, trailingSlash := False \<rparr>"

definition URIPath_eq :: "URIPath \<Rightarrow> URIPath \<Rightarrow> bool" where
  "URIPath_eq p q \<longleftrightarrow> path p = path q \<and> isAbsolute p = isAbsolute q"

definition pathChars :: string where
  "pathChars = alnumChars @ ''/:@%-._~!$&'' @ [CHR 0x27] @ ''()*+,;=[] ''"

definition pathFirstChars :: string where
  "pathFirstChars = alnumChars @ '':%+[/''"

definition URIPath_Valid :: "string \<Rightarrow> bool" where
  "URIPath_Valid s =
     (let str = trimmed s
      in if str = [] \<and> s \<noteq> [] then False
         else if find_first_not_of str pathChars 0 \<noteq> None then False
         else if find_first_not_of (take 1 str) pathFirstChars 0 \<noteq> None then False
         else True)"

definition URIPath_Parse :: "string \<Rightarrow> URIPath \<Rightarrow> bool \<times> URIPath" where
  "URIPath_Parse s p =
     (if \<not> URIPath_Valid s then (False, p)
      else let p1 = foldl (\<lambda>q part. URIPath_PushBack part q) (URIPath_Clear p) (split s ''/'')
      in (True, p1 \<lparr> isAbsolute := IsStringAbsolute s,
                     trailingSlash := (length s > 1 \<and> last s = CHR ''/'') \<rparr>))"

definition URIPath_new :: "string \<Rightarrow> URIPath" where
  "URIPath_new s = snd (URIPath_Parse s URIPath_empty)"

definition URIPath_Valid_self :: "URIPath \<Rightarrow> bool" where
  "URIPath_Valid_self p = URIPath_Valid (URIPath_Str ''/'' p)"

subsection \<open>No segment holds a slash\<close>

definition slash_free :: "URIPath \<Rightarrow> bool" where
  "slash_free p \<longleftrightarrow> (\<forall>seg \<in> set (path p). CHR ''/'' \<notin> set seg)"

inductive path_step :: "URIPath \<Rightarrow> URIPath \<Rightarrow> bool" where
  step_SetAbsolute: "path_step p (URIPath_SetAbsolute b p)"
| step_SetRelative: "path_step p (URIPath_SetRelative p)"
| step_PushFront: "path_step p (URIPath_PushFront s p)"
| step_PushBack: "path_step p (URIPath_PushBack s p)"
| step_PopFront: "path_step p (snd (URIPath_PopFront p))"
| step_PopBack: "path_step p (snd (URIPath_PopBack p))"
| step_Clear: "path_step p (URIPath_Clear p)"
| step_Parse: "path_step p (snd (URIPath_Parse s p))"

inductive path_reach :: "URIPath \<Rightarrow> bool" where
  reach_empty: "path_reach URIPath_empty"
| reach_step: "path_reach p \<Longrightarrow> path_step p q \<Longrightarrow> path_reach q"

inductive_cases path_stepE: "path_step p q"

lemma encode_slashes_eq:
  "encode_slashes s = concat (map (\<lambda>x. if x = CHR ''/'' then ''%2F'' else [x]) s)"
proof (cases "CHR ''/'' \<in> set s")
  case False
  then have "concat (map (\<lambda>x. if x = CHR ''/'' then ''%2F'' else [x]) s) = s"
    by (induction s) auto
  with False show ?thesis
    by (auto simp: encode_slashes_def str_find_char_0 find_index_None_iff)
next
  case True
  then have "str_find_char s CHR ''/'' 0 \<noteq> None"
    by (auto simp: str_find_char_0 find_index_None_iff)
  then show ?thesis by (simp add: encode_slashes_def replaceAll_char)
qed

lemma encode_slashes_free: "CHR ''/'' \<notin> set (encode_slashes s)"
  by (auto simp: encode_slashes_eq split: if_splits)

lemma encode_slashes_id: "CHR ''/'' \<notin> set s \<Longrightarrow> encode_slashes s = s"
proof -
  assume "CHR ''/'' \<notin> set s"
  then have "str_find_char s CHR ''/'' 0 = None" by (auto simp: str_find_char_0 find_index_None_iff)
  then show ?thesis by (simp add: encode_slashes_def)
qed

lemma path_SetAbsolute [simp]: "path (URIPath_SetAbsolute b p) = path p"
  by (simp add: URIPath_SetAbsolute_def)

lemma slash_free_SetAbsolute [wf_intro]: "slash_free p \<Longrightarrow> slash_free (URIPath_SetAbsolute b p)"
  by (simp add: slash_free_def)

lemma slash_free_SetRelative [wf_intro]: "slash_free p \<Longrightarrow> slash_free (URIPath_SetRelative p)"
  by (simp add: slash_free_def URIPath_SetRelative_def)

lemma slash_free_PushFront [wf_intro]: "slash_free p \<Longrightarrow> slash_free (URIPath_PushFront s p)"
  using encode_slashes_free by (auto simp: slash_free_def URIPath_PushFront_def Let_def)

lemma slash_free_PushBack [wf_intro]: "slash_free p \<Longrightarrow> slash_free (URIPath_PushBack s p)"
  using encode_slashes_free by (auto simp: slash_free_def URIPath_PushBack_def Let_def)

lemma slash_free_PopFront [wf_intro]: "slash_free p \<Longrightarrow> slash_free (snd (URIPath_PopFront p))"
  by (cases "path p") (auto simp: slash_free_def URIPath_PopFront_def)

lemma slash_free_PopBack [wf_intro]: "slash_free p \<Longrightarrow> slash_free (snd (URIPath_PopBack p))"
  by (auto simp: slash_free_def URIPath_PopBack_def dest: in_set_butlastD)

lemma slash_free_Clear [wf_intro]: "slash_free (URIPath_Clear p)"
  by (simp add: slash_free_def URIPath_Clear_def)

lemma slash_free_foldl [wf_intro]:
  "slash_free p \<Longrightarrow> slash_free (foldl (\<lambda>q part. URIPath_PushBack part q) p parts)"
  by (induction parts arbitrary: p) (auto intro: wf_intro)

lemma slash_free_Parse [wf_intro]: "slash_free p \<Longrightarrow> slash_free (snd (URIPath_Parse s p))"
  using slash_free_foldl [OF slash_free_Clear]
  by (auto simp: URIPath_Parse_def Let_def slash_free_def)

lemma slash_free_step: "path_step p q \<Longrightarrow> slash_free p \<Longrightarrow> slash_free q"
  by (erule path_stepE) (auto intro: wf_intro)

lemma reach_slash_free: "path_reach p \<Longrightarrow> slash_free p"
proof (induction rule: path_reach.induct)
  case reach_empty
  show ?case by (simp add: slash_free_def URIPath_empty_def)
qed (rule slash_free_step)

lemma path_Str_loop_eq:
  "path_Str_loop d True ps = sep_concat d ps"
  "ps \<noteq> [] \<Longrightarrow> path_Str_loop d False ps = d @ sep_concat d ps"
proof (induction ps)
  case (Cons p ps)
  {
    case 1
    with Cons show ?case by (cases ps) simp_all
  next
    case 2
    with Cons show ?case by (cases ps) simp_all
  }
qed simp_all

subsection \<open>Printing and reading back\<close>

lemma pieces_snoc: "pieces d (s @ [d]) = pieces d s @ [[]]"
  by (induction s) (auto split: list.splits)

lemma pieces_Str:
  assumes "slash_free p"
  shows "filter (\<lambda>x. x \<noteq> []) (pieces CHR ''/'' (URIPath_Str ''/'' p)) =
         filter (\<lambda>x. x \<noteq> []) (path p)"
proof -
  let ?S = "sep_concat ''/'' (path p)"
  have "filter (\<lambda>x. x \<noteq> []) (pieces CHR ''/'' ?S) = filter (\<lambda>x. x \<noteq> []) (path p)"
  proof (cases "path p = []")
    case False
    with assms show ?thesis by (simp add: pieces_sep_concat slash_free_def)
  qed simp
  then show ?thesis
    by (auto simp: URIPath_Str_def path_Str_loop_eq pieces_snoc)
qed

definition segChars :: string where
  "segChars = alnumChars @ '':@%-._~!$&'' @ [CHR 0x27] @ ''()*+,;=[] ''"

definition URIPath_wf :: "URIPath \<Rightarrow> bool" where
  "URIPath_wf p \<longleftrightarrow>
     (\<forall>seg \<in> set (path p). seg \<noteq> [] \<and> set seg \<subseteq> set segChars) \<and>
     (path p \<noteq> [] \<longrightarrow> hd (hd (path p)) \<in> set (alnumChars @ '':%+['') \<and>
        (drive (hd (path p)) \<longrightarrow> isAbsolute p)) \<and>
     (trailingSlash p \<longrightarrow> path p \<noteq> [])"

lemma segChars_pathChars: "set pathChars = insert (CHR ''/'') (set segChars)"
  by (auto simp: pathChars_def segChars_def)

lemma segChars_facts: "CHR ''/'' \<notin> set segChars" "NUL \<notin> set segChars"
  "CHR ''?'' \<notin> set segChars" "CHR ''#'' \<notin> set segChars"
  by (simp_all add: segChars_def alnumChars_def NUL_def)

lemma firstChars_space: "c \<in> set pathFirstChars \<Longrightarrow> \<not> isspace c"
proof -
  have "\<forall>c \<in> set pathFirstChars. \<not> isspace c"
    by (simp add: pathFirstChars_def alnumChars_def isspace_def code_def)
  then show "c \<in> set pathFirstChars \<Longrightarrow> \<not> isspace c" by blast
qed

lemma hd_trimmed: "s \<noteq> [] \<Longrightarrow> \<not> isspace (hd s) \<Longrightarrow> trimmed s \<noteq> [] \<and> hd (trimmed s) = hd s"
proof -
  assume ne: "s \<noteq> []" and h: "\<not> isspace (hd s)"
  then have "trimmed s \<noteq> []" by (auto simp: trimmed_Nil_iff)
  moreover obtain p q where s: "s = p @ trimmed s @ q" and p: "\<forall>c \<in> set p. isspace c"
    using trimmed_split by metis
  have "p = []"
  proof (cases p)
    case (Cons a l)
    with s have "hd s = a" by (metis append_Cons list.sel(1))
    with h p Cons show ?thesis by simp
  qed
  ultimately show ?thesis using s by (metis append_Nil hd_append2)
qed

lemma path_Valid_first:
  assumes "s \<noteq> []" and "hd s \<in> set pathFirstChars" and "set s \<subseteq> set pathChars"
  shows "URIPath_Valid s"
proof -
  from hd_trimmed [OF assms(1) firstChars_space [OF assms(2)]]
  have ne: "trimmed s \<noteq> []" and hd: "hd (trimmed s) = hd s" by auto
  have "set (trimmed s) \<subseteq> set pathChars" using set_trimmed [of s] assms(3) by blast
  moreover have "set (take 1 (trimmed s)) \<subseteq> set pathFirstChars"
    using ne hd assms(2) by (cases "trimmed s") auto
  ultimately show ?thesis
    using ne by (simp add: URIPath_Valid_def Let_def find_first_not_of_None)
qed

lemma foldl_PushBack_segments:
  "\<forall>x \<in> set ps. x \<noteq> [] \<and> CHR ''/'' \<notin> set x \<Longrightarrow>
     path (foldl (\<lambda>q part. URIPath_PushBack part q) p ps) = path p @ ps \<and>
     trailingSlash (foldl (\<lambda>q part. URIPath_PushBack part q) p ps) = trailingSlash p"
proof (induction ps arbitrary: p)
  case (Cons x ps)
  then have "x ! 0 \<noteq> CHR ''/''" "encode_slashes x = x"
    by (auto simp: encode_slashes_id) (metis length_greater_0_conv nth_mem)
  then have "path (URIPath_PushBack x p) = path p @ [x]"
      "trailingSlash (URIPath_PushBack x p) = trailingSlash p"
    using Cons.prems by (auto simp: URIPath_PushBack_def URIPath_SetAbsolute_def Let_def)
  with Cons show ?case by simp
qed simp

lemma URIPath_Parse_split:
  assumes "URIPath_Valid s"
  shows "URIPath_Parse s p = (True, \<lparr> path = split s ''/'', isAbsolute = IsStringAbsolute s,
           trailingSlash = (length s > 1 \<and> last s = CHR ''/'') \<rparr>)"
proof -
  let ?q = "foldl (\<lambda>q part. URIPath_PushBack part q) (URIPath_Clear p) (split s ''/'')"
  have "\<forall>x \<in> set (split s ''/''). x \<noteq> [] \<and> CHR ''/'' \<notin> set x"
    using split_parts [of _ s "''/''"] by (auto simp: c_str_def NUL_def)
  from foldl_PushBack_segments [OF this, of "URIPath_Clear p"]
  have "path ?q = split s ''/''" by (simp add: URIPath_Clear_def)
  with assms show ?thesis
    by (cases ?q) (simp add: URIPath_Parse_def)
qed

lemma sep_concat_subset: "set (sep_concat d ps) \<subseteq> set d \<union> \<Union> (set ` set ps)"
  by (induction d ps rule: sep_concat.induct) auto

lemma sep_concat_last:
  "ps \<noteq> [] \<Longrightarrow> \<forall>x \<in> set ps. x \<noteq> [] \<and> c \<notin> set x \<Longrightarrow>
     sep_concat d ps \<noteq> [] \<and> last (sep_concat d ps) \<noteq> c"
  by (induction d ps rule: sep_concat.induct) (auto simp: last_append)

lemma wf_segments:
  assumes "URIPath_wf p" and "x \<in> set (path p)"
  shows "x \<noteq> [] \<and> CHR ''/'' \<notin> set x \<and> NUL \<notin> set x \<and> set x \<subseteq> set pathChars"
  using assms segChars_facts segChars_pathChars by (auto simp: URIPath_wf_def)

lemma wf_slash_free: "URIPath_wf p \<Longrightarrow> slash_free p"
  using wf_segments by (auto simp: slash_free_def)

lemma URIPath_Str_chars:
  assumes "URIPath_wf p"
  shows "set (URIPath_Str ''/'' p) \<subseteq> set pathChars"
proof -
  have "set (sep_concat ''/'' (path p)) \<subseteq> set pathChars"
  proof
    fix c assume "c \<in> set (sep_concat ''/'' (path p))"
    with sep_concat_subset [of "''/''" "path p"]
    have "c = CHR ''/'' \<or> (\<exists>x \<in> set (path p). c \<in> set x)" by auto
    then show "c \<in> set pathChars"
      using wf_segments [OF assms] segChars_pathChars by blast
  qed
  then show ?thesis
    using segChars_pathChars by (auto simp: URIPath_Str_def path_Str_loop_eq)
qed

lemma split_Str:
  assumes "URIPath_wf p"
  shows "split (URIPath_Str ''/'' p) ''/'' = path p"
proof -
  have "NUL \<notin> set pathChars" using segChars_pathChars segChars_facts by (simp add: NUL_def)
  then have "NUL \<notin> set (URIPath_Str ''/'' p)"
    using URIPath_Str_chars [OF assms] by blast
  then have "split (URIPath_Str ''/'' p) ''/'' = filter (\<lambda>x. x \<noteq> []) (path p)"
    using pieces_Str [OF wf_slash_free [OF assms]] by (simp add: split_char NUL_def)
  also have "\<dots> = path p" using wf_segments [OF assms] by (simp add: filter_id_conv)
  finally show ?thesis .
qed

lemma Str_shape:
  assumes "URIPath_wf p"
  shows "(path p = [] \<and> URIPath_Str ''/'' p = (if isAbsolute p then ''/'' else [])) \<or>
    (\<exists>seg rest. path p \<noteq> [] \<and> seg = hd (path p) \<and>
       sep_concat ''/'' (path p) = seg @ rest \<and> (rest = [] \<or> hd rest = CHR ''/'') \<and>
       URIPath_Str ''/'' p = (if isAbsolute p \<and> \<not> drive seg then ''/'' else []) @ seg @ rest @
         (if trailingSlash p then ''/'' else []))"
proof (cases "path p")
  case Nil
  with assms show ?thesis by (auto simp: URIPath_Str_def URIPath_wf_def)
next
  case (Cons seg segs)
  then show ?thesis
    by (cases segs) (auto simp: URIPath_Str_def path_Str_loop_eq(1) simp del: path_Str_loop.simps)
qed

lemma IsStringAbsolute_Str:
  assumes "URIPath_wf p"
  shows "IsStringAbsolute (URIPath_Str ''/'' p) = isAbsolute p"
proof (cases "path p")
  case Nil
  with assms show ?thesis
    by (auto simp: URIPath_Str_def URIPath_wf_def IsStringAbsolute_def)
next
  case (Cons seg segs)
  with Str_shape [OF assms] obtain rest where rest: "rest = [] \<or> hd rest = CHR ''/''"
    and S: "URIPath_Str ''/'' p = (if isAbsolute p \<and> \<not> drive seg then ''/'' else []) @ seg @ rest @
         (if trailingSlash p then ''/'' else [])"
    by auto
  from Cons assms wf_segments [OF assms, of seg]
  have seg: "seg \<noteq> []" "CHR ''/'' \<notin> set seg" and dr: "drive seg \<longrightarrow> isAbsolute p"
    by (auto simp: URIPath_wf_def)
  obtain c cs where c: "seg = c # cs" using seg(1) by (cases seg) auto
  have one: "length (seg @ t) > 1 \<and> (seg @ t) ! 1 = CHR '':'' \<longleftrightarrow> drive seg"
    if "t = [] \<or> hd t \<noteq> CHR '':''" for t
    using that by (cases cs; cases t) (auto simp: c drive_def)
  have "rest @ (if trailingSlash p then ''/'' else []) = [] \<or>
      hd (rest @ (if trailingSlash p then ''/'' else [])) \<noteq> CHR '':''"
    using rest by (cases rest) auto
  from one [OF this] c seg(2) dr show ?thesis
    by (auto simp: S IsStringAbsolute_def)
qed

lemma trailing_Str:
  assumes "URIPath_wf p"
  shows "(length (URIPath_Str ''/'' p) > 1 \<and> last (URIPath_Str ''/'' p) = CHR ''/'') = trailingSlash p"
proof (cases "path p = []")
  case True
  with assms show ?thesis by (auto simp: URIPath_Str_def URIPath_wf_def)
next
  case False
  from sep_concat_last [OF False, of "CHR ''/''" "''/''"] wf_segments [OF assms]
  have "sep_concat ''/'' (path p) \<noteq> []" "last (sep_concat ''/'' (path p)) \<noteq> CHR ''/''" by auto
  then show ?thesis by (auto simp: URIPath_Str_def path_Str_loop_eq Suc_lessI)
qed

lemma URIPath_Valid_Str:
  assumes "URIPath_wf p"
  shows "URIPath_Valid (URIPath_Str ''/'' p)"
proof (cases "URIPath_Str ''/'' p = []")
  case True
  then show ?thesis
    by (simp add: URIPath_Valid_def Let_def trimmed_eq find_first_not_of_None)
next
  case False
  have slash: "CHR ''/'' \<in> set pathFirstChars" by (simp add: pathFirstChars_def)
  have first: "set (alnumChars @ '':%+['') \<subseteq> set pathFirstChars"
    by (auto simp: pathFirstChars_def)
  have "hd (URIPath_Str ''/'' p) \<in> set pathFirstChars"
  proof (cases "path p")
    case Nil
    with False Str_shape [OF assms] slash show ?thesis by (auto split: if_splits)
  next
    case (Cons seg segs)
    with assms first have "hd seg \<in> set pathFirstChars" "seg \<noteq> []"
      by (auto simp: URIPath_wf_def)
    with Cons Str_shape [OF assms] slash show ?thesis by (auto simp: hd_append)
  qed
  with False URIPath_Str_chars [OF assms] show ?thesis by (intro path_Valid_first)
qed

lemma URIPath_Parse_Str:
  assumes "URIPath_wf p"
  shows "URIPath_Parse (URIPath_Str ''/'' p) q = (True, p)"
  unfolding URIPath_Parse_split [OF URIPath_Valid_Str [OF assms]] split_Str [OF assms]
    IsStringAbsolute_Str [OF assms] trailing_Str [OF assms] by simp

interpretation upath: uri_part URIPath_Valid "\<lambda>s p. Some (URIPath_Parse s p)"
  "URIPath_Str ''/''" URIPath_wf
  by unfold_locales
     (simp_all add: URIPath_Valid_Str URIPath_Parse_Str, simp add: URIPath_Parse_def)

subsection \<open>Properties\<close>

text \<open>
  C4. Whatever sequence of calls built a path, no segment holds a slash, so the text printed
  with the slash as delimiter splits back into exactly the non-empty segments.
\<close>

theorem URIPath_segments_recovered:
  assumes "path_reach p"
  shows "filter (\<lambda>x. x \<noteq> []) (Split (URIPath_Str ''/'' p) CHR ''/'') =
         filter (\<lambda>x. x \<noteq> []) (path p)"
  using pieces_Str [OF reach_slash_free [OF assms]] by (simp add: Split_pieces)

lemma URIPath_segments_recovered_witness:
  "filter (\<lambda>x. x \<noteq> []) (Split (URIPath_Str ''/'' (URIPath_PushBack ''a/b'' URIPath_empty)) CHR ''/'') =
   filter (\<lambda>x. x \<noteq> []) (path (URIPath_PushBack ''a/b'' URIPath_empty))"
  by (rule URIPath_segments_recovered) (rule path_reach.intros step_PushBack)+

text \<open>
  Printing and parsing a path are inverse for every well-formed path: non-empty segments
  of the allowed characters, an allowed first character, a drive specifier only in front of an
  absolute path; the absolute flag and the trailing slash are recovered as well.
\<close>

theorem URIPath_round_trip:
  assumes "URIPath_wf p"
  shows "URIPath_Valid (URIPath_Str ''/'' p) \<and> URIPath_Parse (URIPath_Str ''/'' p) q = (True, p)"
  using upath.valid_str [OF assms] upath.parse_str [OF assms, of q] by simp

text \<open>
  Pushing a lone slash to the back of an empty path stores an empty segment, so that
  the next part pushed is printed behind two slashes; pushed to the front, the same part
  only makes the path absolute.
\<close>

theorem URIPath_PushBack_slash:
  assumes "s \<noteq> []" and "CHR ''/'' \<notin> set s" and "\<not> drive s"
  shows "URIPath_Str ''/'' (URIPath_PushBack s (URIPath_PushBack ''/'' URIPath_empty)) = ''//'' @ s \<and>
         URIPath_Str ''/'' (URIPath_PushBack s (URIPath_PushFront ''/'' URIPath_empty)) = ''/'' @ s"
proof -
  have "encode_slashes [] = []" "encode_slashes s = s"
    using assms by (simp_all add: encode_slashes_id)
  moreover have "s ! 0 \<noteq> CHR ''/''" using assms by (metis length_greater_0_conv nth_mem)
  ultimately show ?thesis
    using assms by (simp add: URIPath_PushBack_def URIPath_PushFront_def URIPath_empty_def
        URIPath_SetAbsolute_def URIPath_Str_def drive_def)
qed

end
