(* ===== verification/Uri_Query.thy ===== *)
theory Uri_Query
  imports Uri_Path
begin

section \<open>URIQuery and URIFragment\<close>

text \<open>
  Classes \<open>URIQuery\<close> and \<open>URIFragment\<close> of \<^verbatim>\<open>src/src/URI.cc\<close>. A query is a list of key/value
  pairs in order of insertion, duplicates included; a fragment is one string. The \<open>substr (1)\<close>
  of both parsers is reached only for a non-empty string. Both are instances of \<open>uri_part\<close>.
\<close>

subsection \<open>Queries\<close>

record URIQuery =
  qvalues :: "(string \<times> string) list"

definition URIQuery_empty :: URIQuery where
  "URIQuery_empty = \<lparr> qvalues = [] \<rparr>"

definition URIQuery_Insert :: "string \<Rightarrow> string \<Rightarrow> URIQuery \<Rightarrow> URIQuery" where
  "URIQuery_Insert key value q = q \<lparr> qvalues := qvalues q @ [(key, value)] \<rparr>"

definition query_Str_step :: "string \<Rightarrow> string \<Rightarrow> string \<times> string \<Rightarrow> string" where
  "query_Str_step delim result v =
     (let result = (if result \<noteq> ''?'' then result @ delim else result)
      in if snd v \<noteq> [] then result @ fst v @ ''='' @ snd v else result @ fst v)"

definition URIQuery_Str :: "string \<Rightarrow> URIQuery \<Rightarrow> string" where
  "URIQuery_Str delim q =
     (if qvalues q = [] then [] else foldl (query_Str_step delim) ''?'' (qvalues q))"

definition URIQuery_Clear :: "URIQuery \<Rightarrow> URIQuery" where
  "URIQuery_Clear q = q \<lparr> qvalues := [] \<rparr>"

definition URIQuery_eq :: "URIQuery \<Rightarrow> URIQuery \<Rightarrow> bool" where
  "URIQuery_eq p q \<longleftrightarrow> URIQuery_Str ''&'' p = URIQuery_Str ''&'' q"

definition queryChars :: string where
  "queryChars = alnumChars @ ''/?:@%-._~!$&'' @ [CHR 0x27] @ ''()*+,;=''"

definition URIQuery_Valid :: "string \<Rightarrow> bool" where
  "URIQuery_Valid s =
     (let str = trimmed s
      in if str = [] then True
         else if str ! 0 \<noteq> CHR ''?'' then False
         else if find_first_not_of str queryChars 1 \<noteq> None then False
         else True)"

definition query_Parse_part :: "URIQuery \<Rightarrow> string \<Rightarrow> URIQuery" where
  "query_Parse_part q query =
     (case split query ''='' of
        [k, v] \<Rightarrow> URIQuery_Insert k v q
      | _ \<Rightarrow> URIQuery_Insert query [] q)"

definition URIQuery_Parse :: "string \<Rightarrow> URIQuery \<Rightarrow> bool \<times> URIQuery" where
  "URIQuery_Parse s q =
     (if \<not> URIQuery_Valid s then (False, q)
      else (True, if s \<noteq> [] then foldl query_Parse_part (URIQuery_Clear q) (split (drop 1 s) ''&'')
                  else URIQuery_Clear q))"

definition URIQuery_new :: "string \<Rightarrow> URIQuery" where
  "URIQuery_new s = snd (URIQuery_Parse s URIQuery_empty)"

definition URIQuery_Valid_self :: "URIQuery \<Rightarrow> bool" where
  "URIQuery_Valid_self q = URIQuery_Valid (URIQuery_Str ''&'' q)"

subsection \<open>Fragments\<close>

record URIFragment =
  fvalue :: string

definition URIFragment_empty :: URIFragment where
  "URIFragment_empty = \<lparr> fvalue = [] \<rparr>"

definition URIFragment_Str :: "URIFragment \<Rightarrow> string" where
  "URIFragment_Str f = (if fvalue f = [] then [] else ''#'' @ fvalue f)"

definition URIFragment_Clear :: "URIFragment \<Rightarrow> URIFragment" where
  "URIFragment_Clear f = f \<lparr> fvalue := [] \<rparr>"

definition URIFragment_eq :: "URIFragment \<Rightarrow> URIFragment \<Rightarrow> bool" where
  "URIFragment_eq f g \<longleftrightarrow> URIFragment_Str f = URIFragment_Str g"

definition URIFragment_Valid :: "string \<Rightarrow> bool" where
  "URIFragment_Valid s =
     (let str = trimmed s
      in if str = [] then True
         else if str ! 0 \<noteq> CHR ''#'' then False
         else if find_first_not_of str queryChars 1 \<noteq> None then False
         else True)"

definition URIFragment_Parse :: "string \<Rightarrow> URIFragment \<Rightarrow> bool \<times> URIFragment" where
  "URIFragment_Parse s f =
     (if \<not> URIFragment_Valid s then (False, f)
      else let f1 = URIFragment_Clear f
      in (True, if s \<noteq> [] then f1 \<lparr> fvalue := drop 1 s \<rparr> else f1))"

definition URIFragment_assign :: "string \<Rightarrow> URIFragment \<Rightarrow> URIFragment" where
  "URIFragment_assign s f = snd (URIFragment_Parse s f)"

definition URIFragment_new :: "string \<Rightarrow> URIFragment" where
  "URIFragment_new s = snd (URIFragment_Parse s URIFragment_empty)"

definition URIFragment_Valid_self :: "URIFragment \<Rightarrow> bool" where
  "URIFragment_Valid_self f = URIFragment_Valid (URIFragment_Str f)"

subsection \<open>Printing and reading back\<close>

definition paramChars :: string where
  "paramChars = alnumChars @ ''/?:@%-._~!$'' @ [CHR 0x27] @ ''()*+,;''"

definition URIQuery_wf :: "URIQuery \<Rightarrow> bool" where
  "URIQuery_wf q \<longleftrightarrow> (\<forall>(k, v) \<in> set (qvalues q). k \<noteq> [] \<and> set k \<subseteq> set paramChars \<and> set v \<subseteq> set paramChars)"

definition URIFragment_wf :: "URIFragment \<Rightarrow> bool" where
  "URIFragment_wf f \<longleftrightarrow> set (fvalue f) \<subseteq> set queryChars"

definition param_text :: "string \<times> string \<Rightarrow> string" where
  "param_text v = (if snd v \<noteq> [] then fst v @ ''='' @ snd v else fst v)"

lemma queryChars_param: "set queryChars = set paramChars \<union> set ''&=''"
  by (auto simp: queryChars_def paramChars_def)

lemma paramChars_facts: "CHR ''&'' \<notin> set paramChars" "CHR ''='' \<notin> set paramChars"
  "CHR ''#'' \<notin> set queryChars" "NUL \<notin> set queryChars"
  by (simp_all add: paramChars_def queryChars_def alnumChars_def NUL_def)

lemma queryChars_space: "c \<in> set queryChars \<Longrightarrow> \<not> isspace c"
proof -
  have "\<forall>c \<in> set queryChars. \<not> isspace c"
    by (simp add: queryChars_def alnumChars_def isspace_def code_def)
  then show "c \<in> set queryChars \<Longrightarrow> \<not> isspace c" by blast
qed

lemma trimmed_marked:
  assumes "set s \<subseteq> set queryChars" and "\<not> isspace c"
  shows "trimmed (c # s) = c # s"
  using assms queryChars_space
  by (cases "s = []") (auto intro!: trimmed_id dest: last_in_set subsetD)

lemma query_Str_fold:
  assumes "2 \<le> length r"
  shows "foldl (query_Str_step d) r vs =
           r @ (if vs = [] then [] else d @ sep_concat d (map param_text vs))"
  using assms
proof (induction vs arbitrary: r)
  case (Cons v vs)
  then have "r \<noteq> ''?''" by auto
  then have "query_Str_step d r v = r @ d @ param_text v"
    by (simp add: query_Str_step_def param_text_def)
  moreover have "2 \<le> length (r @ d @ param_text v)" using Cons.prems by simp
  ultimately show ?case using Cons.IH by (cases vs) simp_all
qed simp

lemma URIQuery_Str_keys:
  assumes "\<forall>v \<in> set (qvalues q). fst v \<noteq> []"
  shows "URIQuery_Str d q =
     (if qvalues q = [] then [] else ''?'' @ sep_concat d (map param_text (qvalues q)))"
proof (cases "qvalues q")
  case Nil
  then show ?thesis by (simp add: URIQuery_Str_def)
next
  case (Cons v vs)
  with assms have "fst v \<noteq> []" by simp
  then have "2 \<le> length (''?'' @ param_text v)"
    by (cases "fst v") (auto simp: param_text_def)
  moreover have "query_Str_step d ''?'' v = ''?'' @ param_text v"
    by (simp add: query_Str_step_def param_text_def)
  ultimately show ?thesis
    using Cons query_Str_fold [of "''?'' @ param_text v" d vs]
    by (cases vs) (simp_all add: URIQuery_Str_def)
qed

lemma URIQuery_Str_eq:
  assumes "URIQuery_wf q"
  shows "URIQuery_Str d q =
     (if qvalues q = [] then [] else ''?'' @ sep_concat d (map param_text (qvalues q)))"
  using assms by (intro URIQuery_Str_keys) (auto simp: URIQuery_wf_def)

lemma param_text_parts:
  assumes "URIQuery_wf q" and "(k, v) \<in> set (qvalues q)"
  shows "k \<noteq> []" and "CHR ''='' \<notin> set k" and "CHR ''='' \<notin> set v"
    and "param_text (k, v) \<noteq> []" and "set (param_text (k, v)) \<subseteq> insert (CHR ''='') (set paramChars)"
proof -
  from assms show k: "k \<noteq> []" by (auto simp: URIQuery_wf_def)
  from assms have kv: "set k \<subseteq> set paramChars" "set v \<subseteq> set paramChars"
    by (auto simp: URIQuery_wf_def)
  with paramChars_facts show "CHR ''='' \<notin> set k" "CHR ''='' \<notin> set v" by blast+
  from k kv show "param_text (k, v) \<noteq> []"
    "set (param_text (k, v)) \<subseteq> insert (CHR ''='') (set paramChars)"
    by (auto simp: param_text_def)
qed

lemma query_Str_chars:
  assumes "URIQuery_wf q"
  shows "set (sep_concat ''&'' (map param_text (qvalues q))) \<subseteq> set queryChars"
proof
  fix c assume "c \<in> set (sep_concat ''&'' (map param_text (qvalues q)))"
  with sep_concat_subset [of "''&''" "map param_text (qvalues q)"]
  have "c = CHR ''&'' \<or> (\<exists>kv \<in> set (qvalues q). c \<in> set (param_text kv))" by auto
  then show "c \<in> set queryChars"
  proof
    assume "\<exists>kv \<in> set (qvalues q). c \<in> set (param_text kv)"
    then obtain k v where "(k, v) \<in> set (qvalues q)" "c \<in> set (param_text (k, v))" by auto
    with param_text_parts(5) [OF assms] have "c \<in> insert (CHR ''='') (set paramChars)" by blast
    then show ?thesis by (auto simp: queryChars_param)
  qed (simp add: queryChars_param)
qed

lemma split_no_delim: "s \<noteq> [] \<Longrightarrow> c \<noteq> NUL \<Longrightarrow> NUL \<notin> set s \<Longrightarrow> c \<notin> set s \<Longrightarrow> split s [c] = [s]"
  by (simp add: split_char pieces_delim_free_id)

lemma query_Parse_part_text:
  assumes "URIQuery_wf q" and "(k, v) \<in> set (qvalues q)"
  shows "query_Parse_part r (param_text (k, v)) = URIQuery_Insert k v r"
proof -
  note parts = param_text_parts [OF assms]
  have eq: "CHR ''='' \<noteq> NUL" by (simp add: NUL_def)
  have "insert (CHR ''='') (set paramChars) \<subseteq> set queryChars" by (auto simp: queryChars_param)
  with parts(5) paramChars_facts(4) have nul: "NUL \<notin> set (param_text (k, v))" by blast
  show ?thesis
  proof (cases "v = []")
    case True
    then have "split k ''='' = [k]"
      using nul parts eq by (intro split_no_delim) (auto simp: param_text_def)
    with True show ?thesis by (simp add: query_Parse_part_def param_text_def)
  next
    case False
    then have "split (param_text (k, v)) ''='' = [k, v]"
      using nul parts eq
      by (simp add: split_char pieces_append pieces_delim_free_id param_text_def)
    then show ?thesis by (simp add: query_Parse_part_def)
  qed
qed

lemma query_Parse_fold:
  assumes "URIQuery_wf q" and "set vs \<subseteq> set (qvalues q)"
  shows "foldl query_Parse_part r (map param_text vs) = r \<lparr> qvalues := qvalues r @ vs \<rparr>"
  using assms(2)
proof (induction vs arbitrary: r)
  case (Cons kv vs)
  then show ?case
    using query_Parse_part_text [OF assms(1), of "fst kv" "snd kv" r]
    by (simp add: URIQuery_Insert_def)
qed simp

lemma split_query:
  assumes "URIQuery_wf q"
  shows "split (sep_concat ''&'' (map param_text (qvalues q))) ''&'' = map param_text (qvalues q)"
proof -
  let ?ps = "map param_text (qvalues q)"
  have ne: "x \<noteq> [] \<and> CHR ''&'' \<notin> set x" if "x \<in> set ?ps" for x
  proof -
    from that obtain k v where kv: "(k, v) \<in> set (qvalues q)" "x = param_text (k, v)" by auto
    from param_text_parts(4,5) [OF assms kv(1)] kv(2) paramChars_facts(1) show ?thesis by auto
  qed
  have "NUL \<notin> set (sep_concat ''&'' ?ps)"
    using query_Str_chars [OF assms] paramChars_facts(4) by blast
  then have "split (sep_concat ''&'' ?ps) ''&'' =
      filter (\<lambda>x. x \<noteq> []) (pieces CHR ''&'' (sep_concat ''&'' ?ps))"
    by (simp add: split_char NUL_def)
  also have "\<dots> = ?ps"
  proof (cases "?ps = []")
    case False
    with ne have "pieces CHR ''&'' (sep_concat ''&'' ?ps) = ?ps" by (intro pieces_sep_concat) auto
    with ne show ?thesis by (simp only: filter_id_conv) blast
  qed simp
  finally show ?thesis .
qed

lemma URIQuery_Valid_Str:
  assumes "URIQuery_wf q"
  shows "URIQuery_Valid (URIQuery_Str ''&'' q)"
proof (cases "qvalues q = []")
  case False
  let ?t = "sep_concat ''&'' (map param_text (qvalues q))"
  have "trimmed (CHR ''?'' # ?t) = CHR ''?'' # ?t"
    by (rule trimmed_marked [OF query_Str_chars [OF assms]]) (simp add: isspace_def code_def)
  moreover have "find_first_not_of (CHR ''?'' # ?t) queryChars 1 = None"
    using query_Str_chars [OF assms] by (auto simp: find_first_not_of_def find_from_None_iff)
  ultimately show ?thesis
    using False by (simp add: URIQuery_Str_eq [OF assms] URIQuery_Valid_def)
qed (simp add: URIQuery_Str_def URIQuery_Valid_def trimmed_eq)

lemma URIQuery_Parse_Str:
  assumes "URIQuery_wf q"
  shows "URIQuery_Parse (URIQuery_Str ''&'' q) r = (True, q)"
proof (cases "qvalues q = []")
  case True
  with URIQuery_Valid_Str [OF assms] show ?thesis
    by (simp add: URIQuery_Parse_def URIQuery_Str_def URIQuery_Clear_def)
next
  case False
  let ?t = "sep_concat ''&'' (map param_text (qvalues q))"
  have s: "URIQuery_Str ''&'' q = CHR ''?'' # ?t"
    using False by (simp add: URIQuery_Str_eq [OF assms])
  from URIQuery_Valid_Str [OF assms] show ?thesis
    unfolding s
    by (simp add: URIQuery_Parse_def split_query [OF assms] query_Parse_fold [OF assms order_refl]
        URIQuery_Clear_def)
qed

interpretation uquery: uri_part URIQuery_Valid "\<lambda>s q. Some (URIQuery_Parse s q)"
  "URIQuery_Str ''&''" URIQuery_wf
  by unfold_locales
     (simp_all add: URIQuery_Valid_Str URIQuery_Parse_Str, simp add: URIQuery_Parse_def)

lemma URIFragment_Valid_Str:
  assumes "URIFragment_wf f"
  shows "URIFragment_Valid (URIFragment_Str f)"
proof (cases "fvalue f = []")
  case False
  have "trimmed (CHR ''#'' # fvalue f) = CHR ''#'' # fvalue f"
    by (rule trimmed_marked [OF assms [unfolded URIFragment_wf_def]])
       (simp add: isspace_def code_def)
  moreover have "find_first_not_of (CHR ''#'' # fvalue f) queryChars 1 = None"
    using assms by (auto simp: find_first_not_of_def find_from_None_iff URIFragment_wf_def)
  ultimately show ?thesis
    using False by (simp add: URIFragment_Str_def URIFragment_Valid_def)
qed (simp add: URIFragment_Str_def URIFragment_Valid_def trimmed_eq)

lemma URIFragment_Parse_Str:
  "URIFragment_wf f \<Longrightarrow> URIFragment_Parse (URIFragment_Str f) g = (True, f)"
  using URIFragment_Valid_Str [of f]
  by (auto simp: URIFragment_Parse_def URIFragment_Str_def URIFragment_Clear_def)

interpretation ufragment: uri_part URIFragment_Valid "\<lambda>s f. Some (URIFragment_Parse s f)"
  URIFragment_Str URIFragment_wf
  by unfold_locales
     (simp_all add: URIFragment_Valid_Str URIFragment_Parse_Str, simp add: URIFragment_Parse_def)

subsection \<open>Properties\<close>

text \<open>
  Printing and parsing a query are inverse: every list of key/value pairs whose keys are
  not empty and whose texts hold no separator comes back in order, with its duplicates and
  its empty values.
\<close>

theorem URIQuery_round_trip:
  assumes "URIQuery_wf q"
  shows "URIQuery_Valid (URIQuery_Str ''&'' q) \<and> URIQuery_Parse (URIQuery_Str ''&'' q) r = (True, q)"
  using uquery.valid_str [OF assms] uquery.parse_str [OF assms, of r] by simp

end
