(* ===== verification/Uri.thy ===== *)
theory Uri
  imports Uri_Query
begin

section \<open>URI: the four parts together\<close>

text \<open>
  Class \<open>URI\<close> of \<^verbatim>\<open>src/src/URI.cc\<close>. \<open>Valid\<close> and \<open>Parse\<close> cut the string in the same order,
  scheme, authority, path, query, fragment; \<open>local_tail\<close> is the part of the cut that is the
  same code in both. The locale \<open>uri_part\<close> supplies what is needed of each part.
\<close>

record URI =
  uri_scheme :: string
  uri_authority :: "URIAuthority option"
  uri_path :: URIPath
  uri_query :: URIQuery
  uri_fragment :: URIFragment

definition URI_empty :: URI where
  "URI_empty = \<lparr> uri_scheme = [], uri_authority = None, uri_path = URIPath_empty,
     uri_query = URIQuery_empty, uri_fragment = URIFragment_empty \<rparr>"

definition kSchemeDelim :: string where "kSchemeDelim = '':''"

definition kAuthDelim :: string where "kAuthDelim = ''//''"

definition URI_Str :: "URI \<Rightarrow> string" where
  "URI_Str u =
     (let result = (if uri_scheme u = [] then [] else uri_scheme u @ kSchemeDelim);
          result = (case uri_authority u of
              Some a \<Rightarrow> result @ URIAuthority_Str a @ URIPath_Str ''/'' (uri_path u)
            | None \<Rightarrow> (if uri_scheme u \<noteq> [] then result @ kAuthDelim else result) @
                URIPath_Str ''/'' (uri_path u))
      in result @ URIQuery_Str ''&'' (uri_query u) @ URIFragment_Str (uri_fragment u))"

definition URI_SetScheme :: "string \<Rightarrow> URI \<Rightarrow> URI" where
  "URI_SetScheme s u = u \<lparr> uri_scheme := s \<rparr>"

definition URI_SetAuthority :: "URIAuthority \<Rightarrow> URI \<Rightarrow> URI" where
  "URI_SetAuthority a u = u \<lparr> uri_authority := Some a \<rparr>"

definition URI_Clear :: "URI \<Rightarrow> URI" where
  "URI_Clear u =
     u \<lparr> uri_scheme := [],
         uri_authority := (if uri_authority u \<noteq> None then Some URIAuthority_empty else None),
         uri_path := URIPath_Clear (uri_path u),
         uri_query := URIQuery_Clear (uri_query u),
         uri_fragment := URIFragment_Clear (uri_fragment u) \<rparr>"

definition URI_eq :: "URI \<Rightarrow> URI \<Rightarrow> bool" where
  "URI_eq u v \<longleftrightarrow>
     uri_scheme u = uri_scheme v \<and>
     (case (uri_authority u, uri_authority v) of
        (Some a, Some b) \<Rightarrow> URIAuthority_eq a b
      | (None, None) \<Rightarrow> True
      | _ \<Rightarrow> False) \<and>
     URIPath_eq (uri_path u) (uri_path v) \<and> URIQuery_eq (uri_query u) (uri_query v) \<and>
     URIFragment_eq (uri_fragment u) (uri_fragment v)"

definition local_tail :: "string \<Rightarrow> string \<times> string \<times> string" where
  "local_tail str =
     (let pathEndPos = find_first_of str ''?#'' 0;
          localPath = sub str 0 pathEndPos;
          str = str_erase_front str pathEndPos;
          (localQuery, str) =
            (if str_find_char str CHR ''?'' 0 \<noteq> None
             then let queryEndPos = str_find_char str CHR ''#'' 0
                  in (sub str 0 queryEndPos, str_erase_front str queryEndPos)
             else ([], str));
          localFragment = (if str_find_char str CHR ''#'' 0 \<noteq> None then str else [])
      in (localPath, localQuery, localFragment))"

definition tail_Valid :: "string \<times> string \<times> string \<Rightarrow> bool" where
  "tail_Valid t =
     (case t of (localPath, localQuery, localFragment) \<Rightarrow>
        URIPath_Valid localPath \<and> URIQuery_Valid localQuery \<and> URIFragment_Valid localFragment)"

definition URI_Valid :: "string \<Rightarrow> bool" where
  "URI_Valid s =
     (let str = trimmed s
      in case str_find_char str CHR '':'' 0 of
           None \<Rightarrow> False
         | Some schemeDelimPos \<Rightarrow>
             if str = [] \<or> schemeDelimPos = 0 then False
             else
               let localScheme = sub str 0 (Some schemeDelimPos);
                   str = str_erase_front str (Some (schemeDelimPos + length kSchemeDelim));
                   emptyHostOk = (localScheme = ''file'')
               in if str_find str kAuthDelim 0 = Some 0
                  then let authEndPos = find_first_of str ''/?#'' (length kAuthDelim)
                       in if localScheme \<noteq> ''file'' \<and> authEndPos = Some 2 then False
                          else URIAuthority_Valid (sub str 0 authEndPos) emptyHostOk \<and>
                               tail_Valid (local_tail (str_erase_front str authEndPos))
                  else (if \<not> emptyHostOk then URIAuthority_Valid [] emptyHostOk else True) \<and>
                       tail_Valid (local_tail str))"

text \<open>What \<open>Parse\<close> makes of the text behind the scheme: \<open>None\<close> is the early return for a
  missing host, else the authority (\<open>authorityPresent\<close> and its text) and the rest.\<close>

definition parse_authority :: "bool \<Rightarrow> string \<Rightarrow> string \<Rightarrow> (bool \<times> string \<times> string) option" where
  "parse_authority hasAuthority localScheme str =
     (if hasAuthority then
        if str_find str kAuthDelim 0 = Some 0 then
          let authEndPos = find_first_of str ''/?#'' (length kAuthDelim)
          in if (case authEndPos of
                   Some e \<Rightarrow> str ! (e - 1) = CHR '':'' \<and> str ! e = CHR ''/''
                 | None \<Rightarrow> False)
             then Some (False, [], str_erase_front str (Some (length kAuthDelim)))
             else if localScheme \<noteq> ''file'' \<and> authEndPos = Some (length kAuthDelim) then None
             else Some (True, sub str 0 authEndPos, str_erase_front str authEndPos)
        else Some (False, [], str)
      else if str_find str ''//'' 0 = Some 0 \<and> str_find str ''///'' 0 = None
           then Some (False, [], drop 2 str)
           else Some (False, [], str))"

text \<open>The last lines of \<open>Parse\<close>: the parts are parsed in order and the first failure ends it,
  with the parts before it already stored.\<close>

definition parse_parts :: "string \<times> string \<times> string \<Rightarrow> URI \<Rightarrow> bool \<times> URI" where
  "parse_parts t u =
     (case t of (localPath, localQuery, localFragment) \<Rightarrow>
        let (ok1, p) = URIPath_Parse localPath (uri_path u); u1 = u \<lparr> uri_path := p \<rparr>
        in if \<not> ok1 then (False, u1)
           else let (ok2, q) = URIQuery_Parse localQuery (uri_query u1); u2 = u1 \<lparr> uri_query := q \<rparr>
           in if \<not> ok2 then (False, u2)
              else let (ok3, f) = URIFragment_Parse localFragment (uri_fragment u2)
              in (ok3, u2 \<lparr> uri_fragment := f \<rparr>))"

definition URI_Parse :: "string \<Rightarrow> URI \<Rightarrow> (bool \<times> URI) option" where
  "URI_Parse s u =
     (if \<not> URI_Valid s then Some (False, u)
      else
        let schemeDelimPos = str_find_char s CHR '':'' 0;
            localScheme = sub s 0 schemeDelimPos;
            str = str_erase_front s (Some (case schemeDelimPos of
                                             None \<Rightarrow> 0 | Some p \<Rightarrow> p + length kSchemeDelim));
            emptyHostOk = (localScheme = ''file'')
        in case parse_authority (uri_authority u \<noteq> None) localScheme str of
             None \<Rightarrow> Some (False, u)
           | Some (authorityPresent, localAuthority, rest) \<Rightarrow>
               let t = local_tail rest; u1 = URI_SetScheme localScheme (URI_Clear u)
               in (case uri_authority u1 of
                     Some a \<Rightarrow>
                       if \<not> emptyHostOk \<or> authorityPresent
                       then do {
                         (ok, a') \<leftarrow> URIAuthority_Parse localAuthority emptyHostOk a;
                         let u2 = u1 \<lparr> uri_authority := Some a' \<rparr>;
                         if ok then Some (parse_parts t u2) else Some (False, u2)
                       }
                       else Some (parse_parts t u1)
                   | None \<Rightarrow> Some (parse_parts t u1)))"

text \<open>The constructor replaces backslashes in a copy of the string of an \<open>http\<close> URI and then
  parses the original, so the copy has no effect.\<close>

definition URI_new :: "string \<Rightarrow> bool \<Rightarrow> URI option" where
  "URI_new s hasAuthority =
     (let u = (if hasAuthority then URI_empty \<lparr> uri_authority := Some URIAuthority_empty \<rparr>
               else URI_empty)
      in map_option snd (URI_Parse s u))"

definition URI_Valid_self :: "URI \<Rightarrow> bool" where
  "URI_Valid_self u = URI_Valid (URI_Str u)"

subsection \<open>Cutting a printed URI\<close>

lemma find_first_of_hit:
  assumes "set b \<inter> set cs = {}" and "r = [] \<or> hd r \<in> set cs"
  shows "find_first_of (a @ b @ r) cs (length a) =
           (if r = [] then None else Some (length a + length b))"
proof (cases r)
  case Nil
  with assms show ?thesis by (auto simp: find_first_of_def find_from_None_iff)
next
  case (Cons x xs)
  with assms have "find_index (\<lambda>x. x \<in> set cs) (b @ x # xs) = Some (length b)"
    by (intro find_index_hit) auto
  with Cons show ?thesis by (simp add: find_first_of_def find_from_def)
qed

lemma cut_front:
  assumes "p = (if r = [] then None else Some (length b))"
  shows "sub (b @ r) 0 p = b" and "str_erase_front (b @ r) p = r"
  using assms by (auto simp: sub_def str_erase_front_def)

lemma local_tail_parts:
  assumes P: "set P \<inter> set ''?#'' = {}"
    and Q: "CHR ''#'' \<notin> set Q" "Q = [] \<or> hd Q = CHR ''?''"
    and F: "F = [] \<or> hd F = CHR ''#''"
  shows "local_tail (P @ Q @ F) = (P, Q, F)"
proof -
  have "Q @ F = [] \<or> hd (Q @ F) \<in> set ''?#''" using Q(2) F by (cases Q) auto
  from find_first_of_hit [OF P this, of "[]"]
  have 1: "find_first_of (P @ Q @ F) ''?#'' 0 = (if Q @ F = [] then None else Some (length P))"
    by simp
  have 2: "str_find_char (Q @ F) CHR ''#'' 0 = (if F = [] then None else Some (length Q))"
    using Q(1) F str_find_char_hit [of "CHR ''#''" Q "[]"] str_find_char_miss [of "CHR ''#''" Q "[]"]
    by (cases F) auto
  have 3: "str_find_char F CHR ''#'' 0 = (if F = [] then None else Some 0)"
    using F by (cases F) (auto simp: str_find_char_def)
  note cut = cut_front [OF 1] cut_front [OF 2]
  show ?thesis
  proof (cases Q)
    case Nil
    then show ?thesis using 1 cut 3 by (cases F) (auto simp: local_tail_def Let_def sub_def)
  next
    case (Cons q qs)
    with Q(2) have "str_find_char (Q @ F) CHR ''?'' 0 = Some 0"
      by (simp add: str_find_char_def)
    then show ?thesis using cut 3 by (auto simp: local_tail_def Let_def)
  qed
qed

definition path_no_space :: "URIPath \<Rightarrow> bool" where
  "path_no_space p \<longleftrightarrow> (\<forall>seg \<in> set (path p). CHR '' '' \<notin> set seg)"

definition URI_wf :: "URI \<Rightarrow> bool" where
  "URI_wf u \<longleftrightarrow>
     uri_scheme u \<noteq> [] \<and> CHR '':'' \<notin> set (uri_scheme u) \<and> (\<forall>c \<in> set (uri_scheme u). \<not> isspace c) \<and>
     (case uri_authority u of None \<Rightarrow> False
      | Some a \<Rightarrow> URIAuthority_wf (uri_scheme u = ''file'') a) \<and>
     URIPath_wf (uri_path u) \<and> path_no_space (uri_path u) \<and>
     (if path (uri_path u) = [] then True
      else isAbsolute (uri_path u) \<and> \<not> drive (hd (path (uri_path u)))) \<and>
     URIQuery_wf (uri_query u) \<and> URIFragment_wf (uri_fragment u)"

lemma Authority_Str_free:
  assumes "URIAuthority_wf e a"
  obtains b where "URIAuthority_Str a = ''//'' @ b" and "set b \<inter> set ''/?#'' = {}" and "b \<noteq> []"
    and "last b \<noteq> CHR '':''" and "\<forall>c \<in> set b. \<not> isspace c"
proof
  let ?u = "userInfo a"
  let ?b = "(if ?u = [] then [] else ?u @ ''@'') @ host a @ port_text (port a)"
  from assms have h: "host_plain (host a)" and u: "set ?u \<subseteq> set userInfoChars"
    by (auto simp: URIAuthority_wf_def)
  note hf = host_plain_facts [OF h]
  show "URIAuthority_Str a = ''//'' @ ?b" by (rule URIAuthority_Str_wf [OF assms])
  show "?b \<noteq> []" using hf by simp
  have uf: "set ?u \<inter> set ''/?#'' = {}" using u userInfoChars_facts by auto
  show "set ?b \<inter> set ''/?#'' = {}"
    using uf hf port_text_free [of "port a"] by auto
  have us: "\<not> isspace c" if "c \<in> set userInfoChars" for c
  proof -
    have "\<forall>c \<in> set userInfoChars. \<not> isspace c"
      by (simp add: userInfoChars_def alnumChars_def isspace_def code_def)
    with that show ?thesis by blast
  qed
  have hs: "\<not> isspace c" if "c \<in> set (host a)" for c
  proof
    assume "isspace c"
    with that hf(2) hostAllowedChars_space have "c = CHR '' ''" by blast
    with that h show False by (auto simp: host_plain_def)
  qed
  have ps: "\<not> isspace c" if "c \<in> set (port_text (port a))" for c
    using port_text_chars [OF that] isdigit_not [of c] by (auto simp: isspace_def code_def)
  show "\<forall>c \<in> set ?b. \<not> isspace c"
    using u us hs ps by (auto simp: isspace_def code_def)
  show "last ?b \<noteq> CHR '':''"
  proof (cases "port a")
    case None
    have "last (host a) \<in> set (host a)" using hf(1) by simp
    with hf(5) have "last (host a) \<noteq> CHR '':''" by metis
    with None hf(1) show ?thesis by (simp add: port_text_def)
  next
    case (Some i)
    have "last (show_int i) \<in> set (show_int i)" by simp
    from show_int_chars [OF this] have "last (show_int i) \<noteq> CHR '':''"
      by (auto simp: isdigit_def code_def)
    with Some show ?thesis by (simp add: port_text_def)
  qed
qed

lemma Path_Str_free:
  assumes "URIPath_wf p" and "path_no_space p"
    and "if path p = [] then True else isAbsolute p \<and> \<not> drive (hd (path p))"
  shows "set (URIPath_Str ''/'' p) \<inter> set ''?#'' = {}"
    and "\<forall>c \<in> set (URIPath_Str ''/'' p). \<not> isspace c"
    and "URIPath_Str ''/'' p = [] \<or> hd (URIPath_Str ''/'' p) = CHR ''/''"
proof -
  note chars = URIPath_Str_chars [OF assms(1)]
  show "set (URIPath_Str ''/'' p) \<inter> set ''?#'' = {}"
    using chars segChars_facts segChars_pathChars by auto
  have "CHR '' '' \<notin> set (sep_concat ''/'' (path p))"
    using sep_concat_subset [of "''/''" "path p"] assms(2) by (auto simp: path_no_space_def)
  then have "CHR '' '' \<notin> set (URIPath_Str ''/'' p)"
    by (auto simp: URIPath_Str_def path_Str_loop_eq)
  moreover have "\<forall>c \<in> set pathChars. isspace c \<longrightarrow> c = CHR '' ''"
    by (simp add: pathChars_def alnumChars_def isspace_def code_def)
  ultimately show "\<forall>c \<in> set (URIPath_Str ''/'' p). \<not> isspace c" using chars by blast
  show "URIPath_Str ''/'' p = [] \<or> hd (URIPath_Str ''/'' p) = CHR ''/''"
    using assms(3) Str_shape [OF assms(1)] by (auto split: if_splits)
qed

lemma Query_Str_free:
  assumes "URIQuery_wf q"
  shows "CHR ''#'' \<notin> set (URIQuery_Str ''&'' q)"
    and "URIQuery_Str ''&'' q = [] \<or> hd (URIQuery_Str ''&'' q) = CHR ''?''"
    and "\<forall>c \<in> set (URIQuery_Str ''&'' q). \<not> isspace c"
proof -
  note chars = query_Str_chars [OF assms]
  show "CHR ''#'' \<notin> set (URIQuery_Str ''&'' q)"
    using chars paramChars_facts(3) by (auto simp: URIQuery_Str_eq [OF assms])
  show "URIQuery_Str ''&'' q = [] \<or> hd (URIQuery_Str ''&'' q) = CHR ''?''"
    by (simp add: URIQuery_Str_eq [OF assms])
  show "\<forall>c \<in> set (URIQuery_Str ''&'' q). \<not> isspace c"
    using chars queryChars_space by (auto simp: URIQuery_Str_eq [OF assms] isspace_def code_def)
qed

lemma Fragment_Str_free:
  assumes "URIFragment_wf f"
  shows "URIFragment_Str f = [] \<or> hd (URIFragment_Str f) = CHR ''#''"
    and "\<forall>c \<in> set (URIFragment_Str f). \<not> isspace c"
  using assms queryChars_space
  by (auto simp: URIFragment_Str_def URIFragment_wf_def isspace_def code_def)

subsection \<open>Parsing a printed URI\<close>

lemma tail_hd:
  assumes "P = [] \<or> hd P = CHR ''/''" and "Q = [] \<or> hd Q = CHR ''?''"
    and "F = [] \<or> hd F = CHR ''#''"
  shows "P @ Q @ F = [] \<or> hd (P @ Q @ F) \<in> set ''/?#''"
  using assms by (cases P; cases Q; cases F) auto

lemma scheme_cut:
  assumes "sch \<noteq> []" and "CHR '':'' \<notin> set sch"
  shows "str_find_char (sch @ '':'' @ r) CHR '':'' 0 = Some (length sch)"
    and "sub (sch @ '':'' @ r) 0 (Some (length sch)) = sch"
    and "str_erase_front (sch @ '':'' @ r) (Some (length sch + length kSchemeDelim)) = r"
  using assms str_find_char_hit [of "CHR '':''" sch "[]" r]
  by (simp_all add: sub_def str_erase_front_def kSchemeDelim_def)

lemma authority_end:
  assumes "set b \<inter> set ''/?#'' = {}" and "r = [] \<or> hd r \<in> set ''/?#''"
  shows "find_first_of (''//'' @ b @ r) ''/?#'' 2 =
     (if r = [] then None else Some (length (''//'' @ b)))"
  using find_first_of_hit [OF assms, of "''//''"] by (simp add: numeral_2_eq_2)

lemma cut_authority:
  "sub (''//'' @ b @ r) 0 (if r = [] then None else Some (length (''//'' @ b))) = ''//'' @ b"
  "str_erase_front (''//'' @ b @ r) (if r = [] then None else Some (length (''//'' @ b))) = r"
  by (simp_all add: sub_def str_erase_front_def)

lemma length_kAuthDelim: "length kAuthDelim = 2"
  by (simp add: kAuthDelim_def)

lemma parse_authority_run:
  assumes "str_find t ''//'' 0 = Some 0" and "find_first_of t ''/?#'' 2 = e"
    and "\<And>k. e = Some k \<Longrightarrow> k \<noteq> 2 \<and> t ! (k - 1) \<noteq> CHR '':''"
  shows "parse_authority True sch t = Some (True, sub t 0 e, str_erase_front t e)"
  using assms unfolding parse_authority_def length_kAuthDelim
  by (cases e) (simp_all add: kAuthDelim_def Let_def)

lemma parse_authority_cut:
  assumes "set b \<inter> set ''/?#'' = {}" and "r = [] \<or> hd r \<in> set ''/?#''"
    and "b \<noteq> []" and "last b \<noteq> CHR '':''"
  shows "parse_authority True sch (''//'' @ b @ r) = Some (True, ''//'' @ b, r)"
proof -
  have "(''//'' @ b @ r) ! (length (''//'' @ b) - 1) = last b"
    using assms(3) by (simp add: nth_append last_conv_nth)
  then have "k \<noteq> 2 \<and> (''//'' @ b @ r) ! (k - 1) \<noteq> CHR '':''"
    if "(if r = [] then None else Some (length (''//'' @ b))) = Some k" for k
    using that assms(3,4) by (auto split: if_splits)
  from parse_authority_run [OF str_find_00 authority_end [OF assms(1,2)] this, of sch]
  show ?thesis by (simp only: cut_authority)
qed

lemma parse_parts_ok:
  assumes "URIPath_Parse P (uri_path u) = (True, p)" and "URIQuery_Parse Q (uri_query u) = (True, q)"
    and "URIFragment_Parse F (uri_fragment u) = (True, f)"
  shows "parse_parts (P, Q, F) u =
    (True, u \<lparr> uri_path := p, uri_query := q, uri_fragment := f \<rparr>)"
  using assms by (simp add: parse_parts_def Let_def)

lemma URI_Str_cut:
  assumes "URI_wf u"
  obtains a b where "uri_authority u = Some a" and "URIAuthority_Str a = ''//'' @ b"
    and "set b \<inter> set ''/?#'' = {}" and "b \<noteq> []" and "last b \<noteq> CHR '':''"
    and "URI_Str u = uri_scheme u @ '':'' @ ''//'' @ b @ URIPath_Str ''/'' (uri_path u) @
           URIQuery_Str ''&'' (uri_query u) @ URIFragment_Str (uri_fragment u)"
    and "trimmed (URI_Str u) = URI_Str u"
proof -
  from assms obtain a where a: "uri_authority u = Some a" "URIAuthority_wf (uri_scheme u = ''file'') a"
    by (auto simp: URI_wf_def split: option.splits)
  obtain b where b: "URIAuthority_Str a = ''//'' @ b" "set b \<inter> set ''/?#'' = {}" "b \<noteq> []"
      "last b \<noteq> CHR '':''" "\<forall>c \<in> set b. \<not> isspace c"
    using Authority_Str_free [OF a(2)] by metis
  have S: "URI_Str u = uri_scheme u @ '':'' @ ''//'' @ b @ URIPath_Str ''/'' (uri_path u) @
           URIQuery_Str ''&'' (uri_query u) @ URIFragment_Str (uri_fragment u)"
    using assms a b by (simp add: URI_Str_def URI_wf_def kSchemeDelim_def Let_def)
  have "\<forall>c \<in> set (URI_Str u). \<not> isspace c"
    unfolding S using assms b(5) Path_Str_free(2) Query_Str_free(3) Fragment_Str_free(2)
    by (auto simp: URI_wf_def isspace_def code_def)
  then have "trimmed (URI_Str u) = URI_Str u"
    by (cases "URI_Str u = []") (auto intro: trimmed_id)
  with that a b S show ?thesis by blast
qed

lemma URI_Valid_run:
  assumes "trimmed S = S" and "S \<noteq> []" and "str_find_char S CHR '':'' 0 = Some n" and "n \<noteq> 0"
    and "sub S 0 (Some n) = sch" and "str_erase_front S (Some (n + length kSchemeDelim)) = t"
    and "str_find t ''//'' 0 = Some 0" and "find_first_of t ''/?#'' 2 = e" and "e \<noteq> Some 2"
    and "URIAuthority_Valid (sub t 0 e) (sch = ''file'')"
    and "tail_Valid (local_tail (str_erase_front t e))"
  shows "URI_Valid S"
  using assms unfolding URI_Valid_def length_kAuthDelim
  by (simp add: Let_def kAuthDelim_def)

lemma URI_Valid_Str:
  assumes "URI_wf u"
  shows "URI_Valid (URI_Str u)"
proof -
  let ?P = "URIPath_Str ''/'' (uri_path u)" and ?Q = "URIQuery_Str ''&'' (uri_query u)"
    and ?F = "URIFragment_Str (uri_fragment u)" and ?sch = "uri_scheme u"
  obtain a b where a: "uri_authority u = Some a" and b: "URIAuthority_Str a = ''//'' @ b"
      "set b \<inter> set ''/?#'' = {}" "b \<noteq> []" "last b \<noteq> CHR '':''"
    and S: "URI_Str u = ?sch @ '':'' @ ''//'' @ b @ ?P @ ?Q @ ?F"
    and trim: "trimmed (URI_Str u) = URI_Str u"
    using URI_Str_cut [OF assms] by metis
  from assms a have wf: "URIAuthority_wf (?sch = ''file'') a" "URIPath_wf (uri_path u)"
      "URIQuery_wf (uri_query u)" "URIFragment_wf (uri_fragment u)"
      "?sch \<noteq> []" "CHR '':'' \<notin> set ?sch" "path_no_space (uri_path u)"
      "if path (uri_path u) = [] then True
       else isAbsolute (uri_path u) \<and> \<not> drive (hd (path (uri_path u)))"
    by (auto simp: URI_wf_def)
  note PF = Path_Str_free [OF wf(2,7,8)] and QF = Query_Str_free [OF wf(3)]
    and FF = Fragment_Str_free [OF wf(4)]
  have r: "?P @ ?Q @ ?F = [] \<or> hd (?P @ ?Q @ ?F) \<in> set ''/?#''"
    by (rule tail_hd [OF PF(3) QF(2) FF(1)])
  note sch = scheme_cut [OF wf(5,6), of "''//'' @ b @ ?P @ ?Q @ ?F"]
  show ?thesis
  proof (rule URI_Valid_run [OF trim])
    show "URI_Str u \<noteq> []" unfolding S using wf(5) by simp
    show "str_find_char (URI_Str u) CHR '':'' 0 = Some (length ?sch)" unfolding S by (rule sch)
    show "length ?sch \<noteq> 0" using wf(5) by simp
    show "sub (URI_Str u) 0 (Some (length ?sch)) = ?sch" unfolding S by (rule sch)
    show "str_erase_front (URI_Str u) (Some (length ?sch + length kSchemeDelim)) =
        ''//'' @ b @ ?P @ ?Q @ ?F" unfolding S by (rule sch)
    show "str_find (''//'' @ b @ ?P @ ?Q @ ?F) ''//'' 0 = Some 0" by (rule str_find_00)
    show "find_first_of (''//'' @ b @ ?P @ ?Q @ ?F) ''/?#'' 2 =
        (if ?P @ ?Q @ ?F = [] then None else Some (length (''//'' @ b)))"
      by (rule authority_end [OF b(2) r])
    show "(if ?P @ ?Q @ ?F = [] then None else Some (length (''//'' @ b))) \<noteq> Some 2"
      using b(3) by simp
    show "URIAuthority_Valid (sub (''//'' @ b @ ?P @ ?Q @ ?F) 0
        (if ?P @ ?Q @ ?F = [] then None else Some (length (''//'' @ b)))) (?sch = ''file'')"
      using URIAuthority_Valid_Str [OF wf(1)] b(1) by (simp only: cut_authority)
    show "tail_Valid (local_tail (str_erase_front (''//'' @ b @ ?P @ ?Q @ ?F)
        (if ?P @ ?Q @ ?F = [] then None else Some (length (''//'' @ b)))))"
      unfolding cut_authority local_tail_parts [OF PF(1) QF(1,2) FF(1)]
      using upath.valid_str [OF wf(2)] uquery.valid_str [OF wf(3)] ufragment.valid_str [OF wf(4)]
      by (simp add: tail_Valid_def)
  qed
qed

lemma URI_Parse_run:
  assumes "URI_Valid S" and "uri_authority v \<noteq> None"
    and "str_find_char S CHR '':'' 0 = Some n" and "sub S 0 (Some n) = sch"
    and "parse_authority True sch (str_erase_front S (Some (n + length kSchemeDelim))) =
           Some (True, A, r)"
    and "local_tail r = t"
    and "URIAuthority_Parse A (sch = ''file'') URIAuthority_empty = Some (True, a)"
    and "parse_parts t ((URI_SetScheme sch (URI_Clear v)) \<lparr> uri_authority := Some a \<rparr>) = res"
  shows "URI_Parse S v = Some res"
  using assms unfolding URI_Parse_def by (simp add: Let_def URI_SetScheme_def URI_Clear_def)

lemma URI_Parse_Str:
  assumes "URI_wf u" and "uri_authority v \<noteq> None"
  shows "URI_Parse (URI_Str u) v = Some (True, u)"
proof -
  let ?P = "URIPath_Str ''/'' (uri_path u)" and ?Q = "URIQuery_Str ''&'' (uri_query u)"
    and ?F = "URIFragment_Str (uri_fragment u)" and ?sch = "uri_scheme u"
  obtain a b where a: "uri_authority u = Some a" and b: "URIAuthority_Str a = ''//'' @ b"
      "set b \<inter> set ''/?#'' = {}" "b \<noteq> []" "last b \<noteq> CHR '':''"
    and S: "URI_Str u = ?sch @ '':'' @ ''//'' @ b @ ?P @ ?Q @ ?F"
    using URI_Str_cut [OF assms(1)] by metis
  from assms a have wf: "URIAuthority_wf (?sch = ''file'') a" "URIPath_wf (uri_path u)"
      "URIQuery_wf (uri_query u)" "URIFragment_wf (uri_fragment u)"
      "?sch \<noteq> []" "CHR '':'' \<notin> set ?sch" "path_no_space (uri_path u)"
      "if path (uri_path u) = [] then True
       else isAbsolute (uri_path u) \<and> \<not> drive (hd (path (uri_path u)))"
    by (auto simp: URI_wf_def)
  note PF = Path_Str_free [OF wf(2,7,8)] and QF = Query_Str_free [OF wf(3)]
    and FF = Fragment_Str_free [OF wf(4)]
  have r: "?P @ ?Q @ ?F = [] \<or> hd (?P @ ?Q @ ?F) \<in> set ''/?#''"
    by (rule tail_hd [OF PF(3) QF(2) FF(1)])
  note sch = scheme_cut [OF wf(5,6), of "''//'' @ b @ ?P @ ?Q @ ?F"]
  show ?thesis
  proof (rule URI_Parse_run [OF URI_Valid_Str [OF assms(1)] assms(2)])
    show "str_find_char (URI_Str u) CHR '':'' 0 = Some (length ?sch)" unfolding S by (rule sch)
    show "sub (URI_Str u) 0 (Some (length ?sch)) = ?sch" unfolding S by (rule sch)
    show "parse_authority True ?sch (str_erase_front (URI_Str u)
        (Some (length ?sch + length kSchemeDelim))) = Some (True, ''//'' @ b, ?P @ ?Q @ ?F)"
      unfolding S sch by (rule parse_authority_cut [OF b(2) r b(3,4)])
    show "local_tail (?P @ ?Q @ ?F) = (?P, ?Q, ?F)"
      by (rule local_tail_parts [OF PF(1) QF(1,2) FF(1)])
    show "URIAuthority_Parse (''//'' @ b) (?sch = ''file'') URIAuthority_empty = Some (True, a)"
      using auth.parse_str [OF wf(1)] b(1) by simp
    show "parse_parts (?P, ?Q, ?F)
        ((URI_SetScheme ?sch (URI_Clear v)) \<lparr> uri_authority := Some a \<rparr>) = (True, u)"
      using upath.parse_str [OF wf(2)] uquery.parse_str [OF wf(3)] ufragment.parse_str [OF wf(4)] a
      by (cases u) (simp add: parse_parts_def URI_SetScheme_def)
  qed
qed

subsection \<open>\<open>Parse\<close> never throws\<close>

lemma parse_authority_text:
  assumes "parse_authority h sch s = Some (p, A, r)"
  shows "A = [] \<or> prefix ''/'' A"
proof -
  have "prefix ''/'' (sub s 0 e) \<or> sub s 0 e = []" if "str_find s ''//'' 0 = Some 0" for e
  proof -
    from that obtain t where "s = CHR ''/'' # t"
      by (auto simp: str_find_0 find_sub_0_iff prefix_def)
    then show ?thesis by (cases e) (auto simp: sub_def take_Cons' prefix_def)
  qed
  with assms show ?thesis
    unfolding parse_authority_def length_kAuthDelim kAuthDelim_def Let_def
    by (auto split: if_splits)
qed

lemma authority_text_parses:
  assumes "A = [] \<or> prefix ''/'' A"
  obtains ok a where "URIAuthority_Parse A e x = Some (ok, a)"
proof -
  have "\<not> (length A = 1 \<and> isspace (hd A))"
    using assms by (auto simp: prefix_def isspace_def code_def)
  then have "URIAuthority_Parse A e x \<noteq> None" by (simp add: Parse_throws)
  with that show ?thesis by auto
qed

lemma parse_parts_kept:
  "uri_scheme (snd (parse_parts t u)) = uri_scheme u"
  "uri_authority (snd (parse_parts t u)) = uri_authority u"
  by (auto simp: parse_parts_def Let_def split: prod.split)

lemma URI_Parse_cases:
  "URI_Parse s u = Some (False, u) \<or>
   (URI_Valid s \<and> (\<exists>ok v. URI_Parse s u = Some (ok, v) \<and>
      uri_scheme v = sub s 0 (str_find_char s CHR '':'' 0) \<and>
      (uri_authority v = None \<longleftrightarrow> uri_authority u = None)))"
proof (cases "URI_Valid s")
  case False
  then show ?thesis by (simp add: URI_Parse_def)
next
  case True
  let ?sch = "sub s 0 (str_find_char s CHR '':'' 0)"
  let ?str = "str_erase_front s (Some (case str_find_char s CHR '':'' 0 of
                                         None \<Rightarrow> 0 | Some p \<Rightarrow> p + length kSchemeDelim))"
  show ?thesis
  proof (cases "parse_authority (uri_authority u \<noteq> None) ?sch ?str")
    case None
    then show ?thesis using True by (simp add: URI_Parse_def Let_def)
  next
    case (Some par)
    obtain p A r where par: "par = (p, A, r)" by (cases par)
    obtain ok a where a:
        "URIAuthority_Parse A (?sch = ''file'') URIAuthority_empty = Some (ok, a)"
      using authority_text_parses [OF parse_authority_text [OF Some [unfolded par]]] by metis
    let ?w = "URI_SetScheme ?sch (URI_Clear u)"
    have w: "uri_scheme ?w = ?sch" "uri_authority ?w = None \<longleftrightarrow> uri_authority u = None"
      by (simp_all add: URI_SetScheme_def URI_Clear_def)
    let ?w' = "?w \<lparr> uri_authority := Some a \<rparr>"
    have out: "URI_Parse s u = Some (parse_parts (local_tail r) ?w) \<or>
        (uri_authority u \<noteq> None \<and> URI_Parse s u = Some (parse_parts (local_tail r) ?w')) \<or>
        (uri_authority u \<noteq> None \<and> URI_Parse s u = Some (False, ?w'))"
      using True Some a unfolding URI_Parse_def
      by (cases "uri_authority u") (simp_all add: par Let_def URI_SetScheme_def URI_Clear_def)
    have kept: "uri_scheme v = ?sch \<and> (uri_authority v = None \<longleftrightarrow> uri_authority u = None)"
      if "URI_Parse s u = Some (ok', v)" for ok' v
    proof -
      from out that have "v = snd (parse_parts (local_tail r) ?w) \<or>
          (uri_authority u \<noteq> None \<and> (v = snd (parse_parts (local_tail r) ?w') \<or> v = ?w'))"
        by (metis option.inject snd_conv)
      then show ?thesis
        by (elim disjE conjE) (simp_all add: parse_parts_kept w)
    qed
    from out have "\<exists>ok' v. URI_Parse s u = Some (ok', v)" by (metis prod.collapse)
    with kept True show ?thesis by blast
  qed
qed

subsection \<open>Properties\<close>

text \<open>
  C1. Printing and parsing a whole URI are inverse: for a URI with a scheme, a well-formed
  authority, an empty or absolute path, any query and fragment of the allowed characters, the
  printed text is valid, and parsing it into any object that has an authority gives the URI
  back, part by part.
\<close>

theorem URI_round_trip:
  assumes "URI_wf u" and "uri_authority v \<noteq> None"
  shows "URI_Valid (URI_Str u) \<and> URI_Parse (URI_Str u) v = Some (True, u)"
  using URI_Valid_Str [OF assms(1)] URI_Parse_Str [OF assms] by blast

definition fuel_uri :: URI where
  "fuel_uri =
     \<lparr> uri_scheme = ''https'',
       uri_authority = Some \<lparr> userInfo = [], host = ''fuel.gazebosim.org'', port = Some 443,
         emptyHostValid = False, hasEmptyHost = False \<rparr>,
       uri_path = \<lparr> path = [''1.0'', ''models''], isAbsolute = True, trailingSlash = False \<rparr>,
       uri_query = \<lparr> qvalues = [(''page'', ''2'')] \<rparr>,
       uri_fragment = \<lparr> fvalue = ''top'' \<rparr> \<rparr>"

lemma URI_round_trip_witness:
  "URI_Parse (URI_Str fuel_uri) (URI_empty \<lparr> uri_authority := Some URIAuthority_empty \<rparr>) =
     Some (True, fuel_uri)"
  by (rule URI_round_trip [THEN conjunct2])
     (simp_all add: fuel_uri_def URI_wf_def URIAuthority_wf_def host_plain_def int32_def
        URIPath_wf_def path_no_space_def URIQuery_wf_def URIFragment_wf_def drive_def
        userInfoChars_def hostAllowedChars_def segChars_def paramChars_def queryChars_def
        alnumChars_def isspace_def code_def)

text \<open>
  \<open>Parse\<close> never throws, although parsing an authority on its own can: it either reports a
  failure and leaves the object alone, or has the text before the first colon as the scheme of
  the object, which keeps or lacks its authority as before. It leaves the object alone for
  every string \<open>Valid\<close> rejects.
\<close>

theorem URI_Parse_outcome:
  "\<exists>ok v. URI_Parse s u = Some (ok, v) \<and> (URI_Valid s \<or> (\<not> ok \<and> v = u)) \<and>
     ((\<not> ok \<and> v = u) \<or>
      (uri_scheme v = sub s 0 (str_find_char s CHR '':'' 0) \<and>
       (uri_authority v = None \<longleftrightarrow> uri_authority u = None)))"
  using URI_Parse_cases [of s u] by auto

text \<open>
  A string \<open>Valid\<close> accepts can still be refused by \<open>Parse\<close>, after the object has been
  cleared: \<open>Valid\<close> reads an authority where \<open>Parse\<close> takes the text for a Windows path, whose
  first character it then rejects.
\<close>

theorem URI_Parse_refuses_valid:
  "URI_Valid ''file://.:/x'' \<and>
   URI_Parse ''file://.:/x'' (u \<lparr> uri_authority := Some a \<rparr>) =
     Some (False, URI_SetScheme ''file'' (URI_Clear (u \<lparr> uri_authority := Some a \<rparr>)))"
proof -
  have valid: "URI_Valid ''file://.:/x''" by code_simp
  have scheme: "str_find_char ''file://.:/x'' CHR '':'' 0 = Some 4"
      "sub ''file://.:/x'' 0 (Some 4) = ''file''"
      "str_erase_front ''file://.:/x'' (Some (4 + length kSchemeDelim)) = ''//.:/x''"
    by code_simp+
  have par: "parse_authority True ''file'' ''//.:/x'' = Some (False, [], ''.:/x'')" by code_simp
  have tail: "local_tail ''.:/x'' = (''.:/x'', [], [])" by code_simp
  have "\<not> URIPath_Valid ''.:/x''" by code_simp
  then have "URIPath_Parse ''.:/x'' p = (False, p)" for p by (simp add: URIPath_Parse_def)
  then show ?thesis
    using valid unfolding URI_Parse_def
    by (simp add: scheme par tail Let_def parse_parts_def URI_SetScheme_def URI_Clear_def)
qed

end
