(* ===== verification/System_Paths.thy ===== *)
theory System_Paths
  imports Filesystem_Paths Uri
begin

section \<open>SystemPaths: search paths and file lookup\<close>

text \<open>
  Class \<open>SystemPaths\<close> of \<^verbatim>\<open>src/src/SystemPaths.cc\<close> (POSIX). The record is its private data;
  the registered callbacks are functions. Lookups read the disk through the predicate \<open>ex\<close>
  (does this path exist) and the current directory; they change nothing. \<open>FindFile\<close> and
  \<open>FindFileURI\<close> call each other: a URI's text without its scheme is shorter than the URI, so
  the recursion ends. \<^const>\<open>None\<close> is the \<open>std::out_of_range\<close> of \<open>substr (2)\<close> on an empty
  authority text.
\<close>

record SystemPaths =
  pluginPathEnv :: string
  filePathEnv :: string
  pluginPaths :: "string list"
  filePaths :: "string list"
  suffixPaths :: "string list"
  logPath :: string
  findFileCbs :: "(string \<Rightarrow> string) list"
  findFileURICbs :: "(URI \<Rightarrow> string) list"

subsection \<open>Path lists\<close>

definition insertUnique :: "string \<Rightarrow> string list \<Rightarrow> string list" where
  "insertUnique p ps = (if p \<notin> set ps then ps @ [p] else ps)"

definition Delimiter :: char where
  "Delimiter = CHR '':''"

definition NormalizeDirectoryPath :: "string \<Rightarrow> string" where
  "NormalizeDirectoryPath p =
     (let path = map (\<lambda>c. if c = CHR 0x5C then CHR ''/'' else c) p
      in if \<not> EndsWith path ''/'' then path @ ''/'' else path)"

definition add_paths :: "string \<Rightarrow> string list \<Rightarrow> string list" where
  "add_paths txt ps =
     foldl (\<lambda>acc p. insertUnique (NormalizeDirectoryPath p) acc) ps (Split txt Delimiter)"

definition AddFilePaths :: "string \<Rightarrow> SystemPaths \<Rightarrow> SystemPaths" where
  "AddFilePaths txt sp =
     (if txt \<noteq> [] then sp \<lparr> filePaths := add_paths txt (filePaths sp) \<rparr> else sp)"

definition AddPluginPaths :: "string \<Rightarrow> SystemPaths \<Rightarrow> SystemPaths" where
  "AddPluginPaths txt sp =
     (if txt \<noteq> [] then sp \<lparr> pluginPaths := add_paths txt (pluginPaths sp) \<rparr> else sp)"

definition ClearFilePaths :: "SystemPaths \<Rightarrow> SystemPaths" where
  "ClearFilePaths sp = sp \<lparr> filePaths := [] \<rparr>"

definition ClearPluginPaths :: "SystemPaths \<Rightarrow> SystemPaths" where
  "ClearPluginPaths sp = sp \<lparr> pluginPaths := [] \<rparr>"

definition SetPluginPathEnv :: "string \<Rightarrow> SystemPaths \<Rightarrow> SystemPaths" where
  "SetPluginPathEnv e sp = sp \<lparr> pluginPathEnv := e \<rparr>"

definition SetFilePathEnv :: "environ \<Rightarrow> string \<Rightarrow> SystemPaths \<Rightarrow> SystemPaths" where
  "SetFilePathEnv E e sp =
     (let sp = sp \<lparr> filePathEnv := e \<rparr>
      in if e \<noteq> [] then
           (let sp = ClearFilePaths sp
            in case env E e False of None \<Rightarrow> sp | Some result \<Rightarrow> AddFilePaths result sp)
         else sp)"

definition PluginPaths :: "environ \<Rightarrow> SystemPaths \<Rightarrow> string list \<times> SystemPaths" where
  "PluginPaths E sp =
     (let sp = (if pluginPathEnv sp \<noteq> [] then
                  (case env E (pluginPathEnv sp) False of
                     None \<Rightarrow> sp | Some result \<Rightarrow> AddPluginPaths result sp)
                else sp)
      in (pluginPaths sp, sp))"

text \<open>An empty suffix is read out of bounds: undefined behaviour, \<^const>\<open>None\<close>.\<close>

definition AddSearchPathSuffix :: "string \<Rightarrow> SystemPaths \<Rightarrow> SystemPaths option" where
  "AddSearchPathSuffix sfx sp =
     (if sfx = [] then None
      else let s = (if sfx ! 0 \<noteq> CHR ''/'' then ''/'' @ sfx else sfx);
               s = (if sfx ! (length sfx - 1) \<noteq> CHR ''/'' then s @ ''/'' else s)
           in Some (sp \<lparr> suffixPaths := suffixPaths sp @ [s] \<rparr>))"

definition AddFindFileCallback :: "(string \<Rightarrow> string) \<Rightarrow> SystemPaths \<Rightarrow> SystemPaths" where
  "AddFindFileCallback cb sp = sp \<lparr> findFileCbs := findFileCbs sp @ [cb] \<rparr>"

definition ClearFindFileCallbacks :: "SystemPaths \<Rightarrow> SystemPaths" where
  "ClearFindFileCallbacks sp = sp \<lparr> findFileCbs := [] \<rparr>"

definition AddFindFileURICallback :: "(URI \<Rightarrow> string) \<Rightarrow> SystemPaths \<Rightarrow> SystemPaths" where
  "AddFindFileURICallback cb sp = sp \<lparr> findFileURICbs := findFileURICbs sp @ [cb] \<rparr>"

definition ClearFindFileURICallbacks :: "SystemPaths \<Rightarrow> SystemPaths" where
  "ClearFindFileURICallbacks sp = sp \<lparr> findFileURICbs := [] \<rparr>"

definition PathsFromEnv :: "environ \<Rightarrow> string \<Rightarrow> string list" where
  "PathsFromEnv E e =
     (case env E e False of
        None \<Rightarrow> []
      | Some envPathsStr \<Rightarrow> if envPathsStr = [] then [] else add_paths envPathsStr [])"

text \<open>The constructor: the new object, and the directory it creates if there is none.\<close>

definition SystemPaths_new :: "(string \<Rightarrow> bool) \<Rightarrow> environ \<Rightarrow> SystemPaths \<times> string option" where
  "SystemPaths_new ex E =
     (let home = (case env E ''HOME'' False of None \<Rightarrow> ''/tmp/gz'' | Some h \<Rightarrow> h);
          fullPath = (if home \<noteq> ''/tmp/gz'' then joinPaths home ''.gz'' else home);
          sp = \<lparr> pluginPathEnv = ''GZ_PLUGIN_PATH'', filePathEnv = ''GZ_FILE_PATH'',
                 pluginPaths = [], filePaths = [], suffixPaths = [], logPath = fullPath,
                 findFileCbs = [], findFileURICbs = [] \<rparr>
      in (SetFilePathEnv E (filePathEnv sp) sp, if \<not> ex fullPath then Some fullPath else None))"

subsection \<open>Shared libraries\<close>

definition library_basenames :: "string \<Rightarrow> string list" where
  "library_basenames name =
     [name, ''lib'' @ name @ ''.so'', name @ ''.so'', name @ ''.dll'',
      ''Release/'' @ name @ ''.dll'', ''Debug/'' @ name @ ''.dll'', name @ ''.dll'',
      ''lib'' @ name @ ''.dylib'', name @ ''.dylib'', ''lib'' @ name @ ''.SO'', name @ ''.SO'',
      name @ ''.DLL'', ''Release/'' @ name @ ''.DLL'', ''Debug/'' @ name @ ''.DLL'',
      ''lib'' @ name @ ''.DYLIB'', name @ ''.DYLIB'']"

definition GenerateLibraryPaths :: "SystemPaths \<Rightarrow> string \<Rightarrow> string list" where
  "GenerateLibraryPaths sp libName =
     (let lowercaseLibName = lowercase libName;
          hasLib = StartsWith libName ''lib'';
          hasDotSo = EndsWith lowercaseLibName ''.so'';
          hasDotDll = EndsWith lowercaseLibName ''.dll'';
          hasDotDylib = EndsWith lowercaseLibName ''.dylib'';
          initNames = [libName] @
            (if hasLib \<and> hasDotSo then [sub libName 3 (Some (length libName - 6))] else []) @
            (if hasDotDll then [sub libName 0 (Some (length libName - 4))] else []) @
            (if hasLib \<and> hasDotDylib then [sub libName 3 (Some (length libName - 9))] else []);
          basenames = concat (map library_basenames initNames)
      in concat (map (\<lambda>path. map (\<lambda>name. path @ name) basenames) (pluginPaths sp)))"

fun first_existing :: "(string \<Rightarrow> bool) \<Rightarrow> string list \<Rightarrow> string" where
  "first_existing ex [] = []"
| "first_existing ex (p # ps) = (if ex p then p else first_existing ex ps)"

definition FindSharedLibrary ::
    "(string \<Rightarrow> bool) \<Rightarrow> environ \<Rightarrow> string \<Rightarrow> SystemPaths \<Rightarrow> string \<times> SystemPaths" where
  "FindSharedLibrary ex E libName sp =
     (if isAbsolute (URIPath_new libName) \<and> ex libName then (libName, sp)
      else let sp = snd (PluginPaths E sp)
      in (changeFromUnixPath (first_existing ex (GenerateLibraryPaths sp libName)), sp))"

definition LocateLocalFile :: "(string \<Rightarrow> bool) \<Rightarrow> string \<Rightarrow> string list \<Rightarrow> string" where
  "LocateLocalFile ex filename paths =
     first_existing ex (map (\<lambda>path. NormalizeDirectoryPath path @ filename) paths)"

subsection \<open>Files and URIs\<close>

text \<open>The callbacks are called in order until one returns a non-empty path; \<open>first_callback\<close>
  gives what the last call made returned.\<close>

fun first_callback :: "('a \<Rightarrow> string) list \<Rightarrow> 'a \<Rightarrow> string" where
  "first_callback [] x = []"
| "first_callback (cb # cbs) x = (let p = cb x in if p \<noteq> [] then p else first_callback cbs x)"

text \<open>The loop over the custom paths.\<close>

definition in_file_paths :: "(string \<Rightarrow> bool) \<Rightarrow> SystemPaths \<Rightarrow> string \<Rightarrow> string" where
  "in_file_paths ex sp sfx =
     copyFromUnixPath
       (first_existing ex (map (\<lambda>p. NormalizeDirectoryPath p @ sfx) (filePaths sp)))"

definition uri_suffix :: "URI \<Rightarrow> string option" where
  "uri_suffix uri =
     (let p = URIPath_Str ''/'' (uri_path uri)
      in case uri_authority uri of
           Some a \<Rightarrow>
             map_option (\<lambda>t. t @ p @ URIQuery_Str ''&'' (uri_query uri))
               (str_substr (URIAuthority_Str a) 2 None)
         | None \<Rightarrow>
             Some ((if isAbsolute (uri_path uri) \<and> uri_scheme uri \<noteq> ''file'' then drop 1 p else p) @
                   URIQuery_Str ''&'' (uri_query uri)))"

text \<open>\<open>URI (_filename)\<close> does not throw (\<open>URI_Parse_total\<close>).\<close>

definition uri_of :: "string \<Rightarrow> URI" where
  "uri_of filename = the (URI_new filename False)"

text \<open>The last lines of both lookups: a path is returned only if it exists.\<close>

definition checked :: "(string \<Rightarrow> bool) \<Rightarrow> string \<Rightarrow> string" where
  "checked ex p = (if p = [] then [] else if \<not> ex p then [] else p)"

definition find_uri_rest :: "(string \<Rightarrow> bool) \<Rightarrow> SystemPaths \<Rightarrow> URI \<Rightarrow> string \<Rightarrow> string \<Rightarrow> string" where
  "find_uri_rest ex sp uri sfx filename =
     (let filename = (if filename = [] then in_file_paths ex sp sfx else filename);
          filename = (if filename = [] then first_callback (findFileURICbs sp) uri else filename)
      in checked ex filename)"

definition find_local ::
    "(string \<Rightarrow> bool) \<Rightarrow> string \<Rightarrow> SystemPaths \<Rightarrow> string \<Rightarrow> bool \<Rightarrow> string" where
  "find_local ex dir sp filename searchLocalPath =
     (let cwdPath = joinPaths dir filename
      in if searchLocalPath \<and> ex cwdPath then cwdPath
         else if (filename ! 0 = CHR ''.'' \<or> searchLocalPath) \<and> ex filename then filename
         else first_callback (findFileCbs sp) filename)"

definition find_file_rest :: "(string \<Rightarrow> bool) \<Rightarrow> SystemPaths \<Rightarrow> string \<Rightarrow> string \<Rightarrow> string" where
  "find_file_rest ex sp filename p =
     (let path = (if p = [] then in_file_paths ex sp filename else p);
          path = (if path = [] then first_callback (findFileCbs sp) filename else path)
      in checked ex path)"

subsection \<open>The text of a parsed URI is no longer than the text it came from\<close>

lemma length_sep_concat:
  "ps \<noteq> [] \<Longrightarrow> Suc (length (sep_concat [d] ps)) = sum_list (map length ps) + length ps"
  by (induction "[d]" ps rule: sep_concat.induct) auto

lemma sum_list_filter_nonempty: "sum_list (map length (filter (\<lambda>x. x \<noteq> []) ps)) = sum_list (map length ps)"
  by (induction ps) auto

lemma length_filter_nonempty:
  "length (filter (\<lambda>x. x \<noteq> []) ps) + length (filter (\<lambda>x. x = []) ps) = length ps"
  using sum_length_filter_compl [of "\<lambda>x. x \<noteq> []" ps] by simp

lemma length_rejoin: "length (sep_concat [d] (filter (\<lambda>x. x \<noteq> []) (pieces d t))) \<le> length t"
proof (cases "filter (\<lambda>x. x \<noteq> []) (pieces d t) = []")
  case False
  have "Suc (length t) = sum_list (map length (pieces d t)) + length (pieces d t)"
    using length_sep_concat [OF pieces_nonempty, of d d t] by simp
  with length_sep_concat [OF False, of d] length_filter_nonempty [of "pieces d t"] show ?thesis
    by (simp add: sum_list_filter_nonempty)
qed simp

lemma length_rejoin_split:
  "c \<noteq> NUL \<Longrightarrow> length (sep_concat [c] (split s [c])) \<le> length s"
  using length_rejoin [of c "c_str s"] length_c_str [of s] by (simp add: split_char)

lemma two_empty:
  assumes "hd ps = []" and "last ps = []" and "filter (\<lambda>x. x \<noteq> []) ps \<noteq> []"
  shows "2 \<le> length (filter (\<lambda>x. x = []) ps)"
proof -
  from assms(3) have ne: "ps \<noteq> []" by auto
  then obtain x xs where ps: "ps = x # xs" by (cases ps) auto
  with assms have "xs \<noteq> []" by auto
  then obtain ys y where xs: "xs = ys @ [y]" by (cases xs rule: rev_cases) auto
  from assms(1,2) ps xs show ?thesis by simp
qed

lemma hd_pieces: "s \<noteq> [] \<Longrightarrow> hd s = d \<Longrightarrow> hd (pieces d s) = []"
  by (cases s) auto

lemma last_pieces: "s \<noteq> [] \<Longrightarrow> last s = d \<Longrightarrow> last (pieces d s) = []"
  by (cases s rule: rev_cases) (auto simp: pieces_snoc)

lemma set_trimmed_cover: "c \<in> set s \<Longrightarrow> \<not> isspace c \<Longrightarrow> c \<in> set (trimmed s)"
proof -
  have drop: "c \<in> set xs \<Longrightarrow> \<not> isspace c \<Longrightarrow> c \<in> set (dropWhile isspace xs)" for xs
    by (metis UnE set_append set_takeWhileD takeWhile_dropWhile_id)
  then show "c \<in> set s \<Longrightarrow> \<not> isspace c \<Longrightarrow> c \<in> set (trimmed s)"
    by (simp add: trimmed_eq)
qed

lemma Valid_no_NUL: "URIPath_Valid s \<Longrightarrow> NUL \<notin> set s"
proof
  assume v: "URIPath_Valid s" and "NUL \<in> set s"
  moreover have "\<not> isspace NUL" by (simp add: NUL_def isspace_def code_def)
  ultimately have n: "NUL \<in> set (trimmed s)" by (simp add: set_trimmed_cover)
  from v have "set (trimmed s) \<subseteq> set pathChars"
    by (auto simp: URIPath_Valid_def Let_def find_first_not_of_def find_index_None_iff
        split: if_splits)
  with n segChars_pathChars segChars_facts show False by (auto simp: NUL_def)
qed

lemma length_URIPath_Str_Parse:
  "length (URIPath_Str ''/'' (snd (URIPath_Parse s URIPath_empty))) \<le> length s"
proof (cases "URIPath_Valid s")
  case False
  then show ?thesis
    by (simp add: URIPath_Parse_def URIPath_Str_def URIPath_empty_def)
next
  case True
  let ?ps = "pieces CHR ''/'' s"
  let ?fs = "filter (\<lambda>x. x \<noteq> []) ?ps" and ?es = "filter (\<lambda>x. x = []) ?ps"
  let ?t = "length s > 1 \<and> last s = CHR ''/''"
  let ?a = "IsStringAbsolute s \<and> \<not> (?fs \<noteq> [] \<and> drive (hd ?fs))"
  have split: "split s ''/'' = ?fs"
    using Valid_no_NUL [OF True] by (simp add: split_char NUL_def)
  have Str: "length (URIPath_Str ''/'' (snd (URIPath_Parse s URIPath_empty))) =
      (if ?a then 1 else 0) + length (sep_concat ''/'' ?fs) + (if ?t then 1 else 0)"
    by (auto simp: URIPath_Parse_split [OF True] split URIPath_Str_def path_Str_loop_eq)
  show ?thesis
  proof (cases "?fs = []")
    case True
    have "?t \<longrightarrow> 2 \<le> length s" "?a \<longrightarrow> 1 \<le> length s"
      by (auto simp: IsStringAbsolute_def Suc_le_eq)
    with True Str show ?thesis by auto
  next
    case False
    have len: "length s = length (sep_concat ''/'' ?fs) + length ?es"
    proof -
      have "Suc (length s) = sum_list (map length ?ps) + length ?ps"
        using length_sep_concat [OF pieces_nonempty, of "CHR ''/''" "CHR ''/''" s] by simp
      with length_sep_concat [OF False, of "CHR ''/''"] length_filter_nonempty [of ?ps] show ?thesis
        by (simp add: sum_list_filter_nonempty)
    qed
    have lead: "?a \<longrightarrow> hd ?ps = []"
    proof
      assume a: ?a
      have "s ! 0 = CHR ''/''"
      proof (rule ccontr)
        assume n: "s ! 0 \<noteq> CHR ''/''"
        with a have s: "length s > 1" "s ! 1 = CHR '':''" by (auto simp: IsStringAbsolute_def)
        then obtain x r where x: "s = x # CHR '':'' # r" by (cases s; cases "tl s") auto
        with n obtain q qs where "?ps = (x # CHR '':'' # q) # qs"
          by (cases "pieces CHR ''/'' r") auto
        with a show False by (simp add: drive_def)
      qed
      moreover have "s \<noteq> []" using a by (auto simp: IsStringAbsolute_def)
      ultimately show "hd ?ps = []" by (intro hd_pieces) (auto simp: hd_conv_nth)
    qed
    have trail: "?t \<longrightarrow> last ?ps = []" 
    proof
      assume t: ?t
      then have "s \<noteq> []" by auto
      with t show "last ?ps = []" by (intro last_pieces) auto
    qed
    have one: "1 \<le> length ?es" if "hd ?ps = [] \<or> last ?ps = []"
    proof -
      have "[] \<in> set ?ps" using that pieces_nonempty by (metis hd_in_set last_in_set)
      then have "?es \<noteq> []" by (auto simp: filter_empty_conv)
      then show ?thesis by (cases ?es) auto
    qed
    have "(if ?a then 1 else 0) + (if ?t then 1 else 0) \<le> length ?es"
      using lead trail one two_empty [OF _ _ False] by auto
    with Str len show ?thesis by linarith
  qed
qed

definition query_pair :: "string \<Rightarrow> string \<times> string" where
  "query_pair q = (case split q ''='' of [k, v] \<Rightarrow> (k, v) | _ \<Rightarrow> (q, []))"

lemma query_Parse_part_pair: "query_Parse_part r q = URIQuery_Insert (fst (query_pair q)) (snd (query_pair q)) r"
  by (auto simp: query_Parse_part_def query_pair_def split: list.split)

lemma query_fold_pairs: "qvalues (foldl query_Parse_part r qs) = qvalues r @ map query_pair qs"
  by (induction qs arbitrary: r) (auto simp: query_Parse_part_pair URIQuery_Insert_def)

lemma query_pair_facts:
  assumes "q \<noteq> []"
  shows "fst (query_pair q) \<noteq> []" and "length (param_text (query_pair q)) \<le> length q"
proof -
  have eq: "CHR ''='' \<noteq> NUL" by (simp add: NUL_def)
  have parts: "x \<noteq> []" if "x \<in> set (split q ''='')" for x using split_parts [OF that] by simp
  have len: "length (sep_concat ''='' (split q ''='')) \<le> length q"
    using length_rejoin_split [OF eq] .
  show "fst (query_pair q) \<noteq> []"
    using assms parts by (auto simp: query_pair_def split: list.split)
  show "length (param_text (query_pair q)) \<le> length q"
    using assms parts len by (auto simp: query_pair_def param_text_def split: list.split)
qed

lemma length_sep_concat_mono:
  "\<forall>q \<in> set qs. length (f q) \<le> length (g q) \<Longrightarrow>
     length (sep_concat d (map f qs)) \<le> length (sep_concat d (map g qs))"
  by (induction qs rule: induct_list012) auto

lemma length_URIQuery_Str_Parse:
  "length (URIQuery_Str ''&'' (snd (URIQuery_Parse s URIQuery_empty))) \<le> length s"
proof (cases "URIQuery_Valid s \<and> s \<noteq> []")
  case False
  then show ?thesis
    by (auto simp: URIQuery_Parse_def URIQuery_Str_def URIQuery_empty_def URIQuery_Clear_def)
next
  case True
  let ?qs = "split (drop 1 s) ''&''"
  let ?r = "foldl query_Parse_part (URIQuery_Clear URIQuery_empty) ?qs"
  have amp: "CHR ''&'' \<noteq> NUL" by (simp add: NUL_def)
  have ne: "q \<noteq> []" if "q \<in> set ?qs" for q using split_parts [OF that] by simp
  have vals: "qvalues ?r = map query_pair ?qs"
    by (simp add: query_fold_pairs URIQuery_Clear_def)
  have keys: "\<forall>v \<in> set (qvalues ?r). fst v \<noteq> []"
    using ne query_pair_facts(1) unfolding vals by auto
  have "length (sep_concat ''&'' (map (param_text \<circ> query_pair) ?qs)) \<le>
      length (sep_concat ''&'' (map (\<lambda>q. q) ?qs))"
    using ne query_pair_facts(2) by (intro length_sep_concat_mono) auto
  also have "\<dots> \<le> length (drop 1 s)"
    using length_rejoin_split [OF amp, of "drop 1 s"] by (simp only: list.map_ident)
  finally have "length (URIQuery_Str ''&'' ?r) \<le> Suc (length (drop 1 s))"
    unfolding URIQuery_Str_keys [OF keys] vals by (simp add: comp_def)
  also have "\<dots> = length s" using True by simp
  finally show ?thesis using True by (simp add: URIQuery_Parse_def)
qed

lemma length_local_tail:
  assumes "local_tail s = (p, q, f)"
  shows "length p + length q \<le> length s"
proof -
  have split: "length (sub t 0 n) + length (str_erase_front t n) \<le> length t" for t :: string and n
    by (cases n) (auto simp: sub_def str_erase_front_def)
  let ?e = "find_first_of s ''?#'' 0"
  let ?t = "str_erase_front s ?e"
  have "p = sub s 0 ?e" and "q = [] \<or> q = sub ?t 0 (str_find_char ?t CHR ''#'' 0)"
    using assms by (auto simp: local_tail_def Let_def split: if_splits)
  then show ?thesis
    using split [of s ?e] split [of ?t "str_find_char ?t CHR ''#'' 0"] by auto
qed

lemma parse_authority_rest:
  "parse_authority False sch s = Some (b, A, r) \<Longrightarrow> length r \<le> length s"
  by (auto simp: parse_authority_def split: if_splits)

lemma sub_erase_scheme:
  "length (str_erase_front s (Some (case str_find_char s CHR '':'' 0 of
       None \<Rightarrow> 0 | Some p \<Rightarrow> p + length kSchemeDelim))) < length s"
  if "str_find_char s CHR '':'' 0 \<noteq> None"
proof -
  from that obtain p where p: "str_find_char s CHR '':'' 0 = Some p" by auto
  then have "p < length s" by (simp add: str_find_char_0 find_index_less)
  then have "length s - Suc p < length s" by simp
  with p show ?thesis by (simp add: str_erase_front_def kSchemeDelim_def)
qed

lemma URI_Valid_colon: "URI_Valid s \<Longrightarrow> str_find_char s CHR '':'' 0 \<noteq> None"
proof
  assume v: "URI_Valid s" and "str_find_char s CHR '':'' 0 = None"
  then have "CHR '':'' \<notin> set s" by (auto simp: str_find_char_0 find_index_None_iff)
  then have "CHR '':'' \<notin> set (trimmed s)" using set_trimmed [of s] by blast
  then have "str_find_char (trimmed s) CHR '':'' 0 = None"
    by (auto simp: str_find_char_0 find_index_None_iff)
  with v show False by (simp add: URI_Valid_def Let_def)
qed

lemma empty_parts: "URIPath_Str ''/'' URIPath_empty = []" "URIQuery_Str ''&'' URIQuery_empty = []"
  by (simp_all add: URIPath_Str_def URIPath_empty_def URIQuery_Str_def URIQuery_empty_def)

lemma parse_parts_length:
  assumes "uri_path u = URIPath_empty" and "uri_query u = URIQuery_empty"
  shows "length (URIPath_Str ''/'' (uri_path (snd (parse_parts (p, q, f) u)))) +
         length (URIQuery_Str ''&'' (uri_query (snd (parse_parts (p, q, f) u)))) \<le> length p + length q"
  using length_URIPath_Str_Parse [of p] length_URIQuery_Str_Parse [of q] assms
  by (auto simp: parse_parts_def Let_def empty_parts intro: add_mono trans_le_add1
      split: prod.split)

lemma uri_of_parts:
  assumes v: "URI_Valid s"
  shows "uri_authority (uri_of s) = None \<and>
         length (URIPath_Str ''/'' (uri_path (uri_of s))) +
         length (URIQuery_Str ''&'' (uri_query (uri_of s))) < length s"
proof -
  let ?sch = "sub s 0 (str_find_char s CHR '':'' 0)"
  let ?str = "str_erase_front s (Some (case str_find_char s CHR '':'' 0 of
                                         None \<Rightarrow> 0 | Some p \<Rightarrow> p + length kSchemeDelim))"
  let ?w = "URI_SetScheme ?sch (URI_Clear URI_empty)"
  have "parse_authority False ?sch ?str \<noteq> None"
    by (simp add: parse_authority_def del: not_None_eq)
  then obtain b A r where par: "parse_authority False ?sch ?str = Some (b, A, r)" by auto
  obtain p q f where t: "local_tail r = (p, q, f)" by (cases "local_tail r")
  have parse: "URI_Parse s URI_empty = Some (parse_parts (p, q, f) ?w)"
    using v par t by (simp add: URI_Parse_def URI_SetScheme_def URI_Clear_def URI_empty_def)
  then have eq: "uri_of s = snd (parse_parts (p, q, f) ?w)"
    by (simp add: uri_of_def URI_new_def)
  have w: "uri_path ?w = URIPath_empty" "uri_query ?w = URIQuery_empty" "uri_authority ?w = None"
    by (simp_all add: URI_SetScheme_def URI_Clear_def URI_empty_def URIPath_Clear_def
        URIPath_empty_def URIQuery_Clear_def URIQuery_empty_def)
  have "length p + length q \<le> length r" by (rule length_local_tail [OF t])
  also have "\<dots> \<le> length ?str" by (rule parse_authority_rest [OF par])
  also have "\<dots> < length s" by (rule sub_erase_scheme [OF URI_Valid_colon [OF v]])
  finally show ?thesis
    using parse_parts_length [OF w(1,2), of p q f] w(3) by (simp add: eq parse_parts_kept)
qed

lemma uri_suffix_shorter:
  "URI_Valid s \<Longrightarrow> \<exists>t. uri_suffix (uri_of s) = Some t \<and> length t < length s"
  using uri_of_parts [of s] by (auto simp: uri_suffix_def Let_def)

subsection \<open>The two lookups\<close>

lemma length_copyFromUnixPath [simp]: "length (copyFromUnixPath s) = length s"
  by (simp add: copyFromUnixPath_def changeFromUnixPath_def)

function FindFile ::
    "(string \<Rightarrow> bool) \<Rightarrow> string \<Rightarrow> SystemPaths \<Rightarrow> string \<Rightarrow> bool \<Rightarrow> string option"
  and FindFileURI ::
    "(string \<Rightarrow> bool) \<Rightarrow> string \<Rightarrow> SystemPaths \<Rightarrow> URI \<Rightarrow> string option" where
  "FindFile ex dir sp filename searchLocalPath =
     (if filename = [] then Some []
      else if URI_Valid filename then
        map_option (find_file_rest ex sp filename) (FindFileURI ex dir sp (uri_of filename))
      else if filename ! 0 = CHR ''/'' then Some (find_file_rest ex sp filename filename)
      else Some (find_file_rest ex sp filename (find_local ex dir sp filename searchLocalPath)))"
| "FindFileURI ex dir sp uri =
     (case uri_suffix uri of
        None \<Rightarrow> None
      | Some sfx \<Rightarrow>
          map_option (find_uri_rest ex sp uri sfx) (FindFile ex dir sp (copyFromUnixPath sfx) True))"
  by pat_completeness auto

termination
  by (relation "measure (\<lambda>x. case x of
        Inl (ex, dir, sp, filename, l) \<Rightarrow> 2 * length filename
      | Inr (ex, dir, sp, uri) \<Rightarrow>
          (case uri_suffix uri of None \<Rightarrow> 0 | Some sfx \<Rightarrow> Suc (2 * length sfx)))")
     (auto dest: uri_suffix_shorter)

declare FindFile.simps [simp del] FindFileURI.simps [simp del]

definition FindFileURI_string ::
    "(string \<Rightarrow> bool) \<Rightarrow> string \<Rightarrow> SystemPaths \<Rightarrow> string \<Rightarrow> string option" where
  "FindFileURI_string ex dir sp uri =
     (if \<not> URI_Valid uri then FindFile ex dir sp uri True else FindFileURI ex dir sp (uri_of uri))"

text \<open>The functions of \<^verbatim>\<open>src/src/Util.cc\<close> over the global object. \<open>findFilePath\<close> gives the
  directory of a file that was found; the empty result of a failed search stays empty.\<close>

definition findFile ::
    "(string \<Rightarrow> bool) \<Rightarrow> string \<Rightarrow> SystemPaths \<Rightarrow> string \<Rightarrow> bool \<Rightarrow> string option" where
  "findFile ex dir sp f searchLocalPath = FindFile ex dir sp f searchLocalPath"

definition findFilePath ::
    "(string \<Rightarrow> bool) \<Rightarrow> (string \<Rightarrow> bool) \<Rightarrow> string \<Rightarrow> SystemPaths \<Rightarrow> string \<Rightarrow> string option" where
  "findFilePath ex isdir dir sp f =
     map_option (\<lambda>p. if isdir p then p else sub p 0 (find_last_of p ''/''))
       (findFile ex dir sp f True)"

subsection \<open>Lookups return, and only existing paths\<close>

lemma checked_exists: "checked ex p = [] \<or> ex (checked ex p)"
  by (simp add: checked_def)

lemma FindFile_returns: "\<exists>r. FindFile ex dir sp f l = Some r \<and> (r = [] \<or> ex r)"
proof (induction "length f" arbitrary: f l rule: less_induct)
  case less
  have rest: "find_file_rest ex sp f p = [] \<or> ex (find_file_rest ex sp f p)" for p
    by (simp add: find_file_rest_def Let_def checked_exists)
  show ?case
  proof (cases "URI_Valid f")
    case False
    with rest show ?thesis by (simp add: FindFile.simps)
  next
    case True
    from uri_suffix_shorter [OF True] obtain t where
      t: "uri_suffix (uri_of f) = Some t" "length t < length f" by blast
    then obtain r where "FindFile ex dir sp (copyFromUnixPath t) True = Some r"
      using less [of "copyFromUnixPath t" True] by auto
    with t True rest show ?thesis by (simp add: FindFile.simps [of _ _ _ f] FindFileURI.simps)
  qed
qed

lemma uri_suffix_None_iff:
  "uri_suffix uri = None \<longleftrightarrow> (\<exists>a. uri_authority uri = Some a \<and> URIAuthority_Str a = [])"
  by (auto simp: uri_suffix_def Let_def str_substr_def URIAuthority_Str_def split: option.splits)

subsection \<open>The path lists\<close>

definition dir_form :: "string \<Rightarrow> bool" where
  "dir_form p \<longleftrightarrow> suffix ''/'' p \<and> CHR 0x5C \<notin> set p"

definition paths_ok :: "SystemPaths \<Rightarrow> bool" where
  "paths_ok sp \<longleftrightarrow>
     distinct (filePaths sp) \<and> distinct (pluginPaths sp) \<and>
     (\<forall>p \<in> set (filePaths sp) \<union> set (pluginPaths sp). dir_form p)"

lemma dir_form_Normalize: "dir_form (NormalizeDirectoryPath p)"
  by (auto simp: dir_form_def NormalizeDirectoryPath_def EndsWith_suffix Let_def)

lemma Normalize_dir_form: "dir_form p \<Longrightarrow> NormalizeDirectoryPath p = p"
proof -
  assume p: "dir_form p"
  then have "map (\<lambda>c. if c = CHR 0x5C then CHR ''/'' else c) p = p"
    by (intro map_idI) (auto simp: dir_form_def)
  with p show ?thesis by (simp add: NormalizeDirectoryPath_def EndsWith_suffix dir_form_def)
qed

lemma add_paths_ok:
  assumes "distinct ps" and "\<forall>p \<in> set ps. dir_form p"
  shows "distinct (add_paths txt ps) \<and> (\<forall>p \<in> set (add_paths txt ps). dir_form p)"
proof -
  have "distinct (foldl (\<lambda>acc p. insertUnique (NormalizeDirectoryPath p) acc) ps qs) \<and>
      (\<forall>p \<in> set (foldl (\<lambda>acc p. insertUnique (NormalizeDirectoryPath p) acc) ps qs). dir_form p)"
    for qs
    using assms
  proof (induction qs arbitrary: ps)
    case (Cons q qs)
    let ?ps = "insertUnique (NormalizeDirectoryPath q) ps"
    have "distinct ?ps" "\<forall>p \<in> set ?ps. dir_form p"
      using Cons.prems dir_form_Normalize [of q] by (auto simp: insertUnique_def)
    from Cons.IH [OF this] show ?case by simp
  qed simp
  then show ?thesis by (simp add: add_paths_def)
qed

inductive sp_step :: "environ \<Rightarrow> SystemPaths \<Rightarrow> SystemPaths \<Rightarrow> bool" for E where
  "sp_step E sp (AddFilePaths txt sp)"
| "sp_step E sp (AddPluginPaths txt sp)"
| "sp_step E sp (ClearFilePaths sp)"
| "sp_step E sp (ClearPluginPaths sp)"
| "sp_step E sp (SetPluginPathEnv e sp)"
| "sp_step E sp (SetFilePathEnv E' e sp)"
| "sp_step E sp (snd (PluginPaths E' sp))"
| "sp_step E sp (snd (FindSharedLibrary ex E' n sp))"
| "AddSearchPathSuffix s sp = Some sp' \<Longrightarrow> sp_step E sp sp'"
| "sp_step E sp (AddFindFileCallback cb sp)"
| "sp_step E sp (ClearFindFileCallbacks sp)"
| "sp_step E sp (AddFindFileURICallback ucb sp)"
| "sp_step E sp (ClearFindFileURICallbacks sp)"

inductive sp_reach :: "environ \<Rightarrow> SystemPaths \<Rightarrow> bool" for E where
  sp_new: "sp_reach E (fst (SystemPaths_new ex E))"
| sp_next: "sp_reach E sp \<Longrightarrow> sp_step E sp sp' \<Longrightarrow> sp_reach E sp'"

lemma ok_AddFilePaths [wf_intro]: "paths_ok sp \<Longrightarrow> paths_ok (AddFilePaths txt sp)"
  using add_paths_ok [of "filePaths sp" "txt"] by (auto simp: paths_ok_def AddFilePaths_def)

lemma ok_AddPluginPaths [wf_intro]: "paths_ok sp \<Longrightarrow> paths_ok (AddPluginPaths txt sp)"
  using add_paths_ok [of "pluginPaths sp" "txt"] by (auto simp: paths_ok_def AddPluginPaths_def)

lemma ok_env [wf_intro]: "paths_ok sp \<Longrightarrow> paths_ok (sp \<lparr> filePathEnv := e \<rparr>)"
  by (simp add: paths_ok_def)

lemma ok_ClearFilePaths [wf_intro]: "paths_ok sp \<Longrightarrow> paths_ok (ClearFilePaths sp)"
  by (simp add: paths_ok_def ClearFilePaths_def)

lemma ok_SetFilePathEnv [wf_intro]: "paths_ok sp \<Longrightarrow> paths_ok (SetFilePathEnv E e sp)"
  by (auto simp: SetFilePathEnv_def Let_def intro!: wf_intro split: option.split)

lemma ok_PluginPaths [wf_intro]: "paths_ok sp \<Longrightarrow> paths_ok (snd (PluginPaths E sp))"
  by (auto simp: PluginPaths_def Let_def intro!: wf_intro split: option.split)

lemma ok_FindSharedLibrary [wf_intro]: "paths_ok sp \<Longrightarrow> paths_ok (snd (FindSharedLibrary ex E n sp))"
  by (auto simp: FindSharedLibrary_def Let_def intro!: wf_intro)

lemma ok_step: "sp_step E sp sp' \<Longrightarrow> paths_ok sp \<Longrightarrow> paths_ok sp'"
  by (induction rule: sp_step.induct)
     (auto intro!: wf_intro simp: AddSearchPathSuffix_def Let_def split: if_splits,
      auto simp: paths_ok_def ClearPluginPaths_def SetPluginPathEnv_def AddFindFileCallback_def
        ClearFindFileCallbacks_def AddFindFileURICallback_def ClearFindFileURICallbacks_def)

lemma reach_paths_ok: "sp_reach E sp \<Longrightarrow> paths_ok sp"
proof (induction rule: sp_reach.induct)
  case (sp_new ex)
  show ?case
    unfolding SystemPaths_new_def Let_def fst_conv
    by (rule ok_SetFilePathEnv) (simp add: paths_ok_def)
qed (rule ok_step)

subsection \<open>Order of the search\<close>

lemma first_existing_first:
  "\<forall>q \<in> set before. \<not> ex q \<Longrightarrow> ex p \<Longrightarrow> first_existing ex (before @ p # after) = p"
  by (induction before) auto

lemma first_existing_exists: "first_existing ex ps = [] \<or> ex (first_existing ex ps)"
  by (induction ps) auto

lemma copyFromUnixPath_id: "copyFromUnixPath s = s"
  by (simp add: copyFromUnixPath_def changeFromUnixPath_def preferred_separator_def map_idI)

lemma FindFile_first:
  assumes "f \<noteq> []" and "\<not> URI_Valid f" and "f ! 0 \<noteq> CHR ''/''" and "findFileCbs sp = []"
    and "\<not> ex (joinPaths dir f)" and "\<not> ex f"
    and "filePaths sp = before @ p # after"
    and "\<forall>q \<in> set before. \<not> ex (NormalizeDirectoryPath q @ f)"
    and "ex (NormalizeDirectoryPath p @ f)"
  shows "FindFile ex dir sp f l = Some (NormalizeDirectoryPath p @ f)"
proof -
  have "find_local ex dir sp f l = []"
    using assms(4-6) by (simp add: find_local_def Let_def)
  moreover have "first_existing ex (map (\<lambda>p. NormalizeDirectoryPath p @ f) (filePaths sp)) =
      NormalizeDirectoryPath p @ f"
    using assms(7-9) by (auto intro!: first_existing_first)
  ultimately show ?thesis
    using assms(1-3,9)
    by (simp add: FindFile.simps find_file_rest_def in_file_paths_def copyFromUnixPath_id
        checked_def Let_def)
qed

subsection \<open>Properties\<close>

text \<open>
  \<open>FindFile\<close> always returns, although it and \<open>FindFileURI\<close> call each other: never with
  an exception, and with the empty string or the path of something that exists.
\<close>

theorem FindFile_sound: "\<exists>r. FindFile ex dir sp f l = Some r \<and> (r = [] \<or> ex r)"
  by (rule FindFile_returns)

text \<open>
  \<open>FindFileURI\<close> of a URI object throws \<open>std::out_of_range\<close> exactly when the URI has an
  authority that prints as the empty text: its two slashes are cut off without a check.
\<close>

theorem FindFileURI_throws_iff:
  "FindFileURI ex dir sp uri = None \<longleftrightarrow>
     (\<exists>a. uri_authority uri = Some a \<and> URIAuthority_Str a = [])"
proof -
  have "FindFileURI ex dir sp uri = None \<longleftrightarrow> uri_suffix uri = None"
    using FindFile_returns [of ex dir sp _ True]
    by (auto simp: FindFileURI.simps split: option.split)
  then show ?thesis by (simp add: uri_suffix_None_iff)
qed

text \<open>
  Whatever was done to a \<open>SystemPaths\<close> object, its file and plugin paths are without
  duplicates, and each is in the one normal form of a directory: no backslash, a slash at
  the end, so that normalising it again changes nothing.
\<close>

theorem SystemPaths_lists_normal:
  assumes "sp_reach E sp"
  shows "distinct (filePaths sp) \<and> distinct (pluginPaths sp) \<and>
    (\<forall>p \<in> set (filePaths sp) \<union> set (pluginPaths sp).
       NormalizeDirectoryPath p = p \<and> suffix ''/'' p \<and> CHR 0x5C \<notin> set p)"
proof -
  from reach_paths_ok [OF assms] have "distinct (filePaths sp)" "distinct (pluginPaths sp)"
      "\<forall>p \<in> set (filePaths sp) \<union> set (pluginPaths sp). dir_form p"
    by (auto simp: paths_ok_def)
  then show ?thesis using Normalize_dir_form by (auto simp: dir_form_def)
qed

text \<open>
  The search paths are tried in order: a relative name that is neither a URI nor found
  locally is resolved against the first search path under which it exists.
\<close>

theorem FindFile_first_path:
  assumes "f \<noteq> []" and "\<not> URI_Valid f" and "f ! 0 \<noteq> CHR ''/''" and "findFileCbs sp = []"
    and "\<not> ex (joinPaths dir f)" and "\<not> ex f"
    and "filePaths sp = before @ p # after"
    and "\<forall>q \<in> set before. \<not> ex (NormalizeDirectoryPath q @ f)"
    and "ex (NormalizeDirectoryPath p @ f)"
  shows "FindFile ex dir sp f l = Some (NormalizeDirectoryPath p @ f)"
  using assms by (rule FindFile_first)

end
