(* ===== verification/Worker_Pool.thy ===== *)
theory Worker_Pool
  imports Cpp_Prelude "HOL-Library.Multiset"
begin

section \<open>WorkerPool: threads, the work queue and the two condition variables\<close>

text \<open>
  Class \<open>WorkerPool\<close> of \<^verbatim>\<open>src/src/WorkerPool.cc\<close> as a state machine. Every section of code the
  mutex protects is one step, and so is every call of a work function or callback, which runs
  outside the mutex; the steps of all threads interleave freely. A step is a function on the
  state that is \<^const>\<open>None\<close> when the step is not possible.

  The fields \<open>added\<close>, \<open>started\<close>, \<open>completed\<close> and \<open>calls\<close> are history: they record what was
  queued, taken, finished and called, and no step reads them. The waits of workers and
  callers may return without a notification (\<open>WakeWorker\<close>, \<open>SpuriousWake\<close>). A work function is a name of type
  \<^typ>\<open>'a\<close>, and is assumed to return.
\<close>

record 'a WorkOrder =
  work :: "'a option"
  callback :: "'a option"

text \<open>Where a worker thread is: at the head of its loop, blocked in \<open>signalNewWork.wait\<close>,
  holding an order before and after \<open>work ()\<close> and after \<open>callback ()\<close>, or out of the loop.\<close>

datatype 'a phase =
  AtHead | Blocked | Taken "'a WorkOrder" | Worked "'a WorkOrder" | Called "'a WorkOrder" | Exited

text \<open>A caller of \<open>WaitForResults\<close>: blocked without timeout (has \<open>signalWorkDone\<close> been signalled
  since?), blocked with a timeout, or back with a result.\<close>

datatype waiter = Wait_forever bool | Wait_timed | Returned bool

record 'a pool =
  workers :: "'a phase list"
  workOrders :: "'a WorkOrder list"
  activeOrders :: int
  pdone :: bool
  shutdown_signalled :: bool
  waiters :: "waiter list"
  added :: "'a WorkOrder list"
  started :: "'a WorkOrder list"
  completed :: "'a WorkOrder list"
  calls :: "(nat \<times> 'a) list"

definition WorkerPool_new :: "nat \<Rightarrow> nat \<Rightarrow> 'a pool" where
  "WorkerPool_new hardware_concurrency minThreadCount =
     \<lparr> workers = replicate (max hardware_concurrency (max minThreadCount 1)) AtHead,
       workOrders = [], activeOrders = 0, pdone = False, shutdown_signalled = False,
       waiters = [], added = [], started = [], completed = [], calls = [] \<rparr>"

datatype 'a event =
  AddWork "'a option" "'a option" "nat option"
| Block nat | Take nat | RunWork nat | RunCallback nat | Finish nat | Quit nat
| SetDone | NotifyShutdown | Joined
| CallWait bool | Wake nat | SpuriousWake nat | TimedReturn nat | WakeWorker nat

definition worker_is :: "'a pool \<Rightarrow> nat \<Rightarrow> ('a phase \<Rightarrow> bool) \<Rightarrow> bool" where
  "worker_is p i P \<longleftrightarrow> i < length (workers p) \<and> P (workers p ! i)"

definition set_worker :: "nat \<Rightarrow> 'a phase \<Rightarrow> 'a pool \<Rightarrow> 'a pool" where
  "set_worker i ph p = p \<lparr> workers := (workers p)[i := ph] \<rparr>"

definition signal :: "waiter \<Rightarrow> waiter" where
  "signal w = (case w of Wait_forever _ \<Rightarrow> Wait_forever True | _ \<Rightarrow> w)"

definition haveResults :: "'a pool \<Rightarrow> bool" where
  "haveResults p \<longleftrightarrow> pdone p \<or> (workOrders p = [] \<and> activeOrders p = 0)"

text \<open>\<open>AddWork\<close>: \<open>notify_one\<close> wakes one blocked worker, which one is up to the system (the
  last argument); it wakes none only if none is blocked.\<close>

definition do_AddWork :: "'a option \<Rightarrow> 'a option \<Rightarrow> nat option \<Rightarrow> 'a pool \<Rightarrow> 'a pool option" where
  "do_AddWork w cb wake p =
     (let order = \<lparr> work = w, callback = cb \<rparr>;
          p1 = p \<lparr> workOrders := workOrders p @ [order], added := added p @ [order] \<rparr>
      in case wake of
           None \<Rightarrow> if list_all (\<lambda>ph. ph \<noteq> Blocked) (workers p) then Some p1 else None
         | Some i \<Rightarrow> if worker_is p i (\<lambda>ph. ph = Blocked) then Some (set_worker i AtHead p1) else None)"

text \<open>The first protected section of \<open>Worker\<close>: leave the loop when done, else block on an
  empty queue, else take the front order.\<close>

definition do_head :: "nat \<Rightarrow> 'a pool \<Rightarrow> 'a pool" where
  "do_head i p =
     (if \<not> pdone p \<and> workOrders p = [] then set_worker i Blocked p
      else if pdone p then set_worker i Exited p
      else set_worker i (Taken (hd (workOrders p)))
             (p \<lparr> activeOrders := activeOrders p + 1, workOrders := tl (workOrders p),
                 started := started p @ [hd (workOrders p)] \<rparr>))"

definition call :: "nat \<Rightarrow> 'a option \<Rightarrow> 'a pool \<Rightarrow> 'a pool" where
  "call i f p = (case f of None \<Rightarrow> p | Some a \<Rightarrow> p \<lparr> calls := calls p @ [(i, a)] \<rparr>)"

text \<open>The second protected section of \<open>Worker\<close>.\<close>

definition do_finish :: "nat \<Rightarrow> 'a WorkOrder \<Rightarrow> 'a pool \<Rightarrow> 'a pool" where
  "do_finish i order p =
     (let p1 = p \<lparr> activeOrders := activeOrders p - 1, completed := completed p @ [order] \<rparr>;
          p2 = (if workOrders p1 = [] \<and> activeOrders p1 \<le> 0
                then p1 \<lparr> waiters := map signal (waiters p1) \<rparr> else p1)
      in set_worker i AtHead p2)"

text \<open>\<open>WaitForResults\<close> up to the point where it blocks; \<open>zero\<close> says the timeout is zero.\<close>

definition do_CallWait :: "bool \<Rightarrow> 'a pool \<Rightarrow> 'a pool" where
  "do_CallWait zero p =
     p \<lparr> waiters := waiters p @
          [if haveResults p then Returned (\<not> pdone p)
           else if zero then Wait_forever False else Wait_timed] \<rparr>"

definition set_waiter :: "nat \<Rightarrow> waiter \<Rightarrow> 'a pool \<Rightarrow> 'a pool" where
  "set_waiter i w p = p \<lparr> waiters := (waiters p)[i := w] \<rparr>"

fun step :: "'a event \<Rightarrow> 'a pool \<Rightarrow> 'a pool option" where
  "step (AddWork w cb wake) p = do_AddWork w cb wake p"
| "step (Block i) p =
     (if worker_is p i (\<lambda>ph. ph = AtHead) \<and> \<not> pdone p \<and> workOrders p = []
      then Some (do_head i p) else None)"
| "step (Take i) p =
     (if worker_is p i (\<lambda>ph. ph = AtHead) \<and> \<not> pdone p \<and> workOrders p \<noteq> []
      then Some (do_head i p) else None)"
| "step (Quit i) p =
     (if worker_is p i (\<lambda>ph. ph = AtHead) \<and> pdone p then Some (do_head i p) else None)"
| "step (RunWork i) p =
     (if i < length (workers p)
      then (case workers p ! i of
              Taken order \<Rightarrow> Some (set_worker i (Worked order) (call i (work order) p))
            | _ \<Rightarrow> None)
      else None)"
| "step (RunCallback i) p =
     (if i < length (workers p)
      then (case workers p ! i of
              Worked order \<Rightarrow> Some (set_worker i (Called order) (call i (callback order) p))
            | _ \<Rightarrow> None)
      else None)"
| "step (Finish i) p =
     (if i < length (workers p)
      then (case workers p ! i of Called order \<Rightarrow> Some (do_finish i order p) | _ \<Rightarrow> None)
      else None)"
| "step SetDone p = Some (p \<lparr> pdone := True \<rparr>)"
| "step NotifyShutdown p =
     (if pdone p
      then Some (p \<lparr> workers := map (\<lambda>ph. if ph = Blocked then AtHead else ph) (workers p),
                    shutdown_signalled := True \<rparr>)
      else None)"
| "step Joined p =
     (if shutdown_signalled p \<and> list_all (\<lambda>ph. ph = Exited) (workers p)
      then Some (p \<lparr> waiters := map signal (waiters p) \<rparr>) else None)"
| "step (CallWait zero) p = Some (do_CallWait zero p)"
| "step (Wake i) p =
     (if i < length (waiters p) \<and> waiters p ! i = Wait_forever True
      then Some (set_waiter i (Returned (\<not> pdone p)) p) else None)"
| "step (SpuriousWake i) p =
     (if i < length (waiters p) \<and> waiters p ! i = Wait_forever False
      then Some (set_waiter i (Returned (\<not> pdone p)) p) else None)"
| "step (TimedReturn i) p =
     (if i < length (waiters p) \<and> waiters p ! i = Wait_timed
      then (let signaled = haveResults p
            in Some (set_waiter i (Returned (signaled \<and> \<not> pdone p)) p))
      else None)"
| "step (WakeWorker i) p =
     (if worker_is p i (\<lambda>ph. ph = Blocked) then Some (set_worker i AtHead p) else None)"

inductive pool_reach :: "nat \<Rightarrow> nat \<Rightarrow> 'a pool \<Rightarrow> bool" for hc mn where
  pool_new: "pool_reach hc mn (WorkerPool_new hc mn)"
| pool_next: "pool_reach hc mn p \<Longrightarrow> step e p = Some q \<Longrightarrow> pool_reach hc mn q"

fun run :: "'a event list \<Rightarrow> 'a pool \<Rightarrow> 'a pool option" where
  "run [] p = Some p"
| "run (e # es) p = (case step e p of None \<Rightarrow> None | Some q \<Rightarrow> run es q)"

subsection \<open>Orders in progress\<close>

fun held :: "'a phase \<Rightarrow> 'a WorkOrder list" where
  "held (Taken order) = [order]"
| "held (Worked order) = [order]"
| "held (Called order) = [order]"
| "held _ = []"

definition in_progress :: "'a phase list \<Rightarrow> 'a WorkOrder multiset" where
  "in_progress ws = mset (concat (map held ws))"

lemma in_progress_update:
  "i < length ws \<Longrightarrow> in_progress (ws[i := ph]) + mset (held (ws ! i)) = in_progress ws + mset (held ph)"
proof (induction ws arbitrary: i)
  case (Cons w ws)
  then show ?case by (cases i) (auto simp: in_progress_def ac_simps)
qed simp

definition pool_inv :: "'a pool \<Rightarrow> bool" where
  "pool_inv p \<longleftrightarrow>
     started p @ workOrders p = added p \<and>
     mset (completed p) + in_progress (workers p) = mset (started p) \<and>
     activeOrders p = int (size (in_progress (workers p))) \<and>
     workers p \<noteq> [] \<and>
     (\<not> pdone p \<longrightarrow> workOrders p = [] \<or> (\<exists>w \<in> set (workers p). w \<noteq> Blocked)) \<and>
     (\<not> pdone p \<longrightarrow> Exited \<notin> set (workers p)) \<and>
     (shutdown_signalled p \<longrightarrow> pdone p \<and> Blocked \<notin> set (workers p))"

lemma pool_inv_new: "pool_inv (WorkerPool_new hc mn)"
proof -
  have "concat (map held (replicate n AtHead)) = []" for n by (induction n) auto
  then show ?thesis
    by (auto simp: pool_inv_def WorkerPool_new_def in_progress_def max_def)
qed

lemma pool_inv_fields:
  assumes "pool_inv p"
  shows "pool_inv (p \<lparr> waiters := ws \<rparr>)" and "pool_inv (p \<lparr> calls := cs \<rparr>)"
  using assms by (simp_all add: pool_inv_def)

lemma in_progress_same:
  "i < length ws \<Longrightarrow> held (ws ! i) = held ph \<Longrightarrow> in_progress (ws[i := ph]) = in_progress ws"
  using in_progress_update [of i ws ph] by simp

lemma set_update_mem: "i < length ws \<Longrightarrow> ph \<in> set (ws[i := ph])"
  by (simp add: set_update_memI)

lemma pool_inv_set_same:
  assumes inv: "pool_inv p" and i: "i < length (workers p)" and h: "held (workers p ! i) = held ph"
    and ph: "ph \<noteq> Blocked" "ph \<noteq> Exited"
  shows "pool_inv (set_worker i ph p)"
proof -
  have "set ((workers p)[i := ph]) \<subseteq> insert ph (set (workers p))" by (rule set_update_subset_insert)
  then show ?thesis
    using inv ph set_update_mem [OF i, of ph]
    by (auto simp: pool_inv_def set_worker_def in_progress_same [OF i h])
qed

lemma inv_AddWork [wf_intro]:
  assumes "pool_inv p" and "do_AddWork w cb wake p = Some q"
  shows "pool_inv q"
proof -
  let ?o = "\<lparr> work = w, callback = cb \<rparr>"
  let ?p1 = "p \<lparr> workOrders := workOrders p @ [?o], added := added p @ [?o] \<rparr>"
  show ?thesis
  proof (cases wake)
    case None
    with assms(2) have q: "q = ?p1" and nb: "\<forall>ph \<in> set (workers p). ph \<noteq> Blocked"
      by (auto simp: do_AddWork_def list_all_iff Let_def split: if_splits)
    have "\<exists>w \<in> set (workers p). w \<noteq> Blocked"
      using assms(1) nb by (cases "workers p") (auto simp: pool_inv_def)
    then show ?thesis using assms(1) by (auto simp: pool_inv_def q)
  next
    case (Some i)
    with assms(2) have q: "q = set_worker i AtHead ?p1" and i: "i < length (workers p)"
        "workers p ! i = Blocked"
      by (auto simp: do_AddWork_def worker_is_def Let_def split: if_splits)
    have "set ((workers p)[i := AtHead]) \<subseteq> insert AtHead (set (workers p))"
      by (rule set_update_subset_insert)
    moreover have "in_progress ((workers p)[i := AtHead]) = in_progress (workers p)"
      by (rule in_progress_same [OF i(1)]) (simp add: i)
    ultimately show ?thesis
      using assms(1) set_update_mem [OF i(1), of AtHead]
      by (auto simp: pool_inv_def q set_worker_def)
  qed
qed

lemma inv_head [wf_intro]:
  assumes inv: "pool_inv p" and w: "worker_is p i (\<lambda>ph. ph = AtHead)"
  shows "pool_inv (do_head i p)"
proof -
  from w have i: "i < length (workers p)" "workers p ! i = AtHead" by (auto simp: worker_is_def)
  have sub: "set ((workers p)[i := ph]) \<subseteq> insert ph (set (workers p))" for ph
    by (rule set_update_subset_insert)
  consider (block) "\<not> pdone p" "workOrders p = []" | (quit) "pdone p"
    | (take) "\<not> pdone p" "workOrders p \<noteq> []" by blast
  then show ?thesis
  proof cases
    case block
    have "in_progress ((workers p)[i := Blocked]) = in_progress (workers p)"
      by (rule in_progress_same [OF i(1)]) (simp add: i)
    with block inv sub [of Blocked] show ?thesis
      by (auto simp: pool_inv_def do_head_def set_worker_def)
  next
    case quit
    have "in_progress ((workers p)[i := Exited]) = in_progress (workers p)"
      by (rule in_progress_same [OF i(1)]) (simp add: i)
    with quit inv sub [of Exited] show ?thesis
      by (auto simp: pool_inv_def do_head_def set_worker_def)
  next
    case take
    then obtain order rest where wo: "workOrders p = order # rest" by (cases "workOrders p") auto
    have "in_progress ((workers p)[i := Taken order]) = in_progress (workers p) + {#order#}"
      using in_progress_update [OF i(1), of "Taken order"] by (simp add: i)
    with take wo inv sub [of "Taken order"] set_update_mem [OF i(1), of "Taken order"] show ?thesis
      by (auto simp: pool_inv_def do_head_def set_worker_def)
  qed
qed

lemma inv_call [wf_intro]: "pool_inv p \<Longrightarrow> pool_inv (call i f p)"
  by (auto simp: call_def pool_inv_fields split: option.split)

lemma workers_call [simp]: "workers (call i f p) = workers p"
  by (simp add: call_def split: option.split)

lemma inv_finish [wf_intro]:
  assumes inv: "pool_inv p" and i: "i < length (workers p)" "workers p ! i = Called order"
  shows "pool_inv (do_finish i order p)"
proof -
  let ?ws = "(workers p)[i := AtHead]"
  have ip: "in_progress ?ws + {#order#} = in_progress (workers p)"
    using in_progress_update [OF i(1), of AtHead] by (simp add: i)
  then have sz: "size (in_progress (workers p)) = size (in_progress ?ws) + 1"
    by (metis size_add_mset size_eq_0_iff_empty size_single size_union)
  have sub: "set ?ws \<subseteq> insert AtHead (set (workers p))" by (rule set_update_subset_insert)
  let ?q = "p \<lparr> activeOrders := activeOrders p - 1, completed := completed p @ [order],
      workers := ?ws \<rparr>"
  have "mset (completed p @ [order]) + in_progress ?ws = mset (completed p) + in_progress (workers p)"
    unfolding ip [symmetric] by simp
  with inv have "mset (completed p @ [order]) + in_progress ?ws = mset (started p)"
    by (simp only: pool_inv_def)
  moreover have "activeOrders p - 1 = int (size (in_progress ?ws))"
    using inv sz by (simp add: pool_inv_def)
  moreover have "AtHead \<in> set ?ws" by (rule set_update_mem [OF i(1)])
  ultimately have "pool_inv ?q"
    using inv sub unfolding pool_inv_def by (simp add: subset_iff) blast
  then have "pool_inv (p \<lparr> activeOrders := activeOrders p - 1, completed := completed p @ [order],
      waiters := map signal (waiters p), workers := ?ws \<rparr>)"
    by (simp add: pool_inv_def)
  with \<open>pool_inv ?q\<close> show ?thesis by (simp add: do_finish_def set_worker_def Let_def)
qed

lemma inv_notify [wf_intro]:
  assumes "pool_inv p" and "pdone p"
  shows "pool_inv (p \<lparr> workers := map (\<lambda>ph. if ph = Blocked then AtHead else ph) (workers p),
                    shutdown_signalled := True \<rparr>)"
proof -
  have "held (if ph = Blocked then AtHead else ph) = held ph" for ph :: "'a phase" by simp
  then have "in_progress (map (\<lambda>ph. if ph = Blocked then AtHead else ph) (workers p)) =
      in_progress (workers p)"
    by (simp add: in_progress_def comp_def)
  with assms show ?thesis by (auto simp: pool_inv_def)
qed

lemma inv_step: "pool_inv p \<Longrightarrow> step e p = Some q \<Longrightarrow> pool_inv q"
proof (induction e p rule: step.induct)
  case (5 i p)
  then show ?case
    by (auto split: if_splits phase.splits intro!: pool_inv_set_same inv_call)
next
  case (6 i p)
  then show ?case
    by (auto split: if_splits phase.splits intro!: pool_inv_set_same inv_call)
next
  case (8 p)
  then show ?case by (auto simp: pool_inv_def)
next
  case (15 i p)
  then show ?case by (auto simp: worker_is_def split: if_splits intro!: pool_inv_set_same)
qed (auto simp: do_CallWait_def set_waiter_def Let_def split: if_splits phase.splits
       intro: wf_intro pool_inv_fields)

lemma reach_inv: "pool_reach hc mn p \<Longrightarrow> pool_inv p"
  by (induction rule: pool_reach.induct) (auto intro: pool_inv_new inv_step)

subsection \<open>Progress\<close>

fun worker_event :: "'a event \<Rightarrow> bool" where
  "worker_event (Take i) = True"
| "worker_event (Quit i) = True"
| "worker_event (RunWork i) = True"
| "worker_event (RunCallback i) = True"
| "worker_event (Finish i) = True"
| "worker_event _ = False"

lemma busy_worker_steps:
  assumes "i < length (workers p)" and "workers p ! i \<noteq> Blocked" and "workers p ! i \<noteq> Exited"
    and "pdone p \<or> workOrders p \<noteq> []"
  shows "\<exists>e q. worker_event e \<and> step e p = Some q"
proof (cases "workers p ! i")
  case AtHead
  then have head: "worker_is p i (\<lambda>ph. ph = AtHead)" using assms(1) by (simp add: worker_is_def)
  show ?thesis
  proof (cases "pdone p")
    case True
    with head have "step (Quit i) p = Some (do_head i p)" by simp
    then show ?thesis using worker_event.simps(2) by blast
  next
    case False
    with head assms(4) have "step (Take i) p = Some (do_head i p)" by simp
    then show ?thesis using worker_event.simps(1) by blast
  qed
next
  case (Taken order)
  with assms(1) have "\<exists>q. step (RunWork i) p = Some q" by simp
  then show ?thesis using worker_event.simps(3) by blast
next
  case (Worked order)
  with assms(1) have "\<exists>q. step (RunCallback i) p = Some q" by simp
  then show ?thesis using worker_event.simps(4) by blast
next
  case (Called order)
  with assms(1) have "\<exists>q. step (Finish i) p = Some q" by simp
  then show ?thesis using worker_event.simps(5) by blast
qed (use assms in auto)

fun steps_left :: "'a phase \<Rightarrow> nat" where
  "steps_left (Taken _) = 4"
| "steps_left (Worked _) = 3"
| "steps_left (Called _) = 2"
| "steps_left AtHead = 1"
| "steps_left Blocked = 2"
| "steps_left Exited = 0"

definition shutdown_measure :: "'a pool \<Rightarrow> nat" where
  "shutdown_measure p = sum_list (map steps_left (workers p))"

lemma sum_list_update_less:
  "i < length ws \<Longrightarrow> f ph < f (ws ! i) \<Longrightarrow>
     sum_list (map f (ws[i := ph])) < (sum_list (map f ws) :: nat)"
proof (induction ws arbitrary: i)
  case (Cons w ws)
  then show ?case by (cases i) auto
qed simp

lemma shutdown_measure_set:
  "i < length (workers p) \<Longrightarrow> steps_left ph < steps_left (workers p ! i) \<Longrightarrow>
     workers q = (workers p)[i := ph] \<Longrightarrow> shutdown_measure q < shutdown_measure p"
  by (simp add: shutdown_measure_def sum_list_update_less)

lemma shutdown_step_decreases:
  assumes "pdone p" and "worker_event e" and "step e p = Some q"
  shows "shutdown_measure q < shutdown_measure p"
proof (cases e)
  case (Quit i)
  with assms show ?thesis
    by (intro shutdown_measure_set [of i p Exited])
       (auto simp: worker_is_def do_head_def set_worker_def split: if_splits)
next
  case (RunWork i)
  with assms obtain order where "workers p ! i = Taken order" "i < length (workers p)"
      "q = set_worker i (Worked order) (call i (work order) p)"
    by (auto split: if_splits phase.splits)
  then show ?thesis by (intro shutdown_measure_set) (auto simp: set_worker_def)
next
  case (RunCallback i)
  with assms obtain order where "workers p ! i = Worked order" "i < length (workers p)"
      "q = set_worker i (Called order) (call i (callback order) p)"
    by (auto split: if_splits phase.splits)
  then show ?thesis by (intro shutdown_measure_set) (auto simp: set_worker_def)
next
  case (Finish i)
  with assms obtain order where "workers p ! i = Called order" "i < length (workers p)"
      "q = do_finish i order p"
    by (auto split: if_splits phase.splits)
  then show ?thesis
    by (intro shutdown_measure_set [of i p AtHead]) (auto simp: do_finish_def set_worker_def Let_def)
qed (use assms in \<open>auto split: if_splits\<close>)

lemma run_reach: "pool_reach hc mn p \<Longrightarrow> run es p = Some q \<Longrightarrow> pool_reach hc mn q"
  by (induction es arbitrary: p) (auto intro: pool_reach.intros split: option.splits)

subsection \<open>Properties\<close>

text \<open>
  C5. In every interleaving no order is lost, duplicated or overtaken: the orders taken so
  far followed by the queue are the orders added, in the order they were added; every order
  taken is completed or in the hands of one worker, and \<open>activeOrders\<close> counts the latter.
\<close>

theorem WorkerPool_conserves_orders:
  assumes "pool_reach hc mn p"
  shows "started p @ workOrders p = added p \<and>
         mset (completed p) + in_progress (workers p) = mset (started p) \<and>
         activeOrders p = int (size (in_progress (workers p)))"
  using reach_inv [OF assms] by (simp add: pool_inv_def)

definition demo_events :: "nat event list" where
  "demo_events = [AddWork (Some 1) (Some 2) None, AddWork (Some 3) None None, Take 0, RunWork 0]"

lemma WorkerPool_conserves_orders_witness:
  "activeOrders (the (run demo_events (WorkerPool_new 2 1))) =
     int (size (in_progress (workers (the (run demo_events (WorkerPool_new 2 1))))))"
proof -
  have "run demo_events (WorkerPool_new 2 1) \<noteq> None"
    by (simp add: demo_events_def WorkerPool_new_def do_AddWork_def worker_is_def do_head_def
        set_worker_def Let_def numeral_2_eq_2)
  then obtain q where q: "run demo_events (WorkerPool_new 2 1) = Some q" by auto
  from WorkerPool_conserves_orders [OF run_reach [OF pool_new this]] show ?thesis
    unfolding q by simp
qed

text \<open>
  C38. No wake-up is lost: as long as the pool is not shut down and orders are queued, some
  worker can take a step, so the workers are never all blocked with work waiting.
\<close>

theorem WorkerPool_no_lost_wakeup:
  assumes "pool_reach hc mn p" and "\<not> pdone p" and "workOrders p \<noteq> []"
  shows "\<exists>e q. worker_event e \<and> step e p = Some q"
proof -
  from reach_inv [OF assms(1)] assms(2,3)
  have "\<exists>w \<in> set (workers p). w \<noteq> Blocked" "Exited \<notin> set (workers p)"
    by (auto simp: pool_inv_def)
  then obtain i where "i < length (workers p)" "workers p ! i \<noteq> Blocked" "workers p ! i \<noteq> Exited"
    by (auto simp: in_set_conv_nth)
  with busy_worker_steps assms(3) show ?thesis by blast
qed

lemma WorkerPool_no_lost_wakeup_witness:
  "\<exists>e q. worker_event e \<and> step e (the (step (AddWork (Some (1 :: nat)) None None) (WorkerPool_new 1 1))) = Some q"
proof -
  let ?p = "the (step (AddWork (Some (1 :: nat)) None None) (WorkerPool_new 1 1))"
  have s: "step (AddWork (Some (1 :: nat)) None None) (WorkerPool_new 1 1) = Some ?p"
    by (simp add: WorkerPool_new_def do_AddWork_def Let_def)
  show ?thesis
  proof (rule WorkerPool_no_lost_wakeup)
    show "pool_reach 1 1 ?p" by (rule pool_next [OF pool_new s])
  qed (simp_all add: WorkerPool_new_def do_AddWork_def Let_def)
qed

text \<open>
  C39. The destructor's \<open>join\<close> ends: once shutdown has been signalled, some worker can step
  until all of them have left their loop, and every step of a worker uses up one of finitely
  many.
\<close>

theorem WorkerPool_shutdown_ends:
  assumes "pool_reach hc mn p" and "shutdown_signalled p"
  shows "((\<forall>w \<in> set (workers p). w = Exited) \<or> (\<exists>e q. worker_event e \<and> step e p = Some q)) \<and>
    (\<forall>e q. worker_event e \<longrightarrow> step e p = Some q \<longrightarrow> shutdown_measure q < shutdown_measure p)"
proof -
  from reach_inv [OF assms(1)] assms(2) have d: "pdone p" and nb: "Blocked \<notin> set (workers p)"
    by (auto simp: pool_inv_def)
  have "\<exists>e q. worker_event e \<and> step e p = Some q" if "\<not> (\<forall>w \<in> set (workers p). w = Exited)"
  proof -
    from that obtain i where i: "i < length (workers p)" "workers p ! i \<noteq> Exited"
      by (auto simp: in_set_conv_nth)
    with nb have "workers p ! i \<noteq> Blocked" by (metis nth_mem)
    with busy_worker_steps i d show ?thesis by blast
  qed
  with shutdown_step_decreases [OF d] show ?thesis by blast
qed

lemma WorkerPool_shutdown_ends_witness:
  "\<exists>e q. worker_event e \<and>
     step e (the (run [SetDone, NotifyShutdown] (WorkerPool_new 1 1 :: nat pool))) = Some q"
proof -
  let ?p = "the (run [SetDone, NotifyShutdown] (WorkerPool_new 1 1 :: nat pool))"
  have "run [SetDone, NotifyShutdown] (WorkerPool_new 1 1 :: nat pool) = Some ?p" by simp
  from WorkerPool_shutdown_ends [OF run_reach [OF pool_new this]]
  have "(\<forall>w \<in> set (workers ?p). w = Exited) \<or> (\<exists>e q. worker_event e \<and> step e ?p = Some q)"
    by simp
  then show ?thesis by (auto simp: WorkerPool_new_def)
qed

text \<open>
  A timed \<open>WaitForResults\<close> that returns true tells the truth: at that moment the queue is
  empty and every order ever added has been completed.
\<close>

theorem WaitForResults_timed:
  assumes "pool_reach hc mn p" and "step (TimedReturn i) p = Some q" and "waiters q ! i = Returned True"
  shows "workOrders q = [] \<and> mset (completed q) = mset (added q)"
proof -
  from assms(2) have q: "q = set_waiter i (Returned (haveResults p \<and> \<not> pdone p)) p"
    and i: "i < length (waiters p)"
    by (auto simp: Let_def split: if_splits)
  with assms(3) have "workOrders p = []" "activeOrders p = 0"
    by (auto simp: set_waiter_def haveResults_def)
  with reach_inv [OF assms(1)] show ?thesis
    by (auto simp: q set_waiter_def pool_inv_def)
qed

text \<open>
  The untimed \<open>WaitForResults\<close> waits without a predicate, so a spurious wake-up makes it
  return true while an order is queued and none has been completed.
\<close>

theorem WaitForResults_spurious:
  "\<exists>p. pool_reach 1 1 (p :: 'a pool) \<and> waiters p = [Returned True] \<and> workOrders p \<noteq> [] \<and>
       completed p = []"
proof -
  let ?es = "[AddWork None None None, CallWait True, SpuriousWake 0]"
  let ?p = "the (run ?es (WorkerPool_new 1 1 :: 'a pool))"
  note defs = WorkerPool_new_def do_AddWork_def Let_def do_CallWait_def haveResults_def set_waiter_def
  have "run ?es (WorkerPool_new 1 1 :: 'a pool) = Some ?p" by (simp add: defs)
  from run_reach [OF pool_new this] have "pool_reach 1 1 ?p" .
  moreover have "waiters ?p = [Returned True]" "workOrders ?p \<noteq> []" "completed ?p = []"
    by (simp_all add: defs)
  ultimately show ?thesis by blast
qed

end
