(* ===== verification/Battery_Model.thy ===== *)
theory Battery_Model
  imports Cpp_Prelude Complex_Main "HOL-Library.Word"
begin

section \<open>Battery: consumers, their loads and the voltage\<close>

text \<open>
  Class \<open>Battery\<close> of \<^verbatim>\<open>src/src/Battery.cc\<close>. A \<open>double\<close> is a real number (no rounding, no NaN);
  the consumer identifiers are 32-bit words, whose counter wraps. The update function is
  called with the battery and may change it, so it returns a voltage and the battery; it is
  kept beside the data it works on. \<open>std::map\<close> is a map with finite domain. Every operation
  runs under the mutex as a whole.
\<close>

type_synonym cid = "32 word"

record BatteryData =
  initVoltage :: real
  realVoltage :: real
  powerLoads :: "cid \<rightharpoonup> real"
  powerLoadCounter :: cid
  battery_name :: string

record Battery =
  data :: BatteryData
  updateFunc :: "BatteryData \<Rightarrow> real \<times> BatteryData"

subsection \<open>Operations\<close>

definition UpdateDefault :: "BatteryData \<Rightarrow> real \<times> BatteryData" where
  "UpdateDefault d = (realVoltage d, d)"

definition SetUpdateFunc :: "(BatteryData \<Rightarrow> real \<times> BatteryData) \<Rightarrow> Battery \<Rightarrow> Battery" where
  "SetUpdateFunc f b = b \<lparr> updateFunc := f \<rparr>"

definition ResetUpdateFunc :: "Battery \<Rightarrow> Battery" where
  "ResetUpdateFunc b = SetUpdateFunc UpdateDefault b"

definition Battery_default :: Battery where
  "Battery_default =
     \<lparr> data = \<lparr> initVoltage = 0, realVoltage = 0, powerLoads = Map.empty, powerLoadCounter = 0,
                battery_name = [] \<rparr>,
       updateFunc = UpdateDefault \<rparr>"

definition Battery_new :: "string \<Rightarrow> real \<Rightarrow> Battery" where
  "Battery_new n v =
     Battery_default \<lparr> data := (data Battery_default) \<lparr> battery_name := n, initVoltage := v \<rparr> \<rparr>"

text \<open>Copy construction and assignment copy every field. A moved-from battery has no data any
  more (its pointer is null); move assignment swaps.\<close>

definition Battery_copy :: "Battery \<Rightarrow> Battery" where
  "Battery_copy b =
     \<lparr> data = \<lparr> initVoltage = initVoltage (data b), realVoltage = realVoltage (data b),
                powerLoads = powerLoads (data b), powerLoadCounter = powerLoadCounter (data b),
                battery_name = battery_name (data b) \<rparr>,
       updateFunc = updateFunc b \<rparr>"

definition Battery_assign :: "Battery \<Rightarrow> Battery \<Rightarrow> Battery" where
  "Battery_assign b this =
     this \<lparr> data := (data this) \<lparr> initVoltage := initVoltage (data b),
                realVoltage := realVoltage (data b), powerLoads := powerLoads (data b),
                powerLoadCounter := powerLoadCounter (data b),
                battery_name := battery_name (data b) \<rparr>,
            updateFunc := updateFunc b \<rparr>"

definition Battery_move :: "Battery option \<Rightarrow> Battery option \<times> Battery option" where
  "Battery_move b = (b, None)"

definition Battery_move_assign ::
    "Battery option \<Rightarrow> Battery option \<Rightarrow> Battery option \<times> Battery option" where
  "Battery_move_assign this b = (b, this)"

definition Battery_eq :: "Battery \<Rightarrow> Battery \<Rightarrow> bool" where
  "Battery_eq b this \<longleftrightarrow>
     battery_name (data b) = battery_name (data this) \<and>
     \<bar>initVoltage (data b) - initVoltage (data this)\<bar> < 1 / 10 ^ 6"

definition Battery_neq :: "Battery \<Rightarrow> Battery \<Rightarrow> bool" where
  "Battery_neq b this \<longleftrightarrow> \<not> Battery_eq b this"

definition ResetVoltage :: "BatteryData \<Rightarrow> BatteryData" where
  "ResetVoltage d = d \<lparr> realVoltage := max 0 (initVoltage d) \<rparr>"

definition InitConsumers :: "BatteryData \<Rightarrow> BatteryData" where
  "InitConsumers d = d \<lparr> powerLoads := Map.empty \<rparr>"

definition Init :: "BatteryData \<Rightarrow> BatteryData" where
  "Init d = InitConsumers (ResetVoltage d)"

definition SetInitVoltage :: "real \<Rightarrow> BatteryData \<Rightarrow> BatteryData" where
  "SetInitVoltage v d = d \<lparr> initVoltage := v \<rparr>"

definition SetBatteryName :: "string \<Rightarrow> BatteryData \<Rightarrow> BatteryData" where
  "SetBatteryName n d = d \<lparr> battery_name := n \<rparr>"

definition AddConsumer :: "BatteryData \<Rightarrow> cid \<times> BatteryData" where
  "AddConsumer d =
     (let newId = powerLoadCounter d;
          d1 = d \<lparr> powerLoadCounter := powerLoadCounter d + 1 \<rparr>
      in (newId, d1 \<lparr> powerLoads := (powerLoads d1)(newId \<mapsto> 0) \<rparr>))"

definition RemoveConsumer :: "cid \<Rightarrow> BatteryData \<Rightarrow> bool \<times> BatteryData" where
  "RemoveConsumer c d =
     (if powerLoads d c \<noteq> None then (True, d \<lparr> powerLoads := (powerLoads d)(c := None) \<rparr>)
      else (False, d))"

definition SetPowerLoad :: "cid \<Rightarrow> real \<Rightarrow> BatteryData \<Rightarrow> bool \<times> BatteryData" where
  "SetPowerLoad c load d =
     (if powerLoads d c = None then (False, d)
      else (True, d \<lparr> powerLoads := (powerLoads d)(c \<mapsto> load) \<rparr>))"

text \<open>The output argument keeps its value when the consumer is unknown.\<close>

definition PowerLoad :: "cid \<Rightarrow> real \<Rightarrow> BatteryData \<Rightarrow> bool \<times> real" where
  "PowerLoad c out d = (case powerLoads d c of None \<Rightarrow> (False, out) | Some l \<Rightarrow> (True, l))"

definition Update :: "Battery \<Rightarrow> Battery" where
  "Update b =
     (let (v, d) = updateFunc b (data b) in b \<lparr> data := d \<lparr> realVoltage := max 0 v \<rparr> \<rparr>)"

subsection \<open>Reachable batteries\<close>

text \<open>The index counts the calls of \<open>AddConsumer\<close> made so far; the update function is one
  that leaves the consumers to the calls modelled here.\<close>

inductive bat_reach :: "nat \<Rightarrow> BatteryData \<Rightarrow> bool" where
  bat_new: "bat_reach 0 (data (Battery_new n v))"
| bat_Init: "bat_reach k d \<Longrightarrow> bat_reach k (Init d)"
| bat_ResetVoltage: "bat_reach k d \<Longrightarrow> bat_reach k (ResetVoltage d)"
| bat_SetInitVoltage: "bat_reach k d \<Longrightarrow> bat_reach k (SetInitVoltage v d)"
| bat_SetName: "bat_reach k d \<Longrightarrow> bat_reach k (SetBatteryName n d)"
| bat_Add: "bat_reach k d \<Longrightarrow> bat_reach (Suc k) (snd (AddConsumer d))"
| bat_Remove: "bat_reach k d \<Longrightarrow> bat_reach k (snd (RemoveConsumer c d))"
| bat_SetPowerLoad: "bat_reach k d \<Longrightarrow> bat_reach k (snd (SetPowerLoad c l d))"
| bat_Update: "bat_reach k d \<Longrightarrow> bat_reach k (d \<lparr> realVoltage := max 0 v \<rparr>)"

definition ids_below :: "nat \<Rightarrow> BatteryData \<Rightarrow> bool" where
  "ids_below k d \<longleftrightarrow>
     powerLoadCounter d = of_nat k \<and> (\<forall>c \<in> dom (powerLoads d). \<exists>j < k. c = of_nat j)"

lemma reach_ids_below: "bat_reach k d \<Longrightarrow> ids_below k d"
proof (induction rule: bat_reach.induct)
  case (bat_Add k d)
  then show ?case
    by (auto simp: ids_below_def AddConsumer_def Let_def split: if_splits) (metis domI less_SucI)
next
  case (bat_Remove k d c)
  then show ?case by (auto simp: ids_below_def RemoveConsumer_def split: if_splits)
next
  case (bat_SetPowerLoad k d c l)
  then show ?case by (auto simp: ids_below_def SetPowerLoad_def split: if_splits)
qed (auto simp: ids_below_def Battery_new_def Battery_default_def Init_def InitConsumers_def
       ResetVoltage_def SetInitVoltage_def SetBatteryName_def)

lemma of_nat_cid_inject:
  "i < 2 ^ 32 \<Longrightarrow> j < 2 ^ 32 \<Longrightarrow> (of_nat i :: cid) = of_nat j \<longleftrightarrow> i = j"
  by (simp add: word_of_nat_eq_iff take_bit_nat_eq_self)

lemma AddConsumer_counter:
  "powerLoadCounter (((\<lambda>d. snd (AddConsumer d)) ^^ n) d) = powerLoadCounter d + of_nat n"
  by (induction n) (simp_all add: AddConsumer_def Let_def algebra_simps)

subsection \<open>Properties\<close>

text \<open>
  Up to 2^32 calls, \<open>AddConsumer\<close> gives out an identifier no consumer has, with load
  zero, and leaves the loads of all others alone.
\<close>

theorem AddConsumer_fresh:
  assumes "bat_reach k d" and "k < 2 ^ 32"
  shows "fst (AddConsumer d) \<notin> dom (powerLoads d) \<and>
         powerLoads (snd (AddConsumer d)) = (powerLoads d)(fst (AddConsumer d) \<mapsto> 0)"
proof -
  from reach_ids_below [OF assms(1)] have c: "powerLoadCounter d = of_nat k"
    and ids: "\<forall>c \<in> dom (powerLoads d). \<exists>j < k. c = of_nat j" by (auto simp: ids_below_def)
  have "of_nat k \<notin> dom (powerLoads d)"
  proof
    assume "of_nat k \<in> dom (powerLoads d)"
    with ids obtain j where "j < k" "(of_nat k :: cid) = of_nat j" by blast
    with assms(2) of_nat_cid_inject [of k j] show False by simp
  qed
  then show ?thesis by (simp add: AddConsumer_def Let_def c)
qed

text \<open>
  The counter is 32 bits wide: after 2^32 - 1 more calls the identifier of a consumer is
  given out a second time, and the load that consumer had set is reset to zero.
\<close>

theorem AddConsumer_wraps:
  "let c = fst (AddConsumer d);
       d' = ((\<lambda>d. snd (AddConsumer d)) ^^ (2 ^ 32 - 1)) (snd (SetPowerLoad c w (snd (AddConsumer d))))
   in fst (AddConsumer d') = c \<and> powerLoads (snd (AddConsumer d')) c = Some 0"
proof -
  let ?c = "fst (AddConsumer d)"
  define d' where "d' = ((\<lambda>d. snd (AddConsumer d)) ^^ (2 ^ 32 - 1))
    (snd (SetPowerLoad ?c w (snd (AddConsumer d))))"
  have "powerLoadCounter (snd (SetPowerLoad ?c w (snd (AddConsumer d)))) = ?c + 1"
    by (simp add: SetPowerLoad_def AddConsumer_def Let_def)
  then have "powerLoadCounter d' = ?c + 1 + of_nat (2 ^ 32 - 1)"
    by (simp only: d'_def AddConsumer_counter)
  also have "\<dots> = ?c + of_nat (1 + (2 ^ 32 - 1))" by (simp only: of_nat_add of_nat_1 add.assoc)
  also have "\<dots> = ?c" by simp
  finally have "powerLoadCounter d' = ?c" .
  then have "fst (AddConsumer d') = ?c \<and> powerLoads (snd (AddConsumer d')) ?c = Some 0"
    by (simp add: AddConsumer_def Let_def)
  then show ?thesis unfolding Let_def d'_def .
qed

text \<open>
  The voltage is never negative after the battery was initialised or updated, whatever
  the update function returns.
\<close>

theorem Voltage_nonneg:
  "0 \<le> realVoltage (data (Update b)) \<and> 0 \<le> realVoltage (Init d) \<and> 0 \<le> realVoltage (ResetVoltage d)"
  by (simp add: Update_def Init_def InitConsumers_def ResetVoltage_def split: prod.split)

end
