(* ===== verification/Csv_Reader.thy ===== *)
theory Csv_Reader
  imports String_Utils
begin

section \<open>CSVStreams: tokens, rows and the row iterator\<close>

text \<open>
  \<^verbatim>\<open>src/io/src/CSVStreams.cc\<close>. A \<open>std::istream\<close> is the bytes left to read and its \<open>eofbit\<close> and
  \<open>failbit\<close>. \<open>peek\<close> and \<open>get\<close> behave as the standard says: on a stream that is not good they
  set \<open>failbit\<close> and read nothing; \<open>peek\<close> at the end of a good stream sets \<open>eofbit\<close> alone.
  \<open>peek () == quote\<close> compares an \<open>int\<close> from 0 to 255 with a signed \<open>char\<close>, so it is never true
  for a quote character above 127.
\<close>

record istream =
  inp :: string
  eofbit :: bool
  failbit :: bool

record CSVDialect =
  delimiter :: char
  terminator :: char
  quote :: char

definition Unix :: CSVDialect where
  "Unix = \<lparr> delimiter = CHR '','', terminator = CHR 0x0A, quote = CHR 0x22 \<rparr>"

definition CSVDialect_eq :: "CSVDialect \<Rightarrow> CSVDialect \<Rightarrow> bool" where
  "CSVDialect_eq l r \<longleftrightarrow>
     delimiter l = delimiter r \<and> terminator l = terminator r \<and> quote l = quote r"

subsection \<open>Stream primitives\<close>

definition good :: "istream \<Rightarrow> bool" where
  "good s \<longleftrightarrow> \<not> eofbit s \<and> \<not> failbit s"

definition peek :: "istream \<Rightarrow> char option \<times> istream" where
  "peek s =
     (if \<not> good s then (None, s \<lparr> failbit := True \<rparr>)
      else case inp s of [] \<Rightarrow> (None, s \<lparr> eofbit := True \<rparr>) | c # _ \<Rightarrow> (Some c, s))"

definition get :: "istream \<Rightarrow> char option \<times> istream" where
  "get s =
     (if \<not> good s then (None, s \<lparr> failbit := True \<rparr>)
      else case inp s of
             [] \<Rightarrow> (None, s \<lparr> eofbit := True, failbit := True \<rparr>)
           | c # r \<Rightarrow> (Some c, s \<lparr> inp := r \<rparr>))"

definition ignore :: "istream \<Rightarrow> istream" where
  "ignore s =
     (if \<not> good s then s \<lparr> failbit := True \<rparr>
      else case inp s of [] \<Rightarrow> s \<lparr> eofbit := True \<rparr> | _ # r \<Rightarrow> s \<lparr> inp := r \<rparr>)"

subsection \<open>Tokens\<close>

datatype token_type = TEXT | QUOTE | DELIMITER | TERMINATOR

type_synonym CSVToken = "token_type \<times> char"

definition EOF_char :: char where
  "EOF_char = CHR 0xFF"

definition is_quote_int :: "CSVDialect \<Rightarrow> char option \<Rightarrow> bool" where
  "is_quote_int d c \<longleftrightarrow> c = Some (quote d) \<and> code (quote d) < 128"

text \<open>The token is left as it was (\<open>t\<close>) when the stream fails.\<close>

definition ExtractCSVToken :: "CSVDialect \<Rightarrow> istream \<Rightarrow> CSVToken \<Rightarrow> CSVToken \<times> istream" where
  "ExtractCSVToken d s t =
     (let s1 = snd (peek s)
      in if \<not> failbit s1 \<and> eofbit s1 then ((TERMINATOR, EOF_char), s1)
         else case get s1 of
                (None, s2) \<Rightarrow> (t, s2)
              | (Some character, s2) \<Rightarrow>
                  if character = terminator d then ((TERMINATOR, character), s2)
                  else if character = delimiter d then ((DELIMITER, character), s2)
                  else if character = quote d then
                    (case peek s2 of (c, s3) \<Rightarrow>
                       if is_quote_int d c then ((TEXT, character), ignore s3)
                       else ((QUOTE, character), s3))
                  else ((TEXT, character), s2))"

subsection \<open>Rows\<close>

datatype row_state = FIELD_START | ESCAPED_FIELD | NONESCAPED_FIELD | FIELD_END | RECORD_END

text \<open>The body of the loop: the next state, the row, the text of the field, and whether
  \<open>failbit\<close> is set. \<open>csv_field_end\<close> is \<open>case FIELD_END\<close>, which two other cases fall into.\<close>

definition csv_field_end ::
    "CSVToken \<Rightarrow> string list \<Rightarrow> string \<Rightarrow> row_state \<times> string list \<times> string \<times> bool" where
  "csv_field_end token row fld =
     (case fst token of
        DELIMITER \<Rightarrow> (FIELD_START, row @ [fld], [], False)
      | TERMINATOR \<Rightarrow>
          if snd token \<noteq> EOF_char \<or> row \<noteq> [] \<or> fld \<noteq> []
          then (RECORD_END, row @ [fld], [], False)
          else (FIELD_END, row, [], True)
      | _ \<Rightarrow> (FIELD_END, row, [], True))"

definition csv_nonescaped ::
    "CSVToken \<Rightarrow> string list \<Rightarrow> string \<Rightarrow> row_state \<times> string list \<times> string \<times> bool" where
  "csv_nonescaped token row fld =
     (if fst token = TEXT then (NONESCAPED_FIELD, row, fld @ [snd token], False)
      else csv_field_end token row fld)"

fun csv_body ::
    "row_state \<Rightarrow> CSVToken \<Rightarrow> string list \<Rightarrow> string \<Rightarrow> row_state \<times> string list \<times> string \<times> bool" where
  "csv_body FIELD_START token row fld =
     (if fst token = QUOTE then (ESCAPED_FIELD, row, fld, False) else csv_nonescaped token row fld)"
| "csv_body NONESCAPED_FIELD token row fld = csv_nonescaped token row fld"
| "csv_body FIELD_END token row fld = csv_field_end token row fld"
| "csv_body ESCAPED_FIELD token row fld =
     (if fst token = QUOTE then (FIELD_END, row, fld, False)
      else if fst token \<noteq> TERMINATOR \<or> snd token \<noteq> EOF_char
           then (ESCAPED_FIELD, row, fld @ [snd token], False)
           else (ESCAPED_FIELD, row, fld, True))"
| "csv_body RECORD_END token row fld = (RECORD_END, row, fld, True)"

definition stream_size :: "istream \<Rightarrow> nat" where
  "stream_size s = 2 * length (inp s) + (if eofbit s then 0 else 1)"

lemma stream_size_fail [simp]: "stream_size (s \<lparr> failbit := b \<rparr>) = stream_size s"
  by (simp add: stream_size_def)

lemma ExtractCSVToken_size:
  "\<not> failbit (snd (ExtractCSVToken d s t)) \<Longrightarrow> stream_size (snd (ExtractCSVToken d s t)) < stream_size s"
  by (auto simp: ExtractCSVToken_def peek_def get_def ignore_def good_def stream_size_def Let_def
      split: list.splits)

function ParseCSVRow_loop ::
    "CSVDialect \<Rightarrow> row_state \<Rightarrow> istream \<Rightarrow> CSVToken \<Rightarrow> string list \<Rightarrow> string \<Rightarrow> string list \<times> istream" where
  "ParseCSVRow_loop d state s token row fld =
     (if state = RECORD_END then (row, s)
      else
        (let (token', s1) = ExtractCSVToken d s token
         in if failbit s1 then (row, s1)
            else (case csv_body state token' row fld of
                    (state', row', fld', bad) \<Rightarrow>
                      ParseCSVRow_loop d state' (if bad then s1 \<lparr> failbit := True \<rparr> else s1)
                        token' row' fld')))"
  by pat_completeness auto
termination
  by (relation "measure (\<lambda>(d, state, s, token, row, fld). stream_size s)")
     (auto, (metis ExtractCSVToken_size snd_conv)+)

declare ParseCSVRow_loop.simps [simp del]

definition ParseCSVRow :: "CSVDialect \<Rightarrow> istream \<Rightarrow> string list \<times> istream" where
  "ParseCSVRow d s = ParseCSVRow_loop d FIELD_START s (TEXT, NUL) [] []"

subsection \<open>The iterator\<close>

text \<open>The stream pointer is null (\<^const>\<open>None\<close>) at the end. Iterators over one stream share it, so
  the stream itself is passed along; pointers to one stream are equal.\<close>

record CSVIStreamIterator =
  at_end :: bool
  dialect :: CSVDialect
  csv_row :: "string list"

definition Iterator_end :: CSVIStreamIterator where
  "Iterator_end = \<lparr> at_end = True, dialect = Unix, csv_row = [] \<rparr>"

definition Next :: "CSVIStreamIterator \<Rightarrow> istream \<Rightarrow> CSVIStreamIterator \<times> istream" where
  "Next it s =
     (if \<not> at_end it
      then (case ParseCSVRow (dialect it) s of
              (r, s1) \<Rightarrow> (it \<lparr> csv_row := r, at_end := failbit s1 \<rparr>, s1))
      else (it, s))"

definition Iterator_begin :: "istream \<Rightarrow> CSVDialect \<Rightarrow> CSVIStreamIterator \<times> istream" where
  "Iterator_begin s d = Next \<lparr> at_end = False, dialect = d, csv_row = [] \<rparr> s"

definition Iterator_eq :: "CSVIStreamIterator \<Rightarrow> CSVIStreamIterator \<Rightarrow> bool" where
  "Iterator_eq a b \<longleftrightarrow> at_end a = at_end b \<and> (at_end a \<or> CSVDialect_eq (dialect a) (dialect b))"

definition Iterator_neq :: "CSVIStreamIterator \<Rightarrow> CSVIStreamIterator \<Rightarrow> bool" where
  "Iterator_neq a b \<longleftrightarrow> \<not> Iterator_eq a b"

definition Iterator_incr :: "CSVIStreamIterator \<Rightarrow> istream \<Rightarrow> CSVIStreamIterator \<times> istream" where
  "Iterator_incr it s = Next it s"

definition Iterator_post_incr ::
    "CSVIStreamIterator \<Rightarrow> istream \<Rightarrow> CSVIStreamIterator \<times> CSVIStreamIterator \<times> istream" where
  "Iterator_post_incr it s = (case Next it s of (it1, s1) \<Rightarrow> (it, it1, s1))"

text \<open>The rows a loop over the iterator visits.\<close>

lemma ParseCSVRow_loop_size:
  "\<not> failbit (snd (ParseCSVRow_loop d state s token row fld)) \<Longrightarrow>
     stream_size (snd (ParseCSVRow_loop d state s token row fld)) \<le> stream_size s \<and>
     (state \<noteq> RECORD_END \<longrightarrow>
        stream_size (snd (ParseCSVRow_loop d state s token row fld)) < stream_size s)"
proof (induction d state s token row fld rule: ParseCSVRow_loop.induct)
  case (1 d state s token row fld)
  obtain token' s1 where e: "ExtractCSVToken d s token = (token', s1)" by fastforce
  obtain state' row' fld' bad where b: "csv_body state token' row fld = (state', row', fld', bad)"
    by (cases "csv_body state token' row fld")
  show ?case
  proof (cases "state = RECORD_END \<or> failbit s1")
    case True
    then show ?thesis using 1(2) e by (auto simp: ParseCSVRow_loop.simps [of d state s token row fld])
  next
    case False
    let ?s = "if bad then s1 \<lparr> failbit := True \<rparr> else s1"
    have loop: "ParseCSVRow_loop d state s token row fld =
        ParseCSVRow_loop d state' ?s token' row' fld'"
      using False e b by (simp add: ParseCSVRow_loop.simps [of d state s token row fld])
    have "stream_size s1 < stream_size s" using False ExtractCSVToken_size [of d s token] e by simp
    then have "stream_size ?s < stream_size s" by simp
    moreover have "stream_size (snd (ParseCSVRow_loop d state' ?s token' row' fld')) \<le> stream_size ?s"
      using "1.IH" [OF _ refl e [symmetric] _ b [symmetric] refl refl] False "1.prems" loop by simp
    ultimately show ?thesis unfolding loop by simp
  qed
qed

lemma ParseCSVRow_size:
  "\<not> failbit (snd (ParseCSVRow d s)) \<Longrightarrow> stream_size (snd (ParseCSVRow d s)) < stream_size s"
  using ParseCSVRow_loop_size [of d FIELD_START s] by (simp add: ParseCSVRow_def)

function read_rows :: "CSVIStreamIterator \<Rightarrow> istream \<Rightarrow> string list list" where
  "read_rows it s =
     (if at_end it then []
      else csv_row it # (case Next it s of (it1, s1) \<Rightarrow> read_rows it1 s1))"
  by pat_completeness auto
termination
proof (relation "measure (\<lambda>(it, s). if at_end it then 0 else Suc (stream_size s))", goal_cases)
  case (2 it s it1 s1)
  then have it: "\<not> at_end it" and n: "Next it s = (it1, s1)" by auto
  obtain r where r: "ParseCSVRow (dialect it) s = (r, s1)" "at_end it1 = failbit s1"
    using it n by (auto simp: Next_def split: prod.splits)
  then show ?case using it ParseCSVRow_size [of "dialect it" s] by auto
qed simp

declare read_rows.simps [simp del]

subsection \<open>Tokens of a text\<close>

definition stream_of :: "string \<Rightarrow> istream" where
  "stream_of s = \<lparr> inp = s, eofbit = False, failbit = False \<rparr>"

definition dialect_ok :: "CSVDialect \<Rightarrow> bool" where
  "dialect_ok d \<longleftrightarrow>
     delimiter d \<noteq> terminator d \<and> quote d \<noteq> delimiter d \<and> quote d \<noteq> terminator d \<and>
     code (quote d) < 128 \<and> terminator d \<noteq> EOF_char"

definition special :: "CSVDialect \<Rightarrow> char \<Rightarrow> bool" where
  "special d c \<longleftrightarrow> c = delimiter d \<or> c = terminator d \<or> c = quote d"

lemmas stream_defs = ExtractCSVToken_def peek_def get_def ignore_def good_def stream_of_def

lemma token_text: "\<not> special d c \<Longrightarrow> ExtractCSVToken d (stream_of (c # r)) t = ((TEXT, c), stream_of r)"
  by (simp add: stream_defs special_def)

lemma token_terminator:
  "ExtractCSVToken d (stream_of (terminator d # r)) t = ((TERMINATOR, terminator d), stream_of r)"
  by (simp add: stream_defs)

lemma token_delimiter: "dialect_ok d \<Longrightarrow>
    ExtractCSVToken d (stream_of (delimiter d # r)) t = ((DELIMITER, delimiter d), stream_of r)"
  by (simp add: stream_defs dialect_ok_def)

lemma token_quote_quote: "dialect_ok d \<Longrightarrow>
    ExtractCSVToken d (stream_of (quote d # quote d # r)) t = ((TEXT, quote d), stream_of r)"
  by (simp add: stream_defs dialect_ok_def is_quote_int_def)

lemma token_quote: "dialect_ok d \<Longrightarrow> c \<noteq> quote d \<Longrightarrow>
    ExtractCSVToken d (stream_of (quote d # c # r)) t = ((QUOTE, quote d), stream_of (c # r))"
  by (simp add: stream_defs dialect_ok_def is_quote_int_def)

lemma token_quote_end: "dialect_ok d \<Longrightarrow> ExtractCSVToken d (stream_of [quote d]) t =
    ((QUOTE, quote d), \<lparr> inp = [], eofbit = True, failbit = False \<rparr>)"
  by (simp add: stream_defs dialect_ok_def is_quote_int_def)

lemma token_end: "ExtractCSVToken d (stream_of []) t =
    ((TERMINATOR, EOF_char), \<lparr> inp = [], eofbit = True, failbit = False \<rparr>)"
  by (simp add: stream_defs)

lemma ExtractCSVToken_irrelevant:
  "\<not> failbit (snd (ExtractCSVToken d s t)) \<Longrightarrow> ExtractCSVToken d s t' = ExtractCSVToken d s t"
  by (auto simp: ExtractCSVToken_def get_def Let_def split: list.splits if_splits)

lemma ExtractCSVToken_stream: "snd (ExtractCSVToken d s t') = snd (ExtractCSVToken d s t)"
  by (auto simp: ExtractCSVToken_def Let_def split: prod.split option.split)

lemma loop_token_irrelevant:
  "ParseCSVRow_loop d st s t row f = ParseCSVRow_loop d st s t' row f"
proof (cases "failbit (snd (ExtractCSVToken d s t))")
  case True
  then show ?thesis
    using ExtractCSVToken_stream [of d s t t']
    by (auto simp: ParseCSVRow_loop.simps [of d st s] split: prod.split)
next
  case False
  from ExtractCSVToken_irrelevant [OF this, of t'] show ?thesis
    by (simp add: ParseCSVRow_loop.simps [of d st s])
qed

lemma loop_step:
  assumes "\<And>t. ExtractCSVToken d s t = (tok, s')" and "\<not> failbit s'" and "st \<noteq> RECORD_END"
    and "csv_body st tok row f = (st', row', f', False)"
  shows "ParseCSVRow_loop d st s t row f = ParseCSVRow_loop d st' s' t' row' f'"
proof -
  have "ParseCSVRow_loop d st s t row f = ParseCSVRow_loop d st' s' tok row' f'"
    using assms by (simp add: ParseCSVRow_loop.simps [of d st s])
  then show ?thesis using loop_token_irrelevant by metis
qed

lemma not_fail [simp]: "\<not> failbit (stream_of s)"
  by (simp add: stream_of_def)

abbreviation (input) scan where
  "scan d st s row f \<equiv> ParseCSVRow_loop d st (stream_of s) (TEXT, NUL) row f"

lemma scan_plain:
  "st = FIELD_START \<or> st = NONESCAPED_FIELD \<Longrightarrow> \<forall>c \<in> set w. \<not> special d c \<Longrightarrow>
     scan d st (w @ r) row f = scan d (if w = [] then st else NONESCAPED_FIELD) r row (f @ w)"
proof (induction w arbitrary: st f)
  case (Cons c w)
  then have "csv_body st (TEXT, c) row f = (NONESCAPED_FIELD, row, f @ [c], False)"
    by (auto simp: csv_nonescaped_def)
  with Cons.prems have "scan d st (c # w @ r) row f = scan d NONESCAPED_FIELD (w @ r) row (f @ [c])"
    by (intro loop_step [where tok = "(TEXT, c)"]) (auto intro: token_text)
  with Cons.IH [of NONESCAPED_FIELD "f @ [c]"] Cons.prems show ?case by simp
qed simp

definition escape :: "CSVDialect \<Rightarrow> string \<Rightarrow> string" where
  "escape d w = concat (map (\<lambda>c. if c = quote d then [c, c] else [c]) w)"

lemma scan_escaped:
  assumes "dialect_ok d"
  shows "scan d ESCAPED_FIELD (escape d w @ r) row f = scan d ESCAPED_FIELD r row (f @ w)"
proof (induction w arbitrary: f)
  case Nil
  then show ?case by (simp add: escape_def)
next
  case (Cons c w)
  have step: "scan d ESCAPED_FIELD (escape d (c # w) @ r) row f =
      scan d ESCAPED_FIELD (escape d w @ r) row (f @ [c])"
  proof (cases "c = quote d")
    case True
    then show ?thesis
      using token_quote_quote [OF assms]
      by (intro loop_step [where tok = "(TEXT, c)"]) (auto simp: escape_def)
  next
    case False
    then have e: "escape d (c # w) = c # escape d w" by (simp add: escape_def)
    consider "\<not> special d c" | "c = delimiter d" | "c = terminator d"
      using False by (auto simp: special_def)
    then show ?thesis
    proof cases
      case 1
      then show ?thesis unfolding e
        using token_text by (intro loop_step [where tok = "(TEXT, c)"]) auto
    next
      case 2
      then show ?thesis unfolding e
        using token_delimiter [OF assms] by (intro loop_step [where tok = "(DELIMITER, c)"]) auto
    next
      case 3
      then show ?thesis unfolding e
        using token_terminator assms
        by (intro loop_step [where tok = "(TERMINATOR, c)"]) (auto simp: dialect_ok_def)
    qed
  qed
  with Cons.IH [of "f @ [c]"] show ?case by simp
qed

subsection \<open>Reading what a writer would write\<close>

text \<open>The reference: a field is written as it is if it holds no special character, else in
  quotes with its quotes doubled. A field that starts with a quote cannot be written so that
  the parser reads it back (see \<open>CSV_leading_quote\<close>).\<close>

definition quoted :: "CSVDialect \<Rightarrow> string \<Rightarrow> string" where
  "quoted d w = quote d # escape d w @ [quote d]"

definition write_field :: "CSVDialect \<Rightarrow> string \<Rightarrow> string" where
  "write_field d w = (if \<exists>c \<in> set w. special d c then quoted d w else w)"

fun write_row :: "CSVDialect \<Rightarrow> string list \<Rightarrow> string" where
  "write_row d [] = [terminator d]"
| "write_row d [w] = write_field d w @ [terminator d]"
| "write_row d (w # ws) = write_field d w @ delimiter d # write_row d ws"

definition field_ok :: "CSVDialect \<Rightarrow> string \<Rightarrow> bool" where
  "field_ok d w \<longleftrightarrow> w = [] \<or> hd w \<noteq> quote d"

lemma escape_hd: "w \<noteq> [] \<Longrightarrow> hd w \<noteq> quote d \<Longrightarrow> \<exists>c r. escape d w = c # r \<and> c \<noteq> quote d"
  by (cases w) (auto simp: escape_def)

lemma scan_field:
  assumes d: "dialect_ok d" and w: "field_ok d w" and x: "x = delimiter d \<or> x = terminator d"
  shows "\<exists>st \<in> {FIELD_START, NONESCAPED_FIELD, FIELD_END}.
    scan d FIELD_START (write_field d w @ x # r) row [] = scan d st (x # r) row w"
proof (cases "\<exists>c \<in> set w. special d c")
  case False
  then show ?thesis
    using scan_plain [of FIELD_START w d "x # r" row "[]"] by (auto simp: write_field_def)
next
  case True
  then have "w \<noteq> []" by auto
  with w have "hd w \<noteq> quote d" by (simp add: field_ok_def)
  from escape_hd [OF \<open>w \<noteq> []\<close> this] obtain c e where c: "escape d w = c # e" "c \<noteq> quote d" by blast
  have "scan d FIELD_START (quoted d w @ x # r) row [] =
      scan d ESCAPED_FIELD (escape d w @ quote d # x # r) row []"
    using token_quote [OF d c(2)] c(1)
    by (intro loop_step [where tok = "(QUOTE, quote d)"]) (auto simp: quoted_def)
  also have "\<dots> = scan d ESCAPED_FIELD (quote d # x # r) row w"
    using scan_escaped [OF d] by simp
  also have "\<dots> = scan d FIELD_END (x # r) row w"
    using token_quote [OF d, of x] x d
    by (intro loop_step [where tok = "(QUOTE, quote d)"]) (auto simp: dialect_ok_def)
  finally show ?thesis using True by (auto simp: write_field_def)
qed

lemma scan_delimiter:
  assumes "dialect_ok d" and "st \<in> {FIELD_START, NONESCAPED_FIELD, FIELD_END}"
  shows "scan d st (delimiter d # r) row w = scan d FIELD_START r (row @ [w]) []"
  using assms token_delimiter [OF assms(1)]
  by (intro loop_step [where tok = "(DELIMITER, delimiter d)"])
     (auto simp: csv_nonescaped_def csv_field_end_def)

lemma scan_terminator:
  assumes "dialect_ok d" and "st \<in> {FIELD_START, NONESCAPED_FIELD, FIELD_END}"
  shows "scan d st (terminator d # r) row w = (row @ [w], stream_of r)"
proof -
  have "scan d st (terminator d # r) row w =
      ParseCSVRow_loop d RECORD_END (stream_of r) (TEXT, NUL) (row @ [w]) []"
    using assms token_terminator
    by (intro loop_step [where tok = "(TERMINATOR, terminator d)"])
       (auto simp: csv_nonescaped_def csv_field_end_def dialect_ok_def)
  then show ?thesis by (simp add: ParseCSVRow_loop.simps)
qed

lemma scan_row:
  assumes d: "dialect_ok d"
  shows "ws \<noteq> [] \<Longrightarrow> \<forall>w \<in> set ws. field_ok d w \<Longrightarrow>
     scan d FIELD_START (write_row d ws @ r) row [] = (row @ ws, stream_of r)"
proof (induction ws arbitrary: row rule: induct_list012)
  case (2 w)
  then have ok: "field_ok d w" by simp
  from scan_field [OF d ok, of "terminator d" r row] scan_terminator [OF d] show ?case by auto
next
  case (3 w v vs)
  then have ok: "field_ok d w" by simp
  have "scan d FIELD_START (write_row d (w # v # vs) @ r) row [] =
      scan d FIELD_START (write_row d (v # vs) @ r) (row @ [w]) []"
    using scan_field [OF d ok, of "delimiter d" "write_row d (v # vs) @ r" row]
      scan_delimiter [OF d] by auto
  with 3 show ?case by simp
qed simp

lemma ParseCSVRow_write:
  assumes "dialect_ok d" and "ws \<noteq> []" and "\<forall>w \<in> set ws. field_ok d w"
  shows "ParseCSVRow d (stream_of (write_row d ws @ r)) = (ws, stream_of r)"
  using scan_row [OF assms, of r "[]"] by (simp add: ParseCSVRow_def)

lemma ParseCSVRow_end: "failbit (snd (ParseCSVRow d (stream_of [])))"
proof -
  have "csv_body FIELD_START (TERMINATOR, EOF_char) [] [] = (FIELD_END, [], [], True)"
    by (simp add: csv_nonescaped_def csv_field_end_def)
  then have "ParseCSVRow d (stream_of []) =
      ParseCSVRow_loop d FIELD_END \<lparr> inp = [], eofbit = True, failbit = True \<rparr>
        (TERMINATOR, EOF_char) [] []"
    by (simp add: ParseCSVRow_def ParseCSVRow_loop.simps [of d FIELD_START] token_end)
  then show ?thesis
    by (simp add: ParseCSVRow_loop.simps stream_defs)
qed

lemma read_rows_written:
  assumes d: "dialect_ok d"
  shows "\<forall>ws \<in> set rows. ws \<noteq> [] \<and> (\<forall>w \<in> set ws. field_ok d w) \<Longrightarrow>
    (case Next \<lparr> at_end = False, dialect = d, csv_row = r0 \<rparr> (stream_of (concat (map (write_row d) rows))) of
       (it, s) \<Rightarrow> read_rows it s) = rows"
proof (induction rows arbitrary: r0)
  case Nil
  show ?case
    using ParseCSVRow_end [of d]
    by (auto simp: Next_def read_rows.simps split: prod.split)
next
  case (Cons ws rows)
  then have "ParseCSVRow d (stream_of (write_row d ws @ concat (map (write_row d) rows))) =
      (ws, stream_of (concat (map (write_row d) rows)))"
    by (intro ParseCSVRow_write [OF d]) auto
  then have "Next \<lparr> at_end = False, dialect = d, csv_row = r0 \<rparr>
      (stream_of (concat (map (write_row d) (ws # rows)))) =
      (\<lparr> at_end = False, dialect = d, csv_row = ws \<rparr>, stream_of (concat (map (write_row d) rows)))"
    by (simp add: Next_def)
  with Cons show ?case by (simp add: read_rows.simps [of "\<lparr> at_end = False, dialect = d, csv_row = ws \<rparr>"])
qed

lemma Unix_ok: "dialect_ok Unix"
  by (simp add: dialect_ok_def Unix_def code_def EOF_char_def)

subsection \<open>Properties\<close>

text \<open>
  C6. Reading undoes writing: iterating over a stream that holds rows of at least one field each, where
  no field starts with the quote character, visits exactly these rows. The fields may hold delimiters,
  line ends and, behind their first character, quotes: a field that holds one of these is written in
  quotes, with its quotes doubled, and every other field, the empty one included, as it is. The
  delimiter, the line end and the quote of the dialect differ, the quote is an ASCII character and the line end
  is not the byte 255.
\<close>

theorem CSV_round_trip:
  assumes "dialect_ok d" and "\<forall>ws \<in> set rows. ws \<noteq> [] \<and> (\<forall>w \<in> set ws. field_ok d w)"
  shows "(case Iterator_begin (stream_of (concat (map (write_row d) rows))) d of
            (it, s) \<Rightarrow> read_rows it s) = rows"
  using read_rows_written [OF assms] by (simp add: Iterator_begin_def)

lemma CSV_round_trip_witness:
  "(case Iterator_begin (stream_of (concat (map (write_row Unix) [[''a'', ''b,c''], [[]]]))) Unix of
      (it, s) \<Rightarrow> read_rows it s) = [[''a'', ''b,c''], [[]]]"
  by (rule CSV_round_trip [OF Unix_ok]) (simp add: field_ok_def Unix_def)

text \<open>
  A row whose last field is quoted is lost when the file does not end in a line end: to
  tell a closing quote from a doubled one the parser looks ahead, which sets \<open>eofbit\<close>, and
  the next look ahead on the stream then sets \<open>failbit\<close>. The same row with a line end is read.
\<close>

theorem CSV_quoted_at_end_lost:
  assumes "dialect_ok d" and "w \<noteq> []" and "hd w \<noteq> quote d"
  shows "failbit (snd (ParseCSVRow d (stream_of (quoted d w)))) \<and>
         ParseCSVRow d (stream_of (quoted d w @ [terminator d])) = ([w], stream_of [])"
proof -
  note d = assms(1)
  obtain c e where c: "escape d w = c # e" "c \<noteq> quote d" using escape_hd [OF assms(2,3)] by blast
  have open_quote: "scan d FIELD_START (quoted d w @ r) [] [] = scan d FIELD_END r [] w"
    if r: "r = [] \<or> hd r \<noteq> quote d" and ne: "r \<noteq> []" for r
  proof -
    have "scan d FIELD_START (quoted d w @ r) [] [] = scan d ESCAPED_FIELD (escape d w @ quote d # r) [] []"
      using token_quote [OF d c(2)] c(1)
      by (intro loop_step [where tok = "(QUOTE, quote d)"]) (auto simp: quoted_def)
    also have "\<dots> = scan d ESCAPED_FIELD (quote d # r) [] w" using scan_escaped [OF d] by simp
    also have "\<dots> = scan d FIELD_END r [] w"
      using token_quote [OF d, of "hd r" "tl r"] r ne
      by (intro loop_step [where tok = "(QUOTE, quote d)"]) auto
    finally show ?thesis .
  qed
  have "ParseCSVRow d (stream_of (quoted d w @ [terminator d])) = ([w], stream_of [])"
    using open_quote [of "[terminator d]"] scan_terminator [OF d, of FIELD_END "[]" "[]" w] d
    by (auto simp: ParseCSVRow_def dialect_ok_def)
  moreover have "failbit (snd (ParseCSVRow d (stream_of (quoted d w))))"
  proof -
    have "scan d FIELD_START (quoted d w) [] [] = scan d ESCAPED_FIELD (escape d w @ [quote d]) [] []"
      using token_quote [OF d c(2)] c(1)
      by (intro loop_step [where tok = "(QUOTE, quote d)"]) (auto simp: quoted_def)
    also have "\<dots> = scan d ESCAPED_FIELD [quote d] [] w" using scan_escaped [OF d] by simp
    also have "\<dots> = ParseCSVRow_loop d FIELD_END \<lparr> inp = [], eofbit = True, failbit = False \<rparr>
        (TEXT, NUL) [] w"
      using token_quote_end [OF d] by (intro loop_step [where tok = "(QUOTE, quote d)"]) auto
    finally show ?thesis
      by (simp add: ParseCSVRow_def ParseCSVRow_loop.simps [of d FIELD_END] stream_defs)
  qed
  ultimately show ?thesis by blast
qed

text \<open>
  A doubled quote at the start of a field is taken for an escaped quote: the empty quoted
  field reads as a field holding one quote character, and a quoted field that starts with an
  escaped quote makes the stream fail.
\<close>

theorem CSV_leading_quote:
  assumes "dialect_ok d" and "\<not> special d c"
  shows "ParseCSVRow d (stream_of (quoted d [] @ terminator d # r)) = ([[quote d]], stream_of r) \<and>
         failbit (snd (ParseCSVRow d (stream_of (quoted d [quote d, c] @ r))))"
proof -
  note d = assms(1)
  have 1: "scan d FIELD_START (quote d # quote d # s) [] [] = scan d NONESCAPED_FIELD s [] [quote d]" for s
    using token_quote_quote [OF d]
    by (intro loop_step [where tok = "(TEXT, quote d)"]) (auto simp: csv_nonescaped_def)
  have c: "c \<noteq> quote d" using assms(2) by (simp add: special_def)
  let ?s = "stream_of (quote d # c # quote d # r)"
  have "csv_body NONESCAPED_FIELD (QUOTE, quote d) [] [quote d] = (FIELD_END, [], [], True)"
    by (simp add: csv_nonescaped_def csv_field_end_def)
  then have "scan d NONESCAPED_FIELD (quote d # c # quote d # r) [] [quote d] =
      ParseCSVRow_loop d FIELD_END ((stream_of (c # quote d # r)) \<lparr> failbit := True \<rparr>)
        (QUOTE, quote d) [] []"
    using token_quote [OF d c]
    by (simp add: ParseCSVRow_loop.simps [of d NONESCAPED_FIELD])
  then have "failbit (snd (scan d NONESCAPED_FIELD (quote d # c # quote d # r) [] [quote d]))"
    by (simp add: ParseCSVRow_loop.simps [of d FIELD_END] stream_defs)
  then have "failbit (snd (ParseCSVRow d (stream_of (quoted d [quote d, c] @ r))))"
    using 1 c by (simp add: ParseCSVRow_def quoted_def escape_def)
  moreover have "ParseCSVRow d (stream_of (quoted d [] @ terminator d # r)) = ([[quote d]], stream_of r)"
    using 1 scan_terminator [OF d, of NONESCAPED_FIELD] by (simp add: ParseCSVRow_def quoted_def escape_def)
  ultimately show ?thesis by blast
qed

end
