(* ===== verification/Event_System.thy ===== *)
theory Event_System
  imports Cpp_Prelude "HOL-Library.Sublist"
begin

section \<open>Event: subscribers, delayed removal and signalling\<close>

text \<open>
  \<^verbatim>\<open>src/events/include/gz/common/Event.hh\<close> and \<^verbatim>\<open>src/events/src/Event.cc\<close>. The connections of an
  event are a \<open>std::map\<close> from integers, kept here as the list of its entries in key order.
  \<open>connectionsToRemove\<close> is a list of iterators: a key stands for the iterator to its entry, and
  erasing an iterator whose entry is gone is undefined behaviour, \<^const>\<open>None\<close>.

  A subscriber is a non-empty function, named by a value of type \<^typ>\<open>'c\<close>; the handle that
  \<open>Connect\<close> returns lives at an address, and an entry keeps that address as its weak pointer.
  Keys are \<open>int\<close> in the code and their overflow is not modelled. Subscribers may connect and disconnect while they are
  called: \<open>beh f\<close> lists what \<open>f\<close> does to the event. \<open>Signal\<close> walks the live map, so it sees these
  changes, and it may never return when every call connects a new subscriber.
\<close>

record 'c EventConnection =
  on :: bool
  callback :: "'c option"
  publicConnection :: nat

record 'c EventT =
  signaled :: bool
  connections :: "(int \<times> 'c EventConnection) list"
  connectionsToRemove :: "int list"

record Connection =
  conn_event :: bool
  conn_id :: int

definition EventT_new :: "'c EventT" where
  "EventT_new = \<lparr> signaled = False, connections = [], connectionsToRemove = [] \<rparr>"

definition Signaled :: "'c EventT \<Rightarrow> bool" where
  "Signaled e = signaled e"

definition SetSignaled :: "bool \<Rightarrow> 'c EventT \<Rightarrow> 'c EventT" where
  "SetSignaled b e = e \<lparr> signaled := b \<rparr>"

subsection \<open>Connecting and disconnecting\<close>

definition next_index :: "(int \<times> 'a) list \<Rightarrow> int" where
  "next_index cs = (if cs \<noteq> [] then fst (last cs) + 1 else 0)"

definition Connect :: "'c \<Rightarrow> nat \<Rightarrow> 'c EventT \<Rightarrow> Connection \<times> 'c EventT" where
  "Connect f a e =
     (let index = next_index (connections e)
      in (\<lparr> conn_event = True, conn_id = index \<rparr>,
          e \<lparr> connections := connections e @
                [(index, \<lparr> on = True, callback = Some f, publicConnection = a \<rparr>)] \<rparr>))"

definition ConnectionCount :: "'c EventT \<Rightarrow> nat" where
  "ConnectionCount e = length (connections e)"

definition disable :: "int \<Rightarrow> (int \<times> 'c EventConnection) list \<Rightarrow> (int \<times> 'c EventConnection) list" where
  "disable i cs = map (\<lambda>(j, c). if j = i then (j, c \<lparr> on := False, callback := None \<rparr>) else (j, c)) cs"

definition Disconnect :: "int \<Rightarrow> 'c EventT \<Rightarrow> 'c EventT" where
  "Disconnect i e =
     (if i \<in> fst ` set (connections e)
      then e \<lparr> connections := disable i (connections e),
               connectionsToRemove := connectionsToRemove e @ [i] \<rparr>
      else e)"

fun erase_all :: "int list \<Rightarrow> (int \<times> 'a) list \<Rightarrow> (int \<times> 'a) list option" where
  "erase_all [] cs = Some cs"
| "erase_all (i # is) cs =
     (if i \<in> fst ` set cs then erase_all is (filter (\<lambda>(j, c). j \<noteq> i) cs) else None)"

definition Cleanup :: "'c EventT \<Rightarrow> 'c EventT option" where
  "Cleanup e =
     (case erase_all (connectionsToRemove e) (connections e) of
        None \<Rightarrow> None
      | Some cs \<Rightarrow> Some (e \<lparr> connections := cs, connectionsToRemove := [] \<rparr>))"

text \<open>The destructor of a \<open>Connection\<close> (its event is gone: \<^const>\<open>None\<close>) and of an \<open>EventT\<close>, which
  cuts the live handles its entries point to loose.\<close>

definition Connection_destroy :: "Connection \<Rightarrow> 'c EventT option \<Rightarrow> 'c EventT option" where
  "Connection_destroy c e =
     (if conn_event c \<and> conn_id c \<ge> 0 then map_option (Disconnect (conn_id c)) e else e)"

definition Connection_Id :: "Connection \<Rightarrow> int" where
  "Connection_Id c = conn_id c"

definition EventT_destroy :: "'c EventT \<Rightarrow> (nat \<rightharpoonup> Connection) \<Rightarrow> (nat \<rightharpoonup> Connection)" where
  "EventT_destroy e handles =
     fold (\<lambda>(i, c) hs. case hs (publicConnection c) of
                          None \<Rightarrow> hs
                        | Some h \<Rightarrow> hs(publicConnection c \<mapsto> h \<lparr> conn_event := False \<rparr>))
       (connections e) handles"

subsection \<open>Signalling\<close>

datatype 'c op = DoConnect 'c nat | DoDisconnect int

fun exec_op :: "'c op \<Rightarrow> 'c EventT \<Rightarrow> 'c EventT" where
  "exec_op (DoConnect f a) e = snd (Connect f a e)"
| "exec_op (DoDisconnect i) e = Disconnect i e"

definition next_entry :: "int \<Rightarrow> 'c EventT \<Rightarrow> (int \<times> 'c EventConnection) option" where
  "next_entry k e = find (\<lambda>(i, c). k < i) (connections e)"

text \<open>The loop behind the entry with key \<open>k\<close>; the log lists the subscribers called. Calling an
  empty function would throw: \<^const>\<open>None\<close>.\<close>

partial_function (option) signal_loop ::
    "('c \<Rightarrow> 'c op list) \<Rightarrow> int \<Rightarrow> 'c EventT \<Rightarrow> 'c list \<Rightarrow> ('c EventT \<times> 'c list) option" where
  "signal_loop beh k e log =
     (case next_entry k e of
        None \<Rightarrow> Some (e, log)
      | Some (i, c) \<Rightarrow>
          if on c then
            (case callback c of
               None \<Rightarrow> None
             | Some f \<Rightarrow> signal_loop beh i (fold exec_op (beh f) e) (log @ [f]))
          else signal_loop beh i e log)"

definition Signal :: "('c \<Rightarrow> 'c op list) \<Rightarrow> 'c EventT \<Rightarrow> ('c EventT \<times> 'c list) option" where
  "Signal beh e =
     (case Cleanup e of None \<Rightarrow> None | Some e1 \<Rightarrow> signal_loop beh (-1) (SetSignaled True e1) [])"

subsection \<open>Well-formed events\<close>

text \<open>Keys ascend from zero, an entry is on exactly when it has a callback, and the entries
  waiting to be removed are the ones that are off, each once.\<close>

definition event_wf :: "'c EventT \<Rightarrow> bool" where
  "event_wf e \<longleftrightarrow>
     sorted_wrt (<) (map fst (connections e)) \<and>
     (\<forall>(i, c) \<in> set (connections e). 0 \<le> i \<and> (on c \<longleftrightarrow> callback c \<noteq> None)) \<and>
     distinct (connectionsToRemove e) \<and>
     set (connectionsToRemove e) = {i. \<exists>c. (i, c) \<in> set (connections e) \<and> \<not> on c}"

lemma next_index_greater:
  "sorted_wrt (<) (map fst cs) \<Longrightarrow> (i, c) \<in> set cs \<Longrightarrow> i < next_index cs"
proof -
  assume s: "sorted_wrt (<) (map fst cs)" and m: "(i, c) \<in> set cs"
  then have ne: "cs \<noteq> []" by auto
  then obtain ds d where cs: "cs = ds @ [d]" by (cases cs rule: rev_cases) auto
  have "i \<le> fst d" using s m by (force simp: cs sorted_wrt_append)
  then show ?thesis by (simp add: next_index_def cs)
qed

lemma event_wf_new [wf_intro]: "event_wf EventT_new"
  by (simp add: event_wf_def EventT_new_def)

lemma next_index_nonneg: "\<forall>(i, c) \<in> set cs. 0 \<le> i \<Longrightarrow> 0 \<le> next_index cs"
  by (cases cs rule: rev_cases) (auto simp: next_index_def)

lemma event_wf_Connect [wf_intro]:
  assumes "event_wf e"
  shows "event_wf (snd (Connect f a e))"
proof -
  let ?n = "next_index (connections e)"
  from assms have s: "sorted_wrt (<) (map fst (connections e))"
    and p: "\<forall>(i, c) \<in> set (connections e). 0 \<le> i" by (auto simp: event_wf_def)
  have "\<forall>i \<in> fst ` set (connections e). i < ?n" using next_index_greater [OF s] by fastforce
  with assms next_index_nonneg [OF p] show ?thesis
    by (auto simp: event_wf_def Connect_def Let_def sorted_wrt_append)
qed

lemma fst_disable: "map fst (disable i cs) = map fst cs"
  by (induction cs) (auto simp: disable_def)

lemma mem_disable:
  "(j, c) \<in> set (disable i cs) \<longleftrightarrow>
     (if j = i then \<exists>d. (i, d) \<in> set cs \<and> c = d \<lparr> on := False, callback := None \<rparr>
      else (j, c) \<in> set cs)"
proof (induction cs)
  case (Cons x cs)
  then show ?case by (cases x) (auto simp: disable_def)
qed (simp add: disable_def)

lemma distinct_key:
  "sorted_wrt (<) (map fst cs) \<Longrightarrow> (i :: int, c) \<in> set cs \<Longrightarrow> (i, c') \<in> set cs \<Longrightarrow> c = c'"
  by (metis strict_sorted_iff map_of_eq_Some_iff option.inject)

lemma off_disable:
  assumes "i \<in> fst ` set cs"
  shows "(\<exists>c. (j, c) \<in> set (disable i cs) \<and> \<not> on c) \<longleftrightarrow> j = i \<or> (\<exists>c. (j, c) \<in> set cs \<and> \<not> on c)"
proof (cases "j = i")
  case True
  obtain d where d: "(i, d) \<in> set cs" using assms by auto
  let ?d = "d \<lparr> on := False, callback := None \<rparr>"
  have "(i, ?d) \<in> set (disable i cs)" using d by (auto simp: mem_disable)
  moreover have "\<not> on ?d" by simp
  ultimately show ?thesis using True by blast
next
  case False
  then show ?thesis by (simp add: mem_disable)
qed

text \<open>Disconnecting an entry that is on keeps the event well-formed; an entry that is already
  off gets removed twice.\<close>

lemma event_wf_Disconnect [wf_intro]:
  assumes wf: "event_wf e" and off: "i \<notin> set (connectionsToRemove e)"
  shows "event_wf (Disconnect i e)"
proof (cases "i \<in> fst ` set (connections e)")
  case True
  from wf have srt: "sorted_wrt (<) (map fst (connections e))" by (simp add: event_wf_def)
  have "{j. \<exists>c. (j, c) \<in> set (disable i (connections e)) \<and> \<not> on c} =
      insert i {j. \<exists>c. (j, c) \<in> set (connections e) \<and> \<not> on c}"
    unfolding off_disable [OF True] by blast
  moreover have "\<forall>(j, c) \<in> set (disable i (connections e)). 0 \<le> j \<and> (on c \<longleftrightarrow> callback c \<noteq> None)"
    using wf unfolding event_wf_def by (fastforce simp: mem_disable split: if_splits)
  ultimately show ?thesis
    using wf off True srt by (simp add: event_wf_def Disconnect_def fst_disable)
next
  case False
  with wf show ?thesis by (simp add: Disconnect_def)
qed

lemma erase_all_filter:
  "distinct is \<Longrightarrow> set is \<subseteq> fst ` set cs \<Longrightarrow> erase_all is cs = Some (filter (\<lambda>(j, c). j \<notin> set is) cs)"
proof (induction "is" arbitrary: cs)
  case (Cons i "is")
  then have "set is \<subseteq> fst ` set (filter (\<lambda>(j, c). j \<noteq> i) cs)" by force
  with Cons show ?case by (auto simp: filter_filter intro!: filter_cong)
qed simp

lemma Cleanup_wf:
  assumes "event_wf e"
  shows "Cleanup e = Some (e \<lparr> connections := filter (\<lambda>(j, c). on c) (connections e),
                               connectionsToRemove := [] \<rparr>)"
proof -
  from assms have srt: "sorted_wrt (<) (map fst (connections e))"
    and rm: "distinct (connectionsToRemove e)"
      "set (connectionsToRemove e) = {i. \<exists>c. (i, c) \<in> set (connections e) \<and> \<not> on c}"
    by (auto simp: event_wf_def)
  have "set (connectionsToRemove e) \<subseteq> fst ` set (connections e)" unfolding rm(2) by force
  from erase_all_filter [OF rm(1) this]
  have "erase_all (connectionsToRemove e) (connections e) =
      Some (filter (\<lambda>(j, c). j \<notin> set (connectionsToRemove e)) (connections e))" .
  also have "filter (\<lambda>(j, c). j \<notin> set (connectionsToRemove e)) (connections e) =
      filter (\<lambda>(j, c). on c) (connections e)"
    using distinct_key [OF srt] by (intro filter_cong) (auto simp: rm(2))
  finally show ?thesis by (simp add: Cleanup_def)
qed

lemma event_wf_Cleanup [wf_intro]:
  assumes "event_wf e" and "Cleanup e = Some e1"
  shows "event_wf e1"
proof -
  have "sorted_wrt (<) (map fst (filter P (connections e)))" for P
    using assms(1) by (simp add: event_wf_def sorted_wrt_map sorted_wrt_filter)
  with assms show ?thesis by (auto simp: Cleanup_wf event_wf_def)
qed

lemmas event_wf_facts = event_wf_new event_wf_Connect event_wf_Disconnect event_wf_Cleanup

subsection \<open>What a signal calls\<close>

text \<open>The subscribers that are on, in key order.\<close>

definition enabled :: "'c EventT \<Rightarrow> 'c list" where
  "enabled e = List.map_filter (\<lambda>(i, c). if on c then callback c else None) (connections e)"

lemma enabled_Cleanup:
  assumes "event_wf e" and "Cleanup e = Some e1"
  shows "enabled e1 = enabled e"
proof -
  have "List.map_filter (\<lambda>(i, c). if on c then callback c else None) (filter (\<lambda>(j, c). on c) cs) =
        List.map_filter (\<lambda>(i, c). if on c then callback c else None) cs"
    for cs :: "(int \<times> 'a EventConnection) list"
    by (induction cs) (auto simp: List.map_filter_def)
  with assms show ?thesis by (auto simp: Cleanup_wf enabled_def)
qed

text \<open>What the loop needs: ascending keys, and a callback behind every entry that is on.\<close>

definition callable :: "(int \<times> 'c EventConnection) list \<Rightarrow> bool" where
  "callable cs \<longleftrightarrow> sorted_wrt (<) (map fst cs) \<and> (\<forall>(i, c) \<in> set cs. on c \<longrightarrow> callback c \<noteq> None)"

abbreviation later :: "int \<Rightarrow> (int \<times> 'c EventConnection) list \<Rightarrow> (int \<times> 'c EventConnection) list" where
  "later k cs \<equiv> filter (\<lambda>(i, c). k < i) cs"

abbreviation subscribers :: "(int \<times> 'c EventConnection) list \<Rightarrow> 'c list" where
  "subscribers cs \<equiv> List.map_filter (\<lambda>(i, c). if on c then callback c else None) cs"

lemma next_entry_later: "next_entry k e = (case later k (connections e) of [] \<Rightarrow> None | x # xs \<Rightarrow> Some x)"
proof -
  have "find P xs = (case filter P xs of [] \<Rightarrow> None | y # ys \<Rightarrow> Some y)" for P and xs :: "'x list"
    by (induction xs) auto
  then show ?thesis by (simp add: next_entry_def)
qed

lemma later_step:
  assumes "sorted_wrt (<) (map fst cs)" and "later k cs = (i, c) # ds"
  shows "later i cs = ds"
  using assms
proof (induction cs)
  case (Cons x cs)
  show ?case
  proof (cases "k < fst x")
    case True
    with Cons.prems have x: "x = (i, c)" and ds: "ds = later k cs" and lt: "\<forall>y \<in> set cs. i < fst y"
      by (auto simp: case_prod_unfold)
    have "later k cs = cs" "later i cs = cs" using True lt x by (auto simp: filter_id_conv)
    with x ds show ?thesis by simp
  next
    case False
    with Cons have IH: "later i cs = ds" and k: "later k cs = (i, c) # ds" by (auto simp: case_prod_unfold)
    then have "(i, c) \<in> set (later k cs)" by simp
    then have "k < i" by auto
    with False IH show ?thesis by (simp add: case_prod_unfold)
  qed
qed simp

lemma later_disable: "later k (disable i cs) = disable i (later k cs)"
  by (induction cs) (auto simp: disable_def split: if_splits)

lemma subseq_subscribers_disable: "subseq (subscribers (disable i cs)) (subscribers cs)"
proof (induction cs)
  case (Cons x cs)
  then show ?case
    by (cases x) (auto simp: disable_def List.map_filter_simps split: option.splits)
qed (simp add: disable_def)

lemma callable_disable: "callable cs \<Longrightarrow> callable (disable i cs)"
  by (auto simp: callable_def fst_disable mem_disable split: if_splits)

text \<open>Subscribers that only disconnect: the entries stay, some are switched off.\<close>

definition only_disconnects :: "('c \<Rightarrow> 'c op list) \<Rightarrow> bool" where
  "only_disconnects beh \<longleftrightarrow> (\<forall>f. \<forall>x \<in> set (beh f). \<exists>i. x = DoDisconnect i)"

lemma fold_disconnects:
  assumes "\<forall>x \<in> set ops. \<exists>i. x = DoDisconnect i" and "callable (connections e)"
  shows "callable (connections (fold exec_op ops e)) \<and>
         length (later k (connections (fold exec_op ops e))) = length (later k (connections e)) \<and>
         subseq (subscribers (later k (connections (fold exec_op ops e))))
                (subscribers (later k (connections e)))"
  using assms
proof (induction ops arbitrary: e)
  case (Cons x ops)
  from Cons.prems obtain i where x: "x = DoDisconnect i" by auto
  let ?e = "Disconnect i e"
  have e: "connections ?e = connections e \<or> connections ?e = disable i (connections e)"
    by (simp add: Disconnect_def)
  then have c: "callable (connections ?e)"
    and l: "length (later k (connections ?e)) = length (later k (connections e))"
    and q: "subseq (subscribers (later k (connections ?e))) (subscribers (later k (connections e)))"
    using Cons.prems by (auto simp: callable_disable later_disable subseq_subscribers_disable)
      (simp_all add: disable_def)
  have "callable (connections (fold exec_op ops ?e)) \<and>
        length (later k (connections (fold exec_op ops ?e))) = length (later k (connections ?e)) \<and>
        subseq (subscribers (later k (connections (fold exec_op ops ?e)))) (subscribers (later k (connections ?e)))"
    using Cons.prems c by (intro Cons.IH) auto
  with l q show ?case by (auto simp: x intro: subseq_order.trans)
qed simp

lemma signal_loop_disconnects:
  assumes "only_disconnects beh" and "callable (connections e)"
  shows "\<exists>e' called. signal_loop beh k e log = Some (e', log @ called) \<and>
           subseq called (subscribers (later k (connections e)))"
  using assms(2)
proof (induction "length (later k (connections e))" arbitrary: k e log)
  case 0
  then have "later k (connections e) = []" by simp
  then show ?case by (simp add: signal_loop.simps next_entry_later)
next
  case (Suc n)
  then obtain i c ds where l: "later k (connections e) = (i, c) # ds"
    by (metis length_Suc_conv surj_pair)
  then have ds: "later i (connections e) = ds" using Suc.prems later_step by (auto simp: callable_def)
  have m: "(i, c) \<in> set (connections e)" 
    using arg_cong [OF l, of set] by auto
  show ?case
  proof (cases "on c")
    case True
    then obtain f where f: "callback c = Some f" using Suc.prems m by (auto simp: callable_def)
    let ?e = "fold exec_op (beh f) e"
    have d: "\<forall>x \<in> set (beh f). \<exists>i. x = DoDisconnect i" using assms(1) by (simp add: only_disconnects_def)
    note F = fold_disconnects [OF d Suc.prems, of i]
    have "n = length (later i (connections ?e))" using F Suc.hyps(2) l ds by simp
    from Suc.hyps(1) [OF this, of "log @ [f]"] F obtain e' called
      where "signal_loop beh i ?e (log @ [f]) = Some (e', (log @ [f]) @ called)"
        and q: "subseq called (subscribers (later i (connections ?e)))" by auto
    moreover have "subseq called (subscribers ds)" using q F ds by (auto intro: subseq_order.trans)
    ultimately show ?thesis using True f
      by (intro exI [of _ e'] exI [of _ "f # called"])
        (simp add: signal_loop.simps [of beh k] next_entry_later l List.map_filter_simps)
  next
    case False
    have "n = length (later i (connections e))" using Suc.hyps(2) l ds by simp
    from Suc.hyps(1) [OF this Suc.prems, of log] False ds show ?thesis
      by (auto simp: signal_loop.simps [of beh k] next_entry_later l List.map_filter_simps)
  qed
qed

lemma signal_loop_silent:
  assumes "callable (connections e)"
  shows "signal_loop (\<lambda>_. []) k e log = Some (e, log @ subscribers (later k (connections e)))"
proof (induction "length (later k (connections e))" arbitrary: k log)
  case 0
  then have "later k (connections e) = []" by simp
  then show ?case by (simp add: signal_loop.simps next_entry_later List.map_filter_simps)
next
  case (Suc n)
  then obtain i c ds where l: "later k (connections e) = (i, c) # ds"
    by (metis length_Suc_conv surj_pair)
  then have ds: "later i (connections e) = ds" using assms later_step by (auto simp: callable_def)
  have "(i, c) \<in> set (connections e)" using arg_cong [OF l, of set] by auto
  then have cb: "on c \<Longrightarrow> \<exists>f. callback c = Some f" using assms by (auto simp: callable_def)
  have "n = length (later i (connections e))" using Suc.hyps(2) l ds by simp
  from Suc.hyps(1) [OF this] show ?case using cb ds
    by (auto simp: signal_loop.simps [of _ k] next_entry_later l List.map_filter_simps)
qed

lemma later_all: "event_wf e \<Longrightarrow> later (- 1) (connections e) = connections e"
  by (force simp: event_wf_def filter_id_conv)

lemma event_wf_callable: "event_wf e \<Longrightarrow> callable (connections e)"
  by (auto simp: event_wf_def callable_def)

text \<open>
  C37. For an event whose two lists fit together (\<open>event_wf\<close>) and subscribers that do not touch the event while
  they are called, \<open>Signal\<close> returns and calls every subscriber that is on, once and in the order they connected;
  the disconnected entries are gone.
\<close>

theorem Signal_calls_enabled:
  assumes "event_wf e"
  shows "\<exists>e'. Signal (\<lambda>_. []) e = Some (e', enabled e) \<and> Signaled e' \<and> event_wf e' \<and>
              connections e' = filter (\<lambda>(i, c). on c) (connections e) \<and> connectionsToRemove e' = []"
proof -
  obtain e1 where e1: "Cleanup e = Some e1" using assms by (simp add: Cleanup_wf)
  let ?e = "SetSignaled True e1"
  have wf: "event_wf ?e" using event_wf_Cleanup [OF assms e1] by (simp add: event_wf_def SetSignaled_def)
  have "enabled e = subscribers (connections ?e)"
    using enabled_Cleanup [OF assms e1] by (simp add: enabled_def SetSignaled_def)
  then have "Signal (\<lambda>_. []) e = Some (?e, enabled e)"
    using signal_loop_silent [OF event_wf_callable [OF wf], of "- 1" "[]"]
    by (simp add: Signal_def e1 later_all [OF wf])
  with wf e1 assms show ?thesis
    by (intro exI [of _ ?e]) (auto simp: Signaled_def SetSignaled_def Cleanup_wf)
qed

abbreviation event2 :: "char EventT" where
  "event2 \<equiv> snd (Connect (CHR ''b'') 2 (snd (Connect (CHR ''a'') 1 EventT_new)))"

lemma event_wf_event2: "event_wf event2"
  by (intro event_wf_facts)

theorem Signal_calls_enabled_witness:
  "\<exists>e'. Signal (\<lambda>_. []) event2 = Some (e', ''ab'')"
proof -
  have "enabled event2 = ''ab''"
    by (simp add: enabled_def Connect_def EventT_new_def next_index_def Let_def List.map_filter_simps)
  then show ?thesis using Signal_calls_enabled [OF event_wf_event2] by auto
qed

text \<open>
  Subscribers that disconnect themselves or others while they are called: \<open>Signal\<close> still
  returns, and it calls some of the subscribers that were on, each once and in order.\<close>

theorem Signal_while_disconnecting:
  assumes "event_wf e" and "only_disconnects beh"
  shows "\<exists>e' called. Signal beh e = Some (e', called) \<and> subseq called (enabled e)"
proof -
  obtain e1 where e1: "Cleanup e = Some e1" using assms by (simp add: Cleanup_wf)
  let ?e = "SetSignaled True e1"
  have wf: "event_wf ?e"
    using event_wf_Cleanup [OF assms(1) e1] by (simp add: event_wf_def SetSignaled_def)
  have "enabled e = subscribers (connections ?e)"
    using enabled_Cleanup [OF assms(1) e1] by (simp add: enabled_def SetSignaled_def)
  then show ?thesis
    using signal_loop_disconnects [OF assms(2) event_wf_callable [OF wf], of "- 1" "[]"]
    by (simp add: Signal_def e1 later_all [OF wf])
qed

subsection \<open>Keys are handed out again\<close>

text \<open>
  A subscriber that is disconnected by its key and cleaned up frees its key for the next
  one. The handle of the old subscriber still carries the key, so destroying the old handle
  switches the new subscriber off.\<close>

theorem Connection_destroy_hits_successor:
  assumes wf: "event_wf e" and "connectionsToRemove e = []"
    and f: "Connect f a e = (h, e1)"
    and "Cleanup (Disconnect (Connection_Id h) e1) = Some e2"
    and g: "Connect g b e2 = (h', e3)"
  shows "Connection_Id h' = Connection_Id h \<and> enabled e3 = enabled e @ [g] \<and>
         (\<exists>e4. Connection_destroy h (Some e3) = Some e4 \<and> enabled e4 = enabled e)"
proof -
  define n where "n = next_index (connections e)"
  define en where "en = (\<lambda>(c :: 'a) h. (n, \<lparr> on = True, callback = Some c, publicConnection = h \<rparr>))"
  have srt: "sorted_wrt (<) (map fst (connections e))" using wf by (simp add: event_wf_def)
  have lt: "(i, c) \<in> set (connections e) \<Longrightarrow> i < n" for i c
    using next_index_greater [OF srt] by (simp add: n_def)
  then have new: "n \<notin> fst ` set (connections e)" by force
  have ons: "\<forall>(i, c) \<in> set (connections e). on c"
    using wf assms(2) by (auto simp: event_wf_def)
  have n0: "0 \<le> n" unfolding n_def
    by (rule next_index_nonneg) (use wf in \<open>auto simp: event_wf_def\<close>)
  have same: "disable n (connections e) = connections e"
    using new unfolding disable_def by (intro map_idI) force
  have h: "h = \<lparr> conn_event = True, conn_id = n \<rparr>"
    and e1: "e1 = e \<lparr> connections := connections e @ [en f a] \<rparr>"
    using f by (auto simp: Connect_def Let_def n_def en_def)
  have "filter (\<lambda>(j, c). j \<noteq> n) (connections e) = connections e"
    using lt by (force simp: filter_id_conv)
  then have e2: "e2 = e"
    using assms(2,4) same
    by (auto simp: h e1 Connection_Id_def Disconnect_def Cleanup_def en_def disable_def)
  have h': "h' = \<lparr> conn_event = True, conn_id = n \<rparr>"
    and e3: "e3 = e \<lparr> connections := connections e @ [en g b] \<rparr>"
    using g by (auto simp: e2 Connect_def Let_def n_def en_def)
  have app: "subscribers (xs @ ys) = subscribers xs @ subscribers ys"
    for xs ys :: "(int \<times> 'a EventConnection) list" by (simp add: List.map_filter_def)
  have "enabled (Disconnect n e3) = enabled e"
    using same by (simp add: enabled_def Disconnect_def e3 en_def disable_def app List.map_filter_simps)
  then show ?thesis using n0
    by (simp add: h h' Connection_Id_def Connection_destroy_def)
      (simp add: e3 enabled_def en_def app List.map_filter_simps)
qed

text \<open>
  \<open>Disconnect\<close> queues the entry again when it is called twice for one key, as a call by the
  user followed by the destructor of the handle does; the next \<open>Signal\<close> erases the entry twice,
  which is undefined.\<close>

theorem Disconnect_twice_undefined:
  assumes "event_wf e" and "i \<in> fst ` set (connections e)"
  shows "Signal beh (Disconnect i (Disconnect i e)) = None"
proof -
  have fst: "fst ` set (disable i cs) = fst ` set cs" for cs :: "(int \<times> 'a EventConnection) list"
    by (simp flip: set_map add: fst_disable)
  let ?D = "Disconnect i (Disconnect i e)"
  have rm: "connectionsToRemove ?D = connectionsToRemove e @ [i, i]"
    using assms(2) by (simp add: Disconnect_def fst)
  have twice: "erase_all (is @ [i, i]) cs = None" for "is" and cs :: "(int \<times> 'a EventConnection) list"
    by (induction "is" arbitrary: cs) auto
  show ?thesis unfolding Signal_def Cleanup_def rm twice by simp
qed

end
