(* ===== verification/Gz_Math.thy ===== *)
theory Gz_Math
  imports Complex_Main
begin

section \<open>The parameters that stand for gz-math\<close>

text \<open>
  The vector, matrix and quaternion classes are another library. A \<open>Vector3d\<close> or \<open>Vector2d\<close> is
  its coordinates, matrices and quaternions are types of their own, and the operations the code
  calls on them are the fields of a record the definitions take as a parameter. \<open>SetTranslation\<close>
  and the other updates return the changed matrix.
\<close>

record Vector3d =
  vX :: real
  vY :: real
  vZ :: real

type_synonym Vector2d = "real \<times> real"

record gz_math =
  equal_d :: "real \<Rightarrow> real \<Rightarrow> bool"
  Equal_v :: "Vector3d \<Rightarrow> Vector3d \<Rightarrow> bool"
  eq_v :: "Vector3d \<Rightarrow> Vector3d \<Rightarrow> bool"
  Normal_v :: "Vector3d \<Rightarrow> Vector3d \<Rightarrow> Vector3d \<Rightarrow> Vector3d"
  Normalize_v :: "Vector3d \<Rightarrow> Vector3d"
  Cross_v :: "Vector3d \<Rightarrow> Vector3d \<Rightarrow> Vector3d"
  Dot_v :: "Vector3d \<Rightarrow> Vector3d \<Rightarrow> real"
  plus_v :: "Vector3d \<Rightarrow> Vector3d \<Rightarrow> Vector3d"
  minus_v :: "Vector3d \<Rightarrow> Vector3d \<Rightarrow> Vector3d"
  mult_v :: "Vector3d \<Rightarrow> Vector3d \<Rightarrow> Vector3d"
  scale_v :: "Vector3d \<Rightarrow> real \<Rightarrow> Vector3d"
  div_v :: "Vector3d \<Rightarrow> real \<Rightarrow> Vector3d"
  Zero_v :: Vector3d
  default_v :: Vector3d
  Zero_2 :: Vector2d
  MAX_F :: real

record ('m, 'q) gz_mat =
  mul_m :: "'m \<Rightarrow> 'm \<Rightarrow> 'm"
  Inverse_m :: "'m \<Rightarrow> 'm"
  elem_m :: "'m \<Rightarrow> nat \<Rightarrow> nat \<Rightarrow> real"
  Set_m :: "real list \<Rightarrow> 'm \<Rightarrow> 'm"
  Translation_m :: "'m \<Rightarrow> Vector3d"
  SetTranslation_m :: "Vector3d \<Rightarrow> 'm \<Rightarrow> 'm"
  SetAxisAngle_m :: "Vector3d \<Rightarrow> real \<Rightarrow> 'm \<Rightarrow> 'm"
  SetScale_m :: "Vector3d \<Rightarrow> 'm \<Rightarrow> 'm"
  Rotation_m :: "'m \<Rightarrow> 'q"
  of_quaternion :: "'q \<Rightarrow> 'm"
  Slerp_q :: "real \<Rightarrow> 'q \<Rightarrow> 'q \<Rightarrow> 'q"
  Identity_m :: 'm
  Zero_m :: 'm
  default_m :: 'm
  equal_m :: "'m \<Rightarrow> 'm \<Rightarrow> bool"
  near_d :: "real \<Rightarrow> real \<Rightarrow> bool"

text \<open>\<open>pos * s\<close> of a vector and a number, coordinate by coordinate.\<close>

definition scale3 :: "real \<Rightarrow> Vector3d \<Rightarrow> Vector3d" where
  "scale3 r v = \<lparr> vX = vX v * r, vY = vY v * r, vZ = vZ v * r \<rparr>"

definition add3 :: "Vector3d \<Rightarrow> Vector3d \<Rightarrow> Vector3d" where
  "add3 v w = \<lparr> vX = vX v + vX w, vY = vY v + vY w, vZ = vZ v + vZ w \<rparr>"

text \<open>A concrete instance: matrices that only translate, without rotations.\<close>

definition translation_mats :: "(Vector3d, unit) gz_mat" where
  "translation_mats =
     \<lparr> mul_m = add3, Inverse_m = scale3 (- 1), elem_m = \<lambda>m i j. if i = j then 1 else 0,
       Set_m = \<lambda>xs m. m, Translation_m = id, SetTranslation_m = \<lambda>v m. v,
       SetAxisAngle_m = \<lambda>v a m. m, SetScale_m = \<lambda>v m. m, Rotation_m = \<lambda>m. (),
       of_quaternion = \<lambda>q. \<lparr> vX = 0, vY = 0, vZ = 0 \<rparr>, Slerp_q = \<lambda>t p q. (),
       Identity_m = \<lparr> vX = 0, vY = 0, vZ = 0 \<rparr>, Zero_m = \<lparr> vX = 0, vY = 0, vZ = 0 \<rparr>,
       default_m = \<lparr> vX = 0, vY = 0, vZ = 0 \<rparr>, equal_m = (=),
       near_d = \<lambda>x y. \<bar>x - y\<bar> \<le> 1 / 1000000 \<rparr>"

end
