(* ===== verification/Std_Map.thy ===== *)
theory Std_Map
  imports Cpp_Prelude
begin

section \<open>Ordered maps and checked vector access\<close>

text \<open>
  \<open>std::map\<close> as the list of its entries in key order, so that iteration, \<open>begin()\<close> and iterators
  have their meaning, and \<open>std::vector\<close> access whose out-of-range case is \<^const>\<open>None\<close>.
\<close>

type_synonym ('k, 'v) omap = "('k \<times> 'v) list"

abbreviation mkeys :: "('k, 'v) omap \<Rightarrow> 'k list" where
  "mkeys m \<equiv> map fst m"

abbreviation ordered :: "('k :: linorder, 'v) omap \<Rightarrow> bool" where
  "ordered m \<equiv> sorted_wrt (<) (mkeys m)"

text \<open>\<open>m[k] = v\<close>, and the value \<open>m[k]\<close> creates for a new key, here an empty vector.\<close>

fun mput :: "'k :: linorder \<Rightarrow> 'v \<Rightarrow> ('k, 'v) omap \<Rightarrow> ('k, 'v) omap" where
  "mput k v [] = [(k, v)]"
| "mput k v ((j, w) # m) =
     (if k < j then (k, v) # (j, w) # m
      else if k = j then (k, v) # m
      else (j, w) # mput k v m)"

definition mvec :: "('k, 'v list) omap \<Rightarrow> 'k \<Rightarrow> 'v list" where
  "mvec m k = (case map_of m k of None \<Rightarrow> [] | Some vs \<Rightarrow> vs)"

definition mpush :: "'k :: linorder \<Rightarrow> 'v \<Rightarrow> ('k, 'v list) omap \<Rightarrow> ('k, 'v list) omap" where
  "mpush k v m = mput k (mvec m k @ [v]) m"

text \<open>Checked element access of a vector.\<close>

definition elem_at :: "'a list \<Rightarrow> nat \<Rightarrow> 'a option" where
  "elem_at xs i = (if i < length xs then Some (xs ! i) else None)"

lemma map_of_mput [simp]: "map_of (mput k v m) = (map_of m)(k \<mapsto> v)"
  by (induction m) (auto simp: fun_eq_iff)

lemma mvec_mpush [simp]: "mvec (mpush k v m) j = (if j = k then mvec m k @ [v] else mvec m j)"
  by (simp add: mvec_def mpush_def)

lemma fst_set_mput [simp]: "fst ` set (mput k v m) = insert k (fst ` set m)"
  by (simp flip: dom_map_of_conv_image_fst)

lemma set_mkeys_mput: "set (mkeys (mput k v m)) = insert k (set (mkeys m))"
  by simp

lemma ordered_Cons: "ordered ((j, w) # m) \<longleftrightarrow> (\<forall>k \<in> fst ` set m. j < k) \<and> ordered m"
  by auto

lemma ordered_mput [wf_intro]: "ordered m \<Longrightarrow> ordered (mput k v m)"
proof (induction m)
  case (Cons x m)
  obtain j w where x: "x = (j, w)" by fastforce
  consider "k < j" | "k = j" | "j < k" by (rule linorder_cases)
  then show ?case
  proof cases
    case 3
    then have "mput k v (x # m) = (j, w) # mput k v m" by (auto simp: x)
    moreover have "ordered (mput k v m)" "\<forall>i \<in> fst ` set (mput k v m). j < i"
      using Cons 3 by (simp_all add: x)
    ultimately show ?thesis by (simp add: ordered_Cons)
  qed (use Cons.prems in \<open>force simp: x\<close>)+
qed simp

lemma ordered_mpush [wf_intro]: "ordered m \<Longrightarrow> ordered (mpush k v m)"
  by (simp add: mpush_def ordered_mput)

lemma fst_set_mpush [simp]: "fst ` set (mpush k v m) = insert k (fst ` set m)"
  by (simp add: mpush_def)

lemma ordered_distinct: "ordered m \<Longrightarrow> distinct (mkeys m)"
  by (simp add: strict_sorted_iff)

lemma ordered_hd: "ordered m \<Longrightarrow> m \<noteq> [] \<Longrightarrow> k \<in> set (mkeys m) \<Longrightarrow> fst (hd m) \<le> k"
  by (cases m) auto

lemma mvec_entry: "ordered m \<Longrightarrow> (k, vs) \<in> set m \<Longrightarrow> mvec m k = vs"
  by (simp add: mvec_def ordered_distinct)

lemma elem_at_in [simp]: "i < length xs \<Longrightarrow> elem_at xs i = Some (xs ! i)"
  by (simp add: elem_at_def)

lemma elem_at_None_iff [simp]: "elem_at xs i = None \<longleftrightarrow> length xs \<le> i"
  by (auto simp: elem_at_def)

lemma mput_mid:
  "\<forall>x \<in> set pre. fst x < k \<Longrightarrow> mput k v (pre @ (k, w) # post) = pre @ (k, v) # post"
  by (induction pre) auto

lemma mput_end: "\<forall>x \<in> set m. fst x < k \<Longrightarrow> mput k v m = m @ [(k, v)]"
  by (induction m) auto

end
