(* ===== verification/Sub_Mesh.thy ===== *)
theory Sub_Mesh
  imports Gz_Math Std_Map "HOL-Library.Word" "HOL-Library.Multiset" "HOL-Library.Monad_Syntax"
begin

section \<open>SubMesh: vertices, normals, texture coordinates and indices\<close>

text \<open>
  Class \<open>SubMesh\<close> of \<^verbatim>\<open>graphics/src/SubMesh.cc\<close>. A \<open>double\<close> is a real number (no rounding, no
  NaN), an \<open>unsigned int\<close> a 32-bit word, and an element access out of range is \<^const>\<open>None\<close>. The
  vector class of gz-math is not part of the sources: the operations the code calls on it are the
  fields of the parameter \<open>M\<close>. Error
  messages are dropped; the value returned beside them is kept. Loop counters of type
  \<open>unsigned int\<close> are natural numbers: the index vector is taken to hold fewer than \<open>2^32 - 3\<close>
  elements.
\<close>

datatype PrimitiveType = POINTS | LINES | LINESTRIPS | TRIANGLES | TRIFANS | TRISTRIPS

record NodeAssignment =
  vertexIndex :: "32 word"
  nodeIndex :: "32 word"
  weight :: real

definition NodeAssignment_new :: NodeAssignment where
  "NodeAssignment_new = \<lparr> vertexIndex = 0, nodeIndex = 0, weight = 0 \<rparr>"

record SubMesh =
  vertices :: "Vector3d list"
  normals :: "Vector3d list"
  texCoords :: "(32 word, Vector2d list) omap"
  indices :: "32 word list"
  nodeAssignments :: "NodeAssignment list"
  primitiveType :: PrimitiveType
  materialIndex :: "32 word option"
  name :: string

definition SubMesh_new :: "string \<Rightarrow> SubMesh" where
  "SubMesh_new n =
     \<lparr> vertices = [], normals = [], texCoords = [], indices = [], nodeAssignments = [],
       primitiveType = TRIANGLES, materialIndex = None, name = n \<rparr>"

definition SubMesh_default :: SubMesh where
  "SubMesh_default = SubMesh_new []"

subsection \<open>Adding and changing elements\<close>

definition SetPrimitiveType :: "PrimitiveType \<Rightarrow> SubMesh \<Rightarrow> SubMesh" where
  "SetPrimitiveType t s = s \<lparr> primitiveType := t \<rparr>"

definition SubMeshPrimitiveType :: "SubMesh \<Rightarrow> PrimitiveType" where
  "SubMeshPrimitiveType s = primitiveType s"

definition AddIndex :: "32 word \<Rightarrow> SubMesh \<Rightarrow> SubMesh" where
  "AddIndex i s = s \<lparr> indices := indices s @ [i] \<rparr>"

definition AddVertex :: "Vector3d \<Rightarrow> SubMesh \<Rightarrow> SubMesh" where
  "AddVertex v s = s \<lparr> vertices := vertices s @ [v] \<rparr>"

definition AddVertex_xyz :: "real \<Rightarrow> real \<Rightarrow> real \<Rightarrow> SubMesh \<Rightarrow> SubMesh" where
  "AddVertex_xyz x y z s = AddVertex \<lparr> vX = x, vY = y, vZ = z \<rparr> s"

definition AddNormal :: "Vector3d \<Rightarrow> SubMesh \<Rightarrow> SubMesh" where
  "AddNormal n s = s \<lparr> normals := normals s @ [n] \<rparr>"

definition AddNormal_xyz :: "real \<Rightarrow> real \<Rightarrow> real \<Rightarrow> SubMesh \<Rightarrow> SubMesh" where
  "AddNormal_xyz x y z s = AddNormal \<lparr> vX = x, vY = y, vZ = z \<rparr> s"

definition AddTexCoordBySet :: "real \<Rightarrow> real \<Rightarrow> 32 word \<Rightarrow> SubMesh \<Rightarrow> SubMesh" where
  "AddTexCoordBySet u v k s = s \<lparr> texCoords := mpush k (u, v) (texCoords s) \<rparr>"

definition firstSet :: "SubMesh \<Rightarrow> 32 word" where
  "firstSet s = (if texCoords s \<noteq> [] then fst (hd (texCoords s)) else 0)"

definition AddTexCoord :: "real \<Rightarrow> real \<Rightarrow> SubMesh \<Rightarrow> SubMesh" where
  "AddTexCoord u v s = AddTexCoordBySet u v (firstSet s) s"

definition AddTexCoord_uv :: "Vector2d \<Rightarrow> SubMesh \<Rightarrow> SubMesh" where
  "AddTexCoord_uv uv s = AddTexCoord (fst uv) (snd uv) s"

definition AddTexCoordBySet_uv :: "Vector2d \<Rightarrow> 32 word \<Rightarrow> SubMesh \<Rightarrow> SubMesh" where
  "AddTexCoordBySet_uv uv k s = AddTexCoordBySet (fst uv) (snd uv) k s"

definition AddNodeAssignment :: "32 word \<Rightarrow> 32 word \<Rightarrow> real \<Rightarrow> SubMesh \<Rightarrow> SubMesh" where
  "AddNodeAssignment v n w s =
     s \<lparr> nodeAssignments := nodeAssignments s @
           [NodeAssignment_new \<lparr> vertexIndex := v, nodeIndex := n, weight := w \<rparr>] \<rparr>"

definition SetVertex :: "32 word \<Rightarrow> Vector3d \<Rightarrow> SubMesh \<Rightarrow> SubMesh" where
  "SetVertex i v s =
     (if unat i \<ge> length (vertices s) then s else s \<lparr> vertices := (vertices s)[unat i := v] \<rparr>)"

definition SetNormal :: "32 word \<Rightarrow> Vector3d \<Rightarrow> SubMesh \<Rightarrow> SubMesh" where
  "SetNormal i n s =
     (if unat i \<ge> length (normals s) then s else s \<lparr> normals := (normals s)[unat i := n] \<rparr>)"

definition SetTexCoordBySet :: "32 word \<Rightarrow> Vector2d \<Rightarrow> 32 word \<Rightarrow> SubMesh \<Rightarrow> SubMesh" where
  "SetTexCoordBySet i t k s =
     (case map_of (texCoords s) k of
        None \<Rightarrow> s
      | Some ts \<Rightarrow>
          if unat i \<ge> length ts then s
          else s \<lparr> texCoords := mput k (ts[unat i := t]) (texCoords s) \<rparr>)"

definition SetTexCoord :: "32 word \<Rightarrow> Vector2d \<Rightarrow> SubMesh \<Rightarrow> SubMesh" where
  "SetTexCoord i t s = SetTexCoordBySet i t (firstSet s) s"

definition SetIndex :: "32 word \<Rightarrow> 32 word \<Rightarrow> SubMesh \<Rightarrow> SubMesh" where
  "SetIndex i j s =
     (if unat i \<ge> length (indices s) then s else s \<lparr> indices := (indices s)[unat i := j] \<rparr>)"

definition SetMaterialIndex :: "32 word \<Rightarrow> SubMesh \<Rightarrow> SubMesh" where
  "SetMaterialIndex i s = s \<lparr> materialIndex := Some i \<rparr>"

definition GetMaterialIndex :: "SubMesh \<Rightarrow> 32 word option" where
  "GetMaterialIndex s = materialIndex s"

definition SetName :: "string \<Rightarrow> SubMesh \<Rightarrow> SubMesh" where
  "SetName n s = s \<lparr> name := n \<rparr>"

definition Name :: "SubMesh \<Rightarrow> string" where
  "Name s = name s"

subsection \<open>Reading elements\<close>

definition Vertex :: "gz_math \<Rightarrow> 32 word \<Rightarrow> SubMesh \<Rightarrow> Vector3d" where
  "Vertex M i s = (if unat i \<ge> length (vertices s) then Zero_v M else vertices s ! unat i)"

definition HasVertex :: "32 word \<Rightarrow> SubMesh \<Rightarrow> bool" where
  "HasVertex i s \<longleftrightarrow> unat i < length (vertices s)"

definition Normal :: "gz_math \<Rightarrow> 32 word \<Rightarrow> SubMesh \<Rightarrow> Vector3d" where
  "Normal M i s = (if unat i \<ge> length (normals s) then Zero_v M else normals s ! unat i)"

definition HasNormal :: "32 word \<Rightarrow> SubMesh \<Rightarrow> bool" where
  "HasNormal i s \<longleftrightarrow> unat i < length (normals s)"

definition HasTexCoordBySet :: "32 word \<Rightarrow> 32 word \<Rightarrow> SubMesh \<Rightarrow> bool" where
  "HasTexCoordBySet i k s \<longleftrightarrow>
     (case map_of (texCoords s) k of None \<Rightarrow> False | Some ts \<Rightarrow> unat i < length ts)"

definition HasTexCoord :: "32 word \<Rightarrow> SubMesh \<Rightarrow> bool" where
  "HasTexCoord i s \<longleftrightarrow>
     (if texCoords s = [] then False else HasTexCoordBySet i (fst (hd (texCoords s))) s)"

definition HasNodeAssignment :: "32 word \<Rightarrow> SubMesh \<Rightarrow> bool" where
  "HasNodeAssignment i s \<longleftrightarrow> unat i < length (nodeAssignments s)"

definition TexCoordBySet :: "gz_math \<Rightarrow> 32 word \<Rightarrow> 32 word \<Rightarrow> SubMesh \<Rightarrow> Vector2d" where
  "TexCoordBySet M i k s =
     (case map_of (texCoords s) k of
        None \<Rightarrow> Zero_2 M
      | Some ts \<Rightarrow> if unat i \<ge> length ts then Zero_2 M else ts ! unat i)"

definition TexCoord :: "gz_math \<Rightarrow> 32 word \<Rightarrow> SubMesh \<Rightarrow> Vector2d" where
  "TexCoord M i s =
     (if texCoords s = [] then Zero_2 M else TexCoordBySet M i (fst (hd (texCoords s))) s)"

text \<open>\<open>Index\<close> converts the \<open>unsigned int\<close> to \<open>int\<close>, so a large index reads as a negative one.\<close>

definition Index :: "32 word \<Rightarrow> SubMesh \<Rightarrow> int" where
  "Index i s = (if unat i \<ge> length (indices s) then - 1 else sint (indices s ! unat i))"

definition NodeAssignmentByIndex :: "32 word \<Rightarrow> SubMesh \<Rightarrow> NodeAssignment" where
  "NodeAssignmentByIndex i s =
     (if unat i \<ge> length (nodeAssignments s) then NodeAssignment_new
      else nodeAssignments s ! unat i)"

definition VertexCount :: "SubMesh \<Rightarrow> 32 word" where
  "VertexCount s = word_of_nat (length (vertices s))"

definition NormalCount :: "SubMesh \<Rightarrow> 32 word" where
  "NormalCount s = word_of_nat (length (normals s))"

definition IndexCount :: "SubMesh \<Rightarrow> 32 word" where
  "IndexCount s = word_of_nat (length (indices s))"

definition TexCoordCountBySet :: "32 word \<Rightarrow> SubMesh \<Rightarrow> 32 word" where
  "TexCoordCountBySet k s =
     (case map_of (texCoords s) k of None \<Rightarrow> 0 | Some ts \<Rightarrow> word_of_nat (length ts))"

definition TexCoordCount :: "SubMesh \<Rightarrow> 32 word" where
  "TexCoordCount s =
     (if texCoords s = [] then 0 else TexCoordCountBySet (fst (hd (texCoords s))) s)"

definition TexCoordSetCount :: "SubMesh \<Rightarrow> 32 word" where
  "TexCoordSetCount s = word_of_nat (length (texCoords s))"

definition NodeAssignmentsCount :: "SubMesh \<Rightarrow> 32 word" where
  "NodeAssignmentsCount s = word_of_nat (length (nodeAssignments s))"

definition MaxIndex :: "SubMesh \<Rightarrow> 32 word" where
  "MaxIndex s = (case indices s of [] \<Rightarrow> 0 | i # is \<Rightarrow> fold max is i)"

definition HasVertex_v :: "gz_math \<Rightarrow> Vector3d \<Rightarrow> SubMesh \<Rightarrow> bool" where
  "HasVertex_v M v s \<longleftrightarrow> (\<exists>w \<in> set (vertices s). Equal_v M v w)"

definition IndexOfVertex :: "gz_math \<Rightarrow> Vector3d \<Rightarrow> SubMesh \<Rightarrow> int" where
  "IndexOfVertex M v s =
     (case find_index (Equal_v M v) (vertices s) of None \<Rightarrow> - 1 | Some i \<Rightarrow> sint (word_of_nat i :: 32 word))"

definition HasValidIndices :: "SubMesh \<Rightarrow> bool" where
  "HasValidIndices s \<longleftrightarrow>
     indices s \<noteq> [] \<and> list_all (\<lambda>i. unat i < length (vertices s)) (indices s)"

text \<open>\<open>FillArrays\<close> casts every coordinate to \<open>float\<close>, a rounding the model takes as the parameter
  \<open>to_float\<close>; \<^const>\<open>None\<close> leaves the two arrays as they are.\<close>

definition FillArrays :: "(real \<Rightarrow> real) \<Rightarrow> SubMesh \<Rightarrow> (real list \<times> int list) option" where
  "FillArrays to_float s =
     (if vertices s = [] \<or> indices s = [] then None
      else Some (concat (map (\<lambda>v. [to_float (vX v), to_float (vY v), to_float (vZ v)]) (vertices s)),
                 map sint (indices s)))"

subsection \<open>Bounding box and transformations\<close>

definition max3 :: "Vector3d \<Rightarrow> Vector3d \<Rightarrow> Vector3d" where
  "max3 m v = \<lparr> vX = max (vX m) (vX v), vY = max (vY m) (vY v), vZ = max (vZ m) (vZ v) \<rparr>"

definition min3 :: "Vector3d \<Rightarrow> Vector3d \<Rightarrow> Vector3d" where
  "min3 m v = \<lparr> vX = min (vX m) (vX v), vY = min (vY m) (vY v), vZ = min (vZ m) (vZ v) \<rparr>"

definition Max_v :: "gz_math \<Rightarrow> SubMesh \<Rightarrow> Vector3d" where
  "Max_v M s =
     (if vertices s = [] then Zero_v M
      else foldl max3 \<lparr> vX = - MAX_F M, vY = - MAX_F M, vZ = - MAX_F M \<rparr> (vertices s))"

definition Min_v :: "gz_math \<Rightarrow> SubMesh \<Rightarrow> Vector3d" where
  "Min_v M s =
     (if vertices s = [] then Zero_v M
      else foldl min3 \<lparr> vX = MAX_F M, vY = MAX_F M, vZ = MAX_F M \<rparr> (vertices s))"

definition Scale_v :: "gz_math \<Rightarrow> Vector3d \<Rightarrow> SubMesh \<Rightarrow> SubMesh" where
  "Scale_v M f s = s \<lparr> vertices := map (\<lambda>v. mult_v M v f) (vertices s) \<rparr>"

definition Scale :: "gz_math \<Rightarrow> real \<Rightarrow> SubMesh \<Rightarrow> SubMesh" where
  "Scale M f s = s \<lparr> vertices := map (\<lambda>v. scale_v M v f) (vertices s) \<rparr>"

definition Translate :: "gz_math \<Rightarrow> Vector3d \<Rightarrow> SubMesh \<Rightarrow> SubMesh" where
  "Translate M d s = s \<lparr> vertices := map (\<lambda>v. plus_v M v d) (vertices s) \<rparr>"

definition Center :: "gz_math \<Rightarrow> Vector3d \<Rightarrow> SubMesh \<Rightarrow> SubMesh" where
  "Center M c s =
     (let min = Min_v M s; max = Max_v M s; half = scale_v M (minus_v M max min) (1 / 2)
      in Translate M (minus_v M c (plus_v M min half)) s)"

definition sphere_uv :: "Vector3d \<Rightarrow> Vector3d \<Rightarrow> Vector2d" where
  "sphere_uv c v =
     (let x = vX v - vX c; y = vY v - vY c; z = vZ v - vZ c;
          r = max (1 / 1000000) (sqrt (x * x + y * y + z * z));
          s = min 1 (max (- 1) (z / r));
          t = min 1 (max (- 1) (y / r))
      in (arccos s / pi, arccos t / pi))"

definition GenSphericalTexCoordBySet :: "Vector3d \<Rightarrow> 32 word \<Rightarrow> SubMesh \<Rightarrow> SubMesh" where
  "GenSphericalTexCoordBySet c k s =
     fold (\<lambda>v s. AddTexCoordBySet (fst (sphere_uv c v)) (snd (sphere_uv c v)) k s) (vertices s)
       (s \<lparr> texCoords := mput k [] (texCoords s) \<rparr>)"

definition GenSphericalTexCoord :: "Vector3d \<Rightarrow> SubMesh \<Rightarrow> SubMesh" where
  "GenSphericalTexCoord c s =
     (if texCoords s = [] then s else GenSphericalTexCoordBySet c (fst (hd (texCoords s))) s)"

subsection \<open>Triangles: volume and centroid\<close>

text \<open>The vertex an index refers to, both accesses checked.\<close>

definition vertex_at :: "SubMesh \<Rightarrow> nat \<Rightarrow> Vector3d option" where
  "vertex_at s i = do { k \<leftarrow> elem_at (indices s) i; elem_at (vertices s) (unat k) }"

definition triangle_at :: "SubMesh \<Rightarrow> nat \<Rightarrow> (Vector3d \<times> Vector3d \<times> Vector3d) option" where
  "triangle_at s i =
     do { v1 \<leftarrow> vertex_at s i; v2 \<leftarrow> vertex_at s (i + 1); v3 \<leftarrow> vertex_at s (i + 2);
          Some (v1, v2, v3) }"

definition tetra :: "gz_math \<Rightarrow> Vector3d \<Rightarrow> Vector3d \<Rightarrow> Vector3d \<Rightarrow> real" where
  "tetra M v1 v2 v3 = Dot_v M (Cross_v M v1 v2) v3 / 6"

function Volume_loop :: "gz_math \<Rightarrow> SubMesh \<Rightarrow> nat \<Rightarrow> real \<Rightarrow> real option" where
  "Volume_loop M s i vol =
     (if i < length (indices s) then
        do { (v1, v2, v3) \<leftarrow> triangle_at s i;
             Volume_loop M s (i + 3) (vol + tetra M v1 v2 v3) }
      else Some vol)"
  by pat_completeness auto
termination by (relation "measure (\<lambda>(M, s, i, vol). length (indices s) - i)") auto

definition Volume :: "gz_math \<Rightarrow> SubMesh \<Rightarrow> real option" where
  "Volume M s =
     (if \<not> HasValidIndices s then Some 0
      else if primitiveType s = TRIANGLES then
        (if length (indices s) mod 3 = 0 then map_option abs (Volume_loop M s 0 0) else Some \<bar>0\<bar>)
      else Some \<bar>0\<bar>)"

function Centroid_loop ::
    "gz_math \<Rightarrow> SubMesh \<Rightarrow> nat \<Rightarrow> real \<Rightarrow> Vector3d \<Rightarrow> (real \<times> Vector3d) option" where
  "Centroid_loop M s i vol mom =
     (if i < length (indices s) then
        do { (v1, v2, v3) \<leftarrow> triangle_at s i;
             let v = tetra M v1 v2 v3;
             Centroid_loop M s (i + 3) (vol + v)
               (plus_v M mom (div_v M (scale_v M (plus_v M (plus_v M v1 v2) v3) v) 4)) }
      else Some (vol, mom))"
  by pat_completeness auto
termination by (relation "measure (\<lambda>(M, s, i, vol, mom). length (indices s) - i)") auto

definition Centroid :: "gz_math \<Rightarrow> SubMesh \<Rightarrow> Vector3d option" where
  "Centroid M s =
     (if \<not> HasValidIndices s then Some (default_v M)
      else if primitiveType s \<noteq> TRIANGLES \<or> length (indices s) mod 3 \<noteq> 0 then Some (default_v M)
      else do { (vol, mom) \<leftarrow> Centroid_loop M s 0 0 (default_v M);
                Some (if \<bar>vol\<bar> < 1 / 10 ^ 16 then Zero_v M else div_v M mom vol) })"

subsection \<open>Neighbours and normals\<close>

text \<open>The constructor of \<open>Neighbors\<close>: the indices grouped by the X coordinate of their vertex.\<close>

fun Neighbors :: "Vector3d list \<Rightarrow> 32 word list \<Rightarrow> (real, 32 word list) omap \<Rightarrow>
    (real, 32 word list) omap option" where
  "Neighbors vs [] groups = Some groups"
| "Neighbors vs (i # is) groups =
     do { v \<leftarrow> elem_at vs (unat i); Neighbors vs is (mpush (vX v) i groups) }"

text \<open>\<open>groups.find(x)\<close> as a position, the walk back to the first group in tolerance, and the walk
  forward that hands every equal vertex to the visitor, here collected in order.\<close>

definition find_pos :: "('k, 'v) omap \<Rightarrow> 'k \<Rightarrow> nat" where
  "find_pos m x = (case find_index (\<lambda>(k, v). k = x) m of None \<Rightarrow> length m | Some i \<Rightarrow> i)"

fun walk_back :: "gz_math \<Rightarrow> (real, 'v) omap \<Rightarrow> real \<Rightarrow> nat \<Rightarrow> nat" where
  "walk_back M m x 0 = 0"
| "walk_back M m x (Suc p) =
     (if \<not> equal_d M (fst (m ! p)) x then Suc p else walk_back M m x p)"

fun visit_group :: "gz_math \<Rightarrow> Vector3d list \<Rightarrow> Vector3d \<Rightarrow> 32 word list \<Rightarrow> 32 word list option" where
  "visit_group M vs p [] = Some []"
| "visit_group M vs p (i # is) =
     do { v \<leftarrow> elem_at vs (unat i);
          hits \<leftarrow> visit_group M vs p is;
          Some (if eq_v M v p then i # hits else hits) }"

fun visit_from :: "gz_math \<Rightarrow> Vector3d list \<Rightarrow> Vector3d \<Rightarrow> (real, 32 word list) omap \<Rightarrow>
    32 word list option" where
  "visit_from M vs p [] = Some []"
| "visit_from M vs p ((x, is) # m) =
     (if equal_d M x (vX p) then
        do { hits \<leftarrow> visit_group M vs p is; rest \<leftarrow> visit_from M vs p m; Some (hits @ rest) }
      else Some [])"

definition Visit :: "gz_math \<Rightarrow> Vector3d list \<Rightarrow> (real, 32 word list) omap \<Rightarrow> Vector3d \<Rightarrow>
    32 word list option" where
  "Visit M vs groups p =
     visit_from M vs p (drop (walk_back M groups (vX p) (find_pos groups (vX p))) groups)"

text \<open>The visitor adds the face's normal to the normal of the vertex it is handed.\<close>

fun add_normal :: "gz_math \<Rightarrow> Vector3d \<Rightarrow> 32 word list \<Rightarrow> Vector3d list \<Rightarrow> Vector3d list option" where
  "add_normal M n [] ns = Some ns"
| "add_normal M n (i # is) ns =
     do { old \<leftarrow> elem_at ns (unat i); add_normal M n is (ns[unat i := plus_v M old n]) }"

fun add_points :: "gz_math \<Rightarrow> Vector3d list \<Rightarrow> (real, 32 word list) omap \<Rightarrow> Vector3d \<Rightarrow>
    Vector3d list \<Rightarrow> Vector3d list \<Rightarrow> Vector3d list option" where
  "add_points M vs groups n [] ns = Some ns"
| "add_points M vs groups n (p # ps) ns =
     do { hits \<leftarrow> Visit M vs groups p; ns' \<leftarrow> add_normal M n hits ns;
          add_points M vs groups n ps ns' }"

function faces_loop :: "gz_math \<Rightarrow> SubMesh \<Rightarrow> (real, 32 word list) omap \<Rightarrow> nat \<Rightarrow>
    Vector3d list \<Rightarrow> Vector3d list option" where
  "faces_loop M s groups i ns =
     (if i < length (indices s) then
        do { (v1, v2, v3) \<leftarrow> triangle_at s i;
             ns' \<leftarrow> add_points M (vertices s) groups (Normal_v M v1 v2 v3) [v1, v2, v3] ns;
             faces_loop M s groups (i + 3) ns' }
      else Some ns)"
  by pat_completeness auto
termination by (relation "measure (\<lambda>(M, s, groups, i, ns). length (indices s) - i)") auto

text \<open>\<open>normals.resize\<close> after the reset to zero: cut, or filled up with new vectors.\<close>

definition resize :: "nat \<Rightarrow> 'a \<Rightarrow> 'a list \<Rightarrow> 'a list" where
  "resize n d xs = take n xs @ replicate (n - length xs) d"

definition reset_normals :: "gz_math \<Rightarrow> SubMesh \<Rightarrow> Vector3d list" where
  "reset_normals M s =
     (let ns = map (\<lambda>n. \<lparr> vX = 0, vY = 0, vZ = 0 \<rparr>) (normals s)
      in if length ns \<noteq> length (vertices s) then resize (length (vertices s)) (default_v M) ns else ns)"

definition RecalculateNormals :: "gz_math \<Rightarrow> SubMesh \<Rightarrow> SubMesh option" where
  "RecalculateNormals M s =
     (if primitiveType s \<noteq> TRIANGLES \<or> length (indices s) mod 3 \<noteq> 0 then Some s
      else if \<not> HasValidIndices s then Some s
      else do { groups \<leftarrow> Neighbors (vertices s) (indices s) [];
                ns \<leftarrow> faces_loop M s groups 0 (reset_normals M s);
                Some (s \<lparr> normals := map (Normalize_v M) ns \<rparr>) })"

declare Volume_loop.simps [simp del] Centroid_loop.simps [simp del] faces_loop.simps [simp del]

subsection \<open>Neighbours found through the groups\<close>

text \<open>The vertex an index names, for indices that are known to be in range, and the tolerance the
  search relies on.\<close>

abbreviation vert :: "Vector3d list \<Rightarrow> 32 word \<Rightarrow> Vector3d" where
  "vert vs i \<equiv> vs ! unat i"

definition tolerant :: "gz_math \<Rightarrow> bool" where
  "tolerant M \<longleftrightarrow> (\<exists>eps \<ge> 0. \<forall>a b. equal_d M a b \<longleftrightarrow> \<bar>a - b\<bar> \<le> eps)"

lemma tolerant_refl: "tolerant M \<Longrightarrow> equal_d M a a"
  by (auto simp: tolerant_def)

lemma tolerant_between: "tolerant M \<Longrightarrow> equal_d M a x \<Longrightarrow> (a \<le> b \<and> b \<le> x) \<or> (x \<le> b \<and> b \<le> a) \<Longrightarrow> equal_d M b x"
  unfolding tolerant_def by (smt (verit))

text \<open>The groups hold, under every X coordinate that occurs, the indices with it, in order.\<close>

definition grouped :: "Vector3d list \<Rightarrow> 32 word list \<Rightarrow> (real, 32 word list) omap \<Rightarrow> bool" where
  "grouped vs is m \<longleftrightarrow>
     ordered m \<and> fst ` set m = (\<lambda>i. vX (vert vs i)) ` set is \<and>
     (\<forall>x. mvec m x = filter (\<lambda>i. vX (vert vs i) = x) is)"

lemma Neighbors_grouped:
  assumes "\<forall>i \<in> set js. unat i < length vs" and "grouped vs is m"
  shows "\<exists>m'. Neighbors vs js m = Some m' \<and> grouped vs (is @ js) m'"
  using assms
proof (induction js arbitrary: "is" m)
  case (Cons j js)
  have "grouped vs (is @ [j]) (mpush (vX (vert vs j)) j m)"
    using Cons.prems(2) by (auto simp: grouped_def ordered_mpush)
  with Cons show ?case by (auto dest: Cons.IH)
qed simp

lemma visit_group_filter:
  "\<forall>i \<in> set is. unat i < length vs \<Longrightarrow>
     visit_group M vs p is = Some (filter (\<lambda>i. eq_v M (vert vs i) p) is)"
  by (induction "is") auto

lemma visit_from_takeWhile:
  "\<forall>(x, is) \<in> set m. \<forall>i \<in> set is. unat i < length vs \<Longrightarrow>
     visit_from M vs p m =
       Some (filter (\<lambda>i. eq_v M (vert vs i) p)
               (concat (map snd (takeWhile (\<lambda>(x, is). equal_d M x (vX p)) m))))"
  by (induction m) (auto simp: visit_group_filter)

lemma walk_back_spec:
  "walk_back M m x p \<le> p \<and> (\<forall>j. walk_back M m x p \<le> j \<and> j < p \<longrightarrow> equal_d M (fst (m ! j)) x) \<and>
   (0 < walk_back M m x p \<longrightarrow> \<not> equal_d M (fst (m ! (walk_back M m x p - 1))) x)"
proof (induction p)
  case (Suc p)
  then show ?case by (auto simp: less_Suc_eq)
qed simp

lemma filter_is_takeWhile:
  "(\<forall>j k. j < k \<and> k < length xs \<and> P (xs ! k) \<longrightarrow> P (xs ! j)) \<Longrightarrow> filter P xs = takeWhile P xs"
proof (induction xs)
  case (Cons x xs)
  then have IH: "filter P xs = takeWhile P xs" by (metis Suc_less_eq length_Cons nth_Cons_Suc)
  show ?case
  proof (cases "P x")
    case False
    then have "\<not> P (xs ! k)" if "k < length xs" for k
      using Cons.prems [rule_format, of 0 "Suc k"] that by auto
    then have "filter P xs = []" by (auto simp: filter_empty_conv in_set_conv_nth)
    with False show ?thesis by simp
  qed (simp add: IH)
qed simp

lemma find_pos_hit:
  assumes "x \<in> fst ` set m"
  shows "\<exists>p. p < length m \<and> fst (m ! p) = x \<and> find_pos m x = p"
proof (cases "find_index (\<lambda>(k, v). k = x) m")
  case None
  with assms show ?thesis by (auto simp: find_index_None_iff)
next
  case (Some p)
  then have "p < length m" "fst (m ! p) = x"
    by (simp_all add: find_index_Some_iff case_prod_unfold)
  with Some show ?thesis by (simp add: find_pos_def)
qed

text \<open>Walking back and then forward meets exactly the groups in tolerance.\<close>

lemma walk_covers:
  assumes m: "ordered m" and t: "tolerant M" and x: "x \<in> fst ` set m"
  defines "i \<equiv> walk_back M m x (find_pos m x)"
  shows "takeWhile (\<lambda>(k, is). equal_d M k x) (drop i m) = filter (\<lambda>(k, is). equal_d M k x) m"
proof -
  let ?P = "\<lambda>(k, is). equal_d M k x"
  obtain p where p: "p < length m" "fst (m ! p) = x" "find_pos m x = p"
    using find_pos_hit [OF x] by blast
  have less: "fst (m ! j) < fst (m ! k)" if "j < k" "k < length m" for j k
    using m that by (simp add: sorted_wrt_map sorted_wrt_iff_nth_less)
  have up: "equal_d M (fst (m ! j)) x" if "p \<le> j" "j \<le> k" "k < length m" "equal_d M (fst (m ! k)) x" for j k
  proof (rule tolerant_between [OF t that(4)])
    have "x \<le> fst (m ! j)" using less [of p j] p that by (cases "p = j") auto
    moreover have "fst (m ! j) \<le> fst (m ! k)" using less [of j k] that by (cases "j = k") auto
    ultimately show "fst (m ! k) \<le> fst (m ! j) \<and> fst (m ! j) \<le> x \<or> x \<le> fst (m ! j) \<and> fst (m ! j) \<le> fst (m ! k)"
      by blast
  qed
  note wb = walk_back_spec [of M m x p, folded i_def [unfolded p(3)]]
  have "\<not> equal_d M (fst (m ! j)) x" if "j < i" for j
  proof
    assume e: "equal_d M (fst (m ! j)) x"
    have "i - 1 < p" using wb that by auto
    then have "fst (m ! (i - 1)) < x" using less [of "i - 1" p] p by simp
    moreover have "fst (m ! j) \<le> fst (m ! (i - 1))"
      using less [of j "i - 1"] that \<open>i - 1 < p\<close> p(1) by (cases "j = i - 1") (auto intro: less_imp_le)
    ultimately have "equal_d M (fst (m ! (i - 1))) x" using tolerant_between [OF t e] by simp
    with wb that show False by auto
  qed
  then have 1: "filter ?P (take i m) = []"
    by (auto simp: filter_empty_conv in_set_conv_nth) (metis fst_conv)
  have 2: "filter ?P (drop i m) = takeWhile ?P (drop i m)"
  proof (intro filter_is_takeWhile allI impI, elim conjE)
    fix j k assume jk: "j < k" "k < length (drop i m)" "?P (drop i m ! k)"
    show "?P (drop i m ! j)"
    proof (cases "i + j < p")
      case True
      then show ?thesis using wb jk by (simp add: case_prod_unfold)
    next
      case False
      with jk up [of "i + j" "i + k"] show ?thesis by (simp add: case_prod_unfold)
    qed
  qed
  have "filter ?P m = filter ?P (take i m) @ filter ?P (drop i m)" by (simp flip: filter_append)
  with 1 2 show ?thesis by simp
qed

lemma concat_groups:
  assumes "grouped vs is m"
  shows "concat (map snd (filter (\<lambda>(k, js). P k) m)) =
         sort_key (\<lambda>i. vX (vert vs i)) (filter (\<lambda>i. P (vX (vert vs i))) is)"
proof (rule properties_for_sort_key [symmetric])
  let ?f = "\<lambda>i. vX (vert vs i)" and ?c = "\<lambda>m. concat (map snd (filter (\<lambda>(k, js). P k) m))"
  from assms have o: "ordered m" and g: "mvec m k = filter (\<lambda>i. ?f i = k) is" for k
    by (auto simp: grouped_def)
  have entry: "js = filter (\<lambda>i. ?f i = k) is" if "(k, js) \<in> set m" for k js
    using mvec_entry [OF o that] g by simp
  have key: "filter (\<lambda>i. ?f i = k) (?c m) = (if P k then mvec m k else [])"
    if "ordered m" "\<forall>(k, js) \<in> set m. \<forall>i \<in> set js. ?f i = k" for m k
    using that
  proof (induction m)
    case (Cons a m)
    obtain j js where a: "a = (j, js)" by fastforce
    have "map_of m j = None" using Cons.prems by (force simp: a map_of_eq_None_iff)
    moreover have "filter (\<lambda>i. ?f i = k) js = (if j = k then js else [])"
      using Cons.prems by (auto simp: a filter_id_conv filter_empty_conv)
    ultimately show ?case using Cons by (auto simp: a mvec_def)
  qed (simp add: mvec_def)
  have same: "\<forall>(k, js) \<in> set m. \<forall>i \<in> set js. ?f i = k" using entry by fastforce
  show key_eq: "filter (\<lambda>x. ?f k = ?f x) (?c m) = filter (\<lambda>x. ?f k = ?f x) (filter (\<lambda>i. P (?f i)) is)" for k
  proof -
    have "filter (\<lambda>x. ?f k = ?f x) (?c m) = (if P (?f k) then filter (\<lambda>i. ?f i = ?f k) is else [])"
      unfolding g [symmetric] key [OF o same, symmetric] by (rule filter_cong) auto
    also have "\<dots> = filter (\<lambda>x. ?f k = ?f x) (filter (\<lambda>i. P (?f i)) is)"
    proof (cases "P (?f k)")
      case False
      then have "filter (\<lambda>x. ?f k = ?f x) (filter (\<lambda>i. P (?f i)) is) = []" by (auto simp: filter_empty_conv)
      with False show ?thesis by simp
    qed (auto intro!: filter_cong)
    finally show ?thesis .
  qed
  show "mset (?c m) = mset (filter (\<lambda>i. P (?f i)) is)"
  proof (rule multiset_eqI)
    fix i
    have "count (mset (filter (\<lambda>x. ?f i = ?f x) (?c m))) i =
        count (mset (filter (\<lambda>x. ?f i = ?f x) (filter (\<lambda>i. P (?f i)) is))) i" by (simp only: key_eq)
    then show "count (mset (?c m)) i = count (mset (filter (\<lambda>i. P (?f i)) is)) i" by simp
  qed
  show "sorted (map ?f (?c m))"
    using o same
  proof (induction m)
    case (Cons a m)
    obtain j js where a: "a = (j, js)" by fastforce
    have js: "sorted (map ?f js)" "\<forall>i \<in> set js. ?f i = j" using Cons.prems
      by (auto simp: a sorted_iff_nth_mono)
    have "\<forall>i \<in> set (?c m). j \<le> ?f i" using Cons.prems by (fastforce simp: a)
    with js Cons show ?case by (auto simp: a sorted_append)
  qed simp
qed

lemma Neighbors_Some:
  assumes "\<forall>i \<in> set is. unat i < length vs"
  shows "\<exists>m. Neighbors vs is [] = Some m \<and> grouped vs is m"
  using Neighbors_grouped [OF assms, of "[]" "[]"] by (simp add: grouped_def mvec_def)

lemma Visit_scan:
  assumes t: "tolerant M" and v: "\<forall>i \<in> set is. unat i < length vs" and "Neighbors vs is [] = Some m"
    and x: "vX p \<in> (\<lambda>i. vX (vert vs i)) ` set is"
  shows "Visit M vs m p =
     Some (sort_key (\<lambda>i. vX (vert vs i))
            (filter (\<lambda>i. equal_d M (vX (vert vs i)) (vX p) \<and> eq_v M (vert vs i) p) is))"
proof -
  have g: "grouped vs is m" using Neighbors_Some [OF v] assms(3) by auto
  then have o: "ordered m" and k: "vX p \<in> fst ` set m" using x by (auto simp: grouped_def)
  have range: "\<forall>(k, js) \<in> set m. \<forall>i \<in> set js. unat i < length vs"
    using g v mvec_entry [OF o] by (fastforce simp: grouped_def)
  let ?n = "walk_back M m (vX p) (find_pos m (vX p))"
  have "\<forall>(k, js) \<in> set (drop ?n m). \<forall>i \<in> set js. unat i < length vs"
    using range by (meson in_set_dropD)
  then show ?thesis
    by (simp add: Visit_def visit_from_takeWhile walk_covers [OF o t k]
        concat_groups [OF g, of "\<lambda>k. equal_d M k (vX p)"] filter_sort conj_commute)
qed

subsection \<open>The loops over triangles\<close>

fun triples :: "'a list \<Rightarrow> ('a \<times> 'a \<times> 'a) list" where
  "triples (a # b # c # xs) = (a, b, c) # triples xs"
| "triples _ = []"

definition corners :: "SubMesh \<Rightarrow> Vector3d list" where
  "corners s = map (vert (vertices s)) (indices s)"

definition valid :: "SubMesh \<Rightarrow> bool" where
  "valid s \<longleftrightarrow> (\<forall>i \<in> set (indices s). unat i < length (vertices s))"

lemma HasValidIndices_valid: "HasValidIndices s \<Longrightarrow> valid s"
  by (simp add: HasValidIndices_def valid_def list_all_iff)

lemma vertex_at_valid: "valid s \<Longrightarrow> i < length (indices s) \<Longrightarrow> vertex_at s i = Some (corners s ! i)"
  by (simp add: vertex_at_def valid_def corners_def)

lemma triples_drop:
  assumes "3 dvd length xs - i" and "i < length xs"
  shows "i + 2 < length xs \<and> triples (drop i xs) = (xs ! i, xs ! (i + 1), xs ! (i + 2)) # triples (drop (i + 3) xs)"
proof -
  obtain k where "length xs - i = 3 * k" using assms(1) by (rule dvdE)
  then have l: "i + 2 < length xs" using assms(2) by (cases k) auto
  then have "drop i xs = xs ! i # xs ! (i + 1) # xs ! (i + 2) # drop (i + 3) xs"
    by (simp add: Cons_nth_drop_Suc numeral_3_eq_3)
  with l show ?thesis by simp
qed

lemma triangle_at_valid:
  assumes "valid s" and "3 dvd length (indices s) - i" and "i < length (indices s)"
  shows "triangle_at s i = Some (corners s ! i, corners s ! (i + 1), corners s ! (i + 2)) \<and>
         triples (drop i (corners s)) =
           (corners s ! i, corners s ! (i + 1), corners s ! (i + 2)) # triples (drop (i + 3) (corners s)) \<and>
         3 dvd length (indices s) - (i + 3)"
proof -
  have l: "length (corners s) = length (indices s)" by (simp add: corners_def)
  note T = triples_drop [of "corners s" i, unfolded l, OF assms(2,3)]
  have "3 dvd length (indices s) - (i + 3)"
    using assms(2) by (metis diff_diff_left dvd_diff_nat dvd_refl)
  with T show ?thesis by (simp add: triangle_at_def vertex_at_valid [OF assms(1)])
qed

lemma Volume_loop_sum:
  assumes "valid s" and "3 dvd length (indices s) - i"
  shows "Volume_loop M s i vol =
     Some (vol + sum_list (map (\<lambda>(a, b, c). tetra M a b c) (triples (drop i (corners s)))))"
  using assms
proof (induction M s i vol rule: Volume_loop.induct)
  case (1 M s i vol)
  show ?case
  proof (cases "i < length (indices s)")
    case True
    with 1 triangle_at_valid [OF 1(2,3) True] show ?thesis
      by (simp add: Volume_loop.simps [of M s i] add.assoc)
  next
    case False
    then show ?thesis by (simp add: Volume_loop.simps [of M s i] corners_def)
  qed
qed

lemma Centroid_loop_Some:
  "valid s \<Longrightarrow> 3 dvd length (indices s) - i \<Longrightarrow> \<exists>r. Centroid_loop M s i vol mom = Some r"
proof (induction M s i vol mom rule: Centroid_loop.induct)
  case (1 M s i vol mom)
  show ?case
  proof (cases "i < length (indices s)")
    case True
    with 1 triangle_at_valid [OF 1(2,3) True] show ?thesis
      by (simp add: Centroid_loop.simps [of M s i] Let_def)
  qed (simp add: Centroid_loop.simps [of M s i])
qed

definition bump :: "gz_math \<Rightarrow> 32 word \<times> Vector3d \<Rightarrow> Vector3d list \<Rightarrow> Vector3d list" where
  "bump M = (\<lambda>(i, n) ns. ns[unat i := plus_v M (ns ! unat i) n])"

lemma length_bumps [simp]: "length (fold (bump M) cs ns) = length ns"
  by (induction cs arbitrary: ns) (auto simp: bump_def)

lemma add_normal_bumps:
  "\<forall>i \<in> set is. unat i < length ns \<Longrightarrow>
     add_normal M n is ns = Some (fold (bump M) (map (\<lambda>i. (i, n)) is) ns)"
  by (induction "is" arbitrary: ns) (auto simp: bump_def)

lemma add_points_bumps:
  assumes "\<And>p. p \<in> set ps \<Longrightarrow> Visit M vs groups p = Some (h p)"
    and "\<And>p. \<forall>i \<in> set (h p). unat i < length ns"
  shows "add_points M vs groups n ps ns =
     Some (fold (bump M) (concat (map (\<lambda>p. map (\<lambda>i. (i, n)) (h p)) ps)) ns)"
  using assms by (induction ps arbitrary: ns) (auto simp: add_normal_bumps)

text \<open>What one face contributes: its normal, once for every index the search finds at a corner.\<close>

definition face_hits :: "gz_math \<Rightarrow> (Vector3d \<Rightarrow> 32 word list) \<Rightarrow> Vector3d \<times> Vector3d \<times> Vector3d \<Rightarrow>
    (32 word \<times> Vector3d) list" where
  "face_hits M h = (\<lambda>(a, b, c). concat (map (\<lambda>p. map (\<lambda>i. (i, Normal_v M a b c)) (h p)) [a, b, c]))"

lemma faces_loop_bumps:
  assumes "valid s" and "3 dvd length (indices s) - i"
    and "\<And>p. p \<in> set (corners s) \<Longrightarrow> Visit M (vertices s) groups p = Some (h p)"
    and "\<And>p. \<forall>i \<in> set (h p). unat i < length ns"
  shows "faces_loop M s groups i ns =
     Some (fold (bump M) (concat (map (face_hits M h) (triples (drop i (corners s))))) ns)"
  using assms
proof (induction M s groups i ns rule: faces_loop.induct)
  case (1 M s groups i ns)
  show ?case
  proof (cases "i < length (indices s)")
    case True
    let ?a = "corners s ! i" and ?b = "corners s ! (i + 1)" and ?c = "corners s ! (i + 2)"
    let ?hits = "face_hits M h (?a, ?b, ?c)"
    note T = triangle_at_valid [OF 1(2,3) True]
    have "set [?a, ?b, ?c] \<subseteq> set (corners s)"
      using triples_drop [of "corners s" i] 1(3) True by (simp add: corners_def)
    then have pts: "add_points M (vertices s) groups (Normal_v M ?a ?b ?c) [?a, ?b, ?c] ns =
        Some (fold (bump M) ?hits ns)"
      using add_points_bumps [OF 1(4) 1(5), of "[?a, ?b, ?c]"] by (auto simp: face_hits_def)
    have "faces_loop M s groups i ns = faces_loop M s groups (i + 3) (fold (bump M) ?hits ns)"
      using T pts True by (simp add: faces_loop.simps [of M s groups i] del: add_points.simps)
    also have "\<dots> = Some (fold (bump M) (concat (map (face_hits M h) (triples (drop (i + 3) (corners s)))))
        (fold (bump M) ?hits ns))"
      using T pts True 1(2,4,5) by (intro 1(1)) (auto simp: prod.case)
    finally show ?thesis using T by simp
  next
    case False
    then show ?thesis by (simp add: faces_loop.simps [of M s groups i] corners_def)
  qed
qed

lemma nth_bumps:
  "j < length ns \<Longrightarrow> \<forall>(i, n) \<in> set cs. unat i < length ns \<Longrightarrow>
     fold (bump M) cs ns ! j = foldl (plus_v M) (ns ! j) (map snd (filter (\<lambda>(i, n). unat i = j) cs))"
  by (induction cs arbitrary: ns) (auto simp: bump_def)

text \<open>What the search finds, and with it the contributions to the normals.\<close>

definition near :: "gz_math \<Rightarrow> Vector3d list \<Rightarrow> 32 word list \<Rightarrow> Vector3d \<Rightarrow> 32 word list" where
  "near M vs is p =
     sort_key (\<lambda>i. vX (vert vs i))
       (filter (\<lambda>i. equal_d M (vX (vert vs i)) (vX p) \<and> eq_v M (vert vs i) p) is)"

definition contributions :: "gz_math \<Rightarrow> SubMesh \<Rightarrow> (32 word \<times> Vector3d) list" where
  "contributions M s =
     concat (map (face_hits M (near M (vertices s) (indices s))) (triples (corners s)))"

lemma set_near: "set (near M vs is p) \<subseteq> set is"
  by (auto simp: near_def)

lemma contributions_range: "valid s \<Longrightarrow> (i, n) \<in> set (contributions M s) \<Longrightarrow> unat i < length (vertices s)"
  using set_near by (fastforce simp: contributions_def face_hits_def valid_def)

lemma length_reset [simp]: "length (reset_normals M s) = length (vertices s)"
  by (auto simp: reset_normals_def resize_def Let_def)

lemma nth_reset:
  "j < length (vertices s) \<Longrightarrow> reset_normals M s ! j =
     (if j < length (normals s) then \<lparr> vX = 0, vY = 0, vZ = 0 \<rparr> else default_v M)"
  by (auto simp: reset_normals_def resize_def Let_def nth_append)

lemma Visit_Some:
  assumes v: "\<forall>i \<in> set is. unat i < length vs" and g: "grouped vs is m"
  shows "\<exists>hits. Visit M vs m p = Some hits \<and> set hits \<subseteq> set is"
proof -
  have o: "ordered m" using g by (simp add: grouped_def)
  have sub: "(k, js) \<in> set m \<Longrightarrow> set js \<subseteq> set is" for k js
    using g mvec_entry [OF o] by (fastforce simp: grouped_def)
  let ?d = "drop (walk_back M m (vX p) (find_pos m (vX p))) m"
  have "\<forall>(k, js) \<in> set ?d. \<forall>i \<in> set js. unat i < length vs"
    using sub v by (blast dest: in_set_dropD)
  then have "Visit M vs m p = Some (filter (\<lambda>i. eq_v M (vert vs i) p)
      (concat (map snd (takeWhile (\<lambda>(x, is). equal_d M x (vX p)) ?d))))"
    unfolding Visit_def by (rule visit_from_takeWhile)
  moreover have "set (concat (map snd (takeWhile (\<lambda>(x, is). equal_d M x (vX p)) ?d))) \<subseteq> set is"
    using sub by (fastforce dest: set_takeWhileD in_set_dropD)
  ultimately show ?thesis by auto
qed

lemma RecalculateNormals_run:
  assumes "primitiveType s = TRIANGLES" and "length (indices s) mod 3 = 0" and "HasValidIndices s"
    and m: "Neighbors (vertices s) (indices s) [] = Some m"
    and h: "\<And>p. p \<in> set (corners s) \<Longrightarrow> Visit M (vertices s) m p = Some (h p)"
    and sub: "\<And>p. set (h p) \<subseteq> set (indices s)"
  shows "RecalculateNormals M s =
     Some (s \<lparr> normals := map (Normalize_v M)
             (fold (bump M) (concat (map (face_hits M h) (triples (corners s)))) (reset_normals M s)) \<rparr>)"
proof -
  have v: "valid s" using assms(3) by (rule HasValidIndices_valid)
  have "\<forall>i \<in> set (h p). unat i < length (reset_normals M s)" for p
    using sub [of p] v by (auto simp: valid_def)
  from faces_loop_bumps [OF v _ h this] assms(2)
  have "faces_loop M s m 0 (reset_normals M s) =
      Some (fold (bump M) (concat (map (face_hits M h) (triples (corners s)))) (reset_normals M s))"
    by (simp add: mod_eq_0_iff_dvd)
  then show ?thesis using assms by (simp add: RecalculateNormals_def)
qed

text \<open>
  C7. The neighbour search of \<open>RecalculateNormals\<close>, which groups the indices by X coordinate and
  walks the groups around a point, finds what a scan of all indices finds: the indices of the
  vertices that equal the point and whose X coordinate is in tolerance, by ascending X and in
  index order for one X. It stays in range.\<close>

theorem Visit_is_scan:
  assumes "tolerant M" and "\<forall>i \<in> set is. unat i < length vs" and "Neighbors vs is [] = Some groups"
    and "vX p \<in> (\<lambda>i. vX (vert vs i)) ` set is"
  shows "Visit M vs groups p =
     Some (sort_key (\<lambda>i. vX (vert vs i))
            (filter (\<lambda>i. equal_d M (vX (vert vs i)) (vX p) \<and> eq_v M (vert vs i) p) is))"
  using assms by (rule Visit_scan)

text \<open>The standard coordinate-wise operations, a concrete instance of the parameter.\<close>

definition std_math :: gz_math where
  "std_math =
     \<lparr> equal_d = \<lambda>a b. \<bar>a - b\<bar> \<le> 1 / 1000000,
       Equal_v = \<lambda>v w. \<bar>vX v - vX w\<bar> \<le> 1 / 1000 \<and> \<bar>vY v - vY w\<bar> \<le> 1 / 1000 \<and> \<bar>vZ v - vZ w\<bar> \<le> 1 / 1000,
       eq_v = \<lambda>v w. \<bar>vX v - vX w\<bar> \<le> 1 / 1000 \<and> \<bar>vY v - vY w\<bar> \<le> 1 / 1000 \<and> \<bar>vZ v - vZ w\<bar> \<le> 1 / 1000,
       Normal_v = \<lambda>a b c. \<lparr> vX = (vY b - vY a) * (vZ c - vZ a) - (vZ b - vZ a) * (vY c - vY a),
                           vY = (vZ b - vZ a) * (vX c - vX a) - (vX b - vX a) * (vZ c - vZ a),
                           vZ = (vX b - vX a) * (vY c - vY a) - (vY b - vY a) * (vX c - vX a) \<rparr>,
       Normalize_v = \<lambda>v. let r = sqrt (vX v * vX v + vY v * vY v + vZ v * vZ v)
                         in if r = 0 then v else \<lparr> vX = vX v / r, vY = vY v / r, vZ = vZ v / r \<rparr>,
       Cross_v = \<lambda>v w. \<lparr> vX = vY v * vZ w - vZ v * vY w, vY = vZ v * vX w - vX v * vZ w,
                         vZ = vX v * vY w - vY v * vX w \<rparr>,
       Dot_v = \<lambda>v w. vX v * vX w + vY v * vY w + vZ v * vZ w,
       plus_v = \<lambda>v w. \<lparr> vX = vX v + vX w, vY = vY v + vY w, vZ = vZ v + vZ w \<rparr>,
       minus_v = \<lambda>v w. \<lparr> vX = vX v - vX w, vY = vY v - vY w, vZ = vZ v - vZ w \<rparr>,
       mult_v = \<lambda>v w. \<lparr> vX = vX v * vX w, vY = vY v * vY w, vZ = vZ v * vZ w \<rparr>,
       scale_v = \<lambda>v r. \<lparr> vX = vX v * r, vY = vY v * r, vZ = vZ v * r \<rparr>,
       div_v = \<lambda>v r. \<lparr> vX = vX v / r, vY = vY v / r, vZ = vZ v / r \<rparr>,
       Zero_v = \<lparr> vX = 0, vY = 0, vZ = 0 \<rparr>, default_v = \<lparr> vX = 0, vY = 0, vZ = 0 \<rparr>,
       Zero_2 = (0, 0), MAX_F = 340282346638528859811704183484516925440 \<rparr>"

lemma tolerant_std: "tolerant std_math"
  unfolding tolerant_def by (intro exI [of _ "1 / 1000000"]) (simp add: std_math_def)

definition unit_triangle :: SubMesh where
  "unit_triangle = SubMesh_new ''t''
     \<lparr> vertices := [\<lparr> vX = 0, vY = 0, vZ = 0 \<rparr>, \<lparr> vX = 1, vY = 0, vZ = 0 \<rparr>, \<lparr> vX = 0, vY = 1, vZ = 0 \<rparr>],
       indices := [0, 1, 2] \<rparr>"

lemma unit_triangle_simps:
  "primitiveType unit_triangle = TRIANGLES" "length (indices unit_triangle) mod 3 = 0"
  "HasValidIndices unit_triangle" "length (vertices unit_triangle) = 3"
  by (simp_all add: unit_triangle_def SubMesh_new_def HasValidIndices_def)

theorem Visit_is_scan_witness:
  "\<exists>groups. Visit std_math (vertices unit_triangle) groups \<lparr> vX = 0, vY = 1, vZ = 0 \<rparr> =
     Some (near std_math (vertices unit_triangle) (indices unit_triangle) \<lparr> vX = 0, vY = 1, vZ = 0 \<rparr>)"
proof -
  have v: "\<forall>i \<in> set (indices unit_triangle). unat i < length (vertices unit_triangle)"
    using HasValidIndices_valid [OF unit_triangle_simps(3)] by (simp add: valid_def)
  obtain m where m: "Neighbors (vertices unit_triangle) (indices unit_triangle) [] = Some m"
    using Neighbors_Some [OF v] by auto
  have "vX \<lparr> vX = 0, vY = 1, vZ = 0 \<rparr> \<in>
      (\<lambda>i. vX (vert (vertices unit_triangle) i)) ` set (indices unit_triangle)"
    by (simp add: unit_triangle_def SubMesh_new_def)
  from Visit_is_scan [OF tolerant_std v m this] show ?thesis unfolding near_def by blast
qed

text \<open>
  C8. \<open>RecalculateNormals\<close> on a triangle mesh returns, leaves everything but the normals as it
  was and has one normal for every vertex: the normalised sum of the normals of all faces with a
  corner the search finds that vertex at, whatever the normals were before.\<close>

theorem RecalculateNormals_sums:
  assumes "tolerant M" and "primitiveType s = TRIANGLES" and "length (indices s) mod 3 = 0"
    and "HasValidIndices s"
  shows "\<exists>s'. RecalculateNormals M s = Some s' \<and> s' \<lparr> normals := normals s \<rparr> = s \<and>
     length (normals s') = length (vertices s) \<and>
     (\<forall>j < length (vertices s). normals s' ! j =
        Normalize_v M
          (foldl (plus_v M) (if j < length (normals s) then \<lparr> vX = 0, vY = 0, vZ = 0 \<rparr> else default_v M)
             (map snd (filter (\<lambda>(i, n). unat i = j) (contributions M s)))))"
proof -
  have v: "valid s" using assms(4) by (rule HasValidIndices_valid)
  then have v': "\<forall>i \<in> set (indices s). unat i < length (vertices s)" by (simp add: valid_def)
  obtain m where m: "Neighbors (vertices s) (indices s) [] = Some m" using Neighbors_Some [OF v'] by auto
  have h: "p \<in> set (corners s) \<Longrightarrow>
      Visit M (vertices s) m p = Some (near M (vertices s) (indices s) p)" for p
    unfolding near_def by (rule Visit_scan [OF assms(1) v' m]) (auto simp: corners_def)
  note R = RecalculateNormals_run [OF assms(2-4) m h set_near, folded contributions_def]
  have "\<forall>(i, n) \<in> set (contributions M s). unat i < length (reset_normals M s)"
    using contributions_range [OF v] by auto
  note N = nth_bumps [OF _ this]
  show ?thesis using R by (auto simp: N nth_reset)
qed

theorem RecalculateNormals_sums_witness:
  "\<exists>s'. RecalculateNormals std_math unit_triangle = Some s' \<and> length (normals s') = 3"
  using RecalculateNormals_sums [OF tolerant_std unit_triangle_simps(1-3)] unit_triangle_simps(4) by auto

lemma RecalculateNormals_total:
  "\<exists>ns. RecalculateNormals M s = Some (s \<lparr> normals := ns \<rparr>) \<and>
     (length (normals s) = length (vertices s) \<longrightarrow> length ns = length (vertices s))"
proof (cases "primitiveType s = TRIANGLES \<and> length (indices s) mod 3 = 0 \<and> HasValidIndices s")
  case True
  then have v: "\<forall>i \<in> set (indices s). unat i < length (vertices s)"
    using HasValidIndices_valid by (simp add: valid_def)
  obtain m where m: "Neighbors (vertices s) (indices s) [] = Some m" "grouped (vertices s) (indices s) m"
    using Neighbors_Some [OF v] by auto
  define h where "h p = the (Visit M (vertices s) m p)" for p
  have h: "Visit M (vertices s) m p = Some (h p)" "set (h p) \<subseteq> set (indices s)" for p
    using Visit_Some [OF v m(2), of M p] by (auto simp: h_def)
  show ?thesis using RecalculateNormals_run [OF _ _ _ m(1) h] True by auto
next
  case False
  then have "RecalculateNormals M s = Some (s \<lparr> normals := normals s \<rparr>)" by (auto simp: RecalculateNormals_def)
  then show ?thesis by blast
qed

text \<open>
  Whatever the mesh and the vector operations are, \<open>RecalculateNormals\<close>, \<open>Volume\<close> and
  \<open>Centroid\<close> return and read and write no vector out of range.\<close>

theorem mesh_loops_in_range:
  "(\<exists>s'. RecalculateNormals M s = Some s') \<and> (\<exists>v. Volume M s = Some v) \<and> (\<exists>c. Centroid M s = Some c)"
proof (cases "primitiveType s = TRIANGLES \<and> length (indices s) mod 3 = 0 \<and> HasValidIndices s")
  case True
  then have v: "valid s" and d: "3 dvd length (indices s) - 0" by (auto simp: HasValidIndices_valid)
  obtain r where "Centroid_loop M s 0 0 (default_v M) = Some r" using Centroid_loop_Some [OF v d] by blast
  then have "\<exists>c. Centroid M s = Some c" using True by (cases r) (simp add: Centroid_def)
  moreover have "\<exists>x. Volume M s = Some x" using True Volume_loop_sum [OF v d] by (simp add: Volume_def)
  moreover have "\<exists>s'. RecalculateNormals M s = Some s'"
    using RecalculateNormals_total [of M s] by blast
  ultimately show ?thesis by blast
next
  case False
  then show ?thesis by (auto simp: RecalculateNormals_def Volume_def Centroid_def)
qed

subsection \<open>The volume of a closed mesh\<close>

text \<open>What gz-math documents of its vectors: they add, subtract and scale by coordinate, and have
  the usual cross and dot product.\<close>

definition coordinatewise :: "gz_math \<Rightarrow> bool" where
  "coordinatewise M \<longleftrightarrow>
     (\<forall>v w. plus_v M v w = \<lparr> vX = vX v + vX w, vY = vY v + vY w, vZ = vZ v + vZ w \<rparr>) \<and>
     (\<forall>v w. minus_v M v w = \<lparr> vX = vX v - vX w, vY = vY v - vY w, vZ = vZ v - vZ w \<rparr>) \<and>
     (\<forall>v r. scale_v M v r = \<lparr> vX = vX v * r, vY = vY v * r, vZ = vZ v * r \<rparr>) \<and>
     (\<forall>v w. Cross_v M v w = \<lparr> vX = vY v * vZ w - vZ v * vY w, vY = vZ v * vX w - vX v * vZ w,
                               vZ = vX v * vY w - vY v * vX w \<rparr>) \<and>
     (\<forall>v w. Dot_v M v w = vX v * vX w + vY v * vY w + vZ v * vZ w)"

lemma coordinatewise_std: "coordinatewise std_math"
  by (simp add: coordinatewise_def std_math_def)

lemmas coordinatewise_simps = coordinatewise_def [THEN iffD1, THEN conjunct1, rule_format]
  coordinatewise_def [THEN iffD1, THEN conjunct2, THEN conjunct1, rule_format]
  coordinatewise_def [THEN iffD1, THEN conjunct2, THEN conjunct2, THEN conjunct1, rule_format]
  coordinatewise_def [THEN iffD1, THEN conjunct2, THEN conjunct2, THEN conjunct2, THEN conjunct1, rule_format]
  coordinatewise_def [THEN iffD1, THEN conjunct2, THEN conjunct2, THEN conjunct2, THEN conjunct2, rule_format]

text \<open>A mesh is closed when every directed edge of its triangles is met by the opposite one.\<close>

definition edges :: "SubMesh \<Rightarrow> (Vector3d \<times> Vector3d) list" where
  "edges s = concat (map (\<lambda>(a, b, c). [(a, b), (b, c), (c, a)]) (triples (corners s)))"

definition closed_mesh :: "SubMesh \<Rightarrow> bool" where
  "closed_mesh s \<longleftrightarrow> mset (edges s) = mset (map (\<lambda>(a, b). (b, a)) (edges s))"

lemma tetra_translate:
  assumes "coordinatewise M"
  shows "tetra M (plus_v M a d) (plus_v M b d) (plus_v M c d) =
     tetra M a b c + (tetra M d a b + tetra M d b c + tetra M d c a)"
proof -
  define ax ay az bx "by" bz cx cy cz dx dy dz where "ax = vX a" "ay = vY a" "az = vZ a"
    "bx = vX b" "by = vY b" "bz = vZ b" "cx = vX c" "cy = vY c" "cz = vZ c" "dx = vX d" "dy = vY d" "dz = vZ d"
  note names = this
  have "((ay + dy) * (bz + dz) - (az + dz) * (by + dy)) * (cx + dx) +
        ((az + dz) * (bx + dx) - (ax + dx) * (bz + dz)) * (cy + dy) +
        ((ax + dx) * (by + dy) - (ay + dy) * (bx + dx)) * (cz + dz) =
        ((ay * bz - az * by) * cx + (az * bx - ax * bz) * cy + (ax * by - ay * bx) * cz) +
        (((dy * az - dz * ay) * bx + (dz * ax - dx * az) * by + (dx * ay - dy * ax) * bz) +
         ((dy * bz - dz * by) * cx + (dz * bx - dx * bz) * cy + (dx * by - dy * bx) * cz) +
         ((dy * cz - dz * cy) * ax + (dz * cx - dx * cz) * ay + (dx * cy - dy * cx) * az))"
    by algebra
  then show ?thesis
    by (simp add: tetra_def coordinatewise_simps [OF assms] names add_divide_distrib [symmetric])
qed

lemma tetra_swap:
  assumes "coordinatewise M"
  shows "tetra M d b a = - tetra M d a b"
proof -
  have "Dot_v M (Cross_v M d b) a = - Dot_v M (Cross_v M d a) b"
    unfolding coordinatewise_simps [OF assms] by (simp add: algebra_simps)
  then show ?thesis by (simp add: tetra_def)
qed

lemma sum_edges_closed:
  assumes "coordinatewise M" and "closed_mesh s"
  shows "sum_list (map (\<lambda>(a, b). tetra M d a b) (edges s)) = 0"
proof -
  let ?g = "\<lambda>(a, b). tetra M d a b"
  have "sum_list (map ?g (edges s)) = sum_mset (image_mset ?g (mset (edges s)))"
    by (simp flip: sum_mset_sum_list mset_map)
  also have "\<dots> = sum_list (map ?g (map (\<lambda>(a, b). (b, a)) (edges s)))"
    using assms(2) unfolding closed_mesh_def by (simp flip: sum_mset_sum_list mset_map)
  also have "\<dots> = - sum_list (map ?g (edges s))"
  proof -
    have "?g \<circ> (\<lambda>(a, b). (b, a)) = uminus \<circ> ?g"
    proof (rule ext, clarify)
      fix a b
      show "(?g \<circ> (\<lambda>(a, b). (b, a))) (a, b) = (uminus \<circ> ?g) (a, b)"
        unfolding o_def prod.case by (rule tetra_swap [OF assms(1)])
    qed
    then show ?thesis by (simp add: uminus_sum_list_map)
  qed
  finally show ?thesis by simp
qed

lemma triples_map: "triples (map f xs) = map (\<lambda>(a, b, c). (f a, f b, f c)) (triples xs)"
  by (induction xs rule: triples.induct) auto

lemma sum_tetra_translate:
  assumes "coordinatewise M"
  shows "sum_list (map (\<lambda>(a, b, c). tetra M a b c) (triples (map (\<lambda>v. plus_v M v d) xs))) =
     sum_list (map (\<lambda>(a, b, c). tetra M a b c) (triples xs)) +
     sum_list (map (\<lambda>(a, b). tetra M d a b)
       (concat (map (\<lambda>(a, b, c). [(a, b), (b, c), (c, a)]) (triples xs))))"
  by (induction xs rule: triples.induct) (auto simp: tetra_translate [OF assms])

lemma Volume_sum:
  assumes "primitiveType s = TRIANGLES" and "length (indices s) mod 3 = 0" and "HasValidIndices s"
  shows "Volume M s = Some \<bar>sum_list (map (\<lambda>(a, b, c). tetra M a b c) (triples (corners s)))\<bar>"
proof -
  have "3 dvd length (indices s) - 0" using assms(2) by auto
  from Volume_loop_sum [OF HasValidIndices_valid [OF assms(3)] this, of M 0] assms show ?thesis
    by (simp add: Volume_def)
qed

text \<open>
  C9. The volume of a closed mesh does not depend on where its origin lies: translating the
  mesh by any vector leaves \<open>Volume\<close> as it was.\<close>

theorem Volume_translate:
  assumes "coordinatewise M" and "closed_mesh s"
  shows "Volume M (Translate M d s) = Volume M s"
proof (cases "primitiveType s = TRIANGLES \<and> length (indices s) mod 3 = 0 \<and> HasValidIndices s")
  case True
  let ?t = "Translate M d s"
  have t: "primitiveType ?t = TRIANGLES" "length (indices ?t) mod 3 = 0" "HasValidIndices ?t"
    using True by (auto simp: Translate_def HasValidIndices_def)
  have v: "valid s" using True by (simp add: HasValidIndices_valid)
  then have "corners ?t = map (\<lambda>v. plus_v M v d) (corners s)"
    by (simp add: corners_def Translate_def valid_def)
  with True show ?thesis
    using sum_edges_closed [OF assms, of d] sum_tetra_translate [OF assms(1), of d "corners s"]
    by (simp add: Volume_sum [OF t] Volume_sum edges_def)
next
  case False
  then show ?thesis by (auto simp: Volume_def Translate_def HasValidIndices_def)
qed

definition unit_tetrahedron :: SubMesh where
  "unit_tetrahedron = SubMesh_new ''t''
     \<lparr> vertices := [\<lparr> vX = 0, vY = 0, vZ = 0 \<rparr>, \<lparr> vX = 1, vY = 0, vZ = 0 \<rparr>,
                    \<lparr> vX = 0, vY = 1, vZ = 0 \<rparr>, \<lparr> vX = 0, vY = 0, vZ = 1 \<rparr>],
       indices := [0, 2, 1, 0, 1, 3, 0, 3, 2, 1, 2, 3] \<rparr>"

theorem Volume_translate_witness:
  "Volume std_math (Translate std_math \<lparr> vX = 5, vY = 6, vZ = 7 \<rparr> unit_tetrahedron) = Some (1 / 6)"
proof -
  have c: "corners unit_tetrahedron = map ((!) (vertices unit_tetrahedron)) [0, 2, 1, 0, 1, 3, 0, 3, 2, 1, 2, 3]"
    by (simp add: corners_def unit_tetrahedron_def SubMesh_new_def)
  have "closed_mesh unit_tetrahedron"
    by (simp add: closed_mesh_def edges_def c)
  moreover have "Volume std_math unit_tetrahedron = Some (1 / 6)"
  proof -
    have "primitiveType unit_tetrahedron = TRIANGLES" "length (indices unit_tetrahedron) mod 3 = 0"
      "HasValidIndices unit_tetrahedron"
      by (simp_all add: unit_tetrahedron_def SubMesh_new_def HasValidIndices_def)
    note V = Volume_sum [OF this]
    show ?thesis unfolding V c
      by (simp add: tetra_def std_math_def unit_tetrahedron_def SubMesh_new_def)
  qed
  ultimately show ?thesis using Volume_translate [OF coordinatewise_std] by simp
qed

subsection \<open>The bounding box\<close>

lemma foldl_max3:
  "vX (foldl max3 m vs) = foldl max (vX m) (map vX vs)"
  "vY (foldl max3 m vs) = foldl max (vY m) (map vY vs)"
  "vZ (foldl max3 m vs) = foldl max (vZ m) (map vZ vs)"
  by (induction vs arbitrary: m) (simp_all add: max3_def)

lemma foldl_min3:
  "vX (foldl min3 m vs) = foldl min (vX m) (map vX vs)"
  "vY (foldl min3 m vs) = foldl min (vY m) (map vY vs)"
  "vZ (foldl min3 m vs) = foldl min (vZ m) (map vZ vs)"
  by (induction vs arbitrary: m) (simp_all add: min3_def)

lemma foldl_max_Max:
  fixes b :: real
  assumes "xs \<noteq> []" and "\<forall>x \<in> set xs. b \<le> x"
  shows "foldl max b xs = Max (set xs)"
proof -
  have "max = (\<lambda>x y :: real. max y x)" by (auto simp: fun_eq_iff max.commute)
  then have "foldl max b xs = fold max xs b" by (simp add: foldl_conv_fold)
  also have "\<dots> = Max (insert b (set xs))" using Max.set_eq_fold [of b xs] by simp
  finally show ?thesis using assms by (simp add: max_absorb2)
qed

lemma foldl_min_Min:
  fixes b :: real
  assumes "xs \<noteq> []" and "\<forall>x \<in> set xs. x \<le> b"
  shows "foldl min b xs = Min (set xs)"
proof -
  have "min = (\<lambda>x y :: real. min y x)" by (auto simp: fun_eq_iff min.commute)
  then have "foldl min b xs = fold min xs b" by (simp add: foldl_conv_fold)
  also have "\<dots> = Min (insert b (set xs))" using Min.set_eq_fold [of b xs] by simp
  finally show ?thesis using assms by (simp add: min_absorb2)
qed

text \<open>All coordinates are within \<open>-MAX_F\<close> and \<open>MAX_F\<close>, the values the search for the extremes
  starts from.\<close>

definition within_MAX_F :: "gz_math \<Rightarrow> SubMesh \<Rightarrow> bool" where
  "within_MAX_F M s \<longleftrightarrow>
     (\<forall>v \<in> set (vertices s). \<bar>vX v\<bar> \<le> MAX_F M \<and> \<bar>vY v\<bar> \<le> MAX_F M \<and> \<bar>vZ v\<bar> \<le> MAX_F M)"

text \<open>The middle of the extent along one axis.\<close>

definition middle :: "(Vector3d \<Rightarrow> real) \<Rightarrow> SubMesh \<Rightarrow> real" where
  "middle ax s = (Min (ax ` set (vertices s)) + Max (ax ` set (vertices s))) / 2"

lemma bounding_box:
  assumes "vertices s \<noteq> []" and "within_MAX_F M s"
  shows Max_v_box: "Max_v M s = \<lparr> vX = Max (vX ` set (vertices s)), vY = Max (vY ` set (vertices s)),
                       vZ = Max (vZ ` set (vertices s)) \<rparr>"
    and Min_v_box: "Min_v M s = \<lparr> vX = Min (vX ` set (vertices s)), vY = Min (vY ` set (vertices s)),
                       vZ = Min (vZ ` set (vertices s)) \<rparr>"
proof -
  have "\<forall>x \<in> set (map ax (vertices s)). - MAX_F M \<le> x \<and> x \<le> MAX_F M" if "ax \<in> {vX, vY, vZ}" for ax
    using assms(2) that by (auto simp: within_MAX_F_def abs_le_iff minus_le_iff)
  then have up: "foldl max (- MAX_F M) (map ax (vertices s)) = Max (ax ` set (vertices s))"
    and lo: "foldl min (MAX_F M) (map ax (vertices s)) = Min (ax ` set (vertices s))"
    if "ax \<in> {vX, vY, vZ}" for ax
    using that assms(1) foldl_max_Max [of "map ax (vertices s)"] foldl_min_Min [of "map ax (vertices s)"]
    by (metis list.map_disc_iff list.set_map)+
  show "Max_v M s = \<lparr> vX = Max (vX ` set (vertices s)), vY = Max (vY ` set (vertices s)),
                       vZ = Max (vZ ` set (vertices s)) \<rparr>"
    using assms(1) by (intro Vector3d.equality) (simp_all add: Max_v_def foldl_max3 up)
  show "Min_v M s = \<lparr> vX = Min (vX ` set (vertices s)), vY = Min (vY ` set (vertices s)),
                       vZ = Min (vZ ` set (vertices s)) \<rparr>"
    using assms(1) by (intro Vector3d.equality) (simp_all add: Min_v_def foldl_min3 lo)
qed

lemma middle_shift:
  assumes "vertices s \<noteq> []" and "\<And>v. ax (plus_v M v d) = ax v + k"
  shows "middle ax (Translate M d s) = middle ax s + k"
proof -
  have "ax ` set (vertices (Translate M d s)) = (\<lambda>v. ax v + k) ` set (vertices s)"
    by (simp add: Translate_def image_image assms(2))
  moreover have "Max ((\<lambda>v. ax v + k) ` set (vertices s)) = Max (ax ` set (vertices s)) + k"
    "Min ((\<lambda>v. ax v + k) ` set (vertices s)) = Min (ax ` set (vertices s)) + k"
    using assms(1) by (simp_all add: Max_add_commute Min_add_commute)
  ultimately show ?thesis unfolding middle_def by simp
qed

text \<open>
  \<open>Center\<close> moves a non-empty mesh so that the middle of its bounding box is the point asked
  for, on every axis.\<close>

theorem Center_middle:
  assumes "coordinatewise M" and "vertices s \<noteq> []" and "within_MAX_F M s"
  shows "middle vX (Center M c s) = vX c \<and> middle vY (Center M c s) = vY c \<and>
         middle vZ (Center M c s) = vZ c"
proof -
  define d where "d = minus_v M c (plus_v M (Min_v M s) (scale_v M (minus_v M (Max_v M s) (Min_v M s)) (1 / 2)))"
  have c: "Center M c s = Translate M d s" by (simp add: Center_def Let_def d_def)
  have d: "vX d = vX c - middle vX s" "vY d = vY c - middle vY s" "vZ d = vZ c - middle vZ s"
    by (simp_all add: d_def coordinatewise_simps [OF assms(1)] Max_v_box [OF assms(2,3)] Min_v_box [OF assms(2,3)] middle_def field_simps)
  have "vX (plus_v M v d) = vX v + vX d" "vY (plus_v M v d) = vY v + vY d"
    "vZ (plus_v M v d) = vZ v + vZ d" for v by (simp_all add: coordinatewise_simps [OF assms(1)])
  then show ?thesis using d by (simp add: c middle_shift [OF assms(2)])
qed

subsection \<open>Generated texture coordinates\<close>

lemma AddTexCoords_fold:
  "map_of (texCoords s) k = Some ts \<Longrightarrow>
     map_of (texCoords (fold (\<lambda>v s. AddTexCoordBySet (fst (f v)) (snd (f v)) k s) vs s)) =
     (map_of (texCoords s))(k \<mapsto> ts @ map f vs)"
  by (induction vs arbitrary: s ts)
    (auto simp: AddTexCoordBySet_def mpush_def mvec_def fun_upd_idem)

text \<open>
  \<open>GenSphericalTexCoordBySet\<close> replaces the set by one coordinate per vertex, its spherical
  projection, and leaves the other sets alone; both coordinates lie between 0 and 1.\<close>

theorem GenSphericalTexCoord_result:
  "map_of (texCoords (GenSphericalTexCoordBySet c k s)) =
     (map_of (texCoords s))(k \<mapsto> map (sphere_uv c) (vertices s)) \<and>
   0 \<le> fst (sphere_uv c v) \<and> fst (sphere_uv c v) \<le> 1 \<and>
   0 \<le> snd (sphere_uv c v) \<and> snd (sphere_uv c v) \<le> 1"
proof -
  let ?s = "s \<lparr> texCoords := mput k [] (texCoords s) \<rparr>"
  have "map_of (texCoords ?s) k = Some []" by simp
  from AddTexCoords_fold [OF this, of "sphere_uv c" "vertices s"]
  have "map_of (texCoords (GenSphericalTexCoordBySet c k s)) =
      (map_of (texCoords s))(k \<mapsto> map (sphere_uv c) (vertices s))"
    by (simp add: GenSphericalTexCoordBySet_def)
  moreover have "0 \<le> arccos y / pi \<and> arccos y / pi \<le> 1" if "- 1 \<le> y" "y \<le> 1" for y :: real
    using arccos_lbound [OF that] arccos_ubound [OF that] by simp
  ultimately show ?thesis by (simp add: sphere_uv_def Let_def)
qed

end
