(* ===== verification/Mesh_Model.thy ===== *)
theory Mesh_Model
  imports Sub_Mesh
begin

section \<open>Mesh: sub-meshes, materials and flat arrays\<close>

text \<open>
  Class \<open>Mesh\<close> of \<^verbatim>\<open>graphics/src/Mesh.cc\<close>. The mesh owns its sub-meshes; a weak pointer to one
  is its position, which never changes since sub-meshes are only added. Materials and the
  skeleton are shared objects known by address, with \<^const>\<open>None\<close> for the null pointer.
\<close>

record Mesh =
  mesh_name :: string
  mesh_path :: string
  submeshes :: "SubMesh list"
  materials :: "nat list"
  skeleton :: "nat option"

definition Mesh_new :: Mesh where
  "Mesh_new = \<lparr> mesh_name = ''unknown'', mesh_path = [], submeshes = [], materials = [], skeleton = None \<rparr>"

definition SetPath :: "string \<Rightarrow> Mesh \<Rightarrow> Mesh" where
  "SetPath p m = m \<lparr> mesh_path := p \<rparr>"

definition Path :: "Mesh \<Rightarrow> string" where
  "Path m = mesh_path m"

definition Mesh_SetName :: "string \<Rightarrow> Mesh \<Rightarrow> Mesh" where
  "Mesh_SetName n m = m \<lparr> mesh_name := n \<rparr>"

definition Mesh_Name :: "Mesh \<Rightarrow> string" where
  "Mesh_Name m = mesh_name m"

definition Mesh_Max :: "gz_math \<Rightarrow> Mesh \<Rightarrow> Vector3d" where
  "Mesh_Max M m =
     (if submeshes m = [] then Zero_v M
      else foldl (\<lambda>b s. max3 b (Max_v M s)) \<lparr> vX = - MAX_F M, vY = - MAX_F M, vZ = - MAX_F M \<rparr>
             (submeshes m))"

definition Mesh_Min :: "gz_math \<Rightarrow> Mesh \<Rightarrow> Vector3d" where
  "Mesh_Min M m =
     (if submeshes m = [] then Zero_v M
      else foldl (\<lambda>b s. min3 b (Min_v M s)) \<lparr> vX = MAX_F M, vY = MAX_F M, vZ = MAX_F M \<rparr>
             (submeshes m))"

text \<open>The counts are sums of \<open>unsigned int\<close> values, modulo \<open>2^32\<close>.\<close>

definition Mesh_VertexCount :: "Mesh \<Rightarrow> 32 word" where
  "Mesh_VertexCount m = foldl (\<lambda>sum s. sum + VertexCount s) 0 (submeshes m)"

definition Mesh_NormalCount :: "Mesh \<Rightarrow> 32 word" where
  "Mesh_NormalCount m = foldl (\<lambda>sum s. sum + NormalCount s) 0 (submeshes m)"

definition Mesh_IndexCount :: "Mesh \<Rightarrow> 32 word" where
  "Mesh_IndexCount m = foldl (\<lambda>sum s. sum + IndexCount s) 0 (submeshes m)"

definition Mesh_TexCoordCount :: "Mesh \<Rightarrow> 32 word" where
  "Mesh_TexCoordCount m = foldl (\<lambda>sum s. sum + TexCoordCount s) 0 (submeshes m)"

text \<open>Both overloads of \<open>AddSubMesh\<close>: a copy, and a sub-mesh handed over.\<close>

definition AddSubMesh :: "SubMesh \<Rightarrow> Mesh \<Rightarrow> nat \<times> Mesh" where
  "AddSubMesh s m = (length (submeshes m), m \<lparr> submeshes := submeshes m @ [s] \<rparr>)"

definition SubMeshCount :: "Mesh \<Rightarrow> 32 word" where
  "SubMeshCount m = word_of_nat (length (submeshes m))"

definition SubMeshByIndex :: "32 word \<Rightarrow> Mesh \<Rightarrow> nat option" where
  "SubMeshByIndex i m = (if unat i < length (submeshes m) then Some (unat i) else None)"

definition SubMeshByName :: "string \<Rightarrow> Mesh \<Rightarrow> nat option" where
  "SubMeshByName n m = find_index (\<lambda>s. Name s = n) (submeshes m)"

definition AddMaterial :: "nat option \<Rightarrow> Mesh \<Rightarrow> int \<times> Mesh" where
  "AddMaterial mat m =
     (case mat of
        None \<Rightarrow> (- 1, m)
      | Some a \<Rightarrow> (let ms = materials m @ [a]
                    in (sint (word_of_nat (length ms - 1) :: 32 word), m \<lparr> materials := ms \<rparr>)))"

definition MaterialCount :: "Mesh \<Rightarrow> 32 word" where
  "MaterialCount m = word_of_nat (length (materials m))"

definition MaterialByIndex :: "32 word \<Rightarrow> Mesh \<Rightarrow> nat option" where
  "MaterialByIndex i m = (if unat i < length (materials m) then Some (materials m ! unat i) else None)"

definition IndexOfMaterial :: "nat option \<Rightarrow> Mesh \<Rightarrow> int" where
  "IndexOfMaterial mat m =
     (case mat of
        None \<Rightarrow> - 1
      | Some a \<Rightarrow> (case find_index ((=) a) (materials m) of
                      None \<Rightarrow> - 1 | Some i \<Rightarrow> sint (word_of_nat i :: 32 word)))"

definition SetSkeleton :: "nat option \<Rightarrow> Mesh \<Rightarrow> Mesh" where
  "SetSkeleton k m = m \<lparr> skeleton := k \<rparr>"

definition MeshSkeleton :: "Mesh \<Rightarrow> nat option" where
  "MeshSkeleton m = skeleton m"

definition HasSkeleton :: "Mesh \<Rightarrow> bool" where
  "HasSkeleton m \<longleftrightarrow> skeleton m \<noteq> None"

subsection \<open>Operations on all sub-meshes\<close>

fun all_some :: "('a \<Rightarrow> 'b option) \<Rightarrow> 'a list \<Rightarrow> 'b list option" where
  "all_some f [] = Some []"
| "all_some f (x # xs) = do { y \<leftarrow> f x; ys \<leftarrow> all_some f xs; Some (y # ys) }"

definition Mesh_RecalculateNormals :: "gz_math \<Rightarrow> Mesh \<Rightarrow> Mesh option" where
  "Mesh_RecalculateNormals M m =
     do { ss \<leftarrow> all_some (RecalculateNormals M) (submeshes m); Some (m \<lparr> submeshes := ss \<rparr>) }"

definition Mesh_Scale :: "gz_math \<Rightarrow> Vector3d \<Rightarrow> Mesh \<Rightarrow> Mesh" where
  "Mesh_Scale M f m = m \<lparr> submeshes := map (Scale_v M f) (submeshes m) \<rparr>"

definition Mesh_SetScale :: "gz_math \<Rightarrow> Vector3d \<Rightarrow> Mesh \<Rightarrow> Mesh" where
  "Mesh_SetScale M f m = m \<lparr> submeshes := map (Scale_v M f) (submeshes m) \<rparr>"

definition Mesh_GenSphericalTexCoord :: "Vector3d \<Rightarrow> Mesh \<Rightarrow> Mesh" where
  "Mesh_GenSphericalTexCoord c m = m \<lparr> submeshes := map (GenSphericalTexCoord c) (submeshes m) \<rparr>"

definition Mesh_Translate :: "gz_math \<Rightarrow> Vector3d \<Rightarrow> Mesh \<Rightarrow> Mesh" where
  "Mesh_Translate M d m = m \<lparr> submeshes := map (Translate M d) (submeshes m) \<rparr>"

definition Mesh_Center :: "gz_math \<Rightarrow> Vector3d \<Rightarrow> Mesh \<Rightarrow> Mesh" where
  "Mesh_Center M c m =
     (let min = Mesh_Min M m; max = Mesh_Max M m; half = scale_v M (minus_v M max min) (1 / 2)
      in Mesh_Translate M (minus_v M c (plus_v M min half)) m)"

definition AABB :: "gz_math \<Rightarrow> Mesh \<Rightarrow> Vector3d \<times> Vector3d \<times> Vector3d" where
  "AABB M m =
     (let lo = foldl (\<lambda>b s. min3 b (Min_v M s)) \<lparr> vX = 10 ^ 15, vY = 10 ^ 15, vZ = 10 ^ 15 \<rparr> (submeshes m);
          hi = foldl (\<lambda>b s. max3 b (Max_v M s)) \<lparr> vX = - (10 ^ 15), vY = - (10 ^ 15), vZ = - (10 ^ 15) \<rparr>
                 (submeshes m)
      in (\<lparr> vX = 1 / 2 * (vX lo + vX hi), vY = 1 / 2 * (vY lo + vY hi), vZ = 1 / 2 * (vZ lo + vZ hi) \<rparr>,
          lo, hi))"

definition Mesh_Volume :: "gz_math \<Rightarrow> Mesh \<Rightarrow> real option" where
  "Mesh_Volume M m = map_option (foldl (+) 0) (all_some (Volume M) (submeshes m))"

fun Mesh_Centroid_loop :: "gz_math \<Rightarrow> SubMesh list \<Rightarrow> Vector3d \<Rightarrow> real \<Rightarrow> (Vector3d \<times> real) option" where
  "Mesh_Centroid_loop M [] mom vol = Some (mom, vol)"
| "Mesh_Centroid_loop M (s # ss) mom vol =
     do { v \<leftarrow> Volume M s; c \<leftarrow> Centroid M s;
          Mesh_Centroid_loop M ss (plus_v M mom (scale_v M c v)) (vol + v) }"

definition Mesh_Centroid :: "gz_math \<Rightarrow> Mesh \<Rightarrow> Vector3d option" where
  "Mesh_Centroid M m =
     do { (mom, vol) \<leftarrow> Mesh_Centroid_loop M (submeshes m) (default_v M) 0;
          Some (if vol < 1 / 10 ^ 16 then Zero_v M else div_v M mom vol) }"

subsection \<open>Flat arrays\<close>

text \<open>\<open>memcpy\<close> into a buffer at a position; a write past its end is \<^const>\<open>None\<close>.\<close>

definition blit :: "'a list \<Rightarrow> nat \<Rightarrow> 'a list \<Rightarrow> 'a list option" where
  "blit buf pos src =
     (if pos + length src \<le> length buf
      then Some (take pos buf @ src @ drop (pos + length src) buf) else None)"

text \<open>The source of the copy is the array \<open>SubMesh::FillArrays\<close> allocated, or the null pointer
  when it refused: a copy of nothing is then harmless, any other one undefined.\<close>

definition vert_source :: "(real \<Rightarrow> real) \<Rightarrow> SubMesh \<Rightarrow> real list option" where
  "vert_source to_float s =
     (case FillArrays to_float s of
        Some (va, ia) \<Rightarrow> Some (take (3 * unat (VertexCount s)) va)
      | None \<Rightarrow> if VertexCount s = 0 then Some [] else None)"

definition shifted_indices :: "32 word \<Rightarrow> SubMesh \<Rightarrow> int list" where
  "shifted_indices offset s =
     map (\<lambda>i. sint (word_of_int (Index (word_of_nat i) s) + offset)) [0..<unat (IndexCount s)]"

fun Mesh_FillArrays_loop :: "(real \<Rightarrow> real) \<Rightarrow> SubMesh list \<Rightarrow> nat \<Rightarrow> 32 word \<Rightarrow> 32 word \<Rightarrow>
    real list \<Rightarrow> int list \<Rightarrow> (real list \<times> int list) option" where
  "Mesh_FillArrays_loop to_float [] vPtr index offset va ia = Some (va, ia)"
| "Mesh_FillArrays_loop to_float (s # ss) vPtr index offset va ia =
     do { src \<leftarrow> vert_source to_float s;
          va' \<leftarrow> blit va vPtr src;
          ia' \<leftarrow> blit ia (unat index) (shifted_indices offset s);
          Mesh_FillArrays_loop to_float ss (vPtr + unat (VertexCount s * 3)) (index + IndexCount s)
            (offset + MaxIndex s + 1) va' ia' }"

text \<open>\<open>junk\<close> is what the freshly allocated arrays hold.\<close>

definition Mesh_FillArrays :: "(real \<Rightarrow> real) \<Rightarrow> real \<times> int \<Rightarrow> Mesh \<Rightarrow> (real list \<times> int list) option" where
  "Mesh_FillArrays to_float junk m =
     Mesh_FillArrays_loop to_float (submeshes m) 0 0 0
       (replicate (unat (Mesh_VertexCount m * 3)) (fst junk))
       (replicate (unat (Mesh_IndexCount m)) (snd junk))"

subsection \<open>What the flat arrays say\<close>

text \<open>A sub-mesh whose indices use the last vertex, so that the largest index is the vertex count
  less one.\<close>

definition compact :: "SubMesh \<Rightarrow> bool" where
  "compact s \<longleftrightarrow> HasValidIndices s \<and> Suc (unat (MaxIndex s)) = length (vertices s)"

definition total_vertices :: "SubMesh list \<Rightarrow> nat" where
  "total_vertices ss = sum_list (map (\<lambda>s. length (vertices s)) ss)"

definition total_indices :: "SubMesh list \<Rightarrow> nat" where
  "total_indices ss = sum_list (map (\<lambda>s. length (indices s)) ss)"

abbreviation coords :: "(real \<Rightarrow> real) \<Rightarrow> Vector3d \<Rightarrow> real list" where
  "coords f v \<equiv> [f (vX v), f (vY v), f (vZ v)]"

fun shifted :: "nat \<Rightarrow> SubMesh list \<Rightarrow> int list" where
  "shifted n [] = []"
| "shifted n (s # ss) = map (\<lambda>i. int (unat i + n)) (indices s) @ shifted (n + length (vertices s)) ss"

lemma length_coords [simp]: "length (concat (map (coords f) vs)) = 3 * length vs"
  by (induction vs) auto

lemma blit_replicate:
  "length src \<le> n \<Longrightarrow> blit (done @ replicate n x) (length done) src = Some ((done @ src) @ replicate (n - length src) x)"
  by (simp add: blit_def)

lemma compact_vert_source:
  assumes "compact s" and "length (vertices s) < 2 ^ 32"
  shows "vert_source f s = Some (concat (map (coords f) (vertices s)))"
proof -
  have "vertices s \<noteq> []" "indices s \<noteq> []" using assms(1) by (auto simp: compact_def HasValidIndices_def)
  moreover have "unat (VertexCount s) = length (vertices s)"
    using assms(2) by (simp add: VertexCount_def unat_of_nat take_bit_nat_eq_self)
  ultimately show ?thesis by (simp add: vert_source_def FillArrays_def)
qed

lemma sint_small: "k < 2 ^ 31 \<Longrightarrow> sint (word_of_nat k :: 32 word) = int k"
  by (simp add: signed_of_nat signed_take_bit_int_eq_self)

lemma compact_shifted:
  assumes "compact s" and "length (vertices s) + n < 2 ^ 31" and "length (indices s) < 2 ^ 32"
  shows "shifted_indices (word_of_nat n) s = map (\<lambda>i. int (unat i + n)) (indices s)"
proof -
  have count: "unat (IndexCount s) = length (indices s)"
    using assms(3) by (simp add: IndexCount_def unat_of_nat take_bit_nat_eq_self)
  have "sint (word_of_int (Index (word_of_nat i) s) + word_of_nat n :: 32 word) = int (unat (indices s ! i) + n)"
    if i: "i < length (indices s)" for i
  proof -
    have "unat (word_of_nat i :: 32 word) = i" using i assms(3) by (simp add: unat_of_nat take_bit_nat_eq_self)
    then have "word_of_int (Index (word_of_nat i) s) = indices s ! i" using i by (simp add: Index_def)
    moreover have "unat (indices s ! i) < length (vertices s)"
      using assms(1) i by (auto simp: compact_def HasValidIndices_def list_all_iff)
    then have "indices s ! i + word_of_nat n = word_of_nat (unat (indices s ! i) + n)"
      "unat (indices s ! i) + n < 2 ^ 31" using assms(2) by simp_all
    ultimately show ?thesis by (simp only: sint_small)
  qed
  then show ?thesis unfolding shifted_indices_def count
    by (intro nth_equalityI) simp_all
qed

lemma total_Cons [simp]:
  "total_vertices (s # ss) = length (vertices s) + total_vertices ss"
  "total_indices (s # ss) = length (indices s) + total_indices ss"
  "total_vertices [] = 0" "total_indices [] = 0"
  by (simp_all add: total_vertices_def total_indices_def)

lemma word_length: "n < 2 ^ 32 \<Longrightarrow> unat (word_of_nat n :: 32 word) = n"
  by (simp add: unat_of_nat take_bit_nat_eq_self)

lemma FillArrays_loop_run:
  assumes "\<forall>s \<in> set ss. compact s" and "3 * (nv + total_vertices ss) < 2 ^ 32"
    and "ni + total_indices ss < 2 ^ 32" and "length dv = 3 * nv" and "length di = ni"
  shows "Mesh_FillArrays_loop f ss (3 * nv) (word_of_nat ni) (word_of_nat nv)
           (dv @ replicate (3 * total_vertices ss) x) (di @ replicate (total_indices ss) y) =
         Some (dv @ concat (map (coords f) (concat (map vertices ss))), di @ shifted nv ss)"
  using assms
proof (induction ss arbitrary: nv ni dv di)
  case (Cons s ss)
  let ?vs = "vertices s" and ?is = "indices s"
  have c: "compact s" and small: "length ?vs < 2 ^ 32" "length ?is < 2 ^ 32" "length ?vs + nv < 2 ^ 31"
    "3 * length ?vs < 2 ^ 32" "ni < 2 ^ 32"
    using Cons.prems by auto
  let ?dv = "dv @ concat (map (coords f) ?vs)" and ?di = "di @ map (\<lambda>i. int (unat i + nv)) ?is"
  have next_vPtr: "3 * nv + unat (VertexCount s * 3) = 3 * (nv + length ?vs)"
  proof -
    have "VertexCount s * 3 = word_of_nat (3 * length ?vs)" by (simp add: VertexCount_def)
    then show ?thesis using word_length [OF small(4)] by simp
  qed
  have next_index: "word_of_nat ni + IndexCount s = word_of_nat (ni + length ?is)"
    by (simp add: IndexCount_def)
  have "word_of_nat (Suc (unat (MaxIndex s))) = MaxIndex s + 1" by simp
  then have next_offset: "word_of_nat nv + MaxIndex s + 1 = word_of_nat (nv + length ?vs)"
    using c unfolding compact_def by (metis add.assoc of_nat_add)
  have b1: "blit (dv @ replicate (3 * total_vertices (s # ss)) x) (3 * nv) (concat (map (coords f) ?vs)) =
      Some (?dv @ replicate (3 * total_vertices ss) x)"
    using blit_replicate [of "concat (map (coords f) ?vs)" "3 * total_vertices (s # ss)" dv x] Cons.prems(4)
    by (simp add: algebra_simps)
  have b2: "blit (di @ replicate (total_indices (s # ss)) y) (unat (word_of_nat ni :: 32 word))
      (map (\<lambda>i. int (unat i + nv)) ?is) = Some (?di @ replicate (total_indices ss) y)"
    using blit_replicate [of "map (\<lambda>i. int (unat i + nv)) ?is" "total_indices (s # ss)" di y]
      Cons.prems(5) word_length [OF small(5)] by simp
  have "Mesh_FillArrays_loop f (s # ss) (3 * nv) (word_of_nat ni) (word_of_nat nv)
          (dv @ replicate (3 * total_vertices (s # ss)) x) (di @ replicate (total_indices (s # ss)) y) =
        Mesh_FillArrays_loop f ss (3 * (nv + length ?vs)) (word_of_nat (ni + length ?is))
          (word_of_nat (nv + length ?vs)) (?dv @ replicate (3 * total_vertices ss) x)
          (?di @ replicate (total_indices ss) y)"
    by (simp only: Mesh_FillArrays_loop.simps compact_vert_source [OF c small(1)] b1
        compact_shifted [OF c small(3,2)] b2 next_vPtr next_index next_offset Option.bind.simps)
  also have "\<dots> = Some (?dv @ concat (map (coords f) (concat (map vertices ss))),
      ?di @ shifted (nv + length ?vs) ss)"
    by (rule Cons.IH) (use Cons.prems in auto)
  finally show ?case by simp
qed simp

text \<open>The vertex a flat index refers to.\<close>

definition flat_vertex :: "real list \<Rightarrow> int \<Rightarrow> real \<times> real \<times> real" where
  "flat_vertex va i = (va ! (3 * nat i), va ! (3 * nat i + 1), va ! (3 * nat i + 2))"

lemma nth_coords:
  "n < length vs \<Longrightarrow> concat (map (coords f) vs) ! (3 * n) = f (vX (vs ! n)) \<and>
     concat (map (coords f) vs) ! (3 * n + 1) = f (vY (vs ! n)) \<and>
     concat (map (coords f) vs) ! (3 * n + 2) = f (vZ (vs ! n))"
proof (induction vs arbitrary: n)
  case (Cons v vs)
  show ?case
  proof (cases n)
    case (Suc k)
    have "3 * Suc k = Suc (Suc (Suc (3 * k)))" by simp
    with Cons Suc show ?thesis by (simp del: mult_Suc_right)
  qed simp
qed simp

lemma flat_vertex_coords:
  "n < length vs \<Longrightarrow>
     flat_vertex (concat (map (coords f) vs)) (int n) = (f (vX (vs ! n)), f (vY (vs ! n)), f (vZ (vs ! n)))"
  using nth_coords [of n vs f] by (simp add: flat_vertex_def)

lemma shifted_refer:
  assumes "\<forall>s \<in> set ss. valid s"
  shows "map (flat_vertex (concat (map (coords f) (pre @ concat (map vertices ss))))) (shifted (length pre) ss) =
         map (\<lambda>v. (f (vX v), f (vY v), f (vZ v))) (concat (map corners ss))"
  using assms
proof (induction ss arbitrary: pre)
  case (Cons s ss)
  let ?all = "pre @ concat (map vertices (s # ss))"
  have "flat_vertex (concat (map (coords f) ?all)) (int (unat i + length pre)) =
      (f (vX (vert (vertices s) i)), f (vY (vert (vertices s) i)), f (vZ (vert (vertices s) i)))"
    if "i \<in> set (indices s)" for i
  proof -
    have "unat i < length (vertices s)" using Cons.prems that by (auto simp: valid_def)
    then show ?thesis
      using flat_vertex_coords [of "unat i + length pre" ?all f] by (simp add: nth_append)
  qed
  then have "map (flat_vertex (concat (map (coords f) ?all))) (map (\<lambda>i. int (unat i + length pre)) (indices s)) =
      map (\<lambda>v. (f (vX v), f (vY v), f (vZ v))) (corners s)"
    by (simp add: corners_def)
  with Cons.IH [of "pre @ vertices s"] Cons.prems show ?case by (simp add: add.commute)
qed simp

lemma length_all_vertices: "length (concat (map vertices ss)) = total_vertices ss"
  by (induction ss) simp_all

lemma foldl_count:
  "foldl (\<lambda>sum s. sum + word_of_nat (f s)) (word_of_nat k) ss =
     (word_of_nat (k + sum_list (map f ss)) :: 32 word)"
proof (induction ss arbitrary: k)
  case (Cons s ss)
  have "(word_of_nat k :: 32 word) + word_of_nat (f s) = word_of_nat (k + f s)" by simp
  then show ?case unfolding foldl_Cons by (simp only: Cons.IH) (simp add: add.assoc)
qed simp

lemma Mesh_counts:
  "Mesh_VertexCount m = word_of_nat (total_vertices (submeshes m))"
  "Mesh_IndexCount m = word_of_nat (total_indices (submeshes m))"
  using foldl_count [of "\<lambda>s. length (vertices s)" 0 "submeshes m"]
    foldl_count [of "\<lambda>s. length (indices s)" 0 "submeshes m"]
  by (simp_all add: Mesh_VertexCount_def Mesh_IndexCount_def VertexCount_def IndexCount_def
      total_vertices_def total_indices_def)

lemma Mesh_FillArrays_compact:
  assumes "\<forall>s \<in> set (submeshes m). compact s"
    and "3 * total_vertices (submeshes m) < 2 ^ 32" and "total_indices (submeshes m) < 2 ^ 32"
  shows "Mesh_FillArrays f junk m =
     Some (concat (map (coords f) (concat (map vertices (submeshes m)))), shifted 0 (submeshes m))"
proof -
  have "Mesh_VertexCount m * 3 = word_of_nat (3 * total_vertices (submeshes m))"
    by (simp add: Mesh_counts)
  then have v: "unat (Mesh_VertexCount m * 3) = 3 * total_vertices (submeshes m)"
    using word_length [OF assms(2)] by simp
  have i: "unat (Mesh_IndexCount m) = total_indices (submeshes m)"
    using word_length [OF assms(3)] by (simp add: Mesh_counts)
  from FillArrays_loop_run [OF assms(1), of 0 0 "[]" "[]" f "fst junk" "snd junk"] assms(2,3)
  show ?thesis by (simp add: Mesh_FillArrays_def v i)
qed

text \<open>
  C10. When every index of every sub-mesh is in range and every sub-mesh uses its last vertex, and the total
  numbers of coordinates and of indices are below \<open>2 ^ 32\<close>, \<open>FillArrays\<close> stays inside its two buffers, and reading
  the vertex array at the shifted indices gives the corners of all sub-meshes, in order. (Without the condition
  on the last vertex it does not: \<open>Mesh_FillArrays_unused_vertex\<close>.)
\<close>

theorem Mesh_FillArrays_corners:
  assumes "\<forall>s \<in> set (submeshes m). compact s"
    and "3 * total_vertices (submeshes m) < 2 ^ 32" and "total_indices (submeshes m) < 2 ^ 32"
  shows "\<exists>va ia. Mesh_FillArrays f junk m = Some (va, ia) \<and>
     length va = 3 * total_vertices (submeshes m) \<and>
     map (flat_vertex va) ia =
       map (\<lambda>v. (f (vX v), f (vY v), f (vZ v))) (concat (map corners (submeshes m)))"
proof -
  have "\<forall>s \<in> set (submeshes m). valid s" using assms(1) by (auto simp: compact_def HasValidIndices_valid)
  from shifted_refer [OF this, of f "[]"] Mesh_FillArrays_compact [OF assms, of f junk]
  show ?thesis by (simp add: length_all_vertices)
qed

definition two_triangles :: Mesh where
  "two_triangles = Mesh_new \<lparr> submeshes := [unit_triangle, unit_triangle] \<rparr>"

lemma compact_unit_triangle: "compact unit_triangle"
  by (simp add: compact_def unit_triangle_simps) (simp add: unit_triangle_def SubMesh_new_def MaxIndex_def)

theorem Mesh_FillArrays_corners_witness:
  "\<exists>va ia. Mesh_FillArrays id (0, 0) two_triangles = Some (va, ia) \<and> length va = 18"
proof -
  have "\<forall>s \<in> set (submeshes two_triangles). compact s"
    "total_vertices (submeshes two_triangles) = 6" "total_indices (submeshes two_triangles) = 6"
    using compact_unit_triangle
    by (simp_all add: two_triangles_def total_vertices_def unit_triangle_simps)
      (simp add: total_indices_def unit_triangle_def SubMesh_new_def)
  with Mesh_FillArrays_corners [of two_triangles id "(0, 0)"] show ?thesis by auto
qed

text \<open>
  C2. The indices of a sub-mesh are shifted by the largest index of the one before plus one, its
  vertices by that one's vertex count: behind a sub-mesh with an unused last vertex every
  triangle is built from the wrong vertices. Here the corner at the second sub-mesh's first
  vertex reads the unused vertex of the first.
\<close>

definition spare_vertex :: SubMesh where
  "spare_vertex = AddVertex \<lparr> vX = 9, vY = 9, vZ = 9 \<rparr> unit_triangle"

theorem Mesh_FillArrays_unused_vertex:
  "\<exists>va ia. Mesh_FillArrays id (0, 0) (Mesh_new \<lparr> submeshes := [spare_vertex, unit_triangle] \<rparr>) = Some (va, ia) \<and>
     flat_vertex va (ia ! 3) = (9, 9, 9) \<and> corners unit_triangle ! 0 = \<lparr> vX = 0, vY = 0, vZ = 0 \<rparr>"
proof -
  have "Mesh_FillArrays id (0, 0) (Mesh_new \<lparr> submeshes := [spare_vertex, unit_triangle] \<rparr>) =
      Some ([0, 0, 0, 1, 0, 0, 0, 1, 0, 9, 9, 9, 0, 0, 0, 1, 0, 0, 0, 1, 0], [0, 1, 2, 3, 4, 5])"
    by code_simp
  then show ?thesis by (simp add: flat_vertex_def corners_def unit_triangle_def SubMesh_new_def)
qed

end
