(* ===== verification/Skeleton_Node.thy ===== *)
theory Skeleton_Node
  imports Gz_Math Std_Map "HOL-Library.Word" "HOL-Library.Monad_Syntax"
begin

section \<open>SkeletonNode: a tree of nodes linked by pointers\<close>

text \<open>
  \<^verbatim>\<open>graphics/src/NodeTransform.cc\<close> and \<^verbatim>\<open>graphics/src/SkeletonNode.cc\<close>. The nodes of a skeleton
  point at their parent and their children, so they live in a heap: a map from addresses to
  nodes, \<^const>\<open>None\<close> being the null pointer. An operation that follows a null or dangling pointer
  is undefined and returns \<^const>\<open>None\<close>; one that follows the links for ever, because they form a
  cycle, has no other value either. What \<open>MakeImpl\<close> puts in a new node is a parameter.
\<close>

subsection \<open>NodeTransform\<close>

datatype NodeTransformType = TRANSLATE | ROTATE | SCALE | MATRIX

record 'm NodeTransform =
  sid :: string
  nt_type :: NodeTransformType
  nt_transform :: 'm
  source :: "real list"

definition NodeTransform_new :: "('m, 'q) gz_mat \<Rightarrow> NodeTransformType \<Rightarrow> 'm NodeTransform" where
  "NodeTransform_new M t =
     \<lparr> sid = ''_default_'', nt_type = t, nt_transform = Identity_m M, source = [] \<rparr>"

definition NodeTransform_of :: "'m \<Rightarrow> string \<Rightarrow> NodeTransformType \<Rightarrow> 'm NodeTransform" where
  "NodeTransform_of m s t = \<lparr> sid = s, nt_type = t, nt_transform = m, source = [] \<rparr>"

definition NodeTransform_Set :: "'m \<Rightarrow> 'm NodeTransform \<Rightarrow> 'm NodeTransform" where
  "NodeTransform_Set m t = t \<lparr> nt_transform := m \<rparr>"

definition NodeTransform_SetType :: "NodeTransformType \<Rightarrow> 'm NodeTransform \<Rightarrow> 'm NodeTransform" where
  "NodeTransform_SetType k t = t \<lparr> nt_type := k \<rparr>"

definition SetSID :: "string \<Rightarrow> 'm NodeTransform \<Rightarrow> 'm NodeTransform" where
  "SetSID s t = t \<lparr> sid := s \<rparr>"

definition NodeTransform_Get :: "'m NodeTransform \<Rightarrow> 'm" where
  "NodeTransform_Get t = nt_transform t"

definition NodeTransform_Type :: "'m NodeTransform \<Rightarrow> NodeTransformType" where
  "NodeTransform_Type t = nt_type t"

definition SID :: "'m NodeTransform \<Rightarrow> string" where
  "SID t = sid t"

definition SetComponent :: "nat \<Rightarrow> real \<Rightarrow> 'm NodeTransform \<Rightarrow> 'm NodeTransform option" where
  "SetComponent i x t = (if i < length (source t) then Some (t \<lparr> source := (source t)[i := x] \<rparr>) else None)"

definition SetSourceValues_m :: "('m, 'q) gz_mat \<Rightarrow> 'm \<Rightarrow> 'm NodeTransform \<Rightarrow> 'm NodeTransform" where
  "SetSourceValues_m M m t =
     t \<lparr> source := concat (map (\<lambda>i. map (\<lambda>j. elem_m M m i j) [0..<4]) [0..<4]) \<rparr>"

definition SetSourceValues_v :: "Vector3d \<Rightarrow> 'm NodeTransform \<Rightarrow> 'm NodeTransform" where
  "SetSourceValues_v v t = t \<lparr> source := [vX v, vY v, vZ v] \<rparr>"

definition SetSourceValues_a :: "Vector3d \<Rightarrow> real \<Rightarrow> 'm NodeTransform \<Rightarrow> 'm NodeTransform" where
  "SetSourceValues_a v a t = t \<lparr> source := [vX v, vY v, vZ v, a] \<rparr>"

definition source3 :: "real list \<Rightarrow> Vector3d option" where
  "source3 xs =
     do { x \<leftarrow> elem_at xs 0; y \<leftarrow> elem_at xs 1; z \<leftarrow> elem_at xs 2; Some \<lparr> vX = x, vY = y, vZ = z \<rparr> }"

text \<open>\<open>GZ_DTOR\<close> turns degrees into radians.\<close>

definition RecalculateMatrix :: "('m, 'q) gz_mat \<Rightarrow> 'm NodeTransform \<Rightarrow> 'm NodeTransform option" where
  "RecalculateMatrix M t =
     (if nt_type t = MATRIX then
        (if length (source t) < 16 then None
         else Some (t \<lparr> nt_transform := Set_m M (take 16 (source t)) (nt_transform t) \<rparr>))
      else if nt_type t = TRANSLATE then
        do { v \<leftarrow> source3 (source t);
             Some (t \<lparr> nt_transform := SetTranslation_m M v (nt_transform t) \<rparr>) }
      else if nt_type t = ROTATE then
        do { v \<leftarrow> source3 (source t); a \<leftarrow> elem_at (source t) 3;
             Some (t \<lparr> nt_transform := SetAxisAngle_m M v (a * pi / 180) (nt_transform t) \<rparr>) }
      else
        do { v \<leftarrow> source3 (source t);
             Some (t \<lparr> nt_transform := SetScale_m M v (nt_transform t) \<rparr>) })"

definition NodeTransform_call :: "'m NodeTransform \<Rightarrow> 'm" where
  "NodeTransform_call t = nt_transform t"

definition NodeTransform_mul :: "('m, 'q) gz_mat \<Rightarrow> 'm NodeTransform \<Rightarrow> 'm NodeTransform \<Rightarrow> 'm" where
  "NodeTransform_mul M t u = mul_m M (nt_transform t) (NodeTransform_call u)"

definition NodeTransform_mul_m :: "('m, 'q) gz_mat \<Rightarrow> 'm NodeTransform \<Rightarrow> 'm \<Rightarrow> 'm" where
  "NodeTransform_mul_m M t m = mul_m M (nt_transform t) m"

subsection \<open>Nodes in a heap\<close>

datatype SkeletonNodeType = NODE | JOINT

record 'm SkelNode =
  node_name :: string
  node_id :: string
  node_type :: SkeletonNodeType
  transform :: 'm
  initialTransform :: 'm
  modelTransform :: 'm
  invBindTransform :: 'm
  parent :: "nat option"
  children :: "nat option list"
  handle :: "32 word"
  rawTransforms :: "'m NodeTransform list"

type_synonym 'm node_heap = "nat \<rightharpoonup> 'm SkelNode"

definition change :: "nat \<Rightarrow> ('m SkelNode \<Rightarrow> 'm SkelNode) \<Rightarrow> 'm node_heap \<Rightarrow> 'm node_heap option" where
  "change a f h = (case h a of None \<Rightarrow> None | Some n \<Rightarrow> Some (h(a \<mapsto> f n)))"

definition AddChild :: "nat \<Rightarrow> nat option \<Rightarrow> 'm node_heap \<Rightarrow> 'm node_heap option" where
  "AddChild a c h = change a (\<lambda>n. n \<lparr> children := children n @ [c] \<rparr>) h"

text \<open>Both constructors, at the fresh address \<open>a\<close>.\<close>

definition SkeletonNode_new :: "'m SkelNode \<Rightarrow> nat \<Rightarrow> nat option \<Rightarrow> 'm node_heap \<Rightarrow> 'm node_heap option" where
  "SkeletonNode_new blank a p h =
     (let h1 = h(a \<mapsto> blank \<lparr> parent := p \<rparr>)
      in case p of None \<Rightarrow> Some h1 | Some q \<Rightarrow> AddChild q (Some a) h1)"

definition SkeletonNode_named :: "'m SkelNode \<Rightarrow> nat \<Rightarrow> nat option \<Rightarrow> string \<Rightarrow> string \<Rightarrow>
    SkeletonNodeType \<Rightarrow> 'm node_heap \<Rightarrow> 'm node_heap option" where
  "SkeletonNode_named blank a p nm i k h =
     do { h1 \<leftarrow> SkeletonNode_new blank a p h;
          change a (\<lambda>n. n \<lparr> node_name := nm, node_id := i, node_type := k \<rparr>) h1 }"

definition SetNodeName :: "nat \<Rightarrow> string \<Rightarrow> 'm node_heap \<Rightarrow> 'm node_heap option" where
  "SetNodeName a s h = change a (\<lambda>n. n \<lparr> node_name := s \<rparr>) h"

definition NodeName :: "nat \<Rightarrow> 'm node_heap \<Rightarrow> string option" where
  "NodeName a h = map_option node_name (h a)"

definition SetNodeId :: "nat \<Rightarrow> string \<Rightarrow> 'm node_heap \<Rightarrow> 'm node_heap option" where
  "SetNodeId a s h = change a (\<lambda>n. n \<lparr> node_id := s \<rparr>) h"

definition NodeId :: "nat \<Rightarrow> 'm node_heap \<Rightarrow> string option" where
  "NodeId a h = map_option node_id (h a)"

definition SetType :: "nat \<Rightarrow> SkeletonNodeType \<Rightarrow> 'm node_heap \<Rightarrow> 'm node_heap option" where
  "SetType a k h = change a (\<lambda>n. n \<lparr> node_type := k \<rparr>) h"

definition IsJoint :: "nat \<Rightarrow> 'm node_heap \<Rightarrow> bool option" where
  "IsJoint a h = map_option (\<lambda>n. node_type n = JOINT) (h a)"

definition SetParent :: "nat \<Rightarrow> nat option \<Rightarrow> 'm node_heap \<Rightarrow> 'm node_heap option" where
  "SetParent a p h = change a (\<lambda>n. n \<lparr> parent := p \<rparr>) h"

definition Parent :: "nat \<Rightarrow> 'm node_heap \<Rightarrow> nat option option" where
  "Parent a h = map_option parent (h a)"

definition IsRootNode :: "nat \<Rightarrow> 'm node_heap \<Rightarrow> bool option" where
  "IsRootNode a h = map_option (\<lambda>n. parent n = None) (h a)"

definition ChildCount :: "nat \<Rightarrow> 'm node_heap \<Rightarrow> 32 word option" where
  "ChildCount a h = map_option (\<lambda>n. word_of_nat (length (children n))) (h a)"

definition Child :: "nat \<Rightarrow> 32 word \<Rightarrow> 'm node_heap \<Rightarrow> nat option option" where
  "Child a i h =
     map_option (\<lambda>n. if unat i \<ge> length (children n) then None else children n ! unat i) (h a)"

text \<open>The two searches among the children; a null child before the hit is undefined.\<close>

fun find_child :: "('m SkelNode \<Rightarrow> bool) \<Rightarrow> nat option list \<Rightarrow> 'm node_heap \<Rightarrow> nat option option" where
  "find_child P [] h = Some None"
| "find_child P (c # cs) h =
     do { a \<leftarrow> c; n \<leftarrow> h a; if P n then Some (Some a) else find_child P cs h }"

definition ChildByName :: "nat \<Rightarrow> string \<Rightarrow> 'm node_heap \<Rightarrow> nat option option" where
  "ChildByName a s h = do { n \<leftarrow> h a; find_child (\<lambda>c. node_name c = s) (children n) h }"

definition ChildById :: "nat \<Rightarrow> string \<Rightarrow> 'm node_heap \<Rightarrow> nat option option" where
  "ChildById a s h = do { n \<leftarrow> h a; find_child (\<lambda>c. node_id c = s) (children n) h }"

definition SetHandle :: "nat \<Rightarrow> 32 word \<Rightarrow> 'm node_heap \<Rightarrow> 'm node_heap option" where
  "SetHandle a i h = change a (\<lambda>n. n \<lparr> handle := i \<rparr>) h"

definition Handle :: "nat \<Rightarrow> 'm node_heap \<Rightarrow> 32 word option" where
  "Handle a h = map_option handle (h a)"

definition SetInverseBindTransform :: "nat \<Rightarrow> 'm \<Rightarrow> 'm node_heap \<Rightarrow> 'm node_heap option" where
  "SetInverseBindTransform a m h = change a (\<lambda>n. n \<lparr> invBindTransform := m \<rparr>) h"

definition InverseBindTransform :: "nat \<Rightarrow> 'm node_heap \<Rightarrow> 'm option" where
  "InverseBindTransform a h = map_option invBindTransform (h a)"

definition HasInvBindTransform :: "('m, 'q) gz_mat \<Rightarrow> nat \<Rightarrow> 'm node_heap \<Rightarrow> bool option" where
  "HasInvBindTransform M a h = map_option (\<lambda>n. \<not> equal_m M (invBindTransform n) (Zero_m M)) (h a)"

definition RawTransforms :: "nat \<Rightarrow> 'm node_heap \<Rightarrow> 'm NodeTransform list option" where
  "RawTransforms a h = map_option rawTransforms (h a)"

definition RawTransformCount :: "nat \<Rightarrow> 'm node_heap \<Rightarrow> 32 word option" where
  "RawTransformCount a h = map_option (\<lambda>n. word_of_nat (length (rawTransforms n))) (h a)"

definition RawTransform :: "nat \<Rightarrow> 32 word \<Rightarrow> 'm node_heap \<Rightarrow> 'm NodeTransform option" where
  "RawTransform a i h = do { n \<leftarrow> h a; elem_at (rawTransforms n) (unat i) }"

definition AddRawTransform :: "nat \<Rightarrow> 'm NodeTransform \<Rightarrow> 'm node_heap \<Rightarrow> 'm node_heap option" where
  "AddRawTransform a t h = change a (\<lambda>n. n \<lparr> rawTransforms := rawTransforms n @ [t] \<rparr>) h"

definition Transforms :: "nat \<Rightarrow> 'm node_heap \<Rightarrow> 'm NodeTransform list option" where
  "Transforms a h = map_option rawTransforms (h a)"

subsection \<open>Local and model transforms\<close>

definition Transform :: "nat \<Rightarrow> 'm node_heap \<Rightarrow> 'm option" where
  "Transform a h = map_option transform (h a)"

definition ModelTransform :: "nat \<Rightarrow> 'm node_heap \<Rightarrow> 'm option" where
  "ModelTransform a h = map_option modelTransform (h a)"

text \<open>The loop of \<open>UpdateChildrenTransforms\<close>; a node's children go to the front of the list of
  nodes to visit.\<close>

definition follow_parent :: "('m, 'q) gz_mat \<Rightarrow> nat \<Rightarrow> 'm node_heap \<Rightarrow> 'm node_heap option" where
  "follow_parent M a h =
     do { n \<leftarrow> h a; p \<leftarrow> parent n; pn \<leftarrow> h p;
          Some (h(a \<mapsto> n \<lparr> modelTransform := mul_m M (modelTransform pn) (transform n) \<rparr>)) }"

partial_function (option) update_loop ::
    "('m, 'q) gz_mat \<Rightarrow> nat option list \<Rightarrow> 'm node_heap \<Rightarrow> 'm node_heap option" where
  "update_loop M toVisit h =
     (case toVisit of
        [] \<Rightarrow> Some h
      | None # rest \<Rightarrow> None
      | Some a # rest \<Rightarrow>
          do { n \<leftarrow> h a; h' \<leftarrow> follow_parent M a h; update_loop M (children n @ rest) h' })"

definition UpdateChildrenTransforms :: "('m, 'q) gz_mat \<Rightarrow> nat \<Rightarrow> 'm node_heap \<Rightarrow> 'm node_heap option" where
  "UpdateChildrenTransforms M a h = do { n \<leftarrow> h a; update_loop M (children n) h }"

definition SetTransform :: "('m, 'q) gz_mat \<Rightarrow> nat \<Rightarrow> 'm \<Rightarrow> bool \<Rightarrow> 'm node_heap \<Rightarrow> 'm node_heap option" where
  "SetTransform M a t updateChildren h =
     do { n \<leftarrow> h a;
          let h1 = h(a \<mapsto> n \<lparr> transform := t \<rparr>);
          m \<leftarrow> (case parent n of None \<Rightarrow> Some t
                | Some p \<Rightarrow> map_option (\<lambda>pn. mul_m M (modelTransform pn) t) (h1 p));
          let h' = h(a \<mapsto> n \<lparr> transform := t, modelTransform := m \<rparr>);
          if updateChildren then UpdateChildrenTransforms M a h' else Some h' }"

definition SetInitialTransform :: "('m, 'q) gz_mat \<Rightarrow> nat \<Rightarrow> 'm \<Rightarrow> 'm node_heap \<Rightarrow> 'm node_heap option" where
  "SetInitialTransform M a t h =
     do { h' \<leftarrow> change a (\<lambda>n. n \<lparr> initialTransform := t \<rparr>) h; SetTransform M a t True h' }"

definition SetModelTransform :: "('m, 'q) gz_mat \<Rightarrow> nat \<Rightarrow> 'm \<Rightarrow> bool \<Rightarrow> 'm node_heap \<Rightarrow> 'm node_heap option" where
  "SetModelTransform M a t updateChildren h =
     do { n \<leftarrow> h a;
          let h1 = h(a \<mapsto> n \<lparr> modelTransform := t \<rparr>);
          l \<leftarrow> (case parent n of None \<Rightarrow> Some t
                | Some p \<Rightarrow> map_option (\<lambda>pn. mul_m M (Inverse_m M (modelTransform pn)) t) (h1 p));
          let h' = h(a \<mapsto> n \<lparr> modelTransform := t, transform := l \<rparr>);
          if updateChildren then UpdateChildrenTransforms M a h' else Some h' }"

text \<open>\<open>Reset(true)\<close> calls itself on every child: the nodes still to be reset are the call stack.\<close>

partial_function (option) reset_loop ::
    "('m, 'q) gz_mat \<Rightarrow> nat option list \<Rightarrow> 'm node_heap \<Rightarrow> 'm node_heap option" where
  "reset_loop M stack h =
     (case stack of
        [] \<Rightarrow> Some h
      | None # rest \<Rightarrow> None
      | Some a # rest \<Rightarrow>
          do { n \<leftarrow> h a; h' \<leftarrow> SetTransform M a (initialTransform n) True h;
               reset_loop M (children n @ rest) h' })"

definition Reset :: "('m, 'q) gz_mat \<Rightarrow> nat \<Rightarrow> bool \<Rightarrow> 'm node_heap \<Rightarrow> 'm node_heap option" where
  "Reset M a resetChildren h =
     (if resetChildren then reset_loop M [Some a] h
      else do { n \<leftarrow> h a; SetTransform M a (initialTransform n) True h })"

subsection \<open>The tree the pointers stand for\<close>

text \<open>The abstraction: a tree of addresses. A heap represents it below a parent when every node
  is there, points at its parent and at exactly its children.\<close>

datatype tree = Tree (root_of: nat) (subtrees: "tree list")

fun addrs :: "tree \<Rightarrow> nat list" where
  "addrs (Tree a ts) = a # concat (map addrs ts)"

fun represents :: "'m node_heap \<Rightarrow> nat option \<Rightarrow> tree \<Rightarrow> bool" where
  "represents h p (Tree a ts) \<longleftrightarrow>
     (\<exists>n. h a = Some n \<and> parent n = p \<and> children n = map (\<lambda>t. Some (root_of t)) ts) \<and>
     (\<forall>t \<in> set ts. represents h (Some a) t)"

abbreviation forest_addrs :: "tree list \<Rightarrow> nat list" where
  "forest_addrs ts \<equiv> concat (map addrs ts)"

text \<open>The functional counterpart of the update: every node below gets its parent's model transform
  times its own transform, top down.\<close>

fun place :: "('m, 'q) gz_mat \<Rightarrow> 'm \<Rightarrow> tree \<Rightarrow> 'm node_heap \<Rightarrow> 'm node_heap" where
  "place M m (Tree a ts) h =
     (case h a of
        None \<Rightarrow> h
      | Some n \<Rightarrow>
          (let w = mul_m M m (transform n)
           in fold (place M w) ts (h(a \<mapsto> n \<lparr> modelTransform := w \<rparr>))))"

lemma root_in_addrs [simp]: "root_of t \<in> set (addrs t)"
  by (cases t) simp

lemma represents_cong:
  "represents h p t \<Longrightarrow> \<forall>a \<in> set (addrs t). map_option parent (h' a) = map_option parent (h a) \<and>
     map_option children (h' a) = map_option children (h a) \<Longrightarrow> represents h' p t"
proof (induction h p t rule: represents.induct)
  case (1 h p a ts)
  obtain n where n: "h a = Some n" "parent n = p" "children n = map (\<lambda>t. Some (root_of t)) ts"
    using 1(2) by auto
  then obtain n' where "h' a = Some n'" "parent n' = p" "children n' = map (\<lambda>t. Some (root_of t)) ts"
    using 1(3) by (auto simp: map_option_eq_Some)
  moreover have "represents h' (Some a) t" if "t \<in> set ts" for t
    using 1 that by auto
  ultimately show ?case by simp
qed

lemma place_outside: "b \<notin> set (addrs t) \<Longrightarrow> place M m t h b = h b"
proof (induction t arbitrary: m h)
  case (Tree a ts)
  have "fold (place M w) us g b = g b" if "set us \<subseteq> set ts" for w us g
    using that
  proof (induction us arbitrary: g)
    case (Cons u us)
    then show ?case using Tree by auto
  qed simp
  then show ?case using Tree.prems by (auto simp: Let_def split: option.splits)
qed

lemma fold_place_outside: "b \<notin> set (forest_addrs ts) \<Longrightarrow> fold (place M w) ts h b = h b"
  by (induction ts arbitrary: h) (simp_all add: place_outside)

text \<open>Placing changes nothing but the model transforms.\<close>

definition shape :: "'m SkelNode \<Rightarrow> 'm SkelNode" where
  "shape n = n \<lparr> modelTransform := transform n \<rparr>"

lemma shape_update [simp]: "shape (n \<lparr> modelTransform := w \<rparr>) = shape n"
  by (simp add: shape_def)

lemma shape_fields:
  assumes "map_option shape x = map_option shape y"
  shows "map_option parent x = map_option parent y" "map_option children x = map_option children y"
    "map_option transform x = map_option transform y"
proof -
  have "map_option parent z = map_option parent (map_option shape z)"
    "map_option children z = map_option children (map_option shape z)"
    "map_option transform z = map_option transform (map_option shape z)" for z :: "'a SkelNode option"
    by (simp_all add: option.map_comp o_def shape_def)
  note * = this
  show "map_option parent x = map_option parent y" "map_option children x = map_option children y"
    "map_option transform x = map_option transform y" unfolding *[of x] *[of y] assms by simp_all
qed

lemma fold_place_shape_gen:
  assumes "\<And>u m h b. u \<in> set ts \<Longrightarrow> map_option shape (place M m u h b) = map_option shape (h b)"
  shows "map_option shape (fold (place M w) ts h b) = map_option shape (h b)"
  using assms by (induction ts arbitrary: h) simp_all

lemma place_shape: "map_option shape (place M m t h b) = map_option shape (h b)"
proof (induction t arbitrary: m h b)
  case (Tree a ts)
  have "map_option shape (fold (place M w) ts g b) = map_option shape (g b)" for w g
    by (rule fold_place_shape_gen) (rule Tree.IH)
  then show ?case by (auto simp: Let_def split: option.splits)
qed

lemma fold_place_shape: "map_option shape (fold (place M w) ts h b) = map_option shape (h b)"
  by (rule fold_place_shape_gen) (rule place_shape)

lemma represents_place:
  "represents h p u \<Longrightarrow> represents (place M m t h) p u"
  by (erule represents_cong) (simp add: shape_fields [OF place_shape])

lemma update_forest_gen:
  assumes "\<And>u g rest. u \<in> set ts \<Longrightarrow> represents g (Some a) u \<Longrightarrow> a \<notin> set (addrs u) \<Longrightarrow> distinct (addrs u) \<Longrightarrow>
      map_option modelTransform (g a) = Some w \<Longrightarrow>
      update_loop M (Some (root_of u) # rest) g = update_loop M rest (place M w u g)"
    and "\<forall>u \<in> set ts. represents g (Some a) u" and "a \<notin> set (forest_addrs ts)"
    and "distinct (forest_addrs ts)" and "map_option modelTransform (g a) = Some w"
  shows "update_loop M (map (\<lambda>t. Some (root_of t)) ts @ rest) g = update_loop M rest (fold (place M w) ts g)"
  using assms
proof (induction ts arbitrary: g)
  case (Cons u us)
  let ?g = "place M w u g"
  have "update_loop M (Some (root_of u) # map (\<lambda>t. Some (root_of t)) us @ rest) g =
      update_loop M (map (\<lambda>t. Some (root_of t)) us @ rest) ?g"
    by (rule Cons.prems(1)) (use Cons.prems in auto)
  also have "\<dots> = update_loop M rest (fold (place M w) us ?g)"
  proof (rule Cons.IH)
    show "\<forall>v \<in> set us. represents ?g (Some a) v" using Cons.prems by (simp add: represents_place)
    show "map_option modelTransform (?g a) = Some w" using Cons.prems by (simp add: place_outside)
  qed (use Cons.prems in auto)
  finally show ?case by simp
qed simp

lemma update_loop_tree:
  assumes "represents h (Some p) t" and "p \<notin> set (addrs t)" and "distinct (addrs t)"
    and "map_option modelTransform (h p) = Some m"
  shows "update_loop M (Some (root_of t) # rest) h = update_loop M rest (place M m t h)"
  using assms
proof (induction t arbitrary: h p m rest)
  case (Tree a ts)
  from Tree.prems obtain n where n: "h a = Some n" "parent n = Some p"
    "children n = map (\<lambda>t. Some (root_of t)) ts" and ts: "\<forall>u \<in> set ts. represents h (Some a) u" by auto
  obtain pn where pn: "h p = Some pn" "modelTransform pn = m" using Tree.prems(4) by auto
  define w where "w = mul_m M m (transform n)"
  let ?h = "h(a \<mapsto> n \<lparr> modelTransform := w \<rparr>)"
  have "follow_parent M a h = Some ?h" using n pn by (simp add: follow_parent_def w_def)
  then have "update_loop M (Some (root_of (Tree a ts)) # rest) h =
      update_loop M (map (\<lambda>t. Some (root_of t)) ts @ rest) ?h"
    using n by (simp add: update_loop.simps [of M "Some a # rest"])
  also have "\<dots> = update_loop M rest (fold (place M w) ts ?h)"
  proof (rule update_forest_gen)
    show "\<forall>u \<in> set ts. represents ?h (Some a) u"
      using ts n by (auto elim!: represents_cong)
    show "update_loop M (Some (root_of u) # rest) g = update_loop M rest (place M w u g)"
      if "u \<in> set ts" "represents g (Some a) u" "a \<notin> set (addrs u)" "distinct (addrs u)"
        "map_option modelTransform (g a) = Some w" for u g rest
      using Tree.IH [OF that(1,2,3,4,5)] .
  qed (use Tree.prems in auto)
  also have "fold (place M w) ts ?h = place M m (Tree a ts) h" using n by (simp add: w_def Let_def)
  finally show ?case .
qed

text \<open>On a heap that represents a tree the update returns, and computes the functional one.\<close>

lemma Update_refines:
  assumes "represents h p (Tree a ts)" and "distinct (addrs (Tree a ts))" and "h a = Some n"
  shows "UpdateChildrenTransforms M a h = Some (fold (place M (modelTransform n)) ts h)"
proof -
  have "update_loop M (map (\<lambda>t. Some (root_of t)) ts @ []) h =
      update_loop M [] (fold (place M (modelTransform n)) ts h)"
  proof (rule update_forest_gen [where a = a])
    show "update_loop M (Some (root_of u) # rest) g = update_loop M rest (place M (modelTransform n) u g)"
      if "u \<in> set ts" "represents g (Some a) u" "a \<notin> set (addrs u)" "distinct (addrs u)"
        "map_option modelTransform (g a) = Some (modelTransform n)" for u g rest
      by (rule update_loop_tree [OF that(2-5)])
  qed (use assms in auto)
  then show ?thesis
    using assms by (simp add: UpdateChildrenTransforms_def update_loop.simps [of M "[]"])
qed

text \<open>A tree is placed when the model transform of every node below the root is its parent's
  times its own transform.\<close>

fun placed :: "('m, 'q) gz_mat \<Rightarrow> 'm node_heap \<Rightarrow> tree \<Rightarrow> bool" where
  "placed M h (Tree a ts) \<longleftrightarrow>
     (\<forall>t \<in> set ts. \<exists>n c. h a = Some n \<and> h (root_of t) = Some c \<and>
        modelTransform c = mul_m M (modelTransform n) (transform c)) \<and>
     (\<forall>t \<in> set ts. placed M h t)"

lemma placed_cong: "placed M h t \<Longrightarrow> \<forall>a \<in> set (addrs t). h' a = h a \<Longrightarrow> placed M h' t"
proof (induction M h t rule: placed.induct)
  case (1 M h a ts)
  have "placed M h' t" if "t \<in> set ts" for t using 1 that by auto
  moreover have "h' (root_of t) = h (root_of t)" if "t \<in> set ts" for t
  proof -
    have "root_of t \<in> set (addrs (Tree a ts))"
      using that root_in_addrs [of t] by (auto simp del: root_in_addrs)
    with 1(3) show ?thesis by blast
  qed
  ultimately show ?case using 1(2,3) by auto
qed

lemma place_root:
  "represents h p t \<Longrightarrow> h (root_of t) = Some n \<Longrightarrow> distinct (addrs t) \<Longrightarrow>
     place M m t h (root_of t) = Some (n \<lparr> modelTransform := mul_m M m (transform n) \<rparr>)"
  by (cases t) (auto simp: Let_def fold_place_outside)

lemma fold_place_placed_gen:
  assumes "\<And>u g. u \<in> set ts \<Longrightarrow> represents g (Some a) u \<Longrightarrow> distinct (addrs u) \<Longrightarrow> placed M (place M w u g) u"
    and "\<forall>u \<in> set ts. represents g (Some a) u" and "distinct (forest_addrs ts)" and "u \<in> set ts"
  shows "placed M (fold (place M w) ts g) u \<and>
     (\<exists>c. fold (place M w) ts g (root_of u) = Some c \<and> modelTransform c = mul_m M w (transform c))"
  using assms
proof (induction ts arbitrary: g)
  case (Cons v vs)
  let ?g = "place M w v g"
  have rep: "\<forall>u \<in> set vs. represents ?g (Some a) u" using Cons.prems by (simp add: represents_place)
  show ?case
  proof (cases "u \<in> set vs")
    case True
    then show ?thesis using Cons.IH [of ?g] Cons.prems rep by simp
  next
    case False
    with Cons.prems have u: "u = v" by simp
    have out: "\<forall>b \<in> set (addrs v). fold (place M w) vs ?g b = ?g b"
      using Cons.prems(3) by (auto intro!: fold_place_outside)
    have "placed M ?g v" using Cons.prems by simp
    then have "placed M (fold (place M w) vs ?g) v" using out by (rule placed_cong)
    moreover obtain n where n: "g (root_of v) = Some n" using Cons.prems by (cases v) auto
    have "?g (root_of v) = Some (n \<lparr> modelTransform := mul_m M w (transform n) \<rparr>)"
      using Cons.prems n by (auto intro: place_root)
    ultimately show ?thesis using out u by simp
  qed
qed simp

lemma place_placed: "represents h p t \<Longrightarrow> distinct (addrs t) \<Longrightarrow> placed M (place M m t h) t"
proof (induction t arbitrary: m h p)
  case (Tree a ts)
  then obtain n where n: "h a = Some n" by auto
  define w where "w = mul_m M m (transform n)"
  let ?h = "h(a \<mapsto> n \<lparr> modelTransform := w \<rparr>)"
  have ts: "\<forall>u \<in> set ts. represents ?h (Some a) u"
    using Tree.prems n by (auto elim!: represents_cong)
  have F: "placed M (fold (place M w) ts ?h) u \<and>
      (\<exists>c. fold (place M w) ts ?h (root_of u) = Some c \<and> modelTransform c = mul_m M w (transform c))"
    if "u \<in> set ts" for u
    by (rule fold_place_placed_gen [OF _ ts _ that]) (use Tree in auto)
  have "place M m (Tree a ts) h = fold (place M w) ts ?h" using n by (simp add: w_def Let_def)
  moreover have "fold (place M w) ts ?h a = Some (n \<lparr> modelTransform := w \<rparr>)"
    using Tree.prems by (simp add: fold_place_outside)
  ultimately show ?case using F by auto
qed

lemma Update_placed:
  assumes "represents h p t" and "distinct (addrs t)"
  shows "\<exists>h'. UpdateChildrenTransforms M (root_of t) h = Some h' \<and> placed M h' t \<and> represents h' p t \<and>
     h' (root_of t) = h (root_of t) \<and> (\<forall>b. map_option shape (h' b) = map_option shape (h b)) \<and>
     (\<forall>b. b \<notin> set (addrs t) \<longrightarrow> h' b = h b)"
proof -
  obtain a ts where t: "t = Tree a ts" by (cases t)
  obtain n where n: "h a = Some n" using assms(1) by (auto simp: t)
  let ?w = "modelTransform n"
  let ?h = "fold (place M ?w) ts h"
  have rep: "\<forall>u \<in> set ts. represents h (Some a) u" using assms(1) by (simp add: t)
  have F: "placed M ?h u \<and>
      (\<exists>c. ?h (root_of u) = Some c \<and> modelTransform c = mul_m M ?w (transform c))" if "u \<in> set ts" for u
    by (rule fold_place_placed_gen [OF _ rep _ that]) (use assms(2) place_placed in \<open>auto simp: t\<close>)
  have a: "?h a = Some n" using assms(2) n by (simp add: t fold_place_outside)
  have "placed M ?h t" using F a by (auto simp: t)
  moreover have "represents ?h p t"
    using assms(1) by (rule represents_cong) (simp add: shape_fields [OF fold_place_shape])
  moreover have "UpdateChildrenTransforms M (root_of t) h = Some ?h"
    using Update_refines [OF assms [unfolded t] n] by (simp add: t)
  moreover have "\<forall>b. b \<notin> set (addrs t) \<longrightarrow> ?h b = h b" by (auto simp: t fold_place_outside)
  ultimately show ?thesis using a n fold_place_shape [of M ?w ts h] by (auto simp: t)
qed

text \<open>
  C17. On nodes that form a tree, \<open>UpdateChildrenTransforms\<close> returns with the model transform of
  every node below equal to its parent's model transform times its own transform; nothing else
  changes, neither in those nodes nor elsewhere in the heap.
\<close>

theorem UpdateChildrenTransforms_places:
  assumes "represents h p t" and "distinct (addrs t)"
  shows "\<exists>h'. UpdateChildrenTransforms M (root_of t) h = Some h' \<and> placed M h' t \<and>
     h' (root_of t) = h (root_of t) \<and> (\<forall>b. map_option shape (h' b) = map_option shape (h b)) \<and>
     (\<forall>b. b \<notin> set (addrs t) \<longrightarrow> h' b = h b)"
  using Update_placed [OF assms, of M] by blast

text \<open>Two nodes under a root, built with the constructors.\<close>

definition blank_node :: "Vector3d SkelNode" where
  "blank_node =
     \<lparr> node_name = [], node_id = [], node_type = NODE, transform = \<lparr> vX = 0, vY = 0, vZ = 0 \<rparr>,
       initialTransform = \<lparr> vX = 0, vY = 0, vZ = 0 \<rparr>, modelTransform = \<lparr> vX = 0, vY = 0, vZ = 0 \<rparr>,
       invBindTransform = \<lparr> vX = 0, vY = 0, vZ = 0 \<rparr>, parent = None, children = [], handle = 0,
       rawTransforms = [] \<rparr>"

definition three_nodes :: "Vector3d node_heap" where
  "three_nodes =
     the (do { h1 \<leftarrow> SkeletonNode_new blank_node 1 None Map.empty;
               h2 \<leftarrow> SkeletonNode_new blank_node 2 (Some 1) h1;
               SkeletonNode_new blank_node 3 (Some 2) h2 })"

abbreviation chain3 :: tree where
  "chain3 \<equiv> Tree 1 [Tree 2 [Tree 3 []]]"

lemma three_nodes_tree: "represents three_nodes None chain3" "distinct (addrs chain3)"
  by (simp_all add: three_nodes_def SkeletonNode_new_def AddChild_def change_def blank_node_def Let_def)

theorem UpdateChildrenTransforms_places_witness:
  "\<exists>h'. UpdateChildrenTransforms translation_mats 1 three_nodes = Some h' \<and> placed translation_mats h' chain3"
  using UpdateChildrenTransforms_places [OF three_nodes_tree, of translation_mats] by auto

text \<open>
  \<open>AddChild\<close> does not set the parent of the child: updating the transforms below a node with
  such a child follows the child's null parent, which is undefined.
\<close>

theorem AddChild_without_parent:
  assumes "h a = Some n" and "children n = []" and "h c = Some d" and "parent d = None" and "a \<noteq> c"
    and "AddChild a (Some c) h = Some h'"
  shows "UpdateChildrenTransforms M a h' = None"
proof -
  have h': "h' = h(a \<mapsto> n \<lparr> children := [Some c] \<rparr>)"
    using assms by (simp add: AddChild_def change_def)
  then have "follow_parent M c h' = None" using assms by (simp add: follow_parent_def)
  moreover have "h' c = Some d" using assms h' by simp
  ultimately show ?thesis
    by (simp add: UpdateChildrenTransforms_def h' update_loop.simps [of M "[Some c]"])
qed

end
