(* ===== verification/Node_Animation.thy ===== *)
theory Node_Animation
  imports Gz_Math Std_Map "HOL-Library.Word" "HOL-Library.Monad_Syntax" "HOL-Library.Char_ord"
    "HOL-Library.List_Lexorder"
begin

section \<open>NodeAnimation and SkeletonAnimation: key frames and poses\<close>

text \<open>
  \<^verbatim>\<open>graphics/src/NodeAnimation.cc\<close> and \<^verbatim>\<open>graphics/src/SkeletonAnimation.cc\<close>. Key frames are an
  ordered map from times to matrices; a skeleton animation is an ordered map from node names to
  node animations. Reading through an iterator that is at the end is \<^const>\<open>None\<close>, and so is a
  loop that does not end. Times and coordinates are real numbers.
\<close>

subsection \<open>NodeAnimation\<close>

record 'm NodeAnimation =
  na_name :: string
  keyFrames :: "(real, 'm) omap"
  na_length :: real

definition NodeAnimation_new :: "string \<Rightarrow> 'm NodeAnimation" where
  "NodeAnimation_new n = \<lparr> na_name = n, keyFrames = [], na_length = 0 \<rparr>"

definition NodeAnimation_SetName :: "string \<Rightarrow> 'm NodeAnimation \<Rightarrow> 'm NodeAnimation" where
  "NodeAnimation_SetName n a = a \<lparr> na_name := n \<rparr>"

definition NodeAnimation_Name :: "'m NodeAnimation \<Rightarrow> string" where
  "NodeAnimation_Name a = na_name a"

definition AddKeyFrame :: "real \<Rightarrow> 'm \<Rightarrow> 'm NodeAnimation \<Rightarrow> 'm NodeAnimation" where
  "AddKeyFrame time mat a =
     a \<lparr> na_length := (if time > na_length a then time else na_length a),
         keyFrames := mput time mat (keyFrames a) \<rparr>"

text \<open>A pose is its position and its rotation.\<close>

definition AddKeyFrame_pose ::
    "('m, 'q) gz_mat \<Rightarrow> real \<Rightarrow> Vector3d \<times> 'q \<Rightarrow> 'm NodeAnimation \<Rightarrow> 'm NodeAnimation" where
  "AddKeyFrame_pose M time pose a =
     AddKeyFrame time (SetTranslation_m M (fst pose) (of_quaternion M (snd pose))) a"

definition FrameCount :: "'m NodeAnimation \<Rightarrow> 32 word" where
  "FrameCount a = word_of_nat (length (keyFrames a))"

definition KeyFrame_into :: "32 word \<Rightarrow> 'm \<Rightarrow> 'm NodeAnimation \<Rightarrow> real \<times> 'm" where
  "KeyFrame_into i old a =
     (if unat i \<ge> length (keyFrames a) then (- 1, old) else keyFrames a ! unat i)"

definition KeyFrame :: "('m, 'q) gz_mat \<Rightarrow> 32 word \<Rightarrow> 'm NodeAnimation \<Rightarrow> real \<times> 'm" where
  "KeyFrame M i a = KeyFrame_into i (Identity_m M) a"

definition Length :: "'m NodeAnimation \<Rightarrow> real" where
  "Length a = na_length a"

text \<open>\<open>while (time > length) time -= length\<close>; the difference is exact here, while a \<open>double\<close> so large that it
  absorbs the length would not get smaller.\<close>

partial_function (option) wrap :: "real \<Rightarrow> real \<Rightarrow> real option" where
  "wrap len t = (if t > len then wrap len (t - len) else Some t)"

definition upper_bound :: "('k :: linorder, 'v) omap \<Rightarrow> 'k \<Rightarrow> nat" where
  "upper_bound m k = length (takeWhile (\<lambda>(j, v). j \<le> k) m)"

definition lerp3 :: "real \<Rightarrow> Vector3d \<Rightarrow> Vector3d \<Rightarrow> Vector3d" where
  "lerp3 t p q =
     \<lparr> vX = vX p + (vX q - vX p) * t, vY = vY p + (vY q - vY p) * t, vZ = vZ p + (vZ q - vZ p) * t \<rparr>"

definition blend :: "('m, 'q) gz_mat \<Rightarrow> real \<Rightarrow> 'm \<Rightarrow> 'm \<Rightarrow> 'm" where
  "blend M t prev nxt =
     SetTranslation_m M (lerp3 t (Translation_m M prev) (Translation_m M nxt))
       (of_quaternion M (Slerp_q M t (Rotation_m M prev) (Rotation_m M nxt)))"

text \<open>\<open>FrameAt\<close> for a time that was wrapped or cut.\<close>

definition frame_inside :: "('m, 'q) gz_mat \<Rightarrow> real \<Rightarrow> 'm NodeAnimation \<Rightarrow> 'm option" where
  "frame_inside M time a =
     (let kf = keyFrames a; p = upper_bound kf time
      in if near_d M time (na_length a) then
           (if kf = [] then None else Some (snd (last kf)))
         else if p = 0 then map_option snd (elem_at kf 0)
         else do { (nextKey, nextTrans) \<leftarrow> elem_at kf p;
                   if near_d M nextKey time then Some nextTrans
                   else do { (prevKey, prevTrans) \<leftarrow> elem_at kf (p - 1);
                             let t = (time - prevKey) / (nextKey - prevKey);
                             if t < 0 \<or> t > 1 then Some (default_m M)
                             else Some (blend M t prevTrans nextTrans) } })"

definition FrameAt :: "('m, 'q) gz_mat \<Rightarrow> real \<Rightarrow> bool \<Rightarrow> 'm NodeAnimation \<Rightarrow> 'm option" where
  "FrameAt M time lp a =
     do { t \<leftarrow> (if time > na_length a then
                   (if lp then wrap (na_length a) time else Some (na_length a))
                 else Some time);
          frame_inside M t a }"

definition scale_matrix :: "('m, 'q) gz_mat \<Rightarrow> real \<Rightarrow> 'm \<Rightarrow> 'm" where
  "scale_matrix M s m = SetTranslation_m M (scale3 s (Translation_m M m)) m"

definition NodeAnimation_Scale :: "('m, 'q) gz_mat \<Rightarrow> real \<Rightarrow> 'm NodeAnimation \<Rightarrow> 'm NodeAnimation" where
  "NodeAnimation_Scale M s a =
     a \<lparr> keyFrames := map (\<lambda>(t, m). (t, scale_matrix M s m)) (keyFrames a) \<rparr>"

definition TimeAtX :: "('m, 'q) gz_mat \<Rightarrow> real \<Rightarrow> 'm NodeAnimation \<Rightarrow> real option" where
  "TimeAtX M x a =
     (let kf = keyFrames a; X = (\<lambda>m. vX (Translation_m M m))
      in do { p \<leftarrow> find_index (\<lambda>(t, m). \<not> X m < x) kf;
              (t2, m2) \<leftarrow> elem_at kf p;
              if p = 0 \<or> near_d M (X m2) x then Some t2
              else do { (t1, m1) \<leftarrow> elem_at kf (p - 1);
                        Some (t1 + ((t2 - t1) * (x - X m1) / (X m2 - X m1))) } })"

subsection \<open>SkeletonAnimation\<close>

record 'm SkeletonAnimation =
  sa_name :: string
  sa_length :: real
  animations :: "(string, 'm NodeAnimation) omap"

text \<open>The length has no initialiser; \<open>len\<close> is what the new object holds.\<close>

definition SkeletonAnimation_new :: "real \<Rightarrow> string \<Rightarrow> 'm SkeletonAnimation" where
  "SkeletonAnimation_new len n = \<lparr> sa_name = n, sa_length = len, animations = [] \<rparr>"

definition SkeletonAnimation_SetName :: "string \<Rightarrow> 'm SkeletonAnimation \<Rightarrow> 'm SkeletonAnimation" where
  "SkeletonAnimation_SetName n a = a \<lparr> sa_name := n \<rparr>"

definition SkeletonAnimation_Name :: "'m SkeletonAnimation \<Rightarrow> string" where
  "SkeletonAnimation_Name a = sa_name a"

definition SA_NodeCount :: "'m SkeletonAnimation \<Rightarrow> 32 word" where
  "SA_NodeCount a = word_of_nat (length (animations a))"

definition NodeAnimationByName :: "string \<Rightarrow> 'm SkeletonAnimation \<Rightarrow> 'm NodeAnimation option" where
  "NodeAnimationByName n a = map_of (animations a) n"

definition HasNode :: "string \<Rightarrow> 'm SkeletonAnimation \<Rightarrow> bool" where
  "HasNode n a \<longleftrightarrow> map_of (animations a) n \<noteq> None"

text \<open>The frames \<open>KeyFrame(0)\<close> and \<open>KeyFrame(FrameCount() - 1)\<close>, the latter with its wrap-around
  for an empty animation.\<close>

definition first_frame :: "('m, 'q) gz_mat \<Rightarrow> 'm NodeAnimation \<Rightarrow> 'm" where
  "first_frame M n = snd (KeyFrame M 0 n)"

definition last_frame :: "('m, 'q) gz_mat \<Rightarrow> 'm NodeAnimation \<Rightarrow> 'm" where
  "last_frame M n = snd (KeyFrame M (FrameCount n - 1) n)"

fun displaced :: "('m, 'q) gz_mat \<Rightarrow> (string, 'm NodeAnimation) omap \<Rightarrow> bool" where
  "displaced M [] = False"
| "displaced M ((s, n) # m) =
     (if \<not> near_d M (vX (Translation_m M (first_frame M n))) (vX (Translation_m M (last_frame M n)))
      then True else displaced M m)"

definition XDisplacement :: "('m, 'q) gz_mat \<Rightarrow> 'm SkeletonAnimation \<Rightarrow> bool" where
  "XDisplacement M a = displaced M (animations a)"

definition node_anim :: "string \<Rightarrow> 'm SkeletonAnimation \<Rightarrow> 'm NodeAnimation" where
  "node_anim n a = (case map_of (animations a) n of None \<Rightarrow> NodeAnimation_new n | Some na \<Rightarrow> na)"

definition SA_AddKeyFrame :: "string \<Rightarrow> real \<Rightarrow> 'm \<Rightarrow> 'm SkeletonAnimation \<Rightarrow> 'm SkeletonAnimation" where
  "SA_AddKeyFrame n time mat a =
     a \<lparr> sa_length := (if time > sa_length a then time else sa_length a),
         animations := mput n (AddKeyFrame time mat (node_anim n a)) (animations a) \<rparr>"

definition SA_AddKeyFrame_pose ::
    "('m, 'q) gz_mat \<Rightarrow> string \<Rightarrow> real \<Rightarrow> Vector3d \<times> 'q \<Rightarrow> 'm SkeletonAnimation \<Rightarrow> 'm SkeletonAnimation" where
  "SA_AddKeyFrame_pose M n time pose a =
     a \<lparr> sa_length := (if time > sa_length a then time else sa_length a),
         animations := mput n (AddKeyFrame_pose M time pose (node_anim n a)) (animations a) \<rparr>"

definition NodePoseAt :: "('m, 'q) gz_mat \<Rightarrow> string \<Rightarrow> real \<Rightarrow> bool \<Rightarrow> 'm SkeletonAnimation \<Rightarrow> 'm option" where
  "NodePoseAt M n time lp a =
     (case map_of (animations a) n of None \<Rightarrow> Some (default_m M) | Some na \<Rightarrow> FrameAt M time lp na)"

fun poses :: "('m, 'q) gz_mat \<Rightarrow> real \<Rightarrow> bool \<Rightarrow> (string, 'm NodeAnimation) omap \<Rightarrow> (string, 'm) omap \<Rightarrow>
    (string, 'm) omap option" where
  "poses M time lp [] pose = Some pose"
| "poses M time lp ((n, na) # m) pose =
     do { f \<leftarrow> FrameAt M time lp na; poses M time lp m (mput n f pose) }"

definition PoseAt :: "('m, 'q) gz_mat \<Rightarrow> real \<Rightarrow> bool \<Rightarrow> 'm SkeletonAnimation \<Rightarrow> (string, 'm) omap option" where
  "PoseAt M time lp a = poses M time lp (animations a) []"

definition PoseAtX ::
    "('m, 'q) gz_mat \<Rightarrow> real \<Rightarrow> string \<Rightarrow> bool \<Rightarrow> 'm SkeletonAnimation \<Rightarrow> (string, 'm) omap option" where
  "PoseAtX M x0 n lp a =
     (case map_of (animations a) n of
        None \<Rightarrow> Some []
      | Some na \<Rightarrow>
          (let lastX = vX (Translation_m M (last_frame M na));
               firstX = vX (Translation_m M (first_frame M na));
               x1 = (if x0 < firstX then firstX else x0);
               x2 = (if x1 > lastX \<and> \<not> lp then lastX else x1)
           in do { x \<leftarrow> wrap lastX x2; time \<leftarrow> TimeAtX M x na; PoseAt M time lp a }))"

definition SkeletonAnimation_Scale ::
    "('m, 'q) gz_mat \<Rightarrow> real \<Rightarrow> 'm SkeletonAnimation \<Rightarrow> 'm SkeletonAnimation" where
  "SkeletonAnimation_Scale M s a =
     a \<lparr> animations := map (\<lambda>(n, na). (n, NodeAnimation_Scale M s na)) (animations a) \<rparr>"

definition SA_Length :: "'m SkeletonAnimation \<Rightarrow> real" where
  "SA_Length a = sa_length a"

subsection \<open>The wrap-around loop\<close>

lemma wrap_small: "t \<le> len \<Longrightarrow> wrap len t = Some t"
  by (simp add: wrap.simps)

lemma wrap_diverges:
  assumes "len \<le> 0" and "len < t"
  shows "wrap len t = None"
proof -
  have "\<not> (len \<le> 0 \<and> len < t)" if "wrap len t = Some y" for y
  proof (rule wrap.raw_induct [where P = "\<lambda>l u y. \<not> (l \<le> 0 \<and> l < u)", OF _ that])
    fix f l u v
    assume IH: "\<And>l u v. f l u = Some v \<Longrightarrow> \<not> (l \<le> 0 \<and> l < u)"
      and step: "(if l < u then f l (u - l) else Some u) = Some (v :: real)"
    show "\<not> (l \<le> 0 \<and> l < u)"
    proof (cases "l < u")
      case True
      then have "f l (u - l) = Some v" using step by simp
      from IH [OF this] True show ?thesis by auto
    qed simp
  qed
  with assms show ?thesis by (cases "wrap len t") auto
qed

lemma wrap_returns:
  assumes "0 < len" and "len < t"
  shows "\<exists>k :: nat. wrap len t = Some (t - real k * len) \<and> 0 < t - real k * len \<and> t - real k * len \<le> len"
proof -
  have "\<exists>k. wrap len t = Some (t - real k * len) \<and> 0 < t - real k * len \<and> t - real k * len \<le> len"
    if "t \<le> real n * len" "0 < t" for n t
    using that
  proof (induction n arbitrary: t)
    case (Suc n)
    show ?case
    proof (cases "t \<le> len")
      case True
      then show ?thesis using Suc.prems by (intro exI [of _ 0]) (simp add: wrap_small)
    next
      case False
      then have "t - len \<le> real n * len" "0 < t - len" using Suc.prems by (auto simp: algebra_simps)
      from Suc.IH [OF this] obtain k where
        "wrap len (t - len) = Some (t - len - real k * len)" "0 < t - len - real k * len"
        "t - len - real k * len \<le> len" by auto
      then show ?thesis using False
        by (intro exI [of _ "Suc k"]) (simp add: wrap.simps [of len t] algebra_simps)
    qed
  qed (use assms in simp)
  moreover obtain n where "t \<le> real n * len" using real_arch_simple [of "t / len"] assms(1)
    by (auto simp: field_simps)
  ultimately show ?thesis using assms by (meson less_trans)
qed

subsection \<open>Animations built by adding key frames\<close>

text \<open>Times ascend, the length is their maximum, or zero when none is positive.\<close>

definition anim_wf :: "'m NodeAnimation \<Rightarrow> bool" where
  "anim_wf a \<longleftrightarrow>
     ordered (keyFrames a) \<and> (\<forall>k \<in> fst ` set (keyFrames a). k \<le> na_length a) \<and>
     0 \<le> na_length a \<and> (na_length a = 0 \<or> na_length a \<in> fst ` set (keyFrames a))"

lemma anim_wf_new [wf_intro]: "anim_wf (NodeAnimation_new n)"
  by (simp add: anim_wf_def NodeAnimation_new_def)

lemma anim_wf_AddKeyFrame [wf_intro]: "anim_wf a \<Longrightarrow> anim_wf (AddKeyFrame t m a)"
  by (auto simp: anim_wf_def AddKeyFrame_def ordered_mput)

lemma anim_wf_AddKeyFrame_pose [wf_intro]: "anim_wf a \<Longrightarrow> anim_wf (AddKeyFrame_pose M t p a)"
  by (simp add: AddKeyFrame_pose_def anim_wf_AddKeyFrame)

lemma anim_wf_SetName [wf_intro]: "anim_wf a \<Longrightarrow> anim_wf (NodeAnimation_SetName n a)"
  by (simp add: anim_wf_def NodeAnimation_SetName_def)

lemma anim_wf_Scale [wf_intro]: "anim_wf a \<Longrightarrow> anim_wf (NodeAnimation_Scale M s a)"
proof -
  have "fst (case x of (t, m) \<Rightarrow> (t, scale_matrix M s m)) = fst x" for x :: "real \<times> 'a"
    by (cases x) simp
  then show "anim_wf a \<Longrightarrow> ?thesis"
    by (simp add: anim_wf_def NodeAnimation_Scale_def o_def image_image)
qed

lemmas anim_wf_facts = anim_wf_new anim_wf_AddKeyFrame anim_wf_AddKeyFrame_pose anim_wf_SetName anim_wf_Scale

lemma wf_nonempty: "anim_wf a \<Longrightarrow> 0 < na_length a \<Longrightarrow> keyFrames a \<noteq> []"
  by (auto simp: anim_wf_def)

lemma upper_bound_before: "j < upper_bound m k \<Longrightarrow> fst (m ! j) \<le> k \<and> j < length m"
  unfolding upper_bound_def
proof -
  assume j: "j < length (takeWhile (\<lambda>(j, v). j \<le> k) m)"
  then have "takeWhile (\<lambda>(j, v). j \<le> k) m ! j = m ! j" by (rule takeWhile_nth)
  moreover have "takeWhile (\<lambda>(j, v). j \<le> k) m ! j \<in> set (takeWhile (\<lambda>(j, v). j \<le> k) m)" using j by simp
  ultimately have "fst (m ! j) \<le> k" by (auto dest: set_takeWhileD)
  moreover have "j < length m" using j length_takeWhile_le [of "\<lambda>(j, v). j \<le> k" m] by linarith
  ultimately show ?thesis by blast
qed

lemma upper_bound_at: "upper_bound m k < length m \<Longrightarrow> k < fst (m ! upper_bound m k)"
  using nth_length_takeWhile [of "\<lambda>(j, v). j \<le> k" m] by (auto simp: upper_bound_def case_prod_unfold)

lemma upper_bound_inside:
  assumes "x \<in> fst ` set m" and "k < x"
  shows "upper_bound m k < length m"
proof (rule ccontr)
  assume "\<not> ?thesis"
  then have "takeWhile (\<lambda>(j, v). j \<le> k) m = m"
    unfolding upper_bound_def by (metis not_less take_all takeWhile_eq_take)
  then have "\<forall>y \<in> set m. fst y \<le> k" unfolding takeWhile_eq_all_conv by auto
  with assms show False by force
qed

lemma lerp_between:
  fixes lo :: real
  assumes "lo \<le> p" "p \<le> hi" "lo \<le> q" "q \<le> hi" "0 \<le> t" "t \<le> 1"
  shows "lo \<le> p + (q - p) * t \<and> p + (q - p) * t \<le> hi"
proof -
  have "p + (q - p) * t = (1 - t) * p + t * q" by (simp add: algebra_simps)
  moreover have "(1 - t) * lo + t * lo \<le> (1 - t) * p + t * q"
    using assms by (intro add_mono mult_left_mono) auto
  moreover have "(1 - t) * p + t * q \<le> (1 - t) * hi + t * hi"
    using assms by (intro add_mono mult_left_mono) auto
  ultimately show ?thesis by (simp add: algebra_simps)
qed

text \<open>The documented behaviour of gz-math the next results use: nearness is reflexive, and a
  translation that was set reads back.\<close>

definition reads_back :: "('m, 'q) gz_mat \<Rightarrow> bool" where
  "reads_back M \<longleftrightarrow> (\<forall>x. near_d M x x) \<and> (\<forall>v m. Translation_m M (SetTranslation_m M v m) = v)"

text \<open>Every coordinate lies between those of the key frames.\<close>

definition in_box :: "('m, 'q) gz_mat \<Rightarrow> 'm NodeAnimation \<Rightarrow> 'm \<Rightarrow> bool" where
  "in_box M a m \<longleftrightarrow>
     (\<forall>ax \<in> {vX, vY, vZ}.
        Min ((\<lambda>k. ax (Translation_m M (snd k))) ` set (keyFrames a)) \<le> ax (Translation_m M m) \<and>
        ax (Translation_m M m) \<le> Max ((\<lambda>k. ax (Translation_m M (snd k))) ` set (keyFrames a)))"

lemma in_box_frame: "(k, m) \<in> set (keyFrames a) \<Longrightarrow> in_box M a m"
  unfolding in_box_def by (auto intro!: Min_le Max_ge rev_image_eqI)

lemma in_box_blend:
  assumes "reads_back M" and "0 \<le> t" and "t \<le> 1"
    and p: "(k, p) \<in> set (keyFrames a)" and q: "(l, q) \<in> set (keyFrames a)"
  shows "in_box M a (blend M t p q)"
proof -
  have T: "Translation_m M (blend M t p q) = lerp3 t (Translation_m M p) (Translation_m M q)"
    using assms(1) by (simp add: reads_back_def blend_def)
  have "ax (lerp3 t u v) = ax u + (ax v - ax u) * t" if "ax \<in> {vX, vY, vZ}"
    for ax :: "Vector3d \<Rightarrow> real" and u v
    using that by (auto simp: lerp3_def)
  note ax = this
  show ?thesis unfolding in_box_def T
  proof
    fix ax :: "Vector3d \<Rightarrow> real" assume a: "ax \<in> {vX, vY, vZ}"
    show "Min ((\<lambda>k. ax (Translation_m M (snd k))) ` set (keyFrames a)) \<le> ax (lerp3 t (Translation_m M p) (Translation_m M q)) \<and>
      ax (lerp3 t (Translation_m M p) (Translation_m M q)) \<le> Max ((\<lambda>k. ax (Translation_m M (snd k))) ` set (keyFrames a))"
      unfolding ax [OF a] using in_box_frame [OF p, of M] in_box_frame [OF q, of M] a assms(2,3)
      unfolding in_box_def by (intro lerp_between) (drule (1) bspec, simp)+
  qed
qed

lemma frame_inside_box:
  assumes wf: "anim_wf a" and len: "0 < na_length a" and M: "reads_back M" and t: "t \<le> na_length a"
  shows "\<exists>m. frame_inside M t a = Some m \<and> in_box M a m"
proof -
  define kf where "kf = keyFrames a"
  define p where "p = upper_bound kf t"
  have ne: "kf \<noteq> []" using wf_nonempty [OF wf len] by (simp add: kf_def)
  show ?thesis
  proof (cases "near_d M t (na_length a)")
    case True
    have "last kf \<in> set kf" using ne by simp
    then have "in_box M a (snd (last kf))" using in_box_frame by (metis kf_def prod.collapse)
    with True ne show ?thesis by (simp add: frame_inside_def kf_def)
  next
    case False
    then have "t < na_length a" using M t by (cases "t = na_length a") (auto simp: reads_back_def)
    then have p: "p < length kf"
      using wf len upper_bound_inside [of "na_length a" kf t] by (auto simp: anim_wf_def kf_def p_def)
    obtain nk nt where nxt: "kf ! p = (nk, nt)" by fastforce
    then have nxt_in: "(nk, nt) \<in> set kf" using p by (metis nth_mem)
    show ?thesis
    proof (cases "p = 0 \<or> near_d M nk t")
      case True
      with False p nxt nxt_in in_box_frame [of nk nt a M] show ?thesis
        by (auto simp: frame_inside_def Let_def kf_def [symmetric] p_def [symmetric])
    next
      case far: False
      then have p1: "p - 1 < p" "p - 1 < length kf" using p by auto
      obtain pk pt where prv: "kf ! (p - 1) = (pk, pt)" by fastforce
      then have prv_in: "(pk, pt) \<in> set kf" using p1 by (metis nth_mem)
      have "pk \<le> t" "t < nk"
        using upper_bound_before [of "p - 1" kf t] upper_bound_at [of kf t] p p1 prv nxt by (auto simp: p_def)
      then have ratio: "0 \<le> (t - pk) / (nk - pk)" "(t - pk) / (nk - pk) \<le> 1" by auto
      have "frame_inside M t a = Some (blend M ((t - pk) / (nk - pk)) pt nt)"
        using False far p p1 nxt prv ratio
        by (simp add: frame_inside_def Let_def kf_def [symmetric] p_def [symmetric])
      with in_box_blend [OF M ratio] prv_in nxt_in show ?thesis by (auto simp: kf_def)
    qed
  qed
qed

text \<open>
  C18. \<open>FrameAt\<close> of an animation with a positive length returns for every time, looped or not, and
  the position it gives lies in the bounding box of the key frames' positions; the error branch
  for an invalid time range is never taken.
\<close>

theorem FrameAt_in_box:
  assumes "anim_wf a" and "0 < na_length a" and "reads_back M"
  shows "\<exists>m. FrameAt M time lp a = Some m \<and> in_box M a m"
proof -
  have "\<exists>t \<le> na_length a. (if time > na_length a then
      (if lp then wrap (na_length a) time else Some (na_length a)) else Some time) = Some t"
    using wrap_returns [OF assms(2), of time] by auto
  then obtain t where "t \<le> na_length a" "FrameAt M time lp a = frame_inside M t a"
    by (auto simp: FrameAt_def)
  with frame_inside_box [OF assms this(1)] show ?thesis by simp
qed

lemma reads_back_translation_mats: "reads_back translation_mats"
  by (simp add: reads_back_def translation_mats_def)

definition walk_anim :: "Vector3d NodeAnimation" where
  "walk_anim = AddKeyFrame 2 \<lparr> vX = 4, vY = 0, vZ = 0 \<rparr>
     (AddKeyFrame 0 \<lparr> vX = 0, vY = 0, vZ = 0 \<rparr> (NodeAnimation_new ''walk''))"

theorem FrameAt_in_box_witness:
  "\<exists>m. FrameAt translation_mats 5 True walk_anim = Some m \<and> 0 \<le> vX m \<and> vX m \<le> 4"
proof -
  have "anim_wf walk_anim" unfolding walk_anim_def by (intro anim_wf_facts)
  moreover have "0 < na_length walk_anim" by (simp add: walk_anim_def AddKeyFrame_def NodeAnimation_new_def)
  ultimately obtain m where "FrameAt translation_mats 5 True walk_anim = Some m" and b: "in_box translation_mats walk_anim m"
    using FrameAt_in_box [OF _ _ reads_back_translation_mats] by blast
  moreover have "0 \<le> vX m \<and> vX m \<le> 4"
    using b by (simp add: in_box_def translation_mats_def walk_anim_def AddKeyFrame_def NodeAnimation_new_def)
  ultimately show ?thesis by blast
qed

text \<open>
  An animation whose key frames are all at time zero has length zero, and a looped \<open>FrameAt\<close>
  for any later time never returns: the loop subtracts zero.
\<close>

theorem FrameAt_zero_length:
  assumes "na_length a = 0" and "0 < time"
  shows "FrameAt M time True a = None"
  using assms wrap_diverges [of 0 time] by (simp add: FrameAt_def)

end
