(* ===== verification/Skeleton_Model.thy ===== *)
theory Skeleton_Model
  imports Skeleton_Node Node_Animation
begin

section \<open>Skeleton: the node map and the operations on all nodes\<close>

text \<open>
  Class \<open>Skeleton\<close> of \<^verbatim>\<open>graphics/src/Skeleton.cc\<close> over the heap of \<open>Skeleton_Node\<close>. The skeleton
  owns the nodes of its map and its animations. \<open>AddBvhAnimation\<close> is in \<open>Bvh_Animation\<close>, with the file
  reader it calls; \<open>PrintTransforms\<close> only prints. An unchecked vector index out of range is
  \<^const>\<open>None\<close>.
\<close>

record 'm Skeleton =
  root :: "nat option"
  nodes :: "(32 word, nat) omap"
  bindShapeTransform :: 'm
  rawNodeWeights :: "(string \<times> real) list list"
  anims :: "'m SkeletonAnimation list"
  mapAnimSkin :: "(string \<rightharpoonup> string) list"
  alignTranslate :: "(string \<rightharpoonup> 'm) list"
  alignRotate :: "(string \<rightharpoonup> 'm) list"

definition Skeleton_new :: "('m, 'q) gz_mat \<Rightarrow> 'm Skeleton" where
  "Skeleton_new M =
     \<lparr> root = None, nodes = [], bindShapeTransform = Identity_m M, rawNodeWeights = [], anims = [],
       mapAnimSkin = [], alignTranslate = [], alignRotate = [] \<rparr>"

subsection \<open>Numbering the nodes\<close>

partial_function (option) build_loop ::
    "nat option list \<Rightarrow> 32 word \<Rightarrow> 'm node_heap \<Rightarrow> (32 word, nat) omap \<Rightarrow>
     ('m node_heap \<times> (32 word, nat) omap) option" where
  "build_loop toVisit i h m =
     (case toVisit of
        [] \<Rightarrow> Some (h, m)
      | None # rest \<Rightarrow> build_loop rest i h m
      | Some a # rest \<Rightarrow>
          (case h a of
             None \<Rightarrow> None
           | Some n \<Rightarrow> build_loop (children n @ rest) (i + 1) (h(a \<mapsto> n \<lparr> handle := i \<rparr>)) (mput i a m)))"

definition BuildNodeMap :: "'m Skeleton \<Rightarrow> 'm node_heap \<Rightarrow> ('m Skeleton \<times> 'm node_heap) option" where
  "BuildNodeMap sk h =
     do { (h', m) \<leftarrow> build_loop [root sk] 0 h (nodes sk); Some (sk \<lparr> nodes := m \<rparr>, h') }"

definition RootNode :: "nat option \<Rightarrow> 'm Skeleton \<Rightarrow> 'm node_heap \<Rightarrow> ('m Skeleton \<times> 'm node_heap) option" where
  "RootNode a sk h = BuildNodeMap (sk \<lparr> root := a \<rparr>) h"

definition Skeleton_of :: "('m, 'q) gz_mat \<Rightarrow> nat option \<Rightarrow> 'm node_heap \<Rightarrow> ('m Skeleton \<times> 'm node_heap) option" where
  "Skeleton_of M a h = RootNode a (Skeleton_new M) h"

text \<open>The destructor deletes every node of the map; deleting an address that holds no node is
  undefined.\<close>

fun delete_nodes :: "(32 word, nat) omap \<Rightarrow> 'm node_heap \<Rightarrow> 'm node_heap option" where
  "delete_nodes [] h = Some h"
| "delete_nodes ((i, a) # m) h = (if h a = None then None else delete_nodes m (h(a := None)))"

definition Skeleton_destroy :: "'m Skeleton \<Rightarrow> 'm node_heap \<Rightarrow> 'm node_heap option" where
  "Skeleton_destroy sk h = delete_nodes (nodes sk) h"

subsection \<open>Finding nodes\<close>

definition GetRootNode :: "'m Skeleton \<Rightarrow> nat option" where
  "GetRootNode sk = root sk"

fun find_node :: "('m SkelNode \<Rightarrow> bool) \<Rightarrow> (32 word, nat) omap \<Rightarrow> 'm node_heap \<Rightarrow> nat option option" where
  "find_node P [] h = Some None"
| "find_node P ((i, a) # m) h =
     do { n \<leftarrow> h a; if P n then Some (Some a) else find_node P m h }"

definition NodeByName :: "string \<Rightarrow> 'm Skeleton \<Rightarrow> 'm node_heap \<Rightarrow> nat option option" where
  "NodeByName s sk h = find_node (\<lambda>n. node_name n = s) (nodes sk) h"

definition NodeById :: "string \<Rightarrow> 'm Skeleton \<Rightarrow> 'm node_heap \<Rightarrow> nat option option" where
  "NodeById s sk h = find_node (\<lambda>n. node_id n = s) (nodes sk) h"

definition NodeByHandle :: "32 word \<Rightarrow> 'm Skeleton \<Rightarrow> nat option" where
  "NodeByHandle i sk = map_of (nodes sk) i"

definition Skeleton_NodeCount :: "'m Skeleton \<Rightarrow> 32 word" where
  "Skeleton_NodeCount sk = word_of_nat (length (nodes sk))"

fun count_joints :: "(32 word, nat) omap \<Rightarrow> 'm node_heap \<Rightarrow> 32 word \<Rightarrow> 32 word option" where
  "count_joints [] h c = Some c"
| "count_joints ((i, a) # m) h c =
     do { n \<leftarrow> h a; count_joints m h (if node_type n = JOINT then c + 1 else c) }"

definition JointCount :: "'m Skeleton \<Rightarrow> 'm node_heap \<Rightarrow> 32 word option" where
  "JointCount sk h = count_joints (nodes sk) h 0"

definition Nodes :: "'m Skeleton \<Rightarrow> (32 word, nat) omap" where
  "Nodes sk = nodes sk"

subsection \<open>Scaling\<close>

fun scale_nodes :: "('m, 'q) gz_mat \<Rightarrow> real \<Rightarrow> nat list \<Rightarrow> 'm node_heap \<Rightarrow> 'm node_heap option" where
  "scale_nodes M s [] h = Some h"
| "scale_nodes M s (a # as) h =
     do { t \<leftarrow> Transform a h; h' \<leftarrow> SetTransform M a (scale_matrix M s t) False h; scale_nodes M s as h' }"

definition Skeleton_Scale ::
    "('m, 'q) gz_mat \<Rightarrow> real \<Rightarrow> 'm Skeleton \<Rightarrow> 'm node_heap \<Rightarrow> ('m Skeleton \<times> 'm node_heap) option" where
  "Skeleton_Scale M s sk h =
     (case root sk of
        None \<Rightarrow> Some (sk, h)
      | Some r \<Rightarrow>
          do { h1 \<leftarrow> scale_nodes M s (map snd (nodes sk)) h;
               h2 \<leftarrow> UpdateChildrenTransforms M r h1;
               Some (sk \<lparr> anims := map (SkeletonAnimation_Scale M s) (anims sk) \<rparr>, h2) })"

subsection \<open>Weights, bind shape and animations\<close>

definition SetBindShapeTransform :: "'m \<Rightarrow> 'm Skeleton \<Rightarrow> 'm Skeleton" where
  "SetBindShapeTransform m sk = sk \<lparr> bindShapeTransform := m \<rparr>"

definition BindShapeTransform :: "'m Skeleton \<Rightarrow> 'm" where
  "BindShapeTransform sk = bindShapeTransform sk"

definition SetNumVertAttached :: "32 word \<Rightarrow> 'm Skeleton \<Rightarrow> 'm Skeleton" where
  "SetNumVertAttached n sk = sk \<lparr> rawNodeWeights := replicate (unat n) [] \<rparr>"

definition AddVertNodeWeight :: "32 word \<Rightarrow> string \<Rightarrow> real \<Rightarrow> 'm Skeleton \<Rightarrow> 'm Skeleton" where
  "AddVertNodeWeight v n w sk =
     (if unat v < length (rawNodeWeights sk)
      then sk \<lparr> rawNodeWeights := (rawNodeWeights sk)[unat v := rawNodeWeights sk ! unat v @ [(n, w)]] \<rparr>
      else sk)"

definition VertNodeWeightCount :: "32 word \<Rightarrow> 'm Skeleton \<Rightarrow> 32 word" where
  "VertNodeWeightCount v sk =
     (if unat v < length (rawNodeWeights sk) then word_of_nat (length (rawNodeWeights sk ! unat v)) else 0)"

definition VertNodeWeight :: "32 word \<Rightarrow> 32 word \<Rightarrow> 'm Skeleton \<Rightarrow> string \<times> real" where
  "VertNodeWeight v i sk =
     (if unat v < length (rawNodeWeights sk) \<and> unat i < length (rawNodeWeights sk ! unat v)
      then rawNodeWeights sk ! unat v ! unat i else ([], 0))"

definition AnimationCount :: "'m Skeleton \<Rightarrow> 32 word" where
  "AnimationCount sk = word_of_nat (length (anims sk))"

definition Animation :: "32 word \<Rightarrow> 'm Skeleton \<Rightarrow> 'm SkeletonAnimation option" where
  "Animation i sk = (if unat i < length (anims sk) then Some (anims sk ! unat i) else None)"

definition AddAnimation :: "'m SkeletonAnimation \<Rightarrow> 'm Skeleton \<Rightarrow> 'm Skeleton" where
  "AddAnimation a sk =
     sk \<lparr> mapAnimSkin := mapAnimSkin sk @ [Map.empty], alignTranslate := alignTranslate sk @ [Map.empty],
          alignRotate := alignRotate sk @ [Map.empty], anims := anims sk @ [a] \<rparr>"

definition NodeNameAnimToSkin :: "32 word \<Rightarrow> string \<Rightarrow> 'm Skeleton \<Rightarrow> string option" where
  "NodeNameAnimToSkin i n sk =
     map_option (\<lambda>m. case m n of None \<Rightarrow> n | Some s \<Rightarrow> s) (elem_at (mapAnimSkin sk) (unat i))"

definition AlignTranslation :: "('m, 'q) gz_mat \<Rightarrow> 32 word \<Rightarrow> string \<Rightarrow> 'm Skeleton \<Rightarrow> 'm option" where
  "AlignTranslation M i n sk =
     map_option (\<lambda>m. case m n of None \<Rightarrow> Identity_m M | Some t \<Rightarrow> t) (elem_at (alignTranslate sk) (unat i))"

definition AlignRotation :: "('m, 'q) gz_mat \<Rightarrow> 32 word \<Rightarrow> string \<Rightarrow> 'm Skeleton \<Rightarrow> 'm option" where
  "AlignRotation M i n sk =
     map_option (\<lambda>m. case m n of None \<Rightarrow> Identity_m M | Some t \<Rightarrow> t) (elem_at (alignRotate sk) (unat i))"

subsection \<open>The node map of a tree\<close>

text \<open>The functional counterpart: the addresses in depth-first order get consecutive numbers.\<close>

fun number :: "32 word \<Rightarrow> nat list \<Rightarrow> 'm node_heap \<Rightarrow> 'm node_heap" where
  "number i [] h = h"
| "number i (a # as) h = number (i + 1) as (h(a := map_option (\<lambda>n. n \<lparr> handle := i \<rparr>) (h a)))"

fun enter :: "32 word \<Rightarrow> nat list \<Rightarrow> (32 word, nat) omap \<Rightarrow> (32 word, nat) omap" where
  "enter i [] m = m"
| "enter i (a # as) m = enter (i + 1) as (mput i a m)"

lemma number_append: "number i (as @ bs) h = number (i + word_of_nat (length as)) bs (number i as h)"
  by (induction as arbitrary: i h) (simp_all add: add.assoc)

lemma enter_append: "enter i (as @ bs) m = enter (i + word_of_nat (length as)) bs (enter i as m)"
  by (induction as arbitrary: i m) (simp_all add: add.assoc)

lemma number_links: "map_option parent (number i as h b) = map_option parent (h b) \<and>
    map_option children (number i as h b) = map_option children (h b)"
  by (induction as arbitrary: i h) (auto simp: option.map_comp o_def)

lemma represents_number: "represents h p t \<Longrightarrow> represents (number i as h) p t"
  by (erule represents_cong) (simp add: number_links)

lemma build_forest_gen:
  fixes g :: "'m node_heap"
  assumes "\<And>u p (g :: 'm node_heap) i m rest. u \<in> set ts \<Longrightarrow> represents g p u \<Longrightarrow>
      build_loop (Some (root_of u) # rest) i g m =
      build_loop rest (i + word_of_nat (length (addrs u))) (number i (addrs u) g) (enter i (addrs u) m)"
    and "\<forall>u \<in> set ts. represents g p u"
  shows "build_loop (map (\<lambda>t. Some (root_of t)) ts @ rest) i g m =
    build_loop rest (i + word_of_nat (length (forest_addrs ts))) (number i (forest_addrs ts) g)
      (enter i (forest_addrs ts) m)"
  using assms
proof (induction ts arbitrary: g i m)
  case (Cons u us)
  let ?g = "number i (addrs u) g"
  have "build_loop (map (\<lambda>t. Some (root_of t)) (u # us) @ rest) i g m =
      build_loop (map (\<lambda>t. Some (root_of t)) us @ rest) (i + word_of_nat (length (addrs u))) ?g (enter i (addrs u) m)"
    unfolding list.map append_Cons by (rule Cons.prems(1)) (use Cons.prems(2) in auto)
  also have "\<dots> = build_loop rest (i + word_of_nat (length (addrs u)) + word_of_nat (length (forest_addrs us)))
      (number (i + word_of_nat (length (addrs u))) (forest_addrs us) ?g)
      (enter (i + word_of_nat (length (addrs u))) (forest_addrs us) (enter i (addrs u) m))"
    by (rule Cons.IH) (use Cons.prems in \<open>auto simp: represents_number\<close>)
  finally show ?case by (simp add: number_append enter_append add.assoc)
qed simp

lemma build_loop_tree:
  "represents h p t \<Longrightarrow>
   build_loop (Some (root_of t) # rest) i h m =
   build_loop rest (i + word_of_nat (length (addrs t))) (number i (addrs t) h) (enter i (addrs t) m)"
proof (induction t arbitrary: p h i m rest)
  case (Tree a ts)
  obtain n where n: "h a = Some n" "children n = map (\<lambda>t. Some (root_of t)) ts" using Tree.prems by auto
  let ?h = "h(a \<mapsto> n \<lparr> handle := i \<rparr>)"
  have ts: "\<forall>u \<in> set ts. represents ?h (Some a) u"
    using Tree.prems n by (auto elim!: represents_cong)
  have "build_loop (Some (root_of (Tree a ts)) # rest) i h m =
      build_loop (map (\<lambda>t. Some (root_of t)) ts @ rest) (i + 1) ?h (mput i a m)"
    using n by (simp add: build_loop.simps [of "Some a # rest"])
  also have "\<dots> = build_loop rest (i + 1 + word_of_nat (length (forest_addrs ts)))
      (number (i + 1) (forest_addrs ts) ?h) (enter (i + 1) (forest_addrs ts) (mput i a m))"
    by (rule build_forest_gen [OF _ ts]) (rule Tree.IH)
  finally show ?case using n by (simp add: add.assoc)
qed

lemma RootNode_tree:
  assumes "represents h p t"
  shows "RootNode (Some (root_of t)) sk h =
    Some (sk \<lparr> root := Some (root_of t), nodes := enter 0 (addrs t) (nodes sk) \<rparr>, number 0 (addrs t) h)"
  using build_loop_tree [OF assms, of "[]" 0 "nodes sk"]
  by (simp add: RootNode_def BuildNodeMap_def build_loop.simps [of "[]"])

text \<open>A map whose keys are the numbers from zero.\<close>

primrec seq_from :: "nat \<Rightarrow> nat list \<Rightarrow> (32 word, nat) omap" where
  "seq_from i [] = []"
| "seq_from i (a # as) = (word_of_nat i, a) # seq_from (Suc i) as"

lemma seq_from_append: "seq_from i (as @ bs) = seq_from i as @ seq_from (i + length as) bs"
  by (induction as arbitrary: i) simp_all

lemma map_snd_seq [simp]: "map snd (seq_from i as) = as"
  by (induction as arbitrary: i) simp_all

lemma length_seq [simp]: "length (seq_from i as) = length as"
  by (induction as arbitrary: i) simp_all

lemma seq_keys: "x \<in> set (seq_from i as) \<Longrightarrow> \<exists>j. i \<le> j \<and> j < i + length as \<and> fst x = word_of_nat j"
proof (induction as arbitrary: i)
  case (Cons a as)
  then consider "x = (word_of_nat i, a)" | "x \<in> set (seq_from (Suc i) as)" by auto
  then show ?case
  proof cases
    case 2
    from Cons.IH [OF this] show ?thesis by (metis Suc_le_lessD add_Suc_shift length_Cons less_imp_le)
  qed auto
qed simp

lemma word_less: "i < j \<Longrightarrow> j < 2 ^ 32 \<Longrightarrow> (word_of_nat i :: 32 word) < word_of_nat j"
  by (simp add: word_less_nat_alt unat_of_nat take_bit_nat_eq_self)

lemma mput_seq:
  assumes "j \<le> length xs" and "j < 2 ^ 32"
  shows "mput (word_of_nat j) a (seq_from 0 xs) = seq_from 0 (take j xs @ a # drop (Suc j) xs)"
proof -
  have small: "\<forall>x \<in> set (seq_from 0 (take j xs)). fst x < word_of_nat j"
  proof
    fix x assume "x \<in> set (seq_from 0 (take j xs))"
    from seq_keys [OF this] obtain k where "k < j" "fst x = word_of_nat k" by auto
    then show "fst x < word_of_nat j" using word_less [OF _ assms(2)] by simp
  qed
  show ?thesis
  proof (cases "j < length xs")
    case True
    then have "xs = take j xs @ xs ! j # drop (Suc j) xs" by (simp add: id_take_nth_drop)
    then have "seq_from 0 xs = seq_from 0 (take j xs) @ (word_of_nat j, xs ! j) # seq_from (Suc j) (drop (Suc j) xs)"
      using True by (metis (no_types, lifting) add_0 length_take min.absorb4 seq_from.simps(2) seq_from_append)
    then show ?thesis using mput_mid [OF small] True by (simp add: seq_from_append)
  next
    case False
    then show ?thesis using mput_end [OF small] assms(1) by (simp add: seq_from_append)
  qed
qed

lemma enter_seq:
  "j \<le> length xs \<Longrightarrow> j + length as \<le> 2 ^ 32 \<Longrightarrow>
     enter (word_of_nat j) as (seq_from 0 xs) = seq_from 0 (take j xs @ as @ drop (j + length as) xs)"
proof (induction as arbitrary: j xs)
  case (Cons a as)
  let ?ys = "take j xs @ a # drop (Suc j) xs"
  have "enter (word_of_nat j) (a # as) (seq_from 0 xs) = enter (word_of_nat (Suc j)) as (seq_from 0 ?ys)"
    using Cons.prems by (simp add: mput_seq add.commute)
  also have "\<dots> = seq_from 0 (take (Suc j) ?ys @ as @ drop (Suc j + length as) ?ys)"
    by (rule Cons.IH) (use Cons.prems in auto)
  also have "take (Suc j) ?ys @ as @ drop (Suc j + length as) ?ys =
      take j xs @ (a # as) @ drop (j + length (a # as)) xs"
    using Cons.prems by (simp add: min_def add.commute)
  finally show ?case .
qed simp

lemma enter_fresh: "length as \<le> 2 ^ 32 \<Longrightarrow> enter 0 as [] = seq_from 0 as"
  using enter_seq [of 0 "[]" as] by simp

lemma enter_again:
  "length bs \<le> length as \<Longrightarrow> length as \<le> 2 ^ 32 \<Longrightarrow>
     enter 0 bs (seq_from 0 as) = seq_from 0 (bs @ drop (length bs) as)"
  using enter_seq [of 0 as bs] by simp

lemma number_at:
  "distinct as \<Longrightarrow> j < length as \<Longrightarrow>
     number i as h (as ! j) = map_option (\<lambda>n. n \<lparr> handle := i + word_of_nat j \<rparr>) (h (as ! j))"
proof (induction as arbitrary: i h j)
  case (Cons a as)
  have out: "b \<notin> set as \<Longrightarrow> number i as h b = h b" for b i and h :: "'a node_heap"
    by (induction as arbitrary: i h) auto
  show ?case
  proof (cases j)
    case 0
    then show ?thesis using Cons.prems out by simp
  next
    case (Suc k)
    with Cons show ?thesis by (auto simp: add.assoc)
  qed
qed simp

lemma number_outside: "b \<notin> set as \<Longrightarrow> number i as h b = h b"
  by (induction as arbitrary: i h) auto

lemma represents_child: "represents h p (Tree a ts) \<Longrightarrow> u \<in> set ts \<Longrightarrow> represents h (Some a) u"
  by simp

lemma represents_in_heap: "represents h p t \<Longrightarrow> b \<in> set (addrs t) \<Longrightarrow> \<exists>n. h b = Some n"
  by (induction h p t rule: represents.induct) auto

lemma map_of_seq:
  "j < length as \<Longrightarrow> i + length as \<le> 2 ^ 32 \<Longrightarrow> map_of (seq_from i as) (word_of_nat (i + j)) = Some (as ! j)"
proof (induction as arbitrary: i j)
  case (Cons a as)
  show ?case
  proof (cases j)
    case (Suc k)
    have "i < i + j" "i + j < 2 ^ 32" using Cons.prems Suc by auto
    have "(word_of_nat (i + j) :: 32 word) \<noteq> word_of_nat i"
      using word_less [OF \<open>i < i + j\<close> \<open>i + j < 2 ^ 32\<close>] by (rule less_imp_neq [symmetric])
    moreover have "map_of (seq_from (Suc i) as) (word_of_nat (Suc i + k)) = Some (as ! k)"
      using Cons.prems Suc by (intro Cons.IH) auto
    ultimately show ?thesis by (simp add: Suc del: of_nat_add of_nat_Suc)
  qed simp
qed simp

lemma RootNode_new_tree:
  assumes "represents h p t" and "distinct (addrs t)" and "length (addrs t) \<le> 2 ^ 32"
  shows "Skeleton_of M (Some (root_of t)) h =
    Some (Skeleton_new M \<lparr> root := Some (root_of t), nodes := seq_from 0 (addrs t) \<rparr>, number 0 (addrs t) h)"
  using RootNode_tree [OF assms(1), of "Skeleton_new M"] enter_fresh [OF assms(3)]
  by (simp add: Skeleton_of_def Skeleton_new_def)

text \<open>
  C35. A skeleton made for a tree of nodes numbers them depth first from zero: the node map sends
  every number to the node of that rank, the node knows its number, and the tree is as it was.
\<close>

theorem Skeleton_of_numbers:
  assumes "represents h p t" and "distinct (addrs t)" and "length (addrs t) < 2 ^ 32"
  shows "\<exists>sk h'. Skeleton_of M (Some (root_of t)) h = Some (sk, h') \<and> represents h' p t \<and>
     Skeleton_NodeCount sk = word_of_nat (length (addrs t)) \<and>
     (\<forall>j < length (addrs t). NodeByHandle (word_of_nat j) sk = Some (addrs t ! j) \<and>
        Handle (addrs t ! j) h' = Some (word_of_nat j))"
proof -
  have len: "length (addrs t) \<le> 2 ^ 32" "0 + length (addrs t) \<le> 2 ^ 32" using assms(3) by auto
  have "Handle (addrs t ! j) (number 0 (addrs t) h) = Some (word_of_nat j)" if "j < length (addrs t)" for j
  proof -
    have "addrs t ! j \<in> set (addrs t)" using that by (rule nth_mem)
    then obtain n where "h (addrs t ! j) = Some n" using represents_in_heap [OF assms(1)] by auto
    then show ?thesis using number_at [OF assms(2) that, of 0 h] by (simp add: Handle_def)
  qed
  moreover have "map_of (seq_from 0 (addrs t)) (word_of_nat j) = Some (addrs t ! j)"
    if "j < length (addrs t)" for j using map_of_seq [OF that len(2)] by simp
  ultimately show ?thesis using RootNode_new_tree [OF assms(1,2) len(1), of M] represents_number [OF assms(1)]
    by (simp add: Skeleton_NodeCount_def NodeByHandle_def)
qed

theorem Skeleton_of_numbers_witness:
  "\<exists>sk h'. Skeleton_of translation_mats (Some 1) three_nodes = Some (sk, h') \<and> NodeByHandle 2 sk = Some 3"
proof -
  obtain sk h' where "Skeleton_of translation_mats (Some 1) three_nodes = Some (sk, h')"
    and n: "\<forall>j < 3. NodeByHandle (word_of_nat j) sk = Some ([1, 2, 3] ! j)"
    using Skeleton_of_numbers [OF three_nodes_tree, of translation_mats] by (auto simp: numeral_3_eq_3)
  moreover have "NodeByHandle 2 sk = Some 3" using n [rule_format, of 2] by simp
  ultimately show ?thesis by blast
qed

subsection \<open>Deleting the nodes\<close>

lemma delete_nodes_distinct:
  "distinct (map snd m) \<Longrightarrow> \<forall>a \<in> set (map snd m). h a \<noteq> None \<Longrightarrow>
     delete_nodes m h = Some (\<lambda>a. if a \<in> set (map snd m) then None else h a)"
proof (induction m arbitrary: h)
  case (Cons x m)
  obtain i a where x: "x = (i, a)" by fastforce
  have "delete_nodes m (h(a := None)) = Some (\<lambda>b. if b \<in> set (map snd m) then None else (h(a := None)) b)"
    by (rule Cons.IH) (use Cons.prems x in auto)
  moreover have "(\<lambda>b. if b \<in> set (map snd m) then None else (h(a := None)) b) =
      (\<lambda>b. if b \<in> set (map snd (x # m)) then None else h b)" by (auto simp: x)
  ultimately show ?case using Cons.prems by (simp add: x)
qed simp

lemma delete_nodes_dead: "h a = None \<Longrightarrow> a \<in> set (map snd m) \<Longrightarrow> delete_nodes m h = None"
proof (induction m arbitrary: h)
  case (Cons x m)
  obtain i b where x: "x = (i, b)" by fastforce
  show ?case
  proof (cases "a = b \<or> h b = None")
    case False
    then have "(h(b := None)) a = None" "a \<in> set (map snd m)" using Cons.prems by (auto simp: x)
    then have "delete_nodes m (h(b := None)) = None" by (rule Cons.IH)
    with False show ?thesis by (simp add: x)
  qed (use Cons.prems x in auto)
qed simp

lemma delete_nodes_twice: "\<not> distinct (map snd m) \<Longrightarrow> delete_nodes m h = None"
proof (induction m arbitrary: h)
  case (Cons x m)
  obtain i a where x: "x = (i, a)" by fastforce
  show ?case
  proof (cases "a \<in> set (map snd m)")
    case True
    then show ?thesis using delete_nodes_dead [of "h(a := None)" a m] by (simp add: x)
  next
    case False
    with Cons show ?thesis by (simp add: x)
  qed
qed simp

text \<open>
  C36. A skeleton just made by its constructor for a tree of nodes, all of them different objects and fewer
  than \<open>2 ^ 32\<close>: destroying it frees exactly the nodes of the tree, each once; nothing leaks and nothing is
  freed twice. (After \<open>RootNode\<close> is set again it is not so: \<open>RootNode_again_double_delete\<close>.)
\<close>

theorem Skeleton_destroy_frees:
  assumes "represents h p t" and "distinct (addrs t)" and "length (addrs t) < 2 ^ 32"
    and "Skeleton_of M (Some (root_of t)) h = Some (sk, h')"
  shows "Skeleton_destroy sk h' = Some (\<lambda>a. if a \<in> set (addrs t) then None else h a)"
proof -
  have sk: "nodes sk = seq_from 0 (addrs t)" and h': "h' = number 0 (addrs t) h"
    using assms(4) RootNode_new_tree [OF assms(1,2), of M] assms(3) by auto
  have "\<forall>a \<in> set (addrs t). h' a \<noteq> None"
    using represents_in_heap [OF represents_number [OF assms(1)]] by (fastforce simp: h')
  then have "delete_nodes (nodes sk) h' = Some (\<lambda>a. if a \<in> set (addrs t) then None else h' a)"
    using delete_nodes_distinct [of "nodes sk" h'] assms(2) by (simp add: sk)
  moreover have "(\<lambda>a. if a \<in> set (addrs t) then None else h' a) = (\<lambda>a. if a \<in> set (addrs t) then None else h a)"
    by (auto simp: h' number_outside)
  ultimately show ?thesis by (simp add: Skeleton_destroy_def)
qed

theorem Skeleton_destroy_frees_witness:
  "\<exists>sk h'. Skeleton_of translation_mats (Some 1) three_nodes = Some (sk, h') \<and>
     (\<exists>h2. Skeleton_destroy sk h' = Some h2 \<and> h2 3 = None)"
proof -
  have l: "length (addrs chain3) < 2 ^ 32" by simp
  obtain sk h' where s: "Skeleton_of translation_mats (Some (root_of chain3)) three_nodes = Some (sk, h')"
    using RootNode_new_tree [OF three_nodes_tree, of translation_mats] by auto
  from Skeleton_destroy_frees [OF three_nodes_tree l s] s show ?thesis by auto
qed

text \<open>
  \<open>RootNode\<close> does not clear the node map. Giving a skeleton a subtree of its tree as the new
  root leaves the nodes of the subtree in the map twice, and the destructor deletes one of them
  twice.
\<close>

theorem RootNode_again_double_delete:
  assumes "represents h p (Tree a ts)" and "distinct (addrs (Tree a ts))"
    and "length (addrs (Tree a ts)) < 2 ^ 32"
    and "Skeleton_of M (Some a) h = Some (sk, h1)" and "u \<in> set ts"
    and "RootNode (Some (root_of u)) sk h1 = Some (sk2, h2)"
  shows "Skeleton_destroy sk2 h2 = None"
proof -
  let ?as = "addrs (Tree a ts)" and ?us = "addrs u"
  have sk: "nodes sk = seq_from 0 ?as" and h1: "h1 = number 0 ?as h"
    using assms(4) RootNode_new_tree [OF assms(1,2), of M] assms(3) by auto
  obtain xs ys where ts: "ts = xs @ u # ys" using assms(5) by (auto simp: in_set_conv_decomp)
  have "represents h1 (Some a) u"
    unfolding h1 by (rule represents_child [OF represents_number [OF assms(1)] assms(5)])
  from RootNode_tree [OF this, of sk] assms(6) have "nodes sk2 = enter 0 ?us (seq_from 0 ?as)"
    by (simp add: sk)
  also have "\<dots> = seq_from 0 (?us @ drop (length ?us) ?as)"
    using assms(3) by (intro enter_again) (simp_all add: ts)
  finally have m: "map snd (nodes sk2) = ?us @ drop (length ?us) ?as" by simp
  have as: "?as = (a # forest_addrs xs) @ ?us @ forest_addrs ys" by (simp add: ts)
  have "last ?us \<in> set (drop (length ?us) ?as)"
  proof -
    have ne: "?us \<noteq> []" by (cases u) simp
    obtain zs where us: "?us = zs @ [last ?us]" using ne by (metis append_butlast_last_id)
    have "?as = (a # forest_addrs xs @ zs) @ last ?us # forest_addrs ys" by (subst as, subst us) simp
    moreover have "length ?us \<le> length (a # forest_addrs xs @ zs)" by (subst us) simp
    ultimately have "drop (length ?us) ?as =
        drop (length ?us) (a # forest_addrs xs @ zs) @ last ?us # forest_addrs ys" by (metis drop_append diff_is_0_eq drop_0)
    then show ?thesis by simp
  qed
  moreover have "last ?us \<in> set ?us" by (cases u) (simp only: addrs.simps last_in_set list.distinct not_False_eq_True)
  ultimately have "\<not> distinct (map snd (nodes sk2))" by (auto simp: m)
  then show ?thesis by (simp add: Skeleton_destroy_def delete_nodes_twice)
qed

subsection \<open>Scaling a skeleton\<close>

text \<open>What gz-math documents for affine matrices: scaling the translation commutes with the
  product.\<close>

definition scalable :: "('m, 'q) gz_mat \<Rightarrow> real \<Rightarrow> bool" where
  "scalable M s \<longleftrightarrow>
     (\<forall>A B. scale_matrix M s (mul_m M A B) = mul_m M (scale_matrix M s A) (scale_matrix M s B))"

definition has_parent :: "'m node_heap \<Rightarrow> nat \<Rightarrow> bool" where
  "has_parent h a \<longleftrightarrow> (\<exists>n. h a = Some n \<and> (\<forall>q. parent n = Some q \<longrightarrow> (\<exists>m. h q = Some m)))"

lemma has_parent_update: "has_parent h b \<Longrightarrow> a \<noteq> b \<Longrightarrow> has_parent (h(a \<mapsto> n)) b"
  unfolding has_parent_def by auto

definition rescaled :: "('m, 'q) gz_mat \<Rightarrow> real \<Rightarrow> 'm SkelNode \<Rightarrow> 'm SkelNode \<Rightarrow> bool" where
  "rescaled M s n n' \<longleftrightarrow>
     (\<exists>m. n' = n \<lparr> transform := scale_matrix M s (transform n), modelTransform := m \<rparr> \<and>
          (parent n = None \<longrightarrow> m = scale_matrix M s (transform n)))"

lemma scale_nodes_spec:
  "distinct as \<Longrightarrow> \<forall>a \<in> set as. has_parent h a \<Longrightarrow>
   \<exists>h'. scale_nodes M s as h = Some h' \<and> (\<forall>b. b \<notin> set as \<longrightarrow> h' b = h b) \<and>
        (\<forall>a \<in> set as. \<exists>n n'. h a = Some n \<and> h' a = Some n' \<and> rescaled M s n n')"
proof (induction as arbitrary: h)
  case (Cons a as)
  obtain n where n: "h a = Some n" and p: "\<forall>q. parent n = Some q \<longrightarrow> (\<exists>m. h q = Some m)"
    using Cons.prems by (auto simp: has_parent_def)
  have "\<exists>n'. SetTransform M a (scale_matrix M s (transform n)) False h = Some (h(a \<mapsto> n')) \<and> rescaled M s n n'"
    using n p by (cases "parent n") (auto simp: SetTransform_def rescaled_def Let_def)
  then obtain n' where s: "SetTransform M a (scale_matrix M s (transform n)) False h = Some (h(a \<mapsto> n'))"
    and n': "rescaled M s n n'" by blast
  have "distinct as" "\<forall>b \<in> set as. has_parent (h(a \<mapsto> n')) b"
    using Cons.prems by (auto intro: has_parent_update)
  from Cons.IH [OF this] obtain h' where
    h': "scale_nodes M s as (h(a \<mapsto> n')) = Some h'" "\<forall>b. b \<notin> set as \<longrightarrow> h' b = (h(a \<mapsto> n')) b"
    "\<forall>b \<in> set as. \<exists>k k'. (h(a \<mapsto> n')) b = Some k \<and> h' b = Some k' \<and> rescaled M s k k'" by blast
  have "scale_nodes M s (a # as) h = Some h'" using n s h'(1) by (simp add: Transform_def)
  moreover have "h' a = Some n'" using h'(2) Cons.prems(1) by simp
  moreover have "\<exists>k k'. h b = Some k \<and> h' b = Some k' \<and> rescaled M s k k'" if "b \<in> set as" for b
  proof -
    have "b \<noteq> a" using that Cons.prems(1) by auto
    with bspec [OF h'(3) that] show ?thesis by simp
  qed
  ultimately show ?case using h'(2) n n' by (intro exI [of _ h']) auto
qed simp

lemma represents_has_parent:
  "represents h p t \<Longrightarrow> (\<forall>q. p = Some q \<longrightarrow> (\<exists>m. h q = Some m)) \<Longrightarrow> a \<in> set (addrs t) \<Longrightarrow> has_parent h a"
proof (induction h p t rule: represents.induct)
  case (1 h p b ts)
  then obtain n where "h b = Some n" "parent n = p" by auto
  with 1 show ?case by (auto simp: has_parent_def)
qed

lemma placed_scaled:
  assumes "placed M h t" and "placed M h' t" and sc: "scalable M s"
    and "\<forall>a \<in> set (addrs t). map_option transform (h' a) = map_option (\<lambda>n. scale_matrix M s (transform n)) (h a)"
    and "map_option modelTransform (h' (root_of t)) = map_option (\<lambda>n. scale_matrix M s (modelTransform n)) (h (root_of t))"
    and "a \<in> set (addrs t)"
  shows "map_option modelTransform (h' a) = map_option (\<lambda>n. scale_matrix M s (modelTransform n)) (h a)"
  using assms(1,2,4,5,6)
proof (induction t)
  case (Tree b ts)
  show ?case
  proof (cases "a = b")
    case False
    then obtain u where u: "u \<in> set ts" "a \<in> set (addrs u)" using Tree.prems(5) by auto
    obtain n c where n: "h b = Some n" "h (root_of u) = Some c"
      "modelTransform c = mul_m M (modelTransform n) (transform c)" using Tree.prems(1) u by auto
    obtain n' c' where n': "h' b = Some n'" "h' (root_of u) = Some c'"
      "modelTransform c' = mul_m M (modelTransform n') (transform c')" using Tree.prems(2) u by auto
    have "root_of u \<in> set (addrs (Tree b ts))" using u(1) root_in_addrs [of u] by (auto simp del: root_in_addrs)
    then have "transform c' = scale_matrix M s (transform c)"
      using Tree.prems(3) n(2) n'(2) by fastforce
    moreover have "modelTransform n' = scale_matrix M s (modelTransform n)"
      using Tree.prems(4) n(1) n'(1) by simp
    ultimately have "map_option modelTransform (h' (root_of u)) =
        map_option (\<lambda>n. scale_matrix M s (modelTransform n)) (h (root_of u))"
      using n n' sc by (simp add: scalable_def)
    moreover have "placed M h u" "placed M h' u" using Tree.prems(1,2) u by auto
    moreover have "\<forall>a \<in> set (addrs u). map_option transform (h' a) =
        map_option (\<lambda>n. scale_matrix M s (transform n)) (h a)" using Tree.prems(3) u by auto
    ultimately show ?thesis using Tree.IH [OF u(1)] u(2) by blast
  qed (use Tree.prems in simp)
qed

text \<open>
  \<open>Scale\<close> scales a skeleton as a whole: on a tree whose model transforms are up to date it
  returns, and both the local and the model transform of every node have their position scaled
  by the factor and nothing else changed.
\<close>

theorem Skeleton_Scale_all:
  assumes t: "represents h None t" and d: "distinct (addrs t)" and "placed M h t"
    and top: "map_option modelTransform (h (root_of t)) = map_option transform (h (root_of t))"
    and "root sk = Some (root_of t)" and "map snd (nodes sk) = addrs t" and sc: "scalable M s"
  shows "\<exists>sk' h'. Skeleton_Scale M s sk h = Some (sk', h') \<and> placed M h' t \<and>
     (\<forall>a \<in> set (addrs t).
        map_option transform (h' a) = map_option (\<lambda>n. scale_matrix M s (transform n)) (h a) \<and>
        map_option modelTransform (h' a) = map_option (\<lambda>n. scale_matrix M s (modelTransform n)) (h a))"
proof -
  have "\<forall>a \<in> set (addrs t). has_parent h a" using represents_has_parent [OF t] by auto
  from scale_nodes_spec [OF d this, of M s] obtain h1 where
    h1: "scale_nodes M s (addrs t) h = Some h1"
    "\<forall>a \<in> set (addrs t). \<exists>n n'. h a = Some n \<and> h1 a = Some n' \<and> rescaled M s n n'" by blast
  have same: "map_option parent (h1 a) = map_option parent (h a)"
    "map_option children (h1 a) = map_option children (h a)"
    "map_option transform (h1 a) = map_option (\<lambda>n. scale_matrix M s (transform n)) (h a)"
    if "a \<in> set (addrs t)" for a
    using h1(2) that by (fastforce simp: rescaled_def)+
  have "represents h1 None t" using t by (rule represents_cong) (use same in auto)
  from Update_placed [OF this d, of M] obtain h2 where
    h2: "UpdateChildrenTransforms M (root_of t) h1 = Some h2" "placed M h2 t"
    "h2 (root_of t) = h1 (root_of t)" "\<forall>b. map_option shape (h2 b) = map_option shape (h1 b)" by blast
  have tr: "\<forall>a \<in> set (addrs t). map_option transform (h2 a) =
      map_option (\<lambda>n. scale_matrix M s (transform n)) (h a)"
    using same(3) shape_fields(3) [OF h2(4) [rule_format]] by simp
  obtain n where n: "h (root_of t) = Some n" "parent n = None" using t by (cases t) auto
  then obtain n' where "h1 (root_of t) = Some n'" "rescaled M s n n'"
    using h1(2) [rule_format, of "root_of t"] by auto
  then have "map_option modelTransform (h2 (root_of t)) =
      map_option (\<lambda>n. scale_matrix M s (modelTransform n)) (h (root_of t))"
    using n top by (auto simp: h2(3) rescaled_def)
  from placed_scaled [OF assms(3) h2(2) sc tr this] tr h1(1) h2(1,2) assms(5,6) show ?thesis
    by (simp add: Skeleton_Scale_def)
qed

end
