(* ===== verification/Keyframe_Animation.thy ===== *)
theory Keyframe_Animation
  imports Gz_Math Std_Map "HOL-Library.Word" "HOL-Library.Monad_Syntax"
begin

section \<open>Key-frame animations\<close>

text \<open>
  \<^verbatim>\<open>graphics/src/KeyFrame.cc\<close> and the animations of \<^verbatim>\<open>graphics/src/Animation.cc\<close>. The vector of an
  animation holds shared pointers, and \<open>CreateKeyFrame\<close> hands out a pointer the caller fills the
  frame through, so frames live in a heap with a bump allocator; a shared pointer keeps its frame
  alive, so a cell is always defined. A key frame class is a record, derived classes extend it.
  \<open>front()\<close> of an empty vector and a null spline are \<^const>\<open>None\<close>. Times and values are real
  numbers. The splines, \<open>clamp\<close> and \<open>Distance\<close> of gz-math are parameters.
\<close>

subsection \<open>Key frames\<close>

record KeyFrameBase =
  kf_time :: real

record 'q PoseKeyFrame = KeyFrameBase +
  translate :: Vector3d
  rotate :: 'q

record NumericKeyFrame = KeyFrameBase +
  num_value :: real

record 'f frame_heap =
  next_addr :: nat
  cell :: "nat \<Rightarrow> 'f"

record 'q gz_interp =
  clamp_d :: "real \<Rightarrow> real \<Rightarrow> real \<Rightarrow> real"
  Spline_at :: "real \<Rightarrow> Vector3d list \<Rightarrow> nat \<Rightarrow> real \<Rightarrow> Vector3d"
  RotationSpline_at :: "'q list \<Rightarrow> nat \<Rightarrow> real \<Rightarrow> 'q"
  default_q :: 'q
  Vector3d_zero :: Vector3d
  Distance_2 :: "Vector2d \<Rightarrow> Vector2d \<Rightarrow> real"

definition KeyFrame_Time :: "'z KeyFrameBase_scheme \<Rightarrow> real" where
  "KeyFrame_Time k = kf_time k"

definition PoseKeyFrame_new :: "'q gz_interp \<Rightarrow> real \<Rightarrow> 'q PoseKeyFrame" where
  "PoseKeyFrame_new I t = \<lparr> kf_time = t, translate = Vector3d_zero I, rotate = default_q I \<rparr>"

definition SetTranslation :: "Vector3d \<Rightarrow> 'q PoseKeyFrame \<Rightarrow> 'q PoseKeyFrame" where
  "SetTranslation v k = k \<lparr> translate := v \<rparr>"

definition Translation :: "'q PoseKeyFrame \<Rightarrow> Vector3d" where
  "Translation k = translate k"

definition SetRotation :: "'q \<Rightarrow> 'q PoseKeyFrame \<Rightarrow> 'q PoseKeyFrame" where
  "SetRotation r k = k \<lparr> rotate := r \<rparr>"

definition Rotation :: "'q PoseKeyFrame \<Rightarrow> 'q" where
  "Rotation k = rotate k"

text \<open>The value of a new numeric frame is not initialised: it is what the memory holds.\<close>

definition NumericKeyFrame_new :: "real \<Rightarrow> real \<Rightarrow> NumericKeyFrame" where
  "NumericKeyFrame_new junk t = \<lparr> kf_time = t, num_value = junk \<rparr>"

definition SetValue :: "real \<Rightarrow> NumericKeyFrame \<Rightarrow> NumericKeyFrame" where
  "SetValue x k = k \<lparr> num_value := x \<rparr>"

definition Value :: "NumericKeyFrame \<Rightarrow> real" where
  "Value k = num_value k"

text \<open>Writing through a pointer to a frame.\<close>

definition write_frame :: "nat \<Rightarrow> ('f \<Rightarrow> 'f) \<Rightarrow> 'f frame_heap \<Rightarrow> 'f frame_heap" where
  "write_frame p g H = H \<lparr> cell := (cell H)(p := g (cell H p)) \<rparr>"

subsection \<open>Animation\<close>

record AnimBase =
  interpolateX :: bool
  anim_name :: string
  anim_length :: real
  timePos :: real
  anim_loop :: bool
  frames :: "nat list"

definition Animation_new :: "string \<Rightarrow> real \<Rightarrow> bool \<Rightarrow> AnimBase" where
  "Animation_new name len lp =
     \<lparr> interpolateX = False, anim_name = name, anim_length = len, timePos = 0, anim_loop = lp,
       frames = [] \<rparr>"

definition Animation_Length :: "'z AnimBase_scheme \<Rightarrow> real" where
  "Animation_Length a = anim_length a"

definition Animation_SetLength :: "real \<Rightarrow> 'z AnimBase_scheme \<Rightarrow> 'z AnimBase_scheme" where
  "Animation_SetLength len a = a \<lparr> anim_length := len \<rparr>"

text \<open>The C function \<open>fmod\<close>: the remainder of a division that truncates towards zero.\<close>

definition fmod :: "real \<Rightarrow> real \<Rightarrow> real" where
  "fmod x y = x - y * (if x / y \<ge> 0 then of_int \<lfloor>x / y\<rfloor> else of_int \<lceil>x / y\<rceil>)"

definition SetTime :: "gz_math \<Rightarrow> real \<Rightarrow> 'z AnimBase_scheme \<Rightarrow> 'z AnimBase_scheme" where
  "SetTime M time a =
     (if equal_d M time (timePos a) then a
      else if anim_loop a then
        (if equal_d M (anim_length a) 0 then a \<lparr> timePos := 0 \<rparr>
         else let r = fmod time (anim_length a)
              in a \<lparr> timePos := (if r < 0 then r + anim_length a else r) \<rparr>)
      else if time < 0 then a \<lparr> timePos := 0 \<rparr>
      else if time > anim_length a then a \<lparr> timePos := anim_length a \<rparr>
      else a \<lparr> timePos := time \<rparr>)"

definition AddTime :: "gz_math \<Rightarrow> real \<Rightarrow> 'z AnimBase_scheme \<Rightarrow> 'z AnimBase_scheme" where
  "AddTime M time a = SetTime M (timePos a + time) a"

definition Time :: "'z AnimBase_scheme \<Rightarrow> real" where
  "Time a = timePos a"

definition InterpolateX :: "'z AnimBase_scheme \<Rightarrow> bool" where
  "InterpolateX a = interpolateX a"

definition SetInterpolateX :: "bool \<Rightarrow> 'z AnimBase_scheme \<Rightarrow> 'z AnimBase_scheme" where
  "SetInterpolateX b a = a \<lparr> interpolateX := b \<rparr>"

definition KeyFrameCount :: "'z AnimBase_scheme \<Rightarrow> 32 word" where
  "KeyFrameCount a = word_of_nat (length (frames a))"

definition KeyFrame_at :: "32 word \<Rightarrow> 'z AnimBase_scheme \<Rightarrow> nat option" where
  "KeyFrame_at i a = elem_at (frames a) (unat i)"

text \<open>The times of an animation's frames, and the two binary searches over them.\<close>

abbreviation kf_times :: "('k KeyFrameBase_scheme) frame_heap \<Rightarrow> 'z AnimBase_scheme \<Rightarrow> real list" where
  "kf_times H a \<equiv> map (\<lambda>p. kf_time (cell H p)) (frames a)"

definition upper_pos :: "real list \<Rightarrow> real \<Rightarrow> nat" where
  "upper_pos ts t = length (takeWhile (\<lambda>x. x \<le> t) ts)"

definition lower_pos :: "real list \<Rightarrow> real \<Rightarrow> nat" where
  "lower_pos ts t = length (takeWhile (\<lambda>x. x < t) ts)"

definition CreateKeyFrame ::
    "(real \<Rightarrow> 'k KeyFrameBase_scheme) \<Rightarrow> real \<Rightarrow> ('k KeyFrameBase_scheme) frame_heap \<Rightarrow> 'z AnimBase_scheme \<Rightarrow>
     nat \<times> ('k KeyFrameBase_scheme) frame_heap \<times> 'z AnimBase_scheme" where
  "CreateKeyFrame mk time H a =
     (let p = next_addr H; f = mk time; i = upper_pos (kf_times H a) (kf_time f)
      in (p, H \<lparr> next_addr := p + 1, cell := (cell H)(p := f) \<rparr>,
          a \<lparr> frames := take i (frames a) @ p # drop i (frames a) \<rparr>))"

text \<open>\<open>while (_time > length && length > 0) _time -= length\<close>.\<close>

function wrap_pos :: "real \<Rightarrow> real \<Rightarrow> real" where
  "wrap_pos len t = (if t > len \<and> len > 0 then wrap_pos len (t - len) else t)"
  by pat_completeness auto
termination
proof (relation "measure (\<lambda>(len, t). nat \<lfloor>t / len\<rfloor>)", goal_cases)
  case (2 len t)
  then have "1 \<le> t / len" and "(t - len) / len = t / len - 1" by (simp_all add: diff_divide_distrib)
  then have "1 \<le> \<lfloor>t / len\<rfloor>" and "\<lfloor>(t - len) / len\<rfloor> = \<lfloor>t / len\<rfloor> - 1" by simp_all
  then show ?case by simp
qed simp

declare wrap_pos.simps [simp del]

definition fraction :: "gz_math \<Rightarrow> real \<Rightarrow> real \<Rightarrow> real \<Rightarrow> real" where
  "fraction M t1 t2 t = (if equal_d M t1 t2 then 0 else (t - t1) / (t2 - t1))"

definition KeyFramesAtTime ::
    "gz_math \<Rightarrow> real \<Rightarrow> ('k KeyFrameBase_scheme) frame_heap \<Rightarrow> 'z AnimBase_scheme \<Rightarrow>
     (real \<times> nat \<times> nat \<times> 32 word) option" where
  "KeyFramesAtTime M time H a =
     (let t = wrap_pos (anim_length a) time; ts = kf_times H a; ks = frames a; p = lower_pos ts t
      in if ks = [] then None
         else let (kf2, t2, i) =
                (if p = length ks then (hd ks, anim_length a + hd ts, p - 1)
                 else (ks ! p, ts ! p, if p \<noteq> 0 \<and> t < ts ! p then p - 1 else p));
              t1 = ts ! i
         in Some (fraction M t1 t2 t, ks ! i, kf2, word_of_nat i))"

subsection \<open>NumericAnimation\<close>

definition NumericAnimation_new :: "string \<Rightarrow> real \<Rightarrow> bool \<Rightarrow> AnimBase" where
  "NumericAnimation_new name len lp = Animation_new name len lp"

definition Numeric_CreateKeyFrame ::
    "real \<Rightarrow> real \<Rightarrow> NumericKeyFrame frame_heap \<Rightarrow> AnimBase \<Rightarrow> nat \<times> NumericKeyFrame frame_heap \<times> AnimBase" where
  "Numeric_CreateKeyFrame junk time H a = CreateKeyFrame (NumericKeyFrame_new junk) time H a"

definition Numeric_InterpolatedKeyFrame ::
    "gz_math \<Rightarrow> NumericKeyFrame \<Rightarrow> NumericKeyFrame frame_heap \<Rightarrow> AnimBase \<Rightarrow> NumericKeyFrame option" where
  "Numeric_InterpolatedKeyFrame M kf H a =
     do { (t, p1, p2, i) \<leftarrow> KeyFramesAtTime M (Time a) H a;
          let k1 = cell H p1; let k2 = cell H p2;
          Some (if equal_d M t 0 then SetValue (Value k1) kf
                else SetValue (Value k1 + (Value k2 - Value k1) * t) kf) }"

subsection \<open>PoseAnimation\<close>

text \<open>A spline is its tension and the points it was calculated for.\<close>

record 'q PoseAnimation = AnimBase +
  positionSpline :: "(real \<times> Vector3d list) option"
  rotationSpline :: "'q list option"
  build :: bool
  tension :: real

definition PoseAnimation_new :: "'q gz_interp \<Rightarrow> string \<Rightarrow> real \<Rightarrow> bool \<Rightarrow> real \<Rightarrow> 'q PoseAnimation" where
  "PoseAnimation_new I name len lp tens =
     AnimBase.extend (Animation_new name len lp)
       (PoseAnimation.fields None None False (clamp_d I tens 0 1))"

definition Pose_CreateKeyFrame ::
    "'q gz_interp \<Rightarrow> real \<Rightarrow> 'q PoseKeyFrame frame_heap \<Rightarrow> 'q PoseAnimation \<Rightarrow>
     nat \<times> 'q PoseKeyFrame frame_heap \<times> 'q PoseAnimation" where
  "Pose_CreateKeyFrame I time H a = CreateKeyFrame (PoseKeyFrame_new I) time H (a \<lparr> build := True \<rparr>)"

text \<open>The loop over \<open>KeyFrameCount()\<close> frames, a 32-bit count.\<close>

definition counted_frames :: "'z AnimBase_scheme \<Rightarrow> nat list" where
  "counted_frames a = take (unat (KeyFrameCount a)) (frames a)"

definition BuildInterpolationSplines :: "'q PoseKeyFrame frame_heap \<Rightarrow> 'q PoseAnimation \<Rightarrow> 'q PoseAnimation" where
  "BuildInterpolationSplines H a =
     a \<lparr> positionSpline := Some (tension a, map (\<lambda>p. Translation (cell H p)) (counted_frames a)),
         rotationSpline := Some (map (\<lambda>p. Rotation (cell H p)) (counted_frames a)), build := False \<rparr>"

definition Pose_InterpolatedKeyFrame_at ::
    "gz_math \<Rightarrow> 'q gz_interp \<Rightarrow> real \<Rightarrow> 'q PoseKeyFrame \<Rightarrow> 'q PoseKeyFrame frame_heap \<Rightarrow> 'q PoseAnimation \<Rightarrow>
     ('q PoseKeyFrame \<times> 'q PoseAnimation) option" where
  "Pose_InterpolatedKeyFrame_at M I time kf H a =
     (let a1 = (if build a then BuildInterpolationSplines H a else a)
      in do { (t, p1, p2, i) \<leftarrow> KeyFramesAtTime M time H a1;
              if equal_d M t 0
              then Some (SetRotation (Rotation (cell H p1)) (SetTranslation (Translation (cell H p1)) kf), a1)
              else do { (tens, ps) \<leftarrow> positionSpline a1; qs \<leftarrow> rotationSpline a1;
                        Some (SetRotation (RotationSpline_at I qs (unat i) t)
                                (SetTranslation (Spline_at I tens ps (unat i) t) kf), a1) } })"

definition Pose_InterpolatedKeyFrame ::
    "gz_math \<Rightarrow> 'q gz_interp \<Rightarrow> 'q PoseKeyFrame \<Rightarrow> 'q PoseKeyFrame frame_heap \<Rightarrow> 'q PoseAnimation \<Rightarrow>
     ('q PoseKeyFrame \<times> 'q PoseAnimation) option" where
  "Pose_InterpolatedKeyFrame M I kf H a = Pose_InterpolatedKeyFrame_at M I (Time a) kf H a"

subsection \<open>Key frames stay sorted\<close>

definition kf_wf :: "('k KeyFrameBase_scheme) frame_heap \<Rightarrow> 'z AnimBase_scheme \<Rightarrow> bool" where
  "kf_wf H a \<longleftrightarrow> sorted (kf_times H a) \<and> distinct (frames a) \<and> (\<forall>p \<in> set (frames a). p < next_addr H)"

lemma length_takeWhile_split:
  "length (takeWhile P xs) = n \<Longrightarrow> (\<forall>x \<in> set (take n xs). P x) \<and> (n < length xs \<longrightarrow> \<not> P (xs ! n)) \<and> n \<le> length xs"
  by (metis length_takeWhile_le nth_length_takeWhile set_takeWhileD takeWhile_eq_take)

lemma sorted_insert_upper:
  assumes "sorted ts"
  shows "sorted (take (upper_pos ts t) ts @ t # drop (upper_pos ts t) ts)"
proof -
  let ?i = "upper_pos ts t"
  have split: "(\<forall>x \<in> set (take ?i ts). x \<le> t) \<and> (?i < length ts \<longrightarrow> \<not> ts ! ?i \<le> t) \<and> ?i \<le> length ts"
    unfolding upper_pos_def by (rule length_takeWhile_split) simp
  have drops: "t \<le> x" if "x \<in> set (drop ?i ts)" for x
  proof -
    have "\<exists>j < length (drop ?i ts). drop ?i ts ! j = x" using that by (simp only: in_set_conv_nth)
    then obtain j where j: "j < length ts - ?i" "x = ts ! (?i + j)" using split by auto
    then have "ts ! ?i \<le> x" using assms by (auto intro: sorted_nth_mono)
    then show ?thesis using split j(1) by force
  qed
  have "sorted (take ?i ts)" "sorted (drop ?i ts)" using assms by (simp_all add: sorted_wrt_take sorted_wrt_drop)
  moreover have "x \<le> y" if "x \<in> set (take ?i ts)" "y \<in> set (drop ?i ts)" for x y
    using split drops [OF that(2)] that(1) by force
  ultimately show ?thesis using split drops by (auto simp: sorted_append)
qed

lemma upper_pos_le: "upper_pos ts t \<le> length ts"
  by (simp add: upper_pos_def length_takeWhile_le)

lemma set_split_insert: "set (take i xs @ x # drop i xs) = insert x (set xs)"
  by (metis append_take_drop_id insert_is_Un list.simps(15) set_append sup_left_commute)

lemma distinct_split_insert: "distinct xs \<Longrightarrow> x \<notin> set xs \<Longrightarrow> distinct (take i xs @ x # drop i xs)"
  using distinct_append [of "take i xs" "drop i xs"] by (auto dest: in_set_takeD in_set_dropD)

lemma map_split_insert: "map g (take i xs @ x # drop i xs) = take i (map g xs) @ g x # drop i (map g xs)"
  by (simp add: take_map drop_map)

lemma CreateKeyFrame_frames:
  assumes "CreateKeyFrame mk time H a = (p, H', a')"
  shows "p = next_addr H" and "next_addr H' = p + 1" and "cell H' = (cell H)(p := mk time)"
    and "a' = a \<lparr> frames := take (upper_pos (kf_times H a) (kf_time (mk time))) (frames a) @ p #
          drop (upper_pos (kf_times H a) (kf_time (mk time))) (frames a) \<rparr>"
  using assms by (auto simp: CreateKeyFrame_def Let_def)

lemma CreateKeyFrame_times:
  assumes "CreateKeyFrame mk time H a = (p, H', a')" and "kf_wf H a"
  shows "kf_times H' a' = take (upper_pos (kf_times H a) (kf_time (mk time))) (kf_times H a) @
    kf_time (mk time) # drop (upper_pos (kf_times H a) (kf_time (mk time))) (kf_times H a)"
proof -
  note c = CreateKeyFrame_frames [OF assms(1)]
  have "p \<notin> set (frames a)" using assms(2) c(1) by (auto simp: kf_wf_def)
  then have "map (\<lambda>q. kf_time (cell H' q)) (frames a) = kf_times H a"
    by (auto simp: c(3))
  then have "map (\<lambda>q. kf_time (cell H' q)) (take i (frames a)) = take i (kf_times H a)"
    "map (\<lambda>q. kf_time (cell H' q)) (drop i (frames a)) = drop i (kf_times H a)" for i
    by (metis take_map, metis drop_map)
  then show ?thesis by (simp add: c(4)) (simp add: c(3))
qed

text \<open>A new key frame keeps the frames sorted; the frames there were keep their order.\<close>

lemma CreateKeyFrame_wf:
  assumes "CreateKeyFrame mk time H a = (p, H', a')" and "kf_wf H a"
  shows "kf_wf H' a'" and "set (frames a') = insert p (set (frames a))" and "p \<notin> set (frames a)"
    and "cell H' p = mk time" and "\<forall>q \<in> set (frames a). cell H' q = cell H q"
proof -
  note c = CreateKeyFrame_frames [OF assms(1)]
  show fresh: "p \<notin> set (frames a)" using assms(2) c(1) by (auto simp: kf_wf_def)
  show s: "set (frames a') = insert p (set (frames a))" using set_split_insert by (simp add: c(4))
  have d: "distinct (frames a')"
    using distinct_split_insert [OF _ fresh] assms(2) by (simp add: c(4) kf_wf_def)
  have "sorted (kf_times H' a')"
    unfolding CreateKeyFrame_times [OF assms] using assms(2) by (intro sorted_insert_upper) (simp add: kf_wf_def)
  then show "kf_wf H' a'" using d s assms(2) by (auto simp: kf_wf_def c(1,2))
  show "cell H' p = mk time" "\<forall>q \<in> set (frames a). cell H' q = cell H q"
    using fresh by (auto simp: c(3))
qed

subsection \<open>Setting the time\<close>

lemma fmod_bounds:
  assumes "0 < y"
  shows "- y < fmod x y" and "fmod x y < y" and "\<exists>k. fmod x y = x + of_int k * y"
proof -
  have y: "y * (x / y) = x" using assms by simp
  have f: "y * of_int \<lfloor>x / y\<rfloor> \<le> x" "x < y * (of_int \<lfloor>x / y\<rfloor> + 1)"
    using assms y mult_left_mono [OF of_int_floor_le, of y "x / y"]
      mult_strict_left_mono [OF floor_correct [THEN conjunct2], of y "x / y"] by simp_all
  have c: "x \<le> y * of_int \<lceil>x / y\<rceil>" "y * (of_int \<lceil>x / y\<rceil> - 1) < x"
    using assms y mult_left_mono [OF le_of_int_ceiling, of y "x / y"]
      mult_strict_left_mono [OF ceiling_correct [THEN conjunct1], of y "x / y"] by simp_all
  show "- y < fmod x y" "fmod x y < y" using f c assms by (auto simp: fmod_def algebra_simps)
  have "fmod x y = x + of_int (if x / y \<ge> 0 then - \<lfloor>x / y\<rfloor> else - \<lceil>x / y\<rceil>) * y"
    by (simp add: fmod_def)
  then show "\<exists>k. fmod x y = x + of_int k * y" by blast
qed

text \<open>
  Setting or advancing the time keeps it inside the animation: a time in \<open>[0, length]\<close> stays
  there whatever time is set, and a looped animation moves by whole lengths only.
\<close>

theorem SetTime_in_range:
  assumes "0 \<le> timePos a" and "timePos a \<le> anim_length a" and "0 < anim_length a"
    and "\<not> equal_d M (anim_length a) 0"
  shows "0 \<le> timePos (SetTime M time a) \<and> timePos (SetTime M time a) \<le> anim_length a \<and>
     (equal_d M time (timePos a) \<longrightarrow> SetTime M time a = a) \<and>
     (\<not> equal_d M time (timePos a) \<longrightarrow> anim_loop a \<longrightarrow>
        (\<exists>k. timePos (SetTime M time a) = time + of_int k * anim_length a)) \<and>
     (\<not> equal_d M time (timePos a) \<longrightarrow> \<not> anim_loop a \<longrightarrow>
        timePos (SetTime M time a) = max 0 (min time (anim_length a)))"
proof -
  let ?L = "anim_length a"
  obtain k where k: "fmod time ?L = time + of_int k * ?L" using fmod_bounds(3) [OF assms(3)] by blast
  have "fmod time ?L + ?L = time + of_int (k + 1) * ?L" by (simp add: k algebra_simps)
  with k have "\<exists>j. (if fmod time ?L < 0 then fmod time ?L + ?L else fmod time ?L) = time + of_int j * ?L"
    by metis
  then show ?thesis
    using assms fmod_bounds(1,2) [OF assms(3), of time]
    by (auto simp: SetTime_def Let_def max_def min_def)
qed

subsection \<open>Interpolation\<close>

lemma wrap_pos_le: "0 < len \<Longrightarrow> wrap_pos len t \<le> len"
proof (induction len t rule: wrap_pos.induct)
  case (1 len t)
  show ?case
  proof (cases "t > len")
    case True
    with 1 have "wrap_pos len (t - len) \<le> len" by blast
    then show ?thesis using True 1(2) by (simp only: wrap_pos.simps [of len t] if_True simp_thms)
  qed (simp add: wrap_pos.simps [of len t])
qed

lemma wrap_pos_inside: "t \<le> len \<Longrightarrow> wrap_pos len t = t"
  by (subst wrap_pos.simps) simp

lemma lower_pos_split:
  "(\<forall>x \<in> set (take (lower_pos ts t) ts). x < t) \<and> (lower_pos ts t < length ts \<longrightarrow> t \<le> ts ! lower_pos ts t) \<and>
   lower_pos ts t \<le> length ts"
  using length_takeWhile_split [OF refl, of "\<lambda>x. x < t" ts] unfolding lower_pos_def not_less .

lemma lower_pos_before: "j < lower_pos ts t \<Longrightarrow> ts ! j < t"
  unfolding lower_pos_def by (metis nth_mem set_takeWhileD takeWhile_nth)

lemma fraction_bounds:
  assumes "t1 = t2 \<or> t1 \<le> t \<and> t \<le> t2" and "\<forall>x. equal_d M x x"
  shows "0 \<le> fraction M t1 t2 t \<and> fraction M t1 t2 t \<le> 1"
proof (cases "equal_d M t1 t2")
  case False
  then have "t1 \<noteq> t2" using assms(2) by auto
  then show ?thesis using assms(1) by (auto simp: fraction_def divide_le_eq_1)
qed (simp add: fraction_def)

text \<open>The frames \<open>KeyFramesAtTime\<close> finds, and the parametric time between them.\<close>

lemma KeyFramesAtTime_between:
  assumes "frames a \<noteq> []" and "\<forall>x \<in> set (kf_times H a). 0 \<le> x \<and> x \<le> anim_length a"
    and "\<forall>x. equal_d M x x"
  shows "\<exists>t i j. KeyFramesAtTime M time H a = Some (t, frames a ! i, frames a ! j, word_of_nat i) \<and>
     i < length (frames a) \<and> j < length (frames a) \<and> 0 \<le> t \<and> t \<le> 1"
proof -
  let ?t = "wrap_pos (anim_length a) time" and ?ts = "kf_times H a" and ?ks = "frames a" and ?L = "anim_length a"
  let ?p = "lower_pos ?ts ?t" and ?n = "length (frames a)"
  have eq: "equal_d M x y \<or> x \<noteq> y" for x y using assms(3) by auto
  have n: "0 < ?n" and L: "0 \<le> ?L" using assms(1,2) by (auto simp: neq_Nil_conv)
  have hd: "hd ?ts = ?ts ! 0" "hd ?ks = ?ks ! 0" using assms(1) by (simp_all add: hd_conv_nth hd_map)
  have rng: "0 \<le> ?ts ! i \<and> ?ts ! i \<le> ?L" if "i < ?n" for i using assms(2) that by auto
  consider "?p = ?n" | "?p < ?n" "?p \<noteq> 0" "?t < ?ts ! ?p" | "?p < ?n" "\<not> (?p \<noteq> 0 \<and> ?t < ?ts ! ?p)"
    using lower_pos_split [of ?ts ?t] by force
  then show ?thesis
  proof cases
    case 1
    let ?i = "?n - 1"
    have "?ts ! ?i < ?t" using lower_pos_before [of ?i ?ts ?t] 1 n by simp
    moreover have "?ts ! ?i = ?L + ?ts ! 0" if "\<not> 0 < ?L"
      using that rng [of ?i] rng [of 0] n L by simp
    moreover have "?t \<le> ?L + ?ts ! 0" if "0 < ?L" using wrap_pos_le [OF that, of time] rng [of 0] n by simp
    ultimately have "?ts ! ?i = ?L + ?ts ! 0 \<or> ?ts ! ?i \<le> ?t \<and> ?t \<le> ?L + ?ts ! 0" by fastforce
    from fraction_bounds [OF this assms(3)]
    have "0 \<le> fraction M (?ts ! ?i) (?L + ?ts ! 0) ?t \<and> fraction M (?ts ! ?i) (?L + ?ts ! 0) ?t \<le> 1" .
    moreover have "KeyFramesAtTime M time H a =
        Some (fraction M (?ts ! ?i) (?L + ?ts ! 0) ?t, ?ks ! ?i, ?ks ! 0, word_of_nat ?i)"
      using 1 n hd assms(1) by (simp add: KeyFramesAtTime_def Let_def)
    moreover have "?i < ?n" using n by simp
    ultimately show ?thesis using n by blast
  next
    case 2
    have "?ts ! (?p - 1) \<le> ?t" using lower_pos_before [of "?p - 1" ?ts ?t] 2(2) by simp
    with 2(3) have "?ts ! (?p - 1) = ?ts ! ?p \<or> ?ts ! (?p - 1) \<le> ?t \<and> ?t \<le> ?ts ! ?p" by linarith
    from fraction_bounds [OF this assms(3)]
    have "0 \<le> fraction M (?ts ! (?p - 1)) (?ts ! ?p) ?t \<and> fraction M (?ts ! (?p - 1)) (?ts ! ?p) ?t \<le> 1" .
    moreover have "KeyFramesAtTime M time H a =
        Some (fraction M (?ts ! (?p - 1)) (?ts ! ?p) ?t, ?ks ! (?p - 1), ?ks ! ?p, word_of_nat (?p - 1))"
      using 2 assms(1) by (simp add: KeyFramesAtTime_def Let_def)
    moreover have "?p - 1 < ?n" using 2(1) by simp
    ultimately show ?thesis using 2(1) by blast
  next
    case 3
    then have "KeyFramesAtTime M time H a = Some (0, ?ks ! ?p, ?ks ! ?p, word_of_nat ?p)"
      using assms(1,3) by (auto simp: KeyFramesAtTime_def fraction_def Let_def)
    then show ?thesis using 3(1) by fastforce
  qed
qed

lemma convex_between:
  assumes "lo \<le> x" "x \<le> hi" "lo \<le> y" "y \<le> hi" "0 \<le> t" "t \<le> (1 :: real)"
  shows "lo \<le> x + (y - x) * t" and "x + (y - x) * t \<le> hi"
proof -
  have e: "x + (y - x) * t = (1 - t) * x + t * y" by (simp add: algebra_simps)
  have "(1 - t) * lo + t * lo \<le> (1 - t) * x + t * y"
    using assms by (intro add_mono mult_left_mono) simp_all
  moreover have "(1 - t) * x + t * y \<le> (1 - t) * hi + t * hi"
    using assms by (intro add_mono mult_left_mono) simp_all
  ultimately show "lo \<le> x + (y - x) * t" "x + (y - x) * t \<le> hi"
    unfolding e by (simp_all add: algebra_simps)
qed

text \<open>
  The interpolated value of a numeric animation always exists and lies within the values of
  its key frames, whatever the current time is, when their times lie in \<open>[0, length]\<close>.
\<close>

theorem Numeric_interpolation_between:
  assumes "frames a \<noteq> []" and "\<forall>x \<in> set (kf_times H a). 0 \<le> x \<and> x \<le> anim_length a"
    and "\<forall>x. equal_d M x x" and "\<forall>p \<in> set (frames a). lo \<le> Value (cell H p) \<and> Value (cell H p) \<le> hi"
  shows "\<exists>k. Numeric_InterpolatedKeyFrame M kf H a = Some k \<and> lo \<le> Value k \<and> Value k \<le> hi \<and>
     KeyFrame_Time k = KeyFrame_Time kf"
proof -
  obtain t i j where k: "KeyFramesAtTime M (Time a) H a = Some (t, frames a ! i, frames a ! j, word_of_nat i)"
    and ij: "i < length (frames a)" "j < length (frames a)" "0 \<le> t" "t \<le> 1"
    using KeyFramesAtTime_between [OF assms(1-3)] by metis
  let ?x = "Value (cell H (frames a ! i))" and ?y = "Value (cell H (frames a ! j))"
  have "lo \<le> ?x" "?x \<le> hi" "lo \<le> ?y" "?y \<le> hi" using assms(4) ij by simp_all
  with convex_between [OF this ij(3,4)] show ?thesis
    by (simp add: Numeric_InterpolatedKeyFrame_def k SetValue_def Value_def KeyFrame_Time_def Let_def)
qed

text \<open>At the time of a key frame that is later than all before it, that frame is found.\<close>

lemma KeyFramesAtTime_exact:
  assumes "kf_wf H a" and "k < length (frames a)" and "\<forall>j < k. kf_times H a ! j < kf_times H a ! k"
    and "kf_times H a ! k \<le> anim_length a" and "\<forall>x. equal_d M x x"
  shows "KeyFramesAtTime M (kf_times H a ! k) H a = Some (0, frames a ! k, frames a ! k, word_of_nat k)"
proof -
  let ?ts = "kf_times H a"
  have "takeWhile (\<lambda>x. x < ?ts ! k) ?ts = take k ?ts"
    using assms(2,3) by (intro takeWhile_eq_take_P_nth) simp_all
  then have "lower_pos ?ts (?ts ! k) = k" using assms(2) by (simp add: lower_pos_def)
  moreover have "frames a \<noteq> []" using assms(2) by auto
  ultimately show ?thesis
    using assms(2,5) wrap_pos_inside [OF assms(4)] by (simp add: KeyFramesAtTime_def Let_def fraction_def)
qed

lemma Pose_exact:
  assumes "kf_wf H a" and "k < length (frames a)" and "\<forall>j < k. kf_times H a ! j < kf_times H a ! k"
    and "kf_times H a ! k \<le> anim_length a" and "\<forall>x. equal_d M x x"
  shows "\<exists>a'. Pose_InterpolatedKeyFrame_at M I (kf_times H a ! k) kf H a =
     Some (kf \<lparr> translate := Translation (cell H (frames a ! k)), rotate := Rotation (cell H (frames a ! k)) \<rparr>, a')"
proof -
  let ?b = "BuildInterpolationSplines H a"
  have b: "frames ?b = frames a" "anim_length ?b = anim_length a" by (simp_all add: BuildInterpolationSplines_def)
  then have "kf_wf H ?b" using assms(1) by (simp add: kf_wf_def)
  from KeyFramesAtTime_exact [OF this, unfolded b, OF assms(2-5)] KeyFramesAtTime_exact [OF assms] assms(5)
  show ?thesis
    by (simp add: Pose_InterpolatedKeyFrame_at_def SetRotation_def SetTranslation_def)
qed

text \<open>A concrete instance of the parameters, and an animation built with the operations.\<close>

definition exact_math :: gz_math where
  "exact_math =
     \<lparr> equal_d = (=), Equal_v = (=), eq_v = (=), Normal_v = \<lambda>a b c. a, Normalize_v = id,
       Cross_v = \<lambda>a b. a, Dot_v = \<lambda>a b. 0, plus_v = add3, minus_v = \<lambda>a b. add3 a (scale3 (- 1) b),
       mult_v = \<lambda>a b. a, scale_v = \<lambda>v r. scale3 r v, div_v = \<lambda>v r. scale3 (1 / r) v,
       Zero_v = \<lparr> vX = 0, vY = 0, vZ = 0 \<rparr>, default_v = \<lparr> vX = 0, vY = 0, vZ = 0 \<rparr>, Zero_2 = (0, 0),
       MAX_F = 1000000 \<rparr>"

lemma exact_math_equal [simp]: "equal_d exact_math = (=)"
  by (simp add: exact_math_def)

definition empty_heap :: "NumericKeyFrame frame_heap" where
  "empty_heap = \<lparr> next_addr = 0, cell = \<lambda>p. NumericKeyFrame_new 0 0 \<rparr>"

definition ramp :: "NumericKeyFrame frame_heap \<times> AnimBase" where
  "ramp =
     (let (p, H, a) = Numeric_CreateKeyFrame 0 2 empty_heap (NumericAnimation_new ''ramp'' 3 True);
          H = write_frame p (SetValue 10) H;
          (q, H, a) = Numeric_CreateKeyFrame 0 1 H a
      in (write_frame q (SetValue 4) H, a))"

lemma ramp_frames:
  "frames (snd ramp) = [1, 0]" "anim_length (snd ramp) = 3" "timePos (snd ramp) = 0" "anim_loop (snd ramp)"
  "cell (fst ramp) 0 = \<lparr> kf_time = 2, num_value = 10 \<rparr>" "cell (fst ramp) (Suc 0) = \<lparr> kf_time = 1, num_value = 4 \<rparr>"
  by (simp_all add: ramp_def Numeric_CreateKeyFrame_def CreateKeyFrame_def Let_def NumericKeyFrame_new_def
      empty_heap_def write_frame_def SetValue_def NumericAnimation_new_def Animation_new_def upper_pos_def)

end
