(* ===== verification/Trajectory.thy ===== *)
theory Trajectory
  imports Keyframe_Animation
begin

section \<open>TrajectoryInfo: waypoints and distance\<close>

text \<open>
  \<open>TrajectoryInfo\<close> of \<^verbatim>\<open>graphics/src/Animation.cc\<close>: a trajectory turns timed waypoints into a pose
  animation and adds up the distance on the ground. Times and durations are counts of nanoseconds,
  as integers without a bound: a difference that leaves the 64-bit count of the clock is undefined
  in C++ and not modelled. The map of waypoints is an ordered map.
\<close>

subsection \<open>The trajectory\<close>

record 'q TrajectoryInfo =
  tr_id :: "32 word"
  tr_animIndex :: "32 word"
  tr_startTime :: int
  tr_endTime :: int
  tr_translated :: bool
  tr_waypoints :: "'q PoseAnimation option"
  segDistance :: "(int, real) omap"

definition TrajectoryInfo_new :: "'q TrajectoryInfo" where
  "TrajectoryInfo_new =
     \<lparr> tr_id = 0, tr_animIndex = 0, tr_startTime = 0, tr_endTime = 0, tr_translated = False,
       tr_waypoints = None, segDistance = [] \<rparr>"

definition TrajectoryInfo_Id :: "'q TrajectoryInfo \<Rightarrow> 32 word" where
  "TrajectoryInfo_Id tr = tr_id tr"

definition TrajectoryInfo_SetId :: "32 word \<Rightarrow> 'q TrajectoryInfo \<Rightarrow> 'q TrajectoryInfo" where
  "TrajectoryInfo_SetId i tr = tr \<lparr> tr_id := i \<rparr>"

definition AnimIndex :: "'q TrajectoryInfo \<Rightarrow> 32 word" where
  "AnimIndex tr = tr_animIndex tr"

definition SetAnimIndex :: "32 word \<Rightarrow> 'q TrajectoryInfo \<Rightarrow> 'q TrajectoryInfo" where
  "SetAnimIndex i tr = tr \<lparr> tr_animIndex := i \<rparr>"

definition Duration :: "'q TrajectoryInfo \<Rightarrow> int" where
  "Duration tr = tr_endTime tr - tr_startTime tr"

text \<open>The loop over the segments; \<open>prev\<close> is the key of \<open>prevSegment\<close>.\<close>

fun distance_loop :: "int \<Rightarrow> int \<Rightarrow> (int, real) omap \<Rightarrow> real \<Rightarrow> real" where
  "distance_loop time prev [] distance = distance"
| "distance_loop time prev ((k, d) # segs) distance =
     (if k \<le> time then distance_loop time k segs (distance + d)
      else if time - prev > 0 then distance + of_int (time - prev) / of_int (k - prev) * d
      else distance)"

definition DistanceSoFar :: "int \<Rightarrow> 'q TrajectoryInfo \<Rightarrow> real" where
  "DistanceSoFar time tr =
     distance_loop time (case segDistance tr of [] \<Rightarrow> 0 | (k, d) # segs \<Rightarrow> k) (segDistance tr) 0"

definition StartTime :: "'q TrajectoryInfo \<Rightarrow> int" where
  "StartTime tr = tr_startTime tr"

definition SetStartTime :: "int \<Rightarrow> 'q TrajectoryInfo \<Rightarrow> 'q TrajectoryInfo" where
  "SetStartTime t tr = tr \<lparr> tr_startTime := t \<rparr>"

definition EndTime :: "'q TrajectoryInfo \<Rightarrow> int" where
  "EndTime tr = tr_endTime tr"

definition SetEndTime :: "int \<Rightarrow> 'q TrajectoryInfo \<Rightarrow> 'q TrajectoryInfo" where
  "SetEndTime t tr = tr \<lparr> tr_endTime := t \<rparr>"

definition Translated :: "'q TrajectoryInfo \<Rightarrow> bool" where
  "Translated tr = tr_translated tr"

definition SetTranslated :: "bool \<Rightarrow> 'q TrajectoryInfo \<Rightarrow> 'q TrajectoryInfo" where
  "SetTranslated b tr = tr \<lparr> tr_translated := b \<rparr>"

definition Waypoints :: "'q TrajectoryInfo \<Rightarrow> 'q PoseAnimation option" where
  "Waypoints tr = tr_waypoints tr"

text \<open>A duration as a number of seconds.\<close>

definition seconds :: "int \<Rightarrow> real" where
  "seconds d = of_int d / 1000000000"

definition ground :: "Vector3d \<Rightarrow> Vector2d" where
  "ground v = (vX v, vY v)"

fun waypoints_loop ::
    "'q gz_interp \<Rightarrow> int \<Rightarrow> Vector3d \<Rightarrow> (int, Vector3d \<times> 'q) omap \<Rightarrow>
     'q PoseKeyFrame frame_heap \<times> 'q PoseAnimation \<times> (int, real) omap \<Rightarrow>
     'q PoseKeyFrame frame_heap \<times> 'q PoseAnimation \<times> (int, real) omap" where
  "waypoints_loop I start prev [] st = st"
| "waypoints_loop I start prev ((t, pos, rot) # ws) (H, a, seg) =
     (let (key, H1, a1) = Pose_CreateKeyFrame I (seconds (t - start)) H a;
          seg1 = mput (t - start) (Distance_2 I (ground prev) (ground pos)) seg;
          H2 = write_frame key (SetTranslation pos) H1;
          H3 = write_frame key (SetRotation rot) H2
      in waypoints_loop I start pos ws (H3, a1, seg1))"

definition SetWaypoints ::
    "'q gz_interp \<Rightarrow> (int, Vector3d \<times> 'q) omap \<Rightarrow> real \<Rightarrow> 'q PoseKeyFrame frame_heap \<Rightarrow> 'q TrajectoryInfo \<Rightarrow>
     ('q TrajectoryInfo \<times> 'q PoseKeyFrame frame_heap) option" where
  "SetWaypoints I ws tens H tr =
     (if ws = [] then None
      else let tens = clamp_d I tens 0 1;
               tr = tr \<lparr> segDistance := [] \<rparr>;
               tr = SetEndTime (fst (last ws)) (SetStartTime (fst (hd ws)) tr);
               name = show_int (uint (AnimIndex tr)) @ ''_'' @ show_int (uint (TrajectoryInfo_Id tr));
               anim = PoseAnimation_new I name (seconds (Duration tr)) False tens;
               (H, anim, seg) = waypoints_loop I (StartTime tr) (fst (snd (hd ws))) ws (H, anim, segDistance tr)
           in Some (tr \<lparr> segDistance := seg, tr_waypoints := Some anim, tr_translated := True \<rparr>, H))"

subsection \<open>The distance grows with the time\<close>

lemma distance_loop_shift: "distance_loop time prev segs (x + y) = x + distance_loop time prev segs y"
  by (induction segs arbitrary: prev y) (auto simp: add.assoc)

lemma distance_loop_start:
  assumes "\<forall>(k, d) \<in> set segs. prev < k \<and> 0 \<le> d" and "ordered segs"
  shows "0 \<le> distance_loop time prev segs 0"
proof (cases segs)
  case (Cons kd rest)
  then show ?thesis using assms
  proof (induction rest arbitrary: segs prev kd)
    case Nil then show ?case by (cases kd) (auto intro!: mult_nonneg_nonneg divide_nonneg_nonneg)
  next
    case (Cons kd' rest)
    obtain k d where kd: "kd = (k, d)" by fastforce
    have "0 \<le> distance_loop time k (kd' # rest) 0"
      using Cons.prems by (intro Cons.IH [OF refl]) (auto simp: kd)
    then show ?case
      using Cons.prems distance_loop_shift [of time k "kd' # rest" d 0]
      by (auto simp: kd intro!: mult_nonneg_nonneg divide_nonneg_nonneg)
  qed
qed simp

lemma distance_loop_mono:
  assumes "\<forall>(k, d) \<in> set segs. prev < k \<and> 0 \<le> d" and "ordered segs" and "s \<le> t"
  shows "distance_loop s prev segs 0 \<le> distance_loop t prev segs 0"
  using assms
proof (induction segs arbitrary: prev)
  case (Cons kd segs)
  obtain k d where kd: "kd = (k, d)" by fastforce
  have p: "prev < k" "0 \<le> d" and rest: "\<forall>(j, e) \<in> set segs. k < j \<and> 0 \<le> e" "ordered segs"
    using Cons.prems by (auto simp: kd)
  have shift: "distance_loop x k segs d = d + distance_loop x k segs 0" for x
    using distance_loop_shift [of x k segs d 0] by simp
  show ?case
  proof (cases "k \<le> t")
    case True
    have "of_int (s - prev) / of_int (k - prev) * d \<le> d" if "\<not> k \<le> s"
      using that p mult_right_mono [of "of_int (s - prev) / of_int (k - prev)" 1 d] by (auto simp: divide_le_eq_1)
    then show ?thesis
      using True Cons.IH [OF rest Cons.prems(3)] distance_loop_start [OF rest, of t] p
      by (auto simp: kd shift)
  next
    case False
    then have "\<not> k \<le> s" using Cons.prems(3) by simp
    moreover have "of_int (s - prev) / of_int (k - prev) * d \<le> of_int (t - prev) / of_int (k - prev) * d"
      using Cons.prems(3) p by (intro mult_right_mono divide_right_mono) auto
    moreover have "0 \<le> of_int (t - prev) / of_int (k - prev) * d" if "prev < t"
      using that p by (intro mult_nonneg_nonneg) auto
    ultimately show ?thesis using False Cons.prems(3) by (auto simp: kd)
  qed
qed simp

subsection \<open>What the loop over the waypoints builds\<close>

text \<open>The frames of an animation in order, and the frame of a waypoint.\<close>

abbreviation frame_list :: "'f frame_heap \<Rightarrow> 'z AnimBase_scheme \<Rightarrow> 'f list" where
  "frame_list H a \<equiv> map (cell H) (frames a)"

fun waypoint_frame :: "int \<Rightarrow> int \<times> Vector3d \<times> 'q \<Rightarrow> 'q PoseKeyFrame" where
  "waypoint_frame start (t, pos, rot) = \<lparr> kf_time = seconds (t - start), translate = pos, rotate = rot \<rparr>"

fun segments :: "'q gz_interp \<Rightarrow> int \<Rightarrow> Vector3d \<Rightarrow> (int, Vector3d \<times> 'q) omap \<Rightarrow> (int, real) omap" where
  "segments I start prev [] = []"
| "segments I start prev ((t, pos, rot) # ws) =
     (t - start, Distance_2 I (ground prev) (ground pos)) # segments I start pos ws"

lemma CreateKeyFrame_last:
  assumes "CreateKeyFrame mk time H a = (p, H', a')" and "kf_wf H a"
    and "\<forall>x \<in> set (kf_times H a). x \<le> kf_time (mk time)"
  shows "frames a' = frames a @ [p]" and "frame_list H' a' = frame_list H a @ [mk time]"
proof -
  have "upper_pos (kf_times H a) (kf_time (mk time)) = length (frames a)"
    unfolding upper_pos_def takeWhile_eq_all_conv [THEN iffD2, OF assms(3)] by simp
  then show f: "frames a' = frames a @ [p]" using CreateKeyFrame_frames(4) [OF assms(1)] by simp
  show "frame_list H' a' = frame_list H a @ [mk time]"
    using CreateKeyFrame_wf [OF assms(1,2)] by (simp add: f)
qed

lemma write_last:
  assumes "kf_wf H a" and "frames a = ps @ [p]" and "\<And>k. kf_time (g k) = kf_time k"
  shows "kf_wf (write_frame p g H) a" and "frame_list (write_frame p g H) a = map (cell H) ps @ [g (cell H p)]"
proof -
  have "p \<notin> set ps" using assms(1,2) by (simp add: kf_wf_def)
  moreover have "kf_times (write_frame p g H) a = kf_times H a" and "next_addr (write_frame p g H) = next_addr H"
    using assms(3) by (simp_all add: write_frame_def)
  ultimately show "kf_wf (write_frame p g H) a"
    using assms(1) unfolding kf_wf_def by metis
  show "frame_list (write_frame p g H) a = map (cell H) ps @ [g (cell H p)]"
    using assms(2) \<open>p \<notin> set ps\<close> by (auto simp: write_frame_def)
qed

lemma waypoint_step:
  assumes "Pose_CreateKeyFrame I (seconds (t - start)) H a = (key, H1, a1)" and "kf_wf H a"
    and "\<forall>x \<in> set (kf_times H a). x \<le> seconds (t - start)"
    and "H3 = write_frame key (SetRotation rot) (write_frame key (SetTranslation pos) H1)"
  shows "kf_wf H3 a1" and "frame_list H3 a1 = frame_list H a @ [waypoint_frame start (t, pos, rot)]"
    and "anim_length a1 = anim_length a"
proof -
  let ?mk = "PoseKeyFrame_new I" and ?b = "a \<lparr> build := True \<rparr>"
  have c: "CreateKeyFrame ?mk (seconds (t - start)) H ?b = (key, H1, a1)"
    using assms(1) by (simp add: Pose_CreateKeyFrame_def)
  have wf: "kf_wf H ?b" using assms(2) by (simp add: kf_wf_def)
  have T: "\<And>x. kf_time (SetTranslation pos x) = kf_time x" "\<And>x. kf_time (SetRotation rot x) = kf_time x"
    by (simp_all add: SetTranslation_def SetRotation_def)
  have le: "\<forall>x \<in> set (kf_times H ?b). x \<le> kf_time (?mk (seconds (t - start)))"
    using assms(3) by (simp add: PoseKeyFrame_new_def)
  note last = CreateKeyFrame_last [OF c wf le]
  note w1 = write_last [OF CreateKeyFrame_wf(1) [OF c wf] last(1), of "SetTranslation pos", OF T(1)]
  note w2 = write_last [OF w1(1) last(1), of "SetRotation rot", OF T(2)]
  show "kf_wf H3 a1" unfolding assms(4) by (rule w2(1))
  have "key \<notin> set (frames a)" using CreateKeyFrame_wf(3) [OF c wf] by simp
  then show "frame_list H3 a1 = frame_list H a @ [waypoint_frame start (t, pos, rot)]"
    using CreateKeyFrame_wf(4,5) [OF c wf] unfolding assms(4) w2(2)
    by (simp add: write_frame_def SetTranslation_def SetRotation_def PoseKeyFrame_new_def)
  show "anim_length a1 = anim_length a" using CreateKeyFrame_frames(4) [OF c] by simp
qed

lemma seconds_mono: "s \<le> t \<longleftrightarrow> seconds s \<le> seconds t"
  by (simp add: seconds_def divide_le_cancel)

lemma waypoints_loop_spec:
  assumes "waypoints_loop I start prev ws (H, a, seg) = (H', a', seg')" and "kf_wf H a" and "ordered ws"
    and "\<forall>x \<in> set (kf_times H a). \<forall>w \<in> set ws. x \<le> seconds (fst w - start)"
    and "\<forall>x \<in> set seg. \<forall>w \<in> set ws. fst x < fst w - start"
  shows "kf_wf H' a' \<and> frame_list H' a' = frame_list H a @ map (waypoint_frame start) ws \<and>
    anim_length a' = anim_length a \<and> seg' = seg @ segments I start prev ws"
  using assms
proof (induction ws arbitrary: prev H a seg)
  case (Cons w ws)
  obtain t pos rot where w: "w = (t, pos, rot)" by (cases w)
  obtain key H1 a1 where c: "Pose_CreateKeyFrame I (seconds (t - start)) H a = (key, H1, a1)" by (cases rule: prod_cases3)
  define H3 where "H3 = write_frame key (SetRotation rot) (write_frame key (SetTranslation pos) H1)"
  have le: "\<forall>x \<in> set (kf_times H a). x \<le> seconds (t - start)" using Cons.prems(4) by (simp add: w)
  note st = waypoint_step [OF c Cons.prems(2) le H3_def]
  let ?d = "Distance_2 I (ground prev) (ground pos)"
  have sg: "mput (t - start) ?d seg = seg @ [(t - start, ?d)]"
    using Cons.prems(5) by (intro mput_end) (simp add: w)
  have r: "waypoints_loop I start pos ws (H3, a1, seg @ [(t - start, ?d)]) = (H', a', seg')"
    using Cons.prems(1) by (simp add: w c H3_def sg Let_def)
  have t: "t < fst x" if "x \<in> set ws" for x using Cons.prems(3) that by (auto simp: w)
  have times: "kf_times H3 a1 = kf_times H a @ [seconds (t - start)]"
    using arg_cong [OF st(2), of "map kf_time"] by (simp add: comp_def)
  have h: "\<forall>x \<in> set (kf_times H3 a1). \<forall>w \<in> set ws. x \<le> seconds (fst w - start)"
    unfolding times using Cons.prems(4) by (auto simp flip: seconds_mono dest!: t)
  have g: "\<forall>x \<in> set (seg @ [(t - start, ?d)]). \<forall>w \<in> set ws. fst x < fst w - start"
    using Cons.prems(5) t by auto
  have "ordered ws" using Cons.prems(3) by (simp add: w)
  from Cons.IH [OF r st(1) this h g] show ?case using st(2,3) by (simp add: w)
qed simp

subsection \<open>Waypoints and distances of a trajectory\<close>

lemma SetWaypoints_spec:
  assumes "ordered ws" and "ws \<noteq> []"
  shows "\<exists>tr' H' a. SetWaypoints I ws tens H tr = Some (tr', H') \<and> Waypoints tr' = Some a \<and> kf_wf H' a \<and>
     frame_list H' a = map (waypoint_frame (fst (hd ws))) ws \<and>
     anim_length a = seconds (fst (last ws) - fst (hd ws)) \<and>
     StartTime tr' = fst (hd ws) \<and> EndTime tr' = fst (last ws) \<and> Translated tr' \<and>
     segDistance tr' = segments I (fst (hd ws)) (fst (snd (hd ws))) ws"
proof -
  define name where "name = show_int (uint (AnimIndex tr)) @ ''_'' @ show_int (uint (TrajectoryInfo_Id tr))"
  define a0 where "a0 = PoseAnimation_new I name (seconds (fst (last ws) - fst (hd ws))) False (clamp_d I tens 0 1)"
  have a0: "frames a0 = []" "anim_length a0 = seconds (fst (last ws) - fst (hd ws))"
    by (simp_all add: a0_def PoseAnimation_new_def Animation_new_def AnimBase.extend_def PoseAnimation.fields_def)
  obtain H' a seg where r: "waypoints_loop I (fst (hd ws)) (fst (snd (hd ws))) ws (H, a0, []) = (H', a, seg)"
    by (cases rule: prod_cases3)
  have "kf_wf H a0" "\<forall>x \<in> set (kf_times H a0). \<forall>w \<in> set ws. x \<le> seconds (fst w - fst (hd ws))"
    by (simp_all add: kf_wf_def a0)
  from waypoints_loop_spec [OF r this(1) assms(1) this(2)]
  have "kf_wf H' a \<and> frame_list H' a = map (waypoint_frame (fst (hd ws))) ws \<and>
      anim_length a = seconds (fst (last ws) - fst (hd ws)) \<and>
      seg = segments I (fst (hd ws)) (fst (snd (hd ws))) ws"
    by (simp add: a0)
  then show ?thesis
    using assms(2) r
    by (simp add: SetWaypoints_def Let_def SetStartTime_def SetEndTime_def Duration_def StartTime_def EndTime_def
        AnimIndex_def TrajectoryInfo_Id_def Translated_def Waypoints_def a0_def name_def)
qed

text \<open>A concrete instance: splines that stay at their first point, and a path of three waypoints.\<close>

definition flat_interp :: "unit gz_interp" where
  "flat_interp =
     \<lparr> clamp_d = \<lambda>x lo hi. max lo (min x hi), Spline_at = \<lambda>t ps i u. hd ps, RotationSpline_at = \<lambda>qs i u. (),
       default_q = (), Vector3d_zero = \<lparr> vX = 0, vY = 0, vZ = 0 \<rparr>,
       Distance_2 = \<lambda>(x1, y1) (x2, y2). \<bar>x1 - x2\<bar> + \<bar>y1 - y2\<bar> \<rparr>"

definition three_waypoints :: "(int, Vector3d \<times> unit) omap" where
  "three_waypoints =
     [(5, \<lparr> vX = 0, vY = 0, vZ = 0 \<rparr>, ()), (7, \<lparr> vX = 3, vY = 0, vZ = 1 \<rparr>, ()), (8, \<lparr> vX = 3, vY = 4, vZ = 9 \<rparr>, ())]"

definition pose_heap :: "unit PoseKeyFrame frame_heap" where
  "pose_heap = \<lparr> next_addr = 0, cell = \<lambda>p. PoseKeyFrame_new flat_interp 0 \<rparr>"

lemma three_waypoints_ok: "ordered three_waypoints" "three_waypoints \<noteq> []" "length three_waypoints = 3"
  by (simp_all add: three_waypoints_def)

lemma flat_interp_distance: "\<forall>x y. 0 \<le> Distance_2 flat_interp x y" "\<forall>x. Distance_2 flat_interp x x = 0"
  by (auto simp: flat_interp_def)

text \<open>
  C33. A trajectory passes through its waypoints: after \<open>SetWaypoints\<close> with at least one waypoint,
  interpolating the pose animation at the time of any waypoint gives the pose of that waypoint,
  whatever the splines are; the trajectory starts with the first and ends with the last one.
\<close>

theorem SetWaypoints_hits:
  assumes "ordered ws" and "ws \<noteq> []" and "\<forall>x. equal_d M x x"
  shows "\<exists>tr' H' a. SetWaypoints I ws tens H tr = Some (tr', H') \<and> Waypoints tr' = Some a \<and>
     StartTime tr' = fst (hd ws) \<and> EndTime tr' = fst (last ws) \<and>
     (\<forall>k < length ws. \<exists>f a'. Pose_InterpolatedKeyFrame_at M I (seconds (fst (ws ! k) - StartTime tr')) kf H' a = Some (f, a') \<and>
        Translation f = fst (snd (ws ! k)) \<and> Rotation f = snd (snd (ws ! k)))"
proof -
  let ?s = "fst (hd ws)"
  obtain tr' H' a where sw: "SetWaypoints I ws tens H tr = Some (tr', H')" "Waypoints tr' = Some a"
    and wf: "kf_wf H' a" and fl: "frame_list H' a = map (waypoint_frame ?s) ws"
    and len: "anim_length a = seconds (fst (last ws) - ?s)"
    and se: "StartTime tr' = ?s" "EndTime tr' = fst (last ws)"
    using SetWaypoints_spec [OF assms(1,2), of I tens H tr] by blast
  have n: "length (frames a) = length ws" using arg_cong [OF fl, of length] by simp
  have cellk: "cell H' (frames a ! k) = waypoint_frame ?s (ws ! k)" if "k < length ws" for k
    using arg_cong [OF fl, of "\<lambda>xs. xs ! k"] that n by simp
  have time: "kf_times H' a ! k = seconds (fst (ws ! k) - ?s)" if "k < length ws" for k
    using cellk [OF that] that n by (cases "ws ! k") simp
  have key: "fst (ws ! i) < fst (ws ! j)" if "i < j" "j < length ws" for i j
    using sorted_wrt_nth_less [OF assms(1), of i j] that by simp
  have "\<exists>f a'. Pose_InterpolatedKeyFrame_at M I (seconds (fst (ws ! k) - ?s)) kf H' a = Some (f, a') \<and>
        Translation f = fst (snd (ws ! k)) \<and> Rotation f = snd (snd (ws ! k))" if k: "k < length ws" for k
  proof -
    have "kf_times H' a ! j < kf_times H' a ! k" if "j < k" for j
      unfolding time [OF k] time [OF less_trans [OF that k]] using key [OF that k] by (simp add: seconds_def)
    then have "\<forall>j < k. kf_times H' a ! j < kf_times H' a ! k" by blast
    moreover have "kf_times H' a ! k \<le> anim_length a"
    proof -
      have "fst (ws ! k) \<le> fst (ws ! (length ws - 1))"
      proof (cases "k = length ws - 1")
        case False
        then have "k < length ws - 1" "length ws - 1 < length ws" using k by linarith+
        from key [OF this] show ?thesis by simp
      qed simp
      then show ?thesis
        using assms(2) by (simp add: time [OF k, simplified] time [OF k] len last_conv_nth flip: seconds_mono)
    qed
    ultimately show ?thesis
      using Pose_exact [OF wf _ _ _ assms(3), of k I kf] k n cellk [OF k] time [OF k]
      by (cases "ws ! k") (auto simp: Translation_def Rotation_def)
  qed
  then show ?thesis using sw se by metis
qed

theorem SetWaypoints_hits_witness:
  "\<exists>tr' H' a f a'. SetWaypoints flat_interp three_waypoints 0 pose_heap TrajectoryInfo_new = Some (tr', H') \<and>
     Waypoints tr' = Some a \<and>
     Pose_InterpolatedKeyFrame_at exact_math flat_interp (seconds (7 - StartTime tr')) (PoseKeyFrame_new flat_interp 0) H' a =
       Some (f, a') \<and> Translation f = \<lparr> vX = 3, vY = 0, vZ = 1 \<rparr>"
proof -
  have w: "three_waypoints ! 1 = (7, \<lparr> vX = 3, vY = 0, vZ = 1 \<rparr>, ())" by (simp add: three_waypoints_def)
  have k: "1 < length three_waypoints" by (simp add: three_waypoints_ok)
  have r: "\<forall>x. equal_d exact_math x x" by simp
  from SetWaypoints_hits [OF three_waypoints_ok(1,2) r, of flat_interp 0 pose_heap TrajectoryInfo_new
      "PoseKeyFrame_new flat_interp 0"] k w
  show ?thesis by (metis fst_conv snd_conv)
qed

lemma segments_ordered:
  assumes "ordered ws" and "\<forall>w \<in> set ws. t < fst w" and "\<forall>x y. 0 \<le> Distance_2 I x y"
  shows "ordered (segments I start prev ws) \<and> (\<forall>(k, d) \<in> set (segments I start prev ws). t - start < k \<and> 0 \<le> d)"
  using assms
proof (induction ws arbitrary: t prev)
  case (Cons w ws)
  obtain u pos rot where w: "w = (u, pos, rot)" by (cases w)
  have "\<forall>x \<in> set ws. u < fst x" "ordered ws" using Cons.prems(1) by (auto simp: w)
  from Cons.IH [OF this(2,1) Cons.prems(3), of pos] show ?case
    using Cons.prems by (fastforce simp: w)
qed simp

text \<open>The distance along the ground between consecutive waypoints.\<close>

definition leg :: "'q gz_interp \<Rightarrow> (int, Vector3d \<times> 'q) omap \<Rightarrow> nat \<Rightarrow> real" where
  "leg I ws i = Distance_2 I (ground (fst (snd (ws ! i)))) (ground (fst (snd (ws ! Suc i))))"

lemma distance_at_waypoint:
  assumes "ordered ((t0, p0, r0) # ws)" and "k \<le> length ws"
  shows "distance_loop (fst (((t0, p0, r0) # ws) ! k) - start) (t0 - start) (segments I start p0 ws) 0 =
     (\<Sum>i<k. leg I ((t0, p0, r0) # ws) i)"
  using assms
proof (induction ws arbitrary: t0 p0 r0 k)
  case (Cons w ws)
  obtain u pos rot where w: "w = (u, pos, rot)" by (cases w)
  have tu: "t0 < u" and o: "ordered ((u, pos, rot) # ws)" using Cons.prems(1) by (auto simp: w)
  show ?case
  proof (cases k)
    case 0
    then show ?thesis using tu by (simp add: w)
  next
    case (Suc j)
    have j: "j \<le> length ws" using Cons.prems(2) Suc by simp
    have "u \<le> fst (((u, pos, rot) # ws) ! j)"
      using o j by (cases j) (auto simp: less_imp_le)
    then have "distance_loop (fst ((((t0, p0, r0) # w # ws)) ! k) - start) (t0 - start) (segments I start p0 (w # ws)) 0 =
        leg I ((t0, p0, r0) # w # ws) 0 + distance_loop (fst (((u, pos, rot) # ws) ! j) - start) (u - start) (segments I start pos ws) 0"
      using distance_loop_shift [of "fst (((u, pos, rot) # ws) ! j) - start" "u - start" "segments I start pos ws"
          "Distance_2 I (ground p0) (ground pos)" 0]
      by (simp add: Suc w leg_def)
    also have "\<dots> = leg I ((t0, p0, r0) # w # ws) 0 + (\<Sum>i<j. leg I (w # ws) i)"
      using Cons.IH [OF o j] by (simp add: w)
    also have "\<dots> = (\<Sum>i<Suc j. leg I ((t0, p0, r0) # w # ws) i)"
      unfolding sum.lessThan_Suc_shift by (simp add: leg_def)
    finally show ?thesis by (simp add: Suc)
  qed
qed simp

text \<open>
  C34. The distance travelled never shrinks as time passes, and at the time of every waypoint it is
  the length of the path over the ground up to that waypoint.
\<close>

theorem DistanceSoFar_path:
  assumes "ordered ws" and "ws \<noteq> []" and "\<forall>x y. 0 \<le> Distance_2 I x y" and "\<forall>x. Distance_2 I x x = 0"
    and "SetWaypoints I ws tens H tr = Some (tr', H')"
  shows "(\<forall>s t. s \<le> t \<longrightarrow> DistanceSoFar s tr' \<le> DistanceSoFar t tr') \<and>
     (\<forall>k < length ws. DistanceSoFar (fst (ws ! k) - StartTime tr') tr' = (\<Sum>i<k. leg I ws i))"
proof -
  obtain t0 p0 r0 rest where ws: "ws = (t0, p0, r0) # rest" using assms(2) by (cases ws) auto
  have seg: "segDistance tr' = (0, 0) # segments I t0 p0 rest" and st: "StartTime tr' = t0"
    using SetWaypoints_spec [OF assms(1,2), of I tens H tr] assms(4,5) by (auto simp: ws)
  have o: "ordered rest" "\<forall>w \<in> set rest. t0 < fst w" using assms(1) by (auto simp: ws)
  note so = segments_ordered [OF o assms(3), of t0 p0]
  have D: "DistanceSoFar t tr' = (if 0 \<le> t then distance_loop t 0 (segments I t0 p0 rest) 0 else 0)" for t
    by (simp add: DistanceSoFar_def seg)
  have pos: "\<forall>(k, d) \<in> set (segments I t0 p0 rest). 0 < k \<and> 0 \<le> d" using so by auto
  have "DistanceSoFar s tr' \<le> DistanceSoFar t tr'" if "s \<le> t" for s t
    using distance_loop_mono [OF pos _ that] distance_loop_start [OF pos, of t] so that by (auto simp: D)
  moreover have "DistanceSoFar (fst (ws ! k) - StartTime tr') tr' = (\<Sum>i<k. leg I ws i)" if "k < length ws" for k
  proof -
    have "t0 \<le> fst (ws ! k)" using o(2) that by (cases k) (auto simp: ws less_imp_le)
    then show ?thesis
      using distance_at_waypoint [of t0 p0 r0 rest k t0 I] assms(1) that by (simp add: D st) (simp add: ws)
  qed
  ultimately show ?thesis by blast
qed

theorem DistanceSoFar_path_witness:
  "\<exists>tr' H'. SetWaypoints flat_interp three_waypoints 0 pose_heap TrajectoryInfo_new = Some (tr', H') \<and>
     DistanceSoFar 3 tr' = 7 \<and> DistanceSoFar 2 tr' \<le> DistanceSoFar 3 tr'"
proof -
  obtain tr' H' where t: "SetWaypoints flat_interp three_waypoints 0 pose_heap TrajectoryInfo_new = Some (tr', H')"
    "StartTime tr' = 5"
    using SetWaypoints_spec [OF three_waypoints_ok(1,2), of flat_interp 0 pose_heap TrajectoryInfo_new]
    by (auto simp: three_waypoints_def)
  have "{..<2 :: nat} = {0, 1}" by auto
  then have "(\<Sum>i<2. leg flat_interp three_waypoints i) = 7"
    by (simp add: leg_def three_waypoints_def flat_interp_def ground_def)
  moreover have "DistanceSoFar (fst (three_waypoints ! 2) - StartTime tr') tr' = (\<Sum>i<2. leg flat_interp three_waypoints i)"
    "DistanceSoFar 2 tr' \<le> DistanceSoFar 3 tr'"
    using DistanceSoFar_path [OF three_waypoints_ok(1,2) flat_interp_distance t(1)]
    by (simp_all add: three_waypoints_ok(3))
  ultimately have "DistanceSoFar 3 tr' = 7" by (simp add: three_waypoints_def t(2))
  then show ?thesis using t(1) \<open>DistanceSoFar 2 tr' \<le> DistanceSoFar 3 tr'\<close> by blast
qed

end
