(* ===== verification/Mesh_Shapes.thy ===== *)
theory Mesh_Shapes
  imports Sub_Mesh "HOL-Library.Monad_Syntax"
begin

section \<open>The shapes of MeshManager\<close>

text \<open>
  The loops of \<^verbatim>\<open>graphics/src/MeshManager.cc\<close> that fill a sub-mesh with a sphere, plane, box,
  camera, ellipsoid, capsule, cylinder, cone or tube. An \<open>int\<close> is an integer and a counting loop a
  fold over its range; \<open>unsigned int\<close> indices are 32-bit words. \<open>float\<close> and \<open>double\<close> are real
  numbers; the C functions \<open>sin\<close>, \<open>cos\<close> and their \<open>float\<close> versions and the constant \<open>GZ_PI\<close> are
  the fields of the parameter \<open>C\<close>, the vectors of gz-math those of \<open>M\<close>.
\<close>

record c_math =
  sinf :: "real \<Rightarrow> real"
  cosf :: "real \<Rightarrow> real"
  sin_d :: "real \<Rightarrow> real"
  cos_d :: "real \<Rightarrow> real"
  GZ_PI :: real

abbreviation vec3 :: "real \<Rightarrow> real \<Rightarrow> real \<Rightarrow> Vector3d" where
  "vec3 x y z \<equiv> \<lparr> vX = x, vY = y, vZ = z \<rparr>"

text \<open>A vertex with its normal and texture coordinates, and a run of indices.\<close>

definition add_point :: "Vector3d \<Rightarrow> Vector3d \<Rightarrow> Vector2d \<Rightarrow> SubMesh \<Rightarrow> SubMesh" where
  "add_point v n uv s = AddTexCoord (fst uv) (snd uv) (AddNormal n (AddVertex v s))"

definition add_indices :: "32 word list \<Rightarrow> SubMesh \<Rightarrow> SubMesh" where
  "add_indices is s = fold AddIndex is s"

text \<open>The six indices of the two triangles that join a vertex to the next ring.\<close>

definition strip6 :: "int \<Rightarrow> 32 word \<Rightarrow> 32 word list" where
  "strip6 segments v =
     (let S = word_of_int segments in [v + S + 1, v, v + S, v + S + 1, v + 1, v])"

subsection \<open>Sphere\<close>

definition sphere_vertex :: "c_math \<Rightarrow> real \<Rightarrow> int \<Rightarrow> int \<Rightarrow> int \<Rightarrow> int \<Rightarrow> Vector3d" where
  "sphere_vertex C radius rings segments ring seg =
     (let deltaSegAngle = 2 * GZ_PI C / of_int segments; deltaRingAngle = GZ_PI C / of_int rings;
          r0 = radius * sinf C (of_int ring * deltaRingAngle)
      in vec3 (r0 * sinf C (of_int seg * deltaSegAngle)) (radius * cosf C (of_int ring * deltaRingAngle))
           (r0 * cosf C (of_int seg * deltaSegAngle)))"

definition ring_uv :: "int \<Rightarrow> int \<Rightarrow> int \<Rightarrow> int \<Rightarrow> Vector2d" where
  "ring_uv rings segments ring seg = (of_int seg / of_int segments, of_int ring / of_int rings)"

definition sphere_step :: "c_math \<Rightarrow> gz_math \<Rightarrow> real \<Rightarrow> int \<Rightarrow> int \<Rightarrow> int \<Rightarrow> int \<Rightarrow> SubMesh \<times> 32 word \<Rightarrow> SubMesh \<times> 32 word" where
  "sphere_step C M radius rings segments ring seg st =
     (let (s, verticeIndex) = st;
          vert = sphere_vertex C radius rings segments ring seg;
          s = add_point vert (Normalize_v M vert) (ring_uv rings segments ring seg) s
      in if ring \<noteq> rings then (add_indices (strip6 segments verticeIndex) s, verticeIndex + 1)
         else (s, verticeIndex))"

definition sphere_mesh :: "c_math \<Rightarrow> gz_math \<Rightarrow> real \<Rightarrow> int \<Rightarrow> int \<Rightarrow> SubMesh" where
  "sphere_mesh C M radius rings segments =
     fst (fold (\<lambda>ring. fold (sphere_step C M radius rings segments ring) [0..segments]) [0..rings] (SubMesh_default, 0))"

subsection \<open>Cylinder\<close>

definition circle :: "c_math \<Rightarrow> real \<Rightarrow> real \<Rightarrow> int \<Rightarrow> real \<Rightarrow> Vector3d" where
  "circle C radius delta seg z = vec3 (radius * sinf C (of_int seg * delta)) (radius * cosf C (of_int seg * delta)) z"

definition cylinder_step ::
    "c_math \<Rightarrow> gz_math \<Rightarrow> real \<Rightarrow> real \<Rightarrow> int \<Rightarrow> int \<Rightarrow> int \<Rightarrow> int \<Rightarrow> SubMesh \<times> 32 word \<Rightarrow> SubMesh \<times> 32 word" where
  "cylinder_step C M radius height rings segments ring seg st =
     (let (s, verticeIndex) = st;
          vert = circle C radius (2 * GZ_PI C / of_int segments) seg (of_int ring * height / of_int rings - height / 2);
          s = add_point vert (Normalize_v M (vert \<lparr> vZ := 0 \<rparr>)) (ring_uv rings segments ring seg) s
      in if ring \<noteq> rings then (add_indices (strip6 segments verticeIndex) s, verticeIndex + 1)
         else (s, verticeIndex))"

text \<open>A cap: the ring of its vertices, its middle, and the fan around the middle.\<close>

definition cap :: "c_math \<Rightarrow> real \<Rightarrow> int \<Rightarrow> real \<Rightarrow> real \<Rightarrow> real \<Rightarrow> (32 word \<Rightarrow> int \<Rightarrow> 32 word list) \<Rightarrow> SubMesh \<Rightarrow> SubMesh" where
  "cap C radius segments z nz tv tri s =
     (let s = fold (\<lambda>seg. add_point (circle C radius (2 * GZ_PI C / of_int segments) seg z) (vec3 0 0 nz)
                     (of_int seg / of_int segments, tv)) [0..segments] s;
          s = add_point (vec3 0 0 z) (vec3 0 0 nz) (0, 0) s;
          verticeIndex = VertexCount s - 1
      in fold (\<lambda>seg. add_indices (tri verticeIndex seg)) [0..segments - 1] s)"

definition top_fan :: "int \<Rightarrow> 32 word \<Rightarrow> int \<Rightarrow> 32 word list" where
  "top_fan segments v seg =
     [v, v - word_of_int segments + word_of_int seg, v - word_of_int segments + word_of_int seg - 1]"

definition bottom_fan :: "int \<Rightarrow> 32 word \<Rightarrow> int \<Rightarrow> 32 word list" where
  "bottom_fan segments v seg =
     [v, v - word_of_int segments + word_of_int seg - 1, v - word_of_int segments + word_of_int seg]"

definition cylinder_mesh :: "c_math \<Rightarrow> gz_math \<Rightarrow> real \<Rightarrow> real \<Rightarrow> int \<Rightarrow> int \<Rightarrow> SubMesh" where
  "cylinder_mesh C M radius height rings segments =
     (let s = fst (fold (\<lambda>ring. fold (cylinder_step C M radius height rings segments ring) [0..segments]) [0..rings]
                     (SubMesh_default, 0));
          s = cap C radius segments (height / 2) 1 1 (top_fan segments) s
      in cap C radius segments (- height / 2) (- 1) 0 (bottom_fan segments) s)"

subsection \<open>Cone\<close>

definition cone_step ::
    "c_math \<Rightarrow> gz_math \<Rightarrow> real \<Rightarrow> real \<Rightarrow> int \<Rightarrow> int \<Rightarrow> int \<Rightarrow> int \<Rightarrow> SubMesh \<times> 32 word \<Rightarrow> SubMesh \<times> 32 word" where
  "cone_step C M radius height rings segments ring seg st =
     (let (s, verticeIndex) = st;
          z = of_int ring * height / of_int rings - height / 2;
          ringRadius = (height - (z + height / 2)) / height * radius;
          vert = circle C ringRadius (2 * GZ_PI C / of_int segments) seg z;
          s = add_point vert (Normalize_v M vert) (ring_uv rings segments ring seg) s
      in if ring \<noteq> rings - 1 then (add_indices (strip6 segments verticeIndex) s, verticeIndex + 1)
         else (s, verticeIndex))"

text \<open>One round of the loop that gives the three corners of a face their mean normal.\<close>

definition average_normals :: "gz_math \<Rightarrow> nat \<Rightarrow> SubMesh \<Rightarrow> SubMesh" where
  "average_normals M i s =
     (let corner = (\<lambda>j. word_of_int (Index (word_of_nat (i + j)) s));
          mean = foldl (\<lambda>n j. plus_v M n (Normal M (corner j) s)) (vec3 0 0 0) [0, 1, 2];
          mean = Normalize_v M (div_v M mean 3)
      in fold (\<lambda>j s. SetNormal (word_of_int (Index (word_of_nat (i + j)) s)) mean s) [0, 1, 2] s)"

definition cone_mesh :: "c_math \<Rightarrow> gz_math \<Rightarrow> real \<Rightarrow> real \<Rightarrow> int \<Rightarrow> int \<Rightarrow> SubMesh" where
  "cone_mesh C M radius height rings segs =
     (let segments = (if segs < 3 then 3 else segs);
          (s, verticeIndex) = fold (\<lambda>ring. fold (cone_step C M radius height rings segments ring) [0..segments])
            [0..rings - 1] (SubMesh_default, 0);
          s = add_point (vec3 0 0 (height / 2)) (vec3 0 0 1) (0, 0) s;
          s = add_point (vec3 0 0 (- height / 2)) (vec3 0 0 (- 1)) (0, 0) s;
          verticeIndex = verticeIndex + word_of_int segments + 1;
          s = fold (\<lambda>seg. add_indices (top_fan segments verticeIndex seg)) [0..segments - 1] s;
          verticeIndex = verticeIndex + 1;
          s = fold (\<lambda>seg. add_indices [verticeIndex, word_of_int seg, word_of_int (seg + 1)]) [0..segments - 1] s
      in fold (\<lambda>k. average_normals M (3 * k)) [0..<(length (indices s) - 1) div 3] s)"

subsection \<open>Tube\<close>

text \<open>The triangles that join a vertex of one ring to the next one.\<close>

definition tube_side :: "int \<Rightarrow> int \<Rightarrow> 32 word \<Rightarrow> 32 word list" where
  "tube_side segments seg v =
     (let S = word_of_int segments
      in (if seg \<noteq> 0 then [v + S + 1, v, v + S] else []) @
         (if seg \<noteq> segments then [v + S + 1, v + 1, v] else []))"

definition tube_step ::
    "c_math \<Rightarrow> gz_math \<Rightarrow> real \<Rightarrow> real \<Rightarrow> int \<Rightarrow> int \<Rightarrow> (int \<Rightarrow> real) \<Rightarrow> (int \<Rightarrow> int \<Rightarrow> 32 word \<Rightarrow> 32 word list) \<Rightarrow>
     int \<Rightarrow> int \<Rightarrow> SubMesh \<times> 32 word \<Rightarrow> SubMesh \<times> 32 word" where
  "tube_step C M radius delta rings segments z tris ring seg st =
     (let (s, verticeIndex) = st;
          vert = circle C radius delta seg (z ring);
          s = add_point vert (Normalize_v M vert) (ring_uv rings segments ring seg) s
      in (add_indices (tris ring seg verticeIndex) s, verticeIndex + 1))"

definition outer_tris :: "int \<Rightarrow> int \<Rightarrow> int \<Rightarrow> int \<Rightarrow> 32 word \<Rightarrow> 32 word list" where
  "outer_tris rings segments ring seg v =
     (let S = word_of_int segments; E = word_of_int ((segments + 1) * ((rings + 1) * 2 - 1))
      in (if ring \<noteq> rings then tube_side segments seg v
          else if seg \<noteq> segments then [v, v + S + 1, v + 1, v + 1, v + S + 1, v + S + 2]
          else []) @
         (if ring = 0 \<and> seg < segments then [v + 1, v + E, v, v + E + 1, v + E, v + 1] else []))"

definition inner_tris :: "int \<Rightarrow> int \<Rightarrow> int \<Rightarrow> int \<Rightarrow> 32 word \<Rightarrow> 32 word list" where
  "inner_tris rings segments ring seg v = (if ring \<noteq> rings then tube_side segments seg v else [])"

text \<open>The two ends of a tube that is no full circle.\<close>

definition end_tris :: "int \<Rightarrow> int \<Rightarrow> int \<Rightarrow> 32 word list" where
  "end_tris rings segments ring =
     (let a = (segments + 1) * (ring + 1); b = (segments + 1) * ring;
          c = (segments + 1) * ((rings + 1) * 2 - 2 - ring); d = (segments + 1) * ((rings + 1) * 2 - 1 - ring)
      in map word_of_int
           [a, b, c, c, b, d,
            c + segments, d + segments, a + segments, a + segments, d + segments, b + segments])"

definition tube_mesh :: "c_math \<Rightarrow> gz_math \<Rightarrow> real \<Rightarrow> real \<Rightarrow> real \<Rightarrow> int \<Rightarrow> int \<Rightarrow> real \<Rightarrow> SubMesh" where
  "tube_mesh C M innerRadius outerRadius height rings0 segments0 arc =
     (let rings = max rings0 1; segments = max segments0 3; delta = arc / of_int segments;
          st = fold (\<lambda>ring. fold (tube_step C M outerRadius delta rings segments
                                  (\<lambda>ring. of_int ring * height / of_int rings - height / 2)
                                  (outer_tris rings segments) ring) [0..segments])
                 [0..rings] (SubMesh_default, 0);
          (s, verticeIndex) =
               fold (\<lambda>ring. fold (tube_step C M innerRadius delta rings segments
                                  (\<lambda>ring. height / 2 - of_int ring * height / of_int rings)
                                  (inner_tris rings segments) ring) [0..segments])
                 [0..rings] st
      in if \<not> equal_d M arc (2 * GZ_PI C)
         then fold (\<lambda>ring. add_indices (end_tris rings segments ring)) [0..rings - 1] s
         else s)"

subsection \<open>Box and camera\<close>

definition cube_corners :: "Vector3d list" where
  "cube_corners =
     [vec3 (- 1) (- 1) (- 1), vec3 (- 1) (- 1) 1, vec3 1 (- 1) 1, vec3 1 (- 1) (- 1),
      vec3 (- 1) 1 (- 1), vec3 (- 1) 1 1, vec3 1 1 1, vec3 1 1 (- 1)]"

definition cube_normals :: "Vector3d list" where
  "cube_normals = [vec3 0 (- 1) 0, vec3 0 1 0, vec3 0 0 1, vec3 (- 1) 0 0, vec3 0 0 (- 1), vec3 1 0 0]"

definition cube_faces :: "nat list list" where
  "cube_faces = [[2, 1, 0, 3], [5, 6, 7, 4], [2, 6, 5, 1], [1, 5, 4, 0], [0, 4, 7, 3], [6, 2, 3, 7]]"

definition cube_indices :: "32 word list" where
  "cube_indices =
     [0, 1, 2, 2, 3, 0, 4, 5, 7, 7, 5, 6, 11, 8, 9, 9, 10, 11, 12, 13, 15, 15, 13, 14,
      16, 17, 18, 18, 19, 16, 21, 22, 23, 23, 20, 21]"

definition half_sides :: "Vector3d \<Rightarrow> Vector3d \<Rightarrow> Vector3d" where
  "half_sides sides v = vec3 (vX v * (vX sides * (1 / 2))) (vY v * (vY sides * (1 / 2))) (vZ v * (vZ sides * (1 / 2)))"

definition box_mesh :: "Vector3d \<Rightarrow> Vector2d \<Rightarrow> SubMesh" where
  "box_mesh sides uvCoords =
     (let v = map (half_sides sides) cube_corners;
          t = [(fst uvCoords, 0), (0, 0), (0, snd uvCoords), uvCoords];
          s = fold (\<lambda>(face, n). fold (\<lambda>k. add_point (v ! (face ! k)) n (t ! k)) [0..<4])
                (zip cube_faces cube_normals) SubMesh_default
      in add_indices cube_indices s)"

definition camera_normals :: "Vector3d list" where
  "camera_normals =
     (let a = 577350 / 1000000
      in [vec3 (- a) (- a) (- a), vec3 (- a) (- a) a, vec3 a (- a) a, vec3 a (- a) (- a),
          vec3 (- a) a (- a), vec3 (- a) a a, vec3 a a a, vec3 a a (- a)])"

definition camera_mesh :: "real \<Rightarrow> SubMesh" where
  "camera_mesh scl =
     (let v = map (half_sides (vec3 scl scl scl)) cube_corners;
          s = fold (\<lambda>face. fold (\<lambda>i s. AddNormal (camera_normals ! i) (AddVertex (v ! i) s)) face)
                cube_faces SubMesh_default
      in add_indices cube_indices s)"

subsection \<open>Plane\<close>

text \<open>The matrices of gz-math the plane uses: axes, translation, product and affine transform.\<close>

record 'm gz_affine =
  Perpendicular_v :: "Vector3d \<Rightarrow> Vector3d"
  of_axes :: "Vector3d \<Rightarrow> Vector3d \<Rightarrow> Vector3d \<Rightarrow> 'm"
  of_translation :: "Vector3d \<Rightarrow> 'm"
  mul_a :: "'m \<Rightarrow> 'm \<Rightarrow> 'm"
  TransformAffine :: "'m \<Rightarrow> Vector3d \<Rightarrow> Vector3d option"

definition cell_tris :: "int \<Rightarrow> int \<Rightarrow> int \<Rightarrow> int \<Rightarrow> 32 word list" where
  "cell_tris meshWidth v vInc u =
     map word_of_int
       [(v + vInc) * meshWidth + u, v * meshWidth + u, (v + vInc) * meshWidth + (u + 1),
        (v + vInc) * meshWidth + (u + 1), v * meshWidth + u, v * meshWidth + (u + 1)]"

text \<open>A count that starts below zero runs into a signed overflow, which is undefined.\<close>

definition Tesselate2DMesh :: "int \<Rightarrow> int \<Rightarrow> bool \<Rightarrow> SubMesh \<Rightarrow> SubMesh option" where
  "Tesselate2DMesh meshWidth meshHeight doubleSided sm =
     (let side = (\<lambda>v0 vInc. fold (\<lambda>k. fold (\<lambda>u. add_indices (cell_tris meshWidth (v0 + k * vInc) vInc u))
                               [0..meshWidth - 2]) [0..meshHeight - 2])
      in if meshHeight < 1 \<or> (meshHeight > 1 \<and> meshWidth < 1) then None
         else Some (if doubleSided then side (meshHeight - 1) (- 1) (side 0 1 sm) else side 0 1 sm))"

definition plane_point ::
    "'m gz_affine \<Rightarrow> 'm \<Rightarrow> Vector2d \<Rightarrow> Vector2d \<Rightarrow> Vector2d \<Rightarrow> int \<Rightarrow> int \<Rightarrow> int \<Rightarrow> SubMesh \<Rightarrow> SubMesh" where
  "plane_point A xform sz segments uvTile i y x s =
     (let vec = vec3 (of_int x * (fst sz / fst segments) - fst sz / 2)
                     (of_int y * (snd sz / snd segments) - snd sz / 2) (- (of_int i * (1 / 100)))
      in case TransformAffine A xform vec of
           None \<Rightarrow> s
         | Some pt \<Rightarrow>
             (case TransformAffine A xform (vec3 0 0 1) of
                None \<Rightarrow> AddVertex pt s
              | Some nv \<Rightarrow>
                  add_point pt nv (of_int x * (fst uvTile / fst segments),
                                       1 - of_int y * (snd uvTile / snd segments)) s))"

definition plane_mesh ::
    "gz_math \<Rightarrow> 'm gz_affine \<Rightarrow> Vector3d \<Rightarrow> real \<Rightarrow> Vector2d \<Rightarrow> Vector2d \<Rightarrow> Vector2d \<Rightarrow> SubMesh option" where
  "plane_mesh M A normal d sz segments uvTile =
     (let zAxis = Normalize_v M normal; yAxis = Perpendicular_v A zAxis; xAxis = Cross_v M yAxis zAxis;
          xform = mul_a A (of_translation A (scale_v M normal (- d))) (of_axes A xAxis yAxis zAxis);
          s = fold (\<lambda>i. fold (\<lambda>y. fold (plane_point A xform sz segments uvTile i y) [0..\<lfloor>fst segments\<rfloor>])
                  [0..\<lfloor>snd segments\<rfloor>]) [0, 1] SubMesh_default;
          trunc = (\<lambda>x. if x \<ge> 0 then \<lfloor>x\<rfloor> else \<lceil>x\<rceil>)
      in Tesselate2DMesh (trunc (fst segments + 1)) (trunc (snd segments + 1)) False s)"

subsection \<open>Ellipsoid\<close>

definition ellipsoid_vertex :: "c_math \<Rightarrow> Vector3d \<Rightarrow> real \<Rightarrow> real \<Rightarrow> Vector3d" where
  "ellipsoid_vertex C radii theta phi =
     vec3 (vX radii * cos_d C phi * cos_d C theta) (vY radii * cos_d C phi * sin_d C theta) (vZ radii * sin_d C phi)"

definition ellipsoid_normal :: "c_math \<Rightarrow> gz_math \<Rightarrow> Vector3d \<Rightarrow> real \<Rightarrow> real \<Rightarrow> Vector3d" where
  "ellipsoid_normal C M radii theta phi =
     Cross_v M (vec3 (- (vX radii * cos_d C phi) * sin_d C theta) (vY radii * cos_d C phi * cos_d C theta) 0)
       (vec3 (- vX radii * sin_d C phi * cos_d C theta) (- vY radii * sin_d C phi * sin_d C theta)
          (vZ radii * cos_d C phi))"

text \<open>The loop over \<open>firstIndex\<close>, an \<open>int\<close> compared with \<open>unsigned int\<close> counts.\<close>

function ellipsoid_tris :: "32 word \<Rightarrow> 32 word \<Rightarrow> int \<Rightarrow> 32 word list" where
  "ellipsoid_tris vcount segments firstIndex =
     (if firstIndex < 2 ^ 31 \<and> word_of_int firstIndex + segments + 2 < vcount \<and> firstIndex > 0 then
        (let f = word_of_int firstIndex
         in [f + segments + 1, f + 1, f + 0, f + segments + 2, f + 1, f + segments + 1]) @
        ellipsoid_tris vcount segments (firstIndex + 1)
      else [])"
  by pat_completeness auto
termination by (relation "measure (\<lambda>(c, s, f). nat (2 ^ 31 - f))") auto

definition ellipsoid_step ::
    "c_math \<Rightarrow> gz_math \<Rightarrow> Vector3d \<Rightarrow> 32 word \<Rightarrow> 32 word \<Rightarrow> nat \<Rightarrow> nat \<Rightarrow> SubMesh \<Rightarrow> SubMesh" where
  "ellipsoid_step C M radii rings segments i j s =
     (let theta = 0 + of_nat i * ((2 * GZ_PI C - 0) / (of_nat (unat segments) - 1));
          phi = - GZ_PI C / 2 + of_nat j * ((GZ_PI C / 2 - (- GZ_PI C / 2)) / (of_nat (unat rings) - 1));
          s = AddNormal (ellipsoid_normal C M radii theta phi) (AddVertex (ellipsoid_vertex C radii theta phi) s)
      in if i > 0
         then let verticesCount = VertexCount s
              in add_indices (ellipsoid_tris verticesCount segments (sint (verticesCount - 2 * (segments + 1)))) s
         else s)"

definition ellipsoid_mesh :: "c_math \<Rightarrow> gz_math \<Rightarrow> Vector3d \<Rightarrow> 32 word \<Rightarrow> 32 word \<Rightarrow> SubMesh" where
  "ellipsoid_mesh C M radii rings segments =
     fold (\<lambda>i. fold (ellipsoid_step C M radii rings segments i) [0..<unat segments]) [0..<unat rings] SubMesh_default"

subsection \<open>Capsule\<close>

text \<open>The loop the three parts of a capsule share; the state is the sub-mesh, \<open>prevRow\<close>,
  \<open>thisRow\<close> and \<open>point\<close>.\<close>

definition capsule_point ::
    "(real \<Rightarrow> real \<Rightarrow> Vector3d \<times> Vector3d \<times> real) \<Rightarrow> 32 word \<Rightarrow> 32 word \<Rightarrow> int \<Rightarrow> int \<Rightarrow> nat \<Rightarrow> nat \<Rightarrow>
     SubMesh \<times> int \<Rightarrow> SubMesh \<times> int" where
  "capsule_point at_uv rings segments prevRow thisRow j i st =
     (let (s, point) = st;
          v = of_nat j / of_nat (unat (rings + 1)); u = of_nat i / of_nat (unat segments);
          (pt, nv, tv) = at_uv u v;
          s = AddNormal nv (AddTexCoord u tv (AddVertex pt s));
          t = word_of_int thisRow + word_of_nat i; p = word_of_int prevRow + word_of_nat i
      in (if i > 0 \<and> j > 0 then add_indices [t - 1, p, p - 1, t - 1, t, p] s else s, point + 1))"

definition capsule_row ::
    "(real \<Rightarrow> real \<Rightarrow> Vector3d \<times> Vector3d \<times> real) \<Rightarrow> 32 word \<Rightarrow> 32 word \<Rightarrow> nat \<Rightarrow>
     SubMesh \<times> int \<times> int \<times> int \<Rightarrow> SubMesh \<times> int \<times> int \<times> int" where
  "capsule_row at_uv rings segments j st =
     (let (s, prevRow, thisRow, point) = st;
          (s, point) = fold (capsule_point at_uv rings segments prevRow thisRow j) [0..<unat segments + 1] (s, point)
      in (s, thisRow, point, point))"

definition capsule_part ::
    "(real \<Rightarrow> real \<Rightarrow> Vector3d \<times> Vector3d \<times> real) \<Rightarrow> 32 word \<Rightarrow> 32 word \<Rightarrow> SubMesh \<times> int \<Rightarrow> SubMesh \<times> int" where
  "capsule_part at_uv rings segments st =
     (let (s, point) = st;
          (s, prevRow, thisRow, point) =
            fold (capsule_row at_uv rings segments) [0..<unat (rings + 1) + 1] (s, 0, point, point)
      in (s, point))"

definition capsule_mesh :: "c_math \<Rightarrow> gz_math \<Rightarrow> real \<Rightarrow> real \<Rightarrow> 32 word \<Rightarrow> 32 word \<Rightarrow> SubMesh" where
  "capsule_mesh C M radius len rings segments =
     (let x = (\<lambda>u. - sin_d C (u * (GZ_PI C * 2))); y = (\<lambda>u. cos_d C (u * (GZ_PI C * 2)));
          half = (\<lambda>dz v. \<lambda>u. let w = sin_d C (1 / 2 * GZ_PI C * v); z = radius * cos_d C (1 / 2 * GZ_PI C * v);
                               p = vec3 (x u * radius * w) (y u * radius * w) z
                           in (plus_v M p (vec3 0 0 dz), Normalize_v M p));
          top = (\<lambda>u v. let (pt, nv) = half (1 / 2 * len) v u in (pt, nv, v * (1 / 3)));
          side = (\<lambda>u v. (vec3 (x u * radius) (y u * radius) (len * (1 / 2) - len * v), vec3 (x u) (y u) 0,
                         1 / 3 + v * (1 / 3)));
          bottom = (\<lambda>u v. let (pt, nv) = half (- (1 / 2) * len) (v + 1) u
                          in (pt, nv, 2 / 3 + (v + 1 - 1) * (1 / 3)))
      in fst (capsule_part bottom rings segments (capsule_part side rings segments
            (capsule_part top rings segments (SubMesh_default, 0)))))"

end
