(* ===== verification/Shape_Facts.thy ===== *)
theory Shape_Facts
  imports Mesh_Shapes
begin

section \<open>The generated shapes are well formed\<close>

text \<open>
  Every generated sub-mesh is a triangle mesh whose indices name existing vertices. The sphere, the
  sides of the cylinder and those of the cone run the same grid of rings and segments, stated once
  in the locale \<open>grid\<close>.
\<close>

subsection \<open>Sub-meshes by their contents\<close>

definition shape :: "Vector3d list \<Rightarrow> Vector3d list \<Rightarrow> Vector2d list \<Rightarrow> 32 word list \<Rightarrow> SubMesh" where
  "shape vs ns ts is = SubMesh_default
     \<lparr> vertices := vs, normals := ns, texCoords := (if ts = [] then [] else [(0, ts)]), indices := is \<rparr>"

lemma shape_default: "SubMesh_default = shape [] [] [] []"
  by (simp add: shape_def SubMesh_default_def SubMesh_new_def)

lemma shape_simps [simp]:
  "vertices (shape vs ns ts is) = vs" "normals (shape vs ns ts is) = ns" "indices (shape vs ns ts is) = is"
  "primitiveType (shape vs ns ts is) = TRIANGLES" "mvec (texCoords (shape vs ns ts is)) 0 = ts"
  by (simp_all add: shape_def SubMesh_default_def SubMesh_new_def mvec_def)

lemma add_point_shape [simp]:
  "add_point v n uv (shape vs ns ts is) = shape (vs @ [v]) (ns @ [n]) (ts @ [uv]) is"
  by (simp add: add_point_def shape_def AddTexCoord_def AddTexCoordBySet_def AddNormal_def AddVertex_def firstSet_def
      mpush_def mvec_def SubMesh_default_def SubMesh_new_def)

lemma add_indices_update: "add_indices js s = s \<lparr> indices := indices s @ js \<rparr>"
  unfolding add_indices_def by (induction js arbitrary: s) (simp_all add: AddIndex_def)

lemma add_indices_shape [simp]: "add_indices js (shape vs ns ts is) = shape vs ns ts (is @ js)"
  by (simp add: add_indices_update shape_def)

lemma fold_add_indices_shape [simp]:
  "fold (\<lambda>x. add_indices (g x)) xs (shape vs ns ts is) = shape vs ns ts (is @ concat (map g xs))"
  by (induction xs arbitrary: "is") simp_all

lemma fold_add_point_shape [simp]:
  "fold (\<lambda>x. add_point (p x) (n x) (uv x)) xs (shape vs ns ts is) =
     shape (vs @ map p xs) (ns @ map n xs) (ts @ map uv xs) is"
  by (induction xs arbitrary: vs ns ts) simp_all

text \<open>A triangle mesh with \<open>n\<close> vertices, a normal for each, whose indices are in range.\<close>

definition mesh_ok :: "nat \<Rightarrow> SubMesh \<Rightarrow> bool" where
  "mesh_ok n s \<longleftrightarrow> length (vertices s) = n \<and> length (normals s) = n \<and> HasValidIndices s \<and>
     length (indices s) mod 3 = 0 \<and> primitiveType s = TRIANGLES"

lemma mesh_ok_shape:
  "length vs = n \<Longrightarrow> length ns = n \<Longrightarrow> is \<noteq> [] \<Longrightarrow> \<forall>i \<in> set is. unat i < n \<Longrightarrow> length is mod 3 = 0 \<Longrightarrow>
     mesh_ok n (shape vs ns ts is)"
  by (simp add: mesh_ok_def HasValidIndices_def list_all_iff)

lemma unat_of_nat_le: "unat (word_of_nat n :: 32 word) \<le> n"
  by (simp add: unat_of_nat)

lemma unat_of_nat_less: "n < m \<Longrightarrow> unat (word_of_nat n :: 32 word) < m"
  using unat_of_nat_le le_less_trans by blast

lemma word_of_int_nat: "0 \<le> i \<Longrightarrow> word_of_int i = (word_of_nat (nat i) :: 32 word)"
  by simp

lemma length_concat_const: "(\<And>x. length (f x) = n) \<Longrightarrow> length (concat (map f xs)) = n * length xs"
  by (induction xs) simp_all

subsection \<open>Grids of rings and segments\<close>

lemma strip6_nat:
  assumes "0 \<le> segments"
  shows "strip6 segments (word_of_nat k) =
    map word_of_nat [k + nat segments + 1, k, k + nat segments, k + nat segments + 1, k + 1, k]"
  unfolding strip6_def Let_def word_of_int_nat [OF assms] by (simp add: ac_simps)

lemma fold_product: "fold (\<lambda>x. fold (f x) ys) xs st = fold (\<lambda>(x, y). f x y) (List.product xs ys) st"
  by (induction xs arbitrary: st) (simp_all add: fold_map comp_def)

lemma length_upto_0 [simp]: "length [0..n] = nat (n + 1)"
  by simp

lemma filter_product_last:
  assumes "0 \<le> n"
  shows "length (filter (\<lambda>(r, g). r \<noteq> n) (List.product [0..n] ys)) = nat n * length ys"
proof -
  have u: "[0..n] = [0..n - 1] @ [n]" using assms by (simp add: upto_rec2)
  have "filter (\<lambda>(r, g). r \<noteq> n) (List.product [0..n - 1] ys) = List.product [0..n - 1] ys"
    by (intro filter_True) auto
  moreover have "List.product [0..n] ys = List.product [0..n - 1] ys @ map (Pair n) ys"
    unfolding u by (simp add: product_concat_map)
  ultimately show ?thesis using assms by (simp add: length_product filter_map comp_def)
qed

lemma length_grid_points [simp]: "length (List.product [0..m] [0..n]) = nat (m + 1) * nat (n + 1)"
  by (simp add: length_product)

locale grid =
  fixes step :: "int \<Rightarrow> int \<Rightarrow> SubMesh \<times> 32 word \<Rightarrow> SubMesh \<times> 32 word"
    and point normal :: "int \<Rightarrow> int \<Rightarrow> Vector3d" and uv :: "int \<Rightarrow> int \<Rightarrow> Vector2d"
    and last_ring segments :: int
  assumes step: "step r g (shape vs ns ts is, v) =
      (shape (vs @ [point r g]) (ns @ [normal r g]) (ts @ [uv r g])
         (is @ (if r \<noteq> last_ring then strip6 segments v else [])),
       if r \<noteq> last_ring then v + 1 else v)"
begin

abbreviation grid_points :: "(int \<times> int) list" where
  "grid_points \<equiv> List.product [0..last_ring] [0..segments]"

definition strips :: "nat \<Rightarrow> 32 word list" where
  "strips m = concat (map (\<lambda>k. strip6 segments (word_of_nat k)) [0..<m])"

lemma fold_points:
  "fold (\<lambda>(r, g). step r g) ps (shape vs ns ts (strips k), word_of_nat k) =
     (let m = k + length (filter (\<lambda>(r, g). r \<noteq> last_ring) ps)
      in (shape (vs @ map (\<lambda>(r, g). point r g) ps) (ns @ map (\<lambda>(r, g). normal r g) ps)
            (ts @ map (\<lambda>(r, g). uv r g) ps) (strips m), word_of_nat m))"
proof (induction ps arbitrary: vs ns ts k)
  case (Cons p ps)
  obtain r g where p: "p = (r, g)" by fastforce
  have "step r g (shape vs ns ts (strips k), word_of_nat k) =
      (shape (vs @ [point r g]) (ns @ [normal r g]) (ts @ [uv r g]) (strips (k + (if r \<noteq> last_ring then 1 else 0))),
       word_of_nat (k + (if r \<noteq> last_ring then 1 else 0)))"
    by (simp add: step strips_def add.commute)
  then show ?case
    using Cons.IH [of "vs @ [point r g]" "ns @ [normal r g]" "ts @ [uv r g]" "k + (if r \<noteq> last_ring then 1 else 0)"]
    by (simp add: p Let_def)
qed (simp add: Let_def)

lemma run:
  assumes "0 \<le> last_ring"
  shows "fold (\<lambda>r. fold (step r) [0..segments]) [0..last_ring] (SubMesh_default, 0) =
     (shape (map (\<lambda>(r, g). point r g) grid_points) (map (\<lambda>(r, g). normal r g) grid_points)
        (map (\<lambda>(r, g). uv r g) grid_points) (strips (nat last_ring * nat (segments + 1))),
      word_of_nat (nat last_ring * nat (segments + 1)))"
  unfolding fold_product shape_default
  using fold_points [of grid_points "[]" "[]" "[]" 0] filter_product_last [OF assms, of "[0..segments]"]
  by (simp add: strips_def Let_def)

lemma length_strips: "length (strips m) = 6 * m"
  by (simp add: strips_def strip6_def length_concat comp_def sum_list_triv Let_def)

lemma strips_in_range:
  assumes "i \<in> set (strips m)" and "0 \<le> segments" and "m + nat segments + 1 \<le> n"
  shows "unat i < n"
proof -
  obtain k where k: "k < m" "i \<in> set (strip6 segments (word_of_nat k))" using assms(1) by (auto simp: strips_def)
  then obtain j where "j \<in> set [k + nat segments + 1, k, k + nat segments, k + nat segments + 1, k + 1, k]"
    and "i = word_of_nat j"
    unfolding strip6_nat [OF assms(2)] set_map by blast
  moreover from this(1) have "j < n" using k(1) assms(3) by auto
  ultimately show ?thesis using unat_of_nat_less by blast
qed

lemma strips_size:
  assumes "0 \<le> last_ring" and "0 \<le> segments"
  shows "nat last_ring * nat (segments + 1) + nat segments + 1 = nat (last_ring + 1) * nat (segments + 1)"
proof -
  have "nat (last_ring + 1) = Suc (nat last_ring)" "nat (segments + 1) = Suc (nat segments)" using assms by simp_all
  then show ?thesis by simp
qed

lemma run_strips_in_range:
  assumes "0 \<le> last_ring" and "0 \<le> segments" and "i \<in> set (strips (nat last_ring * nat (segments + 1)))"
  shows "unat i < nat (last_ring + 1) * nat (segments + 1)"
  using strips_in_range [OF assms(3,2)] strips_size [OF assms(1,2)] by simp

lemma run_ok:
  assumes "1 \<le> last_ring" and "1 \<le> segments"
  shows "mesh_ok (nat (last_ring + 1) * nat (segments + 1))
     (fst (fold (\<lambda>r. fold (step r) [0..segments]) [0..last_ring] (SubMesh_default, 0)))"
proof -
  have pos: "0 \<le> last_ring" "0 \<le> segments" using assms by simp_all
  have "strips (nat last_ring * nat (segments + 1)) \<noteq> []"
    using length_strips [of "nat last_ring * nat (segments + 1)"] assms by auto
  moreover have "length (strips (nat last_ring * nat (segments + 1))) mod 3 = 0"
    by (simp add: length_strips mod_eq_0_iff_dvd)
  ultimately show ?thesis
    unfolding run [OF pos(1)] fst_conv using run_strips_in_range [OF pos]
    by (intro mesh_ok_shape) simp_all
qed

end

lemma sphere_step_grid:
  "grid (sphere_step C M radius rings segments) (sphere_vertex C radius rings segments)
     (\<lambda>r g. Normalize_v M (sphere_vertex C radius rings segments r g)) (ring_uv rings segments) rings segments"
  by unfold_locales (simp add: sphere_step_def Let_def)

interpretation sphere: grid "sphere_step C M radius rings segments" "sphere_vertex C radius rings segments"
    "\<lambda>r g. Normalize_v M (sphere_vertex C radius rings segments r g)" "ring_uv rings segments" rings segments
  for C M radius rings segments
  by (rule sphere_step_grid)

text \<open>
  A generated sphere with at least one ring and one segment is a well-formed triangle mesh: one
  normal and one texture coordinate for each of its (rings + 1) (segments + 1) vertices, six indices
  for each vertex but those of the last ring, every index in range, and every vertex at distance
  \<open>radius\<close> from the origin.
\<close>

theorem sphere_mesh_ok:
  assumes "1 \<le> rings" and "1 \<le> segments" and "\<forall>x. (sinf C x)\<^sup>2 + (cosf C x)\<^sup>2 = 1"
  shows "mesh_ok (nat (rings + 1) * nat (segments + 1)) (sphere_mesh C M radius rings segments) \<and>
     length (indices (sphere_mesh C M radius rings segments)) = 6 * (nat rings * nat (segments + 1)) \<and>
     length (mvec (texCoords (sphere_mesh C M radius rings segments)) 0) = nat (rings + 1) * nat (segments + 1) \<and>
     (\<forall>v \<in> set (vertices (sphere_mesh C M radius rings segments)). (vX v)\<^sup>2 + (vY v)\<^sup>2 + (vZ v)\<^sup>2 = radius\<^sup>2)"
proof -
  have r: "0 \<le> rings" using assms(1) by simp
  have sphere: "(vX (sphere_vertex C radius rings segments r g))\<^sup>2 + (vY (sphere_vertex C radius rings segments r g))\<^sup>2 +
      (vZ (sphere_vertex C radius rings segments r g))\<^sup>2 = radius\<^sup>2" for r g
  proof -
    define s1 c1 s2 c2 where "s1 = sinf C (of_int r * (GZ_PI C / of_int rings))"
      "c1 = cosf C (of_int r * (GZ_PI C / of_int rings))"
      "s2 = sinf C (of_int g * (2 * GZ_PI C / of_int segments))" "c2 = cosf C (of_int g * (2 * GZ_PI C / of_int segments))"
    note n = this
    have "s1\<^sup>2 + c1\<^sup>2 = 1" "s2\<^sup>2 + c2\<^sup>2 = 1" using assms(3) by (simp_all add: n)
    then have "(radius * s1 * s2)\<^sup>2 + (radius * c1)\<^sup>2 + (radius * s1 * c2)\<^sup>2 = radius\<^sup>2" by algebra
    then show ?thesis by (simp add: sphere_vertex_def Let_def n)
  qed
  show ?thesis
    using sphere.run_ok [OF assms(1,2), of C M radius] sphere
    unfolding sphere_mesh_def sphere.run [OF r] fst_conv
    by (auto simp: sphere.length_strips)
qed

lemma sphere_mesh_wf:
  assumes "1 \<le> rings" and "1 \<le> segments"
  shows "mesh_ok (nat (rings + 1) * nat (segments + 1)) (sphere_mesh C M radius rings segments)"
  using sphere.run_ok [OF assms, of C M radius] assms(1) unfolding sphere_mesh_def by (simp add: sphere.run)

text \<open>The real functions as a concrete instance of the C library.\<close>

definition real_c :: c_math where
  "real_c = \<lparr> sinf = sin, cosf = cos, sin_d = sin, cos_d = cos, GZ_PI = pi \<rparr>"

subsection \<open>Cylinder and cone\<close>

interpretation cylinder: grid "cylinder_step C M radius height rings segments"
    "\<lambda>r g. circle C radius (2 * GZ_PI C / of_int segments) g (of_int r * height / of_int rings - height / 2)"
    "\<lambda>r g. Normalize_v M (circle C radius (2 * GZ_PI C / of_int segments) g
              (of_int r * height / of_int rings - height / 2) \<lparr> vZ := 0 \<rparr>)"
    "ring_uv rings segments" rings segments
  for C M radius height rings segments
  by unfold_locales (simp add: cylinder_step_def Let_def)

interpretation cone: grid "cone_step C M radius height rings segments"
    "\<lambda>r g. let z = of_int r * height / of_int rings - height / 2
            in circle C ((height - (z + height / 2)) / height * radius) (2 * GZ_PI C / of_int segments) g z"
    "\<lambda>r g. Normalize_v M (let z = of_int r * height / of_int rings - height / 2
            in circle C ((height - (z + height / 2)) / height * radius) (2 * GZ_PI C / of_int segments) g z)"
    "ring_uv rings segments" "rings - 1" segments
  for C M radius height rings segments
  by unfold_locales (simp add: cone_step_def Let_def)

lemma unat_word_of_int_less: "0 \<le> i \<Longrightarrow> nat i < n \<Longrightarrow> unat (word_of_int i :: 32 word) < n"
  using unat_of_nat_less [of "nat i" n] by simp

lemma fan_index:
  "word_of_nat k - word_of_int a + word_of_int b = (word_of_int (int k - a + b) :: 32 word)"
  "word_of_int i - 1 = (word_of_int (i - 1) :: 32 word)"
  by simp_all

text \<open>A fan around the vertex \<open>k\<close>, whose ring lies right before it.\<close>

lemma fan_in_range:
  assumes "1 \<le> segments" and "segments + 1 \<le> int k" and "0 \<le> g" and "g < segments"
    and "i \<in> set (top_fan segments (word_of_nat k) g) \<union> set (bottom_fan segments (word_of_nat k) g)"
  shows "unat i \<le> k"
proof -
  have "i = word_of_nat k \<or> i = word_of_int (int k - segments + g) \<or> i = word_of_int (int k - segments + g - 1)"
    using assms(5) unfolding top_fan_def bottom_fan_def fan_index by (simp only: Un_iff list.set insert_iff empty_iff) blast
  moreover have "unat (word_of_int (int k - segments + g) :: 32 word) < Suc k"
    using assms(1-4) by (intro unat_word_of_int_less) linarith+
  moreover have "unat (word_of_int (int k - segments + g - 1) :: 32 word) < Suc k"
    using assms(1-4) by (intro unat_word_of_int_less) linarith+
  ultimately show ?thesis using unat_of_nat_le [of k] less_Suc_eq_le by metis
qed

lemma cap_shape:
  "cap C radius segments z nz tv tri (shape vs ns ts is) =
     shape (vs @ map (\<lambda>g. circle C radius (2 * GZ_PI C / of_int segments) g z) [0..segments] @ [vec3 0 0 z])
       (ns @ map (\<lambda>g. vec3 0 0 nz) [0..segments] @ [vec3 0 0 nz])
       (ts @ map (\<lambda>g. (of_int g / of_int segments, tv)) [0..segments] @ [(0, 0)])
       (is @ concat (map (tri (word_of_nat (length vs + nat (segments + 1)))) [0..segments - 1]))"
  by (simp add: cap_def Let_def VertexCount_def algebra_simps)

lemma mesh_ok_add_fan:
  assumes "mesh_ok n (shape vs ns ts is)" and "1 \<le> segments"
    and "tri = top_fan segments \<or> tri = bottom_fan segments"
  shows "mesh_ok (n + nat (segments + 1) + 1) (cap C radius segments z nz tv tri (shape vs ns ts is))"
proof -
  have n: "length vs = n" "length ns = n" "is \<noteq> []" "\<forall>i \<in> set is. unat i < n" "length is mod 3 = 0"
    using assms(1) by (auto simp: mesh_ok_def HasValidIndices_def list_all_iff)
  let ?k = "n + nat (segments + 1)"
  have len: "length (concat (map (tri v) gs)) mod 3 = 0" for v gs
    using assms(3) by (auto simp: length_concat_const [where n = 3] top_fan_def bottom_fan_def)
  have rng: "unat i < n + nat (segments + 1) + 1"
    if i: "i \<in> set (is @ concat (map (tri (word_of_nat ?k)) [0..segments - 1]))" for i
  proof (cases "i \<in> set is")
    case False
    then obtain g where "g \<in> set [0..segments - 1]" "i \<in> set (tri (word_of_nat ?k) g)"
      using i unfolding set_append set_concat set_map by blast
    then have "unat i \<le> ?k" using fan_in_range [of segments ?k g i] assms(2,3) by auto
    then show ?thesis by simp
  qed (use n(4) in \<open>auto dest: bspec\<close>)
  note c = cap_shape [of C radius segments z nz tv tri vs ns ts "is", unfolded n(1)]
  show ?thesis unfolding c
  proof (rule mesh_ok_shape)
    show "\<forall>i \<in> set (is @ concat (map (tri (word_of_nat ?k)) [0..segments - 1])). unat i < n + nat (segments + 1) + 1"
      using rng by blast
    show "length (is @ concat (map (tri (word_of_nat ?k)) [0..segments - 1])) mod 3 = 0"
      using n(5) len [of "word_of_nat ?k" "[0..segments - 1]"] by (metis length_append mod_add_eq add_0 mod_0)
  qed (use n in simp_all)
qed

lemma cap_is_shape: "\<exists>vs' ns' ts' is'. cap C radius segments z nz tv tri (shape vs ns ts is) = shape vs' ns' ts' is'"
  unfolding cap_shape by blast

text \<open>
  A generated cylinder with at least one ring and one segment is a well-formed triangle mesh:
  the vertices of the sides and, for each cap, a ring and its middle; the fans of the caps included,
  every index is in range.
\<close>

theorem cylinder_mesh_ok:
  assumes "1 \<le> rings" and "1 \<le> segments"
  shows "mesh_ok (nat (rings + 1) * nat (segments + 1) + (nat (segments + 1) + 1) + (nat (segments + 1) + 1))
     (cylinder_mesh C M radius height rings segments)"
proof -
  have r: "0 \<le> rings" using assms(1) by simp
  obtain vs ns ts "is" where sides: "fst (fold (\<lambda>ring. fold (cylinder_step C M radius height rings segments ring) [0..segments])
      [0..rings] (SubMesh_default, 0)) = shape vs ns ts is"
    unfolding cylinder.run [OF r] fst_conv by blast
  have "mesh_ok (nat (rings + 1) * nat (segments + 1)) (shape vs ns ts is)"
    using cylinder.run_ok [OF assms, of C M radius height] unfolding sides .
  note top = mesh_ok_add_fan [OF this assms(2) disjI1 [OF refl], of C radius "height / 2" 1 1]
  obtain vs' ns' ts' is' where t: "cap C radius segments (height / 2) 1 1 (top_fan segments) (shape vs ns ts is) =
      shape vs' ns' ts' is'" using cap_is_shape by blast
  from mesh_ok_add_fan [OF top [unfolded t] assms(2) disjI2 [OF refl], of C radius "- height / 2" "- 1" 0]
  show ?thesis by (simp add: cylinder_mesh_def sides t Let_def add.assoc)
qed

lemma SetNormal_keeps:
  "vertices (SetNormal i n s) = vertices s" "indices (SetNormal i n s) = indices s"
  "primitiveType (SetNormal i n s) = primitiveType s" "length (normals (SetNormal i n s)) = length (normals s)"
  by (simp_all add: SetNormal_def)

lemma average_normals_keeps:
  "vertices (average_normals M i s) = vertices s" "indices (average_normals M i s) = indices s"
  "primitiveType (average_normals M i s) = primitiveType s"
  "length (normals (average_normals M i s)) = length (normals s)"
  by (simp_all add: average_normals_def Let_def SetNormal_keeps)

lemma average_all_keeps:
  "vertices (fold (\<lambda>k. average_normals M (3 * k)) ks s) = vertices s \<and>
   indices (fold (\<lambda>k. average_normals M (3 * k)) ks s) = indices s \<and>
   primitiveType (fold (\<lambda>k. average_normals M (3 * k)) ks s) = primitiveType s \<and>
   length (normals (fold (\<lambda>k. average_normals M (3 * k)) ks s)) = length (normals s)"
  by (induction ks arbitrary: s) (simp_all add: average_normals_keeps)

lemma mesh_ok_average: "mesh_ok n (fold (\<lambda>k. average_normals M (3 * k)) ks s) = mesh_ok n s"
  using average_all_keeps [of M ks s] by (simp add: mesh_ok_def HasValidIndices_def)

lemma cone_mesh_rings:
  fixes segs :: int
  defines "segments \<equiv> (if segs < 3 then 3 else segs)"
  assumes r: "1 \<le> rings"
  shows "mesh_ok (nat rings * nat (segments + 1) + 2) (cone_mesh C M radius height rings segs)"
proof -
  let ?N = "nat rings * nat (segments + 1)"
  let ?is = "cone.strips segments (nat (rings - 1) * nat (segments + 1))"
  let ?base = "\<lambda>v. concat (map (\<lambda>g. [v, word_of_int g, word_of_int (g + 1)]) [0..segments - 1])"
  define all where "all = ?is @ concat (map (top_fan segments (word_of_nat ?N)) [0..segments - 1]) @ ?base (word_of_nat ?N + 1)"
  have S: "3 \<le> segments" by (simp add: segments_def)
  have N: "nat (rings - 1) * nat (segments + 1) + nat segments + 1 = ?N"
    using cone.strips_size [of rings segments] r S by simp
  have kN: "segments + 1 \<le> int ?N" using N S by linarith
  obtain vs ns ts where run: "fold (\<lambda>ring. fold (cone_step C M radius height rings segments ring) [0..segments])
      [0..rings - 1] (SubMesh_default, 0) = (shape vs ns ts ?is, word_of_nat (nat (rings - 1) * nat (segments + 1)))"
    and l: "length vs = ?N" "length ns = ?N"
    using cone.run [of rings C M radius height segments] r by simp
  have v: "word_of_nat (nat (rings - 1) * nat (segments + 1)) + word_of_int segments + 1 = (word_of_nat ?N :: 32 word)"
    using S by (subst N [symmetric]) (simp del: N)
  have "unat i < ?N + 2" if "i \<in> set all" for i
  proof -
    have "i \<in> set ?is \<or> (\<exists>g \<in> {0..segments - 1}. i \<in> set (top_fan segments (word_of_nat ?N) g)) \<or>
        (\<exists>g \<in> {0..segments - 1}. i \<in> set [word_of_nat ?N + 1, word_of_int g, word_of_int (g + 1)])"
      using that unfolding all_def set_append set_concat set_map set_upto by blast
    then consider "i \<in> set ?is" | g where "0 \<le> g" "g < segments" "i \<in> set (top_fan segments (word_of_nat ?N) g)"
      | g where "0 \<le> g" "g < segments" "i = word_of_nat (?N + 1) \<or> i = word_of_int g \<or> i = word_of_int (g + 1)"
      by fastforce
    then show ?thesis
    proof cases
      case 1
      from cone.run_strips_in_range [OF _ _ this] r S show ?thesis by simp
    next
      case 2
      from fan_in_range [OF _ kN this(1,2)] this(3) S have "unat i \<le> ?N" by simp
      then show ?thesis by simp
    next
      case 3
      have "unat (word_of_int g :: 32 word) < ?N + 2" "unat (word_of_int (g + 1) :: 32 word) < ?N + 2"
        using 3(1,2) kN by (intro unat_word_of_int_less; linarith)+
      then show ?thesis using 3(3) unat_of_nat_less [of "?N + 1" "?N + 2"] by (metis add_less_cancel_left one_less_numeral_iff semiring_norm(76))
    qed
  qed
  moreover have "length all mod 3 = 0"
    by (simp add: all_def cone.length_strips length_concat_const [where n = 3] top_fan_def mod_eq_0_iff_dvd)
  ultimately have ok: "mesh_ok (?N + 2) (shape (vs @ [vec3 0 0 (height / 2)] @ [vec3 0 0 (- height / 2)])
      (ns @ [vec3 0 0 1] @ [vec3 0 0 (- 1)]) (ts @ [(0, 0)] @ [(0, 0)]) all)"
    using l S by (intro mesh_ok_shape) (simp_all add: all_def upto_rec1 top_fan_def)
  define w wN where "w = (word_of_nat (nat (rings - 1) * nat (segments + 1)) :: 32 word)"
    and "wN = (word_of_nat ?N :: 32 word)"
  note w = this
  have tip: "2 + (w + word_of_int segments) = wN + 1" by (simp flip: v [folded w])
  show ?thesis using ok
    unfolding all_def w [symmetric] cone_mesh_def Let_def segments_def [symmetric] run [folded w]
    by (simp add: v [folded w] tip mesh_ok_average)
qed

lemma cone_mesh_no_rings:
  assumes "rings \<le> 0" and "segs < 2 ^ 31"
  shows "\<not> HasValidIndices (cone_mesh C M radius height rings segs)"
proof -
  define segments where "segments = (if segs < 3 then 3 else segs)"
  have S: "3 \<le> segments" by (simp add: segments_def)
  have "\<not> unat (word_of_int segments + 1 :: 32 word) < 2"
  proof -
    have "word_of_int segments + 1 = (word_of_int (segments + 1) :: 32 word)" by simp
    then have "uint (word_of_int segments + 1 :: 32 word) = segments + 1"
      using S assms(2) by (simp only: uint_word_of_int_eq) (simp add: segments_def take_bit_int_eq_self)
    then show ?thesis using S unfolding unat_eq_nat_uint by simp
  qed
  moreover have "[0..segments - 1] = 0 # [1..segments - 1]" using S by (simp add: upto_rec1)
  ultimately show ?thesis
    using assms(1) by (simp add: cone_mesh_def Let_def HasValidIndices_def average_all_keeps shape_default top_fan_def
        flip: segments_def)
qed

text \<open>
  A generated cone with at least one ring is a well-formed triangle mesh: the rings of the side,
  the tip and the middle of the base, with every index of the strips and of both fans in range. With
  no ring at all its indices name vertices that do not exist.
\<close>

theorem cone_mesh_ok:
  "(1 \<le> rings \<longrightarrow> mesh_ok (nat rings * nat ((if segs < 3 then 3 else segs) + 1) + 2) (cone_mesh C M radius height rings segs)) \<and>
   (rings \<le> 0 \<longrightarrow> segs < 2 ^ 31 \<longrightarrow> \<not> HasValidIndices (cone_mesh C M radius height rings segs))"
  using cone_mesh_rings cone_mesh_no_rings by blast

subsection \<open>Tube\<close>

text \<open>What a run of the tube's loop over points appends to the indices.\<close>

definition tris_from :: "(int \<Rightarrow> int \<Rightarrow> 32 word \<Rightarrow> 32 word list) \<Rightarrow> (int \<times> int) list \<Rightarrow> nat \<Rightarrow> 32 word list" where
  "tris_from tris ps k = concat (map (\<lambda>j. tris (fst (ps ! j)) (snd (ps ! j)) (word_of_nat (k + j))) [0..<length ps])"

lemma tris_from_Cons:
  "tris_from tris ((r, g) # ps) k = tris r g (word_of_nat k) @ tris_from tris ps (Suc k)"
  unfolding tris_from_def length_Cons upt_conv_Cons [OF zero_less_Suc]
  by (simp add: map_Suc_upt [symmetric] comp_def add.left_commute add.commute del: upt_Suc)

lemma tube_step_shape:
  "tube_step C M radius delta rings segments z tris r g (shape vs ns ts is, v) =
     (shape (vs @ [circle C radius delta g (z r)]) (ns @ [Normalize_v M (circle C radius delta g (z r))])
        (ts @ [ring_uv rings segments r g]) (is @ tris r g v), v + 1)"
  by (simp add: tube_step_def Let_def)

lemma tube_fold:
  "\<exists>vs' ns' ts'. fold (\<lambda>(r, g). tube_step C M radius delta rings segments z tris r g) ps (shape vs ns ts is, word_of_nat k) =
     (shape (vs @ vs') (ns @ ns') (ts @ ts') (is @ tris_from tris ps k), word_of_nat (k + length ps)) \<and>
     length vs' = length ps \<and> length ns' = length ps"
proof (induction ps arbitrary: vs ns ts "is" k)
  case Nil
  have "tris_from tris [] k = []" by (simp add: tris_from_def)
  then show ?case by (intro exI [of _ "[]"]) simp
next
  case (Cons p ps)
  obtain r g where p: "p = (r, g)" by fastforce
  let ?v = "circle C radius delta g (z r)"
  from Cons.IH [of "vs @ [?v]" "ns @ [Normalize_v M ?v]" "ts @ [ring_uv rings segments r g]"
      "is @ tris r g (word_of_nat k)" "Suc k"]
  obtain vs' ns' ts' where "fold (\<lambda>(r, g). tube_step C M radius delta rings segments z tris r g) ps
        (shape (vs @ [?v]) (ns @ [Normalize_v M ?v]) (ts @ [ring_uv rings segments r g]) (is @ tris r g (word_of_nat k)),
         word_of_nat (Suc k)) =
      (shape ((vs @ [?v]) @ vs') ((ns @ [Normalize_v M ?v]) @ ns') ((ts @ [ring_uv rings segments r g]) @ ts')
        ((is @ tris r g (word_of_nat k)) @ tris_from tris ps (Suc k)), word_of_nat (Suc k + length ps))"
    and "length vs' = length ps" "length ns' = length ps" by blast
  then show ?case
    by - (rule exI [of _ "?v # vs'"], rule exI [of _ "Normalize_v M ?v # ns'"],
        rule exI [of _ "ring_uv rings segments r g # ts'"], simp add: p tube_step_shape tris_from_Cons add.commute)
qed

text \<open>The ring and the segment of a point of the grid by its number.\<close>

lemma grid_point:
  assumes "0 \<le> R" and "0 \<le> S" and "j < nat (R + 1) * nat (S + 1)"
  obtains r g where "List.product [0..R] [0..S] ! j = (r, g)" "0 \<le> r" "r \<le> R" "0 \<le> g" "g \<le> S"
    "int j = (S + 1) * r + g"
proof -
  let ?q = "j div nat (S + 1)" and ?m = "j mod nat (S + 1)"
  have "?m < nat (S + 1)" using assms(2) by simp
  moreover have "?q < nat (R + 1)" using assms(3) by (simp add: less_mult_imp_div_less)
  moreover have "int j = (S + 1) * int ?q + int ?m"
  proof -
    have "int (nat (S + 1) * ?q + ?m) = int j" by simp
    then show ?thesis using assms(2) by (simp only: of_nat_add of_nat_mult) simp
  qed
  moreover from calculation have "int ?m \<le> S" "int ?q \<le> R" by linarith+
  ultimately show ?thesis
    using assms that [of "int ?q" "int ?m"] product_nth [of j "[0..R]" "[0..S]"] by (simp add: nth_upto)
qed

text \<open>The indices at the vertex \<open>k\<close> are a few numbers, all small.\<close>

lemma in_range_wordsI:
  assumes "i \<in> set (map word_of_int xs)" and "\<And>x. x \<in> set xs \<Longrightarrow> 0 \<le> x \<and> x < int n"
  shows "unat (i :: 32 word) < n"
proof -
  obtain x where "x \<in> set xs" "i = word_of_int x" using assms(1) by auto
  then show ?thesis using assms(2) [of x] unat_word_of_int_less [of x n] by (simp add: nat_less_iff)
qed

lemma tube_side_words:
  "tube_side S g (word_of_nat k) = map word_of_int
     ((if g \<noteq> 0 then [int k + S + 1, int k, int k + S] else []) @
      (if g \<noteq> S then [int k + S + 1, int k + 1, int k] else []))"
  by (simp add: tube_side_def Let_def)

lemma outer_tris_words:
  "outer_tris R S r g (word_of_nat k) = map word_of_int
     ((if r \<noteq> R then (if g \<noteq> 0 then [int k + S + 1, int k, int k + S] else []) @
         (if g \<noteq> S then [int k + S + 1, int k + 1, int k] else [])
       else if g \<noteq> S then [int k, int k + S + 1, int k + 1, int k + 1, int k + S + 1, int k + S + 2] else []) @
      (if r = 0 \<and> g < S then
         (let E = (S + 1) * ((R + 1) * 2 - 1)
          in [int k + 1, int k + E, int k, int k + E + 1, int k + E, int k + 1]) else []))"
  by (simp add: outer_tris_def tube_side_words Let_def)

lemma ring_bounds:
  fixes S R r :: int
  assumes "0 \<le> S" and "0 \<le> r" and "r \<le> R"
  shows "0 \<le> (S + 1) * r" and "(S + 1) * r \<le> (S + 1) * R" and "r \<noteq> R \<Longrightarrow> (S + 1) * r + S + 1 \<le> (S + 1) * R"
proof -
  show "0 \<le> (S + 1) * r" "(S + 1) * r \<le> (S + 1) * R" using assms by (simp_all add: mult_left_mono)
  have "(S + 1) * (r + 1) \<le> (S + 1) * R" if "r \<noteq> R" using assms that by (intro mult_left_mono) linarith+
  then show "r \<noteq> R \<Longrightarrow> (S + 1) * r + S + 1 \<le> (S + 1) * R" by (simp add: algebra_simps)
qed

lemma outer_in_range:
  assumes pos: "0 \<le> R" "0 \<le> S" and n: "int n = 2 * ((S + 1) * R + S + 1)"
    and "i \<in> set (tris_from (outer_tris R S) (List.product [0..R] [0..S]) 0)"
  shows "unat i < n"
proof -
  obtain j where j: "j < nat (R + 1) * nat (S + 1)"
    "i \<in> set (outer_tris R S (fst (List.product [0..R] [0..S] ! j)) (snd (List.product [0..R] [0..S] ! j)) (word_of_nat j))"
    using assms(4) unfolding tris_from_def length_grid_points by auto
  obtain r g where p: "List.product [0..R] [0..S] ! j = (r, g)" "0 \<le> r" "r \<le> R" "0 \<le> g" "g \<le> S" "int j = (S + 1) * r + g"
    using grid_point [OF pos j(1)] by blast
  define P Q where "P = (S + 1) * R" and "Q = (S + 1) * r"
  note PQ = this
  have b: "0 \<le> Q" "Q \<le> P" "r \<noteq> R \<Longrightarrow> Q + S + 1 \<le> P" "r = R \<Longrightarrow> Q = P" "r = 0 \<Longrightarrow> Q = 0"
    using ring_bounds [OF pos(2) p(2,3)] by (simp_all add: PQ)
  have k: "int j = Q + g" and n': "int n = 2 * (P + S + 1)" using p(6) n by (simp_all add: PQ)
  have e: "(S + 1) * ((R + 1) * 2 - 1) = 2 * P + S + 1" by (simp add: PQ algebra_simps)
  show ?thesis
    using j(2) unfolding p(1) fst_conv snd_conv outer_tris_words k e Let_def
  proof (rule in_range_wordsI, goal_cases)
    case (1 x)
    then show ?case using b p(2-5) n' pos by (auto split: if_splits)
  qed
qed

lemma inner_in_range:
  assumes pos: "0 \<le> R" "0 \<le> S" and n: "int n = 2 * ((S + 1) * R + S + 1)"
    and "i \<in> set (tris_from (inner_tris R S) (List.product [0..R] [0..S]) (nat (R + 1) * nat (S + 1)))"
  shows "unat i < n"
proof -
  have half: "int (nat (R + 1) * nat (S + 1)) = (S + 1) * R + S + 1" using pos by (simp add: algebra_simps)
  obtain j where j: "j < nat (R + 1) * nat (S + 1)"
    "i \<in> set (inner_tris R S (fst (List.product [0..R] [0..S] ! j)) (snd (List.product [0..R] [0..S] ! j))
       (word_of_nat (nat (R + 1) * nat (S + 1) + j)))"
    using assms(4) unfolding tris_from_def length_grid_points by auto
  obtain r g where p: "List.product [0..R] [0..S] ! j = (r, g)" "0 \<le> r" "r \<le> R" "0 \<le> g" "g \<le> S" "int j = (S + 1) * r + g"
    using grid_point [OF pos j(1)] by blast
  define P Q where "P = (S + 1) * R" and "Q = (S + 1) * r"
  note PQ = this
  have "r \<noteq> R" using j(2) by (auto simp: p(1) inner_tris_def)
  then have b: "0 \<le> Q" "Q + S + 1 \<le> P"
    using ring_bounds [OF pos(2) p(2,3)] by (simp_all add: PQ)
  have n': "int n = 2 * (P + S + 1)" using n by (simp add: PQ)
  have k: "int (nat (R + 1) * nat (S + 1) + j) = P + S + 1 + (Q + g)"
    unfolding of_nat_add half p(6) PQ ..
  have "i \<in> set (tube_side S g (word_of_nat (nat (R + 1) * nat (S + 1) + j)))"
    using j(2) \<open>r \<noteq> R\<close> by (simp add: p(1) inner_tris_def)
  then show ?thesis unfolding tube_side_words k
  proof (rule in_range_wordsI, goal_cases)
    case (1 x)
    then show ?case using b p(2-5) n' pos by (auto split: if_splits)
  qed
qed

lemma ends_in_range:
  assumes S: "0 \<le> S" and n: "int n = 2 * ((S + 1) * R + S + 1)"
    and "r \<in> {0..R - 1}" and i: "i \<in> set (end_tris R S r)"
  shows "unat i < n"
proof -
  define P Q where "P = (S + 1) * R" and "Q = (S + 1) * r"
  note PQ = this
  have b: "0 \<le> Q" "Q + S + 1 \<le> P" using ring_bounds [OF S, of r R] assms(3) by (auto simp: PQ)
  have n': "int n = 2 * (P + S + 1)" using n by (simp add: PQ)
  have e: "(S + 1) * (r + 1) = Q + S + 1" "(S + 1) * r = Q"
    "(S + 1) * ((R + 1) * 2 - 2 - r) = 2 * P - Q"
    "(S + 1) * ((R + 1) * 2 - 1 - r) = 2 * P - Q + S + 1" by (simp_all add: PQ algebra_simps)
  from i show ?thesis unfolding end_tris_def Let_def e
  proof (rule in_range_wordsI, goal_cases)
    case (1 x)
    then show ?case using b n' S by auto
  qed
qed

lemma length_tris_from:
  assumes "\<And>r g v. 3 dvd length (tris r g v)"
  shows "3 dvd length (tris_from tris ps k)"
proof (induction ps arbitrary: k)
  case (Cons p ps)
  then show ?case using assms by (cases p) (simp add: tris_from_Cons)
qed (simp add: tris_from_def)

lemma three_dvd: "3 dvd Suc (Suc (Suc n)) \<longleftrightarrow> 3 dvd n"
  by presburger

lemma tube_tris_3: "3 dvd length (outer_tris R S r g v)" "3 dvd length (inner_tris R S r g v)"
  by (simp_all add: outer_tris_def inner_tris_def tube_side_def Let_def three_dvd)

text \<open>
  A generated tube is a well-formed triangle mesh whatever is asked for: with at least one ring
  and three segments forced, and with or without its ends closed, it has two walls of
  (rings + 1) (segments + 1) vertices and every index of the walls, caps and ends is in range.
\<close>

theorem tube_mesh_ok:
  "mesh_ok (2 * (nat (max rings 1 + 1) * nat (max segments 3 + 1)))
     (tube_mesh C M innerRadius outerRadius height rings segments arc)"
proof -
  define R S where "R = max rings 1" and "S = max segments 3"
  have pos: "1 \<le> R" "3 \<le> S" and le: "0 \<le> R" "0 \<le> S" by (simp_all add: R_def S_def)
  let ?h = "nat (R + 1) * nat (S + 1)" and ?ps = "List.product [0..R] [0..S]"
  let ?walls = "tris_from (outer_tris R S) ?ps 0 @ tris_from (inner_tris R S) ?ps ?h"
  let ?ends = "concat (map (end_tris R S) [0..R - 1])"
  define z1 where "z1 = (\<lambda>ring. of_int ring * height / of_int R - height / 2)"
  define z2 where "z2 = (\<lambda>ring. height / 2 - of_int ring * height / of_int R)"
  obtain vs ns ts where o: "fold (\<lambda>(r, g). tube_step C M outerRadius (arc / of_int S) R S z1 (outer_tris R S) r g) ?ps
      (SubMesh_default, 0) = (shape vs ns ts (tris_from (outer_tris R S) ?ps 0), word_of_nat ?h)"
    and ol: "length vs = ?h" "length ns = ?h"
    using tube_fold [of C M outerRadius "arc / of_int S" R S z1 "outer_tris R S" ?ps "[]" "[]" "[]" "[]" 0]
    by (auto simp: shape_default)
  obtain vs' ns' ts' where i: "fold (\<lambda>(r, g). tube_step C M innerRadius (arc / of_int S) R S z2 (inner_tris R S) r g) ?ps
      (shape vs ns ts (tris_from (outer_tris R S) ?ps 0), word_of_nat ?h) = (shape vs' ns' ts' ?walls, word_of_nat (?h + ?h))"
    and il: "length vs' = 2 * ?h" "length ns' = 2 * ?h"
    using tube_fold [of C M innerRadius "arc / of_int S" R S z2 "inner_tris R S" ?ps vs ns ts
        "tris_from (outer_tris R S) ?ps 0" ?h] ol by auto
  have n: "int (2 * ?h) = 2 * ((S + 1) * R + S + 1)" using le by (simp add: algebra_simps)
  have "unat j < 2 * ?h" if "j \<in> set (?walls @ ?ends)" for j
    using that outer_in_range [OF le n, of j] inner_in_range [OF le n, of j] ends_in_range [OF le(2) n, of _ j] by auto
  moreover have "?walls \<noteq> []"
  proof -
    have "[0..R] = 0 # [1..R]" "[0..S] = 0 # [1..S]" using pos by (simp_all add: upto_rec1)
    then show ?thesis using pos by (simp add: tris_from_Cons outer_tris_def tube_side_def Let_def)
  qed
  moreover have "3 dvd length (tris_from (outer_tris R S) ?ps 0)" "3 dvd length (tris_from (inner_tris R S) ?ps ?h)"
    by (rule length_tris_from, rule tube_tris_3)+
  moreover have "3 dvd length ?ends"
    by (simp add: length_concat_const [where n = 12] end_tris_def Let_def)
  ultimately have "mesh_ok (2 * ?h) (shape vs' ns' ts' ?walls)" "mesh_ok (2 * ?h) (shape vs' ns' ts' (?walls @ ?ends))"
    using il by (auto intro!: mesh_ok_shape simp: mod_eq_0_iff_dvd)
  then show ?thesis
    unfolding tube_mesh_def Let_def fold_product R_def [symmetric] S_def [symmetric]
      z1_def [symmetric] z2_def [symmetric] o i by simp
qed

subsection \<open>Box\<close>

text \<open>The corners of the twelve triangles, by number.\<close>

definition cube_ids :: "nat list" where
  "cube_ids = map (\<lambda>i. concat cube_faces ! unat i) cube_indices"

lemma cube_ids_list:
  "cube_ids = [2, 1, 0, 0, 3, 2, 5, 6, 4, 4, 6, 7, 1, 2, 6, 6, 5, 1, 1, 5, 0, 0, 5, 4, 0, 4, 7, 7, 3, 0, 2, 3, 7, 7, 6, 2]"
  by code_simp

lemma box_mesh_shape:
  "box_mesh sides uvCoords =
     shape (map (\<lambda>c. half_sides sides (cube_corners ! c)) (concat cube_faces)) (concat (map (replicate 4) cube_normals))
       (concat (replicate 6 [(fst uvCoords, 0), (0, 0), (0, snd uvCoords), uvCoords])) cube_indices"
  unfolding box_mesh_def Let_def shape_default
  by (simp add: cube_faces_def cube_normals_def cube_corners_def upt_rec eval_nat_numeral)

lemma box_mesh_corners:
  "corners (box_mesh sides uvCoords) = map (\<lambda>c. half_sides sides (cube_corners ! c)) cube_ids"
proof -
  have "\<forall>i \<in> set cube_indices. unat i < length (concat cube_faces)" by (simp add: cube_indices_def cube_faces_def)
  then show ?thesis by (auto simp: corners_def box_mesh_shape cube_ids_def)
qed

lemma box_mesh_wf: "mesh_ok 24 (box_mesh sides uvCoords)"
  unfolding box_mesh_shape
  by (rule mesh_ok_shape) (simp_all add: cube_faces_def cube_normals_def cube_indices_def)

text \<open>Every edge of the cube is met by its opposite; numbers become points afterwards.\<close>

definition edge_list :: "'a list \<Rightarrow> ('a \<times> 'a) list" where
  "edge_list xs = concat (map (\<lambda>(a, b, c). [(a, b), (b, c), (c, a)]) (triples xs))"

lemma edge_list_map: "edge_list (map f xs) = map (map_prod f f) (edge_list xs)"
  unfolding edge_list_def triples_map by (induction xs rule: triples.induct) auto

lemma closed_by_numbers:
  assumes "corners s = map f ids" and "mset (edge_list ids) = mset (map prod.swap (edge_list ids))"
  shows "closed_mesh s"
proof -
  have "edges s = map (map_prod f f) (edge_list ids)"
    using edge_list_map [of f ids] by (simp add: edges_def edge_list_def assms(1))
  moreover have "map (map_prod f f) (map prod.swap (edge_list ids)) =
      map (\<lambda>(a, b). (b, a)) (map (map_prod f f) (edge_list ids))" by auto
  moreover have "mset (map (map_prod f f) (edge_list ids)) = mset (map (map_prod f f) (map prod.swap (edge_list ids)))"
    using arg_cong [OF assms(2), of "image_mset (map_prod f f)"] by (simp only: mset_map)
  ultimately show ?thesis unfolding closed_mesh_def by metis
qed

lemma cube_edges_closed: "mset (edge_list cube_ids) = mset (map prod.swap (edge_list cube_ids))"
proof -
  let ?es = "edge_list cube_ids"
  have es: "?es = [(2, 1), (1, 0), (0, 2), (0, 3), (3, 2), (2, 0), (5, 6), (6, 4), (4, 5), (4, 6), (6, 7), (7, 4),
      (1, 2), (2, 6), (6, 1), (6, 5), (5, 1), (1, 6), (1, 5), (5, 0), (0, 1), (0, 5), (5, 4), (4, 0),
      (0, 4), (4, 7), (7, 0), (7, 3), (3, 0), (0, 7), (2, 3), (3, 7), (7, 2), (7, 6), (6, 2), (2, 7)]"
    unfolding cube_ids_list edge_list_def by simp
  have "distinct ?es" unfolding es by simp
  moreover have "set ?es = set (map prod.swap ?es)" unfolding es by auto
  moreover have "distinct (map prod.swap ?es)" using \<open>distinct ?es\<close> by (simp add: distinct_map)
  ultimately show ?thesis using set_eq_iff_mset_eq_distinct by blast
qed

text \<open>
  C32. A generated box is a well-formed and closed triangle mesh whose volume is the product of its sides.
\<close>

theorem box_mesh_volume:
  assumes "coordinatewise M"
  shows "mesh_ok 24 (box_mesh sides uvCoords) \<and> closed_mesh (box_mesh sides uvCoords) \<and>
     Volume M (box_mesh sides uvCoords) = Some \<bar>vX sides * vY sides * vZ sides\<bar>"
proof -
  have "HasValidIndices (box_mesh sides uvCoords)" "primitiveType (box_mesh sides uvCoords) = TRIANGLES"
    "length (indices (box_mesh sides uvCoords)) mod 3 = 0"
    using box_mesh_wf [of sides uvCoords] by (simp_all add: mesh_ok_def)
  moreover have "sum_list (map (\<lambda>(a, b, c). tetra M a b c) (triples (corners (box_mesh sides uvCoords)))) =
      vX sides * vY sides * vZ sides"
    unfolding box_mesh_corners cube_ids_list
    by (simp add: cube_corners_def half_sides_def tetra_def coordinatewise_simps [OF assms] eval_nat_numeral field_simps)
  ultimately show ?thesis
    using box_mesh_wf closed_by_numbers [OF box_mesh_corners cube_edges_closed] by (simp add: Volume_sum)
qed

theorem box_mesh_volume_witness:
  "Volume std_math (box_mesh (vec3 2 3 4) (1, 1)) = Some 24"
  using box_mesh_volume [OF coordinatewise_std, of "vec3 2 3 4" "(1, 1)"] by simp

end
