(* ===== verification/Shape_Facts2.thy ===== *)
theory Shape_Facts2
  imports Shape_Facts
begin

section \<open>Planes, capsules and ellipsoids\<close>

text \<open>The shapes with loops of their own: the tessellated plane, the three parts of a capsule and
  the ellipsoid.\<close>

subsection \<open>Capsule\<close>

text \<open>What a loop does to a sub-mesh: \<open>n\<close> new vertices with normals, and \<open>m\<close> new indices that are
  below \<open>b\<close>.\<close>

definition grows :: "nat \<Rightarrow> nat \<Rightarrow> nat \<Rightarrow> SubMesh \<Rightarrow> SubMesh \<Rightarrow> bool" where
  "grows n m b s s' \<longleftrightarrow> length (vertices s') = length (vertices s) + n \<and> length (normals s') = length (normals s) + n \<and>
     primitiveType s' = primitiveType s \<and>
     (\<exists>is'. indices s' = indices s @ is' \<and> length is' = m \<and> (\<forall>i \<in> set is'. unat i < b))"

lemma grows_refl: "grows 0 0 b s s"
  by (simp add: grows_def)

lemma grows_trans: "grows n m b s t \<Longrightarrow> grows n' m' b t u \<Longrightarrow> grows (n + n') (m + m') b s u"
  by (fastforce simp: grows_def)

lemma grows_mono: "grows n m b s s' \<Longrightarrow> b \<le> c \<Longrightarrow> grows n m c s s'"
  unfolding grows_def by (elim conjE exE, intro conjI exI ballI) (auto dest!: bspec intro: less_le_trans)

lemma grows_ok:
  assumes "grows n (6 * m) n SubMesh_default s" and "0 < m"
  shows "mesh_ok n s \<and> length (indices s) = 6 * m"
  using assms unfolding shape_default
  by (auto simp: grows_def mesh_ok_def HasValidIndices_def list_all_iff mod_eq_0_iff_dvd)

lemma grows_add:
  assumes "vertices t = vertices s @ [v]" and "normals t = normals s @ [n]" and "indices t = indices s"
    and "primitiveType t = primitiveType s" and "\<forall>i \<in> set is. unat i < b"
  shows "grows 1 (length is) b s (add_indices is t)"
  using assms by (simp add: grows_def add_indices_update)

lemma capsule_point_grows:
  assumes "0 \<le> prev" and "0 \<le> this" and "prev + int i < int b" and "this + int i < int b"
  shows "\<exists>s'. capsule_point f R S prev this j i (s, point) = (s', point + 1) \<and>
     grows 1 (if 0 < j \<and> 0 < i then 6 else 0) b s s'"
proof -
  obtain pt nv tv where f: "f (of_nat i / of_nat (unat S)) (of_nat j / of_nat (unat (R + 1))) = (pt, nv, tv)"
    by (cases rule: prod_cases3)
  let ?xs = "[this + int i - 1, prev + int i, prev + int i - 1, this + int i - 1, this + int i, prev + int i]"
  define new :: "32 word list" where "new = (if 0 < j \<and> 0 < i then map word_of_int ?xs else [])"
  define t where "t = AddNormal nv (AddTexCoord (of_nat i / of_nat (unat S)) tv (AddVertex pt s))"
  have r: "capsule_point f R S prev this j i (s, point) = (add_indices new t, point + 1)"
    unfolding capsule_point_def Let_def prod.case f t_def new_def by (simp add: add_indices_def)
  have "\<forall>k \<in> set new. unat k < b"
  proof
    fix k assume k: "k \<in> set new"
    then have "0 < j \<and> 0 < i" by (auto simp: new_def split: if_splits)
    with k have "k \<in> set (map word_of_int ?xs)" by (simp only: new_def if_True simp_thms)
    then show "unat k < b"
    proof (rule in_range_wordsI)
      fix x assume "x \<in> set ?xs"
      then show "0 \<le> x \<and> x < int b" using assms \<open>0 < j \<and> 0 < i\<close> by auto
    qed
  qed
  moreover have "vertices t = vertices s @ [pt]" "normals t = normals s @ [nv]" "indices t = indices s"
    "primitiveType t = primitiveType s"
    by (simp_all add: t_def AddNormal_def AddTexCoord_def AddTexCoordBySet_def AddVertex_def)
  ultimately have "grows 1 (length new) b s (add_indices new t)" using grows_add by blast
  moreover have "length new = (if 0 < j \<and> 0 < i then 6 else 0)" by (simp add: new_def)
  ultimately show ?thesis using r by auto
qed

lemma capsule_points_grow:
  assumes "0 \<le> prev" and "0 \<le> this" and "\<forall>i \<in> set is. prev + int i < int b \<and> this + int i < int b"
  shows "\<exists>s'. fold (capsule_point f R S prev this j) is (s, point) = (s', point + int (length is)) \<and>
     grows (length is) (if 0 < j then 6 * length (filter (\<lambda>i. 0 < i) is) else 0) b s s'"
  using assms(3)
proof (induction "is" arbitrary: s point)
  case (Cons i "is")
  obtain t where t: "capsule_point f R S prev this j i (s, point) = (t, point + 1)"
    "grows 1 (if 0 < j \<and> 0 < i then 6 else 0) b s t"
    using capsule_point_grows [OF assms(1,2)] Cons.prems by fastforce
  obtain u where u: "fold (capsule_point f R S prev this j) is (t, point + 1) = (u, point + 1 + int (length is))"
    "grows (length is) (if 0 < j then 6 * length (filter (\<lambda>i. 0 < i) is) else 0) b t u"
    using Cons.IH [of t "point + 1"] Cons.prems by auto
  have "grows (length (i # is)) (if 0 < j then 6 * length (filter (\<lambda>i. 0 < i) (i # is)) else 0) b s u"
    using grows_trans [OF t(2) u(2)] by (cases "0 < j"; cases "0 < i") simp_all
  then show ?case using t(1) u(1) by (auto simp: algebra_simps)
qed (auto intro: grows_refl)

text \<open>A row of \<open>unat S + 1\<close> points; the rows of a part follow each other.\<close>

lemma capsule_row_grows:
  assumes "0 \<le> prev" and "prev \<le> this" and room: "this + int (unat S + 1) \<le> int b"
  shows "\<exists>t. capsule_row f R S j (s, prev, this, this) = (t, this, this + int (unat S + 1), this + int (unat S + 1)) \<and>
     grows (unat S + 1) (if 0 < j then 6 * unat S else 0) b s t"
proof -
  let ?n = "unat S + 1"
  have "prev + int i < int b \<and> this + int i < int b" if "i \<in> set [0..<?n]" for i
  proof -
    have "int i < int ?n" using that by (simp only: set_upt atLeastLessThan_iff of_nat_less_iff)
    then show ?thesis using room assms(2) by linarith
  qed
  then have range: "\<forall>i \<in> set [0..<?n]. prev + int i < int b \<and> this + int i < int b" by blast
  have "[0..<?n] = 0 # [1..<?n]" by (simp add: upt_conv_Cons del: upt_Suc)
  then have count: "length (filter (\<lambda>i. 0 < i) [0..<?n]) = unat S"
    by (simp add: filter_True del: upt_Suc)
  from capsule_points_grow [OF assms(1) _ range, of f R S j s this, unfolded count] assms(1,2)
  obtain t where "fold (capsule_point f R S prev this j) [0..<?n] (s, this) = (t, this + int ?n)"
    "grows ?n (if 0 < j then 6 * unat S else 0) b s t" by auto
  then show ?thesis unfolding capsule_row_def Let_def prod.case by auto
qed

lemma capsule_rows_grow:
  assumes "0 \<le> prev" and "prev \<le> this" and "this + int (length js * (unat S + 1)) \<le> int b"
  shows "\<exists>s' prev' this'. fold (capsule_row f R S) js (s, prev, this, this) = (s', prev', this', this') \<and>
     this' = this + int (length js * (unat S + 1)) \<and>
     grows (length js * (unat S + 1)) (6 * unat S * length (filter (\<lambda>j. 0 < j) js)) b s s'"
  using assms
proof (induction js arbitrary: s prev this)
  case (Cons j js)
  define n where "n = unat S + 1"
  note IH = Cons.IH [folded n_def] and prems = Cons.prems [folded n_def]
  have split: "int (length (j # js) * n) = int n + int (length js * n)" by simp
  then have "this + int n \<le> int b" using prems(3) by linarith
  from capsule_row_grows [where S = S, OF prems(1,2), folded n_def, OF this]
  obtain t where t: "capsule_row f R S j (s, prev, this, this) = (t, this, this + int n, this + int n)"
    "grows n (if 0 < j then 6 * unat S else 0) b s t" by blast
  have "0 \<le> this" "this \<le> this + int n" "this + int n + int (length js * n) \<le> int b"
    using prems split by linarith+
  from IH [OF this, of t]
  obtain u prev' this' where u: "fold (capsule_row f R S) js (t, this, this + int n, this + int n) = (u, prev', this', this')"
    "this' = this + int n + int (length js * n)"
    "grows (length js * n) (6 * unat S * length (filter (\<lambda>j. 0 < j) js)) b t u" by blast
  have "grows (length (j # js) * n) (6 * unat S * length (filter (\<lambda>j. 0 < j) (j # js))) b s u"
    using grows_trans [OF t(2) u(3)] by (cases "0 < j") (simp_all add: add.commute)
  then show ?case unfolding n_def [symmetric] using t(1) u(1,2) split by auto
qed (auto intro: grows_refl)

lemma capsule_part_grows:
  assumes "0 \<le> point" and "n = (unat (R + 1) + 1) * (unat S + 1)" and "point + int n \<le> int b"
  shows "\<exists>s'. capsule_part f R S (s, point) = (s', point + int n) \<and> grows n (6 * unat S * unat (R + 1)) b s s'"
proof -
  let ?js = "[0..<unat (R + 1) + 1]"
  have "?js = 0 # [1..<unat (R + 1) + 1]" by (simp add: upt_conv_Cons del: upt_Suc)
  then have count: "length (filter (\<lambda>j. 0 < j) ?js) = unat (R + 1)" by (simp add: filter_True del: upt_Suc)
  have l: "length ?js * (unat S + 1) = n" by (simp add: assms(2))
  from capsule_rows_grow [of 0 point ?js S b f R s, unfolded l count] assms(1,3)
  obtain s' prev' where "fold (capsule_row f R S) ?js (s, 0, point, point) = (s', prev', point + int n, point + int n)"
    "grows n (6 * unat S * unat (R + 1)) b s s'" by auto
  then show ?thesis unfolding capsule_part_def Let_def prod.case by auto
qed

text \<open>
  A generated capsule with at least one segment is a well-formed triangle mesh: each of its three
  parts has (rings + 2) (segments + 1) vertices and joins its rows with two triangles per segment,
  all indices in range.
\<close>

theorem capsule_mesh_ok:
  assumes "segments \<noteq> 0" and "rings + 1 \<noteq> 0"
  shows "mesh_ok (3 * ((unat (rings + 1) + 1) * (unat segments + 1))) (capsule_mesh C M radius len rings segments) \<and>
     length (indices (capsule_mesh C M radius len rings segments)) = 6 * (3 * (unat segments * unat (rings + 1)))"
proof -
  define n where "n = (unat (rings + 1) + 1) * (unat segments + 1)"
  define m where "m = 6 * unat segments * unat (rings + 1)"
  note part = capsule_part_grows [OF _ n_def, folded m_def]
  obtain f g h where c: "capsule_mesh C M radius len rings segments =
      fst (capsule_part h rings segments (capsule_part g rings segments (capsule_part f rings segments (SubMesh_default, 0))))"
    unfolding capsule_mesh_def Let_def by blast
  obtain s1 where s1: "capsule_part f rings segments (SubMesh_default, 0) = (s1, int n)" "grows n m (3 * n) SubMesh_default s1"
    using part [of 0 "3 * n" f SubMesh_default] by auto
  obtain s2 where s2: "capsule_part g rings segments (s1, int n) = (s2, int n + int n)" "grows n m (3 * n) s1 s2"
    using part [of "int n" "3 * n" g s1] by auto
  obtain s3 where s3: "capsule_part h rings segments (s2, int n + int n) = (s3, int n + int n + int n)" "grows n m (3 * n) s2 s3"
    using part [of "int n + int n" "3 * n" h s2] by auto
  have total: "n + n + n = 3 * n" "m + m + m = 6 * (3 * (unat segments * unat (rings + 1)))" by (simp_all add: m_def)
  have "grows (3 * n) (6 * (3 * (unat segments * unat (rings + 1)))) (3 * n) SubMesh_default s3"
    using grows_trans [OF grows_trans [OF s1(2) s2(2)] s3(2)] unfolding total .
  moreover have "0 < 3 * (unat segments * unat (rings + 1))" using assms by (simp add: unat_gt_0)
  ultimately have "mesh_ok (3 * n) s3 \<and> length (indices s3) = 6 * (3 * (unat segments * unat (rings + 1)))"
    by (rule grows_ok)
  then show ?thesis unfolding c n_def [symmetric] s1(1) s2(1) s3(1) fst_conv .
qed

subsection \<open>Plane\<close>

lemma grows_fold:
  assumes "\<And>x s. x \<in> set xs \<Longrightarrow> grows n m b s (g x s)"
  shows "grows (length xs * n) (length xs * m) b s (fold g xs s)"
  using assms
proof (induction xs arbitrary: s)
  case (Cons x xs)
  have "grows n m b s (g x s)" "grows (length xs * n) (length xs * m) b (g x s) (fold g xs (g x s))"
    using Cons by simp_all
  from grows_trans [OF this] show ?case by simp
qed (simp add: grows_refl)

lemma plane_point_grows:
  assumes "\<forall>v. TransformAffine A xform v \<noteq> None"
  shows "grows 1 0 b s (plane_point A xform sz segments uvTile i y x s)"
proof -
  obtain v n where "TransformAffine A xform (vec3 (of_int x * (fst sz / fst segments) - fst sz / 2)
      (of_int y * (snd sz / snd segments) - snd sz / 2) (- (of_int i * (1 / 100)))) = Some v"
    "TransformAffine A xform (vec3 0 0 1) = Some n" using assms by (metis option.exhaust)
  then show ?thesis
    by (simp add: plane_point_def grows_def add_point_def AddNormal_def AddTexCoord_def AddTexCoordBySet_def AddVertex_def)
qed

lemma cell_tris_grows:
  assumes "0 \<le> v" and "0 \<le> u" and "u + 1 < W" and "(v + 1) * W + u + 1 < int b"
  shows "grows 0 6 b s (add_indices (cell_tris W v 1 u) s)"
proof -
  have "0 \<le> v * W" using assms(1-3) by simp
  moreover have "(v + 1) * W = v * W + W" by (simp add: algebra_simps)
  ultimately have "unat i < b" if "i \<in> set (cell_tris W v 1 u)" for i
    using that unfolding cell_tris_def
    by (elim in_range_wordsI) (use assms in auto)
  then show ?thesis by (simp add: grows_def add_indices_update cell_tris_def)
qed

lemma Tesselate_grows:
  assumes "2 \<le> W" and "1 \<le> H" and "H * W \<le> int b"
  shows "\<exists>s'. Tesselate2DMesh W H False s = Some s' \<and> grows 0 (nat (H - 1) * (nat (W - 1) * 6)) b s s'"
proof -
  let ?row = "\<lambda>v. fold (\<lambda>u. add_indices (cell_tris W v 1 u)) [0..W - 2]"
  have "grows 0 (nat (W - 1) * 6) b s (?row v s)" if "v \<in> set [0..H - 2]" for v s
  proof -
    have "(v + 1) * W \<le> (H - 1) * W" using that assms(1) by (intro mult_right_mono) auto
    moreover have "(H - 1) * W + W \<le> int b" using assms(3) by (simp add: algebra_simps)
    ultimately have row: "(v + 1) * W + W \<le> int b" by linarith
    have "(v + 1) * W + u + 1 < int b" if "u \<in> set [0..W - 2]" for u
    proof -
      have "u \<le> W - 2" using that by simp
      then show ?thesis using row by linarith
    qed
    then have "\<And>u s. u \<in> set [0..W - 2] \<Longrightarrow> grows 0 6 b s (add_indices (cell_tris W v 1 u) s)"
      using that assms(1) by (intro cell_tris_grows) auto
    from grows_fold [OF this, where xs = "[0..W - 2]" and s = s] show ?thesis using assms(1) by simp
  qed
  from grows_fold [OF this, where xs = "[0..H - 2]" and s = s] show ?thesis
    using assms(1,2) by (simp add: Tesselate2DMesh_def)
qed

text \<open>
  A generated plane is a well-formed triangle mesh: two layers of (x + 1) (y + 1) vertices and
  two triangles per cell, with indices into the first layer only, when the affine transforms succeed.
  The second layer, meant to give the plane some thickness, is never used by a triangle.
\<close>

theorem plane_mesh_ok:
  assumes "1 \<le> x" and "1 \<le> y" and "\<forall>t a b c v. TransformAffine A (mul_a A (of_translation A t) (of_axes A a b c)) v \<noteq> None"
  shows "\<exists>s. plane_mesh M A normal d sz (of_int x, of_int y) uvTile = Some s \<and>
     mesh_ok (2 * (nat (y + 1) * nat (x + 1))) s \<and> length (indices s) = 6 * (nat y * nat x) \<and>
     (\<forall>i \<in> set (indices s). unat i < nat (y + 1) * nat (x + 1))"
proof -
  let ?b = "nat (y + 1) * nat (x + 1)"
  define xform where "xform = mul_a A (of_translation A (scale_v M normal (- d)))
    (of_axes A (Cross_v M (Perpendicular_v A (Normalize_v M normal)) (Normalize_v M normal))
      (Perpendicular_v A (Normalize_v M normal)) (Normalize_v M normal))"
  let ?row = "\<lambda>i y'. fold (plane_point A xform sz (of_int x, of_int y) uvTile i y') [0..x]"
  define s0 where "s0 = fold (\<lambda>i. fold (?row i) [0..y]) [0, 1] SubMesh_default"
  have aff: "\<forall>v. TransformAffine A xform v \<noteq> None" using assms(3) unfolding xform_def by blast
  have row: "grows (nat (x + 1)) 0 ?b s (?row i y' s)" for i y' s
    using grows_fold [of "[0..x]" 1 0 ?b "plane_point A xform sz (of_int x, of_int y) uvTile i y'" s] plane_point_grows [OF aff]
    by simp
  have layer: "grows ?b 0 ?b s (fold (?row i) [0..y] s)" for i s
    using grows_fold [of "[0..y]" "nat (x + 1)" 0 ?b "?row i" s] row by simp
  have points: "grows (2 * ?b) 0 ?b SubMesh_default s0"
    using grows_fold [of "[0, 1]" ?b 0 ?b "\<lambda>i. fold (?row i) [0..y]" SubMesh_default] layer by (simp add: s0_def mult_2)
  have "(y + 1) * (x + 1) \<le> int ?b" using assms(1,2) by simp
  with Tesselate_grows [of "x + 1" "y + 1" ?b s0] assms(1,2) obtain s where
    s: "Tesselate2DMesh (x + 1) (y + 1) False s0 = Some s" "grows 0 (nat y * (nat x * 6)) ?b s0 s" by auto
  from grows_trans [OF points s(2)] have g: "grows (2 * ?b) (6 * (nat y * nat x)) ?b SubMesh_default s"
    by (simp add: algebra_simps)
  have t: "(if of_int z + (1 :: real) \<ge> 0 then \<lfloor>of_int z + (1 :: real)\<rfloor> else \<lceil>of_int z + (1 :: real)\<rceil>) = z + 1" for z
    by simp
  have "plane_mesh M A normal d sz (of_int x, of_int y) uvTile = Some s"
    using s(1) by (simp only: plane_mesh_def Let_def xform_def [symmetric] fst_conv snd_conv floor_of_int t s0_def [symmetric])
  moreover have "mesh_ok (2 * ?b) s \<and> length (indices s) = 6 * (nat y * nat x)"
    using assms(1,2) by (intro grows_ok grows_mono [OF g]) simp_all
  moreover have "\<forall>i \<in> set (indices s). unat i < ?b"
    using g by (auto simp: grows_def shape_default)
  ultimately show ?thesis by blast
qed

text \<open>A concrete instance: every transform is the identity.\<close>

definition flat_affine :: "unit gz_affine" where
  "flat_affine = \<lparr> Perpendicular_v = id, of_axes = \<lambda>a b c. (), of_translation = \<lambda>t. (), mul_a = \<lambda>a b. (),
     TransformAffine = \<lambda>m v. Some v \<rparr>"

subsection \<open>Ellipsoid\<close>

declare ellipsoid_tris.simps [simp del]

lemma first_index_words:
  fixes S :: "32 word"
  assumes "0 < f" and "f < 2 ^ 31" and "unat S < 2 ^ 31 - 2"
  shows "unat (word_of_int f + S + 2) = nat f + unat S + 2" and "unat (word_of_int f + S + 1) = nat f + unat S + 1"
    and "unat (word_of_int f + 1 :: 32 word) = nat f + 1" and "unat (word_of_int f :: 32 word) = nat f"
proof -
  have "uint (word_of_int f :: 32 word) = f"
    using assms(1,2) by (simp only: uint_word_of_int_eq) (simp add: take_bit_int_eq_self)
  then have F: "unat (word_of_int f :: 32 word) = nat f" by (simp only: unat_eq_nat_uint)
  then show "unat (word_of_int f :: 32 word) = nat f" .
  have "nat f < 2 ^ 31" using assms(1,2) by simp
  then show "unat (word_of_int f + S + 2) = nat f + unat S + 2" "unat (word_of_int f + S + 1) = nat f + unat S + 1"
    "unat (word_of_int f + 1 :: 32 word) = nat f + 1"
    using assms(3) by (simp_all add: unat_word_ariths F)
qed

lemma ellipsoid_tris_in_range:
  assumes "unat S < 2 ^ 31 - 2"
  shows "(\<forall>i \<in> set (ellipsoid_tris V S f). unat i < unat V) \<and> 3 dvd length (ellipsoid_tris V S f)"
  using assms
proof (induction V S f rule: ellipsoid_tris.induct)
  case (1 V S f)
  show ?case
  proof (cases "f < 2 ^ 31 \<and> word_of_int f + S + 2 < V \<and> f > 0")
    case True
    let ?f = "word_of_int f :: 32 word"
    note w = first_index_words [OF _ _ 1(2), of f]
    have "nat f + unat S + 2 < unat V" using True w(1) by (simp add: word_less_nat_alt)
    then have "\<forall>i \<in> set [?f + S + 1, ?f + 1, ?f + 0, ?f + S + 2, ?f + 1, ?f + S + 1]. unat i < unat V"
      using True w by simp
    moreover have "ellipsoid_tris V S f =
        [?f + S + 1, ?f + 1, ?f + 0, ?f + S + 2, ?f + 1, ?f + S + 1] @ ellipsoid_tris V S (f + 1)"
      using True by (subst ellipsoid_tris.simps) (simp add: Let_def)
    ultimately show ?thesis using 1(1) [OF True 1(2)] by (auto simp: three_dvd)
  next
    case False
    then show ?thesis by (subst (1 2) ellipsoid_tris.simps) auto
  qed
qed

lemma ellipsoid_step_ok:
  assumes "unat segments < 2 ^ 31 - 2" and "length (vertices s) + 1 < 2 ^ 32"
    and "length (normals s) = length (vertices s)" and "valid s" and "3 dvd length (indices s)"
  shows "let t = ellipsoid_step C M radii rings segments i j s
     in length (vertices t) = length (vertices s) + 1 \<and> length (normals t) = length (vertices t) \<and> valid t \<and>
        3 dvd length (indices t) \<and> primitiveType t = primitiveType s"
proof -
  define v n where "v = ellipsoid_vertex C radii (0 + of_nat i * ((2 * GZ_PI C - 0) / (of_nat (unat segments) - 1)))
      (- GZ_PI C / 2 + of_nat j * ((GZ_PI C / 2 - (- GZ_PI C / 2)) / (of_nat (unat rings) - 1)))"
    and "n = ellipsoid_normal C M radii (0 + of_nat i * ((2 * GZ_PI C - 0) / (of_nat (unat segments) - 1)))
      (- GZ_PI C / 2 + of_nat j * ((GZ_PI C / 2 - (- GZ_PI C / 2)) / (of_nat (unat rings) - 1)))"
  note vn = this
  define t where "t = AddNormal n (AddVertex v s)"
  have c: "unat (VertexCount t) = length (vertices t)" "length (vertices t) = length (vertices s) + 1"
    "length (normals t) = length (normals s) + 1" "indices t = indices s" "primitiveType t = primitiveType s"
    using assms(2) by (simp_all add: t_def AddNormal_def AddVertex_def VertexCount_def unat_of_nat
        del: of_nat_Suc of_nat_add)
  have e: "ellipsoid_step C M radii rings segments i j s =
      (if i > 0 then add_indices (ellipsoid_tris (VertexCount t) segments (sint (VertexCount t - 2 * (segments + 1)))) t
       else t)"
    unfolding ellipsoid_step_def Let_def vn t_def ..
  obtain js where js: "ellipsoid_step C M radii rings segments i j s = add_indices js t"
    "\<forall>k \<in> set js. unat k < length (vertices t)" "3 dvd length js"
  proof (cases "i > 0")
    case True
    define js where "js = ellipsoid_tris (VertexCount t) segments (sint (VertexCount t - 2 * (segments + 1)))"
    have "(\<forall>k \<in> set js. unat k < unat (VertexCount t)) \<and> 3 dvd length js"
      unfolding js_def by (rule ellipsoid_tris_in_range [OF assms(1)])
    with True e [folded js_def] show ?thesis by (intro that [of js]) (simp_all add: c(1))
  next
    case False
    with e have "ellipsoid_step C M radii rings segments i j s = t" by (rule trans [OF _ if_not_P])
    then show ?thesis by (intro that [of "[]"]) (simp_all add: add_indices_def)
  qed
  then show ?thesis using assms(3-5) c
    by (auto simp: add_indices_update valid_def Let_def)
qed

lemma ellipsoid_points_ok:
  assumes "unat segments < 2 ^ 31 - 2" and "length (vertices s) + length ps < 2 ^ 32"
    and "length (normals s) = length (vertices s)" and "valid s" and "3 dvd length (indices s)"
  shows "let t = fold (\<lambda>(i, j). ellipsoid_step C M radii rings segments i j) ps s
     in length (vertices t) = length (vertices s) + length ps \<and> length (normals t) = length (vertices t) \<and> valid t \<and>
        3 dvd length (indices t) \<and> primitiveType t = primitiveType s"
  using assms(2-)
proof (induction ps arbitrary: s)
  case (Cons p ps)
  obtain i j where p: "p = (i, j)" by fastforce
  define u where "u = ellipsoid_step C M radii rings segments i j s"
  have "length (vertices s) + 1 < 2 ^ 32" using Cons.prems(1) by simp
  from ellipsoid_step_ok [OF assms(1) this Cons.prems(2-4), of C M radii rings i j, folded u_def]
  have u: "length (vertices u) = length (vertices s) + 1" "length (normals u) = length (vertices u)" "valid u"
    "3 dvd length (indices u)" "primitiveType u = primitiveType s" by (simp_all add: Let_def)
  then show ?case using Cons.IH [of u] Cons.prems(1) by (simp add: p u_def [symmetric] Let_def)
qed simp

text \<open>
  A generated ellipsoid has rings times segments vertices, a normal for each, and every index its
  loop over \<open>firstIndex\<close> computes, an \<open>int\<close> compared with \<open>unsigned\<close> counts, names an existing
  vertex, up to the sizes where the counters wrap.
\<close>

theorem ellipsoid_mesh_ok:
  assumes "unat segments < 2 ^ 31 - 2" and "unat rings * unat segments < 2 ^ 32"
  shows "length (vertices (ellipsoid_mesh C M radii rings segments)) = unat rings * unat segments \<and>
     length (normals (ellipsoid_mesh C M radii rings segments)) = unat rings * unat segments \<and>
     valid (ellipsoid_mesh C M radii rings segments) \<and>
     3 dvd length (indices (ellipsoid_mesh C M radii rings segments))"
proof -
  have e: "ellipsoid_mesh C M radii rings segments = fold (\<lambda>(i, j). ellipsoid_step C M radii rings segments i j)
      (List.product [0..<unat rings] [0..<unat segments]) (shape [] [] [] [])"
    unfolding ellipsoid_mesh_def fold_product shape_default ..
  have "valid (shape [] [] [] [])" by (simp add: valid_def)
  with ellipsoid_points_ok [OF assms(1), of "shape [] [] [] []" "List.product [0..<unat rings] [0..<unat segments]"
      C M radii rings] assms(2)
  have "length (vertices (ellipsoid_mesh C M radii rings segments)) = unat rings * unat segments"
    "length (normals (ellipsoid_mesh C M radii rings segments)) = length (vertices (ellipsoid_mesh C M radii rings segments))"
    "valid (ellipsoid_mesh C M radii rings segments)" "3 dvd length (indices (ellipsoid_mesh C M radii rings segments))"
    by (simp_all add: e [symmetric] Let_def length_product)
  then show ?thesis by simp
qed

end
