(* ===== verification/Polyline_Mesh.thy ===== *)
theory Polyline_Mesh
  imports Shape_Facts
begin

unbundle bit_operations_syntax

section \<open>Extruded polylines\<close>

text \<open>
  \<open>CreateExtrudedPolyline\<close> of \<^verbatim>\<open>graphics/src/MeshManager.cc\<close> and its helpers, and
  \<^verbatim>\<open>graphics/src/DelaunayTriangulation.cc\<close>. The triangulation of the vendored CDT library is the
  parameter \<open>cdt\<close>: from points and edges to points and triangles, or \<^const>\<open>None\<close> when it throws (on points that
  are equal or edges that cross), which no caller catches. \<open>Vector2d\<close> operations of gz-math are the
  fields of a parameter; reading the first point of an empty polyline is undefined, \<^const>\<open>None\<close>.
\<close>

record gz_planar =
  minus_2 :: "Vector2d \<Rightarrow> Vector2d \<Rightarrow> Vector2d"
  eq_2 :: "Vector2d \<Rightarrow> Vector2d \<Rightarrow> bool"

subsection \<open>Distinct points and edges\<close>

definition AddUniquePointToVerticesTable ::
    "gz_planar \<Rightarrow> Vector2d list \<Rightarrow> Vector2d \<Rightarrow> real \<Rightarrow> Vector2d list \<times> nat" where
  "AddUniquePointToVerticesTable P vs p tol =
     (let sqrTol = tol * tol
      in case find_index (\<lambda>w. let v = minus_2 P w p; d = fst v * fst v + snd v * snd v in d < sqrTol) vs of
           Some i \<Rightarrow> (vs, i)
         | None \<Rightarrow> let vs = vs @ [p] in (vs, length vs - 1))"

text \<open>A \<open>size_t\<close> stored in an \<open>int\<close> coordinate.\<close>

definition to_int :: "nat \<Rightarrow> int" where
  "to_int n = sint (word_of_nat n :: 32 word)"

definition convert_point ::
    "gz_planar \<Rightarrow> real \<Rightarrow> Vector2d \<Rightarrow> Vector2d list \<times> (int \<times> int) list \<times> Vector2d \<Rightarrow>
     Vector2d list \<times> (int \<times> int) list \<times> Vector2d" where
  "convert_point P tol p st =
     (let (vs, es, previous) = st;
          (vs, startPointIndex) = AddUniquePointToVerticesTable P vs previous tol;
          (vs, endPointIndex) = AddUniquePointToVerticesTable P vs p tol
      in if startPointIndex = endPointIndex then (vs, es, p)
         else (vs, es @ [(to_int startPointIndex, to_int endPointIndex)], p))"

fun ConvertPolylinesToVerticesAndEdges ::
    "gz_planar \<Rightarrow> Vector2d list list \<Rightarrow> real \<Rightarrow> Vector2d list \<times> (int \<times> int) list \<Rightarrow>
     (Vector2d list \<times> (int \<times> int) list) option" where
  "ConvertPolylinesToVerticesAndEdges P [] tol (vs, es) = Some (vs, es)"
| "ConvertPolylinesToVerticesAndEdges P (poly # polys) tol (vs, es) =
     (case poly of
        [] \<Rightarrow> None
      | first # ps \<Rightarrow>
          let (vs, es, previous) = fold (convert_point P tol) ps (vs, es, first)
          in ConvertPolylinesToVerticesAndEdges P polys tol (vs, es))"

subsection \<open>Triangulation\<close>

type_synonym cdt = "Vector2d list \<Rightarrow> (int \<times> int) list \<Rightarrow> (Vector2d list \<times> (32 word \<times> 32 word \<times> 32 word) list) option"

definition DelaunayTriangulation ::
    "cdt \<Rightarrow> Vector2d list \<Rightarrow> (int \<times> int) list \<Rightarrow> SubMesh option \<Rightarrow> (bool \<times> SubMesh option) option" where
  "DelaunayTriangulation cdt vs es sm =
     (if es = [] \<or> vs = [] then Some (False, sm)
      else case sm of
             None \<Rightarrow> Some (False, None)
           | Some s \<Rightarrow>
               (case cdt vs es of
                  None \<Rightarrow> None
                | Some (points, tris) \<Rightarrow>
                    let s = fold (\<lambda>v. AddVertex (vec3 (fst v) (snd v) 0)) points s
                    in Some (True, Some (fold (\<lambda>(a, b, c). add_indices [c, b, a]) tris s))))"

subsection \<open>Extrusion\<close>

definition close_loop :: "real \<Rightarrow> Vector2d list \<Rightarrow> Vector2d list option" where
  "close_loop tol poly =
     (case poly of
        [] \<Rightarrow> None
      | first # _ \<Rightarrow>
          let lst = last poly;
              d = (fst first - fst lst) * (fst first - fst lst);
              d = d + (snd first - snd lst) * (snd first - snd lst)
          in Some (if d > tol * tol then poly @ [first] else poly))"

definition xy :: "Vector3d \<Rightarrow> Vector2d" where
  "xy v = (vX v, vY v)"

definition opposite :: "Vector3d \<Rightarrow> Vector3d" where
  "opposite v = vec3 (- vX v) (- vY v) (- vZ v)"

text \<open>The outer normal a triangle gives to an edge, if the triangle has that edge.\<close>

definition edge_normal ::
    "gz_math \<Rightarrow> gz_planar \<Rightarrow> Vector2d \<Rightarrow> Vector2d \<Rightarrow> Vector3d list \<Rightarrow> Vector3d list" where
  "edge_normal M P edgeV0 edgeV1 triangle =
     (case find_index (\<lambda>t. eq_2 P (xy t) edgeV0) triangle of
        None \<Rightarrow> []
      | Some ev0 \<Rightarrow>
          (case find_index (\<lambda>k. eq_2 P (xy (triangle ! ((ev0 + k + 1) mod length triangle))) edgeV1)
                  [0..<length triangle - 1] of
             None \<Rightarrow> []
           | Some k \<Rightarrow>
               let ev1 = (ev0 + k + 1) mod length triangle;
                   ev2 = nat (NOT (int ev1 OR int ev0) AND 3)
               in if ev0 \<noteq> ev1 \<and> ev0 \<noteq> ev2
                  then let edgeVec = Normalize_v M (minus_v M (triangle ! ev0) (triangle ! ev1));
                           nv = vec3 (vY edgeVec) (- vX edgeVec) 0;
                           otherEdgeVec = Normalize_v M (minus_v M (triangle ! ev0) (triangle ! ev2));
                           angle0 = Dot_v M otherEdgeVec nv;
                           angle1 = Dot_v M otherEdgeVec (opposite nv)
                       in if angle0 > angle1 then (if angle0 \<ge> 0 then [nv] else [])
                          else (if angle1 \<ge> 0 then [opposite nv] else [])
                  else []))"

text \<open>\<open>subMesh.Vertex(subMesh.Index(j))\<close>.\<close>

definition corner_at :: "gz_math \<Rightarrow> SubMesh \<Rightarrow> nat \<Rightarrow> Vector3d" where
  "corner_at M s j = Vertex M (word_of_int (Index (word_of_nat j) s)) s"

definition edge_normals ::
    "gz_math \<Rightarrow> gz_planar \<Rightarrow> SubMesh \<Rightarrow> Vector2d list \<Rightarrow> (int \<times> int) list \<Rightarrow> Vector3d list" where
  "edge_normals M P s vs es =
     concat (map (\<lambda>(i0, i1).
       concat (map (\<lambda>k. edge_normal M P (vs ! nat i0) (vs ! nat i1)
                      [corner_at M s (3 * k), corner_at M s (3 * k + 1), corner_at M s (3 * k + 2)])
                [0..<(unat (IndexCount s) + 2) div 3])) es)"

definition top_face :: "gz_math \<Rightarrow> real \<Rightarrow> SubMesh \<Rightarrow> SubMesh" where
  "top_face M height s =
     (let numVertices = VertexCount s;
          s = fold (\<lambda>i. AddNormal (opposite (vec3 0 0 1))) [0..<unat numVertices] s;
          s = fold (\<lambda>i s. let v = Vertex M (word_of_nat i) s
                          in AddNormal (vec3 0 0 1) (AddVertex (vec3 (vX v) (vY v) height) s))
                [0..<unat numVertices] s;
          numIndices = IndexCount s
      in fold (\<lambda>k s. let i0 = word_of_int (Index (word_of_nat (3 * k)) s);
                         i1 = word_of_int (Index (word_of_nat (3 * k + 1)) s);
                         i2 = word_of_int (Index (word_of_nat (3 * k + 2)) s)
                     in add_indices [numVertices + i0, numVertices + i2, numVertices + i1] s)
           [0..<(unat numIndices + 2) div 3] s)"

definition side_corners :: "real \<Rightarrow> Vector2d \<Rightarrow> Vector2d \<Rightarrow> bool \<Rightarrow> Vector3d list" where
  "side_corners height v0 v1 left =
     (if left
      then [vec3 (fst v0) (snd v0) 0, vec3 (fst v0) (snd v0) height, vec3 (fst v1) (snd v1) height,
            vec3 (fst v0) (snd v0) 0, vec3 (fst v1) (snd v1) height, vec3 (fst v1) (snd v1) 0]
      else [vec3 (fst v0) (snd v0) 0, vec3 (fst v1) (snd v1) height, vec3 (fst v0) (snd v0) height,
            vec3 (fst v0) (snd v0) 0, vec3 (fst v1) (snd v1) 0, vec3 (fst v1) (snd v1) height])"

definition side_face ::
    "gz_math \<Rightarrow> gz_planar \<Rightarrow> real \<Rightarrow> Vector2d list \<Rightarrow> (int \<times> int) \<times> Vector3d \<Rightarrow> SubMesh \<Rightarrow> SubMesh" where
  "side_face M P height vs en s =
     (let ((i0, i1), nv) = en; v0 = vs ! nat i0; v1 = vs ! nat i1;
          edge2d = minus_2 P v1 v0;
          cross = Cross_v M (vec3 (fst edge2d) (snd edge2d) 0) nv;
          vCount = VertexCount s;
          s = fold AddVertex (side_corners height v0 v1 (vZ cross > 0)) s
      in fold (\<lambda>j s. AddNormal nv (AddIndex (vCount + word_of_nat j) s)) [0..<6] s)"

text \<open>The mesh of \<open>CreateExtrudedPolyline\<close>: the inner \<^const>\<open>None\<close> is a triangulation that is
  refused, the outer one an exception or an undefined read.\<close>

definition extruded_mesh ::
    "gz_math \<Rightarrow> gz_planar \<Rightarrow> cdt \<Rightarrow> Vector2d list list \<Rightarrow> real \<Rightarrow> SubMesh option option" where
  "extruded_mesh M P cdt polys height =
     (case ConvertPolylinesToVerticesAndEdges P polys (1 / 10 ^ 4) ([], []) of
        None \<Rightarrow> None
      | Some (vs, es) \<Rightarrow>
          (case DelaunayTriangulation cdt vs es (Some SubMesh_default) of
             None \<Rightarrow> None
           | Some (True, Some s) \<Rightarrow>
               let normals = edge_normals M P s vs es
               in if length normals \<noteq> length es then Some None
                  else Some (Some (fold (side_face M P height vs) (zip es normals) (top_face M height s)))
           | Some _ \<Rightarrow> Some None))"

end
