(* ===== verification/Mesh_Manager.thy ===== *)
theory Mesh_Manager
  imports Mesh_Model Shape_Facts2 Polyline_Mesh Text_Util "HOL-Library.AList"
begin

section \<open>MeshManager: the registry of meshes\<close>

text \<open>
  Class \<open>MeshManager\<close> of \<^verbatim>\<open>graphics/src/MeshManager.cc\<close>. Meshes are shared by pointer: they live
  in a heap, addresses count up, and deleting an address that holds no mesh is undefined,
  \<^const>\<open>None\<close>. The unordered map of meshes is an association list with distinct keys; its order
  is never observed. The file search \<open>common::findFile\<close>, the loaders and the environment are
  parameters. The mutex only makes \<open>Load\<close>, \<open>RemoveMesh\<close> and \<open>RemoveAll\<close> atomic.
\<close>

record mesh_loaders =
  stlLoader :: "string \<Rightarrow> Mesh option"
  colladaLoader :: "string \<Rightarrow> Mesh option"
  objLoader :: "string \<Rightarrow> Mesh option"
  assimpLoader :: "string \<Rightarrow> Mesh option"

record MeshManager =
  meshes :: "(string \<times> nat) list"
  mesh_heap :: "nat \<Rightarrow> Mesh option"
  next_mesh :: nat
  fileExtensions :: "string list"
  forceAssimp :: bool

definition HasMesh :: "string \<Rightarrow> MeshManager \<Rightarrow> bool" where
  "HasMesh n mm \<longleftrightarrow> n \<noteq> [] \<and> map_of (meshes mm) n \<noteq> None"

definition MeshByName :: "string \<Rightarrow> MeshManager \<Rightarrow> nat option" where
  "MeshByName n mm = map_of (meshes mm) n"

text \<open>\<open>new Mesh\<close>; \<open>meshes.insert\<close>, which keeps an entry that is there; \<open>meshes[name] = p\<close>.\<close>

definition new_mesh :: "Mesh \<Rightarrow> MeshManager \<Rightarrow> nat \<times> MeshManager" where
  "new_mesh m mm =
     (next_mesh mm, mm \<lparr> mesh_heap := (mesh_heap mm)(next_mesh mm \<mapsto> m), next_mesh := next_mesh mm + 1 \<rparr>)"

definition insert_mesh :: "string \<Rightarrow> nat \<Rightarrow> MeshManager \<Rightarrow> MeshManager" where
  "insert_mesh n p mm =
     (if map_of (meshes mm) n = None then mm \<lparr> meshes := (n, p) # meshes mm \<rparr> else mm)"

definition set_mesh :: "string \<Rightarrow> nat \<Rightarrow> MeshManager \<Rightarrow> MeshManager" where
  "set_mesh n p mm = mm \<lparr> meshes := AList.update n p (meshes mm) \<rparr>"

definition delete_mesh :: "nat \<Rightarrow> MeshManager \<Rightarrow> MeshManager option" where
  "delete_mesh p mm =
     (case mesh_heap mm p of None \<Rightarrow> None | Some m \<Rightarrow> Some (mm \<lparr> mesh_heap := (mesh_heap mm)(p := None) \<rparr>))"

fun delete_meshes :: "nat list \<Rightarrow> MeshManager \<Rightarrow> MeshManager option" where
  "delete_meshes [] mm = Some mm"
| "delete_meshes (p # ps) mm = do { mm1 \<leftarrow> delete_mesh p mm; delete_meshes ps mm1 }"

subsection \<open>Adding, finding and removing meshes\<close>

definition AddMesh :: "nat \<Rightarrow> MeshManager \<Rightarrow> MeshManager option" where
  "AddMesh p mm =
     (case mesh_heap mm p of
        None \<Rightarrow> None
      | Some m \<Rightarrow> Some (if \<not> HasMesh (Mesh_Name m) mm then set_mesh (Mesh_Name m) p mm else mm))"

definition CreateMesh :: "string \<Rightarrow> MeshManager \<Rightarrow> nat option \<times> MeshManager" where
  "CreateMesh n mm =
     (if n = [] then (None, mm)
      else if HasMesh n mm then (None, mm)
      else let (p, mm1) = new_mesh (Mesh_SetName n Mesh_new) mm in (Some p, set_mesh n p mm1))"

definition RemoveAll :: "MeshManager \<Rightarrow> MeshManager option" where
  "RemoveAll mm = map_option (\<lambda>mm1. mm1 \<lparr> meshes := [] \<rparr>) (delete_meshes (map snd (meshes mm)) mm)"

definition MeshManager_destroy :: "MeshManager \<Rightarrow> MeshManager option" where
  "MeshManager_destroy mm = map_option (\<lambda>mm1. mm1 \<lparr> meshes := [] \<rparr>) (delete_meshes (map snd (meshes mm)) mm)"

definition RemoveMesh :: "string \<Rightarrow> MeshManager \<Rightarrow> (bool \<times> MeshManager) option" where
  "RemoveMesh n mm =
     (case map_of (meshes mm) n of
        Some p \<Rightarrow> map_option (\<lambda>mm1. (True, mm1 \<lparr> meshes := AList.delete n (meshes mm1) \<rparr>)) (delete_mesh p mm)
      | None \<Rightarrow> Some (False, mm))"

text \<open>The out parameters are left alone when the manager has no mesh of that name.\<close>

definition MeshAABB :: "gz_math \<Rightarrow> nat \<Rightarrow> MeshManager \<Rightarrow> (Vector3d \<times> Vector3d \<times> Vector3d) option option" where
  "MeshAABB M p mm =
     do { m \<leftarrow> mesh_heap mm p;
          if HasMesh (Mesh_Name m) mm
          then do { q \<leftarrow> map_of (meshes mm) (Mesh_Name m); m1 \<leftarrow> mesh_heap mm q; Some (Some (AABB M m1)) }
          else Some None }"

definition Manager_GenSphericalTexCoord :: "nat \<Rightarrow> Vector3d \<Rightarrow> MeshManager \<Rightarrow> MeshManager option" where
  "Manager_GenSphericalTexCoord p c mm =
     do { m \<leftarrow> mesh_heap mm p;
          if HasMesh (Mesh_Name m) mm
          then do { q \<leftarrow> map_of (meshes mm) (Mesh_Name m); m1 \<leftarrow> mesh_heap mm q;
                    Some (mm \<lparr> mesh_heap := (mesh_heap mm)(q \<mapsto> Mesh_GenSphericalTexCoord c m1) \<rparr>) }
          else Some mm }"

subsection \<open>Loading files\<close>

text \<open>\<open>s.substr(s.rfind(".") + 1)\<close> in lower case: the whole name if it has no dot.\<close>

definition file_extension :: "string \<Rightarrow> string" where
  "file_extension f = map tolower (drop (case find_last_of f ''.'' of None \<Rightarrow> 0 | Some i \<Rightarrow> i + 1) f)"

definition IsValidFilename :: "string \<Rightarrow> MeshManager \<Rightarrow> bool" where
  "IsValidFilename f mm \<longleftrightarrow> (if file_extension f = [] then False else file_extension f \<in> set (fileExtensions mm))"

definition SetAssimpEnvs :: "environ \<Rightarrow> MeshManager \<Rightarrow> MeshManager" where
  "SetAssimpEnvs E mm =
     (let forceAssimpEnv = (case env E ''GZ_MESH_FORCE_ASSIMP'' False of None \<Rightarrow> [] | Some v \<Rightarrow> v)
      in if forceAssimpEnv = ''true'' then mm \<lparr> forceAssimp := True \<rparr> else mm \<lparr> forceAssimp := False \<rparr>)"

definition choose_loader :: "mesh_loaders \<Rightarrow> bool \<Rightarrow> string \<Rightarrow> (string \<Rightarrow> Mesh option) option" where
  "choose_loader L assimp extension =
     (if assimp then Some (assimpLoader L)
      else if extension = ''stl'' \<or> extension = ''stlb'' \<or> extension = ''stla'' then Some (stlLoader L)
      else if extension = ''dae'' then Some (colladaLoader L)
      else if extension = ''obj'' then Some (objLoader L)
      else if extension = ''gltf'' \<or> extension = ''glb'' \<or> extension = ''fbx'' then Some (assimpLoader L)
      else None)"

definition Load ::
    "mesh_loaders \<Rightarrow> (string \<Rightarrow> string) \<Rightarrow> environ \<Rightarrow> string \<Rightarrow> MeshManager \<Rightarrow> nat option \<times> MeshManager" where
  "Load L findFile E filename mm =
     (if \<not> IsValidFilename filename mm then (None, mm)
      else if HasMesh filename mm then (map_of (meshes mm) filename, mm)
      else let fullname = findFile filename
           in if fullname \<noteq> []
              then let extension = file_extension fullname; mm = SetAssimpEnvs E mm
                   in case choose_loader L (forceAssimp mm) extension of
                        None \<Rightarrow> (None, mm)
                      | Some loader \<Rightarrow>
                          if \<not> HasMesh filename mm
                          then (case loader fullname of
                                  Some mesh \<Rightarrow>
                                    let (p, mm) = new_mesh (Mesh_SetName filename mesh) mm
                                    in (Some p, insert_mesh filename p mm)
                                | None \<Rightarrow> (None, mm))
                          else (map_of (meshes mm) filename, mm)
              else (None, mm))"

subsection \<open>Creating shapes\<close>

text \<open>The common part of the \<open>Create\<close> functions: a new mesh with one sub-mesh, put in under its name.
  \<open>insert\<close> comes before the sub-mesh is filled in the code; nothing reads the map in between.\<close>

definition one_submesh :: "string \<Rightarrow> SubMesh \<Rightarrow> Mesh" where
  "one_submesh n s = snd (AddSubMesh s (Mesh_SetName n Mesh_new))"

definition register :: "string \<Rightarrow> Mesh \<Rightarrow> MeshManager \<Rightarrow> MeshManager" where
  "register n m mm = (let (p, mm) = new_mesh m mm in insert_mesh n p mm)"

definition CreateSphere ::
    "c_math \<Rightarrow> gz_math \<Rightarrow> string \<Rightarrow> real \<Rightarrow> int \<Rightarrow> int \<Rightarrow> MeshManager \<Rightarrow> MeshManager" where
  "CreateSphere C M n radius rings segments mm =
     (if HasMesh n mm then mm else register n (one_submesh n (sphere_mesh C M radius rings segments)) mm)"

definition CreatePlane ::
    "gz_math \<Rightarrow> 'm gz_affine \<Rightarrow> string \<Rightarrow> Vector3d \<Rightarrow> real \<Rightarrow> Vector2d \<Rightarrow> Vector2d \<Rightarrow> Vector2d \<Rightarrow> MeshManager \<Rightarrow>
     MeshManager option" where
  "CreatePlane M A n normal d sz segments uvTile mm =
     (if HasMesh n mm then Some mm
      else map_option (\<lambda>s. register n (one_submesh n s) mm) (plane_mesh M A normal d sz segments uvTile))"

text \<open>A \<open>Planed\<close> is its normal, size and offset.\<close>

definition CreatePlane_planed ::
    "gz_math \<Rightarrow> 'm gz_affine \<Rightarrow> string \<Rightarrow> Vector3d \<times> Vector2d \<times> real \<Rightarrow> Vector2d \<Rightarrow> Vector2d \<Rightarrow> MeshManager \<Rightarrow>
     MeshManager option" where
  "CreatePlane_planed M A n plane segments uvTile mm =
     (let (normal, sz, d) = plane in CreatePlane M A n normal d sz segments uvTile mm)"

definition CreateBox :: "string \<Rightarrow> Vector3d \<Rightarrow> Vector2d \<Rightarrow> MeshManager \<Rightarrow> MeshManager" where
  "CreateBox n sides uvCoords mm =
     (if HasMesh n mm then mm else register n (one_submesh n (box_mesh sides uvCoords)) mm)"

definition CreateExtrudedPolyline ::
    "gz_math \<Rightarrow> gz_planar \<Rightarrow> cdt \<Rightarrow> string \<Rightarrow> Vector2d list list \<Rightarrow> real \<Rightarrow> MeshManager \<Rightarrow> MeshManager option" where
  "CreateExtrudedPolyline M P cdt n polys height mm =
     do { polys \<leftarrow> all_some (close_loop (1 / 10 ^ 4)) polys;
          if HasMesh n mm then Some mm
          else do { r \<leftarrow> extruded_mesh M P cdt polys height;
                    Some (case r of None \<Rightarrow> mm | Some s \<Rightarrow> register n (one_submesh n s) mm) } }"

definition CreateCamera :: "gz_math \<Rightarrow> string \<Rightarrow> real \<Rightarrow> MeshManager \<Rightarrow> MeshManager option" where
  "CreateCamera M n scl mm =
     (if HasMesh n mm then Some mm
      else map_option (\<lambda>m. register n m mm) (Mesh_RecalculateNormals M (one_submesh n (camera_mesh scl))))"

definition CreateEllipsoid ::
    "c_math \<Rightarrow> gz_math \<Rightarrow> string \<Rightarrow> Vector3d \<Rightarrow> 32 word \<Rightarrow> 32 word \<Rightarrow> MeshManager \<Rightarrow> MeshManager" where
  "CreateEllipsoid C M n radii rings segments mm =
     (if HasMesh n mm then mm else register n (one_submesh n (ellipsoid_mesh C M radii rings segments)) mm)"

definition CreateCapsule ::
    "c_math \<Rightarrow> gz_math \<Rightarrow> string \<Rightarrow> real \<Rightarrow> real \<Rightarrow> 32 word \<Rightarrow> 32 word \<Rightarrow> MeshManager \<Rightarrow> MeshManager" where
  "CreateCapsule C M n radius len rings segments mm =
     (if HasMesh n mm then mm else register n (one_submesh n (capsule_mesh C M radius len rings segments)) mm)"

definition CreateCylinder ::
    "c_math \<Rightarrow> gz_math \<Rightarrow> string \<Rightarrow> real \<Rightarrow> real \<Rightarrow> int \<Rightarrow> int \<Rightarrow> MeshManager \<Rightarrow> MeshManager" where
  "CreateCylinder C M n radius height rings segments mm =
     (if HasMesh n mm then mm else register n (one_submesh n (cylinder_mesh C M radius height rings segments)) mm)"

definition CreateCone ::
    "c_math \<Rightarrow> gz_math \<Rightarrow> string \<Rightarrow> real \<Rightarrow> real \<Rightarrow> int \<Rightarrow> int \<Rightarrow> MeshManager \<Rightarrow> MeshManager option" where
  "CreateCone C M n radius height rings segments mm =
     (if HasMesh n mm then Some mm
      else map_option (\<lambda>m. register n m mm)
             (Mesh_RecalculateNormals M (one_submesh n (cone_mesh C M radius height rings segments))))"

definition CreateTube ::
    "c_math \<Rightarrow> gz_math \<Rightarrow> string \<Rightarrow> real \<Rightarrow> real \<Rightarrow> real \<Rightarrow> int \<Rightarrow> int \<Rightarrow> real \<Rightarrow> MeshManager \<Rightarrow> MeshManager option" where
  "CreateTube C M n innerRadius outerRadius height rings segments arc mm =
     (if HasMesh n mm then Some mm
      else map_option (\<lambda>m. register n m mm)
             (Mesh_RecalculateNormals M (one_submesh n (tube_mesh C M innerRadius outerRadius height rings segments arc))))"

text \<open>\<open>arc\<close> is \<open>2 * GZ_PI\<close> when it is not given.\<close>

definition MeshManager_empty :: MeshManager where
  "MeshManager_empty =
     \<lparr> meshes = [], mesh_heap = \<lambda>p. None, next_mesh = 0, fileExtensions = [], forceAssimp = False \<rparr>"

definition MeshManager_new :: "c_math \<Rightarrow> gz_math \<Rightarrow> 'm gz_affine \<Rightarrow> MeshManager option" where
  "MeshManager_new C M A =
     do { mm \<leftarrow> CreatePlane_planed M A ''unit_plane'' (vec3 0 0 1, (1, 1), 0) (1, 1) (1, 1) MeshManager_empty;
          let mm = CreateSphere C M ''unit_sphere'' (1 / 2) 32 32 mm;
          let mm = CreateSphere C M ''joint_anchor'' (1 / 100) 32 32 mm;
          let mm = CreateBox ''body_cg'' (vec3 (14 / 1000) (14 / 1000) (14 / 1000)) (14 / 1000, 14 / 1000) mm;
          let mm = CreateBox ''unit_box'' (vec3 1 1 1) (1, 1) mm;
          let mm = CreateCylinder C M ''unit_cylinder'' (1 / 2) 1 1 32 mm;
          mm \<leftarrow> CreateCone C M ''unit_cone'' (1 / 2) 1 5 32 mm;
          mm \<leftarrow> CreateCamera M ''unit_camera'' (1 / 2) mm;
          let mm = CreateCylinder C M ''axis_shaft'' (1 / 100) (2 / 10) 1 16 mm;
          mm \<leftarrow> CreateCone C M ''axis_head'' (2 / 100) (8 / 100) 1 16 mm;
          mm \<leftarrow> CreateTube C M ''selection_tube'' 1 (12 / 10) (1 / 100) 1 64 (2 * GZ_PI C) mm;
          Some (mm \<lparr> fileExtensions := [''stl'', ''dae'', ''obj'', ''gltf'', ''glb'', ''fbx''] \<rparr>) }"

subsection \<open>Merging sub-meshes\<close>

definition merge_texcoords :: "gz_math \<Rightarrow> nat \<Rightarrow> SubMesh \<Rightarrow> SubMesh \<Rightarrow> SubMesh" where
  "merge_texcoords M maxTexCoordSet s merged =
     fold (\<lambda>j. if word_of_nat j < TexCoordSetCount s
               then fold (\<lambda>k. AddTexCoordBySet_uv (TexCoordBySet M (word_of_nat k) (word_of_nat j) s) (word_of_nat j))
                      [0..<unat (TexCoordCountBySet (word_of_nat j) s)]
               else fold (\<lambda>k. AddTexCoordBySet_uv (Zero_2 M) (word_of_nat j)) [0..<unat (VertexCount s)])
       [0..<maxTexCoordSet] merged"

definition merge_submesh :: "gz_math \<Rightarrow> nat \<Rightarrow> SubMesh \<Rightarrow> SubMesh \<times> 32 word \<Rightarrow> SubMesh \<times> 32 word" where
  "merge_submesh M maxTexCoordSet s st =
     (let (merged, indexOffset) = st;
          merged = fold (\<lambda>j. AddVertex (Vertex M (word_of_nat j) s)) [0..<unat (VertexCount s)] merged;
          merged = fold (\<lambda>j. AddNormal (Normal M (word_of_nat j) s)) [0..<unat (NormalCount s)] merged;
          merged = fold (\<lambda>j. AddIndex (word_of_int (Index (word_of_nat j) s) + indexOffset)) [0..<unat (IndexCount s)] merged
      in (merge_texcoords M maxTexCoordSet s merged, indexOffset + VertexCount s))"

definition MergeSubMeshes :: "gz_math \<Rightarrow> Mesh \<Rightarrow> Mesh" where
  "MergeSubMeshes M m =
     (let maxTexCoordSet = foldl (\<lambda>k s. if k > TexCoordSetCount s then k else TexCoordSetCount s) 0 (submeshes m);
          (merged, indexOffset) = fold (merge_submesh M (unat maxTexCoordSet)) (submeshes m) (SubMesh_default, 0);
          mesh = Mesh_SetName (Mesh_Name m @ ''_merged'') Mesh_new
      in snd (AddSubMesh (SetName (Mesh_Name mesh @ ''_submesh'') merged) mesh))"

end
