(* ===== verification/Polyline_Facts.thy ===== *)
theory Polyline_Facts
  imports Polyline_Mesh
begin

section \<open>The point table and the extruded mesh\<close>

text \<open>
  The edges the conversion builds are the steps of the polylines between the places of their points
  in a table without two close points, and an extruded mesh is well formed.
\<close>

subsection \<open>The table of distinct points\<close>

definition close :: "gz_planar \<Rightarrow> real \<Rightarrow> Vector2d \<Rightarrow> Vector2d \<Rightarrow> bool" where
  "close P tol w p \<longleftrightarrow>
     fst (minus_2 P w p) * fst (minus_2 P w p) + snd (minus_2 P w p) * snd (minus_2 P w p) < tol * tol"

definition spread :: "gz_planar \<Rightarrow> real \<Rightarrow> Vector2d list \<Rightarrow> bool" where
  "spread P tol vs \<longleftrightarrow> (\<forall>i < length vs. \<forall>j < length vs. i \<noteq> j \<longrightarrow> \<not> close P tol (vs ! i) (vs ! j))"

text \<open>The index of the first point of the table that is close to a point.\<close>

definition place :: "gz_planar \<Rightarrow> real \<Rightarrow> Vector2d list \<Rightarrow> Vector2d \<Rightarrow> nat option" where
  "place P tol vs p = find_index (\<lambda>w. close P tol w p) vs"

definition planar :: "gz_planar \<Rightarrow> bool" where
  "planar P \<longleftrightarrow> minus_2 P = (\<lambda>v w. (fst v - fst w, snd v - snd w))"

lemma close_refl: "planar P \<Longrightarrow> 0 < tol \<Longrightarrow> close P tol p p"
  by (simp add: planar_def close_def)

lemma close_sym: "planar P \<Longrightarrow> close P tol p q \<longleftrightarrow> close P tol q p"
  by (simp add: planar_def close_def algebra_simps)

lemma AddUnique_place:
  "AddUniquePointToVerticesTable P vs p tol =
     (case place P tol vs p of Some i \<Rightarrow> (vs, i) | None \<Rightarrow> (vs @ [p], length vs))"
  by (simp add: AddUniquePointToVerticesTable_def place_def close_def Let_def split: option.split)

lemma place_append: "place P tol vs p = Some i \<Longrightarrow> place P tol (vs @ xs) p = Some i"
  by (simp add: place_def find_index_append)

lemma place_less: "place P tol vs p = Some i \<Longrightarrow> i < length vs \<and> close P tol (vs ! i) p"
  by (simp add: place_def find_index_Some_iff)

lemma spread_snoc:
  assumes "planar P" and "spread P tol vs" and "place P tol vs p = None"
  shows "spread P tol (vs @ [p])"
proof -
  have "\<not> close P tol (vs ! i) p \<and> \<not> close P tol p (vs ! i)" if "i < length vs" for i
    using assms(3) that close_sym [OF assms(1), of tol p "vs ! i"] by (auto simp: place_def find_index_None_iff)
  then show ?thesis using assms(2) by (auto simp: spread_def nth_append less_Suc_eq)
qed

lemma AddUnique_extends:
  assumes "planar P" and "0 < tol" and "spread P tol vs"
    and "AddUniquePointToVerticesTable P vs p tol = (vs', i)"
  shows "(\<exists>xs. vs' = vs @ xs) \<and> set vs' \<subseteq> insert p (set vs) \<and> spread P tol vs' \<and> place P tol vs' p = Some i"
proof (cases "place P tol vs p")
  case None
  then have v: "vs' = vs @ [p]" "i = length vs" using assms(4) by (auto simp: AddUnique_place)
  have "place P tol (vs @ [p]) p = Some (length vs)"
    using None close_refl [OF assms(1,2)] by (simp add: place_def find_index_append)
  then show ?thesis using v spread_snoc [OF assms(1,3) None] by auto
next
  case (Some j)
  then show ?thesis using assms(3,4) by (auto simp: AddUnique_place)
qed

subsection \<open>Edges are the steps of the polylines\<close>

definition steps :: "('a \<Rightarrow> 'b) \<Rightarrow> 'a list \<Rightarrow> ('b \<times> 'b) list" where
  "steps f ps = filter (\<lambda>(a, b). a \<noteq> b) (zip (map f ps) (map f (tl ps)))"

lemma steps_simps [simp]:
  "steps f [] = []" "steps f [p] = []"
  "steps f (p # q # ps) = (if f p = f q then [] else [(f p, f q)]) @ steps f (q # ps)"
  by (simp_all add: steps_def)

lemma steps_cong: "(\<And>p. p \<in> set ps \<Longrightarrow> f p = g p) \<Longrightarrow> steps f ps = steps g ps"
  by (induction ps rule: induct_list012) (simp_all del: steps_simps(3) add: steps_simps(3))

abbreviation place_int :: "gz_planar \<Rightarrow> real \<Rightarrow> Vector2d list \<Rightarrow> Vector2d \<Rightarrow> nat" where
  "place_int P tol vs p \<equiv> the (place P tol vs p)"

definition int_edges :: "(nat \<times> nat) list \<Rightarrow> (int \<times> int) list" where
  "int_edges es = map (map_prod to_int to_int) es"

lemma int_edges_simps [simp]: "int_edges [] = []" "int_edges (e # es) = (to_int (fst e), to_int (snd e)) # int_edges es"
  "int_edges (es @ fs) = int_edges es @ int_edges fs"
  by (simp_all add: int_edges_def map_prod_def split: prod.splits)

text \<open>What a table that only grows keeps: the points that have a place, and the steps between them.\<close>

definition placed :: "gz_planar \<Rightarrow> real \<Rightarrow> Vector2d list \<Rightarrow> Vector2d list \<Rightarrow> bool" where
  "placed P tol vs ps \<longleftrightarrow> (\<forall>p \<in> set ps. place P tol vs p \<noteq> None)"

lemma placed_append:
  assumes "placed P tol vs ps"
  shows "placed P tol (vs @ xs) ps \<and> steps (place_int P tol (vs @ xs)) ps = steps (place_int P tol vs) ps"
  using assms place_append by (auto simp: placed_def intro!: steps_cong)

lemma convert_fold:
  assumes "planar P" and "0 < tol" and "spread P tol vs"
    and "fold (convert_point P tol) ps (vs, es, prev) = (vs', es', prev')"
  shows "(\<exists>xs. vs' = vs @ xs) \<and> set vs' \<subseteq> set vs \<union> set (prev # ps) \<and> spread P tol vs' \<and>
    (ps \<noteq> [] \<longrightarrow> placed P tol vs' (prev # ps)) \<and> es' = es @ int_edges (steps (place_int P tol vs') (prev # ps))"
  using assms(3,4)
proof (induction ps arbitrary: vs es prev)
  case (Cons p ps)
  obtain vs1 i where a1: "AddUniquePointToVerticesTable P vs prev tol = (vs1, i)" by fastforce
  obtain vs2 j where a2: "AddUniquePointToVerticesTable P vs1 p tol = (vs2, j)" by fastforce
  note e1 = AddUnique_extends [OF assms(1,2) Cons.prems(1) a1]
  then have "spread P tol vs1" by blast
  note e2 = AddUnique_extends [OF assms(1,2) this a2]
  obtain xs ys where x: "vs1 = vs @ xs" "vs2 = vs1 @ ys" using e1 e2 by blast
  define es2 where "es2 = es @ (if i = j then [] else [(to_int i, to_int j)])"
  have "convert_point P tol p (vs, es, prev) = (vs2, es2, p)"
    using a1 a2 by (simp add: convert_point_def es2_def)
  with Cons.prems(2) have "fold (convert_point P tol) ps (vs2, es2, p) = (vs', es', prev')" by simp
  from Cons.IH [OF _ this] e2 obtain zs where z: "vs' = vs2 @ zs"
    and r: "set vs' \<subseteq> set vs2 \<union> set (p # ps)" "spread P tol vs'" "ps \<noteq> [] \<longrightarrow> placed P tol vs' (p # ps)"
      "es' = es2 @ int_edges (steps (place_int P tol vs') (p # ps))" by blast
  have pl: "place P tol vs' prev = Some i" "place P tol vs' p = Some j"
    using e1 e2 x z place_append [of P tol vs1 prev i "ys @ zs"] place_append [of P tol vs2 p j zs] by simp_all
  have "placed P tol vs' (prev # p # ps)"
    using pl r(3) by (cases "ps = []") (simp_all add: placed_def)
  moreover have "set vs' \<subseteq> set vs \<union> set (prev # p # ps)" using e1 e2 r(1) by auto
  moreover have "es' = es @ int_edges (steps (place_int P tol vs') (prev # p # ps))"
    using r(4) pl by (simp add: es2_def)
  ultimately show ?case using x z r(2) by auto
qed auto

lemma convert_polys:
  assumes "planar P" and "0 < tol" and "\<forall>poly \<in> set polys. poly \<noteq> []" and "spread P tol vs"
  shows "\<exists>vs' es'. ConvertPolylinesToVerticesAndEdges P polys tol (vs, es) = Some (vs', es') \<and>
    (\<exists>xs. vs' = vs @ xs) \<and> set vs' \<subseteq> set vs \<union> \<Union> (set ` set polys) \<and> spread P tol vs' \<and>
    (\<forall>poly \<in> set polys. 2 \<le> length poly \<longrightarrow> placed P tol vs' poly) \<and>
    es' = es @ int_edges (concat (map (steps (place_int P tol vs')) polys))"
  using assms(3,4)
proof (induction polys arbitrary: vs es)
  case (Cons poly polys)
  obtain p ps where poly: "poly = p # ps" using Cons.prems(1) by (cases poly) auto
  obtain vs1 es1 q where f: "fold (convert_point P tol) ps (vs, es, p) = (vs1, es1, q)" by (metis prod_cases3)
  note c = convert_fold [OF assms(1,2) Cons.prems(2) f]
  then have "spread P tol vs1" by blast
  with Cons.IH [of vs1 es1] Cons.prems(1) obtain vs' es' xs where r:
    "ConvertPolylinesToVerticesAndEdges P polys tol (vs1, es1) = Some (vs', es')" "vs' = vs1 @ xs"
    "set vs' \<subseteq> set vs1 \<union> \<Union> (set ` set polys)" "spread P tol vs'"
    "\<forall>poly \<in> set polys. 2 \<le> length poly \<longrightarrow> placed P tol vs' poly"
    "es' = es1 @ int_edges (concat (map (steps (place_int P tol vs')) polys))" by auto
  have "(ps \<noteq> [] \<longrightarrow> placed P tol vs' poly) \<and> steps (place_int P tol vs') poly = steps (place_int P tol vs1) poly"
    using c placed_append [of P tol vs1 poly xs] by (cases "ps = []") (auto simp: r(2) poly)
  then have "2 \<le> length poly \<longrightarrow> placed P tol vs' poly"
    "es' = es @ int_edges (concat (map (steps (place_int P tol vs')) (poly # polys)))"
    using c r(6) by (auto simp: poly)
  moreover have "set vs' \<subseteq> set vs \<union> \<Union> (set ` set (poly # polys))" using c r(3) poly by auto
  moreover have "ConvertPolylinesToVerticesAndEdges P (poly # polys) tol (vs, es) = Some (vs', es')"
    using r(1) f poly by simp
  moreover have "\<exists>ys. vs' = vs @ ys" using c r(2) by auto
  ultimately show ?case using r(4,5) by auto
qed simp

text \<open>
  C12. Polylines become a table of points of theirs in which no two are within the tolerance, and the
  edges between them: every point of a polyline of at least two points has a place in the table, a
  point within the tolerance of it, and the edges are the steps of the polylines from place to
  place, in order, without those that stay where they are. An empty polyline is read out of range.
\<close>

theorem ConvertPolylines_steps:
  assumes "planar P" and "0 < tol"
  shows "if [] \<in> set polys then ConvertPolylinesToVerticesAndEdges P polys tol ([], []) = None
     else \<exists>vs es. ConvertPolylinesToVerticesAndEdges P polys tol ([], []) = Some (vs, es) \<and>
        spread P tol vs \<and> set vs \<subseteq> \<Union> (set ` set polys) \<and>
        (\<forall>poly \<in> set polys. 2 \<le> length poly \<longrightarrow> placed P tol vs poly) \<and>
        es = int_edges (concat (map (steps (place_int P tol vs)) polys))"
proof (cases "[] \<in> set polys")
  case True
  then have "ConvertPolylinesToVerticesAndEdges P polys tol st = None" for st
    by (induction polys arbitrary: st) (auto split: prod.splits list.splits)
  then show ?thesis using True by simp
next
  case False
  then have "\<forall>poly \<in> set polys. poly \<noteq> []" by auto
  from convert_polys [OF assms this, of "[]" "[]"] False show ?thesis by (auto simp: spread_def)
qed

definition plain_2 :: gz_planar where
  "plain_2 = \<lparr> minus_2 = \<lambda>v w. (fst v - fst w, snd v - snd w), eq_2 = (=) \<rparr>"

lemma planar_plain: "planar plain_2"
  by (simp add: planar_def plain_2_def)

theorem ConvertPolylines_steps_witness:
  "\<exists>vs es. ConvertPolylinesToVerticesAndEdges plain_2 [[(0, 0), (1, 0), (1, 1 / 10 ^ 6), (0, 0)]] (1 / 10 ^ 4)
     ([], []) = Some (vs, es) \<and> placed plain_2 (1 / 10 ^ 4) vs [(0, 0), (1, 0), (1, 1 / 10 ^ 6), (0, 0)]"
  using ConvertPolylines_steps [OF planar_plain, of "1 / 10 ^ 4" "[[(0, 0), (1, 0), (1, 1 / 10 ^ 6), (0, 0)]]"]
  by (auto split: if_splits)

subsection \<open>The extruded mesh\<close>

lemma AddVertex_shape: "AddVertex v (shape vs ns ts is) = shape (vs @ [v]) ns ts is"
  and AddNormal_shape: "AddNormal n (shape vs ns ts is) = shape vs (ns @ [n]) ts is"
  and AddIndex_shape: "AddIndex i (shape vs ns ts is) = shape vs ns ts (is @ [i])"
  by (simp_all add: shape_def AddVertex_def AddNormal_def AddIndex_def)

lemma VertexCount_shape: "VertexCount (shape vs ns ts is) = word_of_nat (length vs)"
  and IndexCount_shape: "IndexCount (shape vs ns ts is) = word_of_nat (length is)"
  by (simp_all add: VertexCount_def IndexCount_def)

lemmas shape_ops = AddVertex_shape AddNormal_shape AddIndex_shape VertexCount_shape IndexCount_shape

lemma unat_small: "n < 2 ^ 32 \<Longrightarrow> unat (word_of_nat n :: 32 word) = n"
  by (simp add: unat_of_nat take_bit_nat_eq_self)

text \<open>A counting loop, given the state before each of its rounds.\<close>

lemma fold_upt_states: "(\<And>k. k < n \<Longrightarrow> F k (S k) = S (Suc k)) \<Longrightarrow> fold F [0..<n] (S 0) = S n"
proof (induction n)
  case (Suc n)
  then have "fold F [0..<n] (S 0) = S n" by simp
  then show ?case using Suc.prems [of n] by simp
qed simp

lemma fold_AddVertex_shape: "fold AddVertex xs (shape vs ns ts is) = shape (vs @ xs) ns ts is"
  by (induction xs arbitrary: vs) (simp_all add: shape_ops)

lemma Index_shape:
  assumes "j < length is" and "length is < 2 ^ 32"
  shows "word_of_int (Index (word_of_nat j) (shape vs ns ts is)) = is ! j"
  using assms by (simp add: Index_def unat_small)

abbreviation lifted :: "real \<Rightarrow> Vector3d \<Rightarrow> Vector3d" where
  "lifted h v \<equiv> vec3 (vX v) (vY v) h"

definition flipped :: "32 word \<Rightarrow> 32 word list \<Rightarrow> nat \<Rightarrow> 32 word list" where
  "flipped N is k = concat (map (\<lambda>k. [N + is ! (3 * k), N + is ! (3 * k + 2), N + is ! (3 * k + 1)]) [0..<k])"

lemma top_face_shape:
  assumes "length vs < 2 ^ 32" and "length is = 3 * m" and "6 * m < 2 ^ 32"
  shows "top_face M h (shape vs [] [] is) =
    shape (vs @ map (lifted h) vs)
      (replicate (length vs) (opposite (vec3 0 0 1)) @ replicate (length vs) (vec3 0 0 1)) []
      (is @ flipped (word_of_nat (length vs)) is m)"
proof -
  let ?n = "length vs" and ?up = "vec3 0 0 1"
  let ?down = "opposite ?up"
  have "fold (\<lambda>i. AddNormal ?down) [0..<?n] (shape vs [] [] is) = shape vs (replicate ?n ?down) [] is"
    using fold_upt_states [of ?n "\<lambda>i. AddNormal ?down" "\<lambda>k. shape vs (replicate k ?down) [] is"]
    by (simp add: shape_ops replicate_append_same)
  moreover define S where "S k = shape (vs @ map (lifted h) (take k vs)) (replicate ?n ?down @ replicate k ?up) [] is" for k
  have "fold (\<lambda>i s. let v = Vertex M (word_of_nat i) s in AddNormal ?up (AddVertex (lifted h v) s)) [0..<?n] (S 0) = S ?n"
  proof (rule fold_upt_states)
    fix k assume k: "k < ?n"
    then have "Vertex M (word_of_nat k) (S k) = vs ! k"
      using assms(1) by (auto simp: Vertex_def S_def unat_small nth_append)
    then show "(let v = Vertex M (word_of_nat k) (S k) in AddNormal ?up (AddVertex (lifted h v) (S k))) = S (Suc k)"
      using k by (simp add: Let_def S_def shape_ops take_Suc_conv_app_nth replicate_append_same)
  qed
  moreover define T where "T k = shape (vs @ map (lifted h) vs) (replicate ?n ?down @ replicate ?n ?up) []
      (is @ flipped (word_of_nat ?n) is k)" for k
  have "fold (\<lambda>k s. let i0 = word_of_int (Index (word_of_nat (3 * k)) s);
                         i1 = word_of_int (Index (word_of_nat (3 * k + 1)) s);
                         i2 = word_of_int (Index (word_of_nat (3 * k + 2)) s)
                     in add_indices [word_of_nat ?n + i0, word_of_nat ?n + i2, word_of_nat ?n + i1] s) [0..<m] (T 0) = T m"
  proof (rule fold_upt_states, goal_cases)
    case (1 k)
    have len: "length (flipped (word_of_nat ?n) is k) = 3 * k" for k
      unfolding flipped_def by (subst length_concat_const [where n = 3]) simp_all
    have at_j: "word_of_int (Index (word_of_nat j) (T k)) = is ! j" if "j < 3 * m" for j
      unfolding T_def using that 1 assms(2,3) by (subst Index_shape) (simp_all add: len nth_append)
    have "word_of_int (Index (word_of_nat (3 * k)) (T k)) = is ! (3 * k)"
      "word_of_int (Index (word_of_nat (3 * k + 1)) (T k)) = is ! (3 * k + 1)"
      "word_of_int (Index (word_of_nat (3 * k + 2)) (T k)) = is ! (3 * k + 2)" using 1 by (intro at_j; simp)+
    then show ?case unfolding Let_def by (simp only:) (simp add: T_def flipped_def)
  qed
  moreover have "(unat (word_of_nat (length is) :: 32 word) + 2) div 3 = m"
    using unat_small [of "length is"] assms(2,3) by simp
  ultimately show ?thesis
    using assms(1) by (simp add: top_face_def Let_def shape_ops unat_small S_def T_def flipped_def)
qed

lemma side_face_shape:
  assumes "length vs + 6 < 2 ^ 32"
  shows "side_face M P h pts (e, nv) (shape vs ns [] is) =
    shape (vs @ side_corners h (pts ! nat (fst e)) (pts ! nat (snd e))
             (vZ (Cross_v M (let d = minus_2 P (pts ! nat (snd e)) (pts ! nat (fst e)) in vec3 (fst d) (snd d) 0) nv) > 0))
      (ns @ replicate 6 nv) [] (is @ map word_of_nat [length vs..<length vs + 6])"
  by (cases e) (simp add: side_face_def Let_def shape_ops fold_AddVertex_shape upt_rec numeral_eq_Suc add.commute)

text \<open>A mesh of \<open>n\<close> vertices and normals and \<open>m\<close> indices, all in range, between two heights.\<close>

definition slab :: "real \<Rightarrow> nat \<Rightarrow> nat \<Rightarrow> SubMesh \<Rightarrow> bool" where
  "slab h n m s \<longleftrightarrow> (\<exists>vs ns is. s = shape vs ns [] is \<and> length vs = n \<and> length ns = n \<and> length is = m \<and>
     (\<forall>i \<in> set is. unat i < n) \<and> (\<forall>v \<in> set vs. vZ v = 0 \<or> vZ v = h))"

lemma slabI:
  "s = shape vs ns [] is \<Longrightarrow> length vs = n \<Longrightarrow> length ns = n \<Longrightarrow> length is = m \<Longrightarrow>
   \<forall>i \<in> set is. unat i < n \<Longrightarrow> \<forall>v \<in> set vs. vZ v = 0 \<or> vZ v = h \<Longrightarrow> slab h n m s"
  unfolding slab_def by blast

lemma side_face_slab:
  assumes "slab h n m s" and "n + 6 < 2 ^ 32"
  shows "slab h (n + 6) (m + 6) (side_face M P h pts en s)"
proof -
  obtain e nv where en: "en = (e, nv)" by fastforce
  obtain vs ns "is" where s: "s = shape vs ns [] is" and c: "length vs = n" "length ns = n" "length is = m"
    "\<forall>i \<in> set is. unat i < n" "\<forall>v \<in> set vs. vZ v = 0 \<or> vZ v = h" using assms(1) by (auto simp: slab_def)
  define cs where "cs = side_corners h (pts ! nat (fst e)) (pts ! nat (snd e))
      (vZ (Cross_v M (let d = minus_2 P (pts ! nat (snd e)) (pts ! nat (fst e)) in vec3 (fst d) (snd d) 0) nv) > 0)"
  have cs: "length cs = 6" "\<forall>v \<in> set cs. vZ v = 0 \<or> vZ v = h" by (simp_all add: cs_def side_corners_def)
  have e: "side_face M P h pts en s = shape (vs @ cs) (ns @ replicate 6 nv) [] (is @ map word_of_nat [n..<n + 6])"
    unfolding en s using side_face_shape [of vs M P h pts e nv ns "is"] assms(2) c(1) by (simp add: cs_def)
  have "\<forall>i \<in> set (is @ map word_of_nat [n..<n + 6]). unat i < n + 6"
    using c(4) by (auto intro: unat_of_nat_less)
  with c cs show ?thesis by (intro slabI [OF e]) auto
qed

lemma side_faces_slab:
  assumes "slab h n m s" and "n + 6 * length ens < 2 ^ 32"
  shows "slab h (n + 6 * length ens) (m + 6 * length ens) (fold (side_face M P h pts) ens s)"
  using assms
proof (induction ens arbitrary: n m s)
  case (Cons en ens)
  have "slab h (n + 6) (m + 6) (side_face M P h pts en s)"
    using Cons.prems by (intro side_face_slab) simp_all
  from Cons.IH [OF this] Cons.prems(2) show ?case by (simp add: add.assoc)
qed simp

lemma triangulation_shape:
  assumes "es \<noteq> []" and "vs \<noteq> []" and "cdt vs es = Some (points, tris)"
  shows "DelaunayTriangulation cdt vs es (Some SubMesh_default) =
    Some (True, Some (shape (map (\<lambda>v. vec3 (fst v) (snd v) 0) points) [] [] (concat (map (\<lambda>(a, b, c). [c, b, a]) tris))))"
proof -
  have "fold (\<lambda>v. AddVertex (vec3 (fst v) (snd v) 0)) points (shape vs ns ts is) =
      shape (vs @ map (\<lambda>v. vec3 (fst v) (snd v) 0) points) ns ts is" for vs ns ts "is"
    by (induction points arbitrary: vs) (simp_all add: shape_ops)
  moreover have "fold (\<lambda>(a, b, c). add_indices [c, b, a]) tris (shape vs ns ts is) =
      shape vs ns ts (is @ concat (map (\<lambda>(a, b, c). [c, b, a]) tris))" for vs ns ts "is"
    by (induction tris arbitrary: "is") auto
  ultimately show ?thesis using assms by (simp add: DelaunayTriangulation_def shape_default Let_def)
qed

lemma top_face_slab:
  assumes "length is = 3 * m" and "\<forall>i \<in> set is. unat i < length vs" and "\<forall>v \<in> set vs. vZ v = 0"
    and "2 * length vs < 2 ^ 32" and "6 * m < 2 ^ 32"
  shows "slab h (2 * length vs) (6 * m) (top_face M h (shape vs [] [] is))"
proof -
  let ?N = "word_of_nat (length vs) :: 32 word"
  have len: "length (flipped ?N is m) = 3 * m"
    unfolding flipped_def by (subst length_concat_const [where n = 3]) simp_all
  have "unat (?N + is ! j) < 2 * length vs" if "j < 3 * m" for j
  proof -
    have "unat (is ! j) < length vs" using assms(1,2) that by simp
    moreover from this have "unat (?N + is ! j) = length vs + unat (is ! j)"
      using assms(4) by (simp add: unat_word_ariths unat_small)
    ultimately show ?thesis by simp
  qed
  then have r: "\<forall>i \<in> set (is @ flipped ?N is m). unat i < 2 * length vs" using assms(2) by (auto simp: flipped_def)
  have e: "top_face M h (shape vs [] [] is) = shape (vs @ map (lifted h) vs)
      (replicate (length vs) (opposite (vec3 0 0 1)) @ replicate (length vs) (vec3 0 0 1)) [] (is @ flipped ?N is m)"
    using assms by (intro top_face_shape) simp_all
  show ?thesis by (rule slabI [OF e _ _ _ r]) (use len assms(1,3) in auto)
qed

text \<open>
  C13. An extruded polyline is a well-formed triangle mesh between the ground and its height: with
  \<open>n\<close> points and \<open>t\<close> triangles from the triangulation and \<open>e\<close> edges it has \<open>2 n + 6 e\<close> vertices with
  a normal each and \<open>6 t + 6 e\<close> indices in range, up to the sizes where the counters wrap.
\<close>

theorem extruded_mesh_ok:
  assumes "extruded_mesh M P cdt polys h = Some (Some s)"
    and "ConvertPolylinesToVerticesAndEdges P polys (1 / 10 ^ 4) ([], []) = Some (vs, es)"
    and "cdt vs es = Some (points, tris)"
    and "\<forall>(a, b, c) \<in> set tris. unat a < length points \<and> unat b < length points \<and> unat c < length points"
    and "2 * length points + 6 * length es < 2 ^ 32" and "6 * length tris < 2 ^ 32"
  shows "mesh_ok (2 * length points + 6 * length es) s \<and> length (indices s) = 6 * length tris + 6 * length es \<and>
     (\<forall>v \<in> set (vertices s). vZ v = 0 \<or> vZ v = h)"
proof -
  have ne: "es \<noteq> []" "vs \<noteq> []"
    using assms(1,2) by (auto simp: extruded_mesh_def DelaunayTriangulation_def)
  define g where "g = map (\<lambda>v. vec3 (fst v) (snd v) 0) points"
  define js where "js = concat (map (\<lambda>(a, b, c). [c, b, a]) tris)"
  define nvs where "nvs = edge_normals M P (shape g [] [] js) vs es"
  from assms(1,2) triangulation_shape [where cdt = cdt, OF ne assms(3), folded g_def js_def]
  have s: "s = fold (side_face M P h vs) (zip es nvs) (top_face M h (shape g [] [] js))" "length nvs = length es"
    by (simp_all add: extruded_mesh_def nvs_def Let_def split: if_splits)
  have g: "length g = length points" "\<forall>v \<in> set g. vZ v = 0" by (auto simp: g_def)
  have js: "length js = 3 * length tris" "\<forall>i \<in> set js. unat i < length g"
    using assms(4) by (auto simp: js_def g(1) length_concat_const [where n = 3] split: prod.splits)
  have "slab h (2 * length g) (6 * length tris) (top_face M h (shape g [] [] js))"
    using js g assms(5,6) by (intro top_face_slab) simp_all
  from side_faces_slab [OF this, of "zip es nvs" M P vs] assms(5) s
  have "slab h (2 * length points + 6 * length es) (6 * length tris + 6 * length es) s"
    by (simp add: g(1) mult.commute)
  then obtain vs' ns' is' where "s = shape vs' ns' [] is'" "length vs' = 2 * length points + 6 * length es"
    "length ns' = 2 * length points + 6 * length es" "length is' = 6 * length tris + 6 * length es"
    "\<forall>i \<in> set is'. unat i < 2 * length points + 6 * length es" "\<forall>v \<in> set vs'. vZ v = 0 \<or> vZ v = h"
    unfolding slab_def by blast
  moreover from this(4) ne(1) have "is' \<noteq> []" by auto
  ultimately show ?thesis by (auto simp: mod_add_eq intro!: mesh_ok_shape)
qed

definition one_triangle :: cdt where
  "one_triangle vs es = Some (vs, [(0, 1, 2)])"

abbreviation corner_loop :: "Vector2d list" where
  "corner_loop \<equiv> [(0, 0), (1, 0), (0, 1), (0, 0)]"

abbreviation unnormalized :: gz_math where
  "unnormalized \<equiv> std_math \<lparr> Normalize_v := id \<rparr>"

lemma convert_corner_loop:
  "ConvertPolylinesToVerticesAndEdges plain_2 [corner_loop] (1 / 10 ^ 4) ([], []) =
     Some ([(0, 0), (1, 0), (0, 1)], [(0, 1), (1, 2), (2, 0)])"
  by (simp add: convert_point_def AddUniquePointToVerticesTable_def plain_2_def to_int_def Let_def)

lemma corner_loop_normals:
  "edge_normals unnormalized plain_2 (shape [vec3 0 0 0, vec3 1 0 0, vec3 0 1 0] [] [] [2, 1, 0])
     [(0, 0), (1, 0), (0, 1)] [(0, 1), (1, 2), (2, 0)] = [vec3 0 (- 1) 0, vec3 1 1 0, vec3 (- 1) 0 0]"
  by (simp add: edge_normals_def corner_at_def shape_ops Index_def Vertex_def edge_normal_def plain_2_def xy_def
      std_math_def opposite_def upt_rec Let_def)

theorem extruded_mesh_ok_witness:
  "\<exists>s. extruded_mesh unnormalized plain_2 one_triangle [corner_loop] 2 = Some (Some s) \<and> mesh_ok 24 s"
proof -
  have "extruded_mesh unnormalized plain_2 one_triangle [corner_loop] 2 \<noteq> Some None \<and>
      extruded_mesh unnormalized plain_2 one_triangle [corner_loop] 2 \<noteq> None"
    unfolding extruded_mesh_def convert_corner_loop
    using corner_loop_normals by (simp add: triangulation_shape one_triangle_def Let_def)
  then obtain s where s: "extruded_mesh unnormalized plain_2 one_triangle [corner_loop] 2 = Some (Some s)" by auto
  have "one_triangle [(0, 0), (1, 0), (0, 1)] [(0, 1), (1, 2), (2, 0)] = Some ([(0, 0), (1, 0), (0, 1)], [(0, 1, 2)])"
    by (simp add: one_triangle_def)
  from extruded_mesh_ok [OF s convert_corner_loop this] have "mesh_ok 24 s" by simp
  with s show ?thesis by blast
qed

end
