(* ===== verification/Manager_Facts.thy ===== *)
theory Manager_Facts
  imports Mesh_Manager Polyline_Facts
begin

section \<open>What the registry keeps\<close>

text \<open>
  Every registered mesh is alive and registered once, so that the manager frees each mesh once; a
  loaded file is not loaded again; the shapes of the constructor are well formed; merging keeps the
  corners of all triangles.
\<close>

subsection \<open>The registry\<close>

definition mm_wf :: "MeshManager \<Rightarrow> bool" where
  "mm_wf mm \<longleftrightarrow> distinct (map fst (meshes mm)) \<and> distinct (map snd (meshes mm)) \<and>
     (\<forall>p \<in> snd ` set (meshes mm). mesh_heap mm p \<noteq> None) \<and> (\<forall>p. mesh_heap mm p \<noteq> None \<longrightarrow> p < next_mesh mm)"

lemma set_update_values: "snd ` set (AList.update k v al) \<subseteq> insert v (snd ` set al)"
  by (induction al) auto

lemma distinct_update_values:
  "distinct (map snd al) \<Longrightarrow> v \<notin> snd ` set al \<Longrightarrow> distinct (map snd (AList.update k v al))"
proof (induction al)
  case (Cons x al)
  then show ?case using set_update_values [of k v al] by (cases x) auto
qed simp

lemma mm_wf_new_mesh: "mm_wf mm \<Longrightarrow> new_mesh m mm = (p, mm1) \<Longrightarrow> mm_wf mm1 \<and> p \<notin> snd ` set (meshes mm1) \<and>
    mesh_heap mm1 p = Some m \<and> meshes mm1 = meshes mm"
  by (fastforce simp: mm_wf_def new_mesh_def)

lemma mm_wf_insert:
  "mm_wf mm \<Longrightarrow> p \<notin> snd ` set (meshes mm) \<Longrightarrow> mesh_heap mm p \<noteq> None \<Longrightarrow> mm_wf (insert_mesh n p mm)"
  by (auto simp: mm_wf_def insert_mesh_def map_of_eq_None_iff)

lemma mm_wfI:
  "distinct (map fst (meshes mm)) \<Longrightarrow> distinct (map snd (meshes mm)) \<Longrightarrow>
   (\<And>p. p \<in> snd ` set (meshes mm) \<Longrightarrow> mesh_heap mm p \<noteq> None) \<Longrightarrow>
   (\<And>p. mesh_heap mm p \<noteq> None \<Longrightarrow> p < next_mesh mm) \<Longrightarrow> mm_wf mm"
  by (simp add: mm_wf_def)

lemma mm_wf_set:
  assumes "mm_wf mm" and "p \<notin> snd ` set (meshes mm)" and "mesh_heap mm p \<noteq> None"
  shows "mm_wf (set_mesh n p mm)"
proof (rule mm_wfI)
  have w: "distinct (map fst (meshes mm))" "distinct (map snd (meshes mm))"
    using assms(1) by (simp_all add: mm_wf_def)
  show "distinct (map fst (meshes (set_mesh n p mm)))" using w(1) by (simp add: set_mesh_def distinct_update)
  show "distinct (map snd (meshes (set_mesh n p mm)))"
    using distinct_update_values [OF w(2) assms(2)] by (simp add: set_mesh_def)
  show "mesh_heap (set_mesh n p mm) q \<noteq> None" if "q \<in> snd ` set (meshes (set_mesh n p mm))" for q
  proof -
    have "q = p \<or> q \<in> snd ` set (meshes mm)"
      using that set_update_values [of n p "meshes mm"] unfolding set_mesh_def by auto
    then show ?thesis using assms(1,3) by (auto simp: mm_wf_def set_mesh_def)
  qed
  show "q < next_mesh (set_mesh n p mm)" if "mesh_heap (set_mesh n p mm) q \<noteq> None" for q
    using that assms(1) by (simp add: mm_wf_def set_mesh_def)
qed

lemma mm_wf_register:
  assumes "mm_wf mm"
  shows "mm_wf (register n m mm)"
proof -
  obtain p mm1 where n: "new_mesh m mm = (p, mm1)" by fastforce
  from mm_wf_new_mesh [OF assms n] have "mm_wf (insert_mesh n p mm1)" by (metis mm_wf_insert option.distinct(1))
  then show ?thesis by (simp add: register_def n)
qed

lemma mm_wf_write: "mm_wf mm \<Longrightarrow> mesh_heap mm p \<noteq> None \<Longrightarrow> mm_wf (mm \<lparr> mesh_heap := (mesh_heap mm)(p \<mapsto> m) \<rparr>)"
  by (auto simp: mm_wf_def)

lemma mm_wf_flags [simp]:
  "mm_wf (mm \<lparr> fileExtensions := e \<rparr>) = mm_wf mm" "mm_wf (mm \<lparr> forceAssimp := b \<rparr>) = mm_wf mm"
  by (simp_all add: mm_wf_def)

lemma mm_wf_create:
  assumes "mm_wf mm"
  shows "mm_wf (CreateSphere C M n r k l mm)" "mm_wf (CreateBox n v uv mm)" "mm_wf (CreateEllipsoid C M n v a b mm)"
    "mm_wf (CreateCapsule C M n r h a b mm)" "mm_wf (CreateCylinder C M n r h k l mm)"
  using assms by (simp_all add: CreateSphere_def CreateBox_def CreateEllipsoid_def CreateCapsule_def CreateCylinder_def
      mm_wf_register)

lemma mm_wf_map_register:
  "mm_wf mm \<Longrightarrow> map_option (\<lambda>x. register n (g x) mm) r = Some mm' \<Longrightarrow> mm_wf mm'"
  by (auto simp: mm_wf_register)

lemma mm_wf_create_option:
  assumes "mm_wf mm"
  shows "CreatePlane M A n v d sz sg uv mm = Some mm' \<Longrightarrow> mm_wf mm'"
    and "CreateCamera M n x mm = Some mm' \<Longrightarrow> mm_wf mm'" and "CreateCone C M n r h k l mm = Some mm' \<Longrightarrow> mm_wf mm'"
    and "CreateTube C M n r1 r2 h k l arc mm = Some mm' \<Longrightarrow> mm_wf mm'"
  using mm_wf_register [OF assms] assms
  by (auto simp: CreatePlane_def CreateCamera_def CreateCone_def CreateTube_def split: if_split_asm)

lemma mm_wf_planed: "mm_wf mm \<Longrightarrow> CreatePlane_planed M A n pl sg uv mm = Some mm' \<Longrightarrow> mm_wf mm'"
  by (cases pl) (simp add: CreatePlane_planed_def mm_wf_create_option(1))

lemma mm_wf_polyline: "mm_wf mm \<Longrightarrow> CreateExtrudedPolyline M P cdt n polys h mm = Some mm' \<Longrightarrow> mm_wf mm'"
  unfolding CreateExtrudedPolyline_def Option.bind_eq_Some_conv
  by (elim exE conjE) (auto simp: mm_wf_register Option.bind_eq_Some_conv split: if_splits option.splits)

lemma mm_wf_MeshManager_new:
  assumes "MeshManager_new C M A = Some mm"
  shows "mm_wf mm"
proof -
  have e: "mm_wf MeshManager_empty" by (simp add: mm_wf_def MeshManager_empty_def)
  show ?thesis using assms unfolding MeshManager_new_def Let_def Option.bind_eq_Some_conv
  proof (elim exE conjE, goal_cases)
    case (1 m1 m2 m3 m4 m5)
    have w1: "mm_wf m1" by (rule mm_wf_planed [OF e 1(1)])
    have w2: "mm_wf m2" by (rule mm_wf_create_option(3) [OF _ 1(2)]) (intro mm_wf_create w1)
    have w3: "mm_wf m3" by (rule mm_wf_create_option(2) [OF w2 1(3)])
    have w4: "mm_wf m4" by (rule mm_wf_create_option(3) [OF _ 1(4)]) (intro mm_wf_create w3)
    from mm_wf_create_option(4) [OF w4 1(5)] 1(6) show ?case by (metis mm_wf_flags(1) option.inject)
  qed
qed

lemma mm_wf_Load:
  assumes w: "mm_wf mm" and l: "Load L F E f mm = (r, mm')"
  shows "mm_wf mm'"
proof -
  have w1: "mm_wf (SetAssimpEnvs E mm)" using w by (simp add: SetAssimpEnvs_def Let_def)
  then have "mm_wf (snd (let (p, mm) = new_mesh m (SetAssimpEnvs E mm) in (Some p, insert_mesh f p mm)))" for m
    using mm_wf_register [of "SetAssimpEnvs E mm" f m] by (simp add: register_def split: prod.splits)
  then have "mm_wf (snd (Load L F E f mm))"
    using w w1 unfolding Load_def Let_def by (simp split: option.split)
  then show ?thesis using l by simp
qed

text \<open>Freeing distinct meshes that are alive.\<close>

lemma delete_meshes_run:
  "distinct ps \<Longrightarrow> \<forall>p \<in> set ps. mesh_heap mm p \<noteq> None \<Longrightarrow>
     delete_meshes ps mm = Some (mm \<lparr> mesh_heap := (\<lambda>p. if p \<in> set ps then None else mesh_heap mm p) \<rparr>)"
proof (induction ps arbitrary: mm)
  case (Cons p ps)
  obtain m where m: "mesh_heap mm p = Some m" using Cons.prems(2) by auto
  let ?mm = "mm \<lparr> mesh_heap := (mesh_heap mm)(p := None) \<rparr>"
  have "delete_meshes ps ?mm = Some (?mm \<lparr> mesh_heap := (\<lambda>q. if q \<in> set ps then None else mesh_heap ?mm q) \<rparr>)"
    using Cons.prems by (intro Cons.IH) auto
  moreover have "(\<lambda>q. if q \<in> set ps then None else mesh_heap ?mm q) = (\<lambda>q. if q \<in> set (p # ps) then None else mesh_heap mm q)"
    by auto
  ultimately show ?case by (simp add: delete_mesh_def m)
qed simp

lemma mm_wf_RemoveAll:
  assumes "mm_wf mm"
  shows "RemoveAll mm = Some (mm \<lparr> meshes := [],
      mesh_heap := (\<lambda>p. if p \<in> snd ` set (meshes mm) then None else mesh_heap mm p) \<rparr>)"
  using assms delete_meshes_run [of "map snd (meshes mm)" mm] by (simp add: RemoveAll_def mm_wf_def)

lemma delete_values:
  "distinct (map snd al) \<Longrightarrow> map_of al n = Some p \<Longrightarrow> distinct (map snd (AList.delete n al)) \<and>
     p \<notin> snd ` set (AList.delete n al) \<and> snd ` set (AList.delete n al) \<subseteq> snd ` set al"
proof (induction al)
  case (Cons x al)
  have sub: "snd ` set (AList.delete k al) \<subseteq> snd ` set al" for k by (auto simp: AList.delete_eq)
  show ?case
  proof (cases "fst x = n")
    case True
    then have "p = snd x" using Cons.prems(2) by (cases x) auto
    moreover have "distinct (map snd (AList.delete n al))"
      using Cons.prems(1) by (simp add: AList.delete_eq distinct_map_filter)
    ultimately show ?thesis using True Cons.prems(1) sub [of n] by (auto simp: AList.delete_eq)
  next
    case False
    then have "map_of al n = Some p" using Cons.prems(2) by (cases x) auto
    moreover have "p \<in> snd ` set al" using map_of_SomeD [OF \<open>map_of al n = Some p\<close>] by (rule image_eqI [rotated]) simp
    then have "p \<noteq> snd x" using Cons.prems(1) by (metis distinct.simps(2) list.set_map list.simps(9))
    ultimately show ?thesis using False Cons sub [of n] by (cases x) auto
  qed
qed simp

lemma mm_wf_RemoveMesh:
  assumes "mm_wf mm" and "RemoveMesh n mm = Some (b, mm')"
  shows "mm_wf mm'"
proof (cases "map_of (meshes mm) n")
  case (Some p)
  have "distinct (map snd (meshes mm))" "distinct (map fst (meshes mm))" using assms(1) by (simp_all add: mm_wf_def)
  note d = delete_values [OF this(1) Some] this(2)
  obtain m where "mesh_heap mm p = Some m" using assms(1) Some by (force simp: mm_wf_def dest: map_of_SomeD)
  then have mm': "mm' = mm \<lparr> mesh_heap := (mesh_heap mm)(p := None), meshes := AList.delete n (meshes mm) \<rparr>"
    using assms(2) Some by (simp add: RemoveMesh_def delete_mesh_def)
  show ?thesis
  proof (rule mm_wfI)
    show "mesh_heap mm' q \<noteq> None" if "q \<in> snd ` set (meshes mm')" for q
    proof -
      have "q \<in> snd ` set (AList.delete n (meshes mm))" using that by (simp add: mm')
      then have "q \<in> snd ` set (meshes mm)" "q \<noteq> p" using d(1) by blast+
      then show ?thesis using assms(1) by (auto simp: mm' mm_wf_def)
    qed
  qed (use d assms(1) in \<open>auto simp: mm' mm_wf_def distinct_delete split: if_splits\<close>)
qed (use assms in \<open>simp add: RemoveMesh_def\<close>)

text \<open>The moves of a program that uses the manager: its operations, new meshes of the program's own,
  changes of a mesh through its pointer (a new name included), and the destruction of a mesh that
  is not registered.\<close>

inductive mm_step :: "'m gz_affine \<Rightarrow> MeshManager \<Rightarrow> MeshManager \<Rightarrow> bool" for A where
  sphere: "mm_step A mm (CreateSphere C M n r k l mm)"
| box: "mm_step A mm (CreateBox n v uv mm)"
| ellipsoid: "mm_step A mm (CreateEllipsoid C M n v a b mm)"
| capsule: "mm_step A mm (CreateCapsule C M n r h a b mm)"
| cylinder: "mm_step A mm (CreateCylinder C M n r h k l mm)"
| plane: "CreatePlane M A n v d sz sg uv mm = Some mm' \<Longrightarrow> mm_step A mm mm'"
| planed: "CreatePlane_planed M A n pl sg uv mm = Some mm' \<Longrightarrow> mm_step A mm mm'"
| polyline: "CreateExtrudedPolyline M P cdt n polys h mm = Some mm' \<Longrightarrow> mm_step A mm mm'"
| camera: "CreateCamera M n x mm = Some mm' \<Longrightarrow> mm_step A mm mm'"
| cone: "CreateCone C M n r h k l mm = Some mm' \<Longrightarrow> mm_step A mm mm'"
| tube: "CreateTube C M n r1 r2 h k l arc mm = Some mm' \<Longrightarrow> mm_step A mm mm'"
| load: "Load L F E f mm = (res, mm') \<Longrightarrow> mm_step A mm mm'"
| create: "CreateMesh n mm = (res, mm') \<Longrightarrow> mm_step A mm mm'"
| add: "p \<notin> snd ` set (meshes mm) \<Longrightarrow> AddMesh p mm = Some mm' \<Longrightarrow> mm_step A mm mm'"
| remove: "RemoveMesh n mm = Some (b, mm') \<Longrightarrow> mm_step A mm mm'"
| remove_all: "RemoveAll mm = Some mm' \<Longrightarrow> mm_step A mm mm'"
| texcoord: "Manager_GenSphericalTexCoord p c mm = Some mm' \<Longrightarrow> mm_step A mm mm'"
| user_new: "new_mesh m mm = (p, mm') \<Longrightarrow> mm_step A mm mm'"
| user_write: "mesh_heap mm p \<noteq> None \<Longrightarrow> mm_step A mm (mm \<lparr> mesh_heap := (mesh_heap mm)(p \<mapsto> m) \<rparr>)"
| user_delete: "p \<notin> snd ` set (meshes mm) \<Longrightarrow> delete_mesh p mm = Some mm' \<Longrightarrow> mm_step A mm mm'"

inductive mm_reach :: "'m gz_affine \<Rightarrow> MeshManager \<Rightarrow> bool" for A where
  start: "MeshManager_new C M A = Some mm \<Longrightarrow> mm_reach A mm"
| step: "mm_reach A mm \<Longrightarrow> mm_step A mm mm' \<Longrightarrow> mm_reach A mm'"

lemma mm_wf_CreateMesh:
  assumes "mm_wf mm" and "CreateMesh n mm = (res, mm')"
  shows "mm_wf mm'"
proof (cases "n = [] \<or> HasMesh n mm")
  case False
  obtain p mm1 where n: "new_mesh (Mesh_SetName n Mesh_new) mm = (p, mm1)" by fastforce
  from mm_wf_new_mesh [OF assms(1) n] have "mm_wf (set_mesh n p mm1)" by (metis mm_wf_set option.distinct(1))
  then show ?thesis using assms(2) False n by (simp add: CreateMesh_def)
qed (use assms in \<open>auto simp: CreateMesh_def split: if_split_asm\<close>)

lemma mm_wf_delete_unregistered:
  assumes "mm_wf mm" and "p \<notin> snd ` set (meshes mm)" and "delete_mesh p mm = Some mm'"
  shows "mm_wf mm'"
proof (rule mm_wfI)
  have mm': "mm' = mm \<lparr> mesh_heap := (mesh_heap mm)(p := None) \<rparr>"
    using assms(3) by (auto simp: delete_mesh_def split: option.split_asm)
  show "distinct (map fst (meshes mm'))" "distinct (map snd (meshes mm'))"
    using assms(1) by (simp_all add: mm' mm_wf_def)
  show "mesh_heap mm' q \<noteq> None" if "q \<in> snd ` set (meshes mm')" for q
  proof -
    have "q \<in> snd ` set (meshes mm)" using that by (simp add: mm')
    then have "mesh_heap mm q \<noteq> None" "q \<noteq> p" using assms(1,2) unfolding mm_wf_def by blast+
    then show ?thesis by (simp add: mm')
  qed
  show "q < next_mesh mm'" if "mesh_heap mm' q \<noteq> None" for q
    using that assms(1) by (auto simp: mm' mm_wf_def split: if_split_asm)
qed

lemma mm_wf_texcoord: "mm_wf mm \<Longrightarrow> Manager_GenSphericalTexCoord p c mm = Some mm' \<Longrightarrow> mm_wf mm'"
  by (auto simp: Manager_GenSphericalTexCoord_def Option.bind_eq_Some_conv mm_wf_write split: if_splits)

lemma mm_wf_AddMesh: "mm_wf mm \<Longrightarrow> p \<notin> snd ` set (meshes mm) \<Longrightarrow> AddMesh p mm = Some mm' \<Longrightarrow> mm_wf mm'"
  by (auto simp: AddMesh_def mm_wf_set split: option.splits if_splits)

lemma mm_step_wf: "mm_step A mm mm' \<Longrightarrow> mm_wf mm \<Longrightarrow> mm_wf mm'"
proof (induction rule: mm_step.induct)
  case (remove_all mm mm')
  then show ?case by (auto simp: mm_wf_RemoveAll) (auto simp: mm_wf_def)
next
  case (user_new m mm p mm')
  then show ?case using mm_wf_new_mesh by blast
qed (blast intro: mm_wf_create mm_wf_create_option mm_wf_planed mm_wf_polyline mm_wf_Load mm_wf_CreateMesh mm_wf_AddMesh
    mm_wf_RemoveMesh mm_wf_texcoord mm_wf_write mm_wf_delete_unregistered)+

lemma mm_reach_wf: "mm_reach A mm \<Longrightarrow> mm_wf mm"
  by (induction rule: mm_reach.induct) (blast intro: mm_wf_MeshManager_new mm_step_wf)+

text \<open>
  C11. A program uses the manager by its operations, makes meshes of its own, changes any mesh through its
  pointer (its name included), deletes only meshes that are not registered, and never adds a mesh that is registered
  already. After any sequence of such moves no name and no mesh is registered twice, and the
  destructor and \<open>RemoveAll\<close> free every registered mesh exactly once, no other mesh, and leave no entry
  behind. (A mesh added again under a new name is registered twice: \<open>AddMesh_renamed\<close>.)
\<close>

theorem registry_frees_once:
  assumes "mm_reach A mm"
  shows "distinct (map fst (meshes mm)) \<and> distinct (map snd (meshes mm)) \<and>
     (\<exists>mm'. MeshManager_destroy mm = Some mm' \<and> RemoveAll mm = Some mm' \<and> meshes mm' = [] \<and>
        (\<forall>p. mesh_heap mm' p = (if p \<in> snd ` set (meshes mm) then None else mesh_heap mm p)))"
proof -
  have w: "mm_wf mm" using assms by (rule mm_reach_wf)
  have "MeshManager_destroy mm = RemoveAll mm" by (simp add: MeshManager_destroy_def RemoveAll_def)
  with mm_wf_RemoveAll [OF w] w show ?thesis by (simp add: mm_wf_def)
qed

subsection \<open>Files are loaded once\<close>

lemma HasMesh_flags [simp]: "HasMesh f (SetAssimpEnvs E mm) = HasMesh f mm" "meshes (SetAssimpEnvs E mm) = meshes mm"
  "fileExtensions (SetAssimpEnvs E mm) = fileExtensions mm"
  by (simp_all add: HasMesh_def SetAssimpEnvs_def Let_def)

lemma Load_unknown:
  assumes "IsValidFilename f mm" and "\<not> HasMesh f mm"
  shows "Load L F E f mm =
    (if F f = [] then (None, mm)
     else case choose_loader L (forceAssimp (SetAssimpEnvs E mm)) (file_extension (F f)) of
            None \<Rightarrow> (None, SetAssimpEnvs E mm)
          | Some loader \<Rightarrow>
              (case loader (F f) of
                 None \<Rightarrow> (None, SetAssimpEnvs E mm)
               | Some m \<Rightarrow> (Some (next_mesh (SetAssimpEnvs E mm)),
                   insert_mesh f (next_mesh (SetAssimpEnvs E mm)) (snd (new_mesh (Mesh_SetName f m) (SetAssimpEnvs E mm))))))"
  using assms by (simp add: Load_def Let_def new_mesh_def split: option.split)

lemma Load_case:
  assumes "Load L F E f mm = (r, mm')"
  shows "case r of
      None \<Rightarrow> meshes mm' = meshes mm
    | Some p \<Rightarrow> MeshByName f mm' = Some p \<and> Load L' F' E' f mm' = (Some p, mm') \<and>
        (if HasMesh f mm then mm' = mm else mesh_heap mm' p \<noteq> None \<and> Mesh_Name (the (mesh_heap mm' p)) = f)"
proof (cases "IsValidFilename f mm")
  case False
  then show ?thesis using assms by (auto simp: Load_def)
next
  case valid: True
  then have ne: "f \<noteq> []" by (auto simp: IsValidFilename_def file_extension_def find_last_of_def)
  show ?thesis
  proof (cases "HasMesh f mm")
    case True
    then have l: "Load L F E f mm = (map_of (meshes mm) f, mm)" for L F E using valid by (simp add: Load_def)
    obtain p where "map_of (meshes mm) f = Some p" using True by (auto simp: HasMesh_def)
    then show ?thesis using assms l True by (auto simp: MeshByName_def split: option.split)
  next
    case False
    have valid': "IsValidFilename f mm'" if "fileExtensions mm' = fileExtensions mm" for mm'
      using valid that by (simp add: IsValidFilename_def split: if_splits)
    show ?thesis
    proof (cases r)
      case None
      then show ?thesis using assms unfolding Load_unknown [OF valid False]
        by (simp split: if_split_asm option.split_asm) (metis HasMesh_flags(2))+
    next
      case (Some p)
      with assms have "Load L F E f mm = (Some p, mm')" by simp
      then have "\<exists>m. mm' = insert_mesh f p (snd (new_mesh (Mesh_SetName f m) (SetAssimpEnvs E mm))) \<and>
          p = next_mesh (SetAssimpEnvs E mm)"
        unfolding Load_unknown [OF valid False] by (auto split: if_split_asm option.split_asm)
      then obtain m where mm': "mm' = insert_mesh f p (snd (new_mesh (Mesh_SetName f m) (SetAssimpEnvs E mm)))"
        and p: "p = next_mesh (SetAssimpEnvs E mm)" by blast
      have free: "map_of (meshes mm) f = None" using False ne by (simp add: HasMesh_def)
      have m': "meshes mm' = (f, p) # meshes mm" "mesh_heap mm' p = Some (Mesh_SetName f m)"
        "fileExtensions mm' = fileExtensions mm"
        using free by (simp_all add: mm' p insert_mesh_def new_mesh_def)
      then have "HasMesh f mm'" using ne by (simp add: HasMesh_def)
      with valid' [OF m'(3)] m' have "Load L' F' E' f mm' = (Some p, mm')" by (simp add: Load_def)
      with m' Some False show ?thesis by (simp add: MeshByName_def Mesh_Name_def Mesh_SetName_def)
    qed
  qed
qed

text \<open>
  \<open>Load\<close> keeps what it loaded: after it has returned a mesh for a file name, the mesh is
  registered under that name (a mesh it read itself also carries the name), and loading the name
  again gives the same mesh and changes nothing, whatever the loaders, the file search and the
  environment answer by then. A name the manager had is answered without any of them, and a load
  that fails registers nothing.
\<close>

theorem Load_cached:
  "case Load L F E f mm of
     (None, mm') \<Rightarrow> meshes mm' = meshes mm
   | (Some p, mm') \<Rightarrow> MeshByName f mm' = Some p \<and> Load L' F' E' f mm' = (Some p, mm') \<and>
       (if HasMesh f mm then mm' = mm else mesh_heap mm' p \<noteq> None \<and> Mesh_Name (the (mesh_heap mm' p)) = f)"
proof (cases "Load L F E f mm")
  case (Pair r mm')
  then show ?thesis using Load_case [OF Pair, of L' F' E'] by (simp split: option.split)
qed

subsection \<open>The shapes of the constructor\<close>

text \<open>A well-formed mesh of one sub-mesh under its own name.\<close>

definition good_shape :: "string \<Rightarrow> Mesh \<Rightarrow> bool" where
  "good_shape n m \<longleftrightarrow> Mesh_Name m = n \<and> (\<exists>s k. submeshes m = [s] \<and> mesh_ok k s)"

definition shelf :: "string list \<Rightarrow> MeshManager \<Rightarrow> bool" where
  "shelf ns mm \<longleftrightarrow> map fst (meshes mm) = ns \<and>
     (\<forall>(n, p) \<in> set (meshes mm). p < next_mesh mm \<and> (\<exists>m. mesh_heap mm p = Some m \<and> good_shape n m))"

lemma shelf_register:
  assumes "shelf ns mm" and "n \<notin> set ns" and "good_shape n m"
  shows "shelf (n # ns) (register n m mm)"
proof -
  have "map_of (meshes mm) n = None" using assms(1,2) unfolding shelf_def by (metis map_of_eq_None_iff set_map)
  then have "meshes (register n m mm) = (n, next_mesh mm) # meshes mm"
    "mesh_heap (register n m mm) = (mesh_heap mm)(next_mesh mm \<mapsto> m)" "next_mesh (register n m mm) = next_mesh mm + 1"
    by (simp_all add: register_def new_mesh_def insert_mesh_def)
  then show ?thesis using assms by (fastforce simp: shelf_def)
qed

lemma shelf_lookup:
  assumes "shelf ns mm" and "n \<in> set ns"
  shows "\<exists>p m. map_of (meshes mm) n = Some p \<and> mesh_heap mm p = Some m \<and> good_shape n m"
proof -
  have "map_of (meshes mm) n \<noteq> None" using assms unfolding shelf_def by (metis map_of_eq_None_iff set_map)
  then obtain p where p: "map_of (meshes mm) n = Some p" by blast
  then have "(n, p) \<in> set (meshes mm)" by (rule map_of_SomeD)
  with assms(1) p show ?thesis by (auto simp: shelf_def)
qed

lemma shelf_no_mesh: "shelf ns mm \<Longrightarrow> n \<notin> set ns \<Longrightarrow> \<not> HasMesh n mm"
  unfolding shelf_def HasMesh_def by (metis map_of_eq_None_iff set_map)

lemma good_one_submesh: "mesh_ok k s \<Longrightarrow> good_shape n (one_submesh n s)"
  by (auto simp: good_shape_def one_submesh_def AddSubMesh_def Mesh_Name_def Mesh_SetName_def Mesh_new_def)

lemma good_recalculated:
  assumes "mesh_ok k s"
  shows "\<exists>m. Mesh_RecalculateNormals M (one_submesh n s) = Some m \<and> good_shape n m"
proof -
  obtain ns where ns: "RecalculateNormals M s = Some (s \<lparr> normals := ns \<rparr>)"
    and l: "length (normals s) = length (vertices s) \<longrightarrow> length ns = length (vertices s)"
    using RecalculateNormals_total by blast
  have "mesh_ok k (s \<lparr> normals := ns \<rparr>)" using assms l by (auto simp: mesh_ok_def HasValidIndices_def)
  moreover have "submeshes (one_submesh n s) = [s]" "mesh_name (one_submesh n s) = n"
    by (simp_all add: one_submesh_def AddSubMesh_def Mesh_SetName_def Mesh_new_def)
  ultimately show ?thesis
    by (auto simp: Mesh_RecalculateNormals_def ns good_shape_def Mesh_Name_def)
qed

lemma shelf_map_register:
  assumes "shelf ns mm" and "n \<notin> set ns" and "\<exists>x. r = Some x \<and> good_shape n (g x)"
  shows "\<exists>mm'. map_option (\<lambda>x. register n (g x) mm) r = Some mm' \<and> shelf (n # ns) mm'"
  using assms shelf_register by auto

lemma camera_mesh_wf: "mesh_ok 24 (camera_mesh scl)"
proof -
  have "fold (\<lambda>i s. AddNormal (ns ! i) (AddVertex (v ! i) s)) is (shape a b [] c) =
      shape (a @ map ((!) v) is) (b @ map ((!) ns) is) [] c" for ns v "is" a b c
    by (induction "is" arbitrary: a b) (simp_all add: shape_ops)
  moreover have "fold (fold f) xss s = fold f (concat xss) s" for f :: "nat \<Rightarrow> SubMesh \<Rightarrow> SubMesh" and xss s
    by (induction xss arbitrary: s) simp_all
  ultimately have "camera_mesh scl = shape (map ((!) (map (half_sides (vec3 scl scl scl)) cube_corners)) (concat cube_faces))
      (map ((!) camera_normals) (concat cube_faces)) [] cube_indices"
    by (simp add: camera_mesh_def shape_default Let_def)
  moreover have "length (concat cube_faces) = 24" by (simp add: cube_faces_def)
  ultimately show ?thesis by (simp only:) (rule mesh_ok_shape; simp add: cube_indices_def)
qed

lemma shelf_create:
  assumes "shelf ns mm" and "n \<notin> set ns"
  shows "1 \<le> k \<Longrightarrow> 1 \<le> l \<Longrightarrow> shelf (n # ns) (CreateSphere C M n r k l mm)"
    and "shelf (n # ns) (CreateBox n v uv mm)"
    and "1 \<le> k \<Longrightarrow> 1 \<le> l \<Longrightarrow> shelf (n # ns) (CreateCylinder C M n r h k l mm)"
    and "1 \<le> k \<Longrightarrow> \<exists>mm'. CreateCone C M n r h k l mm = Some mm' \<and> shelf (n # ns) mm'"
    and "\<exists>mm'. CreateCamera M n x mm = Some mm' \<and> shelf (n # ns) mm'"
    and "\<exists>mm'. CreateTube C M n r1 r2 h k l arc mm = Some mm' \<and> shelf (n # ns) mm'"
    and "1 \<le> a \<Longrightarrow> 1 \<le> b \<Longrightarrow> \<forall>t u v w z. TransformAffine A (mul_a A (of_translation A t) (of_axes A u v w)) z \<noteq> None \<Longrightarrow>
      \<exists>mm'. CreatePlane M A n v d sz (of_int a, of_int b) uv mm = Some mm' \<and> shelf (n # ns) mm'"
proof -
  note no = shelf_no_mesh [OF assms] and reg = shelf_register [OF assms] and mreg = shelf_map_register [OF assms]
  show "1 \<le> k \<Longrightarrow> 1 \<le> l \<Longrightarrow> shelf (n # ns) (CreateSphere C M n r k l mm)"
    using no by (simp add: CreateSphere_def) (rule reg, rule good_one_submesh, rule sphere_mesh_wf; simp)
  show "shelf (n # ns) (CreateBox n v uv mm)"
    using no reg [OF good_one_submesh [OF box_mesh_wf]] by (simp add: CreateBox_def)
  show "1 \<le> k \<Longrightarrow> 1 \<le> l \<Longrightarrow> shelf (n # ns) (CreateCylinder C M n r h k l mm)"
    using no by (simp add: CreateCylinder_def) (rule reg, rule good_one_submesh, rule cylinder_mesh_ok; simp)
  show "1 \<le> k \<Longrightarrow> \<exists>mm'. CreateCone C M n r h k l mm = Some mm' \<and> shelf (n # ns) mm'"
    using no unfolding CreateCone_def by (simp only: if_False) (rule mreg, rule good_recalculated, rule cone_mesh_rings; simp)
  show "\<exists>mm'. CreateCamera M n x mm = Some mm' \<and> shelf (n # ns) mm'"
    using no mreg [OF good_recalculated [OF camera_mesh_wf]] by (simp add: CreateCamera_def)
  show "\<exists>mm'. CreateTube C M n r1 r2 h k l arc mm = Some mm' \<and> shelf (n # ns) mm'"
    using no mreg [OF good_recalculated [OF tube_mesh_ok]] by (simp add: CreateTube_def)
  assume "1 \<le> a" "1 \<le> b" "\<forall>t u v w z. TransformAffine A (mul_a A (of_translation A t) (of_axes A u v w)) z \<noteq> None"
  from plane_mesh_ok [OF this, of M v d sz uv] good_one_submesh
  have "\<exists>x. plane_mesh M A v d sz (of_int a, of_int b) uv = Some x \<and> good_shape n (one_submesh n x)" by blast
  from mreg [OF this] show "\<exists>mm'. CreatePlane M A n v d sz (of_int a, of_int b) uv mm = Some mm' \<and> shelf (n # ns) mm'"
    using no by (simp add: CreatePlane_def)
qed

lemma MeshManager_new_shelf:
  assumes "\<forall>t u v w z. TransformAffine A (mul_a A (of_translation A t) (of_axes A u v w)) z \<noteq> None"
  shows "\<exists>mm. MeshManager_new C M A = Some mm \<and>
     shelf [''selection_tube'', ''axis_head'', ''axis_shaft'', ''unit_camera'', ''unit_cone'', ''unit_cylinder'',
       ''unit_box'', ''body_cg'', ''joint_anchor'', ''unit_sphere'', ''unit_plane''] mm"
proof -
  have "shelf [] MeshManager_empty" by (simp add: shelf_def MeshManager_empty_def)
  from shelf_create(7) [OF this _ _ _ assms, of "''unit_plane''" 1 1 M "vec3 0 0 1" 0 "(1, 1)" "(1, 1)"]
  obtain m1 where m1: "CreatePlane_planed M A ''unit_plane'' (vec3 0 0 1, (1, 1), 0) (1, 1) (1, 1) MeshManager_empty = Some m1"
    and s1: "shelf [''unit_plane''] m1" by (auto simp: CreatePlane_planed_def)
  define m2 where "m2 = CreateBox ''unit_box'' (vec3 1 1 1) (1, 1)
      (CreateBox ''body_cg'' (vec3 (14 / 1000) (14 / 1000) (14 / 1000)) (14 / 1000, 14 / 1000)
        (CreateSphere C M ''joint_anchor'' (1 / 100) 32 32 (CreateSphere C M ''unit_sphere'' (1 / 2) 32 32 m1)))"
  have s2: "shelf [''unit_box'', ''body_cg'', ''joint_anchor'', ''unit_sphere'', ''unit_plane''] m2"
    unfolding m2_def by (intro shelf_create s1) simp_all
  define m3 where "m3 = CreateCylinder C M ''unit_cylinder'' (1 / 2) 1 1 32 m2"
  have "shelf [''unit_cylinder'', ''unit_box'', ''body_cg'', ''joint_anchor'', ''unit_sphere'', ''unit_plane''] m3"
    unfolding m3_def by (intro shelf_create s2) simp_all
  from shelf_create(4) [OF this, of "''unit_cone''" 5 C M "1 / 2" 1 32] obtain m4 where
    m4: "CreateCone C M ''unit_cone'' (1 / 2) 1 5 32 m3 = Some m4" and
    s4: "shelf [''unit_cone'', ''unit_cylinder'', ''unit_box'', ''body_cg'', ''joint_anchor'', ''unit_sphere'', ''unit_plane''] m4"
    by auto
  from shelf_create(5) [OF s4, of "''unit_camera''" M "1 / 2"] obtain m5 where
    m5: "CreateCamera M ''unit_camera'' (1 / 2) m4 = Some m5" and
    s5: "shelf [''unit_camera'', ''unit_cone'', ''unit_cylinder'', ''unit_box'', ''body_cg'', ''joint_anchor'', ''unit_sphere'',
      ''unit_plane''] m5" by auto
  define m6 where "m6 = CreateCylinder C M ''axis_shaft'' (1 / 100) (2 / 10) 1 16 m5"
  have "shelf [''axis_shaft'', ''unit_camera'', ''unit_cone'', ''unit_cylinder'', ''unit_box'', ''body_cg'', ''joint_anchor'',
      ''unit_sphere'', ''unit_plane''] m6"
    unfolding m6_def by (intro shelf_create s5) simp_all
  from shelf_create(4) [OF this, of "''axis_head''" 1 C M "2 / 100" "8 / 100" 16] obtain m7 where
    m7: "CreateCone C M ''axis_head'' (2 / 100) (8 / 100) 1 16 m6 = Some m7" and
    s7: "shelf [''axis_head'', ''axis_shaft'', ''unit_camera'', ''unit_cone'', ''unit_cylinder'', ''unit_box'', ''body_cg'',
      ''joint_anchor'', ''unit_sphere'', ''unit_plane''] m7" by auto
  from shelf_create(6) [OF s7, of "''selection_tube''" C M 1 "12 / 10" "1 / 100" 1 64 "2 * GZ_PI C"] obtain m8 where
    m8: "CreateTube C M ''selection_tube'' 1 (12 / 10) (1 / 100) 1 64 (2 * GZ_PI C) m7 = Some m8" and
    s8: "shelf [''selection_tube'', ''axis_head'', ''axis_shaft'', ''unit_camera'', ''unit_cone'', ''unit_cylinder'',
       ''unit_box'', ''body_cg'', ''joint_anchor'', ''unit_sphere'', ''unit_plane''] m8" by auto
  have "MeshManager_new C M A = Some (m8 \<lparr> fileExtensions := [''stl'', ''dae'', ''obj'', ''gltf'', ''glb'', ''fbx''] \<rparr>)"
    unfolding MeshManager_new_def Let_def m1 Option.bind.bind_lunit m2_def [symmetric] m3_def [symmetric] m4
      m5 m6_def [symmetric] m7 m8 by simp
  with s8 show ?thesis by (auto simp: shelf_def)
qed

text \<open>
  The constructor registers its eleven shapes, each one under its own name and well formed: one
  triangle mesh with a normal for every vertex, whose indices name vertices.
\<close>

theorem MeshManager_new_shapes:
  assumes "\<forall>t u v w z. TransformAffine A (mul_a A (of_translation A t) (of_axes A u v w)) z \<noteq> None"
  shows "\<exists>mm. MeshManager_new C M A = Some mm \<and>
     (\<forall>n \<in> {''selection_tube'', ''axis_head'', ''axis_shaft'', ''unit_camera'', ''unit_cone'', ''unit_cylinder'',
       ''unit_box'', ''body_cg'', ''joint_anchor'', ''unit_sphere'', ''unit_plane''}.
       \<exists>p m s k. MeshByName n mm = Some p \<and> mesh_heap mm p = Some m \<and> Mesh_Name m = n \<and> submeshes m = [s] \<and> mesh_ok k s)"
proof -
  from MeshManager_new_shelf [OF assms] obtain mm where mm: "MeshManager_new C M A = Some mm" and
    s: "shelf [''selection_tube'', ''axis_head'', ''axis_shaft'', ''unit_camera'', ''unit_cone'', ''unit_cylinder'',
       ''unit_box'', ''body_cg'', ''joint_anchor'', ''unit_sphere'', ''unit_plane''] mm" by blast
  have all: "\<forall>n \<in> set [''selection_tube'', ''axis_head'', ''axis_shaft'', ''unit_camera'', ''unit_cone'', ''unit_cylinder'',
       ''unit_box'', ''body_cg'', ''joint_anchor'', ''unit_sphere'', ''unit_plane''].
      \<exists>p m s k. MeshByName n mm = Some p \<and> mesh_heap mm p = Some m \<and> Mesh_Name m = n \<and> submeshes m = [s] \<and> mesh_ok k s"
    by (intro ballI) (drule shelf_lookup [OF s], auto simp: MeshByName_def good_shape_def)
  show ?thesis by (rule exI [of _ mm], rule conjI [OF mm all [unfolded list.set]])
qed

theorem registry_frees_once_witness:
  "\<exists>mm mm'. MeshManager_new real_c std_math flat_affine = Some mm \<and>
     MeshManager_destroy (CreateBox [] (vec3 1 1 1) (1, 1) mm) = Some mm' \<and> meshes mm' = []"
proof -
  have "\<forall>t u v w z. TransformAffine flat_affine (mul_a flat_affine (of_translation flat_affine t) (of_axes flat_affine u v w)) z
      \<noteq> None" by (simp add: flat_affine_def)
  from MeshManager_new_shelf [OF this, of real_c std_math] obtain mm where
    mm: "MeshManager_new real_c std_math flat_affine = Some mm" by blast
  then have "mm_reach flat_affine (CreateBox [] (vec3 1 1 1) (1, 1) mm)" by (blast intro: mm_reach.intros mm_step.box)
  from registry_frees_once [OF this] mm show ?thesis by blast
qed

text \<open>Handing over one mesh under two names makes the manager free it twice.\<close>

definition registered_twice :: "MeshManager option" where
  "registered_twice =
     (let (p, m1) = new_mesh (Mesh_SetName ''a'' Mesh_new) MeshManager_empty
      in do { m2 \<leftarrow> AddMesh p m1;
              AddMesh p (m2 \<lparr> mesh_heap := (mesh_heap m2)(p \<mapsto> Mesh_SetName ''b'' Mesh_new) \<rparr>) })"

lemma AddMesh_renamed: "\<exists>mm. registered_twice = Some mm \<and> RemoveAll mm = None"
  by (simp add: registered_twice_def new_mesh_def MeshManager_empty_def AddMesh_def HasMesh_def set_mesh_def Mesh_Name_def
      Mesh_SetName_def Mesh_new_def RemoveAll_def delete_mesh_def)

subsection \<open>Merging sub-meshes\<close>

text \<open>The texture coordinates leave the rest of the sub-mesh alone.\<close>

definition same_shape :: "SubMesh \<Rightarrow> SubMesh \<Rightarrow> bool" where
  "same_shape s t \<longleftrightarrow> vertices t = vertices s \<and> normals t = normals s \<and> indices t = indices s"

lemma same_shape_fold: "(\<And>x s. same_shape s (f x s)) \<Longrightarrow> same_shape s (fold f xs s)"
  by (induction xs arbitrary: s) (fastforce simp: same_shape_def)+

lemma merge_texcoords_same: "same_shape s (merge_texcoords M k t s)"
proof -
  have add: "same_shape s (AddTexCoordBySet_uv uv j s)" for uv j s
    by (simp add: same_shape_def AddTexCoordBySet_uv_def AddTexCoordBySet_def)
  show ?thesis unfolding merge_texcoords_def
    by (rule same_shape_fold) (simp add: same_shape_fold add)
qed

lemma merge_submesh_parts:
  assumes "valid s" and "length (vertices s) < 2 ^ 32" and "length (normals s) < 2 ^ 32" and "length (indices s) < 2 ^ 32"
    and "merge_submesh M k s (t, off) = (t', off')"
  shows "vertices t' = vertices t @ vertices s \<and> normals t' = normals t @ normals s \<and>
    indices t' = indices t @ map (\<lambda>i. i + off) (indices s) \<and> off' = off + VertexCount s"
proof -
  have c: "unat (VertexCount s) = length (vertices s)" "unat (NormalCount s) = length (normals s)"
    "unat (IndexCount s) = length (indices s)"
    using assms(2-4) by (simp_all add: VertexCount_def NormalCount_def IndexCount_def unat_small)
  have v: "fold (\<lambda>j. AddVertex (Vertex M (word_of_nat j) s)) [0..<n] t = t \<lparr> vertices := vertices t @ take n (vertices s) \<rparr>"
    if "n \<le> length (vertices s)" for n t
    using that assms(2)
    by (induction n) (auto simp: AddVertex_def Vertex_def unat_small take_Suc_conv_app_nth)
  have n: "fold (\<lambda>j. AddNormal (Normal M (word_of_nat j) s)) [0..<n] t = t \<lparr> normals := normals t @ take n (normals s) \<rparr>"
    if "n \<le> length (normals s)" for n t
    using that assms(3)
    by (induction n) (auto simp: AddNormal_def Normal_def unat_small take_Suc_conv_app_nth)
  have i: "fold (\<lambda>j. AddIndex (word_of_int (Index (word_of_nat j) s) + off)) [0..<n] t =
      t \<lparr> indices := indices t @ map (\<lambda>i. i + off) (take n (indices s)) \<rparr>"
    if "n \<le> length (indices s)" for n t
    using that assms(4)
    by (induction n) (auto simp: AddIndex_def Index_def unat_small take_Suc_conv_app_nth)
  define u where "u = t \<lparr> vertices := vertices t @ vertices s, normals := normals t @ normals s,
      indices := indices t @ map (\<lambda>i. i + off) (indices s) \<rparr>"
  have "t' = merge_texcoords M k s u" "off' = off + VertexCount s"
    using assms(5) by (auto simp: merge_submesh_def Let_def c v n i u_def)
  with merge_texcoords_same [of u M k s] show ?thesis by (simp add: same_shape_def u_def)
qed

lemma corners_shifted:
  assumes "valid s" and "length vs + length (vertices s) < 2 ^ 32"
  shows "map (vert (vs @ vertices s @ ws)) (map (\<lambda>i. i + word_of_nat (length vs)) (indices s)) = corners s"
    and "i \<in> set (indices s) \<Longrightarrow> unat (i + word_of_nat (length vs)) < length vs + length (vertices s)"
proof -
  have shift: "unat (i + word_of_nat (length vs)) = unat i + length vs \<and> unat i < length (vertices s)"
    if "i \<in> set (indices s)" for i
  proof -
    have "unat i < length (vertices s)" using assms(1) that by (simp add: valid_def)
    with assms(2) show ?thesis by (simp add: unat_word_ariths unat_small)
  qed
  show "map (vert (vs @ vertices s @ ws)) (map (\<lambda>i. i + word_of_nat (length vs)) (indices s)) = corners s"
    unfolding corners_def map_map by (rule map_cong [OF refl]) (use shift in \<open>simp add: nth_append\<close>)
  show "i \<in> set (indices s) \<Longrightarrow> unat (i + word_of_nat (length vs)) < length vs + length (vertices s)"
    using shift by fastforce
qed

lemma merge_all:
  assumes "\<forall>s \<in> set ss. valid s \<and> length (normals s) < 2 ^ 32 \<and> length (indices s) < 2 ^ 32"
    and "valid t" and "length (vertices t) + total_vertices ss < 2 ^ 32"
    and "fold (merge_submesh M k) ss (t, word_of_nat (length (vertices t))) = (t', off)"
  shows "vertices t' = vertices t @ concat (map vertices ss) \<and> normals t' = normals t @ concat (map normals ss) \<and>
    valid t' \<and> corners t' = corners t @ concat (map corners ss)"
  using assms
proof (induction ss arbitrary: t)
  case (Cons s ss)
  have s: "valid s" "length (vertices s) < 2 ^ 32" "length (normals s) < 2 ^ 32" "length (indices s) < 2 ^ 32"
    "length (vertices t) + length (vertices s) < 2 ^ 32" using Cons.prems(1,3) by simp_all
  obtain u off1 where m: "merge_submesh M k s (t, word_of_nat (length (vertices t))) = (u, off1)" by fastforce
  note p = merge_submesh_parts [OF s(1-4) m]
  have off: "off1 = word_of_nat (length (vertices u))" using p by (simp add: VertexCount_def)
  have "valid u" using p Cons.prems(2) corners_shifted(2) [OF s(1,5)] by (auto simp: valid_def)
  moreover have cu: "corners u = corners t @ corners s"
    using p Cons.prems(2) corners_shifted(1) [OF s(1,5), of "[]"]
    by (simp add: corners_def valid_def nth_append)
  moreover have "fold (merge_submesh M k) ss (u, word_of_nat (length (vertices u))) = (t', off)"
    using Cons.prems(4) m off by simp
  moreover have "length (vertices u) + total_vertices ss < 2 ^ 32" using p Cons.prems(3) by simp
  ultimately have "vertices t' = vertices u @ concat (map vertices ss) \<and> normals t' = normals u @ concat (map normals ss) \<and>
      valid t' \<and> corners t' = corners u @ concat (map corners ss)"
    using Cons.IH [of u] Cons.prems(1) by simp
  with p cu show ?case by simp
qed simp

text \<open>
  Merging the sub-meshes of a mesh keeps its triangles: the merged mesh has one sub-mesh, whose
  vertices, normals and triangle corners are those of the sub-meshes, one after the other, and
  whose indices are in range, as long as the counters do not wrap.
\<close>

theorem MergeSubMeshes_corners:
  assumes "\<forall>s \<in> set (submeshes m). valid s \<and> length (normals s) < 2 ^ 32 \<and> length (indices s) < 2 ^ 32"
    and "total_vertices (submeshes m) < 2 ^ 32"
  shows "\<exists>s. submeshes (MergeSubMeshes M m) = [s] \<and> valid s \<and>
     corners s = concat (map corners (submeshes m)) \<and> vertices s = concat (map vertices (submeshes m)) \<and>
     normals s = concat (map normals (submeshes m)) \<and> Mesh_Name (MergeSubMeshes M m) = Mesh_Name m @ ''_merged''"
proof -
  let ?k = "unat (foldl (\<lambda>k s. if k > TexCoordSetCount s then k else TexCoordSetCount s) 0 (submeshes m))"
  obtain t off where f: "fold (merge_submesh M ?k) (submeshes m) (SubMesh_default, 0) = (t, off)" by fastforce
  have "valid SubMesh_default" "length (vertices SubMesh_default) + total_vertices (submeshes m) < 2 ^ 32"
    using assms(2) by (simp_all add: valid_def shape_default)
  from merge_all [OF assms(1) this, of M ?k t off] f
  have "vertices t = concat (map vertices (submeshes m)) \<and> normals t = concat (map normals (submeshes m)) \<and>
      valid t \<and> corners t = concat (map corners (submeshes m))"
    by (simp add: shape_default corners_def [of "shape [] [] [] []"])
  then show ?thesis
    by (auto simp: MergeSubMeshes_def f Let_def AddSubMesh_def Mesh_SetName_def Mesh_Name_def Mesh_new_def SetName_def
        valid_def corners_def)
qed

end
