(* ===== verification/Moving_Window.thy ===== *)
theory Moving_Window
  imports Complex_Main "HOL-Library.Word"
begin

section \<open>MovingWindowFilter: a mean over the last values\<close>

text \<open>
  The template of \<^verbatim>\<open>src/include/gz/common/MovingWindowFilter.hh\<close>, over the values of a real
  vector space (\<open>double\<close>, \<open>Vector3d\<close>). The history is a vector that is used as a ring; the
  iterator is a position in it. Moving the iterator past the end of an empty history is undefined
  in C++, so \<open>Window_Update\<close> has no result with a window of no value; a division by no sample
  gives no number.
\<close>

record 'a MovingWindowFilter =
  valWindowSize :: "32 word"
  valHistory :: "'a list"
  valIter :: nat
  win_sum :: 'a
  samples :: "32 word"

definition MovingWindowFilter_new :: "'a::real_vector MovingWindowFilter" where
  "MovingWindowFilter_new =
     \<lparr> valWindowSize = 4, valHistory = replicate 4 0, valIter = 0, win_sum = 0, samples = 0 \<rparr>"

definition Window_Update :: "'a::real_vector \<Rightarrow> 'a MovingWindowFilter \<Rightarrow> 'a MovingWindowFilter option" where
  "Window_Update v f =
     (if valIter f \<ge> length (valHistory f) then None
      else
        let s = win_sum f + v;
            i = Suc (valIter f);
            i = (if i = length (valHistory f) then 0 else i);
            n = samples f + 1
        in Some
          (if n > valWindowSize f
           then f \<lparr> win_sum := s - valHistory f ! i, valIter := i,
                    valHistory := (valHistory f)[i := v], samples := n - 1 \<rparr>
           else f \<lparr> win_sum := s, valIter := i, valHistory := (valHistory f)[i := v], samples := n \<rparr>))"

definition SetWindowSize :: "32 word \<Rightarrow> 'a::real_vector MovingWindowFilter \<Rightarrow> 'a MovingWindowFilter" where
  "SetWindowSize n f =
     f \<lparr> valWindowSize := n, valHistory := replicate (unat n) 0, valIter := 0, win_sum := 0,
         samples := 0 \<rparr>"

definition WindowSize :: "'a MovingWindowFilter \<Rightarrow> 32 word" where
  "WindowSize f = valWindowSize f"

definition WindowFilled :: "'a MovingWindowFilter \<Rightarrow> bool" where
  "WindowFilled f \<longleftrightarrow> samples f = valWindowSize f"

definition WindowValue :: "'a::real_vector MovingWindowFilter \<Rightarrow> 'a option" where
  "WindowValue f = (if samples f = 0 then None else Some (win_sum f /\<^sub>R real (unat (samples f))))"

subsection \<open>The ring holds the last values\<close>

fun Updates :: "'a::real_vector list \<Rightarrow> 'a MovingWindowFilter \<Rightarrow> 'a MovingWindowFilter option" where
  "Updates [] f = Some f"
| "Updates (v # vs) f = Option.bind (Window_Update v f) (Updates vs)"

text \<open>The last \<open>n\<close> values of a list.\<close>

definition last_n :: "nat \<Rightarrow> 'a list \<Rightarrow> 'a list" where
  "last_n n vs = drop (length vs - n) vs"

text \<open>After the values \<open>vs\<close>, value number \<open>k\<close> of the last \<open>n\<close> is at place \<open>(k + 1) mod n\<close>.\<close>

definition window_inv :: "nat \<Rightarrow> 'a::real_vector list \<Rightarrow> 'a MovingWindowFilter \<Rightarrow> bool" where
  "window_inv n vs f \<longleftrightarrow>
     unat (valWindowSize f) = n \<and> length (valHistory f) = n \<and> valIter f = length vs mod n \<and>
     unat (samples f) = min (length vs) n \<and> win_sum f = sum_list (last_n n vs) \<and>
     (\<forall>k. length vs - n \<le> k \<and> k < length vs \<longrightarrow> valHistory f ! (Suc k mod n) = vs ! k)"

lemma last_n_all: "length vs \<le> n \<Longrightarrow> last_n n vs = vs"
  by (simp add: last_n_def)

lemma last_n_snoc:
  "n \<le> length vs \<Longrightarrow> 0 < n \<Longrightarrow> vs ! (length vs - n) # last_n n (vs @ [v]) = last_n n vs @ [v]"
  by (simp add: last_n_def Cons_nth_drop_Suc Suc_diff_le)

lemma Suc_mod_wrap: "0 < n \<Longrightarrow> (if Suc (k mod n) = n then 0 else Suc (k mod n)) = Suc k mod (n::nat)"
  by (simp add: mod_Suc)

lemma mod_neq_in_window: "k < m \<Longrightarrow> m < k + n \<Longrightarrow> Suc k mod n \<noteq> Suc m mod (n::nat)"
proof
  assume k: "k < m" "m < k + n" and e: "Suc k mod n = Suc m mod n"
  then have "n dvd Suc m - Suc k" by (metis mod_eq_dvd_iff_nat less_imp_le_nat Suc_le_mono)
  with k show False by (auto dest: dvd_imp_le)
qed

lemma window_inv_Update:
  assumes inv: "window_inv n vs f" and n: "0 < n" "n < 2 ^ 32 - 1"
  shows "\<exists>g. Window_Update v f = Some g \<and> window_inv n (vs @ [v]) g"
proof -
  define i where "i = Suc (length vs) mod n"
  have hist: "length (valHistory f) = n" and it: "valIter f = length vs mod n"
    and ring: "\<And>k. length vs - n \<le> k \<Longrightarrow> k < length vs \<Longrightarrow> valHistory f ! (Suc k mod n) = vs ! k"
    using inv by (auto simp: window_inv_def)
  have it': "(if Suc (valIter f) = length (valHistory f) then 0 else Suc (valIter f)) = i"
    unfolding hist it i_def by (rule Suc_mod_wrap [OF n(1)])
  have in_range: "\<not> length (valHistory f) \<le> valIter f" using n by (simp add: hist it not_le)
  have i: "i < n" unfolding i_def using n(1) by simp
  have samples: "unat (samples f) = min (length vs) n" using inv by (simp add: window_inv_def)
  then have count: "unat (samples f + 1) = Suc (min (length vs) n)"
    using n by (subst unat_add_lem [THEN iffD1]) (auto simp: min_def)
  have full: "samples f + 1 > valWindowSize f \<longleftrightarrow> n \<le> length vs"
    using inv by (auto simp: word_less_nat_alt count window_inv_def)
  have ring': "(valHistory f)[i := v] ! (Suc k mod n) = (vs @ [v]) ! k"
    if "length (vs @ [v]) - n \<le> k" "k < length (vs @ [v])" for k
  proof (cases "k = length vs")
    case True
    then show ?thesis using i hist by (simp add: i_def)
  next
    case False
    then have k: "k < length vs" "length vs < k + n" using that n by auto
    then have "Suc k mod n \<noteq> i" unfolding i_def by (intro mod_neq_in_window)
    then show ?thesis using ring [of k] k by (simp add: nth_append)
  qed
  have step: "Window_Update v f = Some
      (if n \<le> length vs
       then f \<lparr> win_sum := win_sum f + v - valHistory f ! i, valIter := i,
                valHistory := (valHistory f)[i := v], samples := samples f + 1 - 1 \<rparr>
       else f \<lparr> win_sum := win_sum f + v, valIter := i, valHistory := (valHistory f)[i := v],
                samples := samples f + 1 \<rparr>)"
    unfolding Window_Update_def Let_def it' full using in_range by simp
  have i': "i = length (vs @ [v]) mod n" by (simp add: i_def)
  note parts = inv [unfolded window_inv_def]
  show ?thesis
  proof (cases "n \<le> length vs")
    case True
    have "Suc (length vs - n) mod n = i"
      using True by (simp add: i_def Suc_diff_le [symmetric] le_mod_geq)
    then have "valHistory f ! i = vs ! (length vs - n)"
      using ring [of "length vs - n"] True n by simp
    then have "win_sum f + v - valHistory f ! i = sum_list (last_n n (vs @ [v]))"
      using inv arg_cong [OF last_n_snoc [OF True n(1), of v], of sum_list]
      by (simp add: window_inv_def algebra_simps)
    then show ?thesis
      unfolding step window_inv_def using True samples ring' parts i' by simp
  next
    case False
    then have "win_sum f + v = sum_list (last_n n (vs @ [v]))"
      using inv by (simp add: window_inv_def last_n_all)
    then show ?thesis
      unfolding step window_inv_def using False count samples ring' parts i' by simp
  qed
qed

lemma window_inv_Updates:
  assumes "0 < n" "n < 2 ^ 32 - 1"
  shows "window_inv n us f \<Longrightarrow> \<exists>g. Updates vs f = Some g \<and> window_inv n (us @ vs) g"
proof (induction vs arbitrary: us f)
  case (Cons v vs)
  obtain g where g: "Window_Update v f = Some g" "window_inv n (us @ [v]) g"
    using window_inv_Update [OF Cons.prems assms] by blast
  show ?case using Cons.IH [OF g(2)] by (simp add: g(1))
qed simp

lemma SetWindowSize_inv: "window_inv (unat n) [] (SetWindowSize n f)"
  by (simp add: window_inv_def SetWindowSize_def last_n_def)

subsection \<open>Properties\<close>

text \<open>
  After a window size of at least one value is set, the filter gives the mean of the last
  values, as many as the window holds, and it is filled when there were as many.
\<close>

theorem MovingWindow_mean:
  assumes "0 < n" and "n < 2 ^ 32 - 1" and "vs \<noteq> []"
  shows "\<exists>g. Updates vs (SetWindowSize n f) = Some g \<and>
           WindowValue g = Some (sum_list (last_n (unat n) vs) /\<^sub>R real (length (last_n (unat n) vs))) \<and>
           (WindowFilled g \<longleftrightarrow> unat n \<le> length vs)"
proof -
  have n: "0 < unat n" "unat n < 2 ^ 32 - 1"
    using assms by (simp_all add: word_less_nat_alt unat_gt_0)
  obtain g where g: "Updates vs (SetWindowSize n f) = Some g" "window_inv (unat n) vs g"
    using window_inv_Updates [OF n SetWindowSize_inv [of n f], of vs] by auto
  have len: "length (last_n (unat n) vs) = unat (samples g)"
    using g(2) by (auto simp: window_inv_def last_n_def min_def)
  moreover have "samples g \<noteq> 0"
    using g(2) n assms(3) by (cases "samples g = 0") (auto simp: window_inv_def min_def split: if_splits)
  moreover have "WindowFilled g \<longleftrightarrow> unat n \<le> length vs"
    using g(2) by (auto simp: WindowFilled_def window_inv_def word_unat_eq_iff min_def)
  ultimately show ?thesis using g by (auto simp: WindowValue_def window_inv_def)
qed

end
