(* ===== verification/Data_Frame.thy ===== *)
theory Data_Frame
  imports Csv_Reader
begin

section \<open>DataFrame: columns of a CSV stream as grids\<close>

text \<open>
  The templates of \<^verbatim>\<open>src/io/include/gz/common/DataFrame.hh\<close> and \<^verbatim>\<open>IOBase.hh\<close>. The storage is a
  map; the order in which a hash table is run through is the parameter \<open>order\<close>. Reading a value from
  text (\<open>operator >>\<close> of its type) and building a grid from its points (a factory of gz-math) are
  parameters. A data stream is the list of the rows its iterator visits.
\<close>

subsection \<open>The frame\<close>

record ('k, 'g) DataFrame =
  storage :: "'k \<rightharpoonup> 'g"

definition DataFrame_new :: "('k, 'g) DataFrame" where
  "DataFrame_new = \<lparr> storage = Map.empty \<rparr>"

definition Frame_Has :: "('k, 'g) DataFrame \<Rightarrow> 'k \<Rightarrow> bool" where
  "Frame_Has df k \<longleftrightarrow> storage df k \<noteq> None"

text \<open>The mutable \<open>operator []\<close> enters a default value under an unknown key; an assignment
  \<open>df[k] = g\<close> writes through the reference it returns. The constant one throws there.\<close>

definition Frame_fetch :: "'g \<Rightarrow> ('k, 'g) DataFrame \<Rightarrow> 'k \<Rightarrow> 'g \<times> ('k, 'g) DataFrame" where
  "Frame_fetch dflt df k =
     (case storage df k of
        Some g \<Rightarrow> (g, df)
      | None \<Rightarrow> (dflt, df \<lparr> storage := (storage df)(k \<mapsto> dflt) \<rparr>))"

definition Frame_at :: "('k, 'g) DataFrame \<Rightarrow> 'k \<Rightarrow> 'g option" where
  "Frame_at df k = storage df k"

definition Frame_Keys :: "(('k \<rightharpoonup> 'g) \<Rightarrow> 'k list) \<Rightarrow> ('k, 'g) DataFrame \<Rightarrow> 'k list" where
  "Frame_Keys order df = order (storage df)"

definition Frame_assign :: "'g \<Rightarrow> ('k, 'g) DataFrame \<Rightarrow> 'k \<Rightarrow> 'g \<Rightarrow> ('k, 'g) DataFrame" where
  "Frame_assign dflt df k g =
     (let df' = snd (Frame_fetch dflt df k) in df' \<lparr> storage := (storage df')(k \<mapsto> g) \<rparr>)"

lemma storage_assign [simp]: "storage (Frame_assign dflt df k g) = (storage df)(k \<mapsto> g)"
  by (auto simp: Frame_assign_def Frame_fetch_def Let_def split: option.split)

subsection \<open>Choosing the columns\<close>

datatype frame_error = invalid_argument | out_of_range

definition find_column :: "string list \<Rightarrow> string \<Rightarrow> frame_error + nat" where
  "find_column header name =
     (case find_index (\<lambda>c. c = name) header of None \<Rightarrow> Inl invalid_argument | Some i \<Rightarrow> Inr i)"

fun find_columns :: "string list \<Rightarrow> string list \<Rightarrow> frame_error + nat list" where
  "find_columns header [] = Inr []"
| "find_columns header (n # ns) =
     (case find_column header n of
        Inl e \<Rightarrow> Inl e
      | Inr i \<Rightarrow> (case find_columns header ns of Inl e \<Rightarrow> Inl e | Inr is \<Rightarrow> Inr (i # is)))"

text \<open>\<open>*it = *(--last)\<close>: the last of the indices that are left takes the place of the one found.\<close>

definition take_column :: "nat list \<Rightarrow> nat \<Rightarrow> nat list option" where
  "take_column live index =
     (case find_index (\<lambda>i. i = index) live of
        None \<Rightarrow> None
      | Some p \<Rightarrow> Some (butlast (live[p := last live])))"

fun take_columns :: "nat list \<Rightarrow> nat list \<Rightarrow> frame_error + nat list" where
  "take_columns live [] = Inr live"
| "take_columns live (i # is) =
     (case take_column live i of None \<Rightarrow> Inl invalid_argument | Some l \<Rightarrow> take_columns l is)"

definition data_columns :: "nat \<Rightarrow> nat \<Rightarrow> nat list \<Rightarrow> frame_error + nat list" where
  "data_columns width timeIndex spatial = take_columns [0..<width] (timeIndex # take 3 spatial)"

subsection \<open>Reading the rows\<close>

text \<open>\<open>row.at (i)\<close>.\<close>

definition column_at :: "string list \<Rightarrow> nat \<Rightarrow> string option" where
  "column_at row i = (if i < length row then Some (row ! i) else None)"

text \<open>\<open>IO<T>::ReadFrom\<close> of a text is \<open>operator >>\<close> of a stream of it.\<close>

definition IO_ReadFrom :: "(string \<Rightarrow> 'a) \<Rightarrow> string \<Rightarrow> 'a" where
  "IO_ReadFrom extract s = extract s"

type_synonym ('t, 'p, 'v) grid_point = "'t \<times> ('p \<times> 'p \<times> 'p) \<times> 'v"

fun column_values :: "(string \<Rightarrow> 'v) \<Rightarrow> string list \<Rightarrow> nat list \<Rightarrow> 'v list option" where
  "column_values rv row [] = Some []"
| "column_values rv row (i # is) =
     do { s \<leftarrow> column_at row i; vs \<leftarrow> column_values rv row is; Some (IO_ReadFrom rv s # vs) }"

definition row_points ::
    "(string \<Rightarrow> 't) \<Rightarrow> (string \<Rightarrow> 'p) \<Rightarrow> (string \<Rightarrow> 'v) \<Rightarrow> nat \<Rightarrow> nat list \<Rightarrow> nat list \<Rightarrow> string list \<Rightarrow>
     ('t, 'p, 'v) grid_point list option" where
  "row_points rt rp rv timeIndex spatial cols row =
     do { t \<leftarrow> column_at row timeIndex;
          x \<leftarrow> column_at row (spatial ! 0);
          y \<leftarrow> column_at row (spatial ! 1);
          z \<leftarrow> column_at row (spatial ! 2);
          vs \<leftarrow> column_values rv row cols;
          Some (map (\<lambda>v. (IO_ReadFrom rt t,
                          (IO_ReadFrom rp x, IO_ReadFrom rp y, IO_ReadFrom rp z), v)) vs) }"

fun read_points ::
    "(string list \<Rightarrow> 'p list option) \<Rightarrow> string list list \<Rightarrow> 'p list list \<Rightarrow> 'p list list option" where
  "read_points pts [] factories = Some factories"
| "read_points pts (row # rows) factories =
     do { ps \<leftarrow> pts row; read_points pts rows (map2 (\<lambda>f p. f @ [p]) factories ps) }"

definition column_key :: "string list \<Rightarrow> nat \<Rightarrow> string option" where
  "column_key header i =
     (if header \<noteq> [] then column_at header i else Some (''var'' @ show_nat i))"

fun build_frame ::
    "(string \<Rightarrow> 'k) \<Rightarrow> ('p list \<Rightarrow> 'g) \<Rightarrow> 'g \<Rightarrow> string list \<Rightarrow> (nat \<times> 'p list) list \<Rightarrow>
     ('k, 'g) DataFrame \<Rightarrow> ('k, 'g) DataFrame option" where
  "build_frame rk build dflt header [] df = Some df"
| "build_frame rk build dflt header ((i, f) # rest) df =
     do { key \<leftarrow> column_key header i;
          build_frame rk build dflt header rest (Frame_assign dflt df (IO_ReadFrom rk key) (build f)) }"

definition ReadFrom_indices ::
    "(string \<Rightarrow> 'k) \<Rightarrow> (string \<Rightarrow> 't) \<Rightarrow> (string \<Rightarrow> 'p) \<Rightarrow> (string \<Rightarrow> 'v) \<Rightarrow>
     (('t, 'p, 'v) grid_point list \<Rightarrow> 'g) \<Rightarrow> 'g \<Rightarrow> string list list \<Rightarrow> nat \<Rightarrow> nat list \<Rightarrow>
     frame_error + ('k, 'g) DataFrame" where
  "ReadFrom_indices rk rt rp rv build dflt rows timeIndex spatial =
     (case rows of
        [] \<Rightarrow> Inl invalid_argument
      | header # body \<Rightarrow>
          (case data_columns (length header) timeIndex spatial of
             Inl e \<Rightarrow> Inl e
           | Inr cols \<Rightarrow>
               (case read_points (row_points rt rp rv timeIndex spatial cols) body
                       (replicate (length cols) []) of
                  None \<Rightarrow> Inl out_of_range
                | Some factories \<Rightarrow>
                    (case build_frame rk build dflt header (zip cols factories) DataFrame_new of
                       None \<Rightarrow> Inl out_of_range | Some df \<Rightarrow> Inr df))))"

definition ReadFrom_names ::
    "(string \<Rightarrow> 'k) \<Rightarrow> (string \<Rightarrow> 't) \<Rightarrow> (string \<Rightarrow> 'p) \<Rightarrow> (string \<Rightarrow> 'v) \<Rightarrow>
     (('t, 'p, 'v) grid_point list \<Rightarrow> 'g) \<Rightarrow> 'g \<Rightarrow> string list list \<Rightarrow> string \<Rightarrow> string list \<Rightarrow>
     frame_error + ('k, 'g) DataFrame" where
  "ReadFrom_names rk rt rp rv build dflt rows timeName spatialNames =
     (case rows of
        [] \<Rightarrow> Inl invalid_argument
      | header # _ \<Rightarrow>
          if header = [] then Inl invalid_argument
          else
            (case find_column header timeName of
               Inl e \<Rightarrow> Inl e
             | Inr timeIndex \<Rightarrow>
                 (case find_columns header spatialNames of
                    Inl e \<Rightarrow> Inl e
                  | Inr spatial \<Rightarrow> ReadFrom_indices rk rt rp rv build dflt rows timeIndex spatial)))"

subsection \<open>Lemmas\<close>

lemma set_take_column:
  assumes "distinct live" and "take_column live i = Some l"
  shows "i \<in> set live \<and> distinct l \<and> set l = set live - {i}"
proof -
  obtain p where p: "p < length live" "live ! p = i" and l: "l = butlast (live[p := last live])"
    using assms(2) by (auto simp: take_column_def find_index_Some_iff split: option.splits)
  obtain ys y where live: "live = ys @ [y]" using p by (cases live rule: rev_cases) auto
  show ?thesis
  proof (cases "p = length ys")
    case True
    then show ?thesis using assms(1) p l by (auto simp: live)
  next
    case False
    then have pl: "p < length ys" using p live by simp
    then have "l = ys[p := y]" and i: "ys ! p = i"
      using l p by (simp_all add: live list_update_append nth_append butlast_append)
    moreover have "set (ys[p := y]) = insert y (set ys - {ys ! p})"
      using pl assms(1) by (intro set_update_distinct) (simp_all add: live)
    ultimately show ?thesis
      using assms(1) pl nth_mem [OF pl] by (auto simp: live distinct_list_update)
  qed
qed

lemma take_column_defined: "i \<in> set live \<Longrightarrow> \<exists>l. take_column live i = Some l"
  by (auto simp: take_column_def find_index_None_iff split: option.splits)

lemma take_columns_iff:
  "distinct live \<Longrightarrow>
     (case take_columns live is of
        Inl e \<Rightarrow> e = invalid_argument \<and> \<not> (distinct is \<and> set is \<subseteq> set live)
      | Inr l \<Rightarrow> distinct is \<and> set is \<subseteq> set live \<and> distinct l \<and> set l = set live - set is)"
proof (induction "is" arbitrary: live)
  case (Cons i "is")
  show ?case
  proof (cases "take_column live i")
    case None
    then show ?thesis using take_column_defined [of i live] by auto
  next
    case (Some l)
    note s = set_take_column [OF Cons.prems Some]
    with Cons.IH [of l] Some show ?thesis by (auto split: sum.splits)
  qed
qed simp

lemma column_values_eq:
  "\<forall>i \<in> set is. i < length row \<Longrightarrow>
     column_values rv row is = Some (map (\<lambda>i. IO_ReadFrom rv (row ! i)) is)"
  by (induction "is") (auto simp: column_at_def)

text \<open>The point a column gets from a row.\<close>

definition cell_point ::
    "(string \<Rightarrow> 't) \<Rightarrow> (string \<Rightarrow> 'p) \<Rightarrow> (string \<Rightarrow> 'v) \<Rightarrow> nat \<Rightarrow> nat list \<Rightarrow> nat \<Rightarrow> string list \<Rightarrow>
     ('t, 'p, 'v) grid_point" where
  "cell_point rt rp rv timeIndex spatial i row =
     (IO_ReadFrom rt (row ! timeIndex),
      (IO_ReadFrom rp (row ! (spatial ! 0)), IO_ReadFrom rp (row ! (spatial ! 1)),
       IO_ReadFrom rp (row ! (spatial ! 2))), IO_ReadFrom rv (row ! i))"

lemma row_points_eq:
  assumes "\<forall>i \<in> set (timeIndex # spatial). i < length row" and "length spatial = 3"
    and "\<forall>i \<in> set cols. i < length row"
  shows "row_points rt rp rv timeIndex spatial cols row =
     Some (map (\<lambda>i. cell_point rt rp rv timeIndex spatial i row) cols)"
  using assms
  by (simp add: row_points_def column_at_def column_values_eq cell_point_def o_def)

lemma read_points_eq:
  assumes "\<forall>row \<in> set rows. pts row = Some (map (\<lambda>i. c i row) cols)"
  shows "length fs = length cols \<Longrightarrow>
    read_points pts rows fs = Some (map2 (\<lambda>i f. f @ map (c i) rows) cols fs)"
  using assms
proof (induction rows arbitrary: fs)
  case Nil
  then show ?case by (auto simp: list_eq_iff_nth_eq)
next
  case (Cons row rows)
  have "read_points pts (row # rows) fs =
      read_points pts rows (map2 (\<lambda>f p. f @ [p]) fs (map (\<lambda>i. c i row) cols))"
    using Cons.prems by simp
  also have "\<dots> = Some (map2 (\<lambda>i f. f @ map (c i) rows) cols
      (map2 (\<lambda>f p. f @ [p]) fs (map (\<lambda>i. c i row) cols)))"
    using Cons.prems by (intro Cons.IH) auto
  also have "map2 (\<lambda>i f. f @ map (c i) rows) cols (map2 (\<lambda>f p. f @ [p]) fs (map (\<lambda>i. c i row) cols)) =
      map2 (\<lambda>i f. f @ map (c i) (row # rows)) cols fs"
    using Cons.prems by (auto simp: list_eq_iff_nth_eq)
  finally show ?case .
qed

lemma build_frame_eq:
  assumes "header \<noteq> []"
  shows "\<forall>(i, f) \<in> set fs. i < length header \<Longrightarrow>
    \<exists>df'. build_frame rk build dflt header fs df = Some df' \<and>
      storage df' = storage df ++ map_of (rev (map (\<lambda>(i, f). (IO_ReadFrom rk (header ! i), build f)) fs))"
  using assms
proof (induction fs arbitrary: df)
  case (Cons x fs)
  obtain i f where x: "x = (i, f)" by fastforce
  let ?df = "Frame_assign dflt df (IO_ReadFrom rk (header ! i)) (build f)"
  have "\<exists>df'. build_frame rk build dflt header fs ?df = Some df' \<and>
      storage df' = storage ?df ++ map_of (rev (map (\<lambda>(i, f). (IO_ReadFrom rk (header ! i), build f)) fs))"
    using Cons.prems by (intro Cons.IH) simp_all
  then show ?case
    using Cons.prems by (auto simp: x column_key_def column_at_def)
qed simp

subsection \<open>Properties\<close>

text \<open>
  C30. Reading a data frame succeeds exactly when the time column and the three columns of the
  position are four different columns of the header (rows no shorter than the header given), and
  then every other column, under its name in the header when no other column has that name, is the
  grid of the points its cells give in the order of the rows.
\<close>

theorem DataFrame_ReadFrom_columns:
  assumes spatial: "length spatial = 3" and rows: "\<forall>row \<in> set body. length header \<le> length row"
  shows "case ReadFrom_indices rk rt rp rv build dflt (header # body) timeIndex spatial of
     Inl e \<Rightarrow> e = invalid_argument \<and>
       \<not> (distinct (timeIndex # spatial) \<and> set (timeIndex # spatial) \<subseteq> {..<length header})
   | Inr df \<Rightarrow> distinct (timeIndex # spatial) \<and> set (timeIndex # spatial) \<subseteq> {..<length header} \<and>
       dom (storage df) = (\<lambda>i. IO_ReadFrom rk (header ! i)) ` ({..<length header} - set (timeIndex # spatial)) \<and>
       (inj_on (\<lambda>i. IO_ReadFrom rk (header ! i)) {..<length header} \<longrightarrow>
          (\<forall>i \<in> {..<length header} - set (timeIndex # spatial).
             storage df (IO_ReadFrom rk (header ! i)) =
               Some (build (map (cell_point rt rp rv timeIndex spatial i) body))))"
proof (cases "data_columns (length header) timeIndex spatial")
  case (Inl e)
  with take_columns_iff [of "[0..<length header]" "timeIndex # spatial"] spatial show ?thesis
    by (auto simp: ReadFrom_indices_def data_columns_def atLeast0LessThan)
next
  case (Inr cols)
  define key where "key = (\<lambda>i. IO_ReadFrom rk (header ! i))"
  define cell where "cell = cell_point rt rp rv timeIndex spatial"
  define fs where "fs = zip cols (map2 (\<lambda>i f. f @ map (cell i) body) cols (replicate (length cols) []))"
  have "distinct (timeIndex # spatial)" and sub: "set (timeIndex # spatial) \<subseteq> {..<length header}"
    and d: "distinct cols" and cols: "set cols = {..<length header} - set (timeIndex # spatial)"
    using take_columns_iff [of "[0..<length header]" "timeIndex # spatial"] spatial Inr
    by (auto simp: data_columns_def atLeast0LessThan)
  have fs: "fs = map (\<lambda>i. (i, map (cell i) body)) cols"
    by (simp add: fs_def list_eq_iff_nth_eq)
  have pts: "\<forall>row \<in> set body. row_points rt rp rv timeIndex spatial cols row =
      Some (map (\<lambda>i. cell i row) cols)"
    unfolding cell_def using sub cols rows spatial by (intro ballI row_points_eq) fastforce+
  have read: "read_points (row_points rt rp rv timeIndex spatial cols) body (replicate (length cols) []) =
      Some (map2 (\<lambda>i f. f @ map (cell i) body) cols (replicate (length cols) []))"
    using pts by (intro read_points_eq) simp_all
  have "\<forall>(i, f) \<in> set fs. i < length header" using cols by (auto simp: fs)
  moreover have "header \<noteq> []" using sub by auto
  ultimately obtain df where df: "build_frame rk build dflt header fs DataFrame_new = Some df"
      "storage df = storage (DataFrame_new :: ('a, 'b) DataFrame) ++
         map_of (rev (map (\<lambda>(i, f). (key i, build f)) fs))"
    using build_frame_eq [of header fs rk build dflt DataFrame_new] unfolding key_def by blast
  have res: "ReadFrom_indices rk rt rp rv build dflt (header # body) timeIndex spatial = Inr df"
    using Inr read df(1) by (simp add: ReadFrom_indices_def fs_def [symmetric])
  have st: "storage df = map_of (rev (map (\<lambda>i. (key i, build (map (cell i) body))) cols))"
    by (simp add: df(2) fs o_def DataFrame_new_def)
  have "storage df (key i) = Some (build (map (cell i) body))"
    if "inj_on key {..<length header}" "i \<in> set cols" for i
  proof -
    have "distinct (map key cols)"
      using that(1) d cols by (simp add: distinct_map inj_on_subset)
    then show ?thesis
      unfolding st using that(2) by (intro map_of_is_SomeI) (auto simp: o_def rev_map [symmetric])
  qed
  moreover have "dom (storage df) = key ` set cols"
    by (simp add: st dom_map_of_conv_image_fst image_image)
  ultimately show ?thesis
    using res \<open>distinct (timeIndex # spatial)\<close> sub cols by (auto simp: key_def cell_def)
qed

lemma DataFrame_ReadFrom_columns_witness:
  "case ReadFrom_indices id id id id id []
      [[''t'', ''x'', ''y'', ''z'', ''u''], [''0'', ''1'', ''2'', ''3'', ''9'']] 0 [1, 2, 3] of
     Inl e \<Rightarrow> False
   | Inr df \<Rightarrow> dom (storage df) = {''u''}"
proof -
  have "{..<Suc (Suc (Suc (Suc (Suc 0))))} - {0, Suc 0, 2, 3} = {4}" by auto
  then show ?thesis
    using DataFrame_ReadFrom_columns [where spatial = "[1, 2, 3]" and timeIndex = 0
        and body = "[[''0'', ''1'', ''2'', ''3'', ''9'']]" and header = "[''t'', ''x'', ''y'', ''z'', ''u'']"
        and rk = id and rt = id and rp = id and rv = id and build = id and dflt = "[]"]
    by (simp add: IO_ReadFrom_def split: sum.splits)
qed

end
