(* ===== verification/Flag_Set.thy ===== *)
theory Flag_Set
  imports Main "HOL-Library.Monad_Syntax"
begin

section \<open>FlagSet and EnumIface: enumerations as flags and as text\<close>

text \<open>
  The templates of \<^verbatim>\<open>src/include/gz/common/FlagSet.hh\<close> and \<^verbatim>\<open>EnumIface.hh\<close>. A value of an
  enumeration is its number. A \<open>std::bitset\<close> is the list of its bits, the flag 0 first; \<open>set\<close>,
  \<open>reset\<close>, \<open>flip\<close> and \<open>test\<close> of a position throw \<open>std::out_of_range\<close> past the end,
  which is \<^const>\<open>None\<close> here, and so is reading such a position with \<open>[]\<close>, which is undefined.
\<close>

subsection \<open>The bitset\<close>

type_synonym FlagSet = "bool list"

definition numElements :: "nat \<Rightarrow> bool \<Rightarrow> nat" where
  "numElements LastElement ExcludeLast = LastElement + (1 - (if ExcludeLast then 1 else 0))"

definition bitset_set :: "nat \<Rightarrow> bool \<Rightarrow> bool list \<Rightarrow> bool list option" where
  "bitset_set i b f = (if i < length f then Some (f[i := b]) else None)"

definition bitset_test :: "nat \<Rightarrow> bool list \<Rightarrow> bool option" where
  "bitset_test i f = (if i < length f then Some (f ! i) else None)"

subsection \<open>The operations\<close>

definition FlagSet_new :: "nat \<Rightarrow> FlagSet" where
  "FlagSet_new n = replicate n False"

definition FlagSet_of :: "nat \<Rightarrow> nat \<Rightarrow> FlagSet option" where
  "FlagSet_of n v = bitset_set v True (FlagSet_new n)"

fun set_each :: "nat list \<Rightarrow> FlagSet \<Rightarrow> FlagSet option" where
  "set_each [] f = Some f"
| "set_each (v # vs) f = Option.bind (bitset_set v True f) (set_each vs)"

definition FlagSet_of_list :: "nat \<Rightarrow> nat list \<Rightarrow> FlagSet option" where
  "FlagSet_of_list n vs = set_each vs (FlagSet_new n)"

text \<open>\<open>f &= v\<close>, \<open>f &= g\<close>, \<open>f |= v\<close>, \<open>f |= g\<close>; \<open>f & v\<close>, \<open>f & g\<close>, \<open>f | v\<close> and \<open>f | g\<close> do the
  same on a copy, the ones with a flag under an assertion on the number of bits.\<close>

definition and_flag :: "FlagSet \<Rightarrow> nat \<Rightarrow> FlagSet option" where
  "and_flag f v = do { tmp \<leftarrow> bitset_test v f; bitset_set v tmp (replicate (length f) False) }"

definition and_set :: "FlagSet \<Rightarrow> FlagSet \<Rightarrow> FlagSet" where
  "and_set f g = map2 (\<and>) f g"

definition or_flag :: "FlagSet \<Rightarrow> nat \<Rightarrow> FlagSet option" where
  "or_flag f v = bitset_set v True f"

definition or_set :: "FlagSet \<Rightarrow> FlagSet \<Rightarrow> FlagSet" where
  "or_set f g = map2 (\<or>) f g"

definition Flags_Count :: "FlagSet \<Rightarrow> nat" where
  "Flags_Count f = length (filter id f)"

definition and_flag_copy :: "FlagSet \<Rightarrow> nat \<Rightarrow> FlagSet option" where
  "and_flag_copy f v = do { r \<leftarrow> and_flag f v; if Flags_Count r \<le> 1 then Some r else None }"

definition or_flag_copy :: "FlagSet \<Rightarrow> nat \<Rightarrow> FlagSet option" where
  "or_flag_copy f v = do { r \<leftarrow> or_flag f v; if Flags_Count r \<ge> 1 then Some r else None }"

definition Flags_not :: "FlagSet \<Rightarrow> FlagSet" where
  "Flags_not f = map Not f"

definition Flags_bool :: "FlagSet \<Rightarrow> bool" where
  "Flags_bool f = list_ex id f"

definition Flags_eq :: "FlagSet \<Rightarrow> FlagSet \<Rightarrow> bool" where
  "Flags_eq f g \<longleftrightarrow> f = g"

definition Flags_neq :: "FlagSet \<Rightarrow> FlagSet \<Rightarrow> bool" where
  "Flags_neq f g \<longleftrightarrow> \<not> Flags_eq f g"

definition Flags_Size :: "FlagSet \<Rightarrow> nat" where
  "Flags_Size f = length f"

definition Set_all :: "FlagSet \<Rightarrow> FlagSet" where
  "Set_all f = map (\<lambda>_. True) f"

definition Reset_all :: "FlagSet \<Rightarrow> FlagSet" where
  "Reset_all f = map (\<lambda>_. False) f"

definition Flip_all :: "FlagSet \<Rightarrow> FlagSet" where
  "Flip_all f = map Not f"

definition Set_flag :: "nat \<Rightarrow> bool \<Rightarrow> FlagSet \<Rightarrow> FlagSet option" where
  "Set_flag v b f = bitset_set v b f"

definition Reset_flag :: "nat \<Rightarrow> FlagSet \<Rightarrow> FlagSet option" where
  "Reset_flag v f = bitset_set v False f"

definition Flip_flag :: "nat \<Rightarrow> FlagSet \<Rightarrow> FlagSet option" where
  "Flip_flag v f = do { b \<leftarrow> bitset_test v f; bitset_set v (\<not> b) f }"

definition Flags_Any :: "FlagSet \<Rightarrow> bool" where
  "Flags_Any f = list_ex id f"

definition Flags_All :: "FlagSet \<Rightarrow> bool" where
  "Flags_All f = list_all id f"

definition Flags_None :: "FlagSet \<Rightarrow> bool" where
  "Flags_None f \<longleftrightarrow> \<not> list_ex id f"

definition AllSet :: "nat \<Rightarrow> FlagSet" where
  "AllSet n = Set_all (FlagSet_new n)"

definition NoneSet :: "nat \<Rightarrow> FlagSet" where
  "NoneSet n = FlagSet_new n"

definition Flags_at :: "FlagSet \<Rightarrow> nat \<Rightarrow> bool option" where
  "Flags_at f v = bitset_test v f"

text \<open>\<open>to_string\<close> writes the highest bit first.\<close>

definition Flags_String :: "FlagSet \<Rightarrow> string" where
  "Flags_String f = map (\<lambda>b. if b then CHR ''1'' else CHR ''0'') (rev f)"

definition flags_or :: "nat \<Rightarrow> nat \<Rightarrow> nat \<Rightarrow> FlagSet option" where
  "flags_or n lhs rhs = do { fs \<leftarrow> or_flag (FlagSet_new n) lhs; or_flag fs rhs }"

subsection \<open>Enumerations as text\<close>

record EnumIface =
  range_begin :: nat
  range_end :: nat
  enum_names :: "string list"

definition gzEnum :: "nat \<Rightarrow> nat \<Rightarrow> string list \<Rightarrow> EnumIface" where
  "gzEnum b e names = \<lparr> range_begin = b, range_end = e, enum_names = names \<rparr>"

definition Enum_Begin :: "EnumIface \<Rightarrow> nat" where
  "Enum_Begin i = range_begin i"

definition Enum_End :: "EnumIface \<Rightarrow> nat" where
  "Enum_End i = range_end i"

definition Enum_Str :: "EnumIface \<Rightarrow> nat \<Rightarrow> string" where
  "Enum_Str i e = (if e < length (enum_names i) then enum_names i ! e else [])"

fun index_of :: "'a list \<Rightarrow> 'a \<Rightarrow> nat" where
  "index_of [] x = 0"
| "index_of (y # ys) x = (if y = x then 0 else Suc (index_of ys x))"

definition Enum_Set :: "EnumIface \<Rightarrow> nat \<Rightarrow> string \<Rightarrow> nat" where
  "Enum_Set i e s =
     (let p = index_of (enum_names i) s in if p \<noteq> length (enum_names i) then p else e)"

lemma index_of_le: "index_of xs x \<le> length xs"
  by (induction xs) auto

lemma index_of_nth: "distinct xs \<Longrightarrow> i < length xs \<Longrightarrow> index_of xs (xs ! i) = i"
  by (induction xs arbitrary: i) (auto simp: nth_Cons split: nat.splits)

lemma index_of_less: "index_of xs x < length xs \<Longrightarrow> xs ! index_of xs x = x"
  by (induction xs) auto

lemma Enum_Set_Str:
  "distinct (enum_names i) \<Longrightarrow> e < length (enum_names i) \<Longrightarrow> Enum_Set i e' (Enum_Str i e) = e"
  by (simp add: Enum_Set_def Enum_Str_def index_of_nth)

lemma Enum_Set_unknown: "s \<notin> set (enum_names i) \<Longrightarrow> Enum_Set i e s = e"
  using index_of_le [of "enum_names i" s] index_of_less [of "enum_names i" s]
  by (auto simp: Enum_Set_def Let_def) (metis le_neq_implies_less nth_mem)

subsection \<open>A flag set is a set of flags\<close>

definition flags_in :: "FlagSet \<Rightarrow> nat set" where
  "flags_in f = {i. i < length f \<and> f ! i}"

lemma flags_in_set: "i < length f \<Longrightarrow>
    flags_in (f[i := b]) = (if b then insert i (flags_in f) else flags_in f - {i})"
  by (auto simp: flags_in_def nth_list_update split: if_splits)

lemma finite_flags [simp]: "finite (flags_in f)"
  by (simp add: flags_in_def)

lemma flags_in_new [simp]: "flags_in (replicate n False) = {}"
  by (auto simp: flags_in_def)

lemma flags_in_inject: "length f = length g \<Longrightarrow> flags_in f = flags_in g \<longleftrightarrow> f = g"
  by (auto simp: flags_in_def set_eq_iff list_eq_iff_nth_eq)

lemma flags_in_count: "card (flags_in f) = Flags_Count f"
  by (simp add: flags_in_def Flags_Count_def length_filter_conv_card)

lemma flags_in_binary:
  assumes "length f = length g"
  shows "flags_in (and_set f g) = flags_in f \<inter> flags_in g"
    and "flags_in (or_set f g) = flags_in f \<union> flags_in g"
  using assms by (auto simp: flags_in_def and_set_def or_set_def)

lemma flags_in_not: "flags_in (map Not f) = {..<length f} - flags_in f"
  by (auto simp: flags_in_def)

lemma flags_in_and_flag:
  "v < length f \<Longrightarrow> \<exists>r. and_flag f v = Some r \<and> length r = length f \<and> flags_in r = flags_in f \<inter> {v}"
  by (auto simp: and_flag_def bitset_test_def bitset_set_def flags_in_set) (auto simp: flags_in_def)

lemma set_each_in:
  "\<forall>v \<in> set vs. v < length f \<Longrightarrow>
     \<exists>r. set_each vs f = Some r \<and> length r = length f \<and> flags_in r = set vs \<union> flags_in f"
proof (induction vs arbitrary: f)
  case (Cons v vs)
  obtain r where "set_each vs (f[v := True]) = Some r" "length r = length f"
      "flags_in r = set vs \<union> flags_in (f[v := True])"
    using Cons.IH [of "f[v := True]"] Cons.prems by auto
  then show ?case using Cons.prems by (auto simp: bitset_set_def flags_in_set)
qed simp

lemma and_flag_copy_eq: "and_flag_copy f v = and_flag f v"
proof (cases "v < length f")
  case True
  then obtain r where r: "and_flag f v = Some r" "flags_in r = flags_in f \<inter> {v}"
    using flags_in_and_flag by blast
  have "Flags_Count r \<le> 1"
    unfolding flags_in_count [symmetric] r(2) by (rule order_trans [OF card_mono [of "{v}"]]) auto
  then show ?thesis by (simp add: and_flag_copy_def r(1))
qed (simp add: and_flag_copy_def and_flag_def bitset_test_def)

lemma or_flag_copy_eq: "or_flag_copy f v = or_flag f v"
proof (cases "v < length f")
  case True
  have "card (flags_in (f[v := True])) \<noteq> 0"
    using True by (simp add: flags_in_set card_gt_0_iff)
  then show ?thesis using True by (simp add: or_flag_copy_def or_flag_def bitset_set_def flags_in_count)
qed (simp add: or_flag_copy_def or_flag_def bitset_set_def)

subsection \<open>Properties\<close>

lemma flags_in_all: "flags_in (map (\<lambda>_. b) f) = (if b then {..<length f} else {})"
  by (auto simp: flags_in_def)

lemma any_flag: "list_ex id f \<longleftrightarrow> flags_in f \<noteq> {}" "list_all id f \<longleftrightarrow> flags_in f = {..<length f}"
  by (auto simp: flags_in_def list_all_length list_ex_length)

lemma Set_flag_in: "v < length f \<Longrightarrow>
    map_option flags_in (Set_flag v b f) = Some (if b then insert v (flags_in f) else flags_in f - {v})"
  by (simp add: Set_flag_def bitset_set_def flags_in_set)

lemma Flip_flag_in: "v < length f \<Longrightarrow>
    map_option flags_in (Flip_flag v f) = Some (if v \<in> flags_in f then flags_in f - {v} else insert v (flags_in f))"
  by (auto simp: Flip_flag_def bitset_test_def bitset_set_def flags_in_set) (auto simp: flags_in_def)

text \<open>
  C29. A flag set refines a set of flags: each operation on flags in range does to the flags it holds what the
  operation of that name does to a set, and neither an assertion nor a bound of the bit set fails.
\<close>

theorem FlagSet_refines_set:
  assumes len: "length f = n" "length g = n" and v: "v < n" and vs: "\<forall>u \<in> set vs. u < n"
  shows "flags_in (FlagSet_new n) = {} \<and>
    map_option flags_in (FlagSet_of n v) = Some {v} \<and>
    map_option flags_in (FlagSet_of_list n vs) = Some (set vs) \<and>
    map_option flags_in (and_flag f v) = Some (flags_in f \<inter> {v}) \<and>
    map_option flags_in (and_flag_copy f v) = Some (flags_in f \<inter> {v}) \<and>
    map_option flags_in (or_flag f v) = Some (insert v (flags_in f)) \<and>
    map_option flags_in (or_flag_copy f v) = Some (insert v (flags_in f)) \<and>
    map_option flags_in (Set_flag v b f) = Some (if b then insert v (flags_in f) else flags_in f - {v}) \<and>
    map_option flags_in (Reset_flag v f) = Some (flags_in f - {v}) \<and>
    map_option flags_in (Flip_flag v f) =
      Some (if v \<in> flags_in f then flags_in f - {v} else insert v (flags_in f)) \<and>
    flags_in (and_set f g) = flags_in f \<inter> flags_in g \<and>
    flags_in (or_set f g) = flags_in f \<union> flags_in g \<and>
    flags_in (Flags_not f) = {..<n} - flags_in f \<and> flags_in (Flip_all f) = {..<n} - flags_in f \<and>
    flags_in (Set_all f) = {..<n} \<and> flags_in (Reset_all f) = {} \<and>
    Flags_at f v = Some (v \<in> flags_in f) \<and>
    (Flags_eq f g \<longleftrightarrow> flags_in f = flags_in g) \<and> (Flags_neq f g \<longleftrightarrow> flags_in f \<noteq> flags_in g) \<and>
    Flags_Count f = card (flags_in f) \<and> Flags_Size f = n \<and>
    (Flags_Any f \<longleftrightarrow> flags_in f \<noteq> {}) \<and> (Flags_bool f \<longleftrightarrow> flags_in f \<noteq> {}) \<and>
    (Flags_All f \<longleftrightarrow> flags_in f = {..<n}) \<and>
    (Flags_None f \<longleftrightarrow> flags_in f = {})"
proof -
  have made: "flags_in (FlagSet_new n) = {}" "map_option flags_in (FlagSet_of n v) = Some {v}"
    "map_option flags_in (FlagSet_of_list n vs) = Some (set vs)"
    using set_each_in [of vs "FlagSet_new n"] v vs
    by (auto simp: FlagSet_of_list_def FlagSet_of_def FlagSet_new_def bitset_set_def flags_in_set)
  have masked: "map_option flags_in (and_flag f v) = Some (flags_in f \<inter> {v})"
    "map_option flags_in (and_flag_copy f v) = Some (flags_in f \<inter> {v})"
    using flags_in_and_flag [of v f] v len by (auto simp: and_flag_copy_eq)
  have joined: "map_option flags_in (or_flag f v) = Some (insert v (flags_in f))"
    "map_option flags_in (or_flag_copy f v) = Some (insert v (flags_in f))"
    "map_option flags_in (Reset_flag v f) = Some (flags_in f - {v})"
    using v len by (simp_all add: or_flag_copy_eq or_flag_def Reset_flag_def bitset_set_def flags_in_set)
  have combined: "flags_in (and_set f g) = flags_in f \<inter> flags_in g" "flags_in (or_set f g) = flags_in f \<union> flags_in g"
    using len by (simp_all add: flags_in_binary)
  have whole: "flags_in (Flags_not f) = {..<n} - flags_in f" "flags_in (Flip_all f) = {..<n} - flags_in f"
    "flags_in (Set_all f) = {..<n}" "flags_in (Reset_all f) = {}"
    using len by (simp_all add: Flags_not_def Flip_all_def Set_all_def Reset_all_def flags_in_not flags_in_all)
  have read: "Flags_at f v = Some (v \<in> flags_in f)" "Flags_eq f g \<longleftrightarrow> flags_in f = flags_in g"
    "Flags_neq f g \<longleftrightarrow> flags_in f \<noteq> flags_in g" "Flags_Size f = n"
    using v len flags_in_inject [of f g]
    by (simp_all add: Flags_at_def bitset_test_def Flags_eq_def Flags_neq_def Flags_Size_def) (simp add: flags_in_def)
  have tests: "Flags_Any f \<longleftrightarrow> flags_in f \<noteq> {}" "Flags_bool f \<longleftrightarrow> flags_in f \<noteq> {}"
    "Flags_All f \<longleftrightarrow> flags_in f = {..<n}" "Flags_None f \<longleftrightarrow> flags_in f = {}"
    using len by (simp_all add: Flags_Any_def Flags_bool_def Flags_All_def Flags_None_def any_flag)
  show ?thesis
    using v len by (intro conjI) (rule made masked joined combined whole read tests flags_in_count [symmetric] Set_flag_in Flip_flag_in | simp)+
qed

lemma FlagSet_refines_set_witness:
  "map_option flags_in (FlagSet_of_list 3 [2, 0]) = Some (set [2, 0]) \<and>
   Flags_Count [True, False, True] = card (flags_in [True, False, True])"
  using FlagSet_refines_set [of "[True, False, True]" 3 "[True, False, True]" 1 "[2, 0]"]
  by simp

end
