(* ===== verification/Material_Pbr.thy ===== *)
theory Material_Pbr
  imports System_Paths Flag_Set Gz_Math "HOL-Library.Word"
begin

section \<open>Material and Pbr\<close>

text \<open>
  \<^verbatim>\<open>graphics/src/Material.cc\<close> and \<^verbatim>\<open>graphics/src/Pbr.cc\<close>. Colours (\<open>math::Color\<close>, with its
  constructor and \<open>Set\<close>) are a parameter, image data is an address (\<^const>\<open>None\<close> for the null
  pointer), and a number the constructor leaves uninitialised is \<^const>\<open>None\<close>. The count of
  materials is a static 32-bit variable, which the constructors pass on.
\<close>

subsection \<open>Pbr\<close>

datatype PbrType = PBR_NONE | PBR_METAL | PBR_SPECULAR

datatype NormalMapSpace = NORMAL_TANGENT | NORMAL_OBJECT

record Pbr =
  pbr_type :: PbrType
  albedoMap :: string
  normalMap :: string
  normalMapData :: "nat option"
  normalMapSpace :: NormalMapSpace
  environmentMap :: string
  ambientOcclusionMap :: string
  roughnessMap :: string
  roughnessMapData :: "nat option"
  metalnessMap :: string
  metalnessMapData :: "nat option"
  emissiveMap :: string
  emissiveMapData :: "nat option"
  lightMap :: string
  lightMapData :: "nat option"
  lightMapUvSet :: "32 word"
  roughness :: real
  metalness :: real
  specularMap :: string
  glossinessMap :: string
  glossiness :: real

definition Pbr_new :: Pbr where
  "Pbr_new =
     \<lparr> pbr_type = PBR_NONE, albedoMap = [], normalMap = [], normalMapData = None,
       normalMapSpace = NORMAL_TANGENT, environmentMap = [], ambientOcclusionMap = [],
       roughnessMap = [], roughnessMapData = None, metalnessMap = [], metalnessMapData = None,
       emissiveMap = [], emissiveMapData = None, lightMap = [], lightMapData = None,
       lightMapUvSet = 0, roughness = 1 / 2, metalness = 0, specularMap = [], glossinessMap = [],
       glossiness = 0 \<rparr>"

definition Pbr_eq :: "gz_math \<Rightarrow> Pbr \<Rightarrow> Pbr \<Rightarrow> bool" where
  "Pbr_eq M p q \<longleftrightarrow>
     albedoMap p = albedoMap q \<and> normalMap p = normalMap q \<and> normalMapData p = normalMapData q \<and>
     metalnessMap p = metalnessMap q \<and> metalnessMapData p = metalnessMapData q \<and>
     roughnessMap p = roughnessMap q \<and> roughnessMapData p = roughnessMapData q \<and>
     glossinessMap p = glossinessMap q \<and> environmentMap p = environmentMap q \<and>
     emissiveMap p = emissiveMap q \<and> emissiveMapData p = emissiveMapData q \<and>
     lightMap p = lightMap q \<and> lightMapData p = lightMapData q \<and>
     ambientOcclusionMap p = ambientOcclusionMap q \<and>
     equal_d M (metalness p) (metalness q) \<and> equal_d M (roughness p) (roughness q) \<and>
     equal_d M (glossiness p) (glossiness q)"

definition Pbr_neq :: "gz_math \<Rightarrow> Pbr \<Rightarrow> Pbr \<Rightarrow> bool" where
  "Pbr_neq M p q \<longleftrightarrow> \<not> Pbr_eq M p q"

definition AlbedoMap :: "Pbr \<Rightarrow> string" where
  "AlbedoMap p = albedoMap p"

definition SetAlbedoMap :: "string \<Rightarrow> Pbr \<Rightarrow> Pbr" where
  "SetAlbedoMap m p = p \<lparr> albedoMap := m \<rparr>"

definition NormalMap :: "Pbr \<Rightarrow> string" where
  "NormalMap p = normalMap p"

definition NormalMapType :: "Pbr \<Rightarrow> NormalMapSpace" where
  "NormalMapType p = normalMapSpace p"

definition NormalMapData :: "Pbr \<Rightarrow> nat option" where
  "NormalMapData p = normalMapData p"

definition SetNormalMap :: "string \<Rightarrow> NormalMapSpace \<Rightarrow> nat option \<Rightarrow> Pbr \<Rightarrow> Pbr" where
  "SetNormalMap m space img p =
     p \<lparr> normalMap := m, normalMapSpace := space, normalMapData := img \<rparr>"

definition EnvironmentMap :: "Pbr \<Rightarrow> string" where
  "EnvironmentMap p = environmentMap p"

definition SetEnvironmentMap :: "string \<Rightarrow> Pbr \<Rightarrow> Pbr" where
  "SetEnvironmentMap m p = p \<lparr> environmentMap := m \<rparr>"

definition AmbientOcclusionMap :: "Pbr \<Rightarrow> string" where
  "AmbientOcclusionMap p = ambientOcclusionMap p"

definition SetAmbientOcclusionMap :: "string \<Rightarrow> Pbr \<Rightarrow> Pbr" where
  "SetAmbientOcclusionMap m p = p \<lparr> ambientOcclusionMap := m \<rparr>"

definition RoughnessMap :: "Pbr \<Rightarrow> string" where
  "RoughnessMap p = roughnessMap p"

definition RoughnessMapData :: "Pbr \<Rightarrow> nat option" where
  "RoughnessMapData p = roughnessMapData p"

definition SetRoughnessMap :: "string \<Rightarrow> nat option \<Rightarrow> Pbr \<Rightarrow> Pbr" where
  "SetRoughnessMap m img p = p \<lparr> roughnessMap := m, roughnessMapData := img \<rparr>"

definition MetalnessMap :: "Pbr \<Rightarrow> string" where
  "MetalnessMap p = metalnessMap p"

definition MetalnessMapData :: "Pbr \<Rightarrow> nat option" where
  "MetalnessMapData p = metalnessMapData p"

definition SetMetalnessMap :: "string \<Rightarrow> nat option \<Rightarrow> Pbr \<Rightarrow> Pbr" where
  "SetMetalnessMap m img p = p \<lparr> metalnessMap := m, metalnessMapData := img \<rparr>"

definition Metalness :: "Pbr \<Rightarrow> real" where
  "Metalness p = metalness p"

definition SetMetalness :: "real \<Rightarrow> Pbr \<Rightarrow> Pbr" where
  "SetMetalness x p = p \<lparr> metalness := x \<rparr>"

definition Roughness :: "Pbr \<Rightarrow> real" where
  "Roughness p = roughness p"

definition SetRoughness :: "real \<Rightarrow> Pbr \<Rightarrow> Pbr" where
  "SetRoughness x p = p \<lparr> roughness := x \<rparr>"

definition SpecularMap :: "Pbr \<Rightarrow> string" where
  "SpecularMap p = specularMap p"

definition SetSpecularMap :: "string \<Rightarrow> Pbr \<Rightarrow> Pbr" where
  "SetSpecularMap m p = p \<lparr> specularMap := m \<rparr>"

definition GlossinessMap :: "Pbr \<Rightarrow> string" where
  "GlossinessMap p = glossinessMap p"

definition SetGlossinessMap :: "string \<Rightarrow> Pbr \<Rightarrow> Pbr" where
  "SetGlossinessMap m p = p \<lparr> glossinessMap := m \<rparr>"

definition SetGlossiness :: "real \<Rightarrow> Pbr \<Rightarrow> Pbr" where
  "SetGlossiness x p = p \<lparr> glossiness := x \<rparr>"

definition Glossiness :: "Pbr \<Rightarrow> real" where
  "Glossiness p = glossiness p"

definition EmissiveMap :: "Pbr \<Rightarrow> string" where
  "EmissiveMap p = emissiveMap p"

definition EmissiveMapData :: "Pbr \<Rightarrow> nat option" where
  "EmissiveMapData p = emissiveMapData p"

definition SetEmissiveMap :: "string \<Rightarrow> nat option \<Rightarrow> Pbr \<Rightarrow> Pbr" where
  "SetEmissiveMap m img p = p \<lparr> emissiveMap := m, emissiveMapData := img \<rparr>"

definition LightMap :: "Pbr \<Rightarrow> string" where
  "LightMap p = lightMap p"

definition LightMapData :: "Pbr \<Rightarrow> nat option" where
  "LightMapData p = lightMapData p"

definition SetLightMap :: "string \<Rightarrow> 32 word \<Rightarrow> nat option \<Rightarrow> Pbr \<Rightarrow> Pbr" where
  "SetLightMap m uvSet img p = p \<lparr> lightMap := m, lightMapUvSet := uvSet, lightMapData := img \<rparr>"

definition LightMapTexCoordSet :: "Pbr \<Rightarrow> 32 word" where
  "LightMapTexCoordSet p = lightMapUvSet p"

definition Pbr_Type :: "Pbr \<Rightarrow> PbrType" where
  "Pbr_Type p = pbr_type p"

definition Pbr_SetType :: "PbrType \<Rightarrow> Pbr \<Rightarrow> Pbr" where
  "Pbr_SetType t p = p \<lparr> pbr_type := t \<rparr>"

subsection \<open>Material\<close>

datatype ShadeMode = FLAT | GOURAUD | PHONG | BLINN

datatype BlendMode = ADD | MODULATE | REPLACE

fun shade_number :: "ShadeMode \<Rightarrow> nat" where
  "shade_number FLAT = 0"
| "shade_number GOURAUD = 1"
| "shade_number PHONG = 2"
| "shade_number BLINN = 3"

fun blend_number :: "BlendMode \<Rightarrow> nat" where
  "blend_number ADD = 0"
| "blend_number MODULATE = 1"
| "blend_number REPLACE = 2"

definition shadeModeIface :: EnumIface where
  "shadeModeIface = gzEnum 0 4 [''FLAT'', ''GOURAUD'', ''PHONG'', ''BLINN'']"

definition blendModeIface :: EnumIface where
  "blendModeIface = gzEnum 0 3 [''ADD'', ''MODULATE'', ''REPLACE'']"

record 'c gz_color =
  default_c :: 'c
  Set_c :: "real \<Rightarrow> real \<Rightarrow> real \<Rightarrow> real \<Rightarrow> 'c \<Rightarrow> 'c"

record 'c Material =
  mat_name :: string
  texImage :: string
  texData :: "nat option"
  ambient :: 'c
  diffuse :: 'c
  specular :: 'c
  emissive :: 'c
  transparency :: real
  textureAlphaEnabled :: bool
  alphaThreshold :: real
  twoSidedEnabled :: bool
  renderOrder :: real
  shininess :: real
  pointSize :: "real option"
  blendMode :: BlendMode
  shadeMode :: ShadeMode
  depthWrite :: bool
  lighting :: bool
  srcBlendFactor :: "real option"
  dstBlendFactor :: "real option"
  pbr :: "Pbr option"

definition material_name :: "32 word \<Rightarrow> string" where
  "material_name counter = ''gz_material_'' @ show_nat (unat counter)"

definition Material_new :: "'c gz_color \<Rightarrow> 32 word \<Rightarrow> 'c Material \<times> 32 word" where
  "Material_new C counter =
     (\<lparr> mat_name = material_name counter, texImage = [], texData = None,
        ambient = Set_c C (4 / 10) (4 / 10) (4 / 10) 1 (default_c C),
        diffuse = Set_c C (5 / 10) (5 / 10) (5 / 10) 1 (default_c C),
        specular = Set_c C 0 0 0 1 (default_c C), emissive = default_c C, transparency = 0,
        textureAlphaEnabled = False, alphaThreshold = 5 / 10, twoSidedEnabled = False,
        renderOrder = 0, shininess = 0, pointSize = None, blendMode = REPLACE,
        shadeMode = GOURAUD, depthWrite = True, lighting = True, srcBlendFactor = Some 1,
        dstBlendFactor = Some 1, pbr = None \<rparr>, counter + 1)"

definition Material_of_color :: "'c gz_color \<Rightarrow> 'c \<Rightarrow> 32 word \<Rightarrow> 'c Material \<times> 32 word" where
  "Material_of_color C clr counter =
     (\<lparr> mat_name = material_name counter, texImage = [], texData = None, ambient = clr,
        diffuse = clr, specular = default_c C, emissive = default_c C, transparency = 0,
        textureAlphaEnabled = False, alphaThreshold = 5 / 10, twoSidedEnabled = False,
        renderOrder = 0, shininess = 0, pointSize = None, blendMode = REPLACE,
        shadeMode = GOURAUD, depthWrite = True, lighting = True, srcBlendFactor = None,
        dstBlendFactor = None, pbr = None \<rparr>, counter + 1)"

definition Material_Name :: "'c Material \<Rightarrow> string" where
  "Material_Name m = mat_name m"

definition SetTextureImage :: "string \<Rightarrow> nat option \<Rightarrow> 'c Material \<Rightarrow> 'c Material" where
  "SetTextureImage tex img m = m \<lparr> texImage := tex, texData := img \<rparr>"

definition TextureData :: "'c Material \<Rightarrow> nat option" where
  "TextureData m = texData m"

text \<open>The variadic \<open>joinPaths\<close> joins the first two arguments with the join of the others.\<close>

fun joinPaths_all :: "string \<Rightarrow> string list \<Rightarrow> string" where
  "joinPaths_all p [] = p"
| "joinPaths_all p [q] = joinPaths p q"
| "joinPaths_all p (q # r # rest) = joinPaths (joinPaths p q) (joinPaths_all r rest)"

definition SetTextureImage_in ::
    "(string \<Rightarrow> bool) \<Rightarrow> string \<Rightarrow> SystemPaths \<Rightarrow> string \<Rightarrow> string \<Rightarrow> 'c Material \<Rightarrow>
     'c Material option" where
  "SetTextureImage_in ex dir sp tex resourcePath m =
     (let m1 = m \<lparr> texImage := joinPaths resourcePath tex, texData := None \<rparr>
      in if ex (texImage m1) then Some m1
         else do {
           found \<leftarrow> findFile ex dir sp tex True;
           if ex found then Some (m1 \<lparr> texImage := found \<rparr>)
           else Some (m1 \<lparr> texImage :=
                  joinPaths_all resourcePath [''..'', ''materials'', ''textures'', tex] \<rparr>) })"

definition TextureImage :: "'c Material \<Rightarrow> string" where
  "TextureImage m = texImage m"

definition SetAmbient :: "'c \<Rightarrow> 'c Material \<Rightarrow> 'c Material" where
  "SetAmbient c m = m \<lparr> ambient := c \<rparr>"

definition Ambient :: "'c Material \<Rightarrow> 'c" where
  "Ambient m = ambient m"

definition SetDiffuse :: "'c \<Rightarrow> 'c Material \<Rightarrow> 'c Material" where
  "SetDiffuse c m = m \<lparr> diffuse := c \<rparr>"

definition Diffuse :: "'c Material \<Rightarrow> 'c" where
  "Diffuse m = diffuse m"

definition SetSpecular :: "'c \<Rightarrow> 'c Material \<Rightarrow> 'c Material" where
  "SetSpecular c m = m \<lparr> specular := c \<rparr>"

definition Specular :: "'c Material \<Rightarrow> 'c" where
  "Specular m = specular m"

definition SetEmissive :: "'c \<Rightarrow> 'c Material \<Rightarrow> 'c Material" where
  "SetEmissive c m = m \<lparr> emissive := c \<rparr>"

definition Emissive :: "'c Material \<Rightarrow> 'c" where
  "Emissive m = emissive m"

definition SetTransparency :: "real \<Rightarrow> 'c Material \<Rightarrow> 'c Material" where
  "SetTransparency t m =
     (let m1 = m \<lparr> transparency := min t 1 \<rparr> in m1 \<lparr> transparency := max (transparency m1) 0 \<rparr>)"

definition Transparency :: "'c Material \<Rightarrow> real" where
  "Transparency m = transparency m"

definition SetAlphaFromTexture :: "bool \<Rightarrow> real \<Rightarrow> bool \<Rightarrow> 'c Material \<Rightarrow> 'c Material" where
  "SetAlphaFromTexture enabled alpha twoSided m =
     m \<lparr> textureAlphaEnabled := enabled, alphaThreshold := alpha, twoSidedEnabled := twoSided \<rparr>"

definition TextureAlphaEnabled :: "'c Material \<Rightarrow> bool" where
  "TextureAlphaEnabled m = textureAlphaEnabled m"

definition AlphaThreshold :: "'c Material \<Rightarrow> real" where
  "AlphaThreshold m = alphaThreshold m"

definition TwoSidedEnabled :: "'c Material \<Rightarrow> bool" where
  "TwoSidedEnabled m = twoSidedEnabled m"

definition SetShininess :: "real \<Rightarrow> 'c Material \<Rightarrow> 'c Material" where
  "SetShininess s m = m \<lparr> shininess := s \<rparr>"

definition Shininess :: "'c Material \<Rightarrow> real" where
  "Shininess m = shininess m"

definition SetRenderOrder :: "real \<Rightarrow> 'c Material \<Rightarrow> 'c Material" where
  "SetRenderOrder r m = m \<lparr> renderOrder := r \<rparr>"

definition RenderOrder :: "'c Material \<Rightarrow> real" where
  "RenderOrder m = renderOrder m"

definition SetBlendFactors :: "real \<Rightarrow> real \<Rightarrow> 'c Material \<Rightarrow> 'c Material" where
  "SetBlendFactors src dst m = m \<lparr> srcBlendFactor := Some src, dstBlendFactor := Some dst \<rparr>"

definition BlendFactors :: "'c Material \<Rightarrow> real option \<times> real option" where
  "BlendFactors m = (srcBlendFactor m, dstBlendFactor m)"

definition SetBlend :: "BlendMode \<Rightarrow> 'c Material \<Rightarrow> 'c Material" where
  "SetBlend b m = m \<lparr> blendMode := b \<rparr>"

definition Blend :: "'c Material \<Rightarrow> BlendMode" where
  "Blend m = blendMode m"

definition SetShade :: "ShadeMode \<Rightarrow> 'c Material \<Rightarrow> 'c Material" where
  "SetShade s m = m \<lparr> shadeMode := s \<rparr>"

definition Shade :: "'c Material \<Rightarrow> ShadeMode" where
  "Shade m = shadeMode m"

definition SetPointSize :: "real \<Rightarrow> 'c Material \<Rightarrow> 'c Material" where
  "SetPointSize s m = m \<lparr> pointSize := Some s \<rparr>"

definition PointSize :: "'c Material \<Rightarrow> real option" where
  "PointSize m = pointSize m"

definition SetDepthWrite :: "bool \<Rightarrow> 'c Material \<Rightarrow> 'c Material" where
  "SetDepthWrite b m = m \<lparr> depthWrite := b \<rparr>"

definition DepthWrite :: "'c Material \<Rightarrow> bool" where
  "DepthWrite m = depthWrite m"

definition SetLighting :: "bool \<Rightarrow> 'c Material \<Rightarrow> 'c Material" where
  "SetLighting b m = m \<lparr> lighting := b \<rparr>"

definition Lighting :: "'c Material \<Rightarrow> bool" where
  "Lighting m = lighting m"

definition BlendStr :: "'c Material \<Rightarrow> string" where
  "BlendStr m = Enum_Str blendModeIface (blend_number (Blend m))"

definition ShadeStr :: "'c Material \<Rightarrow> string" where
  "ShadeStr m = Enum_Str shadeModeIface (shade_number (Shade m))"

definition SetPbrMaterial :: "Pbr \<Rightarrow> 'c Material \<Rightarrow> 'c Material" where
  "SetPbrMaterial p m = m \<lparr> pbr := Some p \<rparr>"

definition PbrMaterial :: "'c Material \<Rightarrow> Pbr option" where
  "PbrMaterial m = pbr m"

subsection \<open>Lemmas\<close>

lemma SetTransparency_range:
  "0 \<le> Transparency (SetTransparency t m) \<and> Transparency (SetTransparency t m) \<le> 1"
  by (simp add: Transparency_def SetTransparency_def Let_def)

text \<open>The names of the shading and blend modes can be read back.\<close>

lemma ShadeStr_read: "Enum_Set shadeModeIface e (ShadeStr m) = shade_number (Shade m)"
  unfolding ShadeStr_def
  by (rule Enum_Set_Str) (cases "Shade m"; simp add: shadeModeIface_def gzEnum_def)+

lemma BlendStr_read: "Enum_Set blendModeIface e (BlendStr m) = blend_number (Blend m)"
  unfolding BlendStr_def
  by (rule Enum_Set_Str) (cases "Blend m"; simp add: blendModeIface_def gzEnum_def)+

lemma Pbr_eq_ignores:
  assumes "\<And>x. equal_d M x x"
  shows "Pbr_eq M p (p \<lparr> specularMap := s, normalMapSpace := n, lightMapUvSet := u, pbr_type := t \<rparr>)"
  by (simp add: Pbr_eq_def assms)

text \<open>A program makes materials one after the other, with either constructor.\<close>

fun make_materials :: "'c gz_color \<Rightarrow> 'c option list \<Rightarrow> 32 word \<Rightarrow> 'c Material list" where
  "make_materials C [] n = []"
| "make_materials C (c # cs) n =
     (let (m, n') = (case c of None \<Rightarrow> Material_new C n | Some clr \<Rightarrow> Material_of_color C clr n)
      in m # make_materials C cs n')"

lemma make_materials_names:
  "map Material_Name (make_materials C cs n) = map (\<lambda>i. material_name (n + of_nat i)) [0..<length cs]"
proof (induction cs arbitrary: n)
  case (Cons c cs)
  have "[0..<length (c # cs)] = 0 # map Suc [0..<length cs]"
    by (simp add: map_Suc_upt upt_conv_Cons del: upt_Suc)
  with Cons.IH [of "n + 1"] show ?case
    by (auto simp: Material_Name_def Material_new_def Material_of_color_def o_def algebra_simps
        split: option.split)
qed simp

lemma material_name_inject: "material_name a = material_name b \<longleftrightarrow> a = b"
  by (simp add: material_name_def word_unat_eq_iff)

subsection \<open>Properties\<close>

text \<open>
  A texture given by a name and a resource path is set to the first of the path itself, the file
  the system paths know under that name and the \<open>materials/textures\<close> directory beside the resources
  that exists, and to the last one when none does; the call always returns, and drops texture data.
\<close>

theorem SetTextureImage_first_existing:
  "\<exists>m' found. SetTextureImage_in ex dir sp tex res m = Some m' \<and>
     findFile ex dir sp tex True = Some found \<and> TextureData m' = None \<and>
     TextureImage m' =
       (case find_index ex [joinPaths res tex, found] of
          Some i \<Rightarrow> [joinPaths res tex, found] ! i
        | None \<Rightarrow> joinPaths (joinPaths res ''..'') (joinPaths (joinPaths ''materials'' ''textures'') tex))"
proof -
  obtain found where "findFile ex dir sp tex True = Some found"
    using FindFile_returns [of ex dir sp tex True] by (auto simp: findFile_def)
  then show ?thesis
    by (auto simp: SetTextureImage_in_def TextureData_def TextureImage_def)
qed

text \<open>
  The materials a program makes have names of their own, up to \<open>2 ^ 32\<close> of them.
\<close>

theorem Materials_named_apart:
  assumes "length cs \<le> 2 ^ 32"
  shows "distinct (map Material_Name (make_materials C cs n))"
proof -
  have "inj_on (\<lambda>i. n + of_nat i :: 32 word) {..<length cs}"
  proof (rule inj_onI)
    fix i j assume ij: "i \<in> {..<length cs}" "j \<in> {..<length cs}" "n + of_nat i = n + (of_nat j :: 32 word)"
    then have "unat (of_nat i :: 32 word) = unat (of_nat j :: 32 word)" by simp
    then show "i = j" using ij(1,2) assms by (simp add: unat_of_nat)
  qed
  then show ?thesis
    by (simp add: make_materials_names distinct_map inj_on_def material_name_inject atLeast0LessThan)
qed

end
