(* ===== verification/Number_Text.thy ===== *)
theory Number_Text
  imports Complex_Main Cpp_Prelude
begin

section \<open>Numbers in texts\<close>

text \<open>
  How the C library reads decimal floating point numbers: the loaders call it through \<open>sscanf\<close>,
  \<open>std::stod\<close> and \<open>std::atof\<close>. The value is the exact real number; \<open>inf\<close>, \<open>nan\<close> and hexadecimal
  numbers are not modelled. They differ on an exponent without digits: for \<open>sscanf\<close> it makes
  the whole conversion fail, for \<open>strtod\<close> it is not part of the number.
\<close>

definition scan_sign :: "string \<Rightarrow> bool \<times> string" where
  "scan_sign s =
     (case s of
        [] \<Rightarrow> (False, s)
      | c # r \<Rightarrow> if c = CHR ''-'' then (True, r) else if c = CHR ''+'' then (False, r) else (False, s))"

definition scan_digits :: "string \<Rightarrow> string \<times> string" where
  "scan_digits s = (takeWhile isdigit s, dropWhile isdigit s)"

definition scan_fraction :: "string \<Rightarrow> string \<times> string" where
  "scan_fraction s =
     (case s of [] \<Rightarrow> ([], s) | c # r \<Rightarrow> if c = CHR ''.'' then scan_digits r else ([], s))"

definition scan_exponent :: "string \<Rightarrow> (int \<times> string) option" where
  "scan_exponent s =
     (case s of
        [] \<Rightarrow> Some (0, s)
      | c # r \<Rightarrow>
          if c = CHR ''e'' \<or> c = CHR ''E''
          then (case scan_sign r of
                  (neg, r1) \<Rightarrow>
                    (case scan_digits r1 of
                       (es, r2) \<Rightarrow>
                         if es = [] then None
                         else Some (if neg then - int (read_nat es) else int (read_nat es), r2)))
          else Some (0, s))"

definition scan_number :: "string \<Rightarrow> (real \<times> string) option" where
  "scan_number s =
     (case scan_sign s of
        (neg, s1) \<Rightarrow>
          (case scan_digits s1 of
             (ds, s2) \<Rightarrow>
               (case scan_fraction s2 of
                  (fs, s3) \<Rightarrow>
                    if ds = [] \<and> fs = [] then None
                    else
                      (case scan_exponent s3 of
                         None \<Rightarrow> None
                       | Some (e, s4) \<Rightarrow>
                           let v = real (read_nat (ds @ fs)) / 10 ^ length fs *
                                   (if e < 0 then 1 / 10 ^ nat (- e) else 10 ^ nat e)
                           in Some (if neg then - v else v, s4)))))"

text \<open>\<open>strtod\<close>, \<open>std::stod\<close> (which throws when there is no number) and \<open>std::atof\<close>.\<close>

definition strtod :: "string \<Rightarrow> (real \<times> string) option" where
  "strtod s =
     (case scan_sign (dropWhile isspace s) of
        (neg, s1) \<Rightarrow>
          (case scan_digits s1 of
             (ds, s2) \<Rightarrow>
               (case scan_fraction s2 of
                  (fs, s3) \<Rightarrow>
                    if ds = [] \<and> fs = [] then None
                    else
                      (case (case scan_exponent s3 of None \<Rightarrow> (0, s3) | Some r \<Rightarrow> r) of
                         (e, s4) \<Rightarrow>
                           let v = real (read_nat (ds @ fs)) / 10 ^ length fs *
                                   (if e < 0 then 1 / 10 ^ nat (- e) else 10 ^ nat e)
                           in Some (if neg then - v else v, s4)))))"

definition stod :: "string \<Rightarrow> real option" where
  "stod s = map_option fst (strtod s)"

definition atof :: "string \<Rightarrow> real" where
  "atof s = (case strtod s of None \<Rightarrow> 0 | Some (v, _) \<Rightarrow> v)"

end
