(* ===== verification/Stl_Loader.thy ===== *)
theory Stl_Loader
  imports Mesh_Model Number_Text
begin

section \<open>STLLoader: meshes in text and in binary form\<close>

text \<open>
  \<^verbatim>\<open>graphics/src/STLLoader.cc\<close>. A file is the list of its bytes still to read. The variables
  \<open>r1\<close>, \<open>r2\<close>, \<open>r3\<close> that \<open>sscanf\<close> writes keep their value from line to line and start
  uninitialised (\<^const>\<open>None\<close>); reading them then is undefined, which makes the whole result
  \<^const>\<open>None\<close>. Of the texts \<open>%e\<close> accepts the decimal numbers are modelled (not \<open>inf\<close>, \<open>nan\<close> and
  hexadecimal numbers), without rounding; \<open>r4\<close> is written but never read. In the binary form a
  \<open>float\<close> is its bit pattern, least significant byte first; the real number that stands for
  an infinity or a NaN is the parameter \<open>nf\<close>.
\<close>

definition LINE_MAX_LEN :: nat where
  "LINE_MAX_LEN = 256"

subsection \<open>Reading lines and numbers\<close>

fun fgets_upto :: "nat \<Rightarrow> string \<Rightarrow> string \<times> string" where
  "fgets_upto 0 s = ([], s)"
| "fgets_upto (Suc n) [] = ([], [])"
| "fgets_upto (Suc n) (c # s) =
     (if c = CHR 0x0A then ([c], s) else case fgets_upto n s of (l, r) \<Rightarrow> (c # l, r))"

text \<open>\<open>fgets\<close>: the line as a C string, which a zero byte ends early.\<close>

definition fgets :: "string \<Rightarrow> (string \<times> string) option" where
  "fgets s =
     (if s = [] then None
      else case fgets_upto (LINE_MAX_LEN - 1) s of (l, r) \<Rightarrow> Some (takeWhile (\<lambda>c. c \<noteq> CHR 0x00) l, r))"

definition scan_word :: "string \<Rightarrow> string \<times> string" where
  "scan_word s =
     (let s1 = dropWhile isspace s
      in (takeWhile (\<lambda>c. \<not> isspace c) s1, dropWhile (\<lambda>c. \<not> isspace c) s1))"

text \<open>The numbers \<open>sscanf (s, "%*s %e ... %e", ...)\<close> assigns, in order, up to \<open>n\<close> of them.\<close>

fun scan_numbers :: "nat \<Rightarrow> string \<Rightarrow> real list" where
  "scan_numbers 0 s = []"
| "scan_numbers (Suc n) s =
     (case scan_number (dropWhile isspace s) of None \<Rightarrow> [] | Some (v, r) \<Rightarrow> v # scan_numbers n r)"

definition scan_after_word :: "nat \<Rightarrow> string \<Rightarrow> real list" where
  "scan_after_word n s =
     (case scan_word s of (w, r) \<Rightarrow> if w = [] then [] else scan_numbers n r)"

type_synonym scan_regs = "real option list"

definition assign_regs :: "real list \<Rightarrow> scan_regs \<Rightarrow> scan_regs" where
  "assign_regs vs rs = map Some (take (length rs) vs) @ drop (length vs) rs"

definition regs_vector :: "scan_regs \<Rightarrow> Vector3d option" where
  "regs_vector rs =
     do { x \<leftarrow> rs ! 0; y \<leftarrow> rs ! 1; z \<leftarrow> rs ! 2; Some \<lparr> vX = x, vY = y, vZ = z \<rparr> }"

definition toupper :: "char \<Rightarrow> char" where
  "toupper c = (if 97 \<le> code c \<and> code c \<le> 122 then char_of (code c - 32) else c)"

text \<open>Equal up to the case of letters and blanks at the end.\<close>

definition Leqi :: "string \<Rightarrow> string \<Rightarrow> bool" where
  "Leqi s1 s2 \<longleftrightarrow>
     (let nchar = (if length s1 < length s2 then length s1 else length s2)
      in list_all2 (\<lambda>a b. toupper a = toupper b) (take nchar s1) (take nchar s2) \<and>
         (if length s1 > nchar then list_all (\<lambda>c. c = CHR '' '') (drop nchar s1)
          else if length s2 > nchar then list_all (\<lambda>c. c = CHR '' '') (drop nchar s2)
          else True))"

text \<open>The first of the \<open>n\<close> columns of the table that is near \<open>r\<close> in all \<open>m\<close> rows, or -1.\<close>

function column_near :: "gz_math \<Rightarrow> (nat \<Rightarrow> nat \<Rightarrow> real) \<Rightarrow> (nat \<Rightarrow> real) \<Rightarrow> nat \<Rightarrow> nat \<Rightarrow> nat \<Rightarrow> bool" where
  "column_near M a r m j i =
     (if i < m then
        if \<not> equal_d M (a i j) (r i) then False
        else if i = m - 1 then True else column_near M a r m j (Suc i)
      else False)"
  by pat_completeness auto
termination
  by (relation "measure (\<lambda>(M, a, r, m, j, i). m - i)") auto

definition RcolFind :: "gz_math \<Rightarrow> (nat \<Rightarrow> nat \<Rightarrow> real) \<Rightarrow> nat \<Rightarrow> nat \<Rightarrow> (nat \<Rightarrow> real) \<Rightarrow> int" where
  "RcolFind M a m n r =
     (case find_index (\<lambda>j. column_near M a r m j 0) [0..<n] of None \<Rightarrow> - 1 | Some j \<Rightarrow> int j)"

subsection \<open>The text form\<close>

definition AppendVertex :: "Vector3d \<Rightarrow> Vector3d \<Rightarrow> SubMesh \<Rightarrow> SubMesh" where
  "AppendVertex vertex normal s =
     (let s = AddVertex vertex s;
          s = AddNormal normal s
      in AddIndex (VertexCount s - 1) s)"

lemma fgets_upto_length: "fst (fgets_upto n s) @ snd (fgets_upto n s) = s"
  by (induction n s rule: fgets_upto.induct) (auto split: prod.splits)

lemma fgets_upto_nonempty: "0 < n \<Longrightarrow> s \<noteq> [] \<Longrightarrow> fst (fgets_upto n s) \<noteq> []"
  by (cases n; cases s) (auto split: prod.splits)

lemma fgets_shorter: "fgets s = Some (l, r) \<Longrightarrow> length r < length s"
proof -
  assume f: "fgets s = Some (l, r)"
  then have s: "s \<noteq> []" and r: "snd (fgets_upto (LINE_MAX_LEN - 1) s) = r"
    by (auto simp: fgets_def split: prod.splits if_splits)
  have "fst (fgets_upto (LINE_MAX_LEN - 1) s) \<noteq> []"
    using s by (intro fgets_upto_nonempty) (simp_all add: LINE_MAX_LEN_def)
  then show ?thesis
    using arg_cong [OF fgets_upto_length [of "LINE_MAX_LEN - 1" s], of length]
    unfolding r length_greater_0_conv [symmetric] length_append by linarith
qed

text \<open>The loop over the vertices of a facet: it ends before a line without three numbers, or
  at the end of the file (\<^const>\<open>False\<close>).\<close>

function vertex_lines ::
    "Vector3d \<Rightarrow> string \<Rightarrow> scan_regs \<Rightarrow> SubMesh \<Rightarrow> (bool \<times> string \<times> scan_regs \<times> SubMesh) option" where
  "vertex_lines normal s rs sm =
     (case fgets s of
        None \<Rightarrow> Some (False, s, rs, sm)
      | Some (line, s1) \<Rightarrow>
          let vs = scan_after_word 3 line;
              rs1 = assign_regs vs rs
          in if length vs \<noteq> 3 then Some (True, s1, rs1, sm)
             else do { v \<leftarrow> regs_vector rs1;
                       vertex_lines normal s1 rs1 (AppendVertex v normal sm) })"
  by pat_completeness auto
termination
  by (relation "measure (\<lambda>(_, s, _, _). length s)") (auto dest: fgets_shorter)

declare vertex_lines.simps [simp del]

lemma vertex_lines_shorter:
  "vertex_lines normal s rs sm = Some (ok, s', rs', sm') \<Longrightarrow> length s' \<le> length s"
proof (induction normal s rs sm arbitrary: ok s' rs' sm' rule: vertex_lines.induct)
  case (1 normal s rs sm)
  show ?case
  proof (cases "fgets s")
    case None
    with "1.prems" show ?thesis by (simp add: vertex_lines.simps [of normal s])
  next
    case (Some p)
    obtain line s1 where p: "p = (line, s1)" by fastforce
    have s1: "length s1 < length s" using Some p fgets_shorter by blast
    show ?thesis
    proof (cases "length (scan_after_word 3 line) = 3")
      case True
      then obtain v where v: "regs_vector (assign_regs (scan_after_word 3 line) rs) = Some v"
          "vertex_lines normal s1 (assign_regs (scan_after_word 3 line) rs) (AppendVertex v normal sm) =
           Some (ok, s', rs', sm')"
        using "1.prems" Some p by (auto simp: vertex_lines.simps [of normal s] Let_def bind_eq_Some_conv)
      have "length s' \<le> length s1"
        using "1.IH" [OF Some p [symmetric] refl refl _ v(1) v(2)] True by simp
      then show ?thesis using s1 by simp
    next
      case False
      with "1.prems" Some p s1 show ?thesis by (auto simp: vertex_lines.simps [of normal s] Let_def)
    qed
  qed
qed

text \<open>The rest of a facet behind its first line; the normal is read from that line.\<close>

definition read_facet ::
    "string \<Rightarrow> string \<Rightarrow> scan_regs \<Rightarrow> SubMesh \<Rightarrow> (bool \<times> string \<times> scan_regs \<times> SubMesh) option" where
  "read_facet line s rs sm =
     (let rs1 = assign_regs (scan_after_word 3 line) rs
      in do {
        normal \<leftarrow> regs_vector rs1;
        (case fgets s of
           None \<Rightarrow> Some (False, s, rs1, sm)
         | Some (_, s1) \<Rightarrow>
             do { (ok, s2, rs2, sm2) \<leftarrow> vertex_lines normal s1 rs1 sm;
                  Some (case fgets s2 of
                          None \<Rightarrow> (False, s2, rs2, sm2)
                        | Some (_, s3) \<Rightarrow> (True, s3, rs2, sm2)) }) })"

lemma read_facet_shorter:
  assumes "read_facet line s rs sm = Some (ok, s', rs', sm')"
  shows "length s' \<le> length s"
proof -
  let ?rs = "assign_regs (scan_after_word 3 line) rs"
  obtain normal where n: "regs_vector ?rs = Some normal"
    using assms by (auto simp: read_facet_def Let_def bind_eq_Some_conv)
  show ?thesis
  proof (cases "fgets s")
    case None
    then show ?thesis using assms n by (simp add: read_facet_def Let_def)
  next
    case (Some p)
    obtain l s1 where p: "p = (l, s1)" by fastforce
    note s1 = fgets_shorter [OF Some [unfolded p]]
    obtain ok2 s2 rs2 sm2 where v: "vertex_lines normal s1 ?rs sm = Some (ok2, s2, rs2, sm2)"
      using assms n Some p
      by (cases "vertex_lines normal s1 ?rs sm") (auto simp: read_facet_def Let_def)
    with assms n Some p have "s' = s2 \<or> (\<exists>l. fgets s2 = Some (l, s'))"
      by (auto simp: read_facet_def Let_def split: option.splits)
    then have "length s' \<le> length s2" by (auto dest: fgets_shorter)
    with vertex_lines_shorter [OF v] s1 show ?thesis by simp
  qed
qed

text \<open>The loop over the lines: the name of the solid and the sub-mesh. What the loop found
  wrong is not kept: \<open>result\<close> is set again behind it.\<close>

function ascii_loop :: "string \<Rightarrow> scan_regs \<Rightarrow> string \<Rightarrow> SubMesh \<Rightarrow> (string \<times> SubMesh) option" where
  "ascii_loop s rs nm sm =
     (case fgets s of
        None \<Rightarrow> Some (nm, sm)
      | Some (input, s1) \<Rightarrow>
          let next = dropWhile isspace input
          in if next = [] \<or> hd next \<in> {CHR ''#'', CHR ''!'', CHR ''$''} then ascii_loop s1 rs nm sm
             else
               (case scan_word next of
                  (token, rest) \<Rightarrow>
                    if Leqi token ''facet'' then
                      do { (ok, s2, rs2, sm2) \<leftarrow> read_facet rest s1 rs sm;
                           if ok then ascii_loop s2 rs2 nm sm2
                           else Some (nm, sm2) }
                    else if Leqi token ''color'' then
                      ascii_loop s1 (assign_regs (scan_after_word 4 rest) rs) nm sm
                    else if Leqi token ''solid'' then
                      ascii_loop s1 rs (case fst (scan_word rest) of [] \<Rightarrow> nm | w \<Rightarrow> w) sm
                    else if Leqi token ''endsolid'' then ascii_loop s1 rs nm sm
                    else Some (nm, sm)))"
  by pat_completeness auto
termination
  by (relation "measure (\<lambda>(s, _, _, _). length s)")
    (auto dest!: fgets_shorter read_facet_shorter)

declare ascii_loop.simps [simp del]

definition ReadAscii :: "string \<Rightarrow> Mesh \<Rightarrow> (bool \<times> Mesh) option" where
  "ReadAscii s m =
     do { (nm, sm) \<leftarrow> ascii_loop s (replicate 3 None) [] SubMesh_default;
          Some (if VertexCount sm > 0 then (True, snd (AddSubMesh (SetName nm sm) m))
                else (False, m)) }"

subsection \<open>The binary form\<close>

text \<open>\<open>fgetc\<close> gives EOF (all ones) behind the end.\<close>

definition byte_at :: "string \<Rightarrow> nat \<Rightarrow> nat" where
  "byte_at s i = (if i < length s then code (s ! i) else 255)"

definition LongIntRead :: "string \<Rightarrow> 32 word \<times> string" where
  "LongIntRead s =
     (word_of_nat (byte_at s 0 + 256 * byte_at s 1 + 65536 * byte_at s 2 + 16777216 * byte_at s 3),
      drop 4 s)"

definition ShortIntRead :: "string \<Rightarrow> nat \<times> string" where
  "ShortIntRead s = (byte_at s 0 + 256 * byte_at s 1, drop 2 s)"

text \<open>The value of a single precision number.\<close>

definition float_value :: "(32 word \<Rightarrow> real) \<Rightarrow> 32 word \<Rightarrow> real" where
  "float_value nf w =
     (let e = unat (drop_bit 23 w) mod 256;
          f = unat w mod 2 ^ 23;
          v = (if e = 0 then real f / 2 ^ 149
               else real (2 ^ 23 + f) * 2 ^ e / 2 ^ 150)
      in if e = 255 then nf w else if bit w 31 then - v else v)"

definition FloatRead :: "(32 word \<Rightarrow> real) \<Rightarrow> string \<Rightarrow> (real \<times> string) option" where
  "FloatRead nf s =
     (if length s < 4 then None else Some (float_value nf (fst (LongIntRead s)), drop 4 s))"

definition VectorRead :: "(32 word \<Rightarrow> real) \<Rightarrow> string \<Rightarrow> (Vector3d \<times> string) option" where
  "VectorRead nf s =
     do { (x, s) \<leftarrow> FloatRead nf s;
          (y, s) \<leftarrow> FloatRead nf s;
          (z, s) \<leftarrow> FloatRead nf s;
          Some (\<lparr> vX = x, vY = y, vZ = z \<rparr>, s) }"

definition read_face :: "(32 word \<Rightarrow> real) \<Rightarrow> string \<Rightarrow> SubMesh \<Rightarrow> (string \<times> SubMesh) option" where
  "read_face nf s sm =
     do { (normal, s) \<leftarrow> VectorRead nf s;
          (v1, s) \<leftarrow> VectorRead nf s;
          (v2, s) \<leftarrow> VectorRead nf s;
          (v3, s) \<leftarrow> VectorRead nf s;
          Some (snd (ShortIntRead s),
                AppendVertex v3 normal (AppendVertex v2 normal (AppendVertex v1 normal sm))) }"

fun read_faces :: "(32 word \<Rightarrow> real) \<Rightarrow> nat \<Rightarrow> string \<Rightarrow> SubMesh \<Rightarrow> SubMesh option" where
  "read_faces nf 0 s sm = Some sm"
| "read_faces nf (Suc n) s sm =
     do { (s1, sm1) \<leftarrow> read_face nf s sm; read_faces nf n s1 sm1 }"

text \<open>The count of faces is assigned to an \<open>int\<close>.\<close>

definition ReadBinary :: "(32 word \<Rightarrow> real) \<Rightarrow> string \<Rightarrow> Mesh \<Rightarrow> bool \<times> Mesh" where
  "ReadBinary nf s m =
     (case LongIntRead (drop 80 s) of
        (face_num, s1) \<Rightarrow>
          (case read_faces nf (nat (sint face_num)) s1 SubMesh_default of
             None \<Rightarrow> (False, m)
           | Some sm \<Rightarrow> (True, snd (AddSubMesh sm m))))"

text \<open>\<open>STLLoader::Load\<close>: the null pointer for a file that is not there; else a mesh, even when
  nothing could be read.\<close>

definition STL_Load ::
    "(32 word \<Rightarrow> real) \<Rightarrow> (string \<Rightarrow> string option) \<Rightarrow> string \<Rightarrow> Mesh option option" where
  "STL_Load nf disk filename =
     (case disk filename of
        None \<Rightarrow> Some None
      | Some s \<Rightarrow>
          do { (ok, m) \<leftarrow> ReadAscii s Mesh_new;
               Some (Some (if ok then m else snd (ReadBinary nf s m))) })"

subsection \<open>Corners\<close>

text \<open>The sub-mesh of the corners of facets, each with the normal of its facet.\<close>

definition corners_mesh :: "(Vector3d \<times> Vector3d) list \<Rightarrow> SubMesh" where
  "corners_mesh cs =
     SubMesh_default \<lparr> vertices := map fst cs, normals := map snd cs,
                       indices := map word_of_nat [0..<length cs] \<rparr>"

lemma corners_mesh_Nil: "SubMesh_default = corners_mesh []"
  by (simp add: corners_mesh_def SubMesh_default_def SubMesh_new_def)

lemma AppendVertex_corners: "AppendVertex v n (corners_mesh cs) = corners_mesh (cs @ [(v, n)])"
  by (simp add: AppendVertex_def corners_mesh_def AddVertex_def AddNormal_def AddIndex_def
      VertexCount_def SubMesh_default_def SubMesh_new_def)

lemma VertexCount_corners: "VertexCount (corners_mesh cs) = word_of_nat (length cs)"
  by (simp add: VertexCount_def corners_mesh_def)

subsection \<open>A written binary file\<close>

definition le_bytes :: "32 word \<Rightarrow> string" where
  "le_bytes w = map (\<lambda>k. char_of (unat w div 256 ^ k mod 256)) [0, 1, 2, 3]"

type_synonym float_vector = "32 word \<times> 32 word \<times> 32 word"

definition write_vector :: "float_vector \<Rightarrow> string" where
  "write_vector = (\<lambda>(a, b, c). le_bytes a @ le_bytes b @ le_bytes c)"

definition vector_value :: "(32 word \<Rightarrow> real) \<Rightarrow> float_vector \<Rightarrow> Vector3d" where
  "vector_value nf = (\<lambda>(a, b, c).
     \<lparr> vX = float_value nf a, vY = float_value nf b, vZ = float_value nf c \<rparr>)"

type_synonym float_face = "float_vector \<times> float_vector \<times> float_vector \<times> float_vector \<times> char \<times> char"

definition write_face :: "float_face \<Rightarrow> string" where
  "write_face = (\<lambda>(n, a, b, c, x, y).
     write_vector n @ write_vector a @ write_vector b @ write_vector c @ [x, y])"

definition face_corners :: "(32 word \<Rightarrow> real) \<Rightarrow> float_face \<Rightarrow> (Vector3d \<times> Vector3d) list" where
  "face_corners nf = (\<lambda>(n, a, b, c, _). map (\<lambda>v. (vector_value nf v, vector_value nf n)) [a, b, c])"

definition write_binary :: "string \<Rightarrow> float_face list \<Rightarrow> string" where
  "write_binary header fs = header @ le_bytes (word_of_nat (length fs)) @ concat (map write_face fs)"

lemma bytes_sum: "(u::nat) < 2 ^ 32 \<Longrightarrow>
    u mod 256 + 256 * (u div 256 mod 256) + 65536 * (u div 65536 mod 256) +
      16777216 * (u div 16777216 mod 256) = u"
proof -
  assume u: "u < 2 ^ 32"
  then have "u div 16777216 mod 256 = u div 16777216" by (simp add: less_mult_imp_div_less)
  moreover have "u mod 16777216 = 65536 * (u div 65536 mod 256) + u mod 65536"
    using mod_mult2_eq [of u 65536 256] by simp
  moreover have "u mod 65536 = 256 * (u div 256 mod 256) + u mod 256"
    using mod_mult2_eq [of u 256 256] by simp
  moreover have "16777216 * (u div 16777216) + u mod 16777216 = u" by simp
  ultimately show ?thesis by linarith
qed

lemma length_le_bytes [simp]: "length (le_bytes w) = 4"
  by (simp add: le_bytes_def)

lemma LongIntRead_le_bytes [simp]: "LongIntRead (le_bytes w @ r) = (w, r)"
proof -
  have e: "unat w mod 256 + 256 * (unat w div 256 mod 256) + 65536 * (unat w div 65536 mod 256) +
      16777216 * (unat w div 16777216 mod 256) = unat w"
    using unsigned_less [of w, where ?'a = nat] by (intro bytes_sum) simp
  have "word_of_nat (unat w mod 256 + 256 * (unat w div 256 mod 256) +
      65536 * (unat w div 65536 mod 256) + 16777216 * (unat w div 16777216 mod 256)) = w"
    unfolding e by simp
  then show ?thesis
    by (simp add: LongIntRead_def byte_at_def le_bytes_def code_def)
qed

lemma VectorRead_write [simp]: "VectorRead nf (write_vector v @ r) = Some (vector_value nf v, r)"
  by (cases v) (simp add: VectorRead_def FloatRead_def write_vector_def vector_value_def)

lemma read_face_write:
  "read_face nf (write_face f @ r) (corners_mesh cs) = Some (r, corners_mesh (cs @ face_corners nf f))"
  by (cases f) (simp add: read_face_def write_face_def face_corners_def AppendVertex_corners ShortIntRead_def)

lemma read_faces_write:
  "read_faces nf (length fs) (concat (map write_face fs) @ r) (corners_mesh cs) =
     Some (corners_mesh (cs @ concat (map (face_corners nf) fs)))"
  by (induction fs arbitrary: cs) (simp_all add: read_face_write)

lemma sint_of_nat_small: "n < 2 ^ 31 \<Longrightarrow> nat (sint (word_of_nat n :: 32 word)) = n"
  by (simp add: signed_of_nat signed_take_bit_int_eq_self)

subsection \<open>A written text file\<close>

definition text_file :: "string list \<Rightarrow> string" where
  "text_file ls = concat (map (\<lambda>l. l @ [CHR 0x0A]) ls)"

definition line_ok :: "string \<Rightarrow> bool" where
  "line_ok l \<longleftrightarrow> CHR 0x0A \<notin> set l \<and> CHR 0x00 \<notin> set l \<and> Suc (length l) < LINE_MAX_LEN"

text \<open>A text that is read as a number wherever white space or the end follows.\<close>

definition number_value :: "string \<Rightarrow> real" where
  "number_value w = fst (the (scan_number w))"

definition number_text :: "string \<Rightarrow> bool" where
  "number_text w \<longleftrightarrow> w \<noteq> [] \<and> \<not> isspace (hd w) \<and>
     (\<forall>r. r = [] \<or> isspace (hd r) \<longrightarrow> scan_number (w @ r) = Some (number_value w, r))"

definition spaced :: "string list \<Rightarrow> string" where
  "spaced ws = concat (map (\<lambda>w. CHR '' '' # w) ws)"

type_synonym text_vector = "string \<times> string \<times> string"

definition text_words :: "text_vector \<Rightarrow> string list" where
  "text_words = (\<lambda>(x, y, z). [x, y, z])"

definition text_value :: "text_vector \<Rightarrow> Vector3d" where
  "text_value = (\<lambda>(x, y, z). \<lparr> vX = number_value x, vY = number_value y, vZ = number_value z \<rparr>)"

text \<open>A facet is its normal and its vertices; the indentation of its lines is arbitrary, and so is the
  case of each letter of the keywords: \<open>sp\<close> is how a keyword is spelled.\<close>

type_synonym text_facet = "text_vector \<times> text_vector list"

definition stl_keywords :: "string list" where
  "stl_keywords =
     [''solid'', ''facet'', ''normal'', ''outer'', ''loop'', ''vertex'', ''endloop'', ''endfacet'', ''endsolid'']"

definition any_case :: "(string \<Rightarrow> string) \<Rightarrow> bool" where
  "any_case sp \<longleftrightarrow> list_all (\<lambda>w. map tolower (sp w) = w) stl_keywords"

definition vertex_line :: "(string \<Rightarrow> string) \<Rightarrow> string \<Rightarrow> text_vector \<Rightarrow> string" where
  "vertex_line sp ind v = ind @ sp ''vertex'' @ spaced (text_words v)"

definition facet_lines :: "(string \<Rightarrow> string) \<Rightarrow> string \<Rightarrow> text_facet \<Rightarrow> string list" where
  "facet_lines sp ind = (\<lambda>(n, vs).
     [ind @ sp ''facet'' @ '' '' @ sp ''normal'' @ spaced (text_words n), ind @ sp ''outer'' @ '' '' @ sp ''loop''] @
     map (vertex_line sp ind) vs @ [ind @ sp ''endloop'', ind @ sp ''endfacet''])"

definition facet_corners :: "text_facet \<Rightarrow> (Vector3d \<times> Vector3d) list" where
  "facet_corners = (\<lambda>(n, vs). map (\<lambda>v. (text_value v, text_value n)) vs)"

definition stl_lines :: "(string \<Rightarrow> string) \<Rightarrow> string \<Rightarrow> string \<Rightarrow> text_facet list \<Rightarrow> string list" where
  "stl_lines sp ind nm fs =
     [sp ''solid'' @ '' '' @ nm] @ concat (map (facet_lines sp ind) fs) @ [sp ''endsolid'' @ '' '' @ nm]"

lemma fgets_upto_line:
  "CHR 0x0A \<notin> set l \<Longrightarrow> length l < n \<Longrightarrow> fgets_upto n (l @ CHR 0x0A # r) = (l @ [CHR 0x0A], r)"
proof (induction l arbitrary: n)
  case Nil
  then show ?case by (cases n) auto
next
  case (Cons c l)
  then show ?case by (cases n) auto
qed

lemma fgets_line: "line_ok l \<Longrightarrow> fgets (text_file (l # ls)) = Some (l @ [CHR 0x0A], text_file ls)"
  by (auto simp: fgets_def text_file_def line_ok_def fgets_upto_line takeWhile_eq_all_conv)

lemma isspace_blank [simp]: "isspace (CHR '' '')" "isspace (CHR 0x0A)"
  by (simp_all add: isspace_def code_def)

lemma dropWhile_blanks: "set ind \<subseteq> {CHR '' ''} \<Longrightarrow> dropWhile isspace (ind @ r) = dropWhile isspace r"
  by (induction ind) auto

lemma scan_word_append:
  assumes "set ind \<subseteq> {CHR '' ''}" "w \<noteq> []" "\<forall>c \<in> set w. \<not> isspace c" "r = [] \<or> isspace (hd r)"
  shows "scan_word (ind @ w @ r) = (w, r)"
proof -
  have "dropWhile isspace (ind @ w @ r) = w @ r"
    using assms(1-3) by (cases w) (auto simp: dropWhile_blanks)
  moreover have "takeWhile (\<lambda>c. \<not> isspace c) (w @ r) = w" "dropWhile (\<lambda>c. \<not> isspace c) (w @ r) = r"
    using assms(3,4) by (cases r; auto simp: takeWhile_append2 dropWhile_append2)+
  ultimately show ?thesis by (simp add: scan_word_def)
qed

lemma scan_numbers_spaced:
  "\<forall>w \<in> set ws. number_text w \<Longrightarrow>
     scan_numbers (length ws) (spaced ws @ [CHR 0x0A]) = map number_value ws"
proof (induction ws)
  case (Cons w ws)
  have "spaced ws @ [CHR 0x0A] = [] \<or> isspace (hd (spaced ws @ [CHR 0x0A]))"
    by (cases ws) (simp_all add: spaced_def)
  then have "scan_number (w @ spaced ws @ [CHR 0x0A]) = Some (number_value w, spaced ws @ [CHR 0x0A])"
    using Cons.prems by (simp add: number_text_def)
  moreover have "dropWhile isspace (w @ spaced ws @ [CHR 0x0A]) = w @ spaced ws @ [CHR 0x0A]"
    using Cons.prems by (cases w) (auto simp: number_text_def)
  ultimately show ?case using Cons by (simp add: spaced_def)
qed simp

lemma scan_after_word_spaced:
  assumes "set ind \<subseteq> {CHR '' ''}" "w \<noteq> []" "\<forall>c \<in> set w. \<not> isspace c"
    and "\<forall>v \<in> set ws. number_text v" "length ws = n"
  shows "scan_after_word n (ind @ w @ spaced ws @ [CHR 0x0A]) = map number_value ws"
proof -
  have "spaced ws @ [CHR 0x0A] = [] \<or> isspace (hd (spaced ws @ [CHR 0x0A]))"
    by (cases ws) (simp_all add: spaced_def)
  from scan_word_append [OF assms(1-3) this] show ?thesis
    using scan_numbers_spaced [OF assms(4)] assms(2,5) by (simp add: scan_after_word_def)
qed

lemma regs_vector_text:
  assumes "length rs = 3"
  shows "regs_vector (assign_regs (map number_value (text_words v)) rs) = Some (text_value v)"
    and "length (assign_regs vs rs) = 3"
  using assms
  by (auto simp: regs_vector_def assign_regs_def text_words_def text_value_def split: prod.splits)

lemma isspace_tolower: "isspace c \<Longrightarrow> tolower c = c"
  by (auto simp: isspace_def tolower_def isupper_def code_def)

lemma any_case_word:
  assumes "any_case sp" and "w \<in> set stl_keywords"
  shows "sp w \<noteq> []" "\<forall>c \<in> set (sp w). \<not> isspace c"
proof -
  have w: "map tolower (sp w) = w" using assms by (simp add: any_case_def list_all_iff)
  have "w \<noteq> []" "\<forall>c \<in> set w. \<not> isspace c" using assms(2) by (auto simp: stl_keywords_def isspace_def code_def)
  then show "sp w \<noteq> []" "\<forall>c \<in> set (sp w). \<not> isspace c"
    using w by (auto dest: isspace_tolower) (metis imageI isspace_tolower list.set_map)
qed

lemma keyword_words:
  assumes "any_case sp"
  shows "sp ''vertex'' \<noteq> []" "\<forall>c \<in> set (sp ''vertex''). \<not> isspace c"
    and "sp ''normal'' \<noteq> []" "\<forall>c \<in> set (sp ''normal''). \<not> isspace c"
    and "sp ''endloop'' \<noteq> []" "\<forall>c \<in> set (sp ''endloop''). \<not> isspace c"
    and "sp ''facet'' \<noteq> []" "\<forall>c \<in> set (sp ''facet''). \<not> isspace c"
    and "sp ''solid'' \<noteq> []" "\<forall>c \<in> set (sp ''solid''). \<not> isspace c"
    and "sp ''endsolid'' \<noteq> []" "\<forall>c \<in> set (sp ''endsolid''). \<not> isspace c"
  by (intro any_case_word [OF assms], simp add: stl_keywords_def)+

lemma toupper_tolower: "toupper (tolower c) = toupper c"
  by (auto simp: toupper_def tolower_def isupper_def code_def)

lemma tolower_blank: "tolower c = CHR '' '' \<longleftrightarrow> c = CHR '' ''"
proof (cases "isupper c")
  case True
  then have c: "65 \<le> code c" "code c \<le> 90" by (auto simp: isupper_def)
  then have "code (tolower c) = code c + 32" using True by (simp add: tolower_def)
  then have "code (tolower c) \<noteq> 32" "code c \<noteq> 32" using c by simp_all
  then show ?thesis by (auto simp: code_def)
qed (simp add: tolower_def)

text \<open>The case of a word does not matter to the comparison.\<close>

lemma Leqi_tolower: "Leqi (map tolower s) k = Leqi s k"
  by (simp add: Leqi_def Let_def take_map drop_map list_all2_conv_all_nth list_all_iff toupper_tolower tolower_blank)

lemma Leqi_any_case: "any_case sp \<Longrightarrow> w \<in> set stl_keywords \<Longrightarrow> Leqi (sp w) k = Leqi w k"
  using Leqi_tolower [of "sp w" k] by (simp add: any_case_def list_all_iff)

lemma vertex_lines_text:
  assumes sp: "any_case sp" and ind: "set ind \<subseteq> {CHR '' ''}"
  shows "length rs = 3 \<Longrightarrow> \<forall>v \<in> set vs. line_ok (vertex_line sp ind v) \<and> (\<forall>w \<in> set (text_words v). number_text w) \<Longrightarrow>
    line_ok (ind @ sp ''endloop'') \<Longrightarrow>
    \<exists>rs'. length rs' = 3 \<and>
      vertex_lines n (text_file (map (vertex_line sp ind) vs @ (ind @ sp ''endloop'') # ls)) rs (corners_mesh cs) =
        Some (True, text_file ls, rs', corners_mesh (cs @ map (\<lambda>v. (text_value v, n)) vs))"
proof (induction vs arbitrary: rs cs)
  case Nil
  have "scan_after_word 3 (ind @ sp ''endloop'' @ [CHR 0x0A]) = []"
    using scan_word_append [OF ind keyword_words(5,6) [OF sp], of "[CHR 0x0A]"]
    by (simp add: scan_after_word_def scan_number_def scan_sign_def scan_digits_def scan_fraction_def
        numeral_3_eq_3)
  then show ?case
    using Nil fgets_line [of "ind @ sp ''endloop''" ls]
    by (simp add: vertex_lines.simps [of n] Let_def assign_regs_def)
next
  case (Cons v vs)
  let ?rest = "text_file (map (vertex_line sp ind) vs @ (ind @ sp ''endloop'') # ls)"
  have "scan_after_word 3 (vertex_line sp ind v @ [CHR 0x0A]) = map number_value (text_words v)"
    using scan_after_word_spaced [OF ind keyword_words(1,2) [OF sp], of "text_words v" 3] Cons.prems
    by (simp add: vertex_line_def text_words_def split: prod.splits)
  moreover have "length (map number_value (text_words v)) = 3"
    by (simp add: text_words_def split: prod.splits)
  moreover obtain rs' where "length rs' = 3" "vertex_lines n ?rest
      (assign_regs (map number_value (text_words v)) rs) (corners_mesh (cs @ [(text_value v, n)])) =
      Some (True, text_file ls, rs', corners_mesh ((cs @ [(text_value v, n)]) @ map (\<lambda>v. (text_value v, n)) vs))"
    using Cons.IH [of "assign_regs (map number_value (text_words v)) rs" "cs @ [(text_value v, n)]"]
      Cons.prems regs_vector_text(2) by auto
  ultimately show ?case
    using Cons.prems fgets_line [of "vertex_line sp ind v"] regs_vector_text(1) [OF Cons.prems(1)]
    by (simp add: vertex_lines.simps [of n "text_file (vertex_line sp ind v # _)"] Let_def AppendVertex_corners)
qed

text \<open>What a text file has to satisfy to be read: every line fits into the buffer and every
  coordinate is a number.\<close>

definition facet_ok :: "(string \<Rightarrow> string) \<Rightarrow> string \<Rightarrow> text_facet \<Rightarrow> bool" where
  "facet_ok sp ind = (\<lambda>(n, vs).
     (\<forall>l \<in> set (facet_lines sp ind (n, vs)). line_ok l) \<and>
     (\<forall>v \<in> set (n # vs). \<forall>w \<in> set (text_words v). number_text w))"

lemma read_facet_text:
  assumes sp: "any_case sp" and ind: "set ind \<subseteq> {CHR '' ''}" and ok: "facet_ok sp ind (n, vs)" and rs: "length rs = 3"
  shows "\<exists>rs'. length rs' = 3 \<and>
    read_facet ('' '' @ sp ''normal'' @ spaced (text_words n) @ [CHR 0x0A])
      (text_file (tl (facet_lines sp ind (n, vs)) @ ls)) rs (corners_mesh cs) =
      Some (True, text_file ls, rs', corners_mesh (cs @ facet_corners (n, vs)))"
proof -
  let ?rs = "assign_regs (map number_value (text_words n)) rs"
  have words: "\<forall>w \<in> set (text_words n). number_text w"
    and lines: "line_ok (ind @ sp ''outer'' @ '' '' @ sp ''loop'')" "line_ok (ind @ sp ''endloop'')" "line_ok (ind @ sp ''endfacet'')"
    and vs: "\<forall>v \<in> set vs. line_ok (vertex_line sp ind v) \<and> (\<forall>w \<in> set (text_words v). number_text w)"
    using ok by (auto simp: facet_ok_def facet_lines_def)
  have first: "scan_after_word 3 ('' '' @ sp ''normal'' @ spaced (text_words n) @ [CHR 0x0A]) = map number_value (text_words n)"
    using scan_after_word_spaced [of "'' ''" "sp ''normal''" "text_words n" 3] keyword_words(3,4) [OF sp] words
    by (simp add: text_words_def split: prod.splits)
  obtain rs' where rs': "length rs' = 3" "vertex_lines (text_value n)
      (text_file (map (vertex_line sp ind) vs @ (ind @ sp ''endloop'') # (ind @ sp ''endfacet'') # ls)) ?rs (corners_mesh cs) =
      Some (True, text_file ((ind @ sp ''endfacet'') # ls), rs',
        corners_mesh (cs @ map (\<lambda>v. (text_value v, text_value n)) vs))"
    using vertex_lines_text [OF sp ind _ vs lines(2), of ?rs "text_value n" "(ind @ sp ''endfacet'') # ls" cs]
      regs_vector_text(2) [OF rs] by blast
  have tl: "tl (facet_lines sp ind (n, vs)) @ ls =
      (ind @ sp ''outer'' @ '' '' @ sp ''loop'') # map (vertex_line sp ind) vs @ (ind @ sp ''endloop'') # (ind @ sp ''endfacet'') # ls"
    by (simp add: facet_lines_def)
  show ?thesis
    unfolding tl read_facet_def Let_def first
    using rs' regs_vector_text(1) [OF rs, of n] fgets_line [OF lines(1)] fgets_line [OF lines(3)]
    by (simp add: facet_corners_def)
qed

lemma Leqi_keywords:
  "Leqi ''facet'' ''facet''" "\<not> Leqi ''solid'' ''facet''" "\<not> Leqi ''solid'' ''color''"
  "Leqi ''solid'' ''solid''" "\<not> Leqi ''endsolid'' ''facet''" "\<not> Leqi ''endsolid'' ''color''"
  "\<not> Leqi ''endsolid'' ''solid''" "Leqi ''endsolid'' ''endsolid''"
  by (simp_all add: Leqi_def toupper_def code_def)

lemma ascii_loop_line:
  assumes "fgets s = Some (input, s1)" and "dropWhile isspace input = nx"
    and "nx \<noteq> []" "hd nx \<notin> {CHR ''#'', CHR ''!'', CHR ''$''}" and "scan_word nx = (token, rest)"
  shows "ascii_loop s rs nm sm =
     (if Leqi token ''facet'' then
        do { (ok, s2, rs2, sm2) \<leftarrow> read_facet rest s1 rs sm;
             if ok then ascii_loop s2 rs2 nm sm2 else Some (nm, sm2) }
      else if Leqi token ''color'' then ascii_loop s1 (assign_regs (scan_after_word 4 rest) rs) nm sm
      else if Leqi token ''solid'' then
        ascii_loop s1 rs (case fst (scan_word rest) of [] \<Rightarrow> nm | w \<Rightarrow> w) sm
      else if Leqi token ''endsolid'' then ascii_loop s1 rs nm sm
      else Some (nm, sm))"
  unfolding ascii_loop.simps [of s] assms(1) option.case prod.case Let_def assms(2,5)
  using assms(3,4) by simp

lemma spelled_line:
  assumes "w \<noteq> []" and "\<forall>c \<in> set w. \<not> isspace c"
  shows "dropWhile isspace ((w @ '' '' @ nm) @ [CHR 0x0A]) = w @ '' '' @ nm @ [CHR 0x0A]"
    and "scan_word (w @ '' '' @ nm @ [CHR 0x0A]) = (w, '' '' @ nm @ [CHR 0x0A])"
    and "hd (w @ '' '' @ nm @ [CHR 0x0A]) = hd w"
  using scan_word_append [of "[]" w "'' '' @ nm @ [CHR 0x0A]"] assms by (cases w; simp)+

lemma keyword_no_comment:
  assumes "any_case sp" and "w \<in> set stl_keywords"
  shows "hd (sp w) \<notin> {CHR ''#'', CHR ''!'', CHR ''$''}"
proof -
  have w: "map tolower (sp w) = w" using assms by (simp add: any_case_def list_all_iff)
  then have "tolower (hd (sp w)) = hd w" using any_case_word(1) [OF assms] by (metis list.map_sel(1))
  moreover have "hd w \<notin> {CHR ''#'', CHR ''!'', CHR ''$''}" using assms(2) by (auto simp: stl_keywords_def)
  ultimately show ?thesis by (auto simp: tolower_def isupper_def code_def)
qed

lemma ascii_loop_facet:
  assumes sp: "any_case sp" and ind: "set ind \<subseteq> {CHR '' ''}" and ok: "facet_ok sp ind f" and rs: "length rs = 3"
  shows "\<exists>rs'. length rs' = 3 \<and>
    ascii_loop (text_file (facet_lines sp ind f @ ls)) rs nm (corners_mesh cs) =
      ascii_loop (text_file ls) rs' nm (corners_mesh (cs @ facet_corners f))"
proof -
  obtain n vs where f: "f = (n, vs)" by fastforce
  let ?l = "ind @ sp ''facet'' @ '' '' @ sp ''normal'' @ spaced (text_words n)"
  have lines: "facet_lines sp ind f = ?l # tl (facet_lines sp ind f)" by (simp add: f facet_lines_def)
  have l: "line_ok ?l" using ok by (simp add: f facet_ok_def facet_lines_def)
  note w = spelled_line [OF keyword_words(7,8) [OF sp], of "sp ''normal'' @ spaced (text_words n)"]
  have nxt: "dropWhile isspace (?l @ [CHR 0x0A]) = sp ''facet'' @ '' '' @ (sp ''normal'' @ spaced (text_words n)) @ [CHR 0x0A]"
    using w(1) dropWhile_blanks [OF ind] by simp
  obtain rs' where "length rs' = 3" "read_facet ('' '' @ sp ''normal'' @ spaced (text_words n) @ [CHR 0x0A])
      (text_file (tl (facet_lines sp ind f) @ ls)) rs (corners_mesh cs) =
      Some (True, text_file ls, rs', corners_mesh (cs @ facet_corners f))"
    using read_facet_text [OF sp ind ok [unfolded f] rs] unfolding f by blast
  moreover have "ascii_loop (text_file (facet_lines sp ind f @ ls)) rs nm (corners_mesh cs) =
     do { (ok, s2, rs2, sm2) \<leftarrow> read_facet ('' '' @ sp ''normal'' @ spaced (text_words n) @ [CHR 0x0A])
            (text_file (tl (facet_lines sp ind f) @ ls)) rs (corners_mesh cs);
          if ok then ascii_loop s2 rs2 nm sm2 else Some (nm, sm2) }"
    using keyword_no_comment [OF sp, of "''facet''"] keyword_words(7) [OF sp]
    by (subst lines, unfold append_Cons [of ?l], subst ascii_loop_line [OF fgets_line [OF l] nxt _ _ w(2)])
      (simp_all add: w(3) Leqi_any_case [OF sp] Leqi_keywords(1) stl_keywords_def)
  ultimately show ?thesis by auto
qed

lemma ascii_loop_facets:
  assumes sp: "any_case sp" and ind: "set ind \<subseteq> {CHR '' ''}"
  shows "\<forall>f \<in> set fs. facet_ok sp ind f \<Longrightarrow> length rs = 3 \<Longrightarrow>
    \<exists>rs'. length rs' = 3 \<and>
      ascii_loop (text_file (concat (map (facet_lines sp ind) fs) @ ls)) rs nm (corners_mesh cs) =
      ascii_loop (text_file ls) rs' nm (corners_mesh (cs @ concat (map facet_corners fs)))"
proof (induction fs arbitrary: rs cs)
  case (Cons f fs)
  obtain rs' where "length rs' = 3"
      "ascii_loop (text_file (facet_lines sp ind f @ concat (map (facet_lines sp ind) fs) @ ls)) rs nm (corners_mesh cs) =
       ascii_loop (text_file (concat (map (facet_lines sp ind) fs) @ ls)) rs' nm (corners_mesh (cs @ facet_corners f))"
    using ascii_loop_facet [OF sp ind _ Cons.prems(2), of f "concat (map (facet_lines sp ind) fs) @ ls" nm cs]
      Cons.prems(1) by auto
  then show ?case using Cons.IH [of rs' "cs @ facet_corners f"] Cons.prems by auto
qed auto

lemma ascii_loop_solid:
  assumes sp: "any_case sp" and ok: "line_ok (sp ''solid'' @ '' '' @ nm)" and nm: "nm \<noteq> []" "\<forall>c \<in> set nm. \<not> isspace c"
  shows "ascii_loop (text_file ((sp ''solid'' @ '' '' @ nm) # ls)) rs nm0 sm = ascii_loop (text_file ls) rs nm sm"
proof -
  note w = spelled_line [OF keyword_words(9,10) [OF sp], of nm]
  have n: "scan_word ('' '' @ nm @ [CHR 0x0A]) = (nm, [CHR 0x0A])"
    using nm by (intro scan_word_append) simp_all
  show ?thesis
    using nm(1) n keyword_no_comment [OF sp, of "''solid''"] keyword_words(9) [OF sp]
    by (subst ascii_loop_line [OF fgets_line [OF ok] w(1) _ _ w(2)])
      (auto simp: w(3) Leqi_any_case [OF sp] Leqi_keywords(2-4) stl_keywords_def split: list.split)
qed

lemma ascii_loop_endsolid:
  assumes sp: "any_case sp" and ok: "line_ok (sp ''endsolid'' @ '' '' @ nm)"
  shows "ascii_loop (text_file [sp ''endsolid'' @ '' '' @ nm]) rs nm' sm = Some (nm', sm)"
proof -
  have e: "fgets (text_file []) = None" by (simp add: fgets_def text_file_def)
  note w = spelled_line [OF keyword_words(11,12) [OF sp], of nm]
  have "ascii_loop (text_file [sp ''endsolid'' @ '' '' @ nm]) rs nm' sm = ascii_loop (text_file []) rs nm' sm"
    using keyword_no_comment [OF sp, of "''endsolid''"] keyword_words(11) [OF sp]
    by (subst ascii_loop_line [OF fgets_line [OF ok] w(1) _ _ w(2)])
      (simp_all add: w(3) Leqi_any_case [OF sp] Leqi_keywords(5-8) stl_keywords_def)
  with e show ?thesis by (simp add: ascii_loop.simps [of "text_file []"])
qed

lemma stl_lines_read:
  assumes sp: "any_case sp" and ind: "set ind \<subseteq> {CHR '' ''}" and ok: "\<forall>f \<in> set fs. facet_ok sp ind f"
    and nm: "line_ok (sp ''solid'' @ '' '' @ nm)" "line_ok (sp ''endsolid'' @ '' '' @ nm)"
      "nm \<noteq> []" "\<forall>c \<in> set nm. \<not> isspace c"
  shows "ascii_loop (text_file (stl_lines sp ind nm fs)) (replicate 3 None) [] SubMesh_default =
    Some (nm, corners_mesh (concat (map facet_corners fs)))"
proof -
  have "ascii_loop (text_file (stl_lines sp ind nm fs)) (replicate 3 None) [] SubMesh_default =
      ascii_loop (text_file (concat (map (facet_lines sp ind) fs) @ [sp ''endsolid'' @ '' '' @ nm]))
        (replicate 3 None) nm (corners_mesh [])"
    using ascii_loop_solid [OF sp nm(1,3,4)] by (simp add: stl_lines_def corners_mesh_Nil)
  with ascii_loop_facets [OF sp ind ok, of "replicate 3 None" "[sp ''endsolid'' @ '' '' @ nm]" nm "[]"]
    ascii_loop_endsolid [OF sp nm(2)]
  show ?thesis by auto
qed

subsection \<open>Decimal numbers\<close>

lemma number_text_decimal:
  assumes d: "ds \<noteq> []" "\<forall>c \<in> set ds. isdigit c" "\<forall>c \<in> set fs. isdigit c"
  shows "number_text (ds @ ''.'' @ fs) \<and>
    number_value (ds @ ''.'' @ fs) = real (read_nat (ds @ fs)) / 10 ^ length fs"
proof -
  have scan: "scan_number ((ds @ ''.'' @ fs) @ r) = Some (real (read_nat (ds @ fs)) / 10 ^ length fs, r)"
    if r: "r = [] \<or> isspace (hd r)" for r
  proof -
    have "\<not> isdigit (CHR ''.'')" by (simp add: isdigit_def code_def)
    then have 1: "scan_digits (ds @ CHR ''.'' # fs @ r) = (ds, CHR ''.'' # fs @ r)"
      using d(2) by (simp add: scan_digits_def takeWhile_append2 dropWhile_append2)
    have nd: "r = [] \<or> \<not> isdigit (hd r)" using r by (auto simp: isspace_def isdigit_def)
    have 2: "scan_digits (fs @ r) = (fs, r)"
      using nd d(3) by (cases r) (auto simp: scan_digits_def takeWhile_append2 dropWhile_append2)
    have 3: "scan_exponent r = Some (0, r)"
      using r by (cases r) (auto simp: scan_exponent_def isspace_def code_def)
    have 4: "scan_sign (ds @ CHR ''.'' # fs @ r) = (False, ds @ CHR ''.'' # fs @ r)"
      using d(1,2) by (cases ds) (auto simp: scan_sign_def isdigit_def code_def)
    show ?thesis using d(1) by (simp add: scan_number_def scan_fraction_def 1 2 3 4)
  qed
  have "\<not> isspace (hd (ds @ ''.'' @ fs))"
    using d(1,2) by (cases ds) (auto simp: isdigit_def isspace_def)
  then show ?thesis using scan [of "[]"] scan by (simp add: number_text_def number_value_def)
qed

subsection \<open>Properties\<close>

text \<open>
  C22. A mesh written in the text form is read back, whatever the case of the letters of its keywords: the
  loader gives one sub-mesh with the name of the solid, which holds the vertices of all facets in
  order, each with the normal of its facet and with an index of its own. Facets may have any number of
  vertices, and together they have at least one. Every line fits into the buffer of the loader, every
  coordinate is a number, and the name is one word.
\<close>

theorem STL_text_read:
  assumes "any_case sp" and "set ind \<subseteq> {CHR '' ''}" and "\<forall>f \<in> set fs. facet_ok sp ind f"
    and "line_ok (sp ''solid'' @ '' '' @ nm)" and "line_ok (sp ''endsolid'' @ '' '' @ nm)"
    and "nm \<noteq> []" and "\<forall>c \<in> set nm. \<not> isspace c"
    and "concat (map facet_corners fs) \<noteq> []" and "length (concat (map facet_corners fs)) < 2 ^ 32"
    and "disk f = Some (text_file (stl_lines sp ind nm fs))"
  shows "STL_Load nf disk f =
    Some (Some (snd (AddSubMesh (SetName nm (corners_mesh (concat (map facet_corners fs)))) Mesh_new)))"
proof -
  have "VertexCount (corners_mesh (concat (map facet_corners fs))) > 0"
    unfolding VertexCount_corners using assms(8,9)
    by (subst word_less_nat_alt) (simp add: unat_of_nat del: length_concat concat_eq_Nil_conv)
  then show ?thesis
    using stl_lines_read [OF assms(1-7)] assms(10) by (simp add: STL_Load_def ReadAscii_def)
qed

lemma facet_example:
  "facet_ok (map toupper) ''  '' ((''0.0'', ''0.0'', ''1.0''),
     [(''0.0'', ''0.0'', ''2.5''), (''1.0'', ''0.0'', ''2.5''), (''0.0'', ''1.0'', ''2.5'')])"
proof -
  let ?f = "((''0.0'', ''0.0'', ''1.0''), [(''0.0'', ''0.0'', ''2.5''), (''1.0'', ''0.0'', ''2.5''), (''0.0'', ''1.0'', ''2.5'')])"
  have "list_all line_ok (facet_lines (map toupper) ''  '' ?f)" by code_simp
  moreover have "number_text ''0.0''" "number_text ''1.0''" "number_text ''2.5''"
    using number_text_decimal [of "''0''" "''0''"] number_text_decimal [of "''1''" "''0''"]
      number_text_decimal [of "''2''" "''5''"] by (simp_all add: isdigit_def code_def)
  ultimately show ?thesis by (simp add: facet_ok_def text_words_def list_all_iff)
qed

lemma STL_text_read_witness:
  "STL_Load (\<lambda>_. 0) (\<lambda>_. Some (text_file (stl_lines (map toupper) ''  '' ''part'' [((''0.0'', ''0.0'', ''1.0''),
       [(''0.0'', ''0.0'', ''2.5''), (''1.0'', ''0.0'', ''2.5''), (''0.0'', ''1.0'', ''2.5'')])]))) ''part.stl'' =
    Some (Some (snd (AddSubMesh (SetName ''part'' (corners_mesh (concat (map facet_corners
      [((''0.0'', ''0.0'', ''1.0''),
        [(''0.0'', ''0.0'', ''2.5''), (''1.0'', ''0.0'', ''2.5''), (''0.0'', ''1.0'', ''2.5'')])])))) Mesh_new)))"
proof (rule STL_text_read)
  show "any_case (map toupper)" by code_simp
  show "line_ok (map toupper ''solid'' @ '' '' @ ''part'')" "line_ok (map toupper ''endsolid'' @ '' '' @ ''part'')" by code_simp+
qed (simp_all add: facet_example isspace_def code_def facet_corners_def)

text \<open>
  C20. A mesh written in the binary form, with a header of 80 bytes and fewer than \<open>2 ^ 31\<close> faces, is
  read back corner by corner, whatever follows the faces.
\<close>

theorem STL_binary_round_trip:
  assumes "length header = 80" and "length fs < 2 ^ 31"
  shows "ReadBinary nf (write_binary header fs @ rest) m =
    (True, snd (AddSubMesh (corners_mesh (concat (map (face_corners nf) fs))) m))"
  using read_faces_write [of nf fs rest "[]"] sint_of_nat_small [OF assms(2)] assms(1)
  by (simp add: ReadBinary_def write_binary_def corners_mesh_Nil)

lemma STL_binary_round_trip_witness:
  "ReadBinary (\<lambda>_. 0) (write_binary (replicate 80 CHR 0x20)
       [((0, 0, 0x3F800000), (0, 0, 0), (0x3F800000, 0, 0), (0, 0x3F800000, 0), CHR 0x00, CHR 0x00)] @ []) Mesh_new =
     (True, snd (AddSubMesh (corners_mesh (concat (map (face_corners (\<lambda>_. 0))
       [((0, 0, 0x3F800000), (0, 0, 0), (0x3F800000, 0, 0), (0, 0x3F800000, 0), CHR 0x00, CHR 0x00)]))) Mesh_new)) \<and>
   float_value (\<lambda>_. 0) 0x3F800000 = 1"
  using STL_binary_round_trip [of "replicate 80 CHR 0x20"
      "[((0, 0, 0x3F800000), (0, 0, 0), (0x3F800000, 0, 0), (0, 0x3F800000, 0), CHR 0x00, CHR 0x00)]"
      "\<lambda>_. 0" "[]" Mesh_new]
  by (simp add: float_value_def)

text \<open>
  A count of \<open>2 ^ 31\<close> faces or more is negative as an \<open>int\<close>: nothing is read, and reading succeeds
  with an empty sub-mesh.
\<close>

lemma STL_binary_count_negative:
  assumes "LongIntRead (drop 80 s) = (n, r)" and "2 ^ 31 \<le> n"
  shows "ReadBinary nf s m = (True, snd (AddSubMesh SubMesh_default m))"
proof -
  have "2 ^ 31 \<le> uint n" "uint n < 2 ^ 32"
    using assms(2) unsigned_less [of n, where ?'a = int] by (simp_all add: word_le_def)
  then have "sint n < 0"
    by (simp add: sint_uint signed_take_bit_eq_take_bit_minus bit_iff_odd take_bit_int_eq_self
        div_pos_geq)
  then show ?thesis using assms(1) by (simp add: ReadBinary_def)
qed

end
