(* ===== verification/Bvh_Loader.thy ===== *)
theory Bvh_Loader
  imports Skeleton_Model System_Paths
begin

section \<open>BVHLoader: motion capture files\<close>

text \<open>
  \<^verbatim>\<open>graphics/src/BVHLoader.cc\<close> and \<open>Skeleton::AddBvhAnimation\<close> of \<^verbatim>\<open>graphics/src/Skeleton.cc\<close>. A
  stream is the list of the lines that are left: \<open>getline\<close> takes one, end of file is reached with
  the last one, and a \<open>getline\<close> after that leaves the string as it was. The loader allocates nodes at
  addresses from \<open>next_addr\<close> on. What it does not own is in a record of parameters: matrices and
  quaternions, the number parsers of gz-math, what a new node holds and the uninitialised
  length of a new animation. \<^const>\<open>None\<close> is undefined behaviour: \<open>words[0]\<close> of a blank line, a null
  pointer, an index out of range.
\<close>

record ('m, 'q) bvh_env =
  bvh_mat :: "('m, 'q) gz_mat"
  axis_angle_q :: "Vector3d \<Rightarrow> real \<Rightarrow> 'q"
  parse_float :: "string \<Rightarrow> real"
  parse_int :: "string \<Rightarrow> int"
  blank_node :: "'m SkelNode"
  length_0 :: real

subsection \<open>Lines\<close>

fun file_lines :: "string \<Rightarrow> string list" where
  "file_lines [] = [[]]"
| "file_lines (c # s) =
     (if c = CHR 0x0A then [] # file_lines s
      else case file_lines s of [] \<Rightarrow> [[c]] | l # ls \<Rightarrow> (c # l) # ls)"

definition getline :: "string list \<Rightarrow> string \<Rightarrow> string list \<times> string" where
  "getline ls line = (case ls of [] \<Rightarrow> ([], line) | l # r \<Rightarrow> (r, l))"

definition bvh_words :: "string \<Rightarrow> string list" where
  "bvh_words line = split (trim line) '' ''"

subsection \<open>The hierarchy\<close>

record 'm bvh_state =
  bvh_heap :: "'m node_heap"
  bvh_nodes :: "nat list"
  nodeChannels :: "string list list"
  totalChannels :: "32 word"
  cur_parent :: "nat option"
  cur_node :: "nat option"
  next_addr :: nat

datatype 'm bvh_step = Next_line "'m bvh_state" | Skip_site | Refused | Motion

definition bvh_line ::
    "('m, 'q) bvh_env \<Rightarrow> real \<Rightarrow> string list \<Rightarrow> 'm bvh_state \<Rightarrow> 'm bvh_step option" where
  "bvh_line E scale words st =
     do {
       w \<leftarrow> elem_at words 0;
       if w = ''ROOT'' \<or> w = ''JOINT'' then
         (if length words < 2 then Some Refused
          else do {
            h \<leftarrow> SkeletonNode_named (blank_node E) (next_addr st) (cur_parent st) (words ! 1) (words ! 1)
                   JOINT (bvh_heap st);
            Some (Next_line (st \<lparr> bvh_heap := h, cur_node := Some (next_addr st),
                                   bvh_nodes := bvh_nodes st @ [next_addr st],
                                   next_addr := next_addr st + 1 \<rparr>)) })
       else if w = ''OFFSET'' then
         (if length words < 4 then Some Refused
          else do {
            let offset = \<lparr> vX = parse_float E (words ! 1) * scale, vY = parse_float E (words ! 2) * scale,
                           vZ = parse_float E (words ! 3) * scale \<rparr>;
            a \<leftarrow> cur_node st;
            h \<leftarrow> SetTransform (bvh_mat E) a
                   (SetTranslation_m (bvh_mat E) offset (Identity_m (bvh_mat E))) True (bvh_heap st);
            Some (Next_line (st \<lparr> bvh_heap := h \<rparr>)) })
       else if w = ''CHANNELS'' then
         (if length words < 3 \<or> parse_int E (words ! 1) + 2 < 0 \<or>
             nat (parse_int E (words ! 1) + 2) > length words
          then Some Refused
          else Some (Next_line (st \<lparr> nodeChannels := nodeChannels st @ [words],
                 totalChannels := totalChannels st + word_of_int (parse_int E (words ! 1)) \<rparr>)))
       else if w = ''{'' then Some (Next_line (st \<lparr> cur_parent := cur_node st \<rparr>))
       else if w = ''}'' then
         do { a \<leftarrow> cur_parent st; p \<leftarrow> Parent a (bvh_heap st);
              Some (Next_line (st \<lparr> cur_parent := p \<rparr>)) }
       else if length words = 2 \<and> w = ''End'' \<and> words ! 1 = ''Site'' then Some Skip_site
       else if bvh_nodes st = [] then Some Refused
       else Some Motion }"

definition skip_site :: "string list \<Rightarrow> string \<Rightarrow> string list \<times> string" where
  "skip_site ls line =
     (case getline ls line of (ls1, line1) \<Rightarrow>
        (case getline ls1 line1 of (ls2, line2) \<Rightarrow> getline ls2 line2))"

text \<open>The loop ends with a refusal (\<^const>\<open>None\<close> inside), at the line that starts the motion part, or
  at the end of the file (\<^const>\<open>False\<close>).\<close>

function hierarchy_loop ::
    "('m, 'q) bvh_env \<Rightarrow> real \<Rightarrow> string list \<Rightarrow> string \<Rightarrow> 'm bvh_state \<Rightarrow>
     (string list \<times> string \<times> 'm bvh_state \<times> bool) option option" where
  "hierarchy_loop E scale ls line st =
     (case ls of
        [] \<Rightarrow> Some (Some ([], line, st, False))
      | l # r \<Rightarrow>
          (case bvh_line E scale (bvh_words l) st of
             None \<Rightarrow> None
           | Some Refused \<Rightarrow> Some None
           | Some Motion \<Rightarrow> Some (Some (r, trim l, st, True))
           | Some Skip_site \<Rightarrow>
               (case skip_site r (trim l) of (r', line') \<Rightarrow> hierarchy_loop E scale r' line' st)
           | Some (Next_line st') \<Rightarrow> hierarchy_loop E scale r (trim l) st'))"
  by pat_completeness auto
termination
  by (relation "measure (\<lambda>(E, scale, ls, line, st). length ls)")
    (auto simp: skip_site_def getline_def split: list.splits)

declare hierarchy_loop.simps [simp del]

subsection \<open>The motion\<close>

definition axis_m :: "('m, 'q) bvh_env \<Rightarrow> Vector3d \<Rightarrow> real \<Rightarrow> 'm" where
  "axis_m E axis degrees =
     of_quaternion (bvh_mat E) (axis_angle_q E axis (degrees * pi / 180))"

text \<open>The channels of a node: its translation and rotations, in the order of the file.\<close>

fun read_channels ::
    "('m, 'q) bvh_env \<Rightarrow> real \<Rightarrow> string list \<Rightarrow> string list \<Rightarrow> nat \<Rightarrow> Vector3d \<Rightarrow> 'm list \<Rightarrow>
     (Vector3d \<times> 'm list \<times> nat) option" where
  "read_channels E scale words [] cursor t mats = Some (t, mats, cursor)"
| "read_channels E scale words (channel # cs) cursor t mats =
     do {
       w \<leftarrow> elem_at words cursor;
       let value = parse_float E w;
       if channel = ''Xposition'' then
         read_channels E scale words cs (cursor + 1) (t \<lparr> vX := value * scale \<rparr>) mats
       else if channel = ''Yposition'' then
         read_channels E scale words cs (cursor + 1) (t \<lparr> vY := value * scale \<rparr>) mats
       else if channel = ''Zposition'' then
         read_channels E scale words cs (cursor + 1) (t \<lparr> vZ := value * scale \<rparr>) mats
       else if channel = ''Zrotation'' then
         read_channels E scale words cs (cursor + 1) t (mats @ [axis_m E \<lparr> vX = 0, vY = 0, vZ = 1 \<rparr> value])
       else if channel = ''Xrotation'' then
         read_channels E scale words cs (cursor + 1) t (mats @ [axis_m E \<lparr> vX = 1, vY = 0, vZ = 0 \<rparr> value])
       else if channel = ''Yrotation'' then
         read_channels E scale words cs (cursor + 1) t (mats @ [axis_m E \<lparr> vX = 0, vY = 1, vZ = 0 \<rparr> value])
       else read_channels E scale words cs (cursor + 1) t mats }"

text \<open>The names of the channels: \<open>channels[j]\<close> for \<open>j\<close> from 2 while \<open>j < 2 + chanCount\<close> as 32-bit
  words; the test on the line \<open>CHANNELS\<close> keeps them inside.\<close>

definition channel_names :: "('m, 'q) bvh_env \<Rightarrow> string list \<Rightarrow> string list" where
  "channel_names E channels =
     take (unat (2 + word_of_int (parse_int E (channels ! 1)) :: 32 word) - 2) (drop 2 channels)"

fun apply_mats :: "('m, 'q) gz_mat \<Rightarrow> 'm list \<Rightarrow> 'm" where
  "apply_mats M [] = Identity_m M"
| "apply_mats M (m # ms) = mul_m M m (apply_mats M ms)"

fun read_frame ::
    "('m, 'q) bvh_env \<Rightarrow> real \<Rightarrow> 'm bvh_state \<Rightarrow> string list \<Rightarrow> real \<Rightarrow> nat \<Rightarrow> nat list \<Rightarrow> nat \<Rightarrow>
     'm SkeletonAnimation \<Rightarrow> 'm SkeletonAnimation option" where
  "read_frame E scale st words time i [] cursor anim = Some anim"
| "read_frame E scale st words time i (a # as) cursor anim =
     do {
       channels \<leftarrow> elem_at (nodeChannels st) i;
       m \<leftarrow> Transform a (bvh_heap st);
       (t, mats, cursor') \<leftarrow> read_channels E scale words (channel_names E channels) cursor
                                 (Translation_m (bvh_mat E) m) [];
       let pos = SetTranslation_m (bvh_mat E) t (Identity_m (bvh_mat E));
       nm \<leftarrow> NodeName a (bvh_heap st);
       read_frame E scale st words time (i + 1) as cursor'
         (SA_AddKeyFrame nm time (mul_m (bvh_mat E) pos (apply_mats (bvh_mat E) mats)) anim) }"

fun read_frames ::
    "('m, 'q) bvh_env \<Rightarrow> real \<Rightarrow> 'm bvh_state \<Rightarrow> 32 word \<Rightarrow> real \<Rightarrow> string list \<Rightarrow> real \<Rightarrow> 32 word \<Rightarrow>
     'm SkeletonAnimation \<Rightarrow> 'm SkeletonAnimation option" where
  "read_frames E scale st frameCount frameTime [] time frameNo anim = Some anim"
| "read_frames E scale st frameCount frameTime (l # ls) time frameNo anim =
     (let words = bvh_words l
      in if length words < unat (totalChannels st)
         then read_frames E scale st frameCount frameTime ls (time + frameTime) (frameNo + 1) anim
         else do {
           anim' \<leftarrow> read_frame E scale st words time 0 (bvh_nodes st) 0 anim;
           if frameNo + 1 = frameCount then Some anim'
           else read_frames E scale st frameCount frameTime ls (time + frameTime) (frameNo + 1) anim' })"

text \<open>The part behind the hierarchy. The skeleton may be null here; adding the animation to it then
  is undefined. \<^const>\<open>None\<close> inside is the null result.\<close>

definition read_motion ::
    "('m, 'q) bvh_env \<Rightarrow> string \<Rightarrow> real \<Rightarrow> 'm bvh_state \<Rightarrow> string list \<Rightarrow> string \<Rightarrow>
     'm SkeletonAnimation option option" where
  "read_motion E filename scale st ls line =
     (case getline ls line of
        (ls1, line1) \<Rightarrow>
          do {
            let words = bvh_words line1;
            w \<leftarrow> elem_at words 0;
            if w \<noteq> ''Frames:'' \<or> length words < 2 then Some None
            else
              (case getline ls1 line1 of
                 (ls2, line2) \<Rightarrow>
                   let words2 = bvh_words line2
                   in if length words2 < 3 \<or> words2 ! 0 \<noteq> ''Frame'' \<or> words2 ! 1 \<noteq> ''Time:'' then Some None
                      else map_option Some
                        (read_frames E scale st (word_of_int (parse_int E (words ! 1)))
                          (parse_float E (words2 ! 2)) ls2 0 0
                          (SkeletonAnimation_new (length_0 E) filename))) })"

type_synonym 'm bvh_result = "'m Skeleton option \<times> 'm node_heap \<times> nat"

text \<open>\<open>BVHLoader::Load\<close>. A skeleton that is not returned is destroyed with its nodes.\<close>

definition BVH_Load ::
    "('m, 'q) bvh_env \<Rightarrow> (string \<Rightarrow> bool) \<Rightarrow> string \<Rightarrow> SystemPaths \<Rightarrow> (string \<Rightarrow> string option) \<Rightarrow> string \<Rightarrow> real \<Rightarrow>
     'm node_heap \<Rightarrow> nat \<Rightarrow> 'm bvh_result option" where
  "BVH_Load E ex dir sp disk filename scale h fresh =
     do {
       fullname \<leftarrow> findFile ex dir sp filename True;
       if fullname = [] then Some (None, h, fresh)
       else do {
         txt \<leftarrow> disk fullname;
         (case getline (file_lines txt) [] of
            (ls, line) \<Rightarrow>
              if str_find line ''HIERARCHY'' 0 = None then Some (None, h, fresh)
              else do {
                r \<leftarrow> hierarchy_loop E scale ls line
                      \<lparr> bvh_heap = h, bvh_nodes = [], nodeChannels = [], totalChannels = 0,
                        cur_parent = None, cur_node = None, next_addr = fresh \<rparr>;
                (case r of
                   None \<Rightarrow> Some (None, h, fresh)
                 | Some (ls', line', st, motion) \<Rightarrow>
                     do {
                       (sk, h1) \<leftarrow>
                         (if motion
                          then map_option (\<lambda>(s, g). (Some s, g))
                                 (Skeleton_of (bvh_mat E) (Some (bvh_nodes st ! 0)) (bvh_heap st))
                          else Some (None, bvh_heap st));
                       anim \<leftarrow> read_motion E filename scale (st \<lparr> bvh_heap := h1 \<rparr>) ls' line';
                       (case anim of
                          None \<Rightarrow>
                            (case sk of
                               None \<Rightarrow> Some (None, h1, next_addr st)
                             | Some s \<Rightarrow> map_option (\<lambda>g. (None, g, next_addr st)) (Skeleton_destroy s h1))
                        | Some a \<Rightarrow>
                            do { s \<leftarrow> sk; Some (Some (AddAnimation a s), h1, next_addr st) }) }) }) } }"

subsection \<open>Reading a written hierarchy\<close>

text \<open>A tree of joints: name, offset, the count of channels and their names, the words of the offset of
  the end site (for a joint without joints below) and the joints below. A file
  holds it in lines whose words are \<open>bvh_tokens\<close>, in any layout.\<close>

datatype bvh_joint =
  Joint string "string \<times> string \<times> string" string "string list" "string list" "bvh_joint list"

fun bvh_tokens :: "string \<Rightarrow> bvh_joint \<Rightarrow> string list list" where
  "bvh_tokens kind (Joint nm (x, y, z) c chs site kids) =
     [[kind, nm], [''{''], [''OFFSET'', x, y, z], ''CHANNELS'' # c # chs] @
     (if kids = [] then [[''End'', ''Site''], [''{''], site, [''}'']]
      else concat (map (bvh_tokens ''JOINT'') kids)) @
     [[''}'']]"

fun joint_size :: "bvh_joint \<Rightarrow> nat" where
  "joint_size (Joint nm off c chs site kids) = Suc (sum_list (map joint_size kids))"

abbreviation forest_size :: "bvh_joint list \<Rightarrow> nat" where
  "forest_size js \<equiv> sum_list (map joint_size js)"

fun bvh_tree :: "nat \<Rightarrow> bvh_joint \<Rightarrow> tree" and bvh_forest :: "nat \<Rightarrow> bvh_joint list \<Rightarrow> tree list" where
  "bvh_tree n (Joint nm off c chs site kids) = Tree n (bvh_forest (Suc n) kids)"
| "bvh_forest n [] = []"
| "bvh_forest n (j # js) = bvh_tree n j # bvh_forest (n + joint_size j) js"

text \<open>Name and transform of every joint, and the lines of channels, depth first.\<close>

definition offset_m :: "('m, 'q) bvh_env \<Rightarrow> real \<Rightarrow> string \<times> string \<times> string \<Rightarrow> 'm" where
  "offset_m E scale = (\<lambda>(x, y, z). SetTranslation_m (bvh_mat E)
     \<lparr> vX = parse_float E x * scale, vY = parse_float E y * scale, vZ = parse_float E z * scale \<rparr>
     (Identity_m (bvh_mat E)))"

fun joint_data :: "('m, 'q) bvh_env \<Rightarrow> real \<Rightarrow> bvh_joint \<Rightarrow> (string \<times> 'm) list" where
  "joint_data E scale (Joint nm off c chs site kids) =
     (nm, offset_m E scale off) # concat (map (joint_data E scale) kids)"

fun joint_channels :: "bvh_joint \<Rightarrow> string list list" where
  "joint_channels (Joint nm off c chs site kids) = (''CHANNELS'' # c # chs) # concat (map joint_channels kids)"

fun joint_ok :: "('m, 'q) bvh_env \<Rightarrow> bvh_joint \<Rightarrow> bool" where
  "joint_ok E (Joint nm off c chs site kids) \<longleftrightarrow>
     parse_int E c = int (length chs) \<and> chs \<noteq> [] \<and> (\<forall>k \<in> set kids. joint_ok E k)"

definition node_holds :: "'m node_heap \<Rightarrow> nat \<Rightarrow> string \<times> 'm \<Rightarrow> bool" where
  "node_holds h a d \<longleftrightarrow> (\<exists>n. h a = Some n \<and> (node_name n, transform n) = d)"

lemma addrs_bvh_tree:
  "addrs (bvh_tree n j) = [n..<n + joint_size j]"
  "forest_addrs (bvh_forest n js) = [n..<n + forest_size js]"
proof (induction n j and n js rule: bvh_tree_bvh_forest.induct)
  case (1 n nm off c chs site kids)
  then show ?case by (simp add: upt_conv_Cons del: upt_Suc)
next
  case (3 n j js)
  then show ?case using upt_add_eq_append [of n "n + joint_size j" "forest_size js"]
    by (simp add: add.assoc)
qed simp

lemma root_of_bvh_tree [simp]: "root_of (bvh_tree n j) = n"
  by (cases j) simp

lemma bvh_forest_append:
  "bvh_forest n (js @ ks) = bvh_forest n js @ bvh_forest (n + forest_size js) ks"
  by (induction js arbitrary: n) (simp_all add: add.assoc)

definition forest_data :: "('m, 'q) bvh_env \<Rightarrow> real \<Rightarrow> bvh_joint list \<Rightarrow> (string \<times> 'm) list" where
  "forest_data E scale js = concat (map (joint_data E scale) js)"

definition forest_channels :: "bvh_joint list \<Rightarrow> string list list" where
  "forest_channels js = concat (map joint_channels js)"

lemma length_forest_data: "length (forest_data E scale js) = forest_size js"
proof -
  have "length (joint_data E scale j) = joint_size j" for j
    by (induction j rule: joint_size.induct) (simp add: length_concat o_def cong: map_cong)
  then show ?thesis by (simp add: forest_data_def length_concat o_def)
qed

text \<open>What reading the joints \<open>js\<close> below the current parent does to the state of the loader.\<close>

definition grown ::
    "('m, 'q) bvh_env \<Rightarrow> real \<Rightarrow> bvh_joint list \<Rightarrow> 'm bvh_state \<Rightarrow> 'm bvh_state \<Rightarrow> bool" where
  "grown E scale js st st' \<longleftrightarrow>
     cur_parent st' = cur_parent st \<and> next_addr st' = next_addr st + forest_size js \<and>
     bvh_nodes st' = bvh_nodes st @ [next_addr st..<next_addr st'] \<and>
     nodeChannels st' = nodeChannels st @ forest_channels js \<and>
     (\<forall>t \<in> set (bvh_forest (next_addr st) js). represents (bvh_heap st') (cur_parent st) t) \<and>
     list_all2 (node_holds (bvh_heap st')) [next_addr st..<next_addr st'] (forest_data E scale js) \<and>
     (\<forall>a < next_addr st. Some a \<noteq> cur_parent st \<longrightarrow> bvh_heap st' a = bvh_heap st a) \<and>
     (\<forall>q n. cur_parent st = Some q \<and> bvh_heap st q = Some n \<longrightarrow>
        bvh_heap st' q = Some (n \<lparr> children := children n @
          map (\<lambda>t. Some (root_of t)) (bvh_forest (next_addr st) js) \<rparr>))"

definition ready :: "'m bvh_state \<Rightarrow> bool" where
  "ready st \<longleftrightarrow> (\<forall>q. cur_parent st = Some q \<longrightarrow> q < next_addr st \<and> bvh_heap st q \<noteq> None)"

lemma grown_Nil: "grown E scale [] st st"
  by (auto simp: grown_def forest_data_def forest_channels_def)

lemma grown_ready: "grown E scale js st st' \<Longrightarrow> ready st \<Longrightarrow> ready st'"
  by (fastforce simp: grown_def ready_def)

lemma grownD:
  assumes "grown E scale js st st'"
  shows "cur_parent st' = cur_parent st" "next_addr st' = next_addr st + forest_size js"
    "bvh_nodes st' = bvh_nodes st @ [next_addr st..<next_addr st']"
    "nodeChannels st' = nodeChannels st @ forest_channels js"
    "\<And>t. t \<in> set (bvh_forest (next_addr st) js) \<Longrightarrow> represents (bvh_heap st') (cur_parent st) t"
    "list_all2 (node_holds (bvh_heap st')) [next_addr st..<next_addr st'] (forest_data E scale js)"
    "\<And>a. a < next_addr st \<Longrightarrow> Some a \<noteq> cur_parent st \<Longrightarrow> bvh_heap st' a = bvh_heap st a"
    "\<And>q n. cur_parent st = Some q \<Longrightarrow> bvh_heap st q = Some n \<Longrightarrow>
       bvh_heap st' q = Some (n \<lparr> children := children n @
         map (\<lambda>t. Some (root_of t)) (bvh_forest (next_addr st) js) \<rparr>)"
  using assms unfolding grown_def by blast+

text \<open>What the first joints grew is left alone by the later ones.\<close>

lemma grown_append:
  assumes g1: "grown E scale js st st1" and g2: "grown E scale ks st1 st2" and r: "ready st"
  shows "grown E scale (js @ ks) st st2"
proof -
  note d1 = grownD [OF g1] and d2 = grownD [OF g2]
  have keep: "bvh_heap st2 a = bvh_heap st1 a" if "next_addr st \<le> a" "a < next_addr st1" for a
  proof (rule d2(7) [OF that(2)], rule notI)
    assume "Some a = cur_parent st1"
    then have "cur_parent st = Some a" by (simp add: d1(1))
    with r that(1) show False by (auto simp: ready_def)
  qed
  have upt: "[next_addr st..<next_addr st2] = [next_addr st..<next_addr st1] @ [next_addr st1..<next_addr st2]"
    unfolding d1(2) d2(2) by (rule upt_add_eq_append) simp
  have rep: "represents (bvh_heap st2) (cur_parent st) t" if t: "t \<in> set (bvh_forest (next_addr st) (js @ ks))" for t
  proof (cases "t \<in> set (bvh_forest (next_addr st) js)")
    case True
    have "set (addrs t) \<subseteq> set (forest_addrs (bvh_forest (next_addr st) js))" using True by auto
    then have "set (addrs t) \<subseteq> {next_addr st..<next_addr st1}"
      unfolding addrs_bvh_tree d1(2) by simp
    then show ?thesis
      using keep by (intro represents_cong [OF d1(5) [OF True]]) (auto simp: subset_iff)
  next
    case False
    then show ?thesis using t d2(5) by (simp add: bvh_forest_append d1(1,2))
  qed
  have data: "list_all2 (node_holds (bvh_heap st2)) [next_addr st..<next_addr st2] (forest_data E scale (js @ ks))"
  proof -
    have "list_all2 (node_holds (bvh_heap st2)) [next_addr st..<next_addr st1] (forest_data E scale js)"
      using d1(6) by (rule list.rel_mono_strong) (auto simp: node_holds_def keep)
    then show ?thesis
      unfolding upt using d2(6) by (simp add: forest_data_def list_all2_appendI)
  qed
  have old: "bvh_heap st2 a = bvh_heap st a" if "a < next_addr st" "Some a \<noteq> cur_parent st" for a
    using that d1(7) [OF that] d2(7) [of a] by (simp add: d1(1,2))
  have par: "bvh_heap st2 q = Some (n \<lparr> children := children n @
      map (\<lambda>t. Some (root_of t)) (bvh_forest (next_addr st) (js @ ks)) \<rparr>)"
    if "cur_parent st = Some q" "bvh_heap st q = Some n" for q n
    using d2(8) [OF _ d1(8) [OF that]] that(1) by (simp add: d1(1,2) bvh_forest_append)
  show ?thesis
    unfolding grown_def
    using d1(1-4) d2(1-4) upt rep data old par by (simp add: forest_channels_def)
qed

lemma hierarchy_next:
  "bvh_line E scale (bvh_words l) st = Some (Next_line st') \<Longrightarrow>
     hierarchy_loop E scale (l # r) line st = hierarchy_loop E scale r (trim l) st'"
  by (simp add: hierarchy_loop.simps [of E scale "l # r"])

lemma hierarchy_site:
  "bvh_words l = [''End'', ''Site''] \<Longrightarrow>
     \<exists>line'. hierarchy_loop E scale (l # a # b # c # r) line st = hierarchy_loop E scale r line' st"
  by (auto simp: hierarchy_loop.simps [of E scale "l # _"] bvh_line_def elem_at_def skip_site_def getline_def)

lemma UpdateChildrenTransforms_leaf:
  "h a = Some n \<Longrightarrow> children n = [] \<Longrightarrow> UpdateChildrenTransforms M a h = Some h"
  by (simp add: UpdateChildrenTransforms_def update_loop.simps)

text \<open>The first four lines of a joint.\<close>

lemma joint_head:
  assumes r: "ready st" and blank: "children (blank_node E) = []"
    and ok: "parse_int E c = int (length chs)" "chs \<noteq> []" and kind: "kind \<in> {''ROOT'', ''JOINT''}"
    and w: "bvh_words l1 = [kind, nm]" "bvh_words l2 = [''{'']" "bvh_words l3 = [''OFFSET'', x, y, z]"
      "bvh_words l4 = ''CHANNELS'' # c # chs"
  shows "\<exists>st1 line' nd. hierarchy_loop E scale (l1 # l2 # l3 # l4 # rest) line st =
      hierarchy_loop E scale rest line' st1 \<and>
    next_addr st1 = Suc (next_addr st) \<and> cur_parent st1 = Some (next_addr st) \<and>
    bvh_nodes st1 = bvh_nodes st @ [next_addr st] \<and>
    nodeChannels st1 = nodeChannels st @ [''CHANNELS'' # c # chs] \<and>
    bvh_heap st1 (next_addr st) = Some nd \<and> parent nd = cur_parent st \<and> children nd = [] \<and>
    (node_name nd, transform nd) = (nm, offset_m E scale (x, y, z)) \<and>
    (\<forall>a. a \<noteq> next_addr st \<longrightarrow> bvh_heap st1 a =
       (if cur_parent st = Some a
        then map_option (\<lambda>n. n \<lparr> children := children n @ [Some (next_addr st)] \<rparr>) (bvh_heap st a)
        else bvh_heap st a))"
proof -
  define n where "n = next_addr st"
  define nd0 where "nd0 = blank_node E \<lparr> parent := cur_parent st, node_name := nm, node_id := nm, node_type := JOINT \<rparr>"
  define h0 where "h0 = (\<lambda>a. if a = n then Some nd0 else if cur_parent st = Some a
        then map_option (\<lambda>n'. n' \<lparr> children := children n' @ [Some n] \<rparr>) (bvh_heap st a) else bvh_heap st a)"
  have named: "SkeletonNode_named (blank_node E) n (cur_parent st) nm nm JOINT (bvh_heap st) = Some h0"
  proof (cases "cur_parent st")
    case None
    then show ?thesis
      by (simp add: SkeletonNode_named_def SkeletonNode_new_def change_def nd0_def h0_def fun_eq_iff)
  next
    case (Some q)
    then obtain qn where q: "q \<noteq> n" "bvh_heap st q = Some qn" using r by (auto simp: ready_def n_def)
    then show ?thesis
      using Some
      by (auto simp: SkeletonNode_named_def SkeletonNode_new_def AddChild_def change_def nd0_def h0_def fun_eq_iff)
  qed
  define st0 where "st0 = st \<lparr> bvh_heap := h0, cur_node := Some n, bvh_nodes := bvh_nodes st @ [n],
      next_addr := n + 1, cur_parent := Some n \<rparr>"
  obtain m where m: "(case cur_parent st of None \<Rightarrow> Some (offset_m E scale (x, y, z))
      | Some p \<Rightarrow> map_option (\<lambda>pn. mul_m (bvh_mat E) (modelTransform pn) (offset_m E scale (x, y, z)))
          ((h0(n \<mapsto> nd0 \<lparr> transform := offset_m E scale (x, y, z) \<rparr>)) p)) = Some m"
  proof (cases "cur_parent st")
    case (Some q)
    then show ?thesis using that r by (auto simp: ready_def n_def h0_def)
  qed (use that in simp)
  define nd where "nd = nd0 \<lparr> transform := offset_m E scale (x, y, z), modelTransform := m \<rparr>"
  have nd0: "h0 n = Some nd0" "parent nd0 = cur_parent st" "children nd0 = []"
    using blank by (simp_all add: h0_def nd0_def)
  then have "UpdateChildrenTransforms (bvh_mat E) n (h0(n \<mapsto> nd)) = Some (h0(n \<mapsto> nd))"
    by (intro UpdateChildrenTransforms_leaf [of _ _ nd]) (simp_all add: nd_def)
  then have set: "SetTransform (bvh_mat E) n (offset_m E scale (x, y, z)) True h0 = Some (h0(n \<mapsto> nd))"
    by (simp add: SetTransform_def Let_def nd0(1,2) m nd_def)
  define st1 where "st1 = st0 \<lparr> bvh_heap := h0(n \<mapsto> nd), nodeChannels := nodeChannels st @ [''CHANNELS'' # c # chs],
      totalChannels := totalChannels st + word_of_int (parse_int E c) \<rparr>"
  have s1: "bvh_line E scale (bvh_words l1) st = Some (Next_line (st0 \<lparr> cur_parent := cur_parent st \<rparr>))"
    using kind w(1) named by (auto simp: bvh_line_def elem_at_def n_def st0_def)
  have s2: "bvh_line E scale (bvh_words l2) (st0 \<lparr> cur_parent := cur_parent st \<rparr>) = Some (Next_line st0)"
    using w(2) by (simp add: bvh_line_def elem_at_def st0_def)
  have s3: "bvh_line E scale (bvh_words l3) st0 = Some (Next_line (st0 \<lparr> bvh_heap := h0(n \<mapsto> nd) \<rparr>))"
    using w(3) set by (simp add: bvh_line_def elem_at_def st0_def offset_m_def)
  have s4: "bvh_line E scale (bvh_words l4) (st0 \<lparr> bvh_heap := h0(n \<mapsto> nd) \<rparr>) = Some (Next_line st1)"
    using w(4) ok by (cases chs) (simp_all add: bvh_line_def elem_at_def st0_def st1_def)
  have "hierarchy_loop E scale (l1 # l2 # l3 # l4 # rest) line st = hierarchy_loop E scale rest (trim l4) st1"
    unfolding hierarchy_next [OF s1] hierarchy_next [OF s2] hierarchy_next [OF s3] hierarchy_next [OF s4] ..
  moreover have "next_addr st1 = Suc n" "cur_parent st1 = Some n" "bvh_nodes st1 = bvh_nodes st @ [n]"
    "nodeChannels st1 = nodeChannels st @ [''CHANNELS'' # c # chs]" "bvh_heap st1 n = Some nd"
    "parent nd = cur_parent st" "children nd = []" "(node_name nd, transform nd) = (nm, offset_m E scale (x, y, z))"
    using blank by (simp_all add: st1_def st0_def nd_def nd0_def)
  moreover have "\<forall>a. a \<noteq> n \<longrightarrow> bvh_heap st1 a =
       (if cur_parent st = Some a
        then map_option (\<lambda>n'. n' \<lparr> children := children n' @ [Some n] \<rparr>) (bvh_heap st a)
        else bvh_heap st a)"
    by (simp add: st1_def h0_def)
  ultimately show ?thesis unfolding n_def by blast
qed

lemma joint_tail:
  assumes "bvh_words l = [''}'']" and "cur_parent st = Some a" and "bvh_heap st a = Some n"
  shows "hierarchy_loop E scale (l # rest) line st =
    hierarchy_loop E scale rest (trim l) (st \<lparr> cur_parent := parent n \<rparr>)"
  using assms by (intro hierarchy_next) (simp add: bvh_line_def elem_at_def Parent_def)

text \<open>The joints below are read one after the other.\<close>

definition reads ::
    "('m, 'q) bvh_env \<Rightarrow> real \<Rightarrow> string list list \<Rightarrow> bvh_joint list \<Rightarrow> bool" where
  "reads E scale toks js \<longleftrightarrow>
     (\<forall>ls rest line st. map bvh_words ls = toks \<and> ready st \<longrightarrow>
        (\<exists>line' st'. hierarchy_loop E scale (ls @ rest) line st = hierarchy_loop E scale rest line' st' \<and>
           grown E scale js st st'))"

lemma reads_forest:
  "\<forall>j \<in> set js. reads E scale (bvh_tokens ''JOINT'' j) [j] \<Longrightarrow>
     reads E scale (concat (map (bvh_tokens ''JOINT'') js)) js"
proof (induction js)
  case Nil
  then show ?case using grown_Nil by (fastforce simp: reads_def)
next
  case (Cons j js)
  show ?case
    unfolding reads_def
  proof (intro allI impI, elim conjE)
    fix ls rest line and st :: "'a bvh_state"
    assume "map bvh_words ls = concat (map (bvh_tokens ''JOINT'') (j # js))" and r: "ready st"
    then obtain l1 l2 where ls: "ls = l1 @ l2" and w: "map bvh_words l1 = bvh_tokens ''JOINT'' j"
        "map bvh_words l2 = concat (map (bvh_tokens ''JOINT'') js)"
      by (auto simp: map_eq_append_conv)
    obtain line1 st1 where 1: "hierarchy_loop E scale (l1 @ l2 @ rest) line st =
        hierarchy_loop E scale (l2 @ rest) line1 st1" "grown E scale [j] st st1"
      using Cons.prems w(1) r unfolding reads_def by (meson list.set_intros(1))
    obtain line2 st2 where 2: "hierarchy_loop E scale (l2 @ rest) line1 st1 = hierarchy_loop E scale rest line2 st2"
        "grown E scale js st1 st2"
      using Cons.IH Cons.prems w(2) grown_ready [OF 1(2) r] unfolding reads_def
      by (meson list.set_intros(2))
    show "\<exists>line' st'. hierarchy_loop E scale (ls @ rest) line st = hierarchy_loop E scale rest line' st' \<and>
        grown E scale (j # js) st st'"
      using 1 2 grown_append [OF 1(2) 2(2) r] by (auto simp: ls)
  qed
qed

text \<open>From the state inside a joint, with the joints below read, to the state behind it.\<close>

lemma grown_joint:
  assumes r: "ready st" and n: "next_addr st1 = Suc (next_addr st)" "cur_parent st1 = Some (next_addr st)"
    and lists: "bvh_nodes st1 = bvh_nodes st @ [next_addr st]"
      "nodeChannels st1 = nodeChannels st @ [''CHANNELS'' # c # chs]"
    and nd: "bvh_heap st1 (next_addr st) = Some nd" "parent nd = cur_parent st" "children nd = []"
      "(node_name nd, transform nd) = (nm, offset_m E scale off)"
    and old: "\<forall>a. a \<noteq> next_addr st \<longrightarrow> bvh_heap st1 a =
       (if cur_parent st = Some a
        then map_option (\<lambda>n. n \<lparr> children := children n @ [Some (next_addr st)] \<rparr>) (bvh_heap st a)
        else bvh_heap st a)"
    and g: "grown E scale kids st1 st2"
  shows "grown E scale [Joint nm off c chs site kids] st (st2 \<lparr> cur_parent := cur_parent st \<rparr>)"
proof -
  note g = grownD [OF g]
  let ?n = "next_addr st"
  have below: "bvh_heap st2 a = bvh_heap st1 a" if "a < ?n" for a
    using g(7) [of a] that by (simp add: n)
  have root: "bvh_heap st2 ?n = Some (nd \<lparr> children := map (\<lambda>t. Some (root_of t)) (bvh_forest (Suc ?n) kids) \<rparr>)"
    using g(8) [OF n(2) nd(1)] nd(3) by (simp add: n(1))
  have "represents (bvh_heap st2) (cur_parent st) (Tree ?n (bvh_forest (Suc ?n) kids))"
    using root nd(2) g(5) by (simp add: n)
  moreover have "list_all2 (node_holds (bvh_heap st2)) [?n..<next_addr st2] (forest_data E scale [Joint nm off c chs site kids])"
  proof -
    have "node_holds (bvh_heap st2) ?n (nm, offset_m E scale off)"
      using root nd(4) by (simp add: node_holds_def)
    moreover have "[?n..<next_addr st2] = ?n # [Suc ?n..<next_addr st2]"
      using g(2) n(1) by (simp add: upt_conv_Cons del: upt_Suc)
    ultimately show ?thesis using g(6) by (simp add: forest_data_def n(1))
  qed
  moreover have "bvh_heap st2 q = Some (m \<lparr> children := children m @ [Some ?n] \<rparr>)"
    if "cur_parent st = Some q" "bvh_heap st q = Some m" for q m
    using that old r below [of q] by (auto simp: ready_def)
  moreover have "bvh_heap st2 a = bvh_heap st a" if "a < ?n" "Some a \<noteq> cur_parent st" for a
    using that old below [of a] by auto
  moreover have "[?n..<next_addr st2] = ?n # [Suc ?n..<next_addr st2]"
    using g(2) n(1) by (simp add: upt_conv_Cons del: upt_Suc)
  ultimately show ?thesis
    using g(2-4) n lists by (simp add: grown_def forest_channels_def)
qed

lemma reads_joint:
  assumes blank: "children (blank_node E) = []"
  shows "joint_ok E j \<Longrightarrow> kind \<in> {''ROOT'', ''JOINT''} \<Longrightarrow> reads E scale (bvh_tokens kind j) [j]"
proof (induction j arbitrary: kind)
  case (Joint nm off c chs site kids)
  obtain x y z where off: "off = (x, y, z)" by (cases off)
  let ?inner = "if kids = [] then [[''End'', ''Site''], [''{''], site, [''}'']]
      else concat (map (bvh_tokens ''JOINT'') kids)"
  have kids: "reads E scale (concat (map (bvh_tokens ''JOINT'') kids)) kids"
    using Joint by (intro reads_forest ballI Joint.IH) auto
  show ?case
    unfolding reads_def
  proof (intro allI impI, elim conjE)
    fix ls rest line and st :: "'a bvh_state"
    assume ls: "map bvh_words ls = bvh_tokens kind (Joint nm off c chs site kids)" and r: "ready st"
    obtain l1 l2 l3 l4 inner l5 where l: "ls = l1 # l2 # l3 # l4 # inner @ [l5]"
      and w: "bvh_words l1 = [kind, nm]" "bvh_words l2 = [''{'']" "bvh_words l3 = [''OFFSET'', x, y, z]"
        "bvh_words l4 = ''CHANNELS'' # c # chs" "map bvh_words inner = ?inner" "bvh_words l5 = [''}'']"
      using ls [unfolded off bvh_tokens.simps append_Cons append_Nil]
      by (elim map_eq_Cons_D [THEN exE] exE conjE) (auto simp: map_eq_Cons_conv map_eq_append_conv)
    have ok: "parse_int E c = int (length chs)" "chs \<noteq> []" using Joint.prems by auto
    obtain st1 line1 nd where st1: "hierarchy_loop E scale (l1 # l2 # l3 # l4 # inner @ [l5] @ rest) line st =
        hierarchy_loop E scale (inner @ [l5] @ rest) line1 st1"
      and h: "next_addr st1 = Suc (next_addr st)" "cur_parent st1 = Some (next_addr st)"
        "bvh_nodes st1 = bvh_nodes st @ [next_addr st]"
        "nodeChannels st1 = nodeChannels st @ [''CHANNELS'' # c # chs]"
        "bvh_heap st1 (next_addr st) = Some nd" "parent nd = cur_parent st" "children nd = []"
        "(node_name nd, transform nd) = (nm, offset_m E scale (x, y, z))"
        "\<forall>a. a \<noteq> next_addr st \<longrightarrow> bvh_heap st1 a =
           (if cur_parent st = Some a
            then map_option (\<lambda>n. n \<lparr> children := children n @ [Some (next_addr st)] \<rparr>) (bvh_heap st a)
            else bvh_heap st a)"
      using joint_head [OF r blank ok Joint.prems(2) w(1-4),
            where rest = "inner @ [l5] @ rest" and line = line and scale = scale] by blast
    have r1: "ready st1" using h by (simp add: ready_def)
    obtain line2 st2 where st2: "hierarchy_loop E scale (inner @ [l5] @ rest) line1 st1 =
        hierarchy_loop E scale ([l5] @ rest) line2 st2" "grown E scale kids st1 st2"
    proof (cases "kids = []")
      case True
      then obtain a b d e where "inner = [a, b, d, e]" "bvh_words a = [''End'', ''Site'']"
        using w(5) by (auto simp: map_eq_Cons_conv)
      moreover obtain line' where "hierarchy_loop E scale (a # b # d # e # [l5] @ rest) line1 st1 =
          hierarchy_loop E scale ([l5] @ rest) line' st1"
        using hierarchy_site [OF calculation(2)] by blast
      ultimately show ?thesis using that [of line' st1] True by (simp add: grown_Nil)
    next
      case False
      then have "map bvh_words inner = concat (map (bvh_tokens ''JOINT'') kids)" using w(5) by simp
      then show ?thesis using that kids r1 unfolding reads_def by blast
    qed
    have root: "bvh_heap st2 (next_addr st) = Some (nd \<lparr> children := children nd @
        map (\<lambda>t. Some (root_of t)) (bvh_forest (next_addr st1) kids) \<rparr>)"
      by (rule grownD(8) [OF st2(2) h(2,5)])
    have "cur_parent st2 = Some (next_addr st)" using grownD(1) [OF st2(2)] h(2) by simp
    then have "hierarchy_loop E scale ([l5] @ rest) line2 st2 =
        hierarchy_loop E scale rest (trim l5) (st2 \<lparr> cur_parent := cur_parent st \<rparr>)"
      by (simp add: joint_tail [OF w(6) _ root] h(6))
    moreover have "grown E scale [Joint nm off c chs site kids] st (st2 \<lparr> cur_parent := cur_parent st \<rparr>)"
      unfolding off by (rule grown_joint [OF r h st2(2)])
    ultimately show "\<exists>line' st'. hierarchy_loop E scale (ls @ rest) line st = hierarchy_loop E scale rest line' st' \<and>
        grown E scale [Joint nm off c chs site kids] st st'"
      using st1 st2(1) by (auto simp: l)
  qed
qed

subsection \<open>Properties\<close>

text \<open>
  C21. The hierarchy part of a file is read back: for a tree of joints written in any layout, the
  loader stops at the line behind it with one node per joint, numbered depth first, with the joint's
  name and its scaled offset as transform; the nodes are linked as the joints are, and the skeleton made
  from the first one has them all.
\<close>

theorem BVH_hierarchy_read:
  assumes "children (blank_node E) = []" and "joint_ok E j" and "joint_size j < 2 ^ 32"
    and "map bvh_words ls = bvh_tokens ''ROOT'' j" and "bvh_words l = [''MOTION'']"
    and "st = \<lparr> bvh_heap = h, bvh_nodes = [], nodeChannels = [], totalChannels = 0,
                  cur_parent = None, cur_node = None, next_addr = fresh \<rparr>"
  shows "\<exists>st' sk h'. hierarchy_loop E scale (ls @ l # rest) line st = Some (Some (rest, trim l, st', True)) \<and>
     bvh_nodes st' = [fresh..<fresh + joint_size j] \<and> nodeChannels st' = joint_channels j \<and>
     list_all2 (node_holds (bvh_heap st')) (bvh_nodes st') (joint_data E scale j) \<and>
     Skeleton_of M (Some (bvh_nodes st' ! 0)) (bvh_heap st') = Some (sk, h') \<and>
     represents h' None (bvh_tree fresh j) \<and>
     Skeleton_NodeCount sk = word_of_nat (joint_size j)"
proof -
  have "ready st" using assms(6) by (simp add: ready_def)
  then obtain line' st' where loop: "hierarchy_loop E scale (ls @ l # rest) line st = hierarchy_loop E scale (l # rest) line' st'"
      and "grown E scale [j] st st'"
    using reads_joint [OF assms(1,2), of "''ROOT''" scale] assms(4) unfolding reads_def by blast
  note g = grownD [OF this(2)]
  have size: "0 < joint_size j" by (cases j) simp
  have nodes: "bvh_nodes st' = [fresh..<fresh + joint_size j]" using g(2,3) assms(6) by simp
  have st': "nodeChannels st' = joint_channels j"
    "list_all2 (node_holds (bvh_heap st')) (bvh_nodes st') (joint_data E scale j)"
    using g(4,6) nodes g(2) assms(6) by (simp_all add: forest_channels_def forest_data_def)
  have "hierarchy_loop E scale (l # rest) line' st' = Some (Some (rest, trim l, st', True))"
    using assms(5) nodes size
    by (simp add: hierarchy_loop.simps [of E scale "l # rest"] bvh_line_def elem_at_def)
  moreover have rep: "represents (bvh_heap st') None (bvh_tree fresh j)"
    using g(5) [of "bvh_tree fresh j"] assms(6) by simp
  have addrs: "distinct (addrs (bvh_tree fresh j))" "length (addrs (bvh_tree fresh j)) = joint_size j"
    "bvh_nodes st' ! 0 = root_of (bvh_tree fresh j)"
    using size by (simp_all add: addrs_bvh_tree nodes)
  obtain sk h' where "Skeleton_of M (Some (root_of (bvh_tree fresh j))) (bvh_heap st') = Some (sk, h')"
      "represents h' None (bvh_tree fresh j)" "Skeleton_NodeCount sk = word_of_nat (joint_size j)"
    using RootNode_new_tree [OF rep addrs(1), of M] represents_number [OF rep] assms(3) addrs(2)
    by (auto simp: Skeleton_NodeCount_def)
  ultimately show ?thesis unfolding addrs(3) [symmetric] using loop st' nodes by auto
qed

definition bvh_example_env :: "(Vector3d, unit) bvh_env" where
  "bvh_example_env =
     \<lparr> bvh_mat = translation_mats, axis_angle_q = \<lambda>_ _. (), parse_float = \<lambda>_. 1, parse_int = \<lambda>_. 3,
       blank_node = \<lparr> node_name = [], node_id = [], node_type = NODE, transform = Zero_m translation_mats,
         initialTransform = Zero_m translation_mats, modelTransform = Zero_m translation_mats,
         invBindTransform = Zero_m translation_mats, parent = None, children = [], handle = 0, rawTransforms = [] \<rparr>,
       length_0 = 0 \<rparr>"

definition bvh_example_joint :: bvh_joint where
  "bvh_example_joint = Joint ''hip'' (''0'', ''0'', ''0'') ''3'' [''Xposition'', ''Yposition'', ''Zposition''] []
     [Joint ''knee'' (''0'', ''1'', ''0'') ''3'' [''Zrotation'', ''Xrotation'', ''Yrotation''] [''OFFSET'', ''0'', ''2'', ''0''] []]"

definition bvh_example_lines :: "string list" where
  "bvh_example_lines =
     [''ROOT hip'', ''{'', ''OFFSET 0 0 0'', ''CHANNELS 3 Xposition Yposition Zposition'',
      ''  JOINT knee'', ''  {'', ''  OFFSET 0 1 0'', ''  CHANNELS 3 Zrotation Xrotation Yrotation'',
      ''  End Site'', ''  {'', ''  OFFSET 0 2 0'', ''  }'', ''  }'', ''}'']"

lemma bvh_example_words: "map bvh_words bvh_example_lines = bvh_tokens ''ROOT'' bvh_example_joint"
  by code_simp

lemma bvh_motion_words: "bvh_words ''MOTION'' = [''MOTION'']"
  by code_simp

lemma BVH_hierarchy_read_witness:
  "\<exists>st' sk h'. hierarchy_loop bvh_example_env 1 (bvh_example_lines @ ''MOTION'' # [''Frames: 0'']) []
       \<lparr> bvh_heap = Map.empty, bvh_nodes = [], nodeChannels = [], totalChannels = 0,
         cur_parent = None, cur_node = None, next_addr = 5 \<rparr> =
       Some (Some ([''Frames: 0''], trim ''MOTION'', st', True)) \<and> bvh_nodes st' = [5, 6] \<and>
     Skeleton_of translation_mats (Some (bvh_nodes st' ! 0)) (bvh_heap st') = Some (sk, h') \<and>
     represents h' None (Tree 5 [Tree 6 []])"
proof -
  have "joint_size bvh_example_joint = 2" "bvh_tree 5 bvh_example_joint = Tree 5 [Tree 6 []]"
    "[5..<5 + 2] = [5, 6 :: nat]"
    by (simp_all add: bvh_example_joint_def upt_rec)
  moreover have "joint_ok bvh_example_env bvh_example_joint" "children (blank_node bvh_example_env) = []"
    by (simp_all add: bvh_example_joint_def bvh_example_env_def)
  ultimately show ?thesis
    using BVH_hierarchy_read [OF _ _ _ bvh_example_words bvh_motion_words refl, of bvh_example_env 1
        "[''Frames: 0'']" "[]" Map.empty 5 translation_mats]
    by auto
qed

end
