(* ===== verification/Bvh_Animation.thy ===== *)
theory Bvh_Animation
  imports Bvh_Loader
begin

section \<open>Skeleton::AddBvhAnimation: fitting a loaded animation to a skeleton\<close>

text \<open>
  The operation of \<^verbatim>\<open>graphics/src/Skeleton.cc\<close> that loads a file, compares the loaded skeleton with
  this one node by node and computes a translation and a rotation for every node. Both skeletons
  have their nodes in one heap; the loaded one is destroyed when the call returns. Vector operations
  are the parameter \<open>V\<close>, the length of a vector is \<open>len\<close>. A read of a map with \<open>operator []\<close> enters a
  default value.
\<close>

subsection \<open>Comparing the nodes\<close>

fun match_nodes ::
    "'m Skeleton \<Rightarrow> 'm Skeleton \<Rightarrow> 'm node_heap \<Rightarrow> nat list \<Rightarrow> (string \<rightharpoonup> string) \<Rightarrow>
     (string \<rightharpoonup> string) option option" where
  "match_nodes sk skel h [] m = Some (Some m)"
| "match_nodes sk skel h (i # is) m =
     do {
       s \<leftarrow> NodeByHandle (word_of_nat i) sk;
       a \<leftarrow> NodeByHandle (word_of_nat i) skel;
       cs \<leftarrow> ChildCount s h;
       ca \<leftarrow> ChildCount a h;
       if cs \<noteq> ca then Some None
       else do {
         an \<leftarrow> NodeName a h;
         sn \<leftarrow> NodeName s h;
         match_nodes sk skel h is (m(an \<mapsto> sn)) } }"

definition compatible_map ::
    "'m Skeleton \<Rightarrow> 'm Skeleton \<Rightarrow> 'm node_heap \<Rightarrow> (string \<rightharpoonup> string) option option" where
  "compatible_map sk skel h =
     (if Skeleton_NodeCount sk \<noteq> Skeleton_NodeCount skel then Some None
      else match_nodes sk skel h [0..<unat (Skeleton_NodeCount sk)] Map.empty)"

subsection \<open>Aligning the frames\<close>

definition mapped_name :: "(string \<rightharpoonup> string) \<Rightarrow> string \<Rightarrow> string" where
  "mapped_name m an = (case m an of None \<Rightarrow> [] | Some s \<Rightarrow> s)"

definition rotation_m :: "('m, 'q) gz_mat \<Rightarrow> 'm \<Rightarrow> 'm" where
  "rotation_m M m = of_quaternion M (Rotation_m M m)"

text \<open>The vector from a node to its first child, in the model.\<close>

definition relative_v ::
    "('m, 'q) gz_mat \<Rightarrow> gz_math \<Rightarrow> nat \<Rightarrow> 'm node_heap \<Rightarrow> Vector3d option" where
  "relative_v M V a h =
     do {
       c \<leftarrow> Option.bind (Child a 0 h) id;
       mc \<leftarrow> ModelTransform c h;
       ma \<leftarrow> ModelTransform a h;
       Some (minus_v V (Translation_m M mc) (Translation_m M ma)) }"

text \<open>The part for a node with one child: the child's translation entry, the turned node.\<close>

definition align_child ::
    "('m, 'q) bvh_env \<Rightarrow> gz_math \<Rightarrow> (Vector3d \<Rightarrow> real) \<Rightarrow> nat \<Rightarrow> nat \<Rightarrow> (string \<rightharpoonup> 'm) \<Rightarrow> 'm node_heap \<Rightarrow>
     ((string \<rightharpoonup> 'm) \<times> 'm node_heap) option" where
  "align_child E V len a s tr h =
     do {
       relBVH \<leftarrow> relative_v (bvh_mat E) V a h;
       relSkin \<leftarrow> relative_v (bvh_mat E) V s h;
       if eq_v V relBVH (Zero_v V) \<or> eq_v V relSkin (Zero_v V) then Some (tr, h)
       else do {
         let M = bvh_mat E;
         let n = Cross_v V relBVH relSkin;
         let theta = arcsin (len n / (len relSkin * len relBVH));
         c \<leftarrow> Option.bind (Child a 0 h) id;
         cn \<leftarrow> NodeName c h;
         ma \<leftarrow> ModelTransform a h;
         ms \<leftarrow> ModelTransform s h;
         ta \<leftarrow> Transform a h;
         let n1 = Normalize_v V n;
         let tr' = tr(cn \<mapsto> mul_m M (mul_m M (Inverse_m M (rotation_m M ms))
                                     (of_quaternion M (axis_angle_q E n1 theta))) (rotation_m M ma));
         let n2 = Normalize_v V n1;
         let tmp = mul_m M (mul_m M (Inverse_m M (rotation_m M ma))
                              (of_quaternion M (axis_angle_q E n2 theta))) (rotation_m M ma);
         h' \<leftarrow> SetTransform M a (SetTranslation_m M (Translation_m M ta) tmp) True h;
         Some (tr', h') } }"

definition align_node ::
    "('m, 'q) bvh_env \<Rightarrow> gz_math \<Rightarrow> (Vector3d \<Rightarrow> real) \<Rightarrow> 'm Skeleton \<Rightarrow> 'm Skeleton \<Rightarrow> (string \<rightharpoonup> string) \<Rightarrow> nat \<Rightarrow>
     (string \<rightharpoonup> 'm) \<Rightarrow> 'm node_heap \<Rightarrow> ((string \<rightharpoonup> 'm) \<times> 'm node_heap) option" where
  "align_node E V len sk skel skelMap i tr h =
     do {
       let M = bvh_mat E;
       a \<leftarrow> NodeByHandle (word_of_nat i) skel;
       s \<leftarrow> NodeByHandle (word_of_nat i) sk;
       an \<leftarrow> NodeName a h;
       p \<leftarrow> Parent a h;
       tr1 \<leftarrow> (case p of
                None \<Rightarrow> Some tr
              | Some pa \<Rightarrow>
                  do { pc \<leftarrow> ChildCount pa h;
                       ts \<leftarrow> Transform s h;
                       Some (if pc > 1 \<and> eq_v V (Translation_m M ts) (Zero_v V)
                             then tr(an \<mapsto> Identity_m M) else tr) });
       ca \<leftarrow> ChildCount a h;
       if ca = 0 then Some (tr1, h)
       else do {
         r \<leftarrow> GetRootNode sk;
         rn \<leftarrow> NodeName r h;
         (tr2, h2) \<leftarrow>
           (if rn = mapped_name skelMap an
            then do { rt \<leftarrow> Transform r h;
                      ta \<leftarrow> Transform a h;
                      h' \<leftarrow> SetTransform M a (SetTranslation_m M (Translation_m M ta) (rotation_m M rt)) True h;
                      Some (tr1(an \<mapsto> rotation_m M rt), h') }
            else Some (tr1, h));
         if ca > 1 then Some (tr2, h2) else align_child E V len a s tr2 h2 } }"

fun align_nodes ::
    "('m, 'q) bvh_env \<Rightarrow> gz_math \<Rightarrow> (Vector3d \<Rightarrow> real) \<Rightarrow> 'm Skeleton \<Rightarrow> 'm Skeleton \<Rightarrow> (string \<rightharpoonup> string) \<Rightarrow> nat list \<Rightarrow>
     (string \<rightharpoonup> 'm) \<Rightarrow> 'm node_heap \<Rightarrow> ((string \<rightharpoonup> 'm) \<times> 'm node_heap) option" where
  "align_nodes E V len sk skel skelMap [] tr h = Some (tr, h)"
| "align_nodes E V len sk skel skelMap (i # is) tr h =
     do { (tr', h') \<leftarrow> align_node E V len sk skel skelMap i tr h;
          align_nodes E V len sk skel skelMap is tr' h' }"

fun rotation_nodes ::
    "('m, 'q) gz_mat \<Rightarrow> 'm Skeleton \<Rightarrow> 'm Skeleton \<Rightarrow> (string \<rightharpoonup> string) \<Rightarrow> 'm node_heap \<Rightarrow> nat list \<Rightarrow>
     (string \<rightharpoonup> 'm) \<Rightarrow> (string \<rightharpoonup> 'm) \<Rightarrow> ((string \<rightharpoonup> 'm) \<times> (string \<rightharpoonup> 'm)) option" where
  "rotation_nodes M sk skel skelMap h [] tr rot = Some (tr, rot)"
| "rotation_nodes M sk skel skelMap h (i # is) tr rot =
     do {
       a \<leftarrow> NodeByHandle (word_of_nat i) skel;
       s \<leftarrow> NodeByHandle (word_of_nat i) sk;
       an \<leftarrow> NodeName a h;
       r \<leftarrow> GetRootNode sk;
       rn \<leftarrow> NodeName r h;
       if mapped_name skelMap an = rn
       then rotation_nodes M sk skel skelMap h is tr (rot(an \<mapsto> Identity_m M))
       else do {
         let t0 = (case tr an of None \<Rightarrow> default_m M | Some t \<Rightarrow> t);
         let t1 = (if equal_m M t0 (Zero_m M) then Identity_m M else t0);
         ta \<leftarrow> Transform a h;
         ts \<leftarrow> Transform s h;
         rotation_nodes M sk skel skelMap h is (tr(an \<mapsto> t1))
           (rot(an \<mapsto> mul_m M (mul_m M (Inverse_m M (rotation_m M ta)) (Inverse_m M t1)) (rotation_m M ts))) } }"

type_synonym 'm added = "bool \<times> 'm Skeleton \<times> 'm node_heap \<times> nat"

definition AddBvhAnimation ::
    "('m, 'q) bvh_env \<Rightarrow> gz_math \<Rightarrow> (Vector3d \<Rightarrow> real) \<Rightarrow> (string \<Rightarrow> bool) \<Rightarrow> string \<Rightarrow> SystemPaths \<Rightarrow>
     (string \<Rightarrow> string option) \<Rightarrow> string \<Rightarrow> real \<Rightarrow> 'm Skeleton \<Rightarrow> 'm node_heap \<Rightarrow> nat \<Rightarrow> 'm added option" where
  "AddBvhAnimation E V len ex dir sp disk bvhFile scale sk h fresh =
     do {
       (loaded, h1, fresh1) \<leftarrow> BVH_Load E ex dir sp disk bvhFile scale h fresh;
       (case loaded of
          None \<Rightarrow> Some (False, sk, h1, fresh1)
        | Some skel \<Rightarrow>
            do {
              m \<leftarrow> compatible_map sk skel h1;
              (case m of
                 None \<Rightarrow> do { h2 \<leftarrow> Skeleton_destroy skel h1; Some (False, sk, h2, fresh1) }
               | Some skelMap \<Rightarrow>
                   do {
                     (tr, h2) \<leftarrow> align_nodes E V len sk skel skelMap
                                   [0..<unat (Skeleton_NodeCount skel)] Map.empty h1;
                     (tr', rot) \<leftarrow> rotation_nodes (bvh_mat E) sk skel skelMap h2
                                   [0..<unat (Skeleton_NodeCount skel)] tr Map.empty;
                     anim \<leftarrow> Animation 0 skel;
                     h3 \<leftarrow> Skeleton_destroy skel h2;
                     Some (True, sk \<lparr> anims := anims sk @ [anim], mapAnimSkin := mapAnimSkin sk @ [skelMap],
                                       alignTranslate := alignTranslate sk @ [tr'],
                                       alignRotate := alignRotate sk @ [rot] \<rparr>, h3, fresh1) }) }) }"

subsection \<open>Lemmas\<close>

text \<open>The four lists of a skeleton stay as long as each other, so that every animation has its name
  map and its alignments.\<close>

definition anim_lists :: "'m Skeleton \<Rightarrow> bool" where
  "anim_lists sk \<longleftrightarrow> length (mapAnimSkin sk) = length (anims sk) \<and>
     length (alignTranslate sk) = length (anims sk) \<and> length (alignRotate sk) = length (anims sk)"

lemma Skeleton_new_lists [wf_intro]: "anim_lists (Skeleton_new M)"
  by (simp add: anim_lists_def Skeleton_new_def)

lemma AddAnimation_lists [wf_intro]: "anim_lists sk \<Longrightarrow> anim_lists (AddAnimation a sk)"
  by (simp add: anim_lists_def AddAnimation_def)

lemma AddBvhAnimation_cases:
  assumes "AddBvhAnimation E V len ex dir sp disk f scale sk h fresh = Some (ok, sk', h', n)"
  shows "(\<not> ok \<and> sk' = sk) \<or>
    (ok \<and> (\<exists>anim skelMap tr rot.
       anims sk' = anims sk @ [anim] \<and> mapAnimSkin sk' = mapAnimSkin sk @ [skelMap] \<and>
       alignTranslate sk' = alignTranslate sk @ [tr] \<and> alignRotate sk' = alignRotate sk @ [rot] \<and>
       (\<exists>skel h1. BVH_Load E ex dir sp disk f scale h fresh = Some (Some skel, h1, n) \<and>
          compatible_map sk skel h1 = Some (Some skelMap) \<and> Animation 0 skel = Some anim)))"
  using assms unfolding AddBvhAnimation_def
  by (auto simp: bind_eq_Some_conv split: option.splits)

lemma match_nodes_children:
  "match_nodes sk skel h is m = Some (Some m') \<Longrightarrow> i \<in> set is \<Longrightarrow>
     \<exists>s a. NodeByHandle (word_of_nat i) sk = Some s \<and> NodeByHandle (word_of_nat i) skel = Some a \<and>
       ChildCount s h = ChildCount a h \<and> ChildCount a h \<noteq> None"
  by (induction "is" arbitrary: m) (auto simp: bind_eq_Some_conv split: if_splits)

lemma match_nodes_dom:
  "match_nodes sk skel h is m = Some (Some m') \<Longrightarrow>
     dom m \<subseteq> dom m' \<and>
     (\<forall>i \<in> set is. \<exists>a an. NodeByHandle (word_of_nat i) skel = Some a \<and> NodeName a h = Some an \<and> an \<in> dom m')"
proof (induction "is" arbitrary: m)
  case (Cons i "is")
  then obtain a an sn where a: "NodeByHandle (word_of_nat i) skel = Some a" "NodeName a h = Some an"
    and rest: "match_nodes sk skel h is (m(an \<mapsto> sn)) = Some (Some m')"
    by (auto simp: bind_eq_Some_conv split: if_splits)
  note IH = Cons.IH [OF rest]
  have "dom m \<subseteq> dom (m(an \<mapsto> sn))" "an \<in> dom (m(an \<mapsto> sn))" by auto
  with IH have "dom m \<subseteq> dom m'" "an \<in> dom m'" by blast+
  with IH a show ?case by simp
qed simp

subsection \<open>The outcome\<close>

text \<open>
  Adding an animation from a file either refuses and leaves the skeleton as it was, or adds exactly
  one animation, the first of the loaded skeleton, with its name map and alignments under the same
  index; it does so only when both skeletons have the same number of nodes and nodes of the same
  number have as many children, and then the name map knows every loaded node.
\<close>

lemma AddBvhAnimation_all_or_nothing:
  assumes "AddBvhAnimation E V len ex dir sp disk f scale sk h fresh = Some (ok, sk', h', n)" and "anim_lists sk"
  shows "anim_lists sk' \<and> (if \<not> ok then sk' = sk else
     \<exists>skel h1 anim. BVH_Load E ex dir sp disk f scale h fresh = Some (Some skel, h1, n) \<and>
       Animation 0 skel = Some anim \<and> anims sk' = anims sk @ [anim] \<and>
       Skeleton_NodeCount sk = Skeleton_NodeCount skel \<and>
       (\<forall>i < unat (Skeleton_NodeCount skel). \<exists>s a an.
          NodeByHandle (word_of_nat i) sk = Some s \<and> NodeByHandle (word_of_nat i) skel = Some a \<and>
          ChildCount s h1 = ChildCount a h1 \<and> NodeName a h1 = Some an \<and>
          an \<in> dom (last (mapAnimSkin sk'))))"
proof (cases ok)
  case False
  then show ?thesis using AddBvhAnimation_cases [OF assms(1)] assms(2) by auto
next
  case True
  then obtain anim skelMap tr rot skel h1 where
    sk': "anims sk' = anims sk @ [anim]" "mapAnimSkin sk' = mapAnimSkin sk @ [skelMap]"
      "alignTranslate sk' = alignTranslate sk @ [tr]" "alignRotate sk' = alignRotate sk @ [rot]"
    and load: "BVH_Load E ex dir sp disk f scale h fresh = Some (Some skel, h1, n)"
      "compatible_map sk skel h1 = Some (Some skelMap)" "Animation 0 skel = Some anim"
    using AddBvhAnimation_cases [OF assms(1)] by blast
  have count: "Skeleton_NodeCount sk = Skeleton_NodeCount skel"
    and m: "match_nodes sk skel h1 [0..<unat (Skeleton_NodeCount skel)] Map.empty = Some (Some skelMap)"
    using load(2) by (auto simp: compatible_map_def split: if_splits)
  have "\<exists>s a an. NodeByHandle (word_of_nat i) sk = Some s \<and> NodeByHandle (word_of_nat i) skel = Some a \<and>
      ChildCount s h1 = ChildCount a h1 \<and> NodeName a h1 = Some an \<and> an \<in> dom skelMap"
    if i: "i < unat (Skeleton_NodeCount skel)" for i
  proof -
    have mem: "i \<in> set [0..<unat (Skeleton_NodeCount skel)]" using i by simp
    obtain s a where sa: "NodeByHandle (word_of_nat i) sk = Some s" "NodeByHandle (word_of_nat i) skel = Some a"
        "ChildCount s h1 = ChildCount a h1" "ChildCount a h1 \<noteq> None"
      using match_nodes_children [OF m mem] by blast
    moreover obtain an where "NodeName a h1 = Some an" "an \<in> dom skelMap"
      using match_nodes_dom [OF m] mem sa(2) by fastforce
    ultimately show ?thesis by blast
  qed
  then show ?thesis
    using True sk' load count assms(2) by (auto simp: anim_lists_def)
qed

text \<open>A file without the word \<open>HIERARCHY\<close> in its first line is refused.\<close>

lemma AddBvhAnimation_refused:
  assumes "findFile ex dir sp f True = Some p" "p \<noteq> []" "disk p = Some txt"
    and "getline (file_lines txt) [] = (ls, line)" "str_find line ''HIERARCHY'' 0 = None"
  shows "AddBvhAnimation E V len ex dir sp disk f scale sk h fresh = Some (False, sk, h, fresh)"
  using assms by (simp add: AddBvhAnimation_def BVH_Load_def)

end
