(* ===== verification/Svg_Path.thy ===== *)
theory Svg_Path
  imports Number_Text Text_Util "HOL-Library.Multiset"
begin

section \<open>SVGLoader: path commands, curves and transforms\<close>

text \<open>
  \<^verbatim>\<open>graphics/src/SVGLoader.cc\<close>, from the XML tree to polylines. A \<open>double\<close> is a real number, also
  where the code goes through \<open>float\<close>; only the steps along a curve are rounded. The 3x3 matrix of gz-math and its operations are a parameter,
  and so is tinyxml2, which hands over a tree of nodes. \<^const>\<open>None\<close> stands for a call without a result: an
  exception of \<open>stod\<close>, an index out of range, or a loop that never ends.
\<close>

type_synonym point = "real \<times> real"

record SVGCommand =
  svg_cmd :: char
  numbers :: "real list"

record 'm SVGPath =
  svg_id :: string
  svg_style :: string
  svg_transform :: 'm
  subpaths :: "SVGCommand list list"
  polylines :: "point list list"

text \<open>The constructor of \<open>Matrix3d\<close> from nine numbers, row by row, and what the code calls on it.\<close>

record 'm gz_mat3 =
  of_rows :: "real list \<Rightarrow> 'm"
  mul3 :: "'m \<Rightarrow> 'm \<Rightarrow> 'm"
  apply3 :: "'m \<Rightarrow> real \<times> real \<times> real \<Rightarrow> real \<times> real \<times> real"
  Identity3 :: 'm
  eq3 :: "'m \<Rightarrow> 'm \<Rightarrow> bool"

subsection \<open>Transforms\<close>

definition radians :: "real \<Rightarrow> real" where
  "radians deg = deg * pi / 180"

text \<open>\<open>stod\<close> of every parameter that is used; \<^const>\<open>None\<close> when one throws.\<close>

fun stods :: "string list \<Rightarrow> real list option" where
  "stods [] = Some []"
| "stods (s # ss) = do { x \<leftarrow> stod s; xs \<leftarrow> stods ss; Some (x # xs) }"

definition has_word :: "string \<Rightarrow> string \<Rightarrow> bool" where
  "has_word s w \<longleftrightarrow> str_find s w 0 \<noteq> None"

definition ParseTransformMatrixStr :: "'m gz_mat3 \<Rightarrow> string \<Rightarrow> 'm option" where
  "ParseTransformMatrixStr M transformStr =
     (if transformStr = [] then Some (Identity3 M)
      else
        let tx = split transformStr ''(''
        in if length tx < 2 then Some (Identity3 M)
           else
             let transform = tx ! 0;
                 nums = split (tx ! 1) '','';
                 n = length nums
             in if has_word transform ''matrix'' then
                  (if n \<noteq> 6 then Some (Identity3 M)
                   else do {
                     xs \<leftarrow> stods nums;
                     Some (of_rows M [xs ! 0, xs ! 2, xs ! 4, xs ! 1, xs ! 3, xs ! 5, 0, 0, 1]) })
                else if has_word transform ''skewX'' then
                  (if n \<noteq> 1 then Some (Identity3 M)
                   else do { xs \<leftarrow> stods nums;
                             Some (of_rows M [1, tan (radians (xs ! 0)), 0, 0, 1, 0, 0, 0, 1]) })
                else if has_word transform ''skewY'' then
                  (if n \<noteq> 1 then Some (Identity3 M)
                   else do { xs \<leftarrow> stods nums;
                             Some (of_rows M [1, 0, 0, tan (radians (xs ! 0)), 1, 0, 0, 0, 1]) })
                else if has_word transform ''scale'' then
                  (if n = 0 \<or> n > 2 then Some (Identity3 M)
                   else do { xs \<leftarrow> stods nums;
                             let x = xs ! 0;
                             let y = (if n = 2 then xs ! 1 else x);
                             Some (of_rows M [x, 0, 0, 0, y, 0, 0, 0, 1]) })
                else if has_word transform ''translate'' then
                  (if n = 0 \<or> n > 2 then Some (Identity3 M)
                   else do { xs \<leftarrow> stods nums;
                             let x = xs ! 0;
                             let y = (if n = 2 then xs ! 1 else 0);
                             Some (of_rows M [1, 0, x, 0, 1, y, 0, 0, 1]) })
                else if has_word transform ''rotate'' then
                  (if n = 0 \<or> n = 2 \<or> n > 3 then Some (Identity3 M)
                   else do { xs \<leftarrow> stods nums;
                             let a = radians (xs ! 0);
                             let x = (if n = 3 then xs ! 1 else 0);
                             let y = (if n = 3 then xs ! 2 else 0);
                             Some (mul3 M (mul3 M (of_rows M [1, 0, x, 0, 1, y, 0, 0, 1])
                                      (of_rows M [cos a, - sin a, 0, sin a, cos a, 0, 0, 0, 1]))
                                    (of_rows M [1, 0, - x, 0, 1, - y, 0, 0, 1])) })
                else Some (Identity3 M))"

subsection \<open>Curves\<close>

definition bezierInterpolate :: "real \<Rightarrow> point \<Rightarrow> point \<Rightarrow> point \<Rightarrow> point \<Rightarrow> point" where
  "bezierInterpolate t p0 p1 p2 p3 =
     (let t_1 = 1 - t;
          t_1_2 = t_1 * t_1;
          t_1_3 = t_1_2 * t_1;
          t2 = t * t;
          t3 = t2 * t
      in (t_1_3 * fst p0 + 3 * t * t_1_2 * fst p1 + 3 * t2 * t_1 * fst p2 + t3 * fst p3,
          t_1_3 * snd p0 + 3 * t * t_1_2 * snd p1 + 3 * t2 * t_1 * snd p2 + t3 * snd p3))"

text \<open>
  How far a curve goes from one sample to the next is where rounding decides how many points there are: ten
  steps of a tenth do not reach 1 in binary. The addition of the loop and the division that makes the step are
  therefore those of the machine, a parameter; the points themselves are computed in the reals.
\<close>

record double_ops =
  double_add :: "real \<Rightarrow> real \<Rightarrow> real"
  double_div :: "real \<Rightarrow> real \<Rightarrow> real"

record sampling =
  sm_step :: real
  sm_plus :: "real \<Rightarrow> real \<Rightarrow> real"

partial_function (option) bezier_loop ::
    "point \<Rightarrow> point \<Rightarrow> point \<Rightarrow> point \<Rightarrow> sampling \<Rightarrow> real \<Rightarrow> point list \<Rightarrow> point list option" where
  "bezier_loop p0 p1 p2 p3 step t points =
     (if t < 1
      then bezier_loop p0 p1 p2 p3 step (sm_plus step t (sm_step step)) (points @ [bezierInterpolate t p0 p1 p2 p3])
      else Some points)"

definition cubicBezier ::
    "point \<Rightarrow> point \<Rightarrow> point \<Rightarrow> point \<Rightarrow> sampling \<Rightarrow> point list \<Rightarrow> point list option" where
  "cubicBezier p0 p1 p2 p3 step points =
     do { points' \<leftarrow> bezier_loop p0 p1 p2 p3 step (sm_step step) points; Some (points' @ [p3]) }"

definition Sqr :: "real \<Rightarrow> real" where
  "Sqr x = x * x"

definition VecAng :: "real \<Rightarrow> real \<Rightarrow> real \<Rightarrow> real \<Rightarrow> real" where
  "VecAng ux uy vx vy =
     (let uMag = sqrt (ux * ux + uy * uy);
          vMag = sqrt (vx * vx + vy * vy);
          r = (ux * vx + uy * vy) / (uMag * vMag);
          r = (if r < - 1 then - 1 else if r > 1 then 1 else r);
          a = arccos r
      in if ux * vy < uy * vx then - a else a)"

record arc =
  arc_rx :: real
  arc_ry :: real
  arc_cos :: real
  arc_sin :: real
  arc_cx :: real
  arc_cy :: real
  arc_a1 :: real
  arc_da :: real

text \<open>The centre parameterization: the radii, the centre, the first angle and the angle turned.\<close>

definition arc_params ::
    "point \<Rightarrow> real \<Rightarrow> real \<Rightarrow> real \<Rightarrow> nat \<Rightarrow> nat \<Rightarrow> point \<Rightarrow> arc" where
  "arc_params p0 rx0 ry0 rotxDeg largeArc sweepDirection pEnd =
     (let rotx = rotxDeg / 180 * pi;
          x1 = fst p0; y1 = snd p0; x2 = fst pEnd; y2 = snd pEnd;
          dx = x1 - x2; dy = y1 - y2;
          sinrx = sin rotx; cosrx = cos rotx;
          x1p = cosrx * dx / 2 + sinrx * dy / 2;
          y1p = - sinrx * dx / 2 + cosrx * dy / 2;
          d = Sqr x1p / Sqr rx0 + Sqr y1p / Sqr ry0;
          rx = (if d > 1 then rx0 * sqrt d else rx0);
          ry = (if d > 1 then ry0 * sqrt d else ry0);
          sa = Sqr rx * Sqr ry - Sqr rx * Sqr y1p - Sqr ry * Sqr x1p;
          sb = Sqr rx * Sqr y1p + Sqr ry * Sqr x1p;
          sa = (if sa < 0 then 0 else sa);
          s = (if sb > 0 then sqrt (sa / sb) else 0);
          s = (if largeArc = sweepDirection then - s else s);
          cxp = s * rx * y1p / ry;
          cyp = s * - ry * x1p / rx;
          cx = (x1 + x2) / 2 + cosrx * cxp - sinrx * cyp;
          cy = (y1 + y2) / 2 + sinrx * cxp + cosrx * cyp;
          ux = (x1p - cxp) / rx; uy = (y1p - cyp) / ry;
          vx = (- x1p - cxp) / rx; vy = (- y1p - cyp) / ry;
          a1 = VecAng 1 0 ux uy;
          da = VecAng ux uy vx vy;
          da = (if largeArc \<noteq> 0 then (if da > 0 then da - 2 * pi else 2 * pi + da) else da);
          da = (if pi - \<bar>da\<bar> < 1 / 1000 then (if sweepDirection \<noteq> 0 then pi else - pi) else da)
      in \<lparr> arc_rx = rx, arc_ry = ry, arc_cos = cosrx, arc_sin = sinrx, arc_cx = cx, arc_cy = cy,
           arc_a1 = a1, arc_da = da \<rparr>)"

definition arc_divs :: "real \<Rightarrow> nat" where
  "arc_divs da = nat \<lfloor>\<bar>da\<bar> / (pi * 0.5) + 1\<rfloor>"

text \<open>Position and tangent at the end of segment \<open>i\<close>.\<close>

definition arc_point :: "arc \<Rightarrow> real \<Rightarrow> nat \<Rightarrow> nat \<Rightarrow> point \<times> point" where
  "arc_point A kappa ndivs i =
     (let a = arc_a1 A + arc_da A * (1 * real i / real ndivs);
          dx = cos a; dy = sin a;
          pox = dx * arc_rx A; poy = dy * arc_ry A;
          x = pox * arc_cos A + poy * (- arc_sin A) + arc_cx A;
          y = pox * arc_sin A + poy * arc_cos A + arc_cy A;
          tx = - dy * arc_rx A * kappa; ty = dx * arc_ry A * kappa;
          tanx = tx * arc_cos A + ty * (- arc_sin A);
          tany = tx * arc_sin A + ty * arc_cos A
      in ((x, y), (tanx, tany)))"

fun arc_loop ::
    "arc \<Rightarrow> real \<Rightarrow> nat \<Rightarrow> sampling \<Rightarrow> nat list \<Rightarrow> point \<Rightarrow> point \<Rightarrow> point list \<Rightarrow> point list option" where
  "arc_loop A kappa ndivs step [] p ptan points = Some points"
| "arc_loop A kappa ndivs step (i # is) p ptan points =
     (case arc_point A kappa ndivs i of
        ((x, y), (tanx, tany)) \<Rightarrow>
          do {
            points' \<leftarrow> (if i > 0
              then cubicBezier p (fst p + fst ptan, snd p + snd ptan) (x - tanx, y - tany) (x, y) step points
              else Some points);
            arc_loop A kappa ndivs step is (x, y) (tanx, tany) points' })"

definition arcPath ::
    "point \<Rightarrow> real \<Rightarrow> real \<Rightarrow> real \<Rightarrow> nat \<Rightarrow> nat \<Rightarrow> point \<Rightarrow> sampling \<Rightarrow> point list \<Rightarrow> point list option" where
  "arcPath p0 rx ry rotxDeg largeArc sweepDirection pEnd step points =
     (let dx = fst p0 - fst pEnd;
          dy = snd p0 - snd pEnd;
          d = sqrt (dx * dx + dy * dy)
      in if d < 1 / 1000000 \<or> rx < 1 / 1000000 \<or> ry < 1 / 1000000 then Some (points @ [pEnd])
         else
           let A = arc_params p0 rx ry rotxDeg largeArc sweepDirection pEnd;
               da = arc_da A;
               ndivs = arc_divs da;
               hda = da / real ndivs / 2;
               kappa = \<bar>4 / 3 * (1 - cos hda) / sin hda\<bar>;
               kappa = (if da < 0 then - kappa else kappa)
           in arc_loop A kappa ndivs step [0..<ndivs + 1] (0, 0) (0, 0) points)"

subsection \<open>Subpaths to polylines\<close>

definition to_unsigned :: "real \<Rightarrow> nat option" where
  "to_unsigned x = (if - 1 < x \<and> x < 2 ^ 32 then Some (nat \<lfloor>x\<rfloor>) else None)"

text \<open>The loops over the numbers of a command; reading behind the last number is undefined.\<close>

fun line_points :: "bool \<Rightarrow> real list \<Rightarrow> point \<Rightarrow> point list \<Rightarrow> (point \<times> point list) option" where
  "line_points rel [] cur poly = Some (cur, poly)"
| "line_points rel (x # y # r) cur poly =
     (let p = (if rel then (x + fst cur, y + snd cur) else (x, y))
      in line_points rel r p (poly @ [p]))"
| "line_points rel _ cur poly = None"

fun curve_points :: "bool \<Rightarrow> sampling \<Rightarrow> real list \<Rightarrow> point \<Rightarrow> point list \<Rightarrow> (point \<times> point list) option" where
  "curve_points rel res [] cur poly = Some (cur, poly)"
| "curve_points rel res (x1 # y1 # x2 # y2 # x3 # y3 # r) cur poly =
     (let o' = (if rel then cur else (0, 0));
          p1 = (x1 + fst o', y1 + snd o');
          p2 = (x2 + fst o', y2 + snd o');
          p3 = (x3 + fst o', y3 + snd o')
      in do { poly' \<leftarrow> cubicBezier cur p1 p2 p3 res poly; curve_points rel res r p3 poly' })"
| "curve_points rel res _ cur poly = None"

fun arc_points :: "bool \<Rightarrow> sampling \<Rightarrow> real list \<Rightarrow> point \<Rightarrow> point list \<Rightarrow> (point \<times> point list) option" where
  "arc_points rel res [] cur poly = Some (cur, poly)"
| "arc_points rel res (rx # ry # xRot # arc # sweep # x # y # r) cur poly =
     do {
       a \<leftarrow> to_unsigned arc;
       s \<leftarrow> to_unsigned sweep;
       let pEnd = (if rel then (x + fst cur, y + snd cur) else (x, y));
       poly' \<leftarrow> arcPath cur rx ry xRot a s pEnd res poly;
       arc_points rel res r pEnd poly' }"
| "arc_points rel res _ cur poly = None"

definition point_distance :: "point \<Rightarrow> point \<Rightarrow> real" where
  "point_distance p q = sqrt ((fst p - fst q) * (fst p - fst q) + (snd p - snd q) * (snd p - snd q))"

definition command_points ::
    "sampling \<Rightarrow> SVGCommand \<Rightarrow> point \<Rightarrow> point list \<Rightarrow> (point \<times> point list) option" where
  "command_points res c cur poly =
     (let k = svg_cmd c
      in if k = CHR ''m'' \<or> k = CHR ''l'' then line_points True (numbers c) cur poly
         else if k = CHR ''M'' \<or> k = CHR ''L'' then line_points False (numbers c) cur poly
         else if k = CHR ''C'' then curve_points False res (numbers c) cur poly
         else if k = CHR ''c'' then curve_points True res (numbers c) cur poly
         else if k = CHR ''A'' then arc_points False res (numbers c) cur poly
         else if k = CHR ''a'' then arc_points True res (numbers c) cur poly
         else if k = CHR ''Z'' \<or> k = CHR ''z'' then
           (if poly = [] then None
            else Some (cur, if point_distance (List.last poly) (hd poly) > 1 / 100000
                             then poly @ [hd poly] else poly))
         else Some (cur, poly))"

fun commands_points ::
    "sampling \<Rightarrow> SVGCommand list \<Rightarrow> point \<Rightarrow> point list \<Rightarrow> (point \<times> point list) option" where
  "commands_points res [] cur poly = Some (cur, poly)"
| "commands_points res (c # cs) cur poly =
     do { (cur', poly') \<leftarrow> command_points res c cur poly; commands_points res cs cur' poly' }"

definition SubpathToPolyline ::
    "sampling \<Rightarrow> SVGCommand list \<Rightarrow> point \<Rightarrow> point list \<Rightarrow> (point \<times> point list) option" where
  "SubpathToPolyline res subpath cur poly =
     (if poly \<noteq> [] then Some ((0, 0), poly) else commands_points res subpath cur poly)"

subsection \<open>Splitting and expanding the commands\<close>

text \<open>The loop of \<open>SplitSubpaths\<close>; \<open>back ()\<close> of no subpath is undefined.\<close>

fun split_loop_cmds :: "SVGCommand list \<Rightarrow> SVGCommand list list \<Rightarrow> SVGCommand list list option" where
  "split_loop_cmds [] subs = Some subs"
| "split_loop_cmds (c # cs) subs =
     (let subs' = (if tolower (svg_cmd c) = CHR ''m'' then subs @ [[]] else subs)
      in if subs' = [] then None
         else split_loop_cmds cs (butlast subs' @ [List.last subs' @ [c]]))"

definition SplitSubpaths ::
    "SVGCommand list \<Rightarrow> SVGCommand list list \<Rightarrow> (bool \<times> SVGCommand list list) option" where
  "SplitSubpaths cmds subs =
     (if cmds = [] then Some (False, subs)
      else map_option (\<lambda>s. (True, s)) (split_loop_cmds cmds subs))"

definition numberCount :: "char \<Rightarrow> nat" where
  "numberCount c =
     (let k = tolower c
      in if k = CHR ''a'' then 7 else if k = CHR ''c'' then 6
         else if k = CHR ''m'' then 2 else if k = CHR ''l'' then 2
         else if k = CHR ''v'' then 1 else if k = CHR ''h'' then 1 else 0)"

text \<open>The groups of \<open>n\<close> numbers. With \<open>n = 0\<close> the loop never ends; a last group that is too short is
  read out of range.\<close>

function number_groups :: "nat \<Rightarrow> real list \<Rightarrow> real list list option" where
  "number_groups n xs =
     (if xs = [] then Some []
      else if n = 0 \<or> length xs < n then None
      else do { gs \<leftarrow> number_groups n (drop n xs); Some (take n xs # gs) })"
  by pat_completeness auto
termination
  by (relation "measure (\<lambda>(n, xs). length xs)") auto

declare number_groups.simps [simp del]

definition expand_command :: "SVGCommand \<Rightarrow> SVGCommand list option" where
  "expand_command c =
     do { gs \<leftarrow> number_groups (numberCount (svg_cmd c)) (numbers c);
          Some ((if tolower (svg_cmd c) = CHR ''z'' then [c] else []) @
                map (\<lambda>g. \<lparr> svg_cmd = svg_cmd c, numbers = g \<rparr>) gs) }"

fun expand_subpath :: "SVGCommand list \<Rightarrow> SVGCommand list option" where
  "expand_subpath [] = Some []"
| "expand_subpath (c # cs) =
     do { e \<leftarrow> expand_command c; es \<leftarrow> expand_subpath cs; Some (e @ es) }"

fun ExpandCommands :: "SVGCommand list list \<Rightarrow> 'm SVGPath \<Rightarrow> 'm SVGPath option" where
  "ExpandCommands [] path = Some path"
| "ExpandCommands (s # ss) path =
     do { e \<leftarrow> expand_subpath s; ExpandCommands ss (path \<lparr> subpaths := subpaths path @ [e] \<rparr>) }"

subsection \<open>Tokens, attributes and nodes\<close>

definition is_command :: "string \<Rightarrow> bool" where
  "is_command token \<longleftrightarrow> token \<noteq> [] \<and> hd token \<in> set ''aAcCmMqQlLvVhHzZ''"

text \<open>\<^const>\<open>None\<close> for no command yet (the code's \<open>'x'\<close>).\<close>

fun token_commands :: "string list \<Rightarrow> char option \<Rightarrow> real list \<Rightarrow> SVGCommand list" where
  "token_commands [] lastCmd nums =
     (case lastCmd of None \<Rightarrow> [] | Some c \<Rightarrow> [\<lparr> svg_cmd = c, numbers = nums \<rparr>])"
| "token_commands (t # ts) lastCmd nums =
     (if \<not> is_command t then token_commands ts lastCmd (nums @ map atof (split t '',''))
      else (case lastCmd of None \<Rightarrow> [] | Some c \<Rightarrow> [\<lparr> svg_cmd = c, numbers = nums \<rparr>]) @
           token_commands ts (Some (hd t)) [])"

fun subpath_polylines ::
    "sampling \<Rightarrow> SVGCommand list list \<Rightarrow> point \<Rightarrow> point list list \<Rightarrow> point list list option" where
  "subpath_polylines res [] p polys = Some polys"
| "subpath_polylines res (s # ss) p polys =
     do { (p', poly) \<leftarrow> SubpathToPolyline res s p []; subpath_polylines res ss p' (polys @ [poly]) }"

definition transform_point :: "'m gz_mat3 \<Rightarrow> 'm \<Rightarrow> point \<Rightarrow> point" where
  "transform_point M m p = (case apply3 M m (fst p, snd p, 1) of (x, y, _) \<Rightarrow> (x, y))"

definition PathCommands ::
    "'m gz_mat3 \<Rightarrow> sampling \<Rightarrow> string list \<Rightarrow> 'm SVGPath \<Rightarrow> (bool \<times> 'm SVGPath) option" where
  "PathCommands M res tokens path =
     do {
       let cmds = token_commands tokens None [];
       (ok, subs) \<leftarrow> SplitSubpaths cmds [];
       path1 \<leftarrow> ExpandCommands subs path;
       polys \<leftarrow> subpath_polylines res subs (0, 0) (polylines path1);
       Some (True, path1 \<lparr> polylines :=
         (if \<not> eq3 M (svg_transform path1) (Identity3 M)
          then map (map (transform_point M (svg_transform path1))) polys else polys) \<rparr>) }"

fun read_attributes ::
    "'m gz_mat3 \<Rightarrow> (string \<times> string) list \<Rightarrow> string list \<Rightarrow> 'm SVGPath \<Rightarrow> (string list \<times> 'm SVGPath) option" where
  "read_attributes M [] tokens path = Some (tokens, path)"
| "read_attributes M ((n, value) # as) tokens path =
     (let name = lowercase n
      in if name = ''style'' then read_attributes M as tokens (path \<lparr> svg_style := value \<rparr>)
         else if name = ''id'' then read_attributes M as tokens (path \<lparr> svg_id := value \<rparr>)
         else if name = ''transform'' then
           do { m \<leftarrow> ParseTransformMatrixStr M value;
                read_attributes M as tokens (path \<lparr> svg_transform := m \<rparr>) }
         else if name = ''d'' then read_attributes M as (split value '' '') path
         else read_attributes M as tokens path)"

definition PathAttribs ::
    "'m gz_mat3 \<Rightarrow> sampling \<Rightarrow> (string \<times> string) list option \<Rightarrow> 'm SVGPath \<Rightarrow> (bool \<times> 'm SVGPath) option" where
  "PathAttribs M res element path =
     (case element of
        None \<Rightarrow> Some (False, path)
      | Some attribs \<Rightarrow>
          do { (tokens, path1) \<leftarrow> read_attributes M attribs [] (path \<lparr> svg_transform := Identity3 M \<rparr>);
               PathCommands M res tokens path1 })"

text \<open>A node of the document: an element with its name and attributes, or another node.\<close>

datatype xml_node = Xml_node "(string \<times> (string \<times> string) list) option" "xml_node list"

definition SVGPath_new :: "'m \<Rightarrow> 'm SVGPath" where
  "SVGPath_new m = \<lparr> svg_id = [], svg_style = [], svg_transform = m, subpaths = [], polylines = [] \<rparr>"

fun SvgPaths ::
    "'m gz_mat3 \<Rightarrow> sampling \<Rightarrow> 'm \<Rightarrow> xml_node \<Rightarrow> 'm SVGPath list \<Rightarrow> (bool \<times> 'm SVGPath list) option" and
  svg_children ::
    "'m gz_mat3 \<Rightarrow> sampling \<Rightarrow> 'm \<Rightarrow> xml_node list \<Rightarrow> bool \<Rightarrow> 'm SVGPath list \<Rightarrow>
     (bool \<times> 'm SVGPath list) option" where
  "SvgPaths M res m0 (Xml_node elem kids) paths =
     (case elem of
        None \<Rightarrow> svg_children M res m0 kids True paths
      | Some (value, attribs) \<Rightarrow>
          do {
            (result, paths1) \<leftarrow>
              (if lowercase value = ''path''
               then do { (ok, p) \<leftarrow> PathAttribs M res (Some attribs) (SVGPath_new m0);
                         Some (ok, paths @ [p]) }
               else Some (True, paths));
            if lowercase value = ''defs'' then Some (result, paths1)
            else svg_children M res m0 kids result paths1 })"
| "svg_children M res m0 [] result paths = Some (result, paths)"
| "svg_children M res m0 (n # ns) result paths =
     (if \<not> result then svg_children M res m0 ns False paths
      else do { (r, paths') \<leftarrow> SvgPaths M res m0 n paths; svg_children M res m0 ns r paths' })"

definition svg_resolution :: "double_ops \<Rightarrow> nat \<Rightarrow> sampling" where
  "svg_resolution D samples =
     \<lparr> sm_step = double_div D 1 (real (max 1 samples)), sm_plus = double_add D \<rparr>"

definition SVG_Parse ::
    "double_ops \<Rightarrow> 'm gz_mat3 \<Rightarrow> 'm \<Rightarrow> (string \<Rightarrow> xml_node option) \<Rightarrow> nat \<Rightarrow> string \<Rightarrow> 'm SVGPath list \<Rightarrow>
     (bool \<times> 'm SVGPath list) option" where
  "SVG_Parse D M m0 load samples filename paths =
     (case load filename of
        None \<Rightarrow> Some (False, paths)
      | Some doc \<Rightarrow> SvgPaths M (svg_resolution D samples) m0 doc paths)"

end
