(* ===== verification/Svg_Facts.thy ===== *)
theory Svg_Facts
  imports Svg_Path
begin

section \<open>Facts about curves and expanded commands\<close>

text \<open>
  A cubic curve is sampled in finitely many steps and stays within its control points; the expanded
  commands of a path draw the polyline the path has.
\<close>

subsection \<open>Curves\<close>

text \<open>The parameters at which a curve is sampled, and the loop over them.\<close>

primrec sample_at :: "sampling \<Rightarrow> nat \<Rightarrow> real" where
  "sample_at res 0 = sm_step res"
| "sample_at res (Suc k) = sm_plus res (sample_at res k) (sm_step res)"

lemma bezier_loop_steps:
  assumes "\<forall>j < n. sample_at res j < 1" and "\<not> sample_at res n < 1"
  shows "k \<le> n \<Longrightarrow> bezier_loop p0 p1 p2 p3 res (sample_at res k) points =
       Some (points @ map (\<lambda>j. bezierInterpolate (sample_at res j) p0 p1 p2 p3) [k..<n])"
proof (induction "n - k" arbitrary: k points)
  case 0
  then show ?case using assms(2) by (simp add: bezier_loop.simps)
next
  case (Suc d)
  then have k: "k < n" "d = n - Suc k" by auto
  then show ?case
    using Suc.hyps(1) [OF k(2), of "points @ [bezierInterpolate (sample_at res k) p0 p1 p2 p3]"] assms(1)
    by (subst bezier_loop.simps) (simp add: upt_conv_Cons)
qed

lemma cubicBezier_steps:
  assumes "\<forall>j < n. sample_at res j < 1" and "\<not> sample_at res n < 1"
  shows "cubicBezier p0 p1 p2 p3 res points =
    Some (points @ map (\<lambda>j. bezierInterpolate (sample_at res j) p0 p1 p2 p3) [0..<n] @ [p3])"
  using bezier_loop_steps [OF assms, of 0] by (simp add: cubicBezier_def)

text \<open>Addition and division with the relative error of a \<open>double\<close>, where the loop uses them.\<close>

definition double_rounding :: "double_ops \<Rightarrow> bool" where
  "double_rounding D \<longleftrightarrow>
     (\<forall>a b. 0 \<le> a \<and> a \<le> 2 \<and> 0 \<le> b \<and> b \<le> 2 \<longrightarrow> \<bar>double_add D a b - (a + b)\<bar> \<le> (a + b) / 2 ^ 53) \<and>
     (\<forall>b. 1 \<le> b \<and> b \<le> 2 ^ 32 \<longrightarrow> \<bar>double_div D 1 b - 1 / b\<bar> \<le> 1 / b / 2 ^ 53)"

lemma sample_at_error:
  assumes "double_rounding D" and "n = max 1 samples" and "n \<le> 2 ^ 24" and "\<forall>j < k. sample_at (svg_resolution D samples) j < 1"
  shows "\<bar>sample_at (svg_resolution D samples) k - real (Suc k) / real n\<bar> \<le> real (Suc k) / 2 ^ 51"
    and "0 < sample_at (svg_resolution D samples) k"
proof -
  let ?res = "svg_resolution D samples"
  let ?h = "sm_step ?res"
  have n: "1 \<le> real n" "1 / real n \<le> 1" "real n \<le> 2 ^ 24"
    using assms(2,3) by (auto simp: numeral_power_le_of_nat_cancel_iff)
  then have "real n \<le> 2 ^ 32" by simp
  then have h: "\<bar>?h - 1 / real n\<bar> \<le> 1 / real n / 2 ^ 53"
    using assms(1) n(1) by (simp add: double_rounding_def svg_resolution_def assms(2))
  have hd: "\<bar>?h - 1 / real n\<bar> \<le> 1 / 2 ^ 53"
    using h divide_right_mono [OF n(2), of "2 ^ 53"] by simp
  have shrink: "x / 2 ^ 53 < x" if "0 < x" for x :: real using that by simp
  have "0 < 1 / real n" using n(1) by simp
  then have "1 / real n / 2 ^ 53 < 1 / real n" by (rule shrink)
  then have hpos: "0 < ?h" using h unfolding abs_le_iff by linarith
  have "(1 :: real) / 2 ^ 53 \<le> 1" by simp
  then have h2: "?h \<le> 2" using hd n(2) unfolding abs_le_iff by linarith
  have "\<bar>sample_at ?res k - real (Suc k) / real n\<bar> \<le> real (Suc k) / 2 ^ 51 \<and> 0 < sample_at ?res k"
    using assms(4)
  proof (induction k)
    case 0
    then show ?case using hd hpos by simp
  next
    case (Suc k)
    let ?t = "sample_at ?res k" and ?u = "sample_at ?res (Suc k)"
    have ih: "\<bar>?t - real (Suc k) / real n\<bar> \<le> real (Suc k) / 2 ^ 51" "0 < ?t" "?t < 1"
      using Suc by auto
    have u: "\<bar>?u - (?t + ?h)\<bar> \<le> (?t + ?h) / 2 ^ 53"
      using assms(1) ih(2,3) h2 hpos by (simp add: double_rounding_def svg_resolution_def)
    have "(?t + ?h) / 2 ^ 53 \<le> 3 / 2 ^ 53" using ih(3) h2 by (intro divide_right_mono) auto
    then have "\<bar>?u - (?t + ?h)\<bar> \<le> 3 / 2 ^ 53" using u by linarith
    moreover have "real (Suc (Suc k)) / real n = real (Suc k) / real n + 1 / real n" by (simp add: add_divide_distrib)
    moreover have "real (Suc (Suc k)) / 2 ^ 51 = real (Suc k) / 2 ^ 51 + 4 / 2 ^ 53" by (simp add: add_divide_distrib)
    ultimately have "\<bar>?u - real (Suc (Suc k)) / real n\<bar> \<le> real (Suc (Suc k)) / 2 ^ 51"
      using ih(1) hd unfolding abs_le_iff by linarith
    moreover have "(?t + ?h) / 2 ^ 53 < ?t + ?h" using ih(2) hpos by (intro shrink) linarith
    then have "0 < ?u" using u unfolding abs_le_iff by linarith
    ultimately show ?case by blast
  qed
  then show "\<bar>sample_at ?res k - real (Suc k) / real n\<bar> \<le> real (Suc k) / 2 ^ 51" "0 < sample_at ?res k" by auto
qed

text \<open>Sampling ends after as many samples as asked for, or one more.\<close>

lemma diff_le_bound: "a - b \<le> (c :: real) \<Longrightarrow> a \<le> b + c"
  by simp

lemma sample_at_ends:
  assumes "double_rounding D" and "n = max 1 samples" and "n \<le> 2 ^ 24"
  obtains m where "m = n - 1 \<or> m = n" "\<forall>j < m. sample_at (svg_resolution D samples) j < 1"
    "\<not> sample_at (svg_resolution D samples) m < 1"
proof -
  let ?t = "sample_at (svg_resolution D samples)"
  note err = sample_at_error [OF assms]
  have n: "0 < real n" "real n \<le> 2 ^ 24" using assms(2,3) by (auto simp: numeral_power_le_of_nat_cancel_iff)
  have small: "real (Suc k) / 2 ^ 51 < 1 / real n" if "k \<le> n" for k
  proof -
    have "real (Suc k) / 2 ^ 51 \<le> (2 ^ 24 + 1) / 2 ^ 51" using that n(2) by (intro divide_right_mono) auto
    also have "\<dots> < 1 / 2 ^ 24" by simp
    also have "\<dots> \<le> 1 / real n" using n by (intro divide_left_mono) auto
    finally show ?thesis .
  qed
  have below: "\<forall>j < k. ?t j < 1" if "k \<le> n - 1" for k
    using that
  proof (induction k)
    case (Suc k)
    have "\<forall>j < k. ?t j < 1" using Suc by simp
    then have "?t k \<le> real (Suc k) / real n + real (Suc k) / 2 ^ 51" using err(1) [of k] by (blast dest: abs_le_D1 intro: diff_le_bound)
    moreover have "real (Suc k) / real n \<le> 1 - 1 / real n"
    proof -
      have "real (Suc k) + 1 \<le> real n" using Suc.prems n(1) by linarith
      then have "(real (Suc k) + 1) / real n \<le> 1" using n(1) by simp
      then show ?thesis by (simp only: add_divide_distrib)
    qed
    moreover have "real (Suc k) / 2 ^ 51 < 1 / real n" using Suc.prems by (intro small) simp
    ultimately have "?t k < 1" by linarith
    then show ?case using Suc by (auto simp: less_Suc_eq)
  qed simp
  show ?thesis
  proof (cases "?t (n - 1) < 1")
    case False
    then show ?thesis using below [of "n - 1"] that by blast
  next
    case True
    have all: "\<forall>j < n. ?t j < 1"
    proof (intro allI impI)
      fix j assume "j < n"
      then have "j < n - 1 \<or> j = n - 1" by linarith
      then show "?t j < 1" using True below [of "n - 1"] by auto
    qed
    have "real (Suc n) / real n - real (Suc n) / 2 ^ 51 \<le> ?t n" using err(1) [OF all] unfolding abs_le_iff by linarith
    moreover have "real (Suc n) / real n = 1 + 1 / real n" using n(1) by (simp add: field_simps)
    ultimately have "\<not> ?t n < 1" using small [of n] by linarith
    then show ?thesis using all that by blast
  qed
qed

text \<open>One coordinate of the curve: a mean of the control points with weights that sum up to 1.\<close>

definition bezier_mean :: "real \<Rightarrow> real \<Rightarrow> real \<Rightarrow> real \<Rightarrow> real \<Rightarrow> real" where
  "bezier_mean t a b c d =
     (1 - t) * (1 - t) * (1 - t) * a + 3 * t * ((1 - t) * (1 - t)) * b + 3 * (t * t) * (1 - t) * c + t * t * t * d"

lemma bezierInterpolate_mean:
  "bezierInterpolate t p0 p1 p2 p3 =
     (bezier_mean t (fst p0) (fst p1) (fst p2) (fst p3), bezier_mean t (snd p0) (snd p1) (snd p2) (snd p3))"
  by (simp add: bezierInterpolate_def bezier_mean_def Let_def)

lemma bezier_mean_shift: "bezier_mean t a b c d - e = bezier_mean t (a - e) (b - e) (c - e) (d - e)"
  by (simp add: bezier_mean_def algebra_simps)

lemma bezier_mean_neg: "bezier_mean t (- a) (- b) (- c) (- d) = - bezier_mean t a b c d"
  by (simp add: bezier_mean_def algebra_simps)

lemma bezier_mean_nonneg:
  "0 \<le> t \<Longrightarrow> t \<le> 1 \<Longrightarrow> 0 \<le> a \<Longrightarrow> 0 \<le> b \<Longrightarrow> 0 \<le> c \<Longrightarrow> 0 \<le> d \<Longrightarrow> 0 \<le> bezier_mean t a b c d"
  by (simp add: bezier_mean_def)

lemma bezier_mean_lower:
  assumes "0 \<le> t" "t \<le> 1" "e \<le> a" "e \<le> b" "e \<le> c" "e \<le> d"
  shows "e \<le> bezier_mean t a b c d"
  using bezier_mean_nonneg [of t "a - e" "b - e" "c - e" "d - e"] bezier_mean_shift [of t a b c d e] assms
  by simp

lemma bezier_mean_upper:
  assumes "0 \<le> t" "t \<le> 1" "a \<le> e" "b \<le> e" "c \<le> e" "d \<le> e"
  shows "bezier_mean t a b c d \<le> e"
  using bezier_mean_lower [of t "- e" "- a" "- b" "- c" "- d"] assms by (simp add: bezier_mean_neg)

definition in_box :: "point \<Rightarrow> point \<Rightarrow> point \<Rightarrow> bool" where
  "in_box lo hi p \<longleftrightarrow> fst lo \<le> fst p \<and> fst p \<le> fst hi \<and> snd lo \<le> snd p \<and> snd p \<le> snd hi"

lemma bezier_in_box:
  "0 \<le> t \<Longrightarrow> t \<le> 1 \<Longrightarrow> \<forall>p \<in> {p0, p1, p2, p3}. in_box lo hi p \<Longrightarrow> in_box lo hi (bezierInterpolate t p0 p1 p2 p3)"
  by (simp add: in_box_def bezierInterpolate_mean bezier_mean_lower bezier_mean_upper)

subsection \<open>Expanded commands\<close>

definition then_points ::
    "(real list \<Rightarrow> point \<Rightarrow> point list \<Rightarrow> (point \<times> point list) option) \<Rightarrow> real list list \<Rightarrow> point \<Rightarrow> point list \<Rightarrow>
     (point \<times> point list) option" where
  "then_points f gs cur poly =
     fold (\<lambda>g s. Option.bind s (\<lambda>(c, p). f g c p)) gs (Some (cur, poly))"

lemma then_points_None: "fold (\<lambda>g s. Option.bind s (\<lambda>(c, p). f g c p)) gs None = None"
  by (induction gs) auto

lemma then_points_Nil [simp]: "then_points f [] cur poly = Some (cur, poly)"
  by (simp add: then_points_def)

lemma then_points_Cons:
  "then_points f (g # gs) cur poly = Option.bind (f g cur poly) (\<lambda>(c, p). then_points f gs c p)"
  by (cases "f g cur poly") (auto simp: then_points_def then_points_None)

text \<open>A drawing function that works group by group can be given the groups one by one.\<close>

locale grouped =
  fixes f :: "real list \<Rightarrow> point \<Rightarrow> point list \<Rightarrow> (point \<times> point list) option" and n :: nat
  assumes empty: "f [] cur poly = Some (cur, poly)"
    and step: "length g = n \<Longrightarrow> f (g @ r) cur poly = Option.bind (f g cur poly) (\<lambda>(c, p). f r c p)"
begin

lemma groups_points: "number_groups n xs = Some gs \<Longrightarrow> then_points f gs cur poly = f xs cur poly"
proof (induction xs arbitrary: gs cur poly rule: measure_induct_rule [of length])
  case (less xs)
  show ?case
  proof (cases "xs = []")
    case True
    then show ?thesis using less.prems by (simp add: number_groups.simps empty)
  next
    case False
    then obtain gs' where gs: "n \<noteq> 0" "n \<le> length xs" "number_groups n (drop n xs) = Some gs'"
        "gs = take n xs # gs'"
      using less.prems by (auto simp: number_groups.simps [of n xs] bind_eq_Some_conv split: if_splits)
    have "then_points f gs' c p = f (drop n xs) c p" for c p
      using less.IH [OF _ gs(3)] gs(1) False by simp
    then show ?thesis
      using step [of "take n xs" "drop n xs" cur poly] gs(2) by (simp add: gs(4) then_points_Cons)
  qed
qed

end

interpretation drawn_lines: grouped "line_points rel" 2 for rel
  by unfold_locales (auto simp: length_Suc_conv numeral_2_eq_2 Let_def)

interpretation drawn_curves: grouped "curve_points rel res" 6 for rel res
proof unfold_locales
  fix g r cur poly assume "length (g :: real list) = 6"
  then obtain a b c d e h where "g = [a, b, c, d, e, h]"
    by (auto simp: length_Suc_conv eval_nat_numeral)
  then show "curve_points rel res (g @ r) cur poly =
      Option.bind (curve_points rel res g cur poly) (\<lambda>(c, p). curve_points rel res r c p)"
    by (simp add: Let_def Option.bind_assoc)
qed simp

interpretation drawn_arcs: grouped "arc_points rel res" 7 for rel res
proof unfold_locales
  fix g r cur poly assume "length (g :: real list) = 7"
  then obtain a b c d e h i where "g = [a, b, c, d, e, h, i]"
    by (auto simp: length_Suc_conv eval_nat_numeral)
  then show "arc_points rel res (g @ r) cur poly =
      Option.bind (arc_points rel res g cur poly) (\<lambda>(c, p). arc_points rel res r c p)"
    by (simp add: Let_def Option.bind_assoc)
qed simp

lemma commands_group:
  assumes "\<And>xs cur poly. command_points res \<lparr> svg_cmd = k, numbers = xs \<rparr> cur poly = f xs cur poly"
  shows "commands_points res (map (\<lambda>g. \<lparr> svg_cmd = k, numbers = g \<rparr>) gs) cur poly = then_points f gs cur poly"
  by (induction gs arbitrary: cur poly) (auto simp: assms then_points_Cons intro!: bind_option_cong)

lemma commands_points_append:
  "commands_points res (a @ b) cur poly =
     Option.bind (commands_points res a cur poly) (\<lambda>(c, p). commands_points res b c p)"
proof (induction a arbitrary: cur poly)
  case (Cons c a)
  then show ?case by (cases "command_points res c cur poly") auto
qed simp

lemma tolower_letters:
  "tolower (CHR ''m'') = CHR ''m''"
  "tolower (CHR ''l'') = CHR ''l''"
  "tolower (CHR ''M'') = CHR ''m''"
  "tolower (CHR ''L'') = CHR ''l''"
  "tolower (CHR ''c'') = CHR ''c''"
  "tolower (CHR ''C'') = CHR ''c''"
  "tolower (CHR ''a'') = CHR ''a''"
  "tolower (CHR ''A'') = CHR ''a''"
  "tolower (CHR ''z'') = CHR ''z''"
  "tolower (CHR ''Z'') = CHR ''z''"
  by code_simp+

lemma tolower_z: "tolower k = CHR ''z'' \<Longrightarrow> k = CHR ''Z'' \<or> k = CHR ''z''"
proof -
  assume t: "tolower k = CHR ''z''"
  show ?thesis
  proof (cases "isupper k")
    case True
    then have "code (char_of (code k + 32)) = code (CHR ''z'')" using t by (simp add: tolower_def)
    then have "code k = 90" using True by (simp add: code_def isupper_def)
    then have "k = char_of (90 :: nat)" by (metis char_of_char code_def)
    moreover have "char_of (90 :: nat) = CHR ''Z''" by code_simp
    ultimately show ?thesis by simp
  qed (use t in \<open>simp add: tolower_def\<close>)
qed

lemma numberCount_known:
  "k \<in> {CHR ''m'', CHR ''l'', CHR ''M'', CHR ''L''} \<Longrightarrow> numberCount k = 2"
  "k \<in> {CHR ''c'', CHR ''C''} \<Longrightarrow> numberCount k = 6"
  "k \<in> {CHR ''a'', CHR ''A''} \<Longrightarrow> numberCount k = 7"
  "k \<in> {CHR ''z'', CHR ''Z''} \<Longrightarrow> numberCount k = 0"
  by (auto simp: numberCount_def tolower_letters Let_def)

lemma tolower_not_z:
  "k \<in> {CHR ''m'', CHR ''l'', CHR ''M'', CHR ''L'', CHR ''c'', CHR ''C'', CHR ''a'', CHR ''A''} \<Longrightarrow> tolower k \<noteq> CHR ''z''"
  "k \<in> {CHR ''z'', CHR ''Z''} \<Longrightarrow> tolower k = CHR ''z''"
  by (auto simp: tolower_letters)

lemma number_groups_0: "number_groups 0 xs = Some gs \<Longrightarrow> xs = [] \<and> gs = []"
  by (simp add: number_groups.simps split: if_splits)

text \<open>A drawing function and the size of its groups, for each command.\<close>

lemma expand_drawn:
  assumes e: "expand_command \<lparr> svg_cmd = k, numbers = xs \<rparr> = Some e"
    and f: "\<And>xs cur poly. command_points res \<lparr> svg_cmd = k, numbers = xs \<rparr> cur poly = f xs cur poly"
    and g: "grouped f (numberCount k)" and z: "tolower k \<noteq> CHR ''z''"
  shows "commands_points res e cur poly = command_points res \<lparr> svg_cmd = k, numbers = xs \<rparr> cur poly"
proof -
  obtain gs where gs: "number_groups (numberCount k) xs = Some gs"
      "e = map (\<lambda>g. \<lparr> svg_cmd = k, numbers = g \<rparr>) gs"
    using e z by (auto simp: expand_command_def bind_eq_Some_conv)
  show ?thesis
    unfolding gs(2) commands_group [OF f] f by (rule grouped.groups_points [OF g gs(1)])
qed

lemma expand_command_points:
  assumes "expand_command c = Some e"
  shows "commands_points res e cur poly = command_points res c cur poly"
proof -
  obtain k xs where c: "c = \<lparr> svg_cmd = k, numbers = xs \<rparr>" by (cases c)
  note e = assms [unfolded c]
  consider "k = CHR ''m'' \<or> k = CHR ''l''" | "k = CHR ''M'' \<or> k = CHR ''L''" | "k = CHR ''C''" | "k = CHR ''c''"
    | "k = CHR ''A''" | "k = CHR ''a''" | "k = CHR ''Z'' \<or> k = CHR ''z''"
    | "k \<notin> {CHR ''m'', CHR ''l'', CHR ''M'', CHR ''L'', CHR ''C'', CHR ''c'', CHR ''A'', CHR ''a'', CHR ''Z'', CHR ''z''}"
    by auto
  then show ?thesis
  proof cases
    case 1
    then show ?thesis unfolding c
      by (intro expand_drawn [OF e, where f = "line_points True"])
        (auto simp: command_points_def numberCount_known tolower_not_z drawn_lines.grouped_axioms)
  next
    case 2
    then show ?thesis unfolding c
      by (intro expand_drawn [OF e, where f = "line_points False"])
        (auto simp: command_points_def numberCount_known tolower_not_z drawn_lines.grouped_axioms)
  next
    case 3
    then show ?thesis unfolding c
      by (intro expand_drawn [OF e, where f = "curve_points False res"])
        (auto simp: command_points_def numberCount_known tolower_not_z drawn_curves.grouped_axioms)
  next
    case 4
    then show ?thesis unfolding c
      by (intro expand_drawn [OF e, where f = "curve_points True res"])
        (auto simp: command_points_def numberCount_known tolower_not_z drawn_curves.grouped_axioms)
  next
    case 5
    then show ?thesis unfolding c
      by (intro expand_drawn [OF e, where f = "arc_points False res"])
        (auto simp: command_points_def numberCount_known tolower_not_z drawn_arcs.grouped_axioms)
  next
    case 6
    then show ?thesis unfolding c
      by (intro expand_drawn [OF e, where f = "arc_points True res"])
        (auto simp: command_points_def numberCount_known tolower_not_z drawn_arcs.grouped_axioms)
  next
    case 7
    then have "number_groups 0 xs \<noteq> None \<Longrightarrow> e = [c]"
      using e number_groups_0 tolower_not_z(2) [of k] numberCount_known(4) [of k]
      by (auto simp: expand_command_def bind_eq_Some_conv c)
    moreover have "number_groups 0 xs \<noteq> None"
      using e 7 numberCount_known(4) [of k] by (auto simp: expand_command_def bind_eq_Some_conv)
    ultimately show ?thesis
      by (cases "command_points res c cur poly") auto
  next
    case 8
    then have "tolower k \<noteq> CHR ''z''" by (auto dest!: tolower_z)
    moreover have "command_points res \<lparr> svg_cmd = k, numbers = xs \<rparr> cur poly = Some (cur, poly)" for xs cur poly
      using 8 by (simp add: command_points_def Let_def)
    moreover have "grouped (\<lambda>xs cur poly. Some (cur, poly)) (numberCount k)"
      by unfold_locales simp_all
    ultimately show ?thesis unfolding c by (intro expand_drawn [OF e])
  qed
qed

lemma expand_subpath_points:
  "expand_subpath s = Some e \<Longrightarrow> commands_points res e cur poly = commands_points res s cur poly"
proof (induction s arbitrary: e cur poly)
  case (Cons c s)
  then obtain e1 e2 where "expand_command c = Some e1" "expand_subpath s = Some e2" "e = e1 @ e2"
    by (auto simp: bind_eq_Some_conv)
  then show ?case
    using Cons.IH [of e2] expand_command_points by (simp add: commands_points_append)
qed simp

end
