(* ===== verification/Svg_Polylines.thy ===== *)
theory Svg_Polylines
  imports Svg_Facts
begin

section \<open>SVGLoader: joining line segments to polylines, and the dump of the paths\<close>

text \<open>
  \<open>PathsToClosedPolylines\<close> and \<open>DumpPaths\<close> of \<^verbatim>\<open>graphics/src/SVGLoader.cc\<close>. The segments not used yet are a
  list; the loops take one away in every round. Reading the first point of an empty polyline is
  undefined (\<^const>\<open>None\<close>). The text written around the dump, which is constant, and the format of numbers
  are parameters.
\<close>

subsection \<open>The code\<close>

definition Vector2dCompare :: "point \<Rightarrow> point \<Rightarrow> real \<Rightarrow> bool" where
  "Vector2dCompare a b tol =
     (let x = fst a - fst b; y = snd a - snd b in x * x + y * y < tol * tol)"

type_synonym segment = "point \<times> point"

fun poly_segments :: "real \<Rightarrow> point \<Rightarrow> point list \<Rightarrow> segment list \<Rightarrow> segment list" where
  "poly_segments tol start [] segs = segs"
| "poly_segments tol start (e # es) segs =
     (if point_distance e start < tol then poly_segments tol start es segs
      else poly_segments tol e es (segs @ [(start, e)]))"

fun all_segments :: "real \<Rightarrow> point list list \<Rightarrow> segment list \<Rightarrow> segment list option" where
  "all_segments tol [] segs = Some segs"
| "all_segments tol (poly # polys) segs =
     (case poly of [] \<Rightarrow> None | p # ps \<Rightarrow> all_segments tol polys (poly_segments tol p ps segs))"

text \<open>The point behind a segment that starts or ends near \<open>p\<close>; the second test wins.\<close>

definition match_segment :: "real \<Rightarrow> point \<Rightarrow> segment \<Rightarrow> point option" where
  "match_segment tol p seg =
     (if Vector2dCompare p (snd seg) tol then Some (fst seg)
      else if Vector2dCompare p (fst seg) tol then Some (snd seg)
      else None)"

fun take_segment :: "real \<Rightarrow> point \<Rightarrow> segment list \<Rightarrow> (point \<times> segment list) option" where
  "take_segment tol p [] = None"
| "take_segment tol p (s # segs) =
     (case match_segment tol p s of
        Some q \<Rightarrow> Some (q, segs)
      | None \<Rightarrow> map_option (\<lambda>(q, r). (q, s # r)) (take_segment tol p segs))"

lemma take_segment_shorter: "take_segment tol p segs = Some (q, r) \<Longrightarrow> length segs = Suc (length r)"
  by (induction segs arbitrary: r) (auto split: option.splits)

function grow_polyline ::
    "real \<Rightarrow> point list \<Rightarrow> segment list \<Rightarrow> point list \<times> segment list \<times> bool" where
  "grow_polyline tol poly segs =
     (case take_segment tol (last poly) segs of
        None \<Rightarrow> (poly, segs, False)
      | Some (q, segs') \<Rightarrow>
          if Vector2dCompare q (hd poly) tol then (poly @ [q], segs', True)
          else grow_polyline tol (poly @ [q]) segs')"
  by pat_completeness auto
termination
  by (relation "measure (\<lambda>(tol, poly, segs). length segs)") (auto dest: take_segment_shorter)

declare grow_polyline.simps [simp del]

lemma grow_polyline_shorter:
  "grow_polyline tol poly segs = (poly', r, c) \<Longrightarrow> length r \<le> length segs"
proof (induction tol poly segs rule: grow_polyline.induct)
  case (1 tol poly segs)
  show ?case
  proof (cases "take_segment tol (last poly) segs")
    case None
    then show ?thesis using "1.prems" by (simp add: grow_polyline.simps [of tol poly segs])
  next
    case (Some x)
    obtain q s where x: "x = (q, s)" by fastforce
    then show ?thesis
      using "1.prems" "1.IH" [OF Some x [symmetric]] Some take_segment_shorter [of tol "last poly" segs q s]
      by (auto simp: grow_polyline.simps [of tol poly segs] split: if_splits)
  qed
qed

function join_segments ::
    "real \<Rightarrow> segment list \<Rightarrow> point list list \<Rightarrow> point list list \<Rightarrow> point list list \<times> point list list" where
  "join_segments tol [] cl op = (cl, op)"
| "join_segments tol (s # segs) cl op =
     (case grow_polyline tol [fst s, snd s] segs of
        (poly, r, loopClosed) \<Rightarrow>
          if loopClosed then join_segments tol r (cl @ [poly]) op
          else join_segments tol r cl (op @ [poly]))"
  by pat_completeness auto
termination
  by (relation "measure (\<lambda>(tol, segs, cl, op). length segs)")
    (auto dest: grow_polyline_shorter [OF sym] intro: le_imp_less_Suc)

definition PathsToClosedPolylines ::
    "'m SVGPath list \<Rightarrow> real \<Rightarrow> point list list \<Rightarrow> point list list \<Rightarrow>
     (point list list \<times> point list list) option" where
  "PathsToClosedPolylines paths tol cl op =
     map_option (\<lambda>segs. join_segments tol segs cl op)
       (all_segments tol (concat (map polylines paths)) [])"

fun dump_points :: "(real \<Rightarrow> string) \<Rightarrow> point list \<Rightarrow> char \<Rightarrow> string" where
  "dump_points fmt [] sep = []"
| "dump_points fmt (p # ps) sep =
     '' '' @ [sep] @ '' ['' @ fmt (fst p) @ '', '' @ fmt (snd p) @ '']'' @ [CHR 0x0A] @ dump_points fmt ps CHR '',''"

fun dump_polys :: "(real \<Rightarrow> string) \<Rightarrow> point list list \<Rightarrow> char \<Rightarrow> string" where
  "dump_polys fmt [] psep = []"
| "dump_polys fmt (poly # polys) psep =
     [psep] @ ''['' @ [CHR 0x0A] @ dump_points fmt poly CHR '' '' @ '' ] '' @ [CHR 0x0A] @
     dump_polys fmt polys CHR '',''"

definition dump_path :: "(real \<Rightarrow> string) \<Rightarrow> 'm SVGPath \<Rightarrow> string" where
  "dump_path fmt path =
     ''svg.push({name:'' @ [CHR 0x22] @ svg_id path @ [CHR 0x22] @ '', subpaths:[], style: '' @ [CHR 0x22] @
     svg_style path @ [CHR 0x22] @ ''}); '' @ [CHR 0x0A] @
     ''svg[svg.length-1].subpaths = ['' @ dump_polys fmt (polylines path) CHR '' '' @
     ''];'' @ [CHR 0x0A] @ [CHR 0x0A, CHR 0x0A, CHR 0x0A]"

definition DumpPaths :: "(real \<Rightarrow> string) \<Rightarrow> string \<Rightarrow> string \<Rightarrow> 'm SVGPath list \<Rightarrow> string" where
  "DumpPaths fmt header footer paths =
     header @ [CHR 0x0A] @ ''var svg = [];'' @ [CHR 0x0A] @ concat (map (dump_path fmt) paths) @
     footer @ [CHR 0x0A]"

subsection \<open>Chains of segments\<close>

text \<open>What the joining promises, in terms of points. Two points are near when their distance is below the
  tolerance.\<close>

definition near_points :: "real \<Rightarrow> point \<Rightarrow> point \<Rightarrow> bool" where
  "near_points tol a b \<longleftrightarrow> (fst a - fst b)\<^sup>2 + (snd a - snd b)\<^sup>2 < tol\<^sup>2"

text \<open>The points of a polyline that are not too close to the last one kept, and the segments between them.\<close>

fun kept_points :: "real \<Rightarrow> point \<Rightarrow> point list \<Rightarrow> point list" where
  "kept_points tol p [] = []"
| "kept_points tol p (e # es) =
     (if point_distance e p < tol then kept_points tol p es else e # kept_points tol e es)"

definition drawn_segments :: "real \<Rightarrow> point list \<Rightarrow> segment list" where
  "drawn_segments tol poly =
     (case poly of [] \<Rightarrow> [] | p # es \<Rightarrow> zip (p # kept_points tol p es) (kept_points tol p es))"

text \<open>A polyline drawn by a chain of segments: the first one from its start to its end, and every other one
  from the end that is near the point reached so far to its other end.\<close>

definition drawn_by :: "real \<Rightarrow> point list \<Rightarrow> segment list \<Rightarrow> bool" where
  "drawn_by tol poly ss \<longleftrightarrow> ss \<noteq> [] \<and> length poly = Suc (length ss) \<and> ss ! 0 = (poly ! 0, poly ! 1) \<and>
     (\<forall>i. 0 < i \<and> i < length ss \<longrightarrow>
        (if near_points tol (poly ! i) (snd (ss ! i)) then poly ! Suc i = fst (ss ! i)
         else near_points tol (poly ! i) (fst (ss ! i)) \<and> poly ! Suc i = snd (ss ! i)))"

text \<open>Before its last point a polyline does not come back to its start. A closed one does so there; an open one
  does not, and none of the segments left over then starts or ends near its end.\<close>

definition unclosed :: "real \<Rightarrow> point list \<Rightarrow> bool" where
  "unclosed tol poly \<longleftrightarrow> (\<forall>i. 2 \<le> i \<and> i < length poly \<longrightarrow> \<not> near_points tol (poly ! i) (poly ! 0))"

definition ended :: "real \<Rightarrow> point list \<Rightarrow> bool \<Rightarrow> segment list \<Rightarrow> bool" where
  "ended tol poly loop later \<longleftrightarrow>
     (if loop then 2 < length poly \<and> near_points tol (last poly) (poly ! 0) \<and> unclosed tol (butlast poly)
      else unclosed tol poly \<and>
        (\<forall>s \<in> set later. \<not> near_points tol (last poly) (fst s) \<and> \<not> near_points tol (last poly) (snd s)))"

text \<open>The polylines in the order they are made, each with its segments and whether it is closed.\<close>

definition segments_of :: "(point list \<times> segment list \<times> bool) list \<Rightarrow> segment list" where
  "segments_of rs = concat (map (\<lambda>(poly, ss, loop). ss) rs)"

fun sorted_out :: "real \<Rightarrow> (point list \<times> segment list \<times> bool) list \<Rightarrow> bool" where
  "sorted_out tol [] = True"
| "sorted_out tol ((poly, ss, loop) # rs) =
     (drawn_by tol poly ss \<and> ended tol poly loop (segments_of rs) \<and> sorted_out tol rs)"

lemma Vector2dCompare_near: "Vector2dCompare a b tol = near_points tol a b"
  by (simp add: Vector2dCompare_def near_points_def Let_def power2_eq_square)

lemma poly_segments_drawn:
  "poly_segments tol p es segs = segs @ zip (p # kept_points tol p es) (kept_points tol p es)"
  by (induction tol p es segs rule: poly_segments.induct) auto

lemma all_segments_drawn:
  "[] \<notin> set polys \<Longrightarrow> all_segments tol polys segs = Some (segs @ concat (map (drawn_segments tol) polys))"
  by (induction polys arbitrary: segs) (auto simp: poly_segments_drawn drawn_segments_def split: list.splits)

lemma drawn_by_start: "drawn_by tol [fst s, snd s] [s]"
  by (simp add: drawn_by_def)

lemma drawn_by_snoc:
  assumes "drawn_by tol poly ss" and "match_segment tol (last poly) s = Some q"
  shows "drawn_by tol (poly @ [q]) (ss @ [s])"
proof -
  have "poly \<noteq> []" and len: "length poly = Suc (length ss)" using assms(1) by (auto simp: drawn_by_def)
  then have last: "last poly = poly ! length ss" by (simp add: last_conv_nth)
  have ne: "ss \<noteq> []" and old: "0 < i \<Longrightarrow> i < length ss \<Longrightarrow>
      if near_points tol (poly ! i) (snd (ss ! i)) then poly ! Suc i = fst (ss ! i)
      else near_points tol (poly ! i) (fst (ss ! i)) \<and> poly ! Suc i = snd (ss ! i)" for i
    using assms(1) unfolding drawn_by_def by blast+
  have new: "if near_points tol (poly ! length ss) (snd s) then q = fst s
      else near_points tol (poly ! length ss) (fst s) \<and> q = snd s"
    using assms(2) last by (auto simp: match_segment_def Vector2dCompare_near split: if_splits)
  let ?p = "poly @ [q]" and ?s = "ss @ [s]"
  have "if near_points tol (?p ! i) (snd (?s ! i)) then ?p ! Suc i = fst (?s ! i)
      else near_points tol (?p ! i) (fst (?s ! i)) \<and> ?p ! Suc i = snd (?s ! i)" if "0 < i" "i < length ?s" for i
  proof (cases "i < length ss")
    case True
    then show ?thesis using old [of i] that len by (simp add: nth_append)
  next
    case False
    then have "i = length ss" using that by simp
    then show ?thesis using new len by (simp add: nth_append)
  qed
  moreover have "?s ! 0 = (?p ! 0, ?p ! 1)"
    using assms(1) ne len by (simp add: drawn_by_def nth_append)
  ultimately show ?thesis using len by (simp add: drawn_by_def)
qed

lemma take_segment_mset:
  "take_segment tol p segs = Some (q, r) \<Longrightarrow>
     \<exists>s. match_segment tol p s = Some q \<and> mset segs = add_mset s (mset r)"
proof (induction segs arbitrary: r)
  case (Cons s segs)
  show ?case
  proof (cases "match_segment tol p s")
    case None
    then obtain r' where "take_segment tol p segs = Some (q, r')" "r = s # r'"
      using Cons.prems by auto
    then show ?thesis using Cons.IH by fastforce
  next
    case (Some a)
    then show ?thesis using Cons.prems by (intro exI [of _ s]) simp
  qed
qed simp

lemma take_segment_None:
  "take_segment tol p segs = None \<longleftrightarrow> (\<forall>s \<in> set segs. \<not> near_points tol p (fst s) \<and> \<not> near_points tol p (snd s))"
  by (induction segs) (auto simp: match_segment_def Vector2dCompare_near split: option.splits)

lemma unclosed_snoc:
  "unclosed tol poly \<Longrightarrow> \<not> near_points tol q (poly ! 0) \<Longrightarrow> poly \<noteq> [] \<Longrightarrow> unclosed tol (poly @ [q])"
  by (auto simp: unclosed_def nth_append less_Suc_eq)

lemma grow_polyline_chain:
  "grow_polyline tol poly segs = (poly', r, c) \<Longrightarrow> drawn_by tol poly ss \<Longrightarrow> unclosed tol poly \<Longrightarrow>
     \<exists>ss'. drawn_by tol poly' (ss @ ss') \<and> mset segs = mset ss' + mset r \<and> ended tol poly' c r"
proof (induction tol poly segs arbitrary: ss rule: grow_polyline.induct)
  case (1 tol poly segs)
  show ?case
  proof (cases "take_segment tol (last poly) segs")
    case None
    then show ?thesis
      using "1.prems" take_segment_None [of tol "last poly" segs]
      by (auto simp: grow_polyline.simps [of tol poly segs] ended_def intro!: exI [of _ "[]"])
  next
    case (Some x)
    obtain q s where x: "x = (q, s)" by fastforce
    obtain g where g: "match_segment tol (last poly) g = Some q" "mset segs = add_mset g (mset s)"
      using take_segment_mset Some x by blast
    note ch = drawn_by_snoc [OF "1.prems"(2) g(1)]
    have poly: "poly \<noteq> []" "1 < length poly" using "1.prems"(2) by (auto simp: drawn_by_def)
    then have hd: "Vector2dCompare q (hd poly) tol \<longleftrightarrow> near_points tol q (poly ! 0)"
      by (simp add: Vector2dCompare_near hd_conv_nth)
    show ?thesis
    proof (cases "Vector2dCompare q (hd poly) tol")
      case True
      then have "ended tol (poly @ [q]) True s"
        using poly "1.prems"(3) hd by (simp add: ended_def nth_append)
      then show ?thesis
        using "1.prems"(1) True Some x ch g(2)
        by (auto simp: grow_polyline.simps [of tol poly segs] intro!: exI [of _ "[g]"])
    next
      case False
      then have rest: "grow_polyline tol (poly @ [q]) s = (poly', r, c)"
        using "1.prems"(1) Some x by (simp add: grow_polyline.simps [of tol poly segs])
      have "unclosed tol (poly @ [q])" using unclosed_snoc "1.prems"(3) False hd poly(1) by blast
      from "1.IH" [OF Some x [symmetric] False rest ch this]
      obtain ss' where "drawn_by tol poly' ((ss @ [g]) @ ss')" "mset s = mset ss' + mset r" "ended tol poly' c r" by blast
      then show ?thesis using g(2) by (intro exI [of _ "g # ss'"]) simp
    qed
  qed
qed

text \<open>An end of a polyline depends on the segments left over, not on their order.\<close>

lemma ended_mset: "ended tol poly c r \<Longrightarrow> mset r = mset r' \<Longrightarrow> ended tol poly c r'"
  by (auto simp: ended_def dest!: mset_eq_setD split: if_splits)

lemma segments_of_Cons: "segments_of ((poly, ss, loop) # rs) = ss @ segments_of rs"
  by (simp add: segments_of_def)

lemma join_segments_chains:
  "join_segments tol segs cl op = (cl', op') \<Longrightarrow>
     \<exists>rs. cl' = cl @ [poly. (poly, ss, loop) \<leftarrow> rs, loop] \<and> op' = op @ [poly. (poly, ss, loop) \<leftarrow> rs, \<not> loop] \<and>
       mset (segments_of rs) = mset segs \<and> sorted_out tol rs"
proof (induction tol segs cl op rule: join_segments.induct)
  case (1 tol cl op)
  then show ?case by (intro exI [of _ "[]"]) (simp add: segments_of_def)
next
  case (2 tol s segs cl op)
  obtain poly r k where g: "grow_polyline tol [fst s, snd s] segs = (poly, r, k)"
    by (cases "grow_polyline tol [fst s, snd s] segs")
  have "unclosed tol [fst s, snd s]" by (auto simp: unclosed_def)
  from grow_polyline_chain [OF g drawn_by_start this]
  obtain ss' where ss': "drawn_by tol poly (s # ss')" "mset segs = mset ss' + mset r" "ended tol poly k r" by auto
  have "\<exists>rs. cl' = (if k then cl @ [poly] else cl) @ [poly. (poly, ss, loop) \<leftarrow> rs, loop] \<and>
      op' = (if k then op else op @ [poly]) @ [poly. (poly, ss, loop) \<leftarrow> rs, \<not> loop] \<and>
      mset (segments_of rs) = mset r \<and> sorted_out tol rs"
    using "2.IH" [OF g [symmetric] refl] "2.prems" g by (cases k) auto
  then obtain rs where rs: "cl' = (if k then cl @ [poly] else cl) @ [poly. (poly, ss, loop) \<leftarrow> rs, loop]"
      "op' = (if k then op else op @ [poly]) @ [poly. (poly, ss, loop) \<leftarrow> rs, \<not> loop]"
      "mset (segments_of rs) = mset r" "sorted_out tol rs" by blast
  have "ended tol poly k (segments_of rs)" using ended_mset [OF ss'(3)] rs(3) by simp
  then show ?case
    using ss'(1,2) rs by (intro exI [of _ "(poly, s # ss', k) # rs"]) (auto simp: segments_of_Cons)
qed

subsection \<open>Properties\<close>

text \<open>
  C31. A cubic curve sampled with the loader's resolution returns, with the rounded steps of a \<open>double\<close> and up to
  \<open>2 ^ 24\<close> samples: it adds as many points as samples were asked for, or one more (a tenth added
  up ten times stays below 1), the points of the curve at parameters between 0 and 1 that are the multiples of
  the step up to rounding, and the end point last. Every point lies in any box around the four
  control points.
\<close>

theorem cubicBezier_samples:
  assumes "double_rounding D" and "n = max 1 samples" and "n \<le> 2 ^ 24"
  shows "\<exists>ts. cubicBezier p0 p1 p2 p3 (svg_resolution D samples) points =
       Some (points @ map (\<lambda>t. bezierInterpolate t p0 p1 p2 p3) ts @ [p3]) \<and>
     (length ts + 1 = n \<or> length ts + 1 = n + 1) \<and>
     (\<forall>i < length ts. 0 < ts ! i \<and> ts ! i < 1 \<and> \<bar>ts ! i - real (i + 1) / real n\<bar> \<le> real (i + 1) / 2 ^ 51) \<and>
     (\<forall>lo hi. in_box lo hi p0 \<and> in_box lo hi p1 \<and> in_box lo hi p2 \<and> in_box lo hi p3 \<longrightarrow>
        (\<forall>t \<in> set ts. in_box lo hi (bezierInterpolate t p0 p1 p2 p3)))"
proof -
  let ?t = "sample_at (svg_resolution D samples)"
  obtain m where m: "m = n - 1 \<or> m = n" "\<forall>j < m. ?t j < 1" "\<not> ?t m < 1"
    using sample_at_ends [OF assms] by blast
  let ?ts = "map ?t [0..<m]"
  have "1 \<le> n" by (simp add: assms(2))
  then have len: "length ?ts + 1 = n \<or> length ?ts + 1 = n + 1" using m(1) by auto
  have near: "0 < ?t i \<and> ?t i < 1 \<and> \<bar>?t i - real (i + 1) / real n\<bar> \<le> real (i + 1) / 2 ^ 51" if "i < m" for i
  proof -
    have "\<forall>j < i. ?t j < 1" using m(2) that by simp
    from sample_at_error [OF assms this] show ?thesis using m(2) that by simp
  qed
  have "in_box lo hi (bezierInterpolate t p0 p1 p2 p3)"
    if "in_box lo hi p0 \<and> in_box lo hi p1 \<and> in_box lo hi p2 \<and> in_box lo hi p3" and "t \<in> set ?ts" for lo hi t
  proof -
    obtain i where i: "i < m" "t = ?t i" using \<open>t \<in> set ?ts\<close> by auto
    then have "0 \<le> t" "t \<le> 1" using near [of i] i by (simp_all add: less_imp_le)
    then show ?thesis using that by (intro bezier_in_box) auto
  qed
  moreover have "cubicBezier p0 p1 p2 p3 (svg_resolution D samples) points =
      Some (points @ map (\<lambda>t. bezierInterpolate t p0 p1 p2 p3) ?ts @ [p3])"
    using cubicBezier_steps [OF m(2,3)] by (simp add: comp_def)
  ultimately show ?thesis
    using len near by (intro exI [of _ ?ts] conjI) auto
qed

text \<open>Operations that always round down, by as much as is allowed.\<close>

definition rounding_down :: double_ops where
  "rounding_down =
     \<lparr> double_add = \<lambda>a b. (a + b) - (a + b) / 2 ^ 53, double_div = \<lambda>a b. a / b - a / b / 2 ^ 53 \<rparr>"

lemma cubicBezier_samples_witness:
  "\<exists>ts. cubicBezier (0, 0) (1, 0) (2, 0) (3, 0) (svg_resolution rounding_down 10) [] =
       Some (map (\<lambda>t. bezierInterpolate t (0, 0) (1, 0) (2, 0) (3, 0)) ts @ [(3, 0)]) \<and>
     (length ts + 1 = 10 \<or> length ts + 1 = 11)"
proof -
  have "double_rounding rounding_down" by (auto simp: double_rounding_def rounding_down_def)
  moreover have "(10 :: nat) = max 1 10" "(10 :: nat) \<le> 2 ^ 24" by simp_all
  ultimately show ?thesis
    using cubicBezier_samples [of rounding_down 10 10 "(0, 0)" "(1, 0)" "(2, 0)" "(3, 0)" "[]"] by auto
qed

text \<open>
  The expanded commands of a subpath draw the same polyline and end at the same point as the
  commands they come from.
\<close>

theorem Expand_same_polyline:
  assumes "expand_subpath s = Some e"
  shows "SubpathToPolyline res e p [] = SubpathToPolyline res s p []"
  using expand_subpath_points [OF assms] by (simp add: SubpathToPolyline_def)

text \<open>
  C19. Joining the polylines of paths, none of them empty, sorts their segments (those between points that are
  not too close) into closed and open polylines and uses each exactly once. Every polyline is drawn by a
  chain: its first segment from start to end, then segments from the end that is near the point reached to
  the other. A closed one comes back near its first point with its last, and with none before; an open one
  never does, and at its end no segment that was left over then starts or ends near. Closed and open ones
  are each in the order they were made.
\<close>

theorem PathsToClosedPolylines_chains:
  assumes "\<forall>path \<in> set paths. [] \<notin> set (polylines path)"
  shows "\<exists>rs. PathsToClosedPolylines paths tol cl op =
       Some (cl @ [poly. (poly, ss, loop) \<leftarrow> rs, loop], op @ [poly. (poly, ss, loop) \<leftarrow> rs, \<not> loop]) \<and>
     mset (segments_of rs) = mset (concat (map (drawn_segments tol) (concat (map polylines paths)))) \<and>
     sorted_out tol rs"
proof -
  define segs where "segs = concat (map (drawn_segments tol) (concat (map polylines paths)))"
  have "all_segments tol (concat (map polylines paths)) [] = Some segs"
    using assms all_segments_drawn [of "concat (map polylines paths)" tol "[]"] by (auto simp: segs_def)
  moreover obtain cl' op' where j: "join_segments tol segs cl op = (cl', op')" by fastforce
  ultimately show ?thesis
    using join_segments_chains [OF j] by (auto simp: PathsToClosedPolylines_def segs_def)
qed

lemma PathsToClosedPolylines_chains_witness:
  "PathsToClosedPolylines [SVGPath_new () \<lparr> polylines := [[(0, 0), (1, 0)], [(1, 0), (0, 0)], [(5, 5), (6, 5)]] \<rparr>]
       (1 / 10) [] [] = Some ([[(0, 0), (1, 0), (0, 0)]], [[(5, 5), (6, 5)]]) \<and>
   (\<exists>rs. [poly. (poly, ss, loop) \<leftarrow> rs, loop] = [[(0, 0), (1, 0), (0, 0)]] \<and>
     [poly. (poly, ss, loop) \<leftarrow> rs, \<not> loop] = [[(5, 5), (6, 5)]] \<and> sorted_out (1 / 10) rs)"
proof -
  let ?paths = "[SVGPath_new () \<lparr> polylines := [[(0, 0), (1, 0)], [(1, 0), (0, 0)], [(5, 5), (6, 5)]] \<rparr>]"
  have run: "PathsToClosedPolylines ?paths (1 / 10) [] [] = Some ([[(0, 0), (1, 0), (0, 0)]], [[(5, 5), (6, 5)]])"
    by (simp add: PathsToClosedPolylines_def SVGPath_new_def point_distance_def match_segment_def
        Vector2dCompare_def grow_polyline.simps)
  have "\<forall>path \<in> set ?paths. [] \<notin> set (polylines path)" by (simp add: SVGPath_new_def)
  from PathsToClosedPolylines_chains [OF this, of "1 / 10" "[]" "[]"]
  show ?thesis unfolding run by auto
qed

end
