(* ===== verification/Collada_Source.thy ===== *)
theory Collada_Source
  imports Number_Text Gz_Math Text_Util Std_Map "HOL-Library.Word" "HOL-Library.Monad_Syntax"
begin

unbundle bit_operations_syntax

section \<open>ColladaLoader: elements, sources and vertices\<close>

text \<open>
  The part of \<^verbatim>\<open>graphics/src/ColladaLoader.cc\<close> that finds an element of the document and reads the
  positions, normals and texture coordinates of a source. The document is the tree tinyxml2 hands
  over; an element is used together with its ancestors, innermost first. A pointer that may be null is
  an option, a vector behind a shared pointer is the vector: it is never changed, and the code treats
  a null pointer like an empty vector. A vector has fewer than \<open>2^31\<close> elements, since the loops that
  fill it count in an \<open>int\<close>. \<^const>\<open>None\<close> as a result is a null pointer that is followed, an index out of
  range or a loop that does not end.
\<close>

subsection \<open>The document\<close>

datatype element =
  Element (tag: string) (attributes: "(string \<times> string) list") (text_in: "string option") (elements: "element list")

type_synonym cursor = "element \<times> element list"

definition Attribute :: "cursor \<Rightarrow> string \<Rightarrow> string option" where
  "Attribute c n = map_of (attributes (fst c)) n"

definition GetText :: "cursor \<Rightarrow> string option" where
  "GetText c = text_in (fst c)"

definition Value :: "cursor \<Rightarrow> string" where
  "Value c = tag (fst c)"

text \<open>The elements that \<open>FirstChildElement\<close> and \<open>NextSiblingElement\<close> go through.\<close>

definition all_children :: "cursor \<Rightarrow> cursor list" where
  "all_children c = map (\<lambda>k. (k, fst c # snd c)) (elements (fst c))"

definition children_of :: "cursor \<Rightarrow> string \<Rightarrow> cursor list" where
  "children_of c n = filter (\<lambda>k. Value k = n) (all_children c)"

definition FirstChildElement :: "cursor \<Rightarrow> string \<Rightarrow> cursor option" where
  "FirstChildElement c n = (case children_of c n of [] \<Rightarrow> None | k # _ \<Rightarrow> Some k)"

definition parent_element :: "cursor \<Rightarrow> cursor option" where
  "parent_element c = (case snd c of [] \<Rightarrow> None | p # ps \<Rightarrow> Some (p, ps))"

subsection \<open>ElementId\<close>

definition has_id :: "string \<Rightarrow> string \<Rightarrow> cursor \<Rightarrow> bool" where
  "has_id n i c \<longleftrightarrow> (i = [] \<and> Value c = n) \<or> Attribute c ''id'' = Some i \<or> Attribute c ''sid'' = Some i"

fun find_id :: "string \<Rightarrow> string \<Rightarrow> element list \<Rightarrow> element \<Rightarrow> cursor option"
  and find_ids :: "string \<Rightarrow> string \<Rightarrow> element list \<Rightarrow> element list \<Rightarrow> cursor option" where
  "find_id n i anc (Element t a x ks) =
     (if has_id n i (Element t a x ks, anc) then Some (Element t a x ks, anc)
      else find_ids n i (Element t a x ks # anc) ks)"
| "find_ids n i anc [] = None"
| "find_ids n i anc (k # ks) =
     (case find_id n i anc k of None \<Rightarrow> find_ids n i anc ks | Some c \<Rightarrow> Some c)"

definition strip_hash :: "string \<Rightarrow> string" where
  "strip_hash i = (case i of [] \<Rightarrow> [] | c # r \<Rightarrow> if c = CHR ''#'' then r else i)"

definition ElementId :: "cursor \<Rightarrow> string \<Rightarrow> string \<Rightarrow> cursor option" where
  "ElementId p n i = find_id n (strip_hash i) (snd p) (fst p)"

subsection \<open>The libraries the loader calls\<close>

text \<open>
  gz-math (the product of a matrix and a vector, the equality of vectors, number parsers, the stream
  operators of a vector), tinyxml2 (the value of an integer attribute), \<open>std::hash\<close> on doubles, and
  whether \<open>strtod\<close> overflows.
\<close>

record ('m, 'q) collada_lib =
  lib_math :: gz_math
  lib_mat :: "('m, 'q) gz_mat"
  apply_m :: "'m \<Rightarrow> Vector3d \<Rightarrow> Vector3d"
  of_axis_angle :: "Vector3d \<Rightarrow> real \<Rightarrow> 'm"
  eq_2 :: "Vector2d \<Rightarrow> Vector2d \<Rightarrow> bool"
  hash_double :: "real \<Rightarrow> 64 word"
  overflow_d :: "real \<Rightarrow> bool"
  parse_int :: "string \<Rightarrow> int"
  parse_float :: "string \<Rightarrow> real"
  read_vector :: "string \<Rightarrow> Vector3d"
  query_int :: "string \<Rightarrow> int option"

subsection \<open>Hashes of vectors\<close>

definition hash_combine :: "('m, 'q) collada_lib \<Rightarrow> 64 word \<Rightarrow> real \<Rightarrow> 64 word" where
  "hash_combine L seed v = seed XOR (hash_double L v + 0x9e3779b9 + push_bit 6 seed + drop_bit 2 seed)"

definition Vector3Hash :: "('m, 'q) collada_lib \<Rightarrow> Vector3d \<Rightarrow> 64 word" where
  "Vector3Hash L v = hash_combine L (hash_combine L (hash_combine L 0 (vX v)) (vY v)) (vZ v)"

definition Vector2dHash :: "('m, 'q) collada_lib \<Rightarrow> Vector2d \<Rightarrow> 64 word" where
  "Vector2dHash L v = hash_combine L (hash_combine L 0 (fst v)) (snd v)"

text \<open>Two keys an \<open>unordered_map\<close> takes for the same.\<close>

definition same_key3 :: "('m, 'q) collada_lib \<Rightarrow> Vector3d \<Rightarrow> Vector3d \<Rightarrow> bool" where
  "same_key3 L u v \<longleftrightarrow> Vector3Hash L u = Vector3Hash L v \<and> eq_v (lib_math L) u v"

definition same_key2 :: "('m, 'q) collada_lib \<Rightarrow> Vector2d \<Rightarrow> Vector2d \<Rightarrow> bool" where
  "same_key2 L u v \<longleftrightarrow> Vector2dHash L u = Vector2dHash L v \<and> eq_2 L u v"

subsection \<open>Numbers in the text of an element\<close>

lemma scan_sign_length: "scan_sign s = (neg, r) \<Longrightarrow> length r \<le> length s"
  by (cases s) (auto simp: scan_sign_def split: if_splits)

lemma scan_digits_length: "scan_digits s = (ds, r) \<Longrightarrow> length ds + length r = length s"
  by (auto simp: scan_digits_def simp flip: length_append)

lemma scan_fraction_length: "scan_fraction s = (fs, r) \<Longrightarrow> length fs + length r \<le> length s"
  by (cases s) (auto simp: scan_fraction_def scan_digits_def simp flip: length_append split: if_splits)

lemma scan_exponent_length: "scan_exponent s = Some (e, r) \<Longrightarrow> length r \<le> length s"
  by (cases s)
     (auto simp: scan_exponent_def split: if_splits prod.splits dest!: scan_sign_length scan_digits_length)

lemma strtod_shorter:
  assumes "strtod s = Some (v, r)"
  shows "length r < length s"
proof -
  obtain neg s1 where s1: "scan_sign (dropWhile isspace s) = (neg, s1)" by fastforce
  obtain ds s2 where s2: "scan_digits s1 = (ds, s2)" by fastforce
  obtain fs s3 where s3: "scan_fraction s2 = (fs, s3)" by fastforce
  obtain e s4 where s4: "(case scan_exponent s3 of None \<Rightarrow> (0, s3) | Some r \<Rightarrow> r) = (e, s4)" by fastforce
  have "length s4 \<le> length s3" using s4 by (auto split: option.splits dest: scan_exponent_length)
  moreover have "ds \<noteq> [] \<or> fs \<noteq> []" "r = s4" using assms by (auto simp: strtod_def s1 s2 s3 s4 Let_def split: if_splits)
  moreover have "length s1 \<le> length s"
    using scan_sign_length [OF s1] length_dropWhile_le [of isspace s] by (rule le_trans)
  ultimately show ?thesis using scan_digits_length [OF s2] scan_fraction_length [OF s3] by (cases ds; cases fs) auto
qed

function parseDoubles :: "('m, 'q) collada_lib \<Rightarrow> string \<Rightarrow> real list" where
  "parseDoubles L s =
     (case strtod s of
        None \<Rightarrow> []
      | Some (d, r) \<Rightarrow> if overflow_d L d then [] else d # parseDoubles L r)"
  by pat_completeness auto

termination
  by (relation "measure (\<lambda>(L, s). length s)") (auto dest: strtod_shorter)

declare parseDoubles.simps [simp del]

text \<open>\<open>strtoul\<close> in base 10 with a 64-bit \<open>unsigned long\<close>: the value, whether it is out of range, and
  the rest of the text; a minus sign negates the value in 64 bits.\<close>

definition strtoul :: "string \<Rightarrow> (nat \<times> bool \<times> string) option" where
  "strtoul s =
     (case scan_sign (dropWhile isspace s) of
        (neg, s1) \<Rightarrow>
          (case scan_digits s1 of
             (ds, s2) \<Rightarrow>
               if ds = [] then None
               else
                 let v = read_nat ds
                 in Some (if v \<ge> 2 ^ 64 then 2 ^ 64 - 1 else if neg \<and> v > 0 then 2 ^ 64 - v else v, v \<ge> 2 ^ 64, s2)))"

definition skip_blanks :: "string \<Rightarrow> string" where
  "skip_blanks s = dropWhile (\<lambda>c. c = CHR '' '' \<or> c = CHR 0x09 \<or> c = CHR 0x0D \<or> c = CHR 0x0A) s"

lemma strtoul_shorter:
  assumes "strtoul s = Some (v, e, r)"
  shows "length r < length s"
proof -
  obtain neg s1 where s1: "scan_sign (dropWhile isspace s) = (neg, s1)" by fastforce
  obtain ds s2 where s2: "scan_digits s1 = (ds, s2)" by fastforce
  have "ds \<noteq> []" "r = s2" using assms by (auto simp: strtoul_def s1 s2 Let_def split: if_splits)
  moreover have "length s1 \<le> length s"
    using scan_sign_length [OF s1] length_dropWhile_le [of isspace s] by (rule le_trans)
  ultimately show ?thesis using scan_digits_length [OF s2] by (cases ds) auto
qed

function parseUints :: "string \<Rightarrow> nat list" where
  "parseUints s =
     (let start = skip_blanks s
      in if start \<noteq> [] \<and> hd start = CHR ''-'' then []
         else
           (case strtoul start of
              None \<Rightarrow> []
            | Some (v, erange, r) \<Rightarrow> if erange \<or> v > 2 ^ 32 - 1 then [] else v # parseUints r))"
  by pat_completeness auto

termination
proof (relation "measure length", simp, clarsimp)
  fix s v r assume "strtoul (skip_blanks s) = Some (v, False, r)"
  then have "length r < length (skip_blanks s)" by (rule strtoul_shorter)
  then show "length r < length s"
    using length_dropWhile_le [of _ s] unfolding skip_blanks_def by (rule less_le_trans)
qed

declare parseUints.simps [simp del]

text \<open>Equations that evaluate: the bounds as integers, which are not unary.\<close>

lemma strtoul_code [code]:
  "strtoul s =
     (case scan_sign (dropWhile isspace s) of
        (neg, s1) \<Rightarrow>
          (case scan_digits s1 of
             (ds, s2) \<Rightarrow>
               if ds = [] then None
               else
                 let v = read_nat ds; e = int v \<ge> 18446744073709551616
                 in Some (if e then nat 18446744073709551615
                          else if neg \<and> v > 0 then nat (18446744073709551616 - int v) else v, e, s2)))"
  by (simp add: strtoul_def Let_def nat_diff_distrib int_ops split: prod.splits)

lemma parseUints_code [code]:
  "parseUints s =
     (let start = skip_blanks s
      in if start \<noteq> [] \<and> hd start = CHR ''-'' then []
         else
           (case strtoul start of
              None \<Rightarrow> []
            | Some (v, erange, r) \<Rightarrow> if erange \<or> int v > 4294967295 then [] else v # parseUints r))"
  by (subst parseUints.simps) (simp add: Let_def split: option.splits prod.splits)

subsection \<open>The accessor of a source\<close>

record SourceAccessor =
  float_text :: string
  totCount :: int
  stride :: int
  acc_count :: int

text \<open>\<open>QueryIntAttribute\<close>: the code only asks whether it succeeds.\<close>

definition QueryIntAttribute :: "('m, 'q) collada_lib \<Rightarrow> cursor \<Rightarrow> string \<Rightarrow> int option" where
  "QueryIntAttribute L c n = do { a \<leftarrow> Attribute c n; query_int L a }"

definition ParseSourceAccessor :: "('m, 'q) collada_lib \<Rightarrow> cursor \<Rightarrow> int \<Rightarrow> SourceAccessor option" where
  "ParseSourceAccessor L sourceXml minStride =
     do {
       floatArrayXml \<leftarrow> FirstChildElement sourceXml ''float_array'';
       txt \<leftarrow> GetText floatArrayXml;
       tot \<leftarrow> QueryIntAttribute L floatArrayXml ''count'';
       if tot < 0 then None
       else do {
         techniqueXml \<leftarrow> FirstChildElement sourceXml ''technique_common'';
         accessorXml \<leftarrow> FirstChildElement techniqueXml ''accessor'';
         str \<leftarrow> QueryIntAttribute L accessorXml ''stride'';
         if str < minStride then None
         else
           (let cnt = (case QueryIntAttribute L accessorXml ''count'' of None \<Rightarrow> - 1 | Some c \<Rightarrow> c)
            in if tot = 0 then None
               else Some \<lparr> float_text = txt, totCount = tot, stride = str, acc_count = cnt \<rparr>) } }"

subsection \<open>Values and their duplicates\<close>

text \<open>
  The rows of \<open>w\<close> numbers that a loop with step \<open>step\<close> reads from the values, as long as they are within the
  declared count. \<open>ParseSourceAccessor\<close> has refused a step below \<open>w\<close>.
\<close>

function source_rows :: "nat \<Rightarrow> nat \<Rightarrow> nat \<Rightarrow> real list \<Rightarrow> nat \<Rightarrow> real list list" where
  "source_rows w step tot vals i =
     (if i < tot \<and> i + w \<le> length vals \<and> 0 < step
      then take w (drop i vals) # source_rows w step tot vals (i + step)
      else [])"
  by pat_completeness auto

termination
  by (relation "measure (\<lambda>(w, step, tot, vals, i). tot - i)") auto

declare source_rows.simps [simp del]

text \<open>A value goes to the end of the vector, and into the map of duplicates when the table of
  the values read from this source has one that is the same.\<close>

type_synonym dup_map = "nat \<rightharpoonup> nat"

fun add_values ::
    "('v \<Rightarrow> 'v \<Rightarrow> bool) \<Rightarrow> 'v list \<Rightarrow> ('v \<times> nat) list \<Rightarrow> 'v list \<Rightarrow> dup_map \<Rightarrow> 'v list \<times> dup_map" where
  "add_values same [] uniq vals dup = (vals, dup)"
| "add_values same (v # vs) uniq vals dup =
     (case find (\<lambda>(u, _). same u v) uniq of
        Some (_, j) \<Rightarrow> add_values same vs uniq (vals @ [v]) (dup(length vals \<mapsto> j))
      | None \<Rightarrow> add_values same vs (uniq @ [(v, length vals)]) (vals @ [v]) dup)"

fun vec3_of :: "real list \<Rightarrow> Vector3d" where
  "vec3_of (x # y # z # r) = \<lparr> vX = x, vY = y, vZ = z \<rparr>"
| "vec3_of r = \<lparr> vX = 0, vY = 0, vZ = 0 \<rparr>"

fun vec2_of :: "real list \<Rightarrow> Vector2d" where
  "vec2_of (x # y # r) = (x, 1 - y)"
| "vec2_of r = (0, 0)"

subsection \<open>Sources that were read before\<close>

record source_cache =
  positionIds :: "string \<rightharpoonup> Vector3d list"
  positionDuplicateMap :: "string \<rightharpoonup> dup_map"
  normalIds :: "string \<rightharpoonup> Vector3d list"
  normalDuplicateMap :: "string \<rightharpoonup> dup_map"
  texcoordIds :: "string \<rightharpoonup> Vector2d list"
  texcoordDuplicateMap :: "string \<rightharpoonup> dup_map"

definition no_sources :: source_cache where
  "no_sources =
     \<lparr> positionIds = Map.empty, positionDuplicateMap = Map.empty, normalIds = Map.empty,
       normalDuplicateMap = Map.empty, texcoordIds = Map.empty, texcoordDuplicateMap = Map.empty \<rparr>"

definition dup_of :: "(string \<rightharpoonup> dup_map) \<Rightarrow> string \<Rightarrow> dup_map" where
  "dup_of m i = (case m i of None \<Rightarrow> Map.empty | Some d \<Rightarrow> d)"

text \<open>The rows of a source: nothing when there is no such element or its accessor is refused.\<close>

definition rows_of_source :: "('m, 'q) collada_lib \<Rightarrow> cursor \<Rightarrow> nat \<Rightarrow> string \<Rightarrow> (SourceAccessor \<times> real list list) option" where
  "rows_of_source L doc w i =
     do {
       sourceXml \<leftarrow> ElementId doc ''source'' i;
       src \<leftarrow> ParseSourceAccessor L sourceXml (int w);
       Some (src, source_rows w (nat (stride src)) (nat (totCount src)) (parseDoubles L (float_text src)) 0) }"

definition LoadPositions ::
    "('m, 'q) collada_lib \<Rightarrow> cursor \<Rightarrow> string \<Rightarrow> 'm \<Rightarrow> Vector3d list \<times> dup_map \<Rightarrow> source_cache \<Rightarrow>
     (Vector3d list \<times> dup_map) \<times> source_cache" where
  "LoadPositions L doc i T vd cache =
     (case positionIds cache i of
        Some vals \<Rightarrow> ((vals, dup_of (positionDuplicateMap cache) i), cache)
      | None \<Rightarrow>
          (case rows_of_source L doc 3 i of
             None \<Rightarrow> (vd, cache)
           | Some (src, rows) \<Rightarrow>
               (case add_values (same_key3 L) (map (\<lambda>r. apply_m L T (vec3_of r)) rows) [] (fst vd) (snd vd) of
                  (vals, dup) \<Rightarrow>
                    ((vals, dup), cache \<lparr> positionDuplicateMap := (positionDuplicateMap cache)(i \<mapsto> dup),
                                          positionIds := (positionIds cache)(i \<mapsto> vals) \<rparr>))))"

definition LoadNormals ::
    "('m, 'q) collada_lib \<Rightarrow> cursor \<Rightarrow> string \<Rightarrow> 'm \<Rightarrow> Vector3d list \<times> dup_map \<Rightarrow> source_cache \<Rightarrow>
     (Vector3d list \<times> dup_map) \<times> source_cache" where
  "LoadNormals L doc i T vd cache =
     (case normalIds cache i of
        Some vals \<Rightarrow> ((vals, dup_of (normalDuplicateMap cache) i), cache)
      | None \<Rightarrow>
          (let rotMat = SetTranslation_m (lib_mat L) (Zero_v (lib_math L)) T
           in case rows_of_source L doc 3 i of
             None \<Rightarrow> (vd, cache)
           | Some (src, rows) \<Rightarrow>
               (case add_values (same_key3 L)
                       (map (\<lambda>r. Normalize_v (lib_math L) (apply_m L rotMat (vec3_of r))) rows) [] (fst vd) (snd vd) of
                  (vals, dup) \<Rightarrow>
                    ((vals, dup), cache \<lparr> normalDuplicateMap := (normalDuplicateMap cache)(i \<mapsto> dup),
                                          normalIds := (normalIds cache)(i \<mapsto> vals) \<rparr>))))"

text \<open>The product of count and stride is an \<open>int\<close>; one that does not fit is undefined.\<close>

definition LoadTexCoords ::
    "('m, 'q) collada_lib \<Rightarrow> cursor \<Rightarrow> string \<Rightarrow> Vector2d list \<times> dup_map \<Rightarrow> source_cache \<Rightarrow>
     ((Vector2d list \<times> dup_map) \<times> source_cache) option" where
  "LoadTexCoords L doc i vd cache =
     (case texcoordIds cache i of
        Some vals \<Rightarrow> Some ((vals, dup_of (texcoordDuplicateMap cache) i), cache)
      | None \<Rightarrow>
          (case rows_of_source L doc 2 i of
             None \<Rightarrow> Some (vd, cache)
           | Some (src, rows) \<Rightarrow>
               if acc_count src < 0 then Some (vd, cache)
               else if acc_count src * stride src \<ge> 2 ^ 31 then None
               else if acc_count src * stride src \<noteq> totCount src then Some (vd, cache)
               else
                 (case add_values (same_key2 L) (map vec2_of rows) [] (fst vd) (snd vd) of
                    (vals, dup) \<Rightarrow>
                      Some ((vals, dup), cache \<lparr> texcoordDuplicateMap := (texcoordDuplicateMap cache)(i \<mapsto> dup),
                                                texcoordIds := (texcoordIds cache)(i \<mapsto> vals) \<rparr>))))"

subsection \<open>LoadVertices\<close>

record vertex_data =
  vd_verts :: "Vector3d list"
  vd_norms :: "Vector3d list"
  vd_vertDups :: dup_map
  vd_normDups :: dup_map

definition no_vertices :: vertex_data where
  "no_vertices = \<lparr> vd_verts = [], vd_norms = [], vd_vertDups = Map.empty, vd_normDups = Map.empty \<rparr>"

fun load_vertex_inputs ::
    "('m, 'q) collada_lib \<Rightarrow> cursor \<Rightarrow> 'm \<Rightarrow> cursor list \<Rightarrow> vertex_data \<Rightarrow> source_cache \<Rightarrow>
     (vertex_data \<times> source_cache) option" where
  "load_vertex_inputs L doc T [] vd cache = Some (vd, cache)"
| "load_vertex_inputs L doc T (inputXml # rest) vd cache =
     do {
       semantic \<leftarrow> Attribute inputXml ''semantic'';
       source \<leftarrow> Attribute inputXml ''source'';
       (if semantic = ''NORMAL'' then
          (case LoadNormals L doc source T (vd_norms vd, vd_normDups vd) cache of
             ((vals, dup), cache1) \<Rightarrow>
               load_vertex_inputs L doc T rest (vd \<lparr> vd_norms := vals, vd_normDups := dup \<rparr>) cache1)
        else if semantic = ''POSITION'' then
          (case LoadPositions L doc source T (vd_verts vd, vd_vertDups vd) cache of
             ((vals, dup), cache1) \<Rightarrow>
               load_vertex_inputs L doc T rest (vd \<lparr> vd_verts := vals, vd_vertDups := dup \<rparr>) cache1)
        else load_vertex_inputs L doc T rest vd cache) }"

definition LoadVertices ::
    "('m, 'q) collada_lib \<Rightarrow> cursor \<Rightarrow> string \<Rightarrow> 'm \<Rightarrow> vertex_data \<Rightarrow> source_cache \<Rightarrow>
     (vertex_data \<times> source_cache) option" where
  "LoadVertices L doc i T vd cache =
     (case ElementId doc ''vertices'' i of
        None \<Rightarrow> Some (vd, cache)
      | Some verticesXml \<Rightarrow> load_vertex_inputs L doc T (children_of verticesXml ''input'') vd cache)"

end
