(* ===== verification/Collada_Mesh.thy ===== *)
theory Collada_Mesh
  imports Collada_Source Skeleton_Model Mesh_Model
begin

section \<open>ColladaLoader: triangles, polygons and lines\<close>

text \<open>
  The loops of \<^verbatim>\<open>graphics/src/ColladaLoader.cc\<close> that turn the index lists of a geometry into a
  sub-mesh. An index of the document names a position, a normal and texture coordinates on their own;
  a vertex of the sub-mesh has one index for all of them, so the loader keeps for every position the
  vertices it made from it. \<open>LoadTriangles\<close> and \<open>LoadPolylist\<close> have the same loop bodies, up to what the
  flag \<open>poly\<close> selects here.
\<close>

subsection \<open>The inputs of a primitive\<close>

record corner_layout =
  vertexOffsets :: "int list"
  normalOffsets :: "int list"
  texcoordOffsets :: "int list"
  otherSemantics :: nat
  someNormals :: bool
  combinedVertNorms :: bool
  vertexData :: vertex_data
  texcoordSets :: "(nat \<times> 32 word) list"
  texcoordVals :: "32 word \<rightharpoonup> Vector2d list"
  texDupMap :: "32 word \<rightharpoonup> dup_map"

definition no_inputs :: corner_layout where
  "no_inputs =
     \<lparr> vertexOffsets = [], normalOffsets = [], texcoordOffsets = [], otherSemantics = 0, someNormals = False,
       combinedVertNorms = False, vertexData = no_vertices, texcoordSets = [], texcoordVals = Map.empty,
       texDupMap = Map.empty \<rparr>"

text \<open>A set of offsets is its elements in order; \<open>values.at\<close> takes a negative one for a huge index.\<close>

definition offset_index :: "int \<Rightarrow> nat" where
  "offset_index i = unat (word_of_int i :: 64 word)"

definition tex_vals :: "corner_layout \<Rightarrow> 32 word \<Rightarrow> Vector2d list" where
  "tex_vals lay k = (case texcoordVals lay k of None \<Rightarrow> [] | Some v \<Rightarrow> v)"

definition tex_dups :: "corner_layout \<Rightarrow> 32 word \<Rightarrow> dup_map" where
  "tex_dups lay k = (case texDupMap lay k of None \<Rightarrow> Map.empty | Some d \<Rightarrow> d)"

definition read_input ::
    "('m, 'q) collada_lib \<Rightarrow> cursor \<Rightarrow> 'm \<Rightarrow> cursor \<Rightarrow> corner_layout \<Rightarrow> source_cache \<Rightarrow>
     (corner_layout \<times> source_cache) option" where
  "read_input L doc T inputXml lay cache =
     do {
       semantic \<leftarrow> Attribute inputXml ''semantic'';
       source \<leftarrow> Attribute inputXml ''source'';
       offset \<leftarrow> Attribute inputXml ''offset'';
       let off = parse_int L offset;
       let vd = vertexData lay;
       (if semantic = ''VERTEX'' then do {
          (vd', cache') \<leftarrow> LoadVertices L doc source T vd cache;
          Some (lay \<lparr> vertexData := vd',
                      combinedVertNorms := combinedVertNorms lay \<or> length (vd_norms vd') > length (vd_norms vd),
                      vertexOffsets := insort_insert off (vertexOffsets lay) \<rparr>, cache') }
        else if semantic = ''NORMAL'' then
          (case LoadNormals L doc source T (vd_norms vd, vd_normDups vd) cache of
             ((vals, dup), cache') \<Rightarrow>
               Some (lay \<lparr> vertexData := vd \<lparr> vd_norms := vals, vd_normDups := dup \<rparr>, combinedVertNorms := False,
                           normalOffsets := insort_insert off (normalOffsets lay),
                           someNormals := someNormals lay \<or> vals \<noteq> [] \<rparr>, cache'))
        else if semantic = ''TEXCOORD'' then do {
          let k = (case Attribute inputXml ''set'' of None \<Rightarrow> 0 | Some t \<Rightarrow> (word_of_int (parse_int L t) :: 32 word));
          ((vals, dup), cache') \<leftarrow> LoadTexCoords L doc source (tex_vals lay k, tex_dups lay k) cache;
          Some (lay \<lparr> texcoordVals := (texcoordVals lay)(k \<mapsto> vals), texDupMap := (texDupMap lay)(k \<mapsto> dup),
                      texcoordOffsets := insort_insert off (texcoordOffsets lay),
                      texcoordSets := texcoordSets lay @ [(unat (word_of_int off :: 32 word), k)] \<rparr>, cache') }
        else Some (lay \<lparr> otherSemantics := otherSemantics lay + 1 \<rparr>, cache)) }"

fun read_inputs ::
    "('m, 'q) collada_lib \<Rightarrow> cursor \<Rightarrow> 'm \<Rightarrow> cursor list \<Rightarrow> corner_layout \<Rightarrow> source_cache \<Rightarrow>
     (corner_layout \<times> source_cache) option" where
  "read_inputs L doc T [] lay cache = Some (lay, cache)"
| "read_inputs L doc T (inputXml # rest) lay cache =
     do { (lay', cache') \<leftarrow> read_input L doc T inputXml lay cache; read_inputs L doc T rest lay' cache' }"

text \<open>The number of indices of one corner.\<close>

definition offsetSize :: "corner_layout \<Rightarrow> nat" where
  "offsetSize lay =
     length (vertexOffsets lay) + length (normalOffsets lay) + length (texcoordOffsets lay) + otherSemantics lay"

subsection \<open>Vertices that can be shared\<close>

record GeometryIndices =
  gi_vertex :: nat
  gi_normal :: "nat option"
  gi_texcoord :: "(32 word \<times> nat) list"
  gi_mapped :: "32 word"

definition TexcoordIndexForSet :: "GeometryIndices \<Rightarrow> 32 word \<Rightarrow> nat" where
  "TexcoordIndexForSet gi k = (case map_of (gi_texcoord gi) k of None \<Rightarrow> 0 | Some i \<Rightarrow> i)"

definition remap :: "dup_map \<Rightarrow> nat \<Rightarrow> nat" where
  "remap dup i = (case dup i of None \<Rightarrow> i | Some j \<Rightarrow> j)"

definition first_value :: "int list \<Rightarrow> nat list \<Rightarrow> nat option" where
  "first_value offs vals = (case offs of [] \<Rightarrow> None | off # _ \<Rightarrow> elem_at vals (offset_index off))"

definition norm_equal :: "corner_layout \<Rightarrow> nat list \<Rightarrow> GeometryIndices \<Rightarrow> bool option" where
  "norm_equal lay vals iv =
     do {
       v \<leftarrow> first_value (normalOffsets lay) vals;
       n \<leftarrow> gi_normal iv;
       Some (n = remap (vd_normDups (vertexData lay)) v) }"

fun tex_equal :: "corner_layout \<Rightarrow> nat list \<Rightarrow> GeometryIndices \<Rightarrow> (nat \<times> 32 word) list \<Rightarrow> bool option" where
  "tex_equal lay vals iv [] = Some True"
| "tex_equal lay vals iv ((off, k) # rest) =
     do {
       v \<leftarrow> elem_at vals off;
       if TexcoordIndexForSet iv k \<noteq> remap (tex_dups lay k) v then Some False
       else tex_equal lay vals iv rest }"

definition uses_normals :: "bool \<Rightarrow> corner_layout \<Rightarrow> bool" where
  "uses_normals poly lay \<longleftrightarrow> (if poly then normalOffsets lay \<noteq> [] else someNormals lay)"

definition uses_texcoords :: "corner_layout \<Rightarrow> bool" where
  "uses_texcoords lay \<longleftrightarrow> texcoordOffsets lay \<noteq> []"

definition shareable :: "bool \<Rightarrow> corner_layout \<Rightarrow> nat list \<Rightarrow> GeometryIndices \<Rightarrow> bool option" where
  "shareable poly lay vals iv =
     do {
       normEqual \<leftarrow> (if uses_normals poly lay then norm_equal lay vals iv else Some False);
       texEqual \<leftarrow> (if uses_texcoords lay then tex_equal lay vals iv (texcoordSets lay) else Some False);
       Some ((\<not> uses_normals poly lay \<or> normEqual) \<and> (\<not> uses_texcoords lay \<or> texEqual)) }"

fun find_shared :: "bool \<Rightarrow> corner_layout \<Rightarrow> nat list \<Rightarrow> GeometryIndices list \<Rightarrow> 32 word option option" where
  "find_shared poly lay vals [] = Some None"
| "find_shared poly lay vals (iv # ivs) =
     do {
       ok \<leftarrow> shareable poly lay vals iv;
       if ok then Some (Some (gi_mapped iv)) else find_shared poly lay vals ivs }"

subsection \<open>New vertices\<close>

text \<open>The bones of the position in the document go to the new vertex. A bone without a node is
  left out by \<open>LoadTriangles\<close>; \<open>LoadPolylist\<close> follows the null pointer.\<close>

fun assign_nodes ::
    "bool \<Rightarrow> 'm Skeleton \<Rightarrow> 'm node_heap \<Rightarrow> (string \<times> real) list \<Rightarrow> SubMesh \<Rightarrow> SubMesh option" where
  "assign_nodes poly skel h [] s = Some s"
| "assign_nodes poly skel h ((n, w) # rest) s =
     do {
       node \<leftarrow> NodeByName n skel h;
       (case node of
          None \<Rightarrow> if poly then None else assign_nodes poly skel h rest s
        | Some a \<Rightarrow>
            do { i \<leftarrow> Handle a h;
                 assign_nodes poly skel h rest (AddNodeAssignment (VertexCount s - 1) i w s) }) }"

definition node_weights :: "'m Skeleton \<Rightarrow> nat \<Rightarrow> (string \<times> real) list" where
  "node_weights skel v =
     map (\<lambda>i. VertNodeWeight (word_of_nat v) (word_of_nat i) skel)
       [0..<unat (VertNodeWeightCount (word_of_nat v) skel)]"

definition attach_skeleton ::
    "('m, 'q) collada_lib \<Rightarrow> bool \<Rightarrow> ('m Skeleton \<times> 'm node_heap) option \<Rightarrow> nat \<Rightarrow> SubMesh \<Rightarrow> SubMesh option" where
  "attach_skeleton L poly sk dae s =
     (case sk of
        None \<Rightarrow> Some s
      | Some (skel, h) \<Rightarrow>
          (let new = VertexCount s - 1;
               s1 = (if poly
                     then SetVertex new (apply_m L (BindShapeTransform skel) (Vertex (lib_math L) new s)) s
                     else s)
           in assign_nodes poly skel h (node_weights skel dae) s1))"

definition new_normal :: "bool \<Rightarrow> corner_layout \<Rightarrow> nat list \<Rightarrow> SubMesh \<Rightarrow> (SubMesh \<times> nat option) option" where
  "new_normal poly lay vals s =
     do {
       v \<leftarrow> first_value (normalOffsets lay) vals;
       let i = remap (vd_normDups (vertexData lay)) v;
       let norms = vd_norms (vertexData lay);
       if poly \<and> \<not> i < length norms then Some (s, None)
       else do { n \<leftarrow> elem_at norms i; Some (AddNormal n s, Some i) } }"

fun new_texcoords ::
    "corner_layout \<Rightarrow> nat list \<Rightarrow> (nat \<times> 32 word) list \<Rightarrow> SubMesh \<Rightarrow> (32 word \<times> nat) list \<Rightarrow>
     (SubMesh \<times> (32 word \<times> nat) list) option" where
  "new_texcoords lay vals [] s acc = Some (s, acc)"
| "new_texcoords lay vals ((off, k) # rest) s acc =
     do {
       v \<leftarrow> elem_at vals off;
       let i = remap (tex_dups lay k) v;
       uv \<leftarrow> elem_at (tex_vals lay k) i;
       new_texcoords lay vals rest (AddTexCoordBySet (fst uv) (snd uv) k s) (acc @ [(k, i)]) }"

definition new_vertex ::
    "('m, 'q) collada_lib \<Rightarrow> bool \<Rightarrow> ('m Skeleton \<times> 'm node_heap) option \<Rightarrow> corner_layout \<Rightarrow> nat \<Rightarrow> SubMesh \<Rightarrow>
     SubMesh option" where
  "new_vertex L poly sk lay dae s =
     do {
       v \<leftarrow> elem_at (vd_verts (vertexData lay)) dae;
       let s1 = AddVertex v s;
       let s2 = AddIndex (VertexCount s1 - 1) s1;
       s3 \<leftarrow> (if combinedVertNorms lay
              then do { n \<leftarrow> elem_at (vd_norms (vertexData lay)) dae; Some (AddNormal n s2) }
              else Some s2);
       attach_skeleton L poly sk dae s3 }"

text \<open>The sub-mesh with what was recorded for each position of the document.\<close>

type_synonym corner_state = "SubMesh \<times> (nat \<rightharpoonup> GeometryIndices list)"

definition new_corner ::
    "('m, 'q) collada_lib \<Rightarrow> bool \<Rightarrow> ('m Skeleton \<times> 'm node_heap) option \<Rightarrow> corner_layout \<Rightarrow> nat list \<Rightarrow> nat \<Rightarrow>
     corner_state \<Rightarrow> corner_state option" where
  "new_corner L poly sk lay vals dae st =
     (case st of
        (s, vertexIndexMap) \<Rightarrow>
          do {
            let hasVertices = (vertexOffsets lay \<noteq> []);
            s1 \<leftarrow> (if hasVertices then new_vertex L poly sk lay dae s else Some s);
            (s2, n) \<leftarrow> (if uses_normals poly lay then new_normal poly lay vals s1 else Some (s1, None));
            (s3, ts) \<leftarrow> (if uses_texcoords lay then new_texcoords lay vals (texcoordSets lay) s2 [] else Some (s2, []));
            Some (s3,
              if hasVertices
              then vertexIndexMap(dae \<mapsto>
                     [\<lparr> gi_vertex = dae, gi_normal = n, gi_texcoord = ts, gi_mapped = VertexCount s3 - 1 \<rparr>])
              else vertexIndexMap) })"

definition add_corner ::
    "('m, 'q) collada_lib \<Rightarrow> bool \<Rightarrow> ('m Skeleton \<times> 'm node_heap) option \<Rightarrow> corner_layout \<Rightarrow> nat list \<Rightarrow>
     corner_state \<Rightarrow> corner_state option" where
  "add_corner L poly sk lay vals st =
     (if vertexOffsets lay = [] then new_corner L poly sk lay vals 0 st
      else
        (case st of
           (s, vertexIndexMap) \<Rightarrow>
             do {
               v \<leftarrow> first_value (vertexOffsets lay) vals;
               let dae = remap (vd_vertDups (vertexData lay)) v;
               shared \<leftarrow> (case vertexIndexMap dae of None \<Rightarrow> Some None | Some ivs \<Rightarrow> find_shared poly lay vals ivs);
               (case shared of
                  Some m \<Rightarrow> Some (AddIndex m s, vertexIndexMap)
                | None \<Rightarrow> new_corner L poly sk lay vals dae st) }))"

subsection \<open>The loops\<close>

text \<open>The loop over the corners does not end when a corner has no index.\<close>

partial_function (option) corners_loop ::
    "('m, 'q) collada_lib \<Rightarrow> ('m Skeleton \<times> 'm node_heap) option \<Rightarrow> corner_layout \<Rightarrow> nat list \<Rightarrow> nat \<Rightarrow>
     corner_state \<Rightarrow> corner_state option" where
  "corners_loop L sk lay ind j st =
     (if j + offsetSize lay \<le> length ind
      then do {
        st' \<leftarrow> add_corner L False sk lay (take (offsetSize lay) (drop j ind)) st;
        corners_loop L sk lay ind (j + offsetSize lay) st' }
      else Some st)"

text \<open>A polygon is cut into the triangles \<open>0, k - 1, k\<close>.\<close>

fun add_corners ::
    "('m, 'q) collada_lib \<Rightarrow> bool \<Rightarrow> ('m Skeleton \<times> 'm node_heap) option \<Rightarrow> corner_layout \<Rightarrow> nat list \<Rightarrow> nat \<Rightarrow>
     nat list \<Rightarrow> corner_state \<Rightarrow> corner_state option" where
  "add_corners L poly sk lay ind start [] st = Some st"
| "add_corners L poly sk lay ind start (c # cs) st =
     do {
       st' \<leftarrow> add_corner L poly sk lay (take (offsetSize lay) (drop (start + c * offsetSize lay) ind)) st;
       add_corners L poly sk lay ind start cs st' }"

definition fan_corners :: "nat \<Rightarrow> nat list" where
  "fan_corners n = concat (map (\<lambda>k. [0, k - 1, k]) [2..<n])"

fun polygons_loop ::
    "('m, 'q) collada_lib \<Rightarrow> ('m Skeleton \<times> 'm node_heap) option \<Rightarrow> corner_layout \<Rightarrow> nat list \<Rightarrow> nat list \<Rightarrow> nat \<Rightarrow>
     corner_state \<Rightarrow> corner_state option" where
  "polygons_loop L sk lay ind [] start st = Some st"
| "polygons_loop L sk lay ind (n # ns) start st =
     (if start + n * offsetSize lay > length ind then Some st
      else do {
        st' \<leftarrow> add_corners L True sk lay ind start (fan_corners n) st;
        polygons_loop L sk lay ind ns (start + n * offsetSize lay) st' })"

subsection \<open>Lines\<close>

text \<open>\<open>iss >> a\<close> for an \<open>int\<close>; a number that does not fit fails as well.\<close>

definition scan_int :: "string \<Rightarrow> (int \<times> string) option" where
  "scan_int s =
     (case scan_sign (dropWhile isspace s) of
        (neg, s1) \<Rightarrow>
          (case scan_digits s1 of
             (ds, s2) \<Rightarrow>
               (let v = (if neg then - int (read_nat ds) else int (read_nat ds))
                in if ds = [] \<or> v < - (2 ^ 31) \<or> v \<ge> 2 ^ 31 then None else Some (v, s2))))"

lemma scan_int_shorter:
  assumes "scan_int s = Some (v, r)"
  shows "length r < length s"
proof -
  obtain neg s1 where s1: "scan_sign (dropWhile isspace s) = (neg, s1)" by fastforce
  obtain ds s2 where s2: "scan_digits s1 = (ds, s2)" by fastforce
  have "ds \<noteq> []" "r = s2" using assms by (auto simp: scan_int_def s1 s2 Let_def split: if_splits)
  moreover have "length s1 \<le> length s"
    using scan_sign_length [OF s1] length_dropWhile_le [of isspace s] by (rule le_trans)
  ultimately show ?thesis using scan_digits_length [OF s2] by (cases ds) auto
qed

text \<open>Every line has two vertices of its own.\<close>

definition line_point :: "Vector3d list \<Rightarrow> int \<Rightarrow> SubMesh \<Rightarrow> SubMesh option" where
  "line_point verts a s =
     do {
       v \<leftarrow> (if a < 0 then None else elem_at verts (nat a));
       let s1 = AddVertex v s;
       Some (AddIndex (VertexCount s1 - 1) s1) }"

function lines_loop :: "Vector3d list \<Rightarrow> string \<Rightarrow> SubMesh \<Rightarrow> SubMesh option" where
  "lines_loop verts iss s =
     (case scan_int iss of
        None \<Rightarrow> Some s
      | Some (a, r) \<Rightarrow>
          (case scan_int r of
             None \<Rightarrow> Some s
           | Some (b, r') \<Rightarrow>
               do { s1 \<leftarrow> line_point verts a s; s2 \<leftarrow> line_point verts b s1; lines_loop verts r' s2 }))"
  by pat_completeness auto

termination
  by (relation "measure (\<lambda>(verts, iss, s). length iss)") (auto dest!: scan_int_shorter)

declare lines_loop.simps [simp del]

end
