(* ===== verification/Collada_Material.thy ===== *)
theory Collada_Material
  imports Collada_Source Material_Pbr
begin

section \<open>ColladaLoader: materials\<close>

text \<open>
  The part of \<^verbatim>\<open>graphics/src/ColladaLoader.cc\<close> that reads a material from its effect. Colors are
  those of gz-math: a constructor from four numbers, the stream operator, and the components. Textures
  are searched with the file system and the search paths of \<open>System_Paths\<close>. \<^const>\<open>None\<close> is a null
  pointer that is followed.
\<close>

record 'c material_lib =
  mat_colors :: "'c gz_color"
  read_color :: "string \<Rightarrow> 'c"
  make_color :: "real \<Rightarrow> real \<Rightarrow> real \<Rightarrow> real \<Rightarrow> 'c"
  color_R :: "'c \<Rightarrow> real"
  color_G :: "'c \<Rightarrow> real"
  color_B :: "'c \<Rightarrow> real"
  color_A :: "'c \<Rightarrow> real"
  file_exists :: "string \<Rightarrow> bool"
  working_dir :: string
  search_paths :: SystemPaths

subsection \<open>Colors and textures\<close>

definition set_color :: "string \<Rightarrow> 'c \<Rightarrow> 'c Material \<Rightarrow> 'c Material" where
  "set_color typ c m =
     (if typ = ''diffuse'' then SetDiffuse c m
      else if typ = ''ambient'' then SetAmbient c m
      else if typ = ''emission'' then SetEmissive c m
      else if typ = ''specular'' then SetSpecular c m
      else m)"

text \<open>The image element a texture stands for.\<close>

definition texture_image :: "cursor \<Rightarrow> string \<Rightarrow> cursor option option" where
  "texture_image doc textureName =
     (case ElementId doc ''newparam'' textureName of
        None \<Rightarrow> Some (ElementId doc ''image'' textureName)
      | Some textureXml \<Rightarrow>
          if Value textureXml = ''image'' then Some (Some textureXml)
          else
            (case FirstChildElement textureXml ''sampler2D'' of
               None \<Rightarrow> Some None
             | Some sampler \<Rightarrow>
                 do {
                   sourceElem \<leftarrow> FirstChildElement sampler ''source'';
                   sourceName \<leftarrow> GetText sourceElem;
                   (case ElementId doc ''newparam'' sourceName of
                      None \<Rightarrow> Some None
                    | Some sourceXml \<Rightarrow>
                        (case FirstChildElement sourceXml ''surface'' of
                           None \<Rightarrow> Some None
                         | Some surfaceXml \<Rightarrow>
                             (case FirstChildElement surfaceXml ''init_from'' of
                                None \<Rightarrow> Some None
                              | Some from \<Rightarrow>
                                  do { f \<leftarrow> GetText from; Some (ElementId doc ''image'' f) }))) }))"

definition LoadColorOrTexture ::
    "'c material_lib \<Rightarrow> cursor \<Rightarrow> string \<Rightarrow> cursor \<Rightarrow> string \<Rightarrow> 'c Material \<Rightarrow> 'c Material option" where
  "LoadColorOrTexture K doc folder elem typ m =
     (case FirstChildElement elem typ of
        None \<Rightarrow> Some m
      | Some typeElem \<Rightarrow>
          (case FirstChildElement typeElem ''color'' of
             Some c \<Rightarrow> do { txt \<leftarrow> GetText c; Some (set_color typ (read_color K txt) m) }
           | None \<Rightarrow>
               (case FirstChildElement typeElem ''texture'' of
                  None \<Rightarrow> Some m
                | Some tex \<Rightarrow>
                    if typ = ''ambient'' \<or> typ = ''emission'' \<or> typ = ''specular'' then Some m
                    else do {
                      let m1 = (if typ = ''diffuse'' \<and> Blend m = REPLACE then SetDiffuse (make_color K 1 1 1 1) m else m);
                      let m2 = SetLighting True m1;
                      textureName \<leftarrow> Attribute tex ''texture'';
                      image \<leftarrow> texture_image doc textureName;
                      (case image of
                         None \<Rightarrow> Some m2
                       | Some imageXml \<Rightarrow>
                           (case FirstChildElement imageXml ''init_from'' of
                              None \<Rightarrow> Some m2
                            | Some from \<Rightarrow>
                                (case GetText from of
                                   None \<Rightarrow> Some m2
                                 | Some imgFile \<Rightarrow>
                                     SetTextureImage_in (file_exists K) (working_dir K) (search_paths K)
                                       imgFile folder m2))) })))"

subsection \<open>Transparency\<close>

definition LoadFloat :: "('m, 'q) collada_lib \<Rightarrow> cursor \<Rightarrow> real option" where
  "LoadFloat L elem =
     (case FirstChildElement elem ''float'' of
        None \<Rightarrow> Some 0
      | Some f \<Rightarrow> map_option (parse_float L) (GetText f))"

definition luminance :: "'c material_lib \<Rightarrow> 'c \<Rightarrow> real" where
  "luminance K c = 212671 / 1000000 * color_R K c + 715160 / 1000000 * color_G K c + 72169 / 1000000 * color_B K c"

text \<open>The factors of source and destination for the four modes; any other mode gives none.\<close>

definition opacity_factors :: "'c material_lib \<Rightarrow> string \<Rightarrow> 'c \<Rightarrow> real \<Rightarrow> (real \<times> real) option" where
  "opacity_factors K opaque c t =
     (if opaque = ''RGB_ZERO'' then Some (1 - luminance K c * t, luminance K c * t)
      else if opaque = ''RGB_ONE'' then Some (luminance K c * t, 1 - luminance K c * t)
      else if opaque = ''A_ONE'' then Some (color_A K c * t, 1 - color_A K c * t)
      else if opaque = ''A_ZERO'' then Some (1 - color_A K c * t, color_A K c * t)
      else None)"

definition LoadTransparent :: "'c material_lib \<Rightarrow> cursor \<Rightarrow> 'c Material \<Rightarrow> 'c Material" where
  "LoadTransparent K elem m =
     (case Attribute elem ''opaque'' of
        None \<Rightarrow> SetTransparency 0 m
      | Some opaqueStr \<Rightarrow>
          if FirstChildElement elem ''texture'' \<noteq> None
          then SetTransparency 0 (SetAlphaFromTexture True (1 / 2) True m)
          else
            (case FirstChildElement elem ''color'' of
               None \<Rightarrow> m
             | Some c \<Rightarrow>
                 (case GetText c of
                    None \<Rightarrow> m
                  | Some colorStr \<Rightarrow>
                      (let color = read_color K colorStr;
                           has_transparency =
                             (case parent_element elem of
                                None \<Rightarrow> False | Some p \<Rightarrow> FirstChildElement p ''transparency'' \<noteq> None);
                           transparency = (if has_transparency then Transparency m else 1)
                       in case opacity_factors K opaqueStr color transparency of
                            None \<Rightarrow> SetBlendFactors 0 0 m
                          | Some (src, dst) \<Rightarrow> SetBlendFactors src dst (SetTransparency dst m)))))"

subsection \<open>Materials\<close>

text \<open>The element of the shading model; \<open>lambert\<close> has no specular color and no shininess.\<close>

definition load_shading ::
    "('m, 'q) collada_lib \<Rightarrow> 'c material_lib \<Rightarrow> cursor \<Rightarrow> string \<Rightarrow> bool \<Rightarrow> cursor \<Rightarrow> 'c Material \<Rightarrow>
     'c Material option" where
  "load_shading L K doc folder lambert e m =
     do {
       m1 \<leftarrow> LoadColorOrTexture K doc folder e ''ambient'' m;
       m2 \<leftarrow> LoadColorOrTexture K doc folder e ''emission'' m1;
       m3 \<leftarrow> (if lambert then Some m2 else LoadColorOrTexture K doc folder e ''specular'' m2);
       m4 \<leftarrow> LoadColorOrTexture K doc folder e ''diffuse'' m3;
       m5 \<leftarrow> (case FirstChildElement e ''shininess'' of
                None \<Rightarrow> Some m4
              | Some x \<Rightarrow> if lambert then Some m4 else map_option (\<lambda>f. SetShininess f m4) (LoadFloat L x));
       m6 \<leftarrow> (case FirstChildElement e ''transparency'' of
                None \<Rightarrow> Some m5
              | Some x \<Rightarrow> map_option (\<lambda>f. SetTransparency f m5) (LoadFloat L x));
       Some (case FirstChildElement e ''transparent'' of
               None \<Rightarrow> SetTransparency 0 m6
             | Some x \<Rightarrow> LoadTransparent K x m6) }"

definition load_effect ::
    "('m, 'q) collada_lib \<Rightarrow> 'c material_lib \<Rightarrow> cursor \<Rightarrow> string \<Rightarrow> cursor \<Rightarrow> 'c Material \<Rightarrow> 'c Material option" where
  "load_effect L K doc folder effectXml m =
     (case FirstChildElement effectXml ''profile_COMMON'' of
        None \<Rightarrow> Some m
      | Some commonXml \<Rightarrow>
          do {
            techniqueXml \<leftarrow> FirstChildElement commonXml ''technique'';
            (case FirstChildElement techniqueXml ''lambert'' of
               Some e \<Rightarrow> load_shading L K doc folder True e m
             | None \<Rightarrow>
                 (case FirstChildElement techniqueXml ''phong'' of
                    Some e \<Rightarrow> load_shading L K doc folder False e m
                  | None \<Rightarrow>
                      (case FirstChildElement techniqueXml ''blinn'' of
                         Some e \<Rightarrow> load_shading L K doc folder False e m
                       | None \<Rightarrow> Some m))) })"

text \<open>The materials of the loader: their objects, the map from names to objects, and the static
  counter of the class.\<close>

record 'c material_store =
  material_objects :: "'c Material list"
  materialIds :: "string \<rightharpoonup> nat"
  material_counter :: "32 word"

definition LoadMaterial ::
    "('m, 'q) collada_lib \<Rightarrow> 'c material_lib \<Rightarrow> cursor \<Rightarrow> string \<Rightarrow> string \<Rightarrow> 'c material_store \<Rightarrow>
     (nat option \<times> 'c material_store) option" where
  "LoadMaterial L K doc folder name ms =
     (case materialIds ms name of
        Some a \<Rightarrow> Some (Some a, ms)
      | None \<Rightarrow>
          (case Option.bind (ElementId doc ''material'' name) (\<lambda>x. FirstChildElement x ''instance_effect'') of
             None \<Rightarrow> Some (None, ms)
           | Some instXml \<Rightarrow>
               (case Material_new (mat_colors K) (material_counter ms) of
                  (m0, counter) \<Rightarrow>
                    do {
                      effectName \<leftarrow> Attribute instXml ''url'';
                      effectXml \<leftarrow> ElementId doc ''effect'' effectName;
                      m \<leftarrow> load_effect L K doc folder effectXml m0;
                      let a = length (material_objects ms);
                      Some (Some a, \<lparr> material_objects = material_objects ms @ [m],
                                      materialIds = (materialIds ms)(name \<mapsto> a), material_counter = counter \<rparr>) })))"

end
