(* ===== verification/Collada_Skeleton.thy ===== *)
theory Collada_Skeleton
  imports Collada_Source Skeleton_Model
begin

section \<open>ColladaLoader: skeletons and animations\<close>

text \<open>
  The part of \<^verbatim>\<open>graphics/src/ColladaLoader.cc\<close> that builds the nodes of a skeleton, merges trees of
  nodes and reads the animations. Nodes live in the heap of \<open>Skeleton_Node\<close>; new ones get the
  addresses from a counter on, and what a new node holds, with the length a new animation has
  before it is set, is a parameter. \<^const>\<open>None\<close> is a null or freed pointer that is followed, an index out of
  range, an exception or a loop that does not end.
\<close>

record 'm bone_lib =
  blank_bone :: "'m SkelNode"
  unset_length :: real

type_synonym 'm bone_store = "'m node_heap \<times> nat"

subsection \<open>Numbers of a stream\<close>

text \<open>The numbers that \<open>>>\<close> reads before it fails, at most \<open>n\<close>; a vector read with it keeps its zeros.\<close>

fun stream_doubles :: "nat \<Rightarrow> string \<Rightarrow> real list" where
  "stream_doubles 0 s = []"
| "stream_doubles (Suc n) s =
     (case scan_number (dropWhile isspace s) of None \<Rightarrow> [] | Some (v, r) \<Rightarrow> v # stream_doubles n r)"

definition read_values :: "nat \<Rightarrow> string \<Rightarrow> real list" where
  "read_values n s = (let xs = stream_doubles n s in xs @ replicate (n - length xs) 0)"

text \<open>Axis and angle; the angle has no value when the axis is incomplete.\<close>

definition read_axis_angle :: "string \<Rightarrow> (Vector3d \<times> real) option" where
  "read_axis_angle s =
     (let xs = stream_doubles 4 s
      in if length xs < 3 then None
         else Some (\<lparr> vX = xs ! 0, vY = xs ! 1, vZ = xs ! 2 \<rparr>, if length xs = 4 then xs ! 3 else 0))"

definition degrees :: "real \<Rightarrow> real" where
  "degrees a = a * pi / 180"

definition matrix_of_text :: "('m, 'q) collada_lib \<Rightarrow> string \<Rightarrow> 'm" where
  "matrix_of_text L s = Set_m (lib_mat L) (read_values 16 s) (Identity_m (lib_mat L))"

definition scale_of_text :: "('m, 'q) collada_lib \<Rightarrow> string \<Rightarrow> 'm" where
  "scale_of_text L s = SetScale_m (lib_mat L) (read_vector L s) (default_m (lib_mat L))"

subsection \<open>The transform of a node\<close>

fun rotate_all :: "('m, 'q) collada_lib \<Rightarrow> cursor list \<Rightarrow> 'm \<Rightarrow> 'm option" where
  "rotate_all L [] T = Some T"
| "rotate_all L (r # rs) T =
     do {
       txt \<leftarrow> GetText r;
       (axis, angle) \<leftarrow> read_axis_angle txt;
       rotate_all L rs (mul_m (lib_mat L) T (of_axis_angle L axis (degrees angle))) }"

definition LoadNodeTransform :: "('m, 'q) collada_lib \<Rightarrow> cursor \<Rightarrow> 'm option" where
  "LoadNodeTransform L elem =
     (case FirstChildElement elem ''matrix'' of
        Some m \<Rightarrow> map_option (matrix_of_text L) (GetText m)
      | None \<Rightarrow>
          do {
            T1 \<leftarrow> (case FirstChildElement elem ''translate'' of
                     None \<Rightarrow> Some (Identity_m (lib_mat L))
                   | Some t \<Rightarrow>
                       map_option (\<lambda>s. SetTranslation_m (lib_mat L) (read_vector L s) (Identity_m (lib_mat L)))
                         (GetText t));
            T2 \<leftarrow> rotate_all L (children_of elem ''rotate'') T1;
            (case FirstChildElement elem ''scale'' of
               None \<Rightarrow> Some T2
             | Some sc \<Rightarrow> map_option (\<lambda>s. mul_m (lib_mat L) T2 (scale_of_text L s)) (GetText sc)) })"

subsection \<open>The transforms of a bone\<close>

definition with_sid :: "cursor \<Rightarrow> 'm NodeTransform \<Rightarrow> 'm NodeTransform" where
  "with_sid c nt = (case Attribute c ''sid'' of None \<Rightarrow> nt | Some s \<Rightarrow> SetSID s nt)"

definition typed :: "NodeTransformType \<Rightarrow> 'm \<Rightarrow> 'm NodeTransform" where
  "typed k T = NodeTransform_SetType k (NodeTransform_of T ''_default_'' MATRIX)"

fun rotate_bone ::
    "('m, 'q) collada_lib \<Rightarrow> nat \<Rightarrow> cursor list \<Rightarrow> 'm \<Rightarrow> 'm node_heap \<Rightarrow> ('m \<times> 'm node_heap) option" where
  "rotate_bone L a [] T h = Some (T, h)"
| "rotate_bone L a (r # rs) T h =
     do {
       txt \<leftarrow> GetText r;
       (axis, angle) \<leftarrow> read_axis_angle txt;
       let R = of_axis_angle L axis (degrees angle);
       h1 \<leftarrow> AddRawTransform a
               (SetSourceValues_a axis angle
                  (NodeTransform_SetType ROTATE (with_sid r (NodeTransform_of R ''_default_'' MATRIX)))) h;
       rotate_bone L a rs (mul_m (lib_mat L) T R) h1 }"

text \<open>The names of the translation and the scale are taken only when there is a \<open>matrix\<close> element, in
  the branch in which there is none.\<close>

definition bone_transform :: "('m, 'q) collada_lib \<Rightarrow> cursor \<Rightarrow> nat \<Rightarrow> 'm node_heap \<Rightarrow> ('m \<times> 'm node_heap) option" where
  "bone_transform L elem a h =
     (case FirstChildElement elem ''matrix'' of
        Some m \<Rightarrow>
          do {
            txt \<leftarrow> GetText m;
            let T = matrix_of_text L txt;
            h1 \<leftarrow> AddRawTransform a
                    (with_sid m (SetSourceValues_m (lib_mat L) T (NodeTransform_of T ''_default_'' MATRIX))) h;
            Some (T, h1) }
      | None \<Rightarrow>
          do {
            (T1, h1) \<leftarrow> (case FirstChildElement elem ''translate'' of
                None \<Rightarrow> Some (Identity_m (lib_mat L), h)
              | Some t \<Rightarrow>
                  do {
                    txt \<leftarrow> GetText t;
                    let v = read_vector L txt;
                    let T = SetTranslation_m (lib_mat L) v (Identity_m (lib_mat L));
                    h1 \<leftarrow> AddRawTransform a (SetSourceValues_v v (typed TRANSLATE T)) h;
                    Some (T, h1) });
            (T2, h2) \<leftarrow> rotate_bone L a (children_of elem ''rotate'') T1 h1;
            (case FirstChildElement elem ''scale'' of
               None \<Rightarrow> Some (T2, h2)
             | Some sc \<Rightarrow>
                 do {
                   txt \<leftarrow> GetText sc;
                   let S = scale_of_text L txt;
                   h3 \<leftarrow> AddRawTransform a (SetSourceValues_v (read_vector L txt) (typed SCALE S)) h2;
                   Some (mul_m (lib_mat L) T2 S, h3) }) })"

definition SetSkeletonNodeTransform ::
    "('m, 'q) collada_lib \<Rightarrow> cursor \<Rightarrow> nat option \<Rightarrow> 'm node_heap \<Rightarrow> 'm node_heap option" where
  "SetSkeletonNodeTransform L elem node h =
     (case node of
        None \<Rightarrow> Some h
      | Some a \<Rightarrow> do { (T, h1) \<leftarrow> bone_transform L elem a h; SetTransform (lib_mat L) a T True h1 })"

subsection \<open>Building the nodes\<close>

definition LoadSingleSkeletonNode ::
    "'m bone_lib \<Rightarrow> cursor \<Rightarrow> nat option \<Rightarrow> 'm bone_store \<Rightarrow> (nat option \<times> 'm bone_store) option" where
  "LoadSingleSkeletonNode B xml p st =
     (case (case Attribute xml ''sid'' of Some s \<Rightarrow> Some s
            | None \<Rightarrow> (case Attribute xml ''name'' of Some s \<Rightarrow> Some s | None \<Rightarrow> Attribute xml ''id'')) of
        None \<Rightarrow> Some (None, st)
      | Some nm \<Rightarrow>
          (case st of
             (h, a) \<Rightarrow>
               do {
                 i \<leftarrow> Attribute xml ''id'';
                 h1 \<leftarrow> SkeletonNode_named (blank_bone B) a p nm i JOINT h;
                 h2 \<leftarrow> (if Attribute xml ''type'' = None \<or> Attribute xml ''type'' = Some ''NODE''
                         then SetType a NODE h1 else Some h1);
                 Some (Some a, (h2, a + 1)) }))"

fun load_bones ::
    "('m, 'q) collada_lib \<Rightarrow> 'm bone_lib \<Rightarrow> element list \<Rightarrow> element \<Rightarrow> nat option \<Rightarrow> 'm bone_store \<Rightarrow>
     (nat option \<times> 'm bone_store) option"
  and load_child_bones ::
    "('m, 'q) collada_lib \<Rightarrow> 'm bone_lib \<Rightarrow> element list \<Rightarrow> element list \<Rightarrow> nat option \<Rightarrow> 'm bone_store \<Rightarrow>
     'm bone_store option" where
  "load_bones L B anc (Element t ats x ks) p st =
     (if t \<noteq> ''node'' then Some (None, st)
      else do {
        (node, st1) \<leftarrow> LoadSingleSkeletonNode B (Element t ats x ks, anc) p st;
        h2 \<leftarrow> SetSkeletonNodeTransform L (Element t ats x ks, anc) node (fst st1);
        st3 \<leftarrow> load_child_bones L B (Element t ats x ks # anc) ks node (h2, snd st1);
        Some (node, st3) })"
| "load_child_bones L B anc [] p st = Some st"
| "load_child_bones L B anc (k # ks) p st =
     do {
       st1 \<leftarrow> (if tag k = ''node'' then map_option snd (load_bones L B anc k p st) else Some st);
       load_child_bones L B anc ks p st1 }"

definition LoadSkeletonNodes ::
    "('m, 'q) collada_lib \<Rightarrow> 'm bone_lib \<Rightarrow> cursor option \<Rightarrow> nat option \<Rightarrow> 'm bone_store \<Rightarrow>
     (nat option \<times> 'm bone_store) option" where
  "LoadSkeletonNodes L B xml p st =
     (case xml of None \<Rightarrow> Some (None, st) | Some (e, anc) \<Rightarrow> load_bones L B anc e p st)"

subsection \<open>Merging trees\<close>

text \<open>\<open>delete_children\<close>: the nodes below are deleted bottom up. The list is what is left to do.\<close>

datatype delete_task = Below "nat option" | Free "nat option"

partial_function (option) delete_children :: "delete_task list \<Rightarrow> 'm node_heap \<Rightarrow> 'm node_heap option" where
  "delete_children tasks h =
     (case tasks of
        [] \<Rightarrow> Some h
      | Below None # rest \<Rightarrow> None
      | Below (Some a) # rest \<Rightarrow>
          (case h a of
             None \<Rightarrow> None
           | Some n \<Rightarrow> delete_children (concat (map (\<lambda>c. [Below c, Free c]) (children n)) @ rest) h)
      | Free None # rest \<Rightarrow> delete_children rest h
      | Free (Some a) # rest \<Rightarrow> if h a = None then None else delete_children rest (h(a := None)))"

definition delete_bone :: "nat \<Rightarrow> 'm node_heap \<Rightarrow> 'm node_heap option" where
  "delete_bone a h = (if h a = None then None else Some (h(a := None)))"

text \<open>Whether a child of the merged node has the id of each child of the root.\<close>

fun contains_all :: "nat \<Rightarrow> nat option list \<Rightarrow> 'm node_heap \<Rightarrow> bool option" where
  "contains_all m [] h = Some True"
| "contains_all m (c # cs) h =
     do {
       a \<leftarrow> c;
       i \<leftarrow> NodeId a h;
       found \<leftarrow> ChildById m i h;
       if found = None then Some False else contains_all m cs h }"

definition join_under ::
    "('m, 'q) collada_lib \<Rightarrow> nat \<Rightarrow> nat \<Rightarrow> nat \<Rightarrow> 'm Skeleton \<Rightarrow> 'm node_heap \<Rightarrow> ('m Skeleton \<times> 'm node_heap) option" where
  "join_under L dummy r m sk h =
     do {
       h1 \<leftarrow> (if dummy \<noteq> r then do { h0 \<leftarrow> AddChild dummy (Some r) h; SetParent r (Some dummy) h0 } else Some h);
       h2 \<leftarrow> AddChild dummy (Some m) h1;
       h3 \<leftarrow> SetParent m (Some dummy) h2;
       h4 \<leftarrow> SetTransform (lib_mat L) dummy (Identity_m (lib_mat L)) True h3;
       RootNode (Some dummy) sk h4 }"

definition MergeSkeleton ::
    "('m, 'q) collada_lib \<Rightarrow> 'm bone_lib \<Rightarrow> nat option \<Rightarrow> 'm Skeleton \<Rightarrow> 'm bone_store \<Rightarrow>
     ('m Skeleton \<times> 'm bone_store) option" where
  "MergeSkeleton L B mergeNode sk st =
     (case (mergeNode, st) of
        (None, _) \<Rightarrow> Some (sk, st)
      | (Some m, (h, next)) \<Rightarrow>
          do {
            mid \<leftarrow> NodeId m h;
            known \<leftarrow> NodeById mid sk h;
            (case (known, GetRootNode sk) of
               (Some _, _) \<Rightarrow> Some (sk, st)
             | (None, None) \<Rightarrow> Some (sk, st)
             | (None, Some r) \<Rightarrow>
                 do {
                   rid \<leftarrow> NodeId r h;
                   (if rid = mid then Some (sk, st)
                    else do {
                      inMerge \<leftarrow> ChildById m rid h;
                      (case inMerge of
                         Some c \<Rightarrow>
                           do {
                             h1 \<leftarrow> (if c \<noteq> r then delete_bone r h else Some h);
                             (sk', h2) \<leftarrow> RootNode (Some m) sk h1;
                             Some (sk', (h2, next)) }
                       | None \<Rightarrow>
                           if rid = ''dummy-root'' then
                             do {
                               rn \<leftarrow> h r;
                               all \<leftarrow> contains_all m (children rn) h;
                               (if all then
                                  do {
                                    (sk', h1) \<leftarrow> RootNode (Some m) sk h;
                                    h2 \<leftarrow> delete_children [Below (Some r), Free (Some r)] h1;
                                    Some (sk', (h2, next)) }
                                else do { (sk', h1) \<leftarrow> join_under L r r m sk h; Some (sk', (h1, next)) }) }
                           else
                             do {
                               h1 \<leftarrow> SkeletonNode_named (blank_bone B) next None ''dummy-root'' ''dummy-root'' JOINT h;
                               (sk', h2) \<leftarrow> join_under L next r m sk h1;
                               Some (sk', (h2, next + 1)) }) }) }) })"

subsection \<open>Inverse bind transforms\<close>

partial_function (option) inv_bind_loop ::
    "('m, 'q) gz_mat \<Rightarrow> nat option list \<Rightarrow> 'm node_heap \<Rightarrow> 'm node_heap option" where
  "inv_bind_loop M queue h =
     (case queue of
        [] \<Rightarrow> Some h
      | None # rest \<Rightarrow> inv_bind_loop M rest h
      | Some a # rest \<Rightarrow>
          do {
            has \<leftarrow> HasInvBindTransform M a h;
            i \<leftarrow> InverseBindTransform a h;
            h' \<leftarrow> (if has then SetModelTransform M a (Inverse_m M i) False h else Some h);
            n \<leftarrow> h' a;
            inv_bind_loop M (rest @ children n) h' })"

definition ApplyInvBindTransform :: "('m, 'q) collada_lib \<Rightarrow> 'm Skeleton \<Rightarrow> 'm node_heap \<Rightarrow> 'm node_heap option" where
  "ApplyInvBindTransform L sk h = inv_bind_loop (lib_mat L) [GetRootNode sk] h"

end
