(* ===== verification/Collada_Animation.thy ===== *)
theory Collada_Animation
  imports Collada_Skeleton
begin

section \<open>ColladaLoader: animations\<close>

text \<open>
  \<open>LoadAnimations\<close> and \<open>LoadAnimationSet\<close> of \<^verbatim>\<open>graphics/src/ColladaLoader.cc\<close>. A channel
  animates one transform of one bone, or one component of it: the values at the times of a sampler
  overwrite the source values of the bone's own transforms. \<open>std::map\<close> is the ordered map of
  \<open>Std_Map\<close>.
\<close>

type_synonym 'm raw_node_anim = "(real, 'm NodeTransform list) omap"
type_synonym 'm raw_skeleton_anim = "(string, 'm raw_node_anim) omap"

subsection \<open>The target of a channel\<close>

record channel_target =
  targetBone :: string
  targetTrans :: string
  idx1 :: int
  idx2 :: int

definition target_sep :: "string \<Rightarrow> char option" where
  "target_sep t =
     (if str_find_char t CHR ''('' 0 \<noteq> None then Some CHR ''(''
      else if str_find_char t CHR ''.'' 0 \<noteq> None then Some CHR ''.''
      else None)"

text \<open>Positions are \<open>size_t\<close>: the length \<open>find(sep) - find('/') - 1\<close> wraps to one that takes the
  rest when the slash is behind the separator, and is \<open>find(sep)\<close> when there is none.\<close>

definition target_transform :: "string \<Rightarrow> string" where
  "target_transform t =
     (let slash = str_find_char t CHR ''/'' 0;
          start = (case slash of None \<Rightarrow> 0 | Some i \<Rightarrow> i + 1)
      in case target_sep t of
           None \<Rightarrow> sub t start None
         | Some c \<Rightarrow>
             (case str_find_char t c 0 of
                None \<Rightarrow> sub t start None
              | Some p \<Rightarrow>
                  (case slash of
                     None \<Rightarrow> sub t start (Some p)
                   | Some i \<Rightarrow> if i < p then sub t start (Some (p - i - 1)) else sub t start None)))"

definition component_of :: "string \<Rightarrow> int" where
  "component_of s =
     (if s = ''X'' then 0 else if s = ''Y'' then 1 else if s = ''Z'' then 2 else if s = ''ANGLE'' then 3 else - 1)"

definition parse_target :: "('m, 'q) collada_lib \<Rightarrow> string \<Rightarrow> channel_target" where
  "parse_target L t =
     (let bone = (case str_find_char t CHR ''/'' 0 of None \<Rightarrow> t | Some i \<Rightarrow> take i t);
          rest = (\<lambda>c. case str_find_char t c 0 of None \<Rightarrow> t | Some p \<Rightarrow> drop (p + 1) t)
      in case target_sep t of
           None \<Rightarrow> \<lparr> targetBone = bone, targetTrans = target_transform t, idx1 = - 1, idx2 = - 1 \<rparr>
         | Some c \<Rightarrow>
             if c = CHR ''.''
             then \<lparr> targetBone = bone, targetTrans = target_transform t, idx1 = component_of (rest c), idx2 = - 1 \<rparr>
             else \<lparr> targetBone = bone, targetTrans = target_transform t, idx1 = parse_int L (take 1 (rest c)),
                    idx2 = (if length (rest c) > 4 then parse_int L (take 1 (drop 3 (rest c))) else - 1) \<rparr>)"

subsection \<open>The sampler of a channel\<close>

text \<open>The last input of each semantic counts.\<close>

fun sampler_inputs ::
    "cursor \<Rightarrow> cursor list \<Rightarrow> cursor option \<Rightarrow> cursor option \<Rightarrow> (cursor option \<times> cursor option) option" where
  "sampler_inputs doc [] tXml vXml = Some (tXml, vXml)"
| "sampler_inputs doc (i # is) tXml vXml =
     do {
       semantic \<leftarrow> Attribute i ''semantic'';
       (if semantic = ''INPUT''
        then do { s \<leftarrow> Attribute i ''source''; sampler_inputs doc is (ElementId doc ''source'' s) vXml }
        else if semantic = ''OUTPUT''
        then do { s \<leftarrow> Attribute i ''source''; sampler_inputs doc is tXml (ElementId doc ''source'' s) }
        else sampler_inputs doc is tXml vXml) }"

definition float_words :: "('m, 'q) collada_lib \<Rightarrow> cursor \<Rightarrow> real list option" where
  "float_words L c =
     do {
       arr \<leftarrow> FirstChildElement c ''float_array'';
       txt \<leftarrow> GetText arr;
       Some (map (parse_float L) (split txt ([CHR '' ''] @ [CHR 0x09, CHR 0x0D, CHR 0x0A]))) }"

record channel_data =
  channel_times :: "real list"
  channel_values :: "real list"
  value_stride :: nat

definition read_channel :: "('m, 'q) collada_lib \<Rightarrow> cursor \<Rightarrow> string \<Rightarrow> channel_data option" where
  "read_channel L doc sourceURL =
     do {
       sampXml \<leftarrow> ElementId doc ''sampler'' sourceURL;
       (timesXml, transXml) \<leftarrow> sampler_inputs doc (children_of sampXml ''input'') None None;
       frameTimesXml \<leftarrow> timesXml;
       ts \<leftarrow> float_words L frameTimesXml;
       frameTransXml \<leftarrow> transXml;
       vs \<leftarrow> float_words L frameTransXml;
       technique \<leftarrow> FirstChildElement frameTransXml ''technique_common'';
       accessor \<leftarrow> FirstChildElement technique ''accessor'';
       Some \<lparr> channel_times = ts, channel_values = vs,
              value_stride = (case Attribute accessor ''stride'' of
                                None \<Rightarrow> 1 | Some s \<Rightarrow> unat (word_of_int (parse_int L s) :: 32 word)) \<rparr> }"

subsection \<open>Key frames\<close>

fun set_components :: "real list \<Rightarrow> nat \<Rightarrow> nat list \<Rightarrow> 'm NodeTransform \<Rightarrow> 'm NodeTransform option" where
  "set_components vs base [] nt = Some nt"
| "set_components vs base (k # ks) nt =
     do { v \<leftarrow> elem_at vs (base + k); nt1 \<leftarrow> SetComponent k v nt; set_components vs base ks nt1 }"

definition update_transform ::
    "channel_target \<Rightarrow> channel_data \<Rightarrow> nat \<Rightarrow> 'm NodeTransform \<Rightarrow> 'm NodeTransform option" where
  "update_transform tgt ch i nt =
     (if SID nt \<noteq> targetTrans tgt then Some nt
      else if idx1 tgt \<noteq> - 1 then do {
        v \<leftarrow> elem_at (channel_values ch) i;
        let k = (if idx2 tgt = - 1 then idx1 tgt else idx1 tgt * 4 + idx2 tgt);
        SetComponent (unat (word_of_int k :: 32 word)) v nt }
      else set_components (channel_values ch) (i * value_stride ch) [0..<value_stride ch] nt)"

fun update_frame ::
    "channel_target \<Rightarrow> channel_data \<Rightarrow> nat \<Rightarrow> 'm NodeTransform list \<Rightarrow> 'm NodeTransform list option" where
  "update_frame tgt ch i [] = Some []"
| "update_frame tgt ch i (nt # nts) =
     do { nt1 \<leftarrow> update_transform tgt ch i nt; nts1 \<leftarrow> update_frame tgt ch i nts; Some (nt1 # nts1) }"

text \<open>The frame at one time starts with the bone's transforms.\<close>

definition channel_frame ::
    "channel_target \<Rightarrow> channel_data \<Rightarrow> string \<Rightarrow> 'm Skeleton \<Rightarrow> 'm node_heap \<Rightarrow> nat \<Rightarrow> 'm raw_skeleton_anim \<Rightarrow>
     'm raw_skeleton_anim option" where
  "channel_frame tgt ch bone sk h i anim =
     do {
       t \<leftarrow> elem_at (channel_times ch) i;
       let frames = (case map_of anim bone of None \<Rightarrow> [] | Some f \<Rightarrow> f);
       frame \<leftarrow> (case map_of frames t of
           Some f \<Rightarrow> Some f
         | None \<Rightarrow> do { a \<leftarrow> NodeById (targetBone tgt) sk h;
                        (case a of None \<Rightarrow> Some [] | Some a \<Rightarrow> Transforms a h) });
       frame1 \<leftarrow> update_frame tgt ch i frame;
       Some (mput bone (mput t frame1 frames) anim) }"

fun channel_frames ::
    "channel_target \<Rightarrow> channel_data \<Rightarrow> string \<Rightarrow> 'm Skeleton \<Rightarrow> 'm node_heap \<Rightarrow> nat list \<Rightarrow> 'm raw_skeleton_anim \<Rightarrow>
     'm raw_skeleton_anim option" where
  "channel_frames tgt ch bone sk h [] anim = Some anim"
| "channel_frames tgt ch bone sk h (i # is) anim =
     do { anim1 \<leftarrow> channel_frame tgt ch bone sk h i anim; channel_frames tgt ch bone sk h is anim1 }"

subsection \<open>Channels\<close>

type_synonym 'm anim_state = "'m raw_skeleton_anim \<times> 'm Skeleton \<times> 'm bone_store"

definition target_node ::
    "('m, 'q) collada_lib \<Rightarrow> 'm bone_lib \<Rightarrow> cursor \<Rightarrow> string \<Rightarrow> 'm Skeleton \<Rightarrow> 'm bone_store \<Rightarrow>
     (nat option \<times> 'm Skeleton \<times> 'm bone_store) option" where
  "target_node L B doc bone sk st =
     do {
       known \<leftarrow> NodeById bone sk (fst st);
       (case known of
          Some a \<Rightarrow> Some (Some a, sk, st)
        | None \<Rightarrow>
            (case ElementId doc ''node'' bone of
               None \<Rightarrow> Some (None, sk, st)
             | Some xml \<Rightarrow>
                 do {
                   (node, st1) \<leftarrow> LoadSkeletonNodes L B (Some xml) None st;
                   (sk2, st2) \<leftarrow> MergeSkeleton L B node sk st1;
                   Some (node, sk2, st2) })) }"

text \<open>For a bone that is not found the loop goes on with the same channel.\<close>

partial_function (option) channels_loop ::
    "('m, 'q) collada_lib \<Rightarrow> 'm bone_lib \<Rightarrow> cursor \<Rightarrow> cursor list \<Rightarrow> 'm anim_state \<Rightarrow> 'm anim_state option" where
  "channels_loop L B doc chans as =
     (case chans of
        [] \<Rightarrow> Some as
      | chan # rest \<Rightarrow>
          (case as of
             (anim, sk, st) \<Rightarrow>
               do {
                 sourceURL \<leftarrow> Attribute chan ''source'';
                 targetStr \<leftarrow> Attribute chan ''target'';
                 ch \<leftarrow> read_channel L doc sourceURL;
                 (node, sk1, st1) \<leftarrow> target_node L B doc (targetBone (parse_target L targetStr)) sk st;
                 (case node of
                    None \<Rightarrow> channels_loop L B doc (chan # rest) (anim, sk1, st1)
                  | Some a \<Rightarrow>
                      do {
                        bone \<leftarrow> NodeName a (fst st1);
                        anim1 \<leftarrow> channel_frames (parse_target L targetStr) ch bone sk1 (fst st1)
                                   [0..<length (channel_times ch)] anim;
                        channels_loop L B doc rest (anim1, sk1, st1) }) }))"

fun animations_loop ::
    "('m, 'q) collada_lib \<Rightarrow> 'm bone_lib \<Rightarrow> cursor \<Rightarrow> cursor list \<Rightarrow> 'm anim_state \<Rightarrow> 'm anim_state option" where
  "animations_loop L B doc [] as = Some as"
| "animations_loop L B doc (a # rest) as =
     do { as1 \<leftarrow> channels_loop L B doc (children_of a ''channel'') as; animations_loop L B doc rest as1 }"

subsection \<open>The animation that is added\<close>

fun frame_matrix :: "('m, 'q) gz_mat \<Rightarrow> 'm NodeTransform list \<Rightarrow> 'm \<Rightarrow> 'm option" where
  "frame_matrix M [] T = Some T"
| "frame_matrix M (nt # nts) T =
     do { nt1 \<leftarrow> RecalculateMatrix M nt; frame_matrix M nts (mul_m M T (NodeTransform_call nt1)) }"

fun add_node_frames ::
    "('m, 'q) gz_mat \<Rightarrow> string \<Rightarrow> 'm raw_node_anim \<Rightarrow> 'm SkeletonAnimation \<Rightarrow> 'm SkeletonAnimation option" where
  "add_node_frames M bone [] a = Some a"
| "add_node_frames M bone ((t, f) # fs) a =
     do { m \<leftarrow> frame_matrix M f (Identity_m M); add_node_frames M bone fs (SA_AddKeyFrame bone t m a) }"

fun add_frames ::
    "('m, 'q) gz_mat \<Rightarrow> 'm raw_skeleton_anim \<Rightarrow> 'm SkeletonAnimation \<Rightarrow> 'm SkeletonAnimation option" where
  "add_frames M [] a = Some a"
| "add_frames M ((bone, fs) # rest) a = do { a1 \<leftarrow> add_node_frames M bone fs a; add_frames M rest a1 }"

definition animation_name :: "cursor \<Rightarrow> 'm Skeleton \<Rightarrow> string" where
  "animation_name xml sk =
     (case Attribute xml ''name'' of
        Some n \<Rightarrow> n
      | None \<Rightarrow>
          (case Attribute xml ''id'' of
             Some i \<Rightarrow> i | None \<Rightarrow> ''animation'' @ show_nat (unat (AnimationCount sk + 1))))"

definition LoadAnimationSet ::
    "('m, 'q) collada_lib \<Rightarrow> 'm bone_lib \<Rightarrow> cursor \<Rightarrow> cursor \<Rightarrow> 'm Skeleton \<Rightarrow> 'm bone_store \<Rightarrow>
     ('m Skeleton \<times> 'm bone_store) option" where
  "LoadAnimationSet L B doc xml sk st =
     do {
       (anim, sk1, st1) \<leftarrow> animations_loop L B doc (children_of xml ''animation'') ([], sk, st);
       a \<leftarrow> add_frames (lib_mat L) anim (SkeletonAnimation_new (unset_length B) (animation_name xml sk));
       Some (AddAnimation a sk1, st1) }"

fun animation_sets ::
    "('m, 'q) collada_lib \<Rightarrow> 'm bone_lib \<Rightarrow> cursor \<Rightarrow> cursor list \<Rightarrow> 'm Skeleton \<Rightarrow> 'm bone_store \<Rightarrow>
     ('m Skeleton \<times> 'm bone_store) option" where
  "animation_sets L B doc [] sk st = Some (sk, st)"
| "animation_sets L B doc (x # xs) sk st =
     do { (sk1, st1) \<leftarrow> LoadAnimationSet L B doc x sk st; animation_sets L B doc xs sk1 st1 }"

definition LoadAnimations ::
    "('m, 'q) collada_lib \<Rightarrow> 'm bone_lib \<Rightarrow> cursor \<Rightarrow> cursor \<Rightarrow> 'm Skeleton \<Rightarrow> 'm bone_store \<Rightarrow>
     ('m Skeleton \<times> 'm bone_store) option" where
  "LoadAnimations L B doc xml sk st =
     do {
       childXml \<leftarrow> FirstChildElement xml ''animation'';
       (if FirstChildElement childXml ''animation'' \<noteq> None
        then animation_sets L B doc (children_of xml ''animation'') sk st
        else LoadAnimationSet L B doc xml sk st) }"

end
