(* ===== verification/Collada_Loader.thy ===== *)
theory Collada_Loader
  imports Collada_Mesh Collada_Material Collada_Animation
begin

section \<open>ColladaLoader: geometries, controllers, nodes and files\<close>

text \<open>
  The rest of \<^verbatim>\<open>graphics/src/ColladaLoader.cc\<close>: the object of the loader with the mesh it
  fills, and the walk from a file over its scene, its nodes and their geometries and controllers to
  the sub-meshes. The skeleton of the mesh is beside the mesh, since the mesh holds a pointer.
  Nodes may instance each other in a cycle; the walk over them then does not end.
\<close>

record ('m, 'q, 'c) collada_env =
  ce_lib :: "('m, 'q) collada_lib"
  ce_mat :: "'c material_lib"
  ce_bone :: "'m bone_lib"
  ce_doc :: cursor
  ce_root :: cursor

record ('m, 'c) collada =
  meter :: real
  dae_filename :: string
  dae_folder :: string
  materialMap :: "string \<rightharpoonup> string"
  currentNodeName :: string
  dae_sources :: source_cache
  dae_materials :: "'c material_store"
  dae_mesh :: Mesh
  dae_skeleton :: "'m Skeleton option"
  dae_bones :: "'m bone_store"
  nodeCounter :: int
  currentScene :: "cursor option"

fun for_each :: "('a \<Rightarrow> 's \<Rightarrow> 's option) \<Rightarrow> 'a list \<Rightarrow> 's \<Rightarrow> 's option" where
  "for_each f [] st = Some st"
| "for_each f (x # xs) st = do { st1 \<leftarrow> f x st; for_each f xs st1 }"

subsection \<open>Geometries\<close>

definition primitive_material ::
    "('m, 'q, 'c) collada_env \<Rightarrow> cursor \<Rightarrow> SubMesh \<Rightarrow> ('m, 'c) collada \<Rightarrow> (SubMesh \<times> ('m, 'c) collada) option" where
  "primitive_material E xml s st =
     (case Attribute xml ''material'' of
        None \<Rightarrow> Some (s, st)
      | Some symbol \<Rightarrow>
          do {
            let matStr = (case materialMap st symbol of None \<Rightarrow> symbol | Some t \<Rightarrow> t);
            (mat, ms) \<leftarrow> LoadMaterial (ce_lib E) (ce_mat E) (ce_doc E) (dae_folder st) matStr (dae_materials st);
            let known = IndexOfMaterial mat (dae_mesh st);
            let (idx, mesh) = (if known < 0 then AddMaterial mat (dae_mesh st) else (known, dae_mesh st));
            Some (if idx < 0 then s else SetMaterialIndex (word_of_int idx) s,
                  st \<lparr> dae_materials := ms, dae_mesh := mesh \<rparr>) })"

definition bone_context :: "('m, 'c) collada \<Rightarrow> ('m Skeleton \<times> 'm node_heap) option" where
  "bone_context st =
     (if HasSkeleton (dae_mesh st) then map_option (\<lambda>sk. (sk, fst (dae_bones st))) (dae_skeleton st) else None)"

definition new_primitive :: "PrimitiveType \<Rightarrow> ('m, 'c) collada \<Rightarrow> SubMesh" where
  "new_primitive t st = SetPrimitiveType t (SetName (currentNodeName st) SubMesh_default)"

definition finish_submesh :: "SubMesh \<Rightarrow> ('m, 'c) collada \<Rightarrow> ('m, 'c) collada" where
  "finish_submesh s st = st \<lparr> dae_mesh := snd (AddSubMesh s (dae_mesh st)) \<rparr>"

definition text_of_child :: "cursor \<Rightarrow> string \<Rightarrow> string option" where
  "text_of_child xml n = do { c \<leftarrow> FirstChildElement xml n; GetText c }"

definition LoadTriangles ::
    "('m, 'q, 'c) collada_env \<Rightarrow> 'm \<Rightarrow> cursor \<Rightarrow> ('m, 'c) collada \<Rightarrow> ('m, 'c) collada option" where
  "LoadTriangles E T xml st =
     do {
       (s, st1) \<leftarrow> primitive_material E xml (new_primitive TRIANGLES st) st;
       (lay, cache) \<leftarrow> read_inputs (ce_lib E) (ce_doc E) T (children_of xml ''input'') no_inputs (dae_sources st1);
       let st2 = st1 \<lparr> dae_sources := cache \<rparr>;
       (case text_of_child xml ''p'' of
          None \<Rightarrow> Some st2
        | Some pStr \<Rightarrow>
            do {
              (s1, m) \<leftarrow> corners_loop (ce_lib E) (bone_context st2) lay (parseUints pStr) 0 (s, Map.empty);
              Some (finish_submesh s1 st2) }) }"

definition LoadPolylist ::
    "('m, 'q, 'c) collada_env \<Rightarrow> 'm \<Rightarrow> cursor \<Rightarrow> ('m, 'c) collada \<Rightarrow> ('m, 'c) collada option" where
  "LoadPolylist E T xml st =
     do {
       (s, st1) \<leftarrow> primitive_material E xml (new_primitive TRIANGLES st) st;
       (lay, cache) \<leftarrow> read_inputs (ce_lib E) (ce_doc E) T (children_of xml ''input'') no_inputs (dae_sources st1);
       let st2 = st1 \<lparr> dae_sources := cache \<rparr>;
       (case text_of_child xml ''vcount'' of
          None \<Rightarrow> Some st2
        | Some vcountStr \<Rightarrow>
            (case text_of_child xml ''p'' of
               None \<Rightarrow> Some st2
             | Some pStr \<Rightarrow>
                 do {
                   (s1, m) \<leftarrow> polygons_loop (ce_lib E) (bone_context st2) lay (parseUints pStr) (parseUints vcountStr) 0
                                (s, Map.empty);
                   Some (finish_submesh s1 st2) })) }"

definition LoadLines ::
    "('m, 'q, 'c) collada_env \<Rightarrow> 'm \<Rightarrow> cursor \<Rightarrow> ('m, 'c) collada \<Rightarrow> ('m, 'c) collada option" where
  "LoadLines E T xml st =
     do {
       inputXml \<leftarrow> FirstChildElement xml ''input'';
       source \<leftarrow> Attribute inputXml ''source'';
       (vd, cache) \<leftarrow> LoadVertices (ce_lib E) (ce_doc E) source T no_vertices (dae_sources st);
       pStr \<leftarrow> text_of_child xml ''p'';
       s \<leftarrow> lines_loop (vd_verts vd) pStr (new_primitive LINES st);
       Some (finish_submesh s (st \<lparr> dae_sources := cache \<rparr>)) }"

definition LoadGeometry ::
    "('m, 'q, 'c) collada_env \<Rightarrow> cursor \<Rightarrow> 'm \<Rightarrow> ('m, 'c) collada \<Rightarrow> ('m, 'c) collada option" where
  "LoadGeometry E xml T st =
     (case FirstChildElement xml ''mesh'' of
        None \<Rightarrow> Some st
      | Some meshXml \<Rightarrow>
          do {
            st1 \<leftarrow> for_each (LoadTriangles E T) (children_of meshXml ''triangles'') st;
            st2 \<leftarrow> for_each (LoadPolylist E T) (children_of meshXml ''polylist'') st1;
            for_each (LoadLines E T) (children_of meshXml ''lines'') st2 })"

subsection \<open>Controllers\<close>

definition blanks :: string where
  "blanks = [CHR '' '', CHR 0x09, CHR 0x0D, CHR 0x0A]"

text \<open>The sources of the joints and of their matrices; empty when an input is missing.\<close>

fun joint_inputs :: "cursor list \<Rightarrow> string \<times> string \<Rightarrow> (string \<times> string) option" where
  "joint_inputs [] urls = Some urls"
| "joint_inputs (i # is) urls =
     do {
       semantic \<leftarrow> Attribute i ''semantic'';
       source \<leftarrow> Attribute i ''source'';
       joint_inputs is
         (if semantic = ''JOINT'' then (source, snd urls)
          else if semantic = ''INV_BIND_MATRIX'' then (fst urls, source) else urls) }"

definition add_root ::
    "('m, 'q, 'c) collada_env \<Rightarrow> cursor option \<Rightarrow> ('m, 'c) collada \<Rightarrow> ('m, 'c) collada option" where
  "add_root E xml st =
     do {
       (node, bones) \<leftarrow> LoadSkeletonNodes (ce_lib E) (ce_bone E) xml None (dae_bones st);
       (case dae_skeleton st of
          None \<Rightarrow>
            do {
              (sk, h) \<leftarrow> Skeleton_of (lib_mat (ce_lib E)) node (fst bones);
              Some (st \<lparr> dae_skeleton := Some sk, dae_bones := (h, snd bones),
                         dae_mesh := SetSkeleton (Some 0) (dae_mesh st) \<rparr>) }
        | Some sk \<Rightarrow>
            do {
              (sk1, bones1) \<leftarrow> MergeSkeleton (ce_lib E) (ce_bone E) node sk bones;
              Some (st \<lparr> dae_skeleton := Some sk1, dae_bones := bones1 \<rparr>) }) }"

definition bind_matrix :: "('m, 'q) collada_lib \<Rightarrow> string list \<Rightarrow> nat \<Rightarrow> 'm option" where
  "bind_matrix L strs i =
     (if i * 16 + 16 \<le> length strs
      then Some (Set_m (lib_mat L) (map (parse_float L) (take 16 (drop (i * 16) strs))) (default_m (lib_mat L)))
      else None)"

fun bind_joints ::
    "('m, 'q) collada_lib \<Rightarrow> 'm Skeleton \<Rightarrow> string list \<Rightarrow> nat \<Rightarrow> string list \<Rightarrow> 'm node_heap \<Rightarrow> 'm node_heap option" where
  "bind_joints L sk strs i [] h = Some h"
| "bind_joints L sk strs i (j # js) h =
     do {
       node \<leftarrow> NodeByName j sk h;
       h1 \<leftarrow> (case node of
                None \<Rightarrow> Some h
              | Some a \<Rightarrow> do { m \<leftarrow> bind_matrix L strs i; SetInverseBindTransform a m h });
       bind_joints L sk strs (i + 1) js h1 }"

record weight_inputs =
  jOffset :: "32 word"
  wOffset :: "32 word"
  weightsURL :: string

fun read_weight_inputs :: "cursor list \<Rightarrow> weight_inputs \<Rightarrow> weight_inputs option" where
  "read_weight_inputs [] w = Some w"
| "read_weight_inputs (i # is) w =
     do {
       semantic \<leftarrow> Attribute i ''semantic'';
       source \<leftarrow> Attribute i ''source'';
       txt \<leftarrow> Attribute i ''offset'';
       offset \<leftarrow> stoi txt;
       read_weight_inputs is
         (if semantic = ''JOINT'' then w \<lparr> jOffset := word_of_int offset \<rparr>
          else if semantic = ''WEIGHT'' then w \<lparr> weightsURL := source, wOffset := word_of_int offset \<rparr>
          else w) }"

text \<open>The weights of one vertex after the other; \<open>k\<close> is \<open>vIndex\<close>.\<close>

fun vertex_weights ::
    "weight_inputs \<Rightarrow> string list \<Rightarrow> real list \<Rightarrow> nat list \<Rightarrow> 32 word \<Rightarrow> nat \<Rightarrow> 32 word \<Rightarrow> 'm Skeleton \<Rightarrow>
     (32 word \<times> 'm Skeleton) option" where
  "vertex_weights w joints weights v vertex 0 k sk = Some (k, sk)"
| "vertex_weights w joints weights v vertex (Suc n) k sk =
     do {
       j \<leftarrow> elem_at v (unat (k + jOffset w));
       joint \<leftarrow> elem_at joints j;
       i \<leftarrow> elem_at v (unat (k + wOffset w));
       wt \<leftarrow> elem_at weights i;
       vertex_weights w joints weights v vertex n (k + (jOffset w + wOffset w + 1)) (AddVertNodeWeight vertex joint wt sk) }"

fun all_weights ::
    "weight_inputs \<Rightarrow> string list \<Rightarrow> real list \<Rightarrow> nat list \<Rightarrow> nat \<Rightarrow> nat list \<Rightarrow> 32 word \<Rightarrow> 'm Skeleton \<Rightarrow> 'm Skeleton option" where
  "all_weights w joints weights v i [] k sk = Some sk"
| "all_weights w joints weights v i (c # cs) k sk =
     do {
       (k1, sk1) \<leftarrow> vertex_weights w joints weights v (word_of_nat i) c k sk;
       all_weights w joints weights v (i + 1) cs k1 sk1 }"

definition uint_words :: "('m, 'q) collada_lib \<Rightarrow> string \<Rightarrow> nat list" where
  "uint_words L s = map (\<lambda>x. unat (word_of_int (parse_int L x) :: 32 word)) (split s blanks)"

definition load_weights ::
    "('m, 'q, 'c) collada_env \<Rightarrow> cursor \<Rightarrow> string list \<Rightarrow> 'm Skeleton \<Rightarrow> 'm Skeleton option" where
  "load_weights E vertWeightsXml joints sk =
     do {
       w \<leftarrow> read_weight_inputs (children_of vertWeightsXml ''input'') \<lparr> jOffset = 0, wOffset = 0, weightsURL = [] \<rparr>;
       weightsXml \<leftarrow> ElementId (ce_doc E) ''source'' (weightsURL w);
       wString \<leftarrow> text_of_child weightsXml ''float_array'';
       cString \<leftarrow> text_of_child vertWeightsXml ''vcount'';
       vString \<leftarrow> text_of_child vertWeightsXml ''v'';
       let vCount = uint_words (ce_lib E) cString;
       all_weights w joints (map (parse_float (ce_lib E)) (split wString blanks)) (uint_words (ce_lib E) vString)
         0 vCount 0 (SetNumVertAttached (word_of_nat (length vCount)) sk) }"

text \<open>Bind matrices, weights and the geometry; the early returns leave the skeleton as it is.\<close>

definition load_skin ::
    "('m, 'q, 'c) collada_env \<Rightarrow> cursor \<Rightarrow> string \<Rightarrow> string \<Rightarrow> string list \<Rightarrow> 'm \<Rightarrow> 'm Skeleton \<Rightarrow> ('m, 'c) collada \<Rightarrow>
     ('m, 'c) collada option" where
  "load_skin E skinXml geomURL invBindMatURL joints T sk st =
     (case ElementId (ce_doc E) ''source'' invBindMatURL of
        None \<Rightarrow> Some st
      | Some invBMXml \<Rightarrow>
          do {
            posesStr \<leftarrow> text_of_child invBMXml ''float_array'';
            h \<leftarrow> bind_joints (ce_lib E) sk (split posesStr blanks) 0 joints (fst (dae_bones st));
            let st1 = st \<lparr> dae_bones := (h, snd (dae_bones st)) \<rparr>;
            (case FirstChildElement skinXml ''vertex_weights'' of
               None \<Rightarrow> Some st1
             | Some vertWeightsXml \<Rightarrow>
                 do {
                   sk1 \<leftarrow> load_weights E vertWeightsXml joints sk;
                   geomXml \<leftarrow> ElementId (ce_doc E) ''geometry'' geomURL;
                   LoadGeometry E geomXml T (st1 \<lparr> dae_skeleton := Some sk1 \<rparr>) }) })"

definition load_joints ::
    "('m, 'q, 'c) collada_env \<Rightarrow> cursor \<Rightarrow> string \<Rightarrow> 'm \<Rightarrow> string list \<Rightarrow> string \<Rightarrow> cursor option list \<Rightarrow> 'm \<Rightarrow>
     ('m, 'c) collada \<Rightarrow> ('m, 'c) collada option" where
  "load_joints E skinXml geomURL bindTrans joints invBindMatURL skelXmls T st =
     do {
       st1 \<leftarrow> for_each (add_root E) skelXmls st;
       (case dae_skeleton st1 of
          None \<Rightarrow> Some st1
        | Some sk0 \<Rightarrow>
            do {
              let sk1 = SetBindShapeTransform bindTrans sk0;
              (sk2, bones) \<leftarrow> (case FirstChildElement (ce_root E) ''library_animations'' of
                  None \<Rightarrow> Some (sk1, dae_bones st1)
                | Some a \<Rightarrow> LoadAnimations (ce_lib E) (ce_bone E) (ce_doc E) a sk1 (dae_bones st1));
              load_skin E skinXml geomURL invBindMatURL joints T sk2
                (st1 \<lparr> dae_skeleton := Some sk2, dae_bones := bones \<rparr>) }) }"

definition LoadController ::
    "('m, 'q, 'c) collada_env \<Rightarrow> cursor option \<Rightarrow> cursor option list \<Rightarrow> 'm \<Rightarrow> ('m, 'c) collada \<Rightarrow>
     ('m, 'c) collada option" where
  "LoadController E contrXml skelXmls T st =
     (case Option.bind contrXml (\<lambda>c. FirstChildElement c ''skin'') of
        None \<Rightarrow> Some st
      | Some skinXml \<Rightarrow>
          do {
            geomURL \<leftarrow> Attribute skinXml ''source'';
            (case text_of_child skinXml ''bind_shape_matrix'' of
               None \<Rightarrow> Some st
             | Some matrixStr \<Rightarrow>
                 (let bindTrans = Set_m (lib_mat (ce_lib E)) (read_values 16 matrixStr) (default_m (lib_mat (ce_lib E)))
                  in case FirstChildElement skinXml ''joints'' of
                       None \<Rightarrow> Some st
                     | Some jointsElem \<Rightarrow>
                         do {
                           (jointsURL, invBindMatURL) \<leftarrow> joint_inputs (children_of jointsElem ''input'') ([], []);
                           (case ElementId (ce_doc E) ''source'' jointsURL of
                              None \<Rightarrow> Some st
                            | Some jointsXml \<Rightarrow>
                                (case FirstChildElement jointsXml ''Name_array'' of
                                   None \<Rightarrow> Some st
                                 | Some nameArray \<Rightarrow>
                                     do {
                                       jointsStr \<leftarrow> GetText nameArray;
                                       load_joints E skinXml geomURL bindTrans (split jointsStr blanks) invBindMatURL
                                         skelXmls T st })) })) })"

subsection \<open>Nodes\<close>

fun ancestor_name :: "element list \<Rightarrow> string" where
  "ancestor_name [] = []"
| "ancestor_name (e # es) =
     (if tag e \<noteq> ''node'' then []
      else (case map_of (attributes e) ''name'' of Some n \<Rightarrow> n | None \<Rightarrow> ancestor_name es))"

definition name_node :: "cursor \<Rightarrow> ('m, 'c) collada \<Rightarrow> ('m, 'c) collada" where
  "name_node elem st =
     (case Attribute elem ''name'' of
        Some n \<Rightarrow> st \<lparr> currentNodeName := n \<rparr>
      | None \<Rightarrow>
          if ancestor_name (snd elem) = []
          then st \<lparr> currentNodeName := ''unnamed_submesh_'' @ show_int (nodeCounter st), nodeCounter := nodeCounter st + 1 \<rparr>
          else st \<lparr> currentNodeName := ancestor_name (snd elem) \<rparr>)"

fun bind_materials :: "cursor list \<Rightarrow> (string \<rightharpoonup> string) \<Rightarrow> (string \<rightharpoonup> string) option" where
  "bind_materials [] m = Some m"
| "bind_materials (x # xs) m =
     do { symbol \<leftarrow> Attribute x ''symbol''; target \<leftarrow> Attribute x ''target''; bind_materials xs (m(symbol \<mapsto> target)) }"

definition material_bindings :: "cursor \<Rightarrow> (string \<rightharpoonup> string) option" where
  "material_bindings inst =
     bind_materials
       (concat (map (\<lambda>b. case FirstChildElement b ''technique_common'' of
                           None \<Rightarrow> [] | Some t \<Rightarrow> children_of t ''instance_material'')
                 (children_of inst ''bind_material''))) Map.empty"

definition instance_geometry ::
    "('m, 'q, 'c) collada_env \<Rightarrow> 'm \<Rightarrow> cursor \<Rightarrow> ('m, 'c) collada \<Rightarrow> ('m, 'c) collada option" where
  "instance_geometry E T inst st =
     do {
       geomURL \<leftarrow> Attribute inst ''url'';
       bindings \<leftarrow> material_bindings inst;
       let st1 = st \<lparr> materialMap := bindings,
                      dae_skeleton := (if HasSkeleton (dae_mesh st) then map_option (SetNumVertAttached 0) (dae_skeleton st)
                                       else dae_skeleton st) \<rparr>;
       geomXml \<leftarrow> ElementId (ce_doc E) ''geometry'' geomURL;
       LoadGeometry E geomXml T st1 }"

fun skeleton_roots :: "cursor \<Rightarrow> cursor list \<Rightarrow> cursor option list option" where
  "skeleton_roots scene [] = Some []"
| "skeleton_roots scene (x # xs) =
     do { rootURL \<leftarrow> GetText x; rs \<leftarrow> skeleton_roots scene xs; Some (ElementId scene ''node'' rootURL # rs) }"

definition instance_controller ::
    "('m, 'q, 'c) collada_env \<Rightarrow> 'm \<Rightarrow> cursor \<Rightarrow> ('m, 'c) collada \<Rightarrow> ('m, 'c) collada option" where
  "instance_controller E T inst st =
     do {
       contrURL \<leftarrow> Attribute inst ''url'';
       bindings \<leftarrow> material_bindings inst;
       scene \<leftarrow> currentScene st;
       roots \<leftarrow> skeleton_roots scene (children_of inst ''skeleton'');
       LoadController E (ElementId (ce_doc E) ''controller'' contrURL)
         (if roots = [] then map Some (all_children scene) else roots) T (st \<lparr> materialMap := bindings \<rparr>) }"

partial_function (option) load_nodes ::
    "('m, 'q, 'c) collada_env \<Rightarrow> cursor list \<Rightarrow> 'm \<Rightarrow> ('m, 'c) collada \<Rightarrow> ('m, 'c) collada option" where
  "load_nodes E elems T st =
     (case elems of
        [] \<Rightarrow> Some st
      | elem # rest \<Rightarrow>
          do {
            T0 \<leftarrow> LoadNodeTransform (ce_lib E) elem;
            let T1 = mul_m (lib_mat (ce_lib E)) T T0;
            st1 \<leftarrow> load_nodes E (children_of elem ''node'') T1 st;
            let st2 = name_node elem st1;
            st3 \<leftarrow> (case FirstChildElement elem ''instance_node'' of
                Some inst \<Rightarrow>
                  do {
                    url \<leftarrow> Attribute inst ''url'';
                    (case ElementId (ce_doc E) ''node'' url of
                       None \<Rightarrow> Some st2
                     | Some nodeXml \<Rightarrow> load_nodes E [nodeXml] T1 st2) }
              | None \<Rightarrow>
                  do {
                    st4 \<leftarrow> for_each (instance_geometry E T1) (children_of elem ''instance_geometry'') st2;
                    for_each (instance_controller E T1) (children_of elem ''instance_controller'') st4 });
            load_nodes E rest T st3 })"

definition LoadNode ::
    "('m, 'q, 'c) collada_env \<Rightarrow> cursor \<Rightarrow> 'm \<Rightarrow> ('m, 'c) collada \<Rightarrow> ('m, 'c) collada option" where
  "LoadNode E elem T st = load_nodes E [elem] T st"

definition LoadScene :: "('m, 'q, 'c) collada_env \<Rightarrow> ('m, 'c) collada \<Rightarrow> ('m, 'c) collada option" where
  "LoadScene E st =
     do {
       sceneXml \<leftarrow> FirstChildElement (ce_doc E) ''scene'';
       inst \<leftarrow> FirstChildElement sceneXml ''instance_visual_scene'';
       sceneURL \<leftarrow> Attribute inst ''url'';
       let visSceneXml = ElementId (ce_doc E) ''visual_scene'' sceneURL;
       let st1 = st \<lparr> currentScene := visSceneXml \<rparr>;
       (case visSceneXml of
          None \<Rightarrow> Some st1
        | Some v \<Rightarrow>
            for_each (\<lambda>n. LoadNode E n (Identity_m (lib_mat (ce_lib E)))) (children_of v ''node'') st1) }"

subsection \<open>Load\<close>

definition reset_loader :: "string \<Rightarrow> ('m, 'c) collada \<Rightarrow> ('m, 'c) collada" where
  "reset_loader filename st =
     st \<lparr> dae_sources := no_sources, dae_materials := (dae_materials st) \<lparr> materialIds := Map.empty \<rparr>, meter := 1,
          dae_folder := (case find_last_of filename ''/'' of None \<Rightarrow> [] | Some i \<Rightarrow> take i filename),
          dae_filename := filename \<rparr>"

definition scale_loaded :: "('m, 'q, 'c) collada_env \<Rightarrow> ('m, 'c) collada \<Rightarrow> ('m, 'c) collada option" where
  "scale_loaded E st =
     (let mesh = Mesh_Scale (lib_math (ce_lib E)) \<lparr> vX = meter st, vY = meter st, vZ = meter st \<rparr> (dae_mesh st);
          st1 = st \<lparr> dae_mesh := mesh \<rparr>
      in case (HasSkeleton mesh, dae_skeleton st1) of
           (True, Some sk) \<Rightarrow>
             do {
               (sk1, h) \<leftarrow> Skeleton_Scale (lib_mat (ce_lib E)) (meter st) sk (fst (dae_bones st1));
               Some (st1 \<lparr> dae_skeleton := Some sk1, dae_bones := (h, snd (dae_bones st1)) \<rparr>) }
         | _ \<Rightarrow> Some st1)"

definition file_meter :: "('m, 'q) collada_lib \<Rightarrow> cursor \<Rightarrow> real" where
  "file_meter L doc =
     (case Option.bind (FirstChildElement doc ''asset'') (\<lambda>a. FirstChildElement a ''unit'') of
        None \<Rightarrow> 1
      | Some u \<Rightarrow> (case Attribute u ''meter'' of None \<Rightarrow> 1 | Some t \<Rightarrow> parse_float L t))"

text \<open>\<open>read_xml\<close> is the XML parser on a file: the elements at the top. The first result is whether a
  mesh is returned; it is the one of the state.\<close>

definition Collada_Load ::
    "(string \<Rightarrow> element list option) \<Rightarrow> ('m, 'q, 'c) collada_env \<Rightarrow> string \<Rightarrow> ('m, 'c) collada \<Rightarrow>
     (bool \<times> ('m, 'c) collada) option" where
  "Collada_Load read_xml E0 filename st0 =
     (let st = reset_loader filename st0
      in case read_xml filename of
           None \<Rightarrow> Some (False, st)
         | Some tops \<Rightarrow>
             (case find (\<lambda>e. tag e = ''COLLADA'') tops of
                None \<Rightarrow> Some (False, st)
              | Some e \<Rightarrow>
                  (let E = E0 \<lparr> ce_doc := (e, []), ce_root := (hd tops, []) \<rparr>;
                       st1 = st \<lparr> meter := file_meter (ce_lib E) (e, []),
                                  dae_mesh := SetPath (dae_folder st) Mesh_new, dae_skeleton := None \<rparr>
                   in do {
                        st2 \<leftarrow> LoadScene E st1;
                        st3 \<leftarrow> (case (HasSkeleton (dae_mesh st2), dae_skeleton st2) of
                            (True, Some sk) \<Rightarrow>
                              map_option (\<lambda>h. st2 \<lparr> dae_bones := (h, snd (dae_bones st2)) \<rparr>)
                                (ApplyInvBindTransform (ce_lib E) sk (fst (dae_bones st2)))
                          | _ \<Rightarrow> Some st2);
                        st4 \<leftarrow> scale_loaded E st3;
                        Some (True, st4) })))"

end
