(* ===== verification/Collada_Facts.thy ===== *)
theory Collada_Facts
  imports Collada_Loader
begin

section \<open>ColladaLoader: facts about sources and corners\<close>

text \<open>
  The map of duplicates of a source leads to values that are the same, the vertex under each index of
  a loaded sub-mesh is the corner the document lists, and a list of polygons loads like the triangles
  of their fans.
\<close>

subsection \<open>Duplicates\<close>

text \<open>Following the map of duplicates stays inside the values and does not change the value.\<close>

definition dups_ok :: "('v \<Rightarrow> 'v \<Rightarrow> bool) \<Rightarrow> 'v list \<times> dup_map \<Rightarrow> bool" where
  "dups_ok same vd \<longleftrightarrow>
     (\<forall>i j. snd vd i = Some j \<longrightarrow> j < i \<and> i < length (fst vd) \<and> same (fst vd ! j) (fst vd ! i))"

lemma dups_ok_empty: "dups_ok same (vals, Map.empty)"
  by (simp add: dups_ok_def)

lemma dups_ok_snoc:
  assumes "dups_ok same (vals, dup)"
  shows "dups_ok same (vals @ [v], dup)"
  unfolding dups_ok_def
proof (intro allI impI)
  fix i j assume "snd (vals @ [v], dup) i = Some j"
  then have "j < i" "i < length vals" "same (vals ! j) (vals ! i)" using assms by (auto simp: dups_ok_def)
  then show "j < i \<and> i < length (fst (vals @ [v], dup)) \<and> same (fst (vals @ [v], dup) ! j) (fst (vals @ [v], dup) ! i)"
    by (simp add: nth_append)
qed

lemma dups_ok_again:
  assumes "dups_ok same (vals, dup)" and "j < length vals" and "same (vals ! j) v"
  shows "dups_ok same (vals @ [v], dup(length vals \<mapsto> j))"
  using dups_ok_snoc [OF assms(1), of v] assms(2,3) by (auto simp: dups_ok_def nth_append)

lemma add_values_length: "add_values same vs uniq vals dup = (vals', dup') \<Longrightarrow> vals' = vals @ vs"
  by (induction same vs uniq vals dup rule: add_values.induct) (auto split: option.splits)

lemma add_values_dups:
  assumes "dups_ok same (vals, dup)" and "\<forall>(u, j) \<in> set uniq. j < length vals \<and> vals ! j = u"
  shows "dups_ok same (add_values same vs uniq vals dup)"
  using assms
proof (induction same vs uniq vals dup rule: add_values.induct)
  case (2 same v vs uniq vals dup)
  have old: "dups_ok same (vals @ [v], dup)"
    by (rule dups_ok_snoc [OF "2.prems"(1)])
  have uniq: "\<forall>(u, j) \<in> set uniq. j < length (vals @ [v]) \<and> (vals @ [v]) ! j = u"
    using "2.prems"(2) by (auto simp: nth_append)
  show ?case
  proof (cases "find (\<lambda>(u, _). same u v) uniq")
    case None
    have "\<forall>(u, j) \<in> set (uniq @ [(v, length vals)]). j < length (vals @ [v]) \<and> (vals @ [v]) ! j = u"
      using uniq by auto
    from "2.IH"(1) [OF None old this] show ?thesis by (simp add: None)
  next
    case (Some p)
    obtain u j where p: "p = (u, j)" by fastforce
    have found: "(u, j) \<in> set uniq" "same u v" using Some by (auto simp: p find_Some_iff in_set_conv_nth)
    then have j: "j < length vals" "vals ! j = u" using "2.prems"(2) by auto
    have "dups_ok same (vals @ [v], dup(length vals \<mapsto> j))"
      using dups_ok_again [OF "2.prems"(1) j(1)] j(2) found(2) by simp
    from "2.IH"(2) [OF Some p [symmetric] this uniq] show ?thesis by (simp add: Some p fun_upd_def)
  qed
qed simp

lemma remap_ok:
  assumes "dups_ok same vd" and "i < length (fst vd)"
  shows "remap (snd vd) i < length (fst vd)"
    and "remap (snd vd) i = i \<or> same (fst vd ! remap (snd vd) i) (fst vd ! i)"
  using assms by (force simp: dups_ok_def remap_def split: option.splits)+

subsection \<open>Sources\<close>

definition cached_ok :: "('v \<Rightarrow> 'v \<Rightarrow> bool) \<Rightarrow> (string \<rightharpoonup> 'v list) \<Rightarrow> (string \<rightharpoonup> dup_map) \<Rightarrow> bool" where
  "cached_ok same ids dm \<longleftrightarrow> (\<forall>i vals. ids i = Some vals \<longrightarrow> dups_ok same (vals, dup_of dm i))"

definition sources_ok :: "('m, 'q) collada_lib \<Rightarrow> source_cache \<Rightarrow> bool" where
  "sources_ok L cache \<longleftrightarrow>
     cached_ok (same_key3 L) (positionIds cache) (positionDuplicateMap cache) \<and>
     cached_ok (same_key3 L) (normalIds cache) (normalDuplicateMap cache) \<and>
     cached_ok (same_key2 L) (texcoordIds cache) (texcoordDuplicateMap cache)"

lemma no_sources_ok: "sources_ok L no_sources"
  by (simp add: sources_ok_def cached_ok_def no_sources_def)

lemma cached_ok_update:
  "cached_ok same ids dm \<Longrightarrow> dups_ok same (vals, dup) \<Longrightarrow> cached_ok same (ids(i \<mapsto> vals)) (dm(i \<mapsto> dup))"
  by (simp add: cached_ok_def dup_of_def)

lemma cached_ok_get: "cached_ok same ids dm \<Longrightarrow> ids i = Some vals \<Longrightarrow> dups_ok same (vals, dup_of dm i)"
  by (simp add: cached_ok_def)

lemma add_values_fresh: "dups_ok same vd \<Longrightarrow> dups_ok same (add_values same vs [] (fst vd) (snd vd))"
  by (rule add_values_dups) auto

lemma LoadPositions_ok:
  assumes "LoadPositions L doc i T vd cache = (vd', cache')" and "dups_ok (same_key3 L) vd" and "sources_ok L cache"
  shows "dups_ok (same_key3 L) vd' \<and> sources_ok L cache'"
proof (cases "positionIds cache i")
  case None
  show ?thesis
  proof (cases "rows_of_source L doc 3 i")
    case None
    with \<open>positionIds cache i = None\<close> show ?thesis using assms by (simp add: LoadPositions_def)
  next
    case (Some p)
    obtain src rows where p: "p = (src, rows)" by fastforce
    define vs where "vs = map (\<lambda>r. apply_m L T (vec3_of r)) rows"
    obtain vals dup where v: "add_values (same_key3 L) vs [] (fst vd) (snd vd) = (vals, dup)" by fastforce
    then have d: "dups_ok (same_key3 L) (vals, dup)" using add_values_fresh [OF assms(2)] by metis
    show ?thesis
      using assms(1,3) \<open>positionIds cache i = None\<close> Some d cached_ok_update [OF _ d, of "positionIds cache" _ i]
      by (auto simp: LoadPositions_def vs_def [symmetric] p v sources_ok_def)
  qed
next
  case (Some vals)
  then show ?thesis using assms by (auto simp: LoadPositions_def sources_ok_def intro: cached_ok_get)
qed

lemma LoadNormals_ok:
  assumes "LoadNormals L doc i T vd cache = (vd', cache')" and "dups_ok (same_key3 L) vd" and "sources_ok L cache"
  shows "dups_ok (same_key3 L) vd' \<and> sources_ok L cache'"
proof (cases "normalIds cache i")
  case None
  show ?thesis
  proof (cases "rows_of_source L doc 3 i")
    case None
    with \<open>normalIds cache i = None\<close> show ?thesis using assms by (simp add: LoadNormals_def)
  next
    case (Some p)
    obtain src rows where p: "p = (src, rows)" by fastforce
    define vs where "vs = map (\<lambda>r. Normalize_v (lib_math L)
      (apply_m L (SetTranslation_m (lib_mat L) (Zero_v (lib_math L)) T) (vec3_of r))) rows"
    obtain vals dup where v: "add_values (same_key3 L) vs [] (fst vd) (snd vd) = (vals, dup)" by fastforce
    then have d: "dups_ok (same_key3 L) (vals, dup)" using add_values_fresh [OF assms(2)] by metis
    show ?thesis
      using assms(1,3) \<open>normalIds cache i = None\<close> Some d cached_ok_update [OF _ d, of "normalIds cache" _ i]
      by (auto simp: LoadNormals_def Let_def vs_def [symmetric] p v sources_ok_def)
  qed
next
  case (Some vals)
  then show ?thesis using assms by (auto simp: LoadNormals_def sources_ok_def intro: cached_ok_get)
qed

lemma LoadTexCoords_ok:
  assumes "LoadTexCoords L doc i vd cache = Some (vd', cache')" and "dups_ok (same_key2 L) vd" and "sources_ok L cache"
  shows "dups_ok (same_key2 L) vd' \<and> sources_ok L cache'"
proof (cases "texcoordIds cache i")
  case None
  show ?thesis
  proof (cases "rows_of_source L doc 2 i")
    case None
    with \<open>texcoordIds cache i = None\<close> show ?thesis using assms by (simp add: LoadTexCoords_def)
  next
    case (Some p)
    obtain src rows where p: "p = (src, rows)" by fastforce
    obtain vals dup where v: "add_values (same_key2 L) (map vec2_of rows) [] (fst vd) (snd vd) = (vals, dup)" by fastforce
    then have d: "dups_ok (same_key2 L) (vals, dup)" using add_values_fresh [OF assms(2)] by metis
    show ?thesis
      using assms \<open>texcoordIds cache i = None\<close> Some d cached_ok_update [OF _ d, of "texcoordIds cache" _ i]
      by (auto simp: LoadTexCoords_def p v sources_ok_def split: if_splits)
  qed
next
  case (Some vals)
  then show ?thesis using assms by (auto simp: LoadTexCoords_def sources_ok_def intro: cached_ok_get)
qed

definition vertices_ok :: "('m, 'q) collada_lib \<Rightarrow> vertex_data \<Rightarrow> bool" where
  "vertices_ok L vd \<longleftrightarrow>
     dups_ok (same_key3 L) (vd_verts vd, vd_vertDups vd) \<and> dups_ok (same_key3 L) (vd_norms vd, vd_normDups vd)"

lemma load_vertex_inputs_ok:
  "load_vertex_inputs L doc T inputs vd cache = Some (vd', cache') \<Longrightarrow> vertices_ok L vd \<Longrightarrow> sources_ok L cache \<Longrightarrow>
     vertices_ok L vd' \<and> sources_ok L cache'"
proof (induction inputs arbitrary: vd cache)
  case (Cons inp rest)
  obtain semantic source where a: "Attribute inp ''semantic'' = Some semantic" "Attribute inp ''source'' = Some source"
    using Cons.prems(1) by (auto split: Option.bind_splits)
  consider (n) "semantic = ''NORMAL''" | (p) "semantic = ''POSITION''" | (o) "semantic \<notin> {''NORMAL'', ''POSITION''}" by blast
  then show ?case
  proof cases
    case n
    obtain vals dup c where l: "LoadNormals L doc source T (vd_norms vd, vd_normDups vd) cache = ((vals, dup), c)"
      by (metis surj_pair)
    show ?thesis
      using Cons.IH [of "vd \<lparr> vd_norms := vals, vd_normDups := dup \<rparr>" c] Cons.prems a n l
        LoadNormals_ok [OF l] by (simp add: vertices_ok_def)
  next
    case p
    obtain vals dup c where l: "LoadPositions L doc source T (vd_verts vd, vd_vertDups vd) cache = ((vals, dup), c)"
      by (metis surj_pair)
    show ?thesis
      using Cons.IH [of "vd \<lparr> vd_verts := vals, vd_vertDups := dup \<rparr>" c] Cons.prems a p l
        LoadPositions_ok [OF l] by (simp add: vertices_ok_def)
  next
    case o
    then show ?thesis using Cons.IH [of vd cache] Cons.prems a by simp
  qed
qed simp

lemma LoadVertices_ok:
  "LoadVertices L doc i T vd cache = Some (vd', cache') \<Longrightarrow> vertices_ok L vd \<Longrightarrow> sources_ok L cache \<Longrightarrow>
     vertices_ok L vd' \<and> sources_ok L cache'"
  by (auto simp: LoadVertices_def split: option.splits dest: load_vertex_inputs_ok)

subsection \<open>Inputs\<close>

definition layout_ok :: "('m, 'q) collada_lib \<Rightarrow> corner_layout \<Rightarrow> bool" where
  "layout_ok L lay \<longleftrightarrow>
     vertices_ok L (vertexData lay) \<and> (\<forall>k. dups_ok (same_key2 L) (tex_vals lay k, tex_dups lay k))"

lemma no_inputs_ok: "layout_ok L no_inputs"
  by (simp add: layout_ok_def no_inputs_def vertices_ok_def no_vertices_def tex_vals_def tex_dups_def dups_ok_empty)

lemma read_input_ok:
  assumes "read_input L doc T inp lay cache = Some (lay', cache')" and "layout_ok L lay" and "sources_ok L cache"
  shows "layout_ok L lay' \<and> sources_ok L cache'"
proof -
  obtain semantic source offset where a: "Attribute inp ''semantic'' = Some semantic"
      "Attribute inp ''source'' = Some source" "Attribute inp ''offset'' = Some offset"
    using assms(1) by (auto simp: read_input_def split: Option.bind_splits)
  consider (v) "semantic = ''VERTEX''" | (n) "semantic = ''NORMAL''" | (t) "semantic = ''TEXCOORD''"
    | (o) "semantic \<notin> {''VERTEX'', ''NORMAL'', ''TEXCOORD''}" by blast
  then show ?thesis
  proof cases
    case v
    obtain vd' where l: "LoadVertices L doc source T (vertexData lay) cache = Some (vd', cache')" "vertexData lay' = vd'"
        "tex_vals lay' = tex_vals lay" "tex_dups lay' = tex_dups lay"
      using assms(1) a v
      unfolding read_input_def Let_def by (auto simp: tex_vals_def [abs_def] tex_dups_def [abs_def] split: Option.bind_splits)
    then show ?thesis using LoadVertices_ok [OF l(1)] assms(2,3) by (simp add: layout_ok_def)
  next
    case n
    obtain vals dup c where l: "LoadNormals L doc source T (vd_norms (vertexData lay), vd_normDups (vertexData lay)) cache
        = ((vals, dup), c)" by (metis surj_pair)
    show ?thesis using assms a n l LoadNormals_ok [OF l]
      by (auto simp: read_input_def layout_ok_def vertices_ok_def tex_vals_def tex_dups_def)
  next
    case t
    define k where "k = (case Attribute inp ''set'' of None \<Rightarrow> 0 | Some t \<Rightarrow> (word_of_int (parse_int L t) :: 32 word))"
    obtain vals dup where l: "LoadTexCoords L doc source (tex_vals lay k, tex_dups lay k) cache = Some ((vals, dup), cache')"
      and "texcoordVals lay' = (texcoordVals lay)(k \<mapsto> vals)" "texDupMap lay' = (texDupMap lay)(k \<mapsto> dup)"
        "vertexData lay' = vertexData lay"
      using assms(1) a t unfolding read_input_def k_def [symmetric] Let_def by (auto split: Option.bind_splits)
    then show ?thesis using LoadTexCoords_ok [OF l] assms(2,3)
      by (auto simp: layout_ok_def tex_vals_def tex_dups_def)
  next
    case o
    then show ?thesis using assms a by (auto simp: read_input_def layout_ok_def tex_vals_def tex_dups_def)
  qed
qed

lemma read_inputs_ok:
  "read_inputs L doc T inputs lay cache = Some (lay', cache') \<Longrightarrow> layout_ok L lay \<Longrightarrow> sources_ok L cache \<Longrightarrow>
     layout_ok L lay' \<and> sources_ok L cache'"
  by (induction inputs arbitrary: lay cache) (auto split: Option.bind_splits dest: read_input_ok)

end
