(* ===== verification/Collada_Sample.thy ===== *)
theory Collada_Sample
  imports Collada_Loader
begin

section \<open>A small COLLADA document\<close>

text \<open>
  Concrete libraries and a document with four positions, two of them equal, three texture
  coordinates, two triangles and a list of polygons; the theorems about the loader are applied to it.
\<close>

definition dae_math :: gz_math where
  "dae_math =
     \<lparr> equal_d = (=), Equal_v = (=), eq_v = (\<lambda>u v. vX u = vX v \<and> vY u = vY v \<and> vZ u = vZ v), Normal_v = \<lambda>a b c. a, Normalize_v = id, Cross_v = \<lambda>a b. a, Dot_v = \<lambda>a b. 0,
       plus_v = add3, minus_v = \<lambda>a b. a, mult_v = \<lambda>a b. a, scale_v = \<lambda>a r. scale3 r a, div_v = \<lambda>a r. a,
       Zero_v = \<lparr> vX = 0, vY = 0, vZ = 0 \<rparr>, default_v = \<lparr> vX = 0, vY = 0, vZ = 0 \<rparr>, Zero_2 = (0, 0), MAX_F = 1000 \<rparr>"

definition dae_lib :: "(Vector3d, unit) collada_lib" where
  "dae_lib =
     \<lparr> lib_math = dae_math, lib_mat = translation_mats, apply_m = add3, of_axis_angle = \<lambda>v a. v, eq_2 = (=),
       hash_double = \<lambda>x. 0, overflow_d = \<lambda>x. False, parse_int = \<lambda>s. (case stoi s of None \<Rightarrow> 0 | Some i \<Rightarrow> i),
       parse_float = \<lambda>s. 0, read_vector = \<lambda>s. \<lparr> vX = 0, vY = 0, vZ = 0 \<rparr>, query_int = stoi \<rparr>"

definition dae_source :: "string \<Rightarrow> string \<Rightarrow> string \<Rightarrow> string \<Rightarrow> element" where
  "dae_source i n str txt =
     Element ''source'' [(''id'', i)] None
       [Element ''float_array'' [(''count'', n)] (Some txt) [],
        Element ''technique_common'' [] None [Element ''accessor'' [(''stride'', str), (''count'', ''3'')] None []]]"

definition dae_inputs :: "element list" where
  "dae_inputs =
     [Element ''input'' [(''semantic'', ''VERTEX''), (''source'', ''#v''), (''offset'', ''0'')] None [],
      Element ''input'' [(''semantic'', ''TEXCOORD''), (''source'', ''#t''), (''offset'', ''1'')] None []]"

definition dae_triangles :: element where
  "dae_triangles =
     Element ''triangles'' [] None
       (dae_inputs @ [
        Element ''p'' [] (Some ''0 0 1 1 2 2 3 0 1 1 2 2'') []])"

definition dae_polylist :: element where
  "dae_polylist =
     Element ''polylist'' [] None
       (dae_inputs @ [Element ''vcount'' [] (Some ''4 3 9'') [],
                      Element ''p'' [] (Some ''0 0 1 1 3 2 2 0 1 1 2 2 3 0'') []])"

definition dae_document :: element where
  "dae_document =
     Element ''COLLADA'' [] None
       [dae_source ''p'' ''12'' ''3'' ''0 0 0 1 0 0 0 1 0 0 0 0'',
        dae_source ''t'' ''6'' ''2'' ''0 0 1 0 0 1'',
        Element ''vertices'' [(''id'', ''v'')] None
          [Element ''input'' [(''semantic'', ''POSITION''), (''source'', ''#p'')] None []],
        dae_triangles, dae_polylist]"

definition dae_env :: "(Vector3d, unit, unit) collada_env" where
  "dae_env =
     \<lparr> ce_lib = dae_lib,
       ce_mat = \<lparr> mat_colors = \<lparr> default_c = (), Set_c = \<lambda>r g b a c. () \<rparr>, read_color = \<lambda>s. (), make_color = \<lambda>r g b a. (),
                  color_R = \<lambda>c. 0, color_G = \<lambda>c. 0, color_B = \<lambda>c. 0, color_A = \<lambda>c. 1, file_exists = \<lambda>f. False,
                  working_dir = ''/'', search_paths = \<lparr> pluginPathEnv = [], filePathEnv = [], pluginPaths = [],
                    filePaths = [], suffixPaths = [], logPath = [], findFileCbs = [], findFileURICbs = [] \<rparr> \<rparr>,
       ce_bone = \<lparr> blank_bone = blank_node, unset_length = 0 \<rparr>,
       ce_doc = (dae_document, []), ce_root = (dae_document, []) \<rparr>"

definition dae_start :: "(Vector3d, unit) collada" where
  "dae_start =
     \<lparr> meter = 1, dae_filename = [], dae_folder = [], materialMap = Map.empty, currentNodeName = ''n'',
       dae_sources = no_sources,
       dae_materials = \<lparr> material_objects = [], materialIds = Map.empty, material_counter = 0 \<rparr>,
       dae_mesh = Mesh_new, dae_skeleton = None, dae_bones = (Map.empty, 1), nodeCounter = 0, currentScene = None \<rparr>"

definition dae_here :: "element \<Rightarrow> cursor" where
  "dae_here e = (e, [dae_document])"

text \<open>What the inputs of the two primitives give.\<close>

definition dae_inputs_read :: "element \<Rightarrow> (corner_layout \<times> source_cache) option" where
  "dae_inputs_read e =
     read_inputs dae_lib (dae_document, []) \<lparr> vX = 0, vY = 0, vZ = 0 \<rparr> (children_of (dae_here e) ''input'') no_inputs no_sources"

definition dae_layout :: corner_layout where
  "dae_layout = fst (the (dae_inputs_read dae_triangles))"

definition dae_cache :: source_cache where
  "dae_cache = snd (the (dae_inputs_read dae_triangles))"

lemma dae_inputs_Some: "dae_inputs_read dae_triangles = Some (dae_layout, dae_cache)"
proof -
  have "\<not> Option.is_none (dae_inputs_read dae_triangles)" by code_simp
  then show ?thesis by (simp add: dae_layout_def dae_cache_def Option.is_none_def)
qed

end
