(* ===== verification/Collada_Corners.thy ===== *)
theory Collada_Corners
  imports Collada_Facts Collada_Sample
begin

section \<open>ColladaLoader: the corners of a loaded sub-mesh\<close>

text \<open>
  The loops over the corners keep, for the corners read so far, that the vertex under each index is the
  corner, and that what is recorded for a position describes vertices of the sub-mesh.
\<close>

subsection \<open>Corners\<close>

definition vert_of :: "corner_layout \<Rightarrow> nat list \<Rightarrow> nat" where
  "vert_of lay vals = remap (vd_vertDups (vertexData lay)) (the (first_value (vertexOffsets lay) vals))"

definition norm_of :: "corner_layout \<Rightarrow> nat list \<Rightarrow> nat" where
  "norm_of lay vals = remap (vd_normDups (vertexData lay)) (the (first_value (normalOffsets lay) vals))"

definition tex_of :: "corner_layout \<Rightarrow> nat list \<Rightarrow> nat \<times> 32 word \<Rightarrow> nat" where
  "tex_of lay vals ok = remap (tex_dups lay (snd ok)) (vals ! fst ok)"

text \<open>The indices of a corner are in range.\<close>

definition corner_valid :: "bool \<Rightarrow> corner_layout \<Rightarrow> nat list \<Rightarrow> bool" where
  "corner_valid poly lay vals \<longleftrightarrow>
     (\<exists>v. first_value (vertexOffsets lay) vals = Some v \<and> v < length (vd_verts (vertexData lay))) \<and>
     (uses_normals poly lay \<longrightarrow>
        (\<exists>n. first_value (normalOffsets lay) vals = Some n \<and> n < length (vd_norms (vertexData lay)))) \<and>
     (\<forall>(off, k) \<in> set (texcoordSets lay). off < length vals \<and> vals ! off < length (tex_vals lay k))"

lemma corner_valid_code [code]:
  "corner_valid poly lay vals \<longleftrightarrow>
     (case first_value (vertexOffsets lay) vals of
        None \<Rightarrow> False | Some v \<Rightarrow> v < length (vd_verts (vertexData lay))) \<and>
     (uses_normals poly lay \<longrightarrow>
        (case first_value (normalOffsets lay) vals of
           None \<Rightarrow> False | Some n \<Rightarrow> n < length (vd_norms (vertexData lay)))) \<and>
     list_all (\<lambda>(off, k). off < length vals \<and> vals ! off < length (tex_vals lay k)) (texcoordSets lay)"
  by (auto simp: corner_valid_def list_all_iff split: option.splits)










subsection \<open>Sharing a vertex\<close>




subsection \<open>A new vertex\<close>



text \<open>A corner whose indices stay in range after the maps of duplicates.\<close>

lemma corner_in_range:
  assumes "layout_ok L lay" and "corner_valid poly lay vals"
  shows "vert_of lay vals < length (vd_verts (vertexData lay))"
    and "uses_normals poly lay \<Longrightarrow> norm_of lay vals < length (vd_norms (vertexData lay))"
    and "ok \<in> set (texcoordSets lay) \<Longrightarrow> tex_of lay vals ok < length (tex_vals lay (snd ok))"
proof -
  show "vert_of lay vals < length (vd_verts (vertexData lay))"
    using remap_ok(1) [of "same_key3 L" "(vd_verts (vertexData lay), vd_vertDups (vertexData lay))"] assms
    by (auto simp: layout_ok_def vertices_ok_def corner_valid_def vert_of_def)
  show "uses_normals poly lay \<Longrightarrow> norm_of lay vals < length (vd_norms (vertexData lay))"
    using remap_ok(1) [of "same_key3 L" "(vd_norms (vertexData lay), vd_normDups (vertexData lay))"] assms
    by (auto simp: layout_ok_def vertices_ok_def corner_valid_def norm_of_def)
  show "ok \<in> set (texcoordSets lay) \<Longrightarrow> tex_of lay vals ok < length (tex_vals lay (snd ok))"
    using remap_ok(1) [of "same_key2 L" "(tex_vals lay (snd ok), tex_dups lay (snd ok))" "vals ! fst ok"] assms
    by (auto simp: layout_ok_def corner_valid_def tex_of_def split: prod.splits)
qed


subsection \<open>One corner\<close>



subsection \<open>Lists of corners\<close>

fun add_all ::
    "('m, 'q) collada_lib \<Rightarrow> bool \<Rightarrow> ('m Skeleton \<times> 'm node_heap) option \<Rightarrow> corner_layout \<Rightarrow> nat list list \<Rightarrow>
     corner_state \<Rightarrow> corner_state option" where
  "add_all L poly sk lay [] st = Some st"
| "add_all L poly sk lay (vals # rest) st =
     do { st' \<leftarrow> add_corner L poly sk lay vals st; add_all L poly sk lay rest st' }"

definition tuples_from :: "nat \<Rightarrow> nat list \<Rightarrow> nat \<Rightarrow> nat list \<Rightarrow> nat list list" where
  "tuples_from n ind start cs = map (\<lambda>c. take n (drop (start + c * n) ind)) cs"

definition corner_tuples :: "nat \<Rightarrow> nat list \<Rightarrow> nat list list" where
  "corner_tuples n ind = tuples_from n ind 0 [0..<length ind div n]"







text \<open>The triangles of the polygons that have all their indices.\<close>

fun fan_tuples :: "nat \<Rightarrow> nat list \<Rightarrow> nat list \<Rightarrow> nat \<Rightarrow> nat list list" where
  "fan_tuples n ind [] start = []"
| "fan_tuples n ind (k # ks) start =
     (if start + k * n > length ind then []
      else tuples_from n ind start (fan_corners k) @ fan_tuples n ind ks (start + k * n))"


lemma fan_tuples_length: "t \<in> set (fan_tuples n ind ns start) \<Longrightarrow> length t = n"
proof (induction ns arbitrary: start)
  case (Cons k ks)
  have "length (take n (drop (start + c * n) ind)) = n" if "start + k * n \<le> length ind" "c \<in> set (fan_corners k)" for c
  proof -
    have "c < k" using that(2) by (auto simp: fan_corners_def split: if_splits)
    then have "(c + 1) * n \<le> k * n" by (simp only: mult_le_mono1 Suc_leI Suc_eq_plus1 [symmetric])
    then show ?thesis using that(1) by simp
  qed
  then show ?case using Cons by (auto simp: tuples_from_def split: if_splits)
qed simp






lemma concat_tuples:
  assumes "0 < n" and "\<forall>t \<in> set ts. length t = n"
  shows "corner_tuples n (concat ts) = ts"
proof -
  have len: "length (concat ts) = length ts * n" using assms(2) by (induction ts) auto
  have "take n (drop (c * n) (concat ts)) = ts ! c" if "c < length ts" for c
    using assms(2) that
  proof (induction ts arbitrary: c)
    case (Cons t ts)
    then show ?case by (cases c) auto
  qed simp
  then have "map (\<lambda>c. take n (drop (0 + c * n) (concat ts))) [0..<length ts] = map ((!) ts) [0..<length ts]"
    by (intro map_cong) auto
  then show ?thesis using len assms(1) by (simp add: corner_tuples_def tuples_from_def map_nth)
qed


subsection \<open>Polygons and triangles\<close>

lemma add_corner_poly:
  assumes "layout_ok L lay" and "corner_valid True lay vals" and "uses_normals True lay = uses_normals False lay"
  shows "add_corner L True None lay vals st = add_corner L False None lay vals st"
proof -
  have "new_normal True lay vals s = new_normal False lay vals s" if "uses_normals True lay" for s
    using corner_in_range(2) [OF assms(1,2) that] assms(2) that
    by (auto simp: new_normal_def norm_of_def corner_valid_def Let_def)
  then have "new_corner L True None lay vals dae st = new_corner L False None lay vals dae st" for dae st
    using assms(3) by (auto simp: new_corner_def new_vertex_def attach_skeleton_def Let_def split: prod.splits)
  then have nc: "new_corner L True None lay vals = new_corner L False None lay vals" by (intro ext)
  have sh: "shareable True lay vals = shareable False lay vals"
    using assms(3) by (simp add: fun_eq_iff shareable_def)
  have "find_shared True lay vals ivs = find_shared False lay vals ivs" for ivs
    by (induction ivs) (simp_all add: sh cong: if_cong)
  then have fs: "find_shared True lay vals = find_shared False lay vals" by (intro ext)
  show ?thesis unfolding add_corner_def nc fs by (rule refl)
qed

lemma add_all_poly:
  assumes "layout_ok L lay" and "\<forall>t \<in> set ts. corner_valid True lay t" and "uses_normals True lay = uses_normals False lay"
  shows "add_all L True None lay ts st = add_all L False None lay ts st"
  using assms(2) by (induction ts arbitrary: st) (auto simp: add_corner_poly [OF assms(1) _ assms(3)] split: Option.bind_splits)

subsection \<open>The loaded sub-mesh\<close>

















end
