(* ===== verification/Collada_Hang.thy ===== *)
theory Collada_Hang
  imports Collada_Sample
begin

section \<open>Documents on which the COLLADA loader does not return\<close>

text \<open>
  The loops of the loader that do not advance: triangles with indices and no inputs, and an
  animation channel whose target is no node of the document. Not returning is \<open>None\<close>.
\<close>

subsection \<open>The loop over the corners as steps\<close>

text \<open>One round of the loop \<open>for (j = 0; j <= indices.size() - offsetSize; j += offsetSize)\<close>: where it is in the
  indices, and the sub-mesh with what is recorded. A round that throws has no step.\<close>

inductive corner_step ::
    "('m, 'q) collada_lib \<Rightarrow> ('m Skeleton \<times> 'm node_heap) option \<Rightarrow> corner_layout \<Rightarrow> nat list \<Rightarrow>
     nat \<times> corner_state \<Rightarrow> nat \<times> corner_state \<Rightarrow> bool"
  for L sk lay ind where
  round: "j + offsetSize lay \<le> length ind \<Longrightarrow>
     add_corner L False sk lay (take (offsetSize lay) (drop j ind)) st = Some st' \<Longrightarrow>
     corner_step L sk lay ind (j, st) (j + offsetSize lay, st')"

inductive_simps corner_step_simps: "corner_step L sk lay ind (j, st) c"

inductive corner_steps ::
    "('m, 'q) collada_lib \<Rightarrow> ('m Skeleton \<times> 'm node_heap) option \<Rightarrow> corner_layout \<Rightarrow> nat list \<Rightarrow>
     nat \<times> corner_state \<Rightarrow> nat \<times> corner_state \<Rightarrow> bool"
  for L sk lay ind where
  stay: "corner_steps L sk lay ind c c"
| go: "corner_step L sk lay ind c d \<Longrightarrow> corner_steps L sk lay ind d e \<Longrightarrow> corner_steps L sk lay ind c e"

text \<open>The loop returns when its steps lead to a place that has too few indices left.\<close>

lemma corners_loop_steps:
  fixes L :: "('a, 'b) collada_lib"
  assumes "corners_loop L sk lay ind j st = Some y"
  shows "\<exists>j'. corner_steps L sk lay ind (j, st) (j', y) \<and> \<not> j' + offsetSize lay \<le> length ind"
  using assms
proof (rule corners_loop.raw_induct [where P = "\<lambda>L sk lay ind j st y.
    \<exists>j'. corner_steps L sk lay ind (j, st) (j', y) \<and> \<not> j' + offsetSize lay \<le> length ind", rotated])
  fix f :: "('a, 'b) collada_lib \<Rightarrow> ('a Skeleton \<times> 'a node_heap) option \<Rightarrow> corner_layout \<Rightarrow> nat list \<Rightarrow>
      nat \<Rightarrow> corner_state \<Rightarrow> corner_state option"
    and L sk lay ind j st y
  assume ih: "\<And>L sk lay ind j st y. f L sk lay ind j st = Some y \<Longrightarrow>
      \<exists>j'. corner_steps L sk lay ind (j, st) (j', y) \<and> \<not> j' + offsetSize lay \<le> length ind"
    and y: "(if j + offsetSize lay \<le> length ind
      then Option.bind (add_corner L False sk lay (take (offsetSize lay) (drop j ind)) st)
             (\<lambda>st'. f L sk lay ind (j + offsetSize lay) st')
      else Some st) = Some y"
  show "\<exists>j'. corner_steps L sk lay ind (j, st) (j', y) \<and> \<not> j' + offsetSize lay \<le> length ind"
  proof (cases "j + offsetSize lay \<le> length ind")
    case True
    then obtain st' where st': "add_corner L False sk lay (take (offsetSize lay) (drop j ind)) st = Some st'"
        "f L sk lay ind (j + offsetSize lay) st' = Some y"
      using y by (auto simp: bind_eq_Some_conv)
    then show ?thesis using ih [OF st'(2)] corner_step.round [OF True st'(1)] corner_steps.go by blast
  next
    case False
    then have "st = y" using y by simp
    then show ?thesis using False corner_steps.stay by blast
  qed
qed

text \<open>Without inputs a corner adds nothing.\<close>

lemma add_corner_no_inputs: "add_corner L False sk no_inputs vals st = Some st"
  by (cases st) (simp add: add_corner_def new_corner_def no_inputs_def uses_normals_def uses_texcoords_def)

lemma offsetSize_no_inputs [simp]: "offsetSize no_inputs = 0"
  by (simp add: offsetSize_def no_inputs_def)

lemma no_inputs_step: "corner_step L sk no_inputs ind (0, st) c \<longleftrightarrow> c = (0, st)"
  by (cases st) (auto simp: corner_step_simps add_corner_no_inputs)

lemma no_inputs_steps: "corner_steps L sk no_inputs ind (0, st) c \<Longrightarrow> c = (0, st)"
  by (induction "(0 :: nat, st)" c rule: corner_steps.induct) (auto simp: no_inputs_step)

lemma corners_loop_no_inputs: "corners_loop L sk no_inputs ind 0 st = None"
proof (cases "corners_loop L sk no_inputs ind 0 st")
  case (Some y)
  then show ?thesis using corners_loop_steps [OF Some] no_inputs_steps by fastforce
qed

text \<open>
  C16. Triangles that have indices and no input make the loader run for ever. Once the material is
  set, the loop over the corners begins with the new sub-mesh and nothing recorded; a round takes this state
  to itself and to no other, no round fails, and the loop does not leave by its condition either: every
  state it reaches has another round. So the call does not return.
\<close>

theorem LoadTriangles_no_inputs:
  assumes "children_of xml ''input'' = []" and "text_of_child xml ''p'' = Some p"
    and "primitive_material E xml (new_primitive TRIANGLES st) st = Some (s, st1)"
    and "sk = bone_context st1"
  shows "(\<forall>c. corner_step (ce_lib E) sk no_inputs (parseUints p) (0, s, Map.empty) c \<longleftrightarrow> c = (0, s, Map.empty)) \<and>
     (\<forall>j s' m. corner_steps (ce_lib E) sk no_inputs (parseUints p) (0, s, Map.empty) (j, s', m) \<longrightarrow>
        j + offsetSize no_inputs \<le> length (parseUints p) \<and>
        (\<exists>d. corner_step (ce_lib E) sk no_inputs (parseUints p) (j, s', m) d)) \<and>
     LoadTriangles E T xml st =
       Option.bind (corners_loop (ce_lib E) sk no_inputs (parseUints p) 0 (s, Map.empty))
         (\<lambda>(s1, m). Some (finish_submesh s1 st1)) \<and>
     LoadTriangles E T xml st = None"
proof (intro conjI)
  show "\<forall>c. corner_step (ce_lib E) sk no_inputs (parseUints p) (0, s, Map.empty) c \<longleftrightarrow> c = (0, s, Map.empty)"
    by (simp add: no_inputs_step)
  show "\<forall>j s' m. corner_steps (ce_lib E) sk no_inputs (parseUints p) (0, s, Map.empty) (j, s', m) \<longrightarrow>
      j + offsetSize no_inputs \<le> length (parseUints p) \<and>
      (\<exists>d. corner_step (ce_lib E) sk no_inputs (parseUints p) (j, s', m) d)"
    by (auto dest!: no_inputs_steps simp: no_inputs_step)
  show run: "LoadTriangles E T xml st =
      Option.bind (corners_loop (ce_lib E) sk no_inputs (parseUints p) 0 (s, Map.empty))
        (\<lambda>(s1, m). Some (finish_submesh s1 st1))"
    unfolding LoadTriangles_def assms by simp
  show "LoadTriangles E T xml st = None"
    unfolding run corners_loop_no_inputs by simp
qed

lemma LoadTriangles_no_inputs_witness:
  "\<exists>s st1. primitive_material dae_env (dae_here (Element ''triangles'' [] None [Element ''p'' [] (Some ''0 1 2'') []]))
       (new_primitive TRIANGLES dae_start) dae_start = Some (s, st1) \<and>
     corner_step (ce_lib dae_env) (bone_context st1) no_inputs [0, 1, 2]
       (0, s, Map.empty) (0, s, Map.empty) \<and>
     LoadTriangles dae_env \<lparr> vX = 0, vY = 0, vZ = 0 \<rparr>
       (dae_here (Element ''triangles'' [] None [Element ''p'' [] (Some ''0 1 2'') []])) dae_start = None"
proof -
  let ?xml = "dae_here (Element ''triangles'' [] None [Element ''p'' [] (Some ''0 1 2'') []])"
  have xml: "children_of ?xml ''input'' = []" "text_of_child ?xml ''p'' = Some ''0 1 2''" by code_simp+
  have ints: "parseUints ''0 1 2'' = [0, 1, 2]" by code_simp
  have mat: "primitive_material dae_env ?xml (new_primitive TRIANGLES dae_start) dae_start =
      Some (new_primitive TRIANGLES dae_start, dae_start)"
    by (simp add: primitive_material_def Attribute_def dae_here_def)
  note hang = LoadTriangles_no_inputs [OF xml mat refl, of "\<lparr> vX = 0, vY = 0, vZ = 0 \<rparr>", unfolded ints]
  show ?thesis using hang mat by blast
qed

text \<open>The channels of an animation do not end when the first has a target that is not there.\<close>

definition missing_target ::
    "('m, 'q) collada_lib \<Rightarrow> 'm bone_lib \<Rightarrow> cursor \<Rightarrow> cursor list \<Rightarrow> 'm anim_state \<Rightarrow> bool" where
  "missing_target L B doc chans as \<longleftrightarrow>
     (\<exists>chan rest t. chans = chan # rest \<and> Attribute chan ''target'' = Some t \<and>
        target_node L B doc (targetBone (parse_target L t)) (fst (snd as)) (snd (snd as)) =
          Some (None, fst (snd as), snd (snd as)))"

lemma channels_loop_stuck:
  assumes "channels_loop L B doc chans as = Some y"
  shows "\<not> missing_target L B doc chans as"
  using assms
  apply (rule channels_loop.raw_induct [where P = "\<lambda>L B doc chans as y. \<not> missing_target L B doc chans as", rotated])
  apply (clarsimp simp: missing_target_def split: Option.bind_splits list.splits option.splits)
  apply blast
  done

end
