(* ===== verification/Image_Model.thy ===== *)
theory Image_Model
  imports Complex_Main System_Paths Std_Map "HOL-Library.Word"
begin

unbundle bit_operations_syntax

section \<open>Image: pixels in memory\<close>

text \<open>
  \<^verbatim>\<open>graphics/src/Image.cc\<close> and the template of \<^verbatim>\<open>graphics/include/gz/common/Image.hh\<close>. A bitmap is the list of its
  samples, of the type that \<open>bits_per_channel\<close> names; the file formats are those of stb_image, whose
  decoders, encoder and resizer are parameters. Colors of gz-math are a parameter type. Sizes
  that the code keeps in unsigned integers wrap, so these are words. \<^const>\<open>None\<close> is undefined behaviour.
\<close>

datatype PixelFormatType =
  UNKNOWN_PIXEL_FORMAT | L_INT8 | L_INT16 | RGB_INT8 | RGBA_INT8 | BGRA_INT8 | RGB_INT16 | RGBA_INT16 |
  RGB_INT32 | BGR_INT8 | BGR_INT16 | BGR_INT32 | R_FLOAT16 | RGB_FLOAT16 | R_FLOAT32 | RGB_FLOAT32 |
  BAYER_RGGB8 | BAYER_BGGR8 | BAYER_GBRG8 | BAYER_GRBG8 | COMPRESSED_PNG | PIXEL_FORMAT_COUNT |
  COMPRESSED_JPEG

definition PixelFormatNames :: "string list" where
  "PixelFormatNames =
     [''UNKNOWN_PIXEL_FORMAT'', ''L_INT8'', ''L_INT16'', ''RGB_INT8'', ''RGBA_INT8'', ''BGRA_INT8'',
      ''RGB_INT16'', ''RGBA_INT16'', ''RGB_INT32'', ''BGR_INT8'', ''BGR_INT16'', ''BGR_INT32'',
      ''R_FLOAT16'', ''RGB_FLOAT16'', ''R_FLOAT32'', ''RGB_FLOAT32'', ''BAYER_RGGB8'', ''BAYER_BGGR8'',
      ''BAYER_GBRG8'', ''BAYER_GRBG8'', ''COMPRESSED_PNG'']"

text \<open>The formats by their number; \<open>PIXEL_FORMAT_COUNT\<close> is the length of the list.\<close>

definition numbered_formats :: "PixelFormatType list" where
  "numbered_formats =
     [UNKNOWN_PIXEL_FORMAT, L_INT8, L_INT16, RGB_INT8, RGBA_INT8, BGRA_INT8, RGB_INT16, RGBA_INT16,
      RGB_INT32, BGR_INT8, BGR_INT16, BGR_INT32, R_FLOAT16, RGB_FLOAT16, R_FLOAT32, RGB_FLOAT32,
      BAYER_RGGB8, BAYER_BGGR8, BAYER_GBRG8, BAYER_GRBG8, COMPRESSED_PNG]"

definition ConvertPixelFormat :: "string \<Rightarrow> PixelFormatType" where
  "ConvertPixelFormat f =
     (if f = ''L8'' then L_INT8
      else if f = ''R8G8B8'' then RGB_INT8
      else (case find_index (\<lambda>n. n = f) PixelFormatNames of
              Some i \<Rightarrow> numbered_formats ! i
            | None \<Rightarrow> UNKNOWN_PIXEL_FORMAT))"

datatype samples = Bytes "8 word list" | Shorts "16 word list" | Floats "real list"

record Image =
  bitmap :: "samples option"
  fullName :: string
  img_width :: int
  img_height :: int
  img_channels :: int
  bits_per_channel :: int

definition Image_blank :: Image where
  "Image_blank =
     \<lparr> bitmap = None, fullName = [], img_width = 0, img_height = 0, img_channels = 0, bits_per_channel = 0 \<rparr>"

definition Image_Valid :: "Image \<Rightarrow> bool" where
  "Image_Valid img \<longleftrightarrow> bitmap img \<noteq> None"

definition Image_Filename :: "Image \<Rightarrow> string" where
  "Image_Filename img = fullName img"

subsection \<open>Loading\<close>

text \<open>The decoders of stb_image over a source, a file name or bytes in memory: width, height,
  channels of the source, and the samples.\<close>

record 's stb_source =
  is_hdr :: "'s \<Rightarrow> bool"
  is_16_bit :: "'s \<Rightarrow> bool"
  stb_loadf :: "'s \<Rightarrow> (int \<times> int \<times> int \<times> real list) option"
  stb_load_16 :: "'s \<Rightarrow> (int \<times> int \<times> int \<times> 16 word list) option"
  stb_load :: "'s \<Rightarrow> nat \<Rightarrow> (int \<times> int \<times> int \<times> 8 word list) option"

definition stb_decode :: "'s stb_source \<Rightarrow> 's \<Rightarrow> int \<times> (int \<times> int \<times> int \<times> samples) option" where
  "stb_decode stb src =
     (if is_hdr stb src then (32, map_option (\<lambda>(w, h, n, d). (w, h, n, Floats d)) (stb_loadf stb src))
      else if is_16_bit stb src then (16, map_option (\<lambda>(w, h, n, d). (w, h, n, Shorts d)) (stb_load_16 stb src))
      else (8, map_option (\<lambda>(w, h, n, d). (w, h, n, Bytes d)) (stb_load stb src 0)))"

definition set_bitmap :: "int \<Rightarrow> int \<times> int \<times> int \<times> samples \<Rightarrow> Image \<Rightarrow> Image" where
  "set_bitmap bpc d img =
     (case d of (w, h, n, bm) \<Rightarrow>
        img \<lparr> bitmap := Some bm, bits_per_channel := bpc, img_width := w, img_height := h, img_channels := n \<rparr>)"

text \<open>The name the image is loaded under; a search that does not return is \<^const>\<open>None\<close>.\<close>

definition image_path :: "(string \<Rightarrow> bool) \<Rightarrow> string \<Rightarrow> SystemPaths \<Rightarrow> string \<Rightarrow> string option" where
  "image_path ex dir sp filename =
     (if \<not> ex filename then findFile ex dir sp filename True else Some filename)"

definition Image_Load ::
    "string stb_source \<Rightarrow> (string \<Rightarrow> bool) \<Rightarrow> string \<Rightarrow> SystemPaths \<Rightarrow> string \<Rightarrow> Image \<Rightarrow> (int \<times> Image) option" where
  "Image_Load stb ex dir sp filename img =
     do {
       nm \<leftarrow> image_path ex dir sp filename;
       let img1 = img \<lparr> fullName := nm \<rparr>;
       if ex nm then
         (let img2 = img1 \<lparr> bitmap := None \<rparr>
          in case stb_decode stb nm of
               (bpc, None) \<Rightarrow> Some (- 1, img2)
             | (bpc, Some d) \<Rightarrow> Some (0, set_bitmap bpc d img2))
       else Some (- 1, img1) }"

definition Image_Load_format ::
    "string stb_source \<Rightarrow> (string \<Rightarrow> bool) \<Rightarrow> string \<Rightarrow> SystemPaths \<Rightarrow> string \<Rightarrow> PixelFormatType option \<Rightarrow> Image \<Rightarrow>
     (int \<times> Image) option" where
  "Image_Load_format stb ex dir sp filename outputFormat img =
     (case outputFormat of
        None \<Rightarrow> Image_Load stb ex dir sp filename img
      | Some fmt \<Rightarrow>
          if fmt \<noteq> RGBA_INT8 then Some (- 1, img)
          else do {
            nm \<leftarrow> image_path ex dir sp filename;
            let img1 = img \<lparr> fullName := nm \<rparr>;
            if \<not> ex nm then Some (- 1, img1)
            else
              (let img2 = img1 \<lparr> bitmap := None \<rparr>
               in case stb_load stb nm 4 of
                    None \<Rightarrow> Some (- 1, img2)
                  | Some (w, h, n, d) \<Rightarrow> Some (0, set_bitmap 8 (w, h, 4, Bytes d) img2)) })"

definition Image_new ::
    "string stb_source \<Rightarrow> (string \<Rightarrow> bool) \<Rightarrow> string \<Rightarrow> SystemPaths \<Rightarrow> string \<Rightarrow> Image option" where
  "Image_new stb ex dir sp filename =
     (if filename = [] then Some Image_blank
      else do {
        f \<leftarrow> findFile ex dir sp filename True;
        if f \<noteq> [] then map_option snd (Image_Load stb ex dir sp f Image_blank) else Some Image_blank })"

text \<open>Data in memory. When the decoder fails, the sizes are set from variables it may not have written:
  they are an argument.\<close>

definition SetFromCompressedData ::
    "8 word list stb_source \<Rightarrow> int \<times> int \<times> int \<Rightarrow> 8 word list \<Rightarrow> PixelFormatType \<Rightarrow> Image \<Rightarrow> Image" where
  "SetFromCompressedData stb uninit data fmt img =
     (let img1 = img \<lparr> bitmap := None \<rparr>
      in if fmt = COMPRESSED_PNG \<or> fmt = COMPRESSED_JPEG then
           (case stb_decode stb data of
              (bpc, Some d) \<Rightarrow> set_bitmap bpc d img1
            | (bpc, None) \<Rightarrow>
                (case uninit of (w, h, n) \<Rightarrow>
                   img1 \<lparr> bits_per_channel := bpc, img_width := w, img_height := h, img_channels := n \<rparr>))
         else img1)"

definition SetFromCompressedData_format ::
    "8 word list stb_source \<Rightarrow> int \<times> int \<times> int \<Rightarrow> 8 word list \<Rightarrow> PixelFormatType \<Rightarrow> PixelFormatType option \<Rightarrow>
     Image \<Rightarrow> Image" where
  "SetFromCompressedData_format stb uninit data inputFormat outputFormat img =
     (case outputFormat of
        None \<Rightarrow> SetFromCompressedData stb uninit data inputFormat img
      | Some fmt \<Rightarrow>
          if fmt \<noteq> RGBA_INT8 then img
          else
            (let img1 = img \<lparr> bitmap := None \<rparr>
             in if inputFormat \<noteq> COMPRESSED_PNG \<and> inputFormat \<noteq> COMPRESSED_JPEG then img1
                else (case stb_load stb data 4 of
                        None \<Rightarrow> img1
                      | Some (w, h, n, d) \<Rightarrow> set_bitmap 8 (w, h, 4, Bytes d) img1)))"

subsection \<open>Raw data\<close>

text \<open>The swap of the first and third sample of \<open>n\<close> pixels from pixel \<open>i\<close> on.\<close>

fun swap_red_blue :: "nat \<Rightarrow> nat \<Rightarrow> 'a list \<Rightarrow> 'a list option" where
  "swap_red_blue 0 i xs = Some xs"
| "swap_red_blue (Suc n) i xs =
     (if 3 * i + 2 < length xs
      then swap_red_blue n (Suc i) (xs [3 * i := xs ! (3 * i + 2), 3 * i + 2 := xs ! (3 * i)])
      else None)"

text \<open>Bits per pixel, bytes per line and whether red and blue change places.\<close>

definition raw_layout :: "PixelFormatType \<Rightarrow> 32 word \<Rightarrow> (nat \<times> 32 word \<times> bool) option" where
  "raw_layout fmt width =
     (if fmt = L_INT8 then Some (8, width, False)
      else if fmt = RGB_INT8 then Some (24, width * 3, False)
      else if fmt = RGBA_INT8 then Some (32, width * 4, False)
      else if fmt = BGR_INT8 then Some (24, width * 3, True)
      else if fmt \<in> {BAYER_RGGB8, BAYER_BGGR8, BAYER_GBRG8, BAYER_GRBG8} then Some (8, width, False)
      else None)"

definition SetFromData :: "8 word list \<Rightarrow> 32 word \<Rightarrow> 32 word \<Rightarrow> PixelFormatType \<Rightarrow> Image \<Rightarrow> Image option" where
  "SetFromData data width height fmt img =
     (let img1 = img \<lparr> bitmap := None \<rparr>
      in case raw_layout fmt width of
           None \<Rightarrow> Some img1
         | Some (bpp, scanlineBytes, swapRedBlue) \<Rightarrow>
             (let sz = unat (height * scanlineBytes)
              in if length data < sz then None
                 else do {
                   bm \<leftarrow> (if swapRedBlue then swap_red_blue (unat (width * height)) 0 (take sz data)
                         else Some (take sz data));
                   Some (set_bitmap 8 (sint width, sint height, int (bpp div 8), Bytes bm) img1) }))"

definition Image_Pitch :: "Image \<Rightarrow> int" where
  "Image_Pitch img = img_width img * img_channels img * bits_per_channel img div 8"

text \<open>The bytes of samples: 16-bit samples with the low byte first, floats by a parameter.\<close>

fun sample_bytes :: "(real \<Rightarrow> 8 word list) \<Rightarrow> samples \<Rightarrow> 8 word list" where
  "sample_bytes fb (Bytes bs) = bs"
| "sample_bytes fb (Shorts ss) = concat (map (\<lambda>s. [ucast s, ucast (drop_bit 8 s)]) ss)"
| "sample_bytes fb (Floats fs) = concat (map fb fs)"

definition DataImpl :: "(real \<Rightarrow> 8 word list) \<Rightarrow> samples option \<Rightarrow> nat \<Rightarrow> 8 word list option" where
  "DataImpl fb img sz =
     (case img of
        None \<Rightarrow> (if sz = 0 then Some [] else None)
      | Some bm \<Rightarrow> (if sz \<le> length (sample_bytes fb bm) then Some (take sz (sample_bytes fb bm)) else None))"

definition Image_Data :: "(real \<Rightarrow> 8 word list) \<Rightarrow> Image \<Rightarrow> 8 word list option" where
  "Image_Data fb img = DataImpl fb (bitmap img) (nat (img_height img * Image_Pitch img))"

definition Image_Width :: "Image \<Rightarrow> 32 word" where
  "Image_Width img = (if \<not> Image_Valid img then 0 else word_of_int (img_width img))"

definition Image_Height :: "Image \<Rightarrow> 32 word" where
  "Image_Height img = (if \<not> Image_Valid img then 0 else word_of_int (img_height img))"

definition Image_BPP :: "Image \<Rightarrow> 32 word" where
  "Image_BPP img = (if \<not> Image_Valid img then 0 else word_of_int (img_channels img * bits_per_channel img))"

definition PixelFormat :: "Image \<Rightarrow> PixelFormatType" where
  "PixelFormat img =
     (let types_8b = [UNKNOWN_PIXEL_FORMAT, L_INT8, UNKNOWN_PIXEL_FORMAT, RGB_INT8, RGBA_INT8];
          types_16b = [UNKNOWN_PIXEL_FORMAT, L_INT16, UNKNOWN_PIXEL_FORMAT, RGB_INT16, RGBA_INT16];
          types_32b = [UNKNOWN_PIXEL_FORMAT, R_FLOAT32, UNKNOWN_PIXEL_FORMAT, RGB_FLOAT32, UNKNOWN_PIXEL_FORMAT];
          pick = (\<lambda>types. if img_channels img \<ge> 0 \<and> img_channels img \<le> 4 then types ! nat (img_channels img)
                          else UNKNOWN_PIXEL_FORMAT)
      in if bits_per_channel img = 8 then pick types_8b
         else if bits_per_channel img = 16 then pick types_16b
         else if bits_per_channel img = 32 then pick types_32b
         else UNKNOWN_PIXEL_FORMAT)"

subsection \<open>Channels\<close>

definition ComputeLuminance :: "'a :: len word \<Rightarrow> 'a word \<Rightarrow> 'a word \<Rightarrow> 'a word" where
  "ComputeLuminance r g b = word_of_int (drop_bit 8 (uint r * 77 + uint g * 150 + 29 * uint b))"

text \<open>One turn of the loop for \<open>inCh\<close> and \<open>outCh\<close> channels: the samples of a pixel to the samples of a
  pixel; \<^const>\<open>None\<close> for a combination the switch does not have.\<close>

definition convert_pixel :: "nat \<Rightarrow> nat \<Rightarrow> 'a :: len word \<Rightarrow> ('a word list \<Rightarrow> 'a word list) option" where
  "convert_pixel inCh outCh aMax =
     (if (inCh, outCh) = (1, 2) then Some (\<lambda>s. [s ! 0, aMax])
      else if (inCh, outCh) = (1, 3) then Some (\<lambda>s. [s ! 0, s ! 0, s ! 0])
      else if (inCh, outCh) = (1, 4) then Some (\<lambda>s. [s ! 0, s ! 0, s ! 0, aMax])
      else if (inCh, outCh) = (2, 1) then Some (\<lambda>s. [s ! 0])
      else if (inCh, outCh) = (2, 3) then Some (\<lambda>s. [s ! 0, s ! 0, s ! 0])
      else if (inCh, outCh) = (2, 4) then Some (\<lambda>s. [s ! 0, s ! 0, s ! 0, s ! 1])
      else if (inCh, outCh) = (3, 4) then Some (\<lambda>s. [s ! 0, s ! 1, s ! 2, aMax])
      else if (inCh, outCh) = (3, 1) then Some (\<lambda>s. [ComputeLuminance (s ! 0) (s ! 1) (s ! 2)])
      else if (inCh, outCh) = (3, 2) then Some (\<lambda>s. [ComputeLuminance (s ! 0) (s ! 1) (s ! 2), aMax])
      else if (inCh, outCh) = (4, 1) then Some (\<lambda>s. [ComputeLuminance (s ! 0) (s ! 1) (s ! 2)])
      else if (inCh, outCh) = (4, 2) then Some (\<lambda>s. [ComputeLuminance (s ! 0) (s ! 1) (s ! 2), s ! 3])
      else if (inCh, outCh) = (4, 3) then Some (\<lambda>s. [s ! 0, s ! 1, s ! 2])
      else None)"

fun convert_loop :: "('a list \<Rightarrow> 'a list) \<Rightarrow> nat \<Rightarrow> nat \<Rightarrow> 'a list \<Rightarrow> 'a list option" where
  "convert_loop f inCh 0 src = Some []"
| "convert_loop f inCh (Suc npix) src =
     (if length src < inCh then None
      else map_option ((@) (f (take inCh src))) (convert_loop f inCh npix (drop inCh src)))"

text \<open>The inner option is the boolean result.\<close>

definition ConvertChannels ::
    "'a :: len word list \<Rightarrow> nat \<Rightarrow> nat \<Rightarrow> nat \<Rightarrow> 'a word \<Rightarrow> 'a word list option option" where
  "ConvertChannels src inCh outCh npix aMax =
     (case convert_pixel inCh outCh aMax of
        None \<Rightarrow> Some None
      | Some f \<Rightarrow> map_option Some (convert_loop f inCh npix src))"

definition DataWithChannels :: "(real \<Rightarrow> 8 word list) \<Rightarrow> nat \<Rightarrow> Image \<Rightarrow> 8 word list option" where
  "DataWithChannels fb outCh img =
     (case bitmap img of
        None \<Rightarrow> Some []
      | Some bm \<Rightarrow>
          if img_width img \<le> 0 \<or> img_height img \<le> 0 then Some []
          else
            (let npix = nat (img_width img) * nat (img_height img);
                 outSize = npix * outCh * nat (bits_per_channel img) div 8
             in if img_channels img = int outCh then DataImpl fb (Some bm) outSize
                else do {
                  r \<leftarrow> (case (bits_per_channel img = 8, bits_per_channel img = 16, bm) of
                         (True, _, Bytes bs) \<Rightarrow>
                           map_option (map_option id) (ConvertChannels bs (nat (img_channels img)) outCh npix 255)
                       | (_, True, Shorts ss) \<Rightarrow>
                           map_option (map_option (sample_bytes fb \<circ> Shorts))
                             (ConvertChannels ss (nat (img_channels img)) outCh npix 0xFFFF)
                       | (False, False, _) \<Rightarrow> Some None
                       | _ \<Rightarrow> None);
                  Some (case r of None \<Rightarrow> [] | Some d \<Rightarrow> d) }))"

definition RGBData :: "(real \<Rightarrow> 8 word list) \<Rightarrow> Image \<Rightarrow> 8 word list option" where
  "RGBData fb img = DataWithChannels fb 3 img"

definition RGBAData :: "(real \<Rightarrow> 8 word list) \<Rightarrow> Image \<Rightarrow> 8 word list option" where
  "RGBAData fb img = DataWithChannels fb 4 img"

datatype Channel = RED | GREEN | BLUE | ALPHA

fun channel_number :: "Channel \<Rightarrow> nat" where
  "channel_number RED = 0"
| "channel_number GREEN = 1"
| "channel_number BLUE = 2"
| "channel_number ALPHA = 3"

text \<open>The sample of a pixel as a byte; the conversion of a float out of range is undefined.\<close>

definition float_to_byte :: "real \<Rightarrow> 8 word option" where
  "float_to_byte x = (if - 1 < x \<and> x < 256 then Some (word_of_int (if x < 0 then 0 else \<lfloor>x\<rfloor>)) else None)"

definition channel_byte :: "int \<Rightarrow> samples \<Rightarrow> nat \<Rightarrow> 8 word option" where
  "channel_byte bpc bm i =
     (case bm of
        Bytes bs \<Rightarrow> (if bpc = 8 then elem_at bs i else None)
      | Shorts ss \<Rightarrow> (if bpc = 16 then map_option (\<lambda>s. ucast (drop_bit 8 s)) (elem_at ss i) else None)
      | Floats fs \<Rightarrow> (if bpc = 32 then Option.bind (elem_at fs i) (\<lambda>f. float_to_byte (f * 255)) else None))"

fun all_some :: "'a option list \<Rightarrow> 'a list option" where
  "all_some [] = Some []"
| "all_some (x # xs) = (case x of None \<Rightarrow> None | Some y \<Rightarrow> map_option ((#) y) (all_some xs))"

definition ChannelData :: "(real \<Rightarrow> 8 word list) \<Rightarrow> Channel \<Rightarrow> Image \<Rightarrow> 8 word list option" where
  "ChannelData fb c img =
     (case bitmap img of
        None \<Rightarrow> Some []
      | Some bm \<Rightarrow>
          (let n = unat (Image_Width img * Image_Height img); ch = img_channels img
           in if PixelFormat img = L_INT8 then
                (if c = ALPHA then Some (replicate n 255) else Image_Data fb img)
              else if (ch = 1 \<and> c \<noteq> RED) \<or> (ch = 3 \<and> c = ALPHA) then Some []
              else all_some (map (\<lambda>i. channel_byte (bits_per_channel img) bm (i * nat ch + channel_number c)) [0..<n])))"

subsection \<open>Colors\<close>

record 'c color_ops =
  default_color :: 'c
  Set_color :: "real \<Rightarrow> real \<Rightarrow> real \<Rightarrow> real \<Rightarrow> 'c \<Rightarrow> 'c"
  red_of :: "'c \<Rightarrow> real"
  green_of :: "'c \<Rightarrow> real"
  blue_of :: "'c \<Rightarrow> real"

definition readPixel :: "'c color_ops \<Rightarrow> real \<Rightarrow> ('a \<Rightarrow> real) \<Rightarrow> 'a list \<Rightarrow> nat \<Rightarrow> int \<Rightarrow> 'c \<Rightarrow> 'c option" where
  "readPixel C dv val xs i channels clr =
     (let px = (\<lambda>k. map_option (\<lambda>x. val x / dv) (elem_at xs (i + k)))
      in if channels = 1 then do { v \<leftarrow> px 0; Some (Set_color C v v v 1 clr) }
         else if channels = 3 then do { r \<leftarrow> px 0; g \<leftarrow> px 1; b \<leftarrow> px 2; Some (Set_color C r g b 1 clr) }
         else if channels = 4 then
           do { r \<leftarrow> px 0; g \<leftarrow> px 1; b \<leftarrow> px 2; a \<leftarrow> px 3; Some (Set_color C r g b a clr) }
         else Some clr)"

text \<open>The byte offset of a pixel, in 32-bit unsigned arithmetic, and its index among samples of \<open>k\<close>
  bytes.\<close>

definition pixel_offset :: "Image \<Rightarrow> 32 word \<Rightarrow> 32 word \<Rightarrow> nat" where
  "pixel_offset img x y =
     unat (y * word_of_int (img_width img) * Image_BPP img div 8) + unat (x * Image_BPP img div 8)"

definition sample_index :: "nat \<Rightarrow> nat \<Rightarrow> nat option" where
  "sample_index k off = (if k dvd off then Some (off div k) else None)"

definition Image_Pixel :: "'c color_ops \<Rightarrow> 32 word \<Rightarrow> 32 word \<Rightarrow> Image \<Rightarrow> 'c option" where
  "Image_Pixel C x y img =
     (case bitmap img of
        None \<Rightarrow> Some (default_color C)
      | Some bm \<Rightarrow>
          if x \<ge> Image_Width img \<or> y \<ge> Image_Height img then Some (default_color C)
          else
            (let y' = word_of_int (img_height img) - 1 - y;
                 off = pixel_offset img x y'; ch = img_channels img; clr = default_color C
             in case bm of
                  Bytes bs \<Rightarrow>
                    (if bits_per_channel img = 8
                     then readPixel C 255 (\<lambda>b. real (unat b)) bs off ch clr else None)
                | Shorts ss \<Rightarrow>
                    (if bits_per_channel img = 16
                     then do { i \<leftarrow> sample_index 2 off; readPixel C 65535 (\<lambda>s. real (unat s)) ss i ch clr } else None)
                | Floats fs \<Rightarrow>
                    (if bits_per_channel img = 32
                     then do { i \<leftarrow> sample_index 4 off; readPixel C 1 id fs i ch clr } else None)))"

text \<open>The pixels in the order of the two loops.\<close>

definition pixel_order :: "Image \<Rightarrow> (32 word \<times> 32 word) list" where
  "pixel_order img =
     concat (map (\<lambda>y. map (\<lambda>x. (word_of_nat x, word_of_nat y)) [0..<unat (Image_Width img)])
       [0..<unat (Image_Height img)])"

fun sum_colors :: "'c color_ops \<Rightarrow> Image \<Rightarrow> (32 word \<times> 32 word) list \<Rightarrow> real \<times> real \<times> real \<Rightarrow> (real \<times> real \<times> real) option" where
  "sum_colors C img [] acc = Some acc"
| "sum_colors C img ((x, y) # ps) acc =
     do {
       p \<leftarrow> Image_Pixel C x y img;
       sum_colors C img ps
         (case acc of (r, g, b) \<Rightarrow> (r + red_of C p, g + green_of C p, b + blue_of C p)) }"

text \<open>The sums divided by the number of pixels; for an image without pixels they are not
  numbers, \<^const>\<open>None\<close> inside.\<close>

definition AvgColor :: "'c color_ops \<Rightarrow> Image \<Rightarrow> (real \<times> real \<times> real) option option" where
  "AvgColor C img =
     map_option (\<lambda>(r, g, b).
         let n = real (unat (Image_Width img * Image_Height img))
         in if n = 0 then None else Some (r / n, g / n, b / n))
       (sum_colors C img (pixel_order img) (0, 0, 0))"

definition color_sum :: "'c color_ops \<Rightarrow> 'c \<Rightarrow> real" where
  "color_sum C c = red_of C c + green_of C c + blue_of C c"

fun max_colors :: "'c color_ops \<Rightarrow> Image \<Rightarrow> (32 word \<times> 32 word) list \<Rightarrow> 'c \<Rightarrow> 'c option" where
  "max_colors C img [] m = Some m"
| "max_colors C img ((x, y) # ps) m =
     do {
       p \<leftarrow> Image_Pixel C x y img;
       max_colors C img ps (if color_sum C p > color_sum C m then p else m) }"

definition MaxColor :: "'c color_ops \<Rightarrow> Image \<Rightarrow> 'c option" where
  "MaxColor C img =
     (if \<not> Image_Valid img then Some (default_color C)
      else max_colors C img (pixel_order img) (Set_color C 0 0 0 0 (default_color C)))"

subsection \<open>Rescaling and writing\<close>

text \<open>\<open>stbir_resize\<close> of a bitmap with its size to another size, for 1, 3 or 4 channels.\<close>

type_synonym stb_resize = "samples option \<Rightarrow> int \<times> int \<Rightarrow> int \<times> int \<Rightarrow> int \<Rightarrow> int \<Rightarrow> samples option"

definition Image_Rescale :: "stb_resize \<Rightarrow> int \<Rightarrow> int \<Rightarrow> Image \<Rightarrow> Image" where
  "Image_Rescale resize width height img =
     (if img_channels img \<notin> {1, 3, 4} then img
      else if bits_per_channel img \<notin> {8, 16, 32} then img
      else (case resize (bitmap img) (img_width img, img_height img) (width, height)
                   (img_channels img) (bits_per_channel img) of
              Some bm \<Rightarrow> img \<lparr> bitmap := Some bm, img_width := width, img_height := height \<rparr>
            | None \<Rightarrow> img))"

text \<open>The PNG encoder calls the write function with pieces of its output.\<close>

type_synonym png_writer = "int \<Rightarrow> int \<Rightarrow> int \<Rightarrow> samples option \<Rightarrow> int \<Rightarrow> 8 word list list"

definition vectorWriteFunc :: "8 word list \<Rightarrow> 8 word list \<Rightarrow> 8 word list" where
  "vectorWriteFunc piece buffer = buffer @ piece"

definition SavePNGToBuffer :: "png_writer \<Rightarrow> Image \<Rightarrow> 8 word list \<Rightarrow> 8 word list" where
  "SavePNGToBuffer png img buffer =
     (if bits_per_channel img \<noteq> 8 then buffer
      else fold vectorWriteFunc
        (png (img_width img) (img_height img) (img_channels img) (bitmap img)
          (img_width img * img_channels img * bits_per_channel img div 8)) buffer)"

definition SavePNG ::
    "png_writer \<Rightarrow> Image \<Rightarrow> string \<Rightarrow> (string \<rightharpoonup> 8 word list) \<Rightarrow> (string \<rightharpoonup> 8 word list)" where
  "SavePNG png img filename disk =
     (if bits_per_channel img \<noteq> 8 then disk
      else disk(filename \<mapsto> concat (png (img_width img) (img_height img) (img_channels img) (bitmap img)
          (img_width img * img_channels img))))"

subsection \<open>ConvertToRGBImage\<close>

text \<open>The template over a sample type whose largest and lowest values are \<open>tmax\<close> and \<open>tlow\<close>, for finite
  samples, with the differences and the quotient of samples taken in the reals; \<open>eq\<close> is \<open>math::equal\<close>. The byte of a normalized value out of range is undefined.\<close>

fun sample_range :: "real list \<Rightarrow> real \<times> real \<Rightarrow> real \<times> real" where
  "sample_range [] mm = mm"
| "sample_range (v # vs) (mn, mx) =
     sample_range vs (if v < mn then v else mn, if v > mx then v else mx)"

definition rgb_level :: "real \<Rightarrow> real \<Rightarrow> bool \<Rightarrow> real \<Rightarrow> 8 word option" where
  "rgb_level mn rng flip v =
     (let t = (v - mn) / rng; t = (if flip then 1 - t else t) in float_to_byte (255 * t))"

definition ConvertToRGBImage ::
    "(real \<Rightarrow> real \<Rightarrow> bool) \<Rightarrow> real \<Rightarrow> real \<Rightarrow> real list \<Rightarrow> 32 word \<Rightarrow> 32 word \<Rightarrow> real \<Rightarrow> real \<Rightarrow> bool \<Rightarrow> Image \<Rightarrow> Image option" where
  "ConvertToRGBImage eq tmax tlow data width height mn0 mx0 flip out =
     (let n = unat width * unat height
      in if 2 ^ 32 \<le> 3 * n \<or> length data < n then None
         else
           (let buffer = take n data;
                (mn, mx) = (if mn0 > tlow then sample_range buffer (tmax, tlow) else (tmax, tlow));
                mn = (if eq mn0 tmax then mn else mn0);
                mx = (if eq mx0 tlow then mx else mx0);
                rng = (if eq (mx - mn) 0 then 1 else mx - mn)
            in do {
                 levels \<leftarrow> all_some (map (rgb_level mn rng flip) buffer);
                 SetFromData (concat (map (\<lambda>r. [r, r, r]) levels)) width height RGB_INT8 out }))"

end
