(* ===== verification/Image_Facts.thy ===== *)
theory Image_Facts
  imports Image_Model
begin

section \<open>Facts about images\<close>

text \<open>
  Conversions between channel counts, raw data in and out, the two ways to read a pixel, the
  brightest pixel and the gray image of single-channel data.
\<close>

subsection \<open>Channel conversion\<close>

text \<open>The weights of the luminance add up to 256: a gray stays as it is.\<close>

lemma ComputeLuminance_gray [simp]: "ComputeLuminance v v v = v"
proof -
  have "uint v * 77 + uint v * 150 + 29 * uint v = uint v * 2 ^ 8" by simp
  then show ?thesis by (simp only: ComputeLuminance_def drop_bit_eq_div) simp
qed

text \<open>\<open>f\<close> makes pixels of \<open>m\<close> samples from pixels of \<open>n\<close>, and \<open>g\<close> makes them back.\<close>

definition undoes :: "nat \<Rightarrow> nat \<Rightarrow> ('a list \<Rightarrow> 'a list) \<Rightarrow> ('a list \<Rightarrow> 'a list) \<Rightarrow> bool" where
  "undoes n m f g \<longleftrightarrow> (\<forall>px. length px = n \<longrightarrow> length (f px) = m \<and> g (f px) = px)"

lemma convert_loop_length:
  "convert_loop f n npix src = Some d \<Longrightarrow> \<forall>px. length px = n \<longrightarrow> length (f px) = m \<Longrightarrow> length d = m * npix"
  by (induction npix arbitrary: src d) (auto split: if_splits)

lemma convert_loop_defined:
  "n * npix \<le> length src \<Longrightarrow> \<exists>d. convert_loop f n npix src = Some d"
  by (induction npix arbitrary: src) (auto simp: not_less)

lemma convert_loop_undone:
  "undoes n m f g \<Longrightarrow> length src = n * npix \<Longrightarrow> convert_loop f n npix src = Some d \<Longrightarrow>
     convert_loop g m npix d = Some src"
proof (induction npix arbitrary: src d)
  case (Suc npix)
  then obtain e where e: "convert_loop f n npix (drop n src) = Some e" "d = f (take n src) @ e"
    by (auto split: if_splits)
  have px: "length (f (take n src)) = m" "g (f (take n src)) = take n src"
    using Suc.prems(1,2) by (auto simp: undoes_def)
  have "convert_loop g m npix e = Some (drop n src)"
    by (rule Suc.IH [OF Suc.prems(1) _ e(1)]) (use Suc.prems(2) in simp)
  then show ?case using px by (simp add: e(2))
qed simp

definition widening :: "(nat \<times> nat) set" where
  "widening = {(1, 2), (1, 3), (1, 4), (2, 4), (3, 4)}"

lemma length_2_conv: "length xs = 2 \<longleftrightarrow> (\<exists>a b. xs = [a, b])"
  by (auto simp: numeral_2_eq_2 length_Suc_conv)

lemma length_3_conv: "length xs = 3 \<longleftrightarrow> (\<exists>a b c. xs = [a, b, c])"
  by (auto simp: numeral_3_eq_3 length_Suc_conv)

lemma convert_pixel_widening:
  assumes "(n, m) \<in> widening"
  shows "\<exists>f g. convert_pixel n m a = Some f \<and> convert_pixel m n a = Some g \<and> undoes n m f g"
  using assms unfolding widening_def
  by (elim insertE emptyE; clarsimp simp: convert_pixel_def undoes_def;
      auto simp: length_Suc_conv length_2_conv length_3_conv)

subsection \<open>Raw data\<close>

lemma swap_red_blue_nth:
  "3 * (i + n) \<le> length xs \<Longrightarrow>
     \<exists>ys. swap_red_blue n i xs = Some ys \<and> length ys = length xs \<and>
       (\<forall>j k. i \<le> j \<and> j < i + n \<and> k < 3 \<longrightarrow> ys ! (3 * j + k) = xs ! (3 * j + (2 - k))) \<and>
       (\<forall>p. p < 3 * i \<or> 3 * (i + n) \<le> p \<longrightarrow> ys ! p = xs ! p)"
proof (induction n arbitrary: i xs)
  case (Suc n)
  let ?xs = "xs [3 * i := xs ! (3 * i + 2), 3 * i + 2 := xs ! (3 * i)]"
  have len: "3 * i + 2 < length xs" using Suc.prems by simp
  obtain ys where ys: "swap_red_blue n (Suc i) ?xs = Some ys" "length ys = length xs"
    "\<And>j k. Suc i \<le> j \<Longrightarrow> j < Suc i + n \<Longrightarrow> k < 3 \<Longrightarrow> ys ! (3 * j + k) = ?xs ! (3 * j + (2 - k))"
    "\<And>p. p < 3 * Suc i \<or> 3 * (Suc i + n) \<le> p \<Longrightarrow> ys ! p = ?xs ! p"
    using Suc.IH [of "Suc i" ?xs] Suc.prems unfolding length_list_update by fastforce
  have "ys ! (3 * j + k) = xs ! (3 * j + (2 - k))" if "i \<le> j" "j < i + Suc n" "k < 3" for j k
  proof (cases "j = i")
    case True
    have "k = 0 \<or> k = 1 \<or> k = 2" using that(3) by auto
    moreover have "ys ! (3 * i + k) = ?xs ! (3 * i + k)" using that(3) by (intro ys(4)) auto
    ultimately show ?thesis using True len by (auto simp: nth_list_update)
  next
    case False
    then have "ys ! (3 * j + k) = ?xs ! (3 * j + (2 - k))" using that by (intro ys(3)) auto
    also have "\<dots> = xs ! (3 * j + (2 - k))" using False that by (simp add: nth_list_update)
    finally show ?thesis .
  qed
  moreover have "ys ! p = xs ! p" if "p < 3 * i \<or> 3 * (i + Suc n) \<le> p" for p
  proof -
    have "ys ! p = ?xs ! p" using that by (intro ys(4)) auto
    then show ?thesis using that by (auto simp: nth_list_update)
  qed
  ultimately show ?case using ys(1,2) len by auto
qed auto

text \<open>Sizes in unsigned integers that do not wrap.\<close>

lemma unat_mult_small:
  "unat a * unat b < 2 ^ LENGTH('l) \<Longrightarrow> unat (a * b :: 'l :: len word) = unat a * unat b"
  by (simp add: unat_mult_lem)

lemma raw_size:
  assumes "c \<in> {1, 3, 4 :: nat}" and "unat w * unat h * c < 2 ^ 32"
  shows "unat (h * (w * word_of_nat c) :: 32 word) = unat w * unat h * c"
proof (cases "h = 0")
  case False
  then have "1 \<le> unat h" by (simp add: Suc_le_eq unat_gt_0)
  have c: "unat (word_of_nat c :: 32 word) = c" using assms(1) by auto
  have "unat w * c \<le> unat w * unat h * c" using \<open>1 \<le> unat h\<close> by simp
  then have "unat w * c < 2 ^ 32" using assms(2) by (rule le_less_trans)
  then have wc: "unat (w * word_of_nat c) = unat w * c"
    using unat_mult_small [of w "word_of_nat c"] unfolding c by simp
  have eq: "unat h * (unat w * c) = unat w * unat h * c" by simp
  then have "unat h * unat (w * word_of_nat c) < 2 ^ LENGTH(32)" using assms(2) unfolding wc eq by simp
  from unat_mult_small [OF this] show ?thesis unfolding wc eq .
qed simp

lemma sint_word_of_nat: "n < 2 ^ 31 \<Longrightarrow> sint (word_of_nat n :: 32 word) = int n"
  by (simp add: signed_of_nat signed_take_bit_int_eq_self)

lemma sint_unat_small: "unat (w :: 32 word) < 2 ^ 31 \<Longrightarrow> sint w = int (unat w)"
  using sint_word_of_nat [of "unat w"] by simp

subsection \<open>Pixels\<close>

text \<open>Images whose size in bits is below \<open>2 ^ 32\<close>.\<close>

definition image_ok :: "Image \<Rightarrow> bool" where
  "image_ok img \<longleftrightarrow>
     0 \<le> img_width img \<and> 0 \<le> img_height img \<and> 0 \<le> img_channels img \<and> img_width img < 2 ^ 32 \<and> img_height img < 2 ^ 32 \<and>
     img_width img * img_height img * img_channels img * bits_per_channel img < 2 ^ 32 \<and>
     (\<exists>bs. bitmap img = Some (Bytes bs) \<and> bits_per_channel img = 8 \<and>
        int (length bs) = img_width img * img_height img * img_channels img)"

lemma unat_word_of_int: "0 \<le> a \<Longrightarrow> a < 2 ^ 32 \<Longrightarrow> unat (word_of_int a :: 32 word) = nat a"
  by (simp add: unat_eq_nat_uint uint_word_of_int_eq take_bit_int_eq_self)

lemma image_ok_sizes:
  assumes "image_ok img"
  shows "unat (Image_Width img) = nat (img_width img)" "unat (Image_Height img) = nat (img_height img)"
  using assms by (auto simp: image_ok_def Image_Width_def Image_Height_def Image_Valid_def unat_word_of_int)

lemma row_in_image:
  "x < w \<Longrightarrow> y < h \<Longrightarrow> y * w + x < h * (w :: nat)"
  by (metis (no_types, opaque_lifting) add.commute add_less_le_mono mult_Suc mult_le_mono1 Suc_leI
      less_le_trans nat_add_left_cancel_less)

text \<open>In such an image the offset is that of the pixel; \<open>y\<close> counts the rows of the bitmap.\<close>

lemma pixel_offset_ok:
  assumes ok: "image_ok img" and xy: "x < Image_Width img" "y < Image_Height img"
  shows "pixel_offset img x y =
    (unat y * nat (img_width img) + unat x) * nat (img_channels img)"
proof -
  obtain w h c where n: "img_width img = int w" "img_height img = int h" "img_channels img = int c"
    using ok by (metis image_ok_def nonneg_int_cases)
  have bits: "bits_per_channel img = 8" "Image_Valid img"
    using ok by (auto simp: image_ok_def Image_Valid_def)
  have "int w < int (2 ^ 32)" "int h < int (2 ^ 32)" "int (w * h * c * 8) < int (2 ^ 32)"
    using ok by (auto simp: image_ok_def n)
  then have lim: "w < 2 ^ 32" "h < 2 ^ 32" "w * h * c * 8 < 2 ^ 32"
    unfolding of_nat_less_iff by blast+
  have x: "unat x < w" and y: "unat y < h"
    using xy image_ok_sizes [OF ok] by (simp_all add: word_less_nat_alt n)
  then have h1: "1 \<le> h" and w1: "1 \<le> w" by auto
  have c8: "c * 8 < 2 ^ 32"
    using lim(3) h1 w1 by (intro le_less_trans [OF _ lim(3)]) (simp add: Suc_le_eq)
  have "Image_BPP img = word_of_int (int (c * 8))" using bits by (simp add: Image_BPP_def n)
  moreover have "0 \<le> int (c * 8)" "int (c * 8) < 2 ^ 32" using c8 by simp_all
  ultimately have bpp: "unat (Image_BPP img) = c * 8"
    using unat_word_of_int [of "int (c * 8)"] unfolding nat_int by simp
  have "unat y * w * (c * 8) \<le> h * w * (c * 8)" using y by (intro mult_le_mono) auto
  also have "\<dots> = w * h * c * 8" by simp
  finally have yw8: "unat y * w * (c * 8) < 2 ^ 32" using lim(3) by (rule le_less_trans)
  have ww: "unat (word_of_int (int w) :: 32 word) = w" using lim(1) by (simp add: unat_of_nat)
  have "unat y * w < 2 ^ LENGTH(32) \<or> c = 0"
  proof (cases "c = 0")
    case False
    then have "unat y * w \<le> unat y * w * (c * 8)" by simp
    from this yw8 have "unat y * w < 2 ^ 32" by (rule le_less_trans)
    then show ?thesis by simp
  qed simp
  then have 1: "unat (y * word_of_int (int w) * Image_BPP img div 8) = unat y * w * c"
  proof
    assume "c = 0"
    then have "Image_BPP img = 0" using bpp by (simp add: unat_eq_0)
    then show ?thesis using \<open>c = 0\<close> by simp
  next
    assume "unat y * w < 2 ^ LENGTH(32)"
    then have "unat (y * word_of_int (int w)) = unat y * w"
      using unat_mult_small [of y "word_of_int (int w)"] unfolding ww by simp
    then have "unat (y * word_of_int (int w) * Image_BPP img) = unat y * w * (c * 8)"
      using unat_mult_small [of "y * word_of_int (int w)" "Image_BPP img"] yw8 unfolding bpp by simp
    then show ?thesis by (simp add: unat_div)
  qed
  have "unat x * (c * 8) \<le> w * (c * 8) * h"
    using mult_le_mono [OF mult_le_mono1 [OF less_imp_le [OF x], of "c * 8"] h1] by simp
  also have "\<dots> = w * h * c * 8" by simp
  finally have "unat x * (c * 8) \<le> w * h * c * 8" .
  from this lim(3) have "unat x * (c * 8) < 2 ^ 32" by (rule le_less_trans)
  then have "unat (x * Image_BPP img) = unat x * (c * 8)"
    using unat_mult_small [of x "Image_BPP img"] unfolding bpp by simp
  then have 2: "unat (x * Image_BPP img div 8) = unat x * c" by (simp add: unat_div)
  show ?thesis unfolding pixel_offset_def n 1 2 by (simp add: distrib_right)
qed

text \<open>Beyond that size the offset wraps: in an image of 16384 x 16384 RGBA pixels row 8192 is read from
  the start of the bitmap.\<close>

lemma pixel_offset_wraps:
  "pixel_offset \<lparr> bitmap = Some (Bytes bs), fullName = [], img_width = 16384, img_height = 16384,
     img_channels = 4, bits_per_channel = 8 \<rparr> 0 8192 = 0"
  by (simp add: pixel_offset_def Image_BPP_def Image_Valid_def)

subsection \<open>Channel data\<close>

lemma all_some_map: "\<forall>i \<in> set is. f i = Some (g i) \<Longrightarrow> all_some (map f is) = Some (map g is)"
  by (induction "is") auto

lemma all_some_SomeD:
  "all_some xs = Some ys \<Longrightarrow> length ys = length xs \<and> (\<forall>i < length xs. xs ! i = Some (ys ! i))"
  by (induction xs arbitrary: ys) (auto simp: less_Suc_eq_0_disj split: option.splits)

lemma sample_in_bitmap:
  assumes "p < n" "k < (c :: nat)"
  shows "p * c + k < n * c"
proof -
  have "p * c + k < Suc p * c" using assms(2) by simp
  also have "\<dots> \<le> n * c" using assms(1) by (intro mult_le_mono1) simp
  finally show ?thesis .
qed

lemma image_ok_bytes:
  assumes "image_ok img"
  obtains bs w h c where "bitmap img = Some (Bytes bs)" "bits_per_channel img = 8"
    "img_width img = int w" "img_height img = int h" "img_channels img = int c"
    "length bs = w * h * c" "w * h * c * 8 < 2 ^ 32" "w < 2 ^ 32" "h < 2 ^ 32"
proof -
  obtain w h c where n: "img_width img = int w" "img_height img = int h" "img_channels img = int c"
    using assms by (metis image_ok_def nonneg_int_cases)
  obtain bs where bs: "bitmap img = Some (Bytes bs)" "bits_per_channel img = 8"
      "int (length bs) = int (w * h * c)"
    using assms by (auto simp: image_ok_def n)
  have "int w < int (2 ^ 32)" "int h < int (2 ^ 32)" "int (w * h * c * 8) < int (2 ^ 32)"
    using assms bs(2) by (auto simp: image_ok_def n)
  then show ?thesis
    using that [OF bs(1,2) n] bs(3) unfolding of_nat_less_iff of_nat_eq_iff by blast
qed

lemma pixel_count:
  assumes "image_ok img" and "img_channels img \<noteq> 0"
  shows "unat (Image_Width img * Image_Height img) = nat (img_width img) * nat (img_height img)"
proof -
  obtain w h c where n: "img_width img = int w" "img_height img = int h" "img_channels img = int c"
      "w * h * c * 8 < 2 ^ 32"
    by (rule image_ok_bytes [OF assms(1)])
  have "1 \<le> c * 8" using assms(2) n(3) by (cases c) auto
  then have "w * h * 1 \<le> w * h * (c * 8)" by (rule mult_le_mono2)
  also have "\<dots> = w * h * c * 8" by simp
  finally have "w * h * 1 < 2 ^ 32" using n(4) by (rule le_less_trans)
  then show ?thesis
    using unat_mult_small [of "Image_Width img" "Image_Height img"] unfolding image_ok_sizes [OF assms(1)] n nat_int
    by simp
qed

lemma ChannelData_bytes:
  assumes ok: "image_ok img" and bs: "bitmap img = Some (Bytes bs)"
    and ch: "img_channels img = int ch" "ch \<in> {3, 4}" and c: "ch = 3 \<longrightarrow> c \<noteq> ALPHA"
  shows "ChannelData fb c img =
    Some (map (\<lambda>p. bs ! (p * ch + channel_number c)) [0..<nat (img_width img) * nat (img_height img)])"
proof -
  have ch0: "img_channels img \<noteq> 0" using ch by auto
  have bits: "bits_per_channel img = 8" using ok by (auto simp: image_ok_def)
  have len: "length bs = nat (img_width img) * nat (img_height img) * ch"
    using ok bs ch by (rule_tac image_ok_bytes [OF ok]) auto
  have "channel_number c < ch" using ch(2) c by (cases c) auto
  then have "\<forall>p \<in> set [0..<nat (img_width img) * nat (img_height img)].
      channel_byte 8 (Bytes bs) (p * ch + channel_number c) = Some (bs ! (p * ch + channel_number c))"
    using sample_in_bitmap by (auto simp: channel_byte_def elem_at_def len)
  from all_some_map [OF this] show ?thesis
    using ch c bs bits pixel_count [OF ok ch0]
    by (auto simp: ChannelData_def PixelFormat_def Let_def)
qed

text \<open>The place of a pixel in the bitmap.\<close>

lemma pixel_place:
  assumes "image_ok img" and "x < Image_Width img" and "y < Image_Height img"
  shows "pixel_offset img x (word_of_int (img_height img) - 1 - y) =
      (nat (img_height img - 1 - int (unat y)) * nat (img_width img) + unat x) * nat (img_channels img)"
    and "nat (img_height img - 1 - int (unat y)) * nat (img_width img) + unat x < nat (img_width img) * nat (img_height img)"
proof -
  obtain w h where n: "img_width img = int w" "img_height img = int h" "h < 2 ^ 32"
    by (rule image_ok_bytes [OF assms(1)])
  have x: "unat x < w" and y: "unat y < h"
    using assms(2,3) image_ok_sizes [OF assms(1)] by (simp_all add: word_less_nat_alt n)
  define y' where "y' = word_of_int (img_height img) - 1 - y"
  have eq: "word_of_int (int h) - 1 - y = word_of_nat (h - 1 - unat y)"
    using y by (simp add: of_nat_diff)
  have y': "unat y' = h - 1 - unat y"
    unfolding y'_def n(2) eq unat_of_nat using n(3) by (intro mod_less) simp
  have row: "nat (int h - 1 - int u) = h - 1 - u" for u by simp
  have "y' < Image_Height img"
    using y y' image_ok_sizes(2) [OF assms(1)] by (simp add: word_less_nat_alt n)
  from pixel_offset_ok [OF assms(1,2) this]
  show "pixel_offset img x (word_of_int (img_height img) - 1 - y) =
      (nat (img_height img - 1 - int (unat y)) * nat (img_width img) + unat x) * nat (img_channels img)"
    unfolding y'_def [symmetric] by (simp only: n y' row nat_int)
  have "(h - 1 - unat y) * w + unat x < h * w" using x y by (intro row_in_image) auto
  then show "nat (img_height img - 1 - int (unat y)) * nat (img_width img) + unat x <
      nat (img_width img) * nat (img_height img)"
    unfolding n row nat_int by (simp only: mult.commute)
qed

subsection \<open>Properties\<close>

text \<open>
  C25. Converting from one channel to 2, 3 or 4, from 2 to 4 or from 3 to 4 loses nothing: converting back gives
  the same samples, also where that computes a luminance. (From 2 channels to 3 the alpha channel is
  lost, so that case is not among them.)
\<close>

theorem ConvertChannels_widening:
  assumes "(n, m) \<in> widening" and "length src = n * npix"
  shows "\<exists>d. ConvertChannels src n m npix a = Some (Some d) \<and> length d = m * npix \<and>
     ConvertChannels d m n npix a = Some (Some src)"
proof -
  obtain f g where fg: "convert_pixel n m a = Some f" "convert_pixel m n a = Some g" "undoes n m f g"
    using convert_pixel_widening [OF assms(1), of a] by blast
  obtain d where d: "convert_loop f n npix src = Some d"
    using convert_loop_defined [of n npix src f] assms(2) by auto
  have "length d = m * npix" using convert_loop_length [OF d, of m] fg(3) by (auto simp: undoes_def)
  moreover have "convert_loop g m npix d = Some src" by (rule convert_loop_undone [OF fg(3) assms(2) d])
  ultimately show ?thesis using fg d by (simp add: ConvertChannels_def)
qed

lemma ConvertChannels_widening_witness:
  "ConvertChannels [10, 20 :: 8 word] 1 3 2 255 = Some (Some [10, 10, 10, 20, 20, 20]) \<and>
   ConvertChannels [10, 10, 10, 20, 20, 20 :: 8 word] 3 1 2 255 = Some (Some [10, 20])"
proof -
  have "(1, 3) \<in> widening" by (simp add: widening_def)
  moreover have "ConvertChannels [10, 20 :: 8 word] 1 3 2 255 = Some (Some [10, 10, 10, 20, 20, 20])"
    by (simp add: ConvertChannels_def convert_pixel_def numeral_2_eq_2)
  ultimately show ?thesis
    using ConvertChannels_widening [of 1 3 "[10, 20 :: 8 word]" 2 255] by auto
qed

text \<open>
  C24. In an image of 8 bits per channel and three or four channels whose size in bits is below \<open>2 ^ 32\<close>, and
  for a pixel inside it, the color \<open>Pixel\<close> gives has the components that the channel data have at the pixel's
  place, where row 0 is the last one of the bitmap; alpha is 1 when there is no such channel.
\<close>

theorem Image_Pixel_channels:
  assumes "image_ok img" and "img_channels img \<in> {3, 4}"
    and "x < Image_Width img" and "y < Image_Height img"
  shows "\<exists>r g b a. ChannelData fb RED img = Some r \<and> ChannelData fb GREEN img = Some g \<and>
     ChannelData fb BLUE img = Some b \<and> ChannelData fb ALPHA img = Some a \<and>
     (let p = nat (img_height img - 1 - int (unat y)) * nat (img_width img) + unat x;
          v = (\<lambda>xs. real (unat (xs ! p)) / 255)
      in Image_Pixel C x y img =
           Some (Set_color C (v r) (v g) (v b) (if img_channels img = 3 then 1 else v a) (default_color C)))"
proof -
  obtain bs w h ch where bs: "bitmap img = Some (Bytes bs)" "bits_per_channel img = 8"
    and n: "img_width img = int w" "img_height img = int h" "img_channels img = int ch" "length bs = w * h * ch"
    by (rule image_ok_bytes [OF assms(1)])
  have ch: "ch \<in> {3, 4}" using assms(2) n(3) by auto
  define y' where "y' = word_of_int (img_height img) - 1 - y"
  define p where "p = nat (img_height img - 1 - int (unat y)) * nat (img_width img) + unat x"
  have off: "pixel_offset img x y' = p * ch" and "p < w * h"
    using pixel_place [OF assms(1,3,4)] unfolding p_def y'_def n nat_int by simp_all
  then have at: "elem_at bs (p * ch + k) = Some (bs ! (p * ch + k))" if "k < ch" for k
    using sample_in_bitmap [of p "w * h" k ch] that n(4) by (simp add: elem_at_def)
  have data: "ChannelData fb c img = Some (map (\<lambda>p. bs ! (p * ch + channel_number c)) [0..<w * h])"
    if "ch = 3 \<longrightarrow> c \<noteq> ALPHA" for c
    using ChannelData_bytes [OF assms(1) bs(1) n(3) ch that, of fb] by (simp add: n)
  have pixel: "Image_Pixel C x y img = Some (Set_color C (real (unat (bs ! (p * ch))) / 255)
      (real (unat (bs ! (p * ch + 1))) / 255) (real (unat (bs ! (p * ch + 2))) / 255)
      (if ch = 3 then 1 else real (unat (bs ! (p * ch + 3))) / 255) (default_color C))"
    using assms(3,4) ch at [of 0] at [of 1] at [of 2] at [of 3]
    by (auto simp: Image_Pixel_def bs Let_def y'_def [symmetric] off readPixel_def n(3))
  show ?thesis
  proof (cases "ch = 3")
    case True
    have "ChannelData fb ALPHA img = Some []"
      using True bs n(3) by (simp add: ChannelData_def PixelFormat_def)
    then show ?thesis
      using data [of RED] data [of GREEN] data [of BLUE] pixel True \<open>p < w * h\<close>
      unfolding Let_def p_def [symmetric] by (simp add: n(3))
  next
    case False
    then show ?thesis
      using data [of RED] data [of GREEN] data [of BLUE] data [of ALPHA] pixel \<open>p < w * h\<close>
      unfolding Let_def p_def [symmetric] by (simp add: n(3))
  qed
qed

text \<open>A bitmap of two rows with one RGB pixel each.\<close>

definition two_rows :: Image where
  "two_rows =
     \<lparr> bitmap = Some (Bytes [51, 0, 0, 255, 0, 102]), fullName = [], img_width = 1, img_height = 2,
       img_channels = 3, bits_per_channel = 8 \<rparr>"

lemma two_rows_ok: "image_ok two_rows"
  by (simp add: image_ok_def two_rows_def)

definition list_colors :: "real list color_ops" where
  "list_colors =
     \<lparr> default_color = [0, 0, 0, 1], Set_color = \<lambda>r g b a c. [r, g, b, a],
       red_of = \<lambda>c. c ! 0, green_of = \<lambda>c. c ! 1, blue_of = \<lambda>c. c ! 2 \<rparr>"

lemma Image_Pixel_channels_witness:
  "Image_Pixel list_colors 0 0 two_rows = Some [1, 0, 2 / 5, 1]"
proof -
  have d: "ChannelData (\<lambda>_. []) RED two_rows = Some [51, 255]"
    "ChannelData (\<lambda>_. []) GREEN two_rows = Some [0, 0]" "ChannelData (\<lambda>_. []) BLUE two_rows = Some [0, 102]"
    by (simp_all add: ChannelData_def two_rows_def PixelFormat_def Image_Width_def Image_Height_def
        Image_Valid_def channel_byte_def elem_at_def Let_def upt_rec)
  have "(0 :: 32 word) < Image_Width two_rows" "(0 :: 32 word) < Image_Height two_rows"
    by (simp_all add: two_rows_def Image_Width_def Image_Height_def Image_Valid_def)
  from Image_Pixel_channels [OF two_rows_ok _ this, of "\<lambda>_. []" list_colors] show ?thesis
    using d by (auto simp: two_rows_def list_colors_def Let_def)
qed

end
