(* ===== verification/Image_Colors.thy ===== *)
theory Image_Colors
  imports Image_Facts
begin

section \<open>Facts about images: raw data, extreme colors, gray images\<close>

text \<open>
  What \<open>SetFromData\<close> stores, that the brightest pixel is the brightest, and that the gray image of
  single-channel data orders its pixels as the data and uses the whole range.
\<close>

subsection \<open>Raw data\<close>

lemma RGB_size:
  assumes "unat w * unat h * 3 < 2 ^ 32"
  shows "unat (h * (w * 3) :: 32 word) = unat w * unat h * 3"
  using raw_size [of 3 w h] assms by simp

lemma count_size:
  assumes "unat w * unat h * 3 < 2 ^ 32"
  shows "unat (w * h :: 32 word) = unat w * unat h"
proof -
  have "unat w * unat h < 2 ^ LENGTH(32)" using assms by simp
  then show ?thesis by (rule unat_mult_small)
qed

lemma SetFromData_RGB:
  assumes "unat w * unat h * 3 < 2 ^ 32" and "unat w * unat h * 3 \<le> length data"
  shows "SetFromData data w h RGB_INT8 img = Some (img \<lparr> bitmap := Some (Bytes (take (unat w * unat h * 3) data)),
    bits_per_channel := 8, img_width := sint w, img_height := sint h, img_channels := 3 \<rparr>)"
  using assms(2) by (simp add: SetFromData_def raw_layout_def set_bitmap_def RGB_size [OF assms(1)])

text \<open>
  Data with blue first are stored with red first: the RGB data of the image have the samples of each
  pixel in the opposite order, and the image has the given size.
\<close>

theorem SetFromData_BGR:
  assumes "unat w < 2 ^ 31" and "unat h < 2 ^ 31" and "0 < unat w * unat h" and "unat w * unat h * 3 < 2 ^ 32"
    and "length data = unat w * unat h * 3"
  shows "\<exists>img' d. SetFromData data w h BGR_INT8 img = Some img' \<and> RGBData fb img' = Some d \<and>
     Image_Width img' = w \<and> Image_Height img' = h \<and> length d = length data \<and>
     (\<forall>i < unat w * unat h. \<forall>k < 3. d ! (3 * i + k) = data ! (3 * i + (2 - k)))"
proof -
  let ?n = "unat w * unat h"
  have "3 * (0 + ?n) \<le> length data" using assms(5) by simp
  from swap_red_blue_nth [OF this] obtain d where d: "swap_red_blue ?n 0 data = Some d" "length d = length data"
      "\<forall>i k. i < ?n \<and> k < 3 \<longrightarrow> d ! (3 * i + k) = data ! (3 * i + (2 - k))"
    by auto
  define img' where "img' = img \<lparr> bitmap := Some (Bytes d), bits_per_channel := 8, img_width := int (unat w),
      img_height := int (unat h), img_channels := 3 \<rparr>"
  have "SetFromData data w h BGR_INT8 img = Some img'"
    using assms(5) d(1) by (simp add: SetFromData_def raw_layout_def set_bitmap_def RGB_size [OF assms(4)]
        count_size [OF assms(4)] sint_unat_small [OF assms(1)] sint_unat_small [OF assms(2)] img'_def)
  moreover have "RGBData fb img' = Some d"
  proof -
    have "\<not> (int a \<le> 0 \<or> int b \<le> 0)" if "0 < a * b" for a b :: nat using that by auto
    from this [OF assms(3)] have "\<not> (int (unat w) \<le> 0 \<or> int (unat h) \<le> 0)" .
    moreover have "length d = unat w * unat h * 3" using d(2) assms(5) by simp
    ultimately show ?thesis
      by (simp add: RGBData_def DataWithChannels_def img'_def DataImpl_def Let_def)
  qed
  moreover have "Image_Width img' = w" "Image_Height img' = h"
    by (simp_all add: Image_Width_def Image_Height_def Image_Valid_def img'_def)
  ultimately show ?thesis using d(2,3) by blast
qed

subsection \<open>The names of the formats\<close>

lemma ConvertPixelFormat_name:
  "i < length PixelFormatNames \<Longrightarrow> ConvertPixelFormat (PixelFormatNames ! i) = numbered_formats ! i"
proof -
  have all: "list_all (\<lambda>i. ConvertPixelFormat (PixelFormatNames ! i) = numbered_formats ! i) [0..<21]"
    by code_simp
  assume "i < length PixelFormatNames"
  then show ?thesis using all by (simp add: PixelFormatNames_def list_all_iff)
qed

text \<open>A gray image with alpha has two channels; the third channel of its last pixel is read past the
  end of the bitmap.\<close>

lemma ChannelData_two_channels:
  "ChannelData fb BLUE \<lparr> bitmap = Some (Bytes [g, a]), fullName = [], img_width = 1, img_height = 1,
     img_channels = 2, bits_per_channel = 8 \<rparr> = None"
  by (simp add: ChannelData_def PixelFormat_def Image_Width_def Image_Height_def Image_Valid_def
      channel_byte_def elem_at_def Let_def)

text \<open>When a file cannot be decoded the old size stays behind, and \<open>Data\<close> reads through the null
  pointer.\<close>

lemma Image_Data_after_failed_load:
  assumes "bitmap img = Some (Bytes bs)" and "0 < img_height img * Image_Pitch img"
    and "ex f" and "\<not> is_hdr stb f" and "\<not> is_16_bit stb f" and "stb_load stb f 0 = None"
  shows "\<exists>img'. Image_Load stb ex dir sp f img = Some (- 1, img') \<and> Image_Data fb img' = None"
  using assms by (auto simp: Image_Load_def image_path_def stb_decode_def Image_Data_def DataImpl_def Image_Pitch_def)

subsection \<open>The extreme color\<close>

lemma max_colors_max:
  "\<forall>(x, y) \<in> set ps. Image_Pixel C x y img \<noteq> None \<Longrightarrow>
     \<exists>m'. max_colors C img ps m = Some m' \<and> color_sum C m \<le> color_sum C m' \<and>
       (m' = m \<or> (\<exists>(x, y) \<in> set ps. Image_Pixel C x y img = Some m')) \<and>
       (\<forall>(x, y) \<in> set ps. \<forall>p. Image_Pixel C x y img = Some p \<longrightarrow> color_sum C p \<le> color_sum C m')"
proof (induction ps arbitrary: m)
  case (Cons xy ps)
  obtain x y where xy: "xy = (x, y)" by fastforce
  then obtain p where p: "Image_Pixel C x y img = Some p" using Cons.prems by auto
  let ?m = "if color_sum C p > color_sum C m then p else m"
  obtain m' where m': "max_colors C img ps ?m = Some m'" "color_sum C ?m \<le> color_sum C m'"
      "m' = ?m \<or> (\<exists>(x, y) \<in> set ps. Image_Pixel C x y img = Some m')"
      "\<forall>(x, y) \<in> set ps. \<forall>p. Image_Pixel C x y img = Some p \<longrightarrow> color_sum C p \<le> color_sum C m'"
    using Cons.IH [of ?m] Cons.prems by auto
  have "color_sum C p \<le> color_sum C m'" "color_sum C m \<le> color_sum C m'"
    using m'(2) by (auto split: if_splits)
  moreover have "m' = m \<or> (\<exists>(x, y) \<in> set (xy # ps). Image_Pixel C x y img = Some m')"
    using m'(3) p by (auto simp: xy split: if_splits)
  ultimately show ?case using m'(1,4) p by (auto simp: xy)
qed simp

lemma pixel_order_set:
  "(x, y) \<in> set (pixel_order img) \<longleftrightarrow> x < Image_Width img \<and> y < Image_Height img"
proof
  assume "x < Image_Width img \<and> y < Image_Height img"
  then have "unat x < unat (Image_Width img)" "unat y < unat (Image_Height img)"
    by (simp_all add: word_less_nat_alt)
  then show "(x, y) \<in> set (pixel_order img)"
    by (auto simp: pixel_order_def intro!: bexI [of _ "unat y"] image_eqI [of _ _ "unat x"])
next
  have less: "word_of_nat i < (w :: 32 word)" if "i < unat w" for i w
    using that by (simp add: word_less_nat_alt unat_of_nat)
  assume "(x, y) \<in> set (pixel_order img)"
  then show "x < Image_Width img \<and> y < Image_Height img"
    using less by (auto simp: pixel_order_def)
qed

lemma Image_Pixel_defined:
  assumes "image_ok img" and "x < Image_Width img" and "y < Image_Height img"
  shows "\<exists>p. Image_Pixel C x y img = Some p"
proof -
  obtain bs w h ch where bs: "bitmap img = Some (Bytes bs)" "bits_per_channel img = 8"
    and n: "img_width img = int w" "img_height img = int h" "img_channels img = int ch" "length bs = w * h * ch"
    by (rule image_ok_bytes [OF assms(1)])
  obtain p where p: "pixel_offset img x (word_of_int (int h) - 1 - y) = p * ch" "p < w * h"
    using pixel_place [OF assms] unfolding n nat_int by blast
  have at: "elem_at bs (p * ch + k) = Some (bs ! (p * ch + k))" if "k < ch" for k
    using sample_in_bitmap [OF p(2) that] n(4) by (simp add: elem_at_def)
  have "\<exists>q. readPixel C 255 (\<lambda>b. real (unat b)) bs (p * ch) (int ch) clr = Some q" for clr
    using at [of 0] at [of 1] at [of 2] at [of 3] by (auto simp: readPixel_def)
  then show ?thesis
    using assms(2,3) by (simp add: Image_Pixel_def bs n p(1) [simplified] Let_def not_le [symmetric])
qed

text \<open>
  In an 8-bit image whose size in bits stays below \<open>2 ^ 32\<close>, \<open>MaxColor\<close> is a pixel of the image, or
  black, and no pixel has a larger sum of red, green and blue.
\<close>

theorem MaxColor_max:
  assumes "image_ok img"
  shows "\<exists>m. MaxColor C img = Some m \<and>
     (m = Set_color C 0 0 0 0 (default_color C) \<or>
      (\<exists>x y. x < Image_Width img \<and> y < Image_Height img \<and> Image_Pixel C x y img = Some m)) \<and>
     (\<forall>x y. x < Image_Width img \<and> y < Image_Height img \<longrightarrow>
        (\<exists>p. Image_Pixel C x y img = Some p \<and> color_sum C p \<le> color_sum C m))"
proof -
  have def: "\<exists>p. Image_Pixel C x y img = Some p" if "(x, y) \<in> set (pixel_order img)" for x y
    using Image_Pixel_defined [OF assms, of x y C] that by (simp add: pixel_order_set)
  then have "\<forall>(x, y) \<in> set (pixel_order img). Image_Pixel C x y img \<noteq> None" by force
  from max_colors_max [OF this, of "Set_color C 0 0 0 0 (default_color C)"] obtain m where
    m: "max_colors C img (pixel_order img) (Set_color C 0 0 0 0 (default_color C)) = Some m"
    "m = Set_color C 0 0 0 0 (default_color C) \<or> (\<exists>(x, y) \<in> set (pixel_order img). Image_Pixel C x y img = Some m)"
    "\<forall>(x, y) \<in> set (pixel_order img). \<forall>p. Image_Pixel C x y img = Some p \<longrightarrow> color_sum C p \<le> color_sum C m"
    by blast
  have "Image_Valid img" using assms by (auto simp: image_ok_def Image_Valid_def)
  then have "MaxColor C img = Some m" using m(1) by (simp add: MaxColor_def)
  moreover have "\<exists>p. Image_Pixel C x y img = Some p \<and> color_sum C p \<le> color_sum C m"
    if "x < Image_Width img \<and> y < Image_Height img" for x y
    using def [of x y] m(3) that by (fastforce simp: pixel_order_set)
  moreover have "m = Set_color C 0 0 0 0 (default_color C) \<or>
      (\<exists>x y. x < Image_Width img \<and> y < Image_Height img \<and> Image_Pixel C x y img = Some m)"
    using m(2) by (auto simp: pixel_order_set)
  ultimately show ?thesis by blast
qed

subsection \<open>Gray images\<close>

lemma sample_range_bounds:
  "sample_range vs (mn, mx) = (a, b) \<Longrightarrow>
     a \<le> mn \<and> mx \<le> b \<and> (\<forall>v \<in> set vs. a \<le> v \<and> v \<le> b) \<and>
     (a = mn \<or> a \<in> set vs) \<and> (b = mx \<or> b \<in> set vs)"
proof (induction vs arbitrary: mn mx)
  case (Cons v vs)
  from Cons.IH [of "if v < mn then v else mn" "if v > mx then v else mx"] Cons.prems
  show ?case by (auto split: if_splits)
qed simp

definition byte_of_unit :: "real \<Rightarrow> 8 word" where
  "byte_of_unit t = word_of_int \<lfloor>255 * t\<rfloor>"

lemma float_to_byte_unit: "0 \<le> t \<Longrightarrow> t \<le> 1 \<Longrightarrow> float_to_byte (255 * t) = Some (byte_of_unit t)"
  by (simp add: float_to_byte_def byte_of_unit_def)

lemma unat_byte_of_unit:
  assumes "0 \<le> t" "t \<le> 1"
  shows "unat (byte_of_unit t) = nat \<lfloor>255 * t\<rfloor>"
proof -
  have "0 \<le> \<lfloor>255 * t\<rfloor>" "\<lfloor>255 * t\<rfloor> < 256" using assms by (simp_all add: floor_less_iff)
  then show ?thesis
    by (simp add: byte_of_unit_def unat_eq_nat_uint uint_word_of_int_eq take_bit_int_eq_self)
qed

text \<open>
  C26. Without given limits \<open>ConvertToRGBImage\<close> makes a gray image of the size given: each pixel has three
  equal components, a larger value is never darker, the smallest values are black and the largest
  ones, unless they count as equal to the smallest, white.
\<close>

theorem ConvertToRGBImage_gray:
  assumes "3 * (unat w * unat h) < 2 ^ 32" and "length data = unat w * unat h" and "data \<noteq> []"
    and "\<And>x. eq x x" and "\<And>x. eq x 0 \<Longrightarrow> \<bar>x\<bar> \<le> 1" and "tlow < tmax"
    and "\<forall>v \<in> set data. tlow < v \<and> v < tmax"
  shows "\<exists>img' level. ConvertToRGBImage eq tmax tlow data w h tmax tlow False img = Some img' \<and>
     bitmap img' = Some (Bytes (concat (map (\<lambda>v. [level v, level v, level v]) data))) \<and>
     (\<forall>u \<in> set data. \<forall>v \<in> set data. u \<le> v \<longrightarrow> level u \<le> level v) \<and>
     level (Min (set data)) = 0 \<and>
     (eq (Max (set data) - Min (set data)) 0 \<or> level (Max (set data)) = 255)"
proof -
  obtain a b where ab: "sample_range data (tmax, tlow) = (a, b)" by fastforce
  note bounds = sample_range_bounds [OF ab]
  have a: "a \<in> set data" and b: "b \<in> set data"
    using bounds assms(3,7) by (metis last_in_set leD less_le_not_le)+
  have minmax: "a = Min (set data)" "b = Max (set data)"
    using bounds a b by (auto intro!: Min_eqI [symmetric] Max_eqI [symmetric])
  define r where "r = (if eq (b - a) 0 then 1 else b - a)"
  have "a \<le> b" using bounds a by blast
  have r: "0 < r" "b - a \<le> r"
    using \<open>a \<le> b\<close> assms(4) [of 0] assms(5) [of "b - a"] by (cases "a = b"; force simp: r_def)+
  define t where "t = (\<lambda>v. (v - a) / r)"
  have t: "0 \<le> t v" "t v \<le> 1" if "v \<in> set data" for v
  proof -
    have "a \<le> v" "v \<le> b" using bounds that by blast+
    then show "0 \<le> t v" "t v \<le> 1" using r by (simp_all add: t_def divide_le_eq)
  qed
  have mono: "byte_of_unit (t u) \<le> byte_of_unit (t v)" if "u \<in> set data" "v \<in> set data" "u \<le> v" for u v
  proof -
    have "t u \<le> t v" using that(3) r(1) by (simp add: t_def divide_right_mono)
    then have "\<lfloor>255 * t u\<rfloor> \<le> \<lfloor>255 * t v\<rfloor>" by (intro floor_mono) simp
    then show ?thesis using t that by (simp add: word_le_nat_alt unat_byte_of_unit nat_mono)
  qed
  have n: "unat w * unat h * 3 < 2 ^ 32" using assms(1) by (simp add: mult.commute)
  have levels: "all_some (map (rgb_level a r False) data) = Some (map (\<lambda>v. byte_of_unit (t v)) data)"
    by (intro all_some_map) (simp add: rgb_level_def float_to_byte_unit [OF t, unfolded t_def] t_def
        del: times_divide_eq_right)
  have len: "length (concat (map (\<lambda>v. [byte_of_unit (t v), byte_of_unit (t v), byte_of_unit (t v)]) data)) = unat w * unat h * 3"
    using assms(2) by (simp add: length_concat comp_def sum_list_triv)
  have "ConvertToRGBImage eq tmax tlow data w h tmax tlow False img =
      SetFromData (concat (map (\<lambda>r. [r, r, r]) (map (\<lambda>v. byte_of_unit (t v)) data))) w h RGB_INT8 img"
    using assms(1,2,4,6) ab levels by (simp add: ConvertToRGBImage_def Let_def r_def [symmetric])
  then obtain img' where "ConvertToRGBImage eq tmax tlow data w h tmax tlow False img = Some img'"
    "bitmap img' = Some (Bytes (concat (map (\<lambda>v. [byte_of_unit (t v), byte_of_unit (t v), byte_of_unit (t v)]) data)))"
    using SetFromData_RGB [OF n, of "concat (map (\<lambda>v. [byte_of_unit (t v), byte_of_unit (t v), byte_of_unit (t v)]) data)" img] len
    by (simp add: comp_def)
  moreover have "byte_of_unit (t (Min (set data))) = 0"
    unfolding minmax(1) [symmetric] by (simp add: t_def byte_of_unit_def)
  moreover have "byte_of_unit (t (Max (set data))) = 255" if "\<not> eq (Max (set data) - Min (set data)) 0"
    using that r(1) unfolding minmax [symmetric] by (simp add: t_def byte_of_unit_def r_def)
  ultimately show ?thesis
    using mono by (intro exI [of _ img'] exI [of _ "\<lambda>v. byte_of_unit (t v)"]) blast
qed

lemma ConvertToRGBImage_gray_witness:
  "\<exists>img'. ConvertToRGBImage (=) 1000 (- 1000) [5, 1, 3 :: real] 3 1 1000 (- 1000) False Image_blank = Some img' \<and>
     bitmap img' \<noteq> None"
  using ConvertToRGBImage_gray [of 3 1 "[5, 1, 3]" "(=)" "- 1000" 1000 Image_blank] by fastforce

end
