(* ===== verification/Height_Maps.thy ===== *)
theory Height_Maps
  imports Image_Model Gz_Math
begin

section \<open>Heightmaps: ImageHeightmap and Dem\<close>

text \<open>
  \<^verbatim>\<open>geospatial/src/ImageHeightmap.cc\<close> with the template of its header, and \<^verbatim>\<open>geospatial/src/Dem.cc\<close>. Both fill a
  square of heights from a square of samples with the same interpolation. Heights are reals, indices
  are the 32-bit unsigned numbers of the code. GDAL and the coordinate systems are a record of
  parameters; raster values are finite. \<^const>\<open>None\<close> is undefined behaviour or a failed assertion.
\<close>

subsection \<open>The interpolation\<close>

text \<open>The two samples around a place and the distance from the first; a division by zero is no
  place.\<close>

definition grid_cell :: "int \<Rightarrow> int \<Rightarrow> nat \<Rightarrow> (int \<times> int \<times> real) option" where
  "grid_cell subSampling side y =
     (if subSampling = 0 then None
      else
        (let yf = real y / real_of_int subSampling;
             y1 = \<lfloor>yf\<rfloor>;
             y2 = \<lceil>yf\<rceil>;
             y2 = (if y2 \<ge> side then side - 1 else y2)
         in Some (y1, y2, yf - real_of_int y1)))"

definition wrap32 :: "int \<Rightarrow> nat" where
  "wrap32 i = nat (i mod 2 ^ 32)"

text \<open>The height at a place between four samples, before it is scaled.\<close>

definition between4 :: "(int \<Rightarrow> int \<Rightarrow> real option) \<Rightarrow> int \<times> int \<times> real \<Rightarrow> int \<times> int \<times> real \<Rightarrow> real option" where
  "between4 px yc xc =
     (case (yc, xc) of
        ((y1, y2, dy), (x1, x2, dx)) \<Rightarrow>
          do {
            px1 \<leftarrow> px y1 x1;
            px2 \<leftarrow> px y1 x2;
            let h1 = px1 - (px1 - px2) * dx;
            px3 \<leftarrow> px y2 x1;
            px4 \<leftarrow> px y2 x2;
            let h2 = px3 - (px3 - px4) * dx;
            Some (h1 - (h1 - h2) * dy) })"

definition cells :: "nat \<Rightarrow> (nat \<times> nat) list" where
  "cells n = concat (map (\<lambda>y. map (\<lambda>x. (y, x)) [0..<n]) [0..<n])"

definition height_index :: "bool \<Rightarrow> nat \<Rightarrow> nat \<Rightarrow> nat \<Rightarrow> nat" where
  "height_index flipY n y x =
     (if \<not> flipY then (y * n + x) mod 2 ^ 32 else ((n - y - 1) * n + x) mod 2 ^ 32)"

fun fill_cells ::
    "(nat \<Rightarrow> nat \<Rightarrow> real option) \<Rightarrow> (nat \<Rightarrow> nat \<Rightarrow> nat) \<Rightarrow> (nat \<times> nat) list \<Rightarrow> real list \<Rightarrow> real list option" where
  "fill_cells f pos [] heights = Some heights"
| "fill_cells f pos ((y, x) # cs) heights =
     do {
       h \<leftarrow> f y x;
       if pos y x < length heights then fill_cells f pos cs (heights [pos y x := h]) else None }"

definition resize :: "nat \<Rightarrow> 'a \<Rightarrow> 'a list \<Rightarrow> 'a list" where
  "resize n d xs = take n xs @ replicate (n - length xs) d"

subsection \<open>ImageHeightmap\<close>

text \<open>The heightmap object holds an image.\<close>

definition ImageHeightmap_new :: Image where
  "ImageHeightmap_new = Image_blank"

definition ImageHeightmap_Load ::
    "string stb_source \<Rightarrow> (string \<Rightarrow> bool) \<Rightarrow> string \<Rightarrow> SystemPaths \<Rightarrow> string \<Rightarrow> Image \<Rightarrow> (int \<times> Image) option" where
  "ImageHeightmap_Load stb ex dir sp filename img =
     map_option (\<lambda>(r, img'). (if r \<noteq> 0 then - 1 else 0, img')) (Image_Load stb ex dir sp filename img)"

text \<open>The template for samples \<open>data\<close> of \<open>k\<close> bytes with the largest value \<open>maxv\<close>.\<close>

definition FillHeights ::
    "nat \<Rightarrow> real \<Rightarrow> real list \<Rightarrow> int \<Rightarrow> int \<Rightarrow> nat \<Rightarrow> int \<Rightarrow> nat \<Rightarrow> Vector3d \<Rightarrow> Vector3d \<Rightarrow> bool \<Rightarrow> real list \<Rightarrow>
     real list option" where
  "FillHeights k maxv data imgHeight imgWidth pitch subSampling vertSize sz scale flipY heights =
     (if imgWidth = 0 then None
      else
        (let bpp = pitch div nat imgWidth;
             channels = bpp div k
         in if bpp = 0 then None
            else
              (let pitchInPixels = pitch div bpp;
                   px = (\<lambda>y x. map_option (\<lambda>v. v / maxv)
                          (elem_at data (wrap32 ((y * int pitchInPixels + x) * int channels))));
                   height = (\<lambda>y x.
                     do {
                       yc \<leftarrow> grid_cell subSampling imgHeight y;
                       xc \<leftarrow> grid_cell subSampling imgWidth x;
                       v \<leftarrow> between4 px yc xc;
                       let h = v * vZ scale;
                       Some (if vZ sz < 0 then 1 - h else h) })
               in fill_cells height (height_index flipY vertSize) (cells vertSize) heights)))"

fun shorts_of :: "8 word list \<Rightarrow> 16 word list" where
  "shorts_of (lo # hi # bs) = (ucast lo OR push_bit 8 (ucast hi)) # shorts_of bs"
| "shorts_of bs = []"

definition Image_FillHeightMap ::
    "(real \<Rightarrow> 8 word list) \<Rightarrow> Image \<Rightarrow> int \<Rightarrow> 32 word \<Rightarrow> Vector3d \<Rightarrow> Vector3d \<Rightarrow> bool \<Rightarrow> real list \<Rightarrow> real list option" where
  "Image_FillHeightMap fb img subSampling vertSize sz scale flipY heights =
     (let heights = resize (unat (vertSize * vertSize)) 0 heights;
          imgHeight = sint (Image_Height img); imgWidth = sint (Image_Width img);
          pitch = nat (Image_Pitch img)
      in if imgWidth \<noteq> imgHeight then None
         else do {
           data \<leftarrow> Image_Data fb img;
           if PixelFormat img \<in> {L_INT8, RGB_INT8, RGBA_INT8, BAYER_BGGR8, BAYER_GBRG8, BAYER_GRBG8, BAYER_RGGB8,
                BGR_INT8, BGRA_INT8}
           then FillHeights 1 255 (map (\<lambda>b. real (unat b)) data) imgHeight imgWidth pitch subSampling
                  (unat vertSize) sz scale flipY heights
           else if PixelFormat img \<in> {BGR_INT16, L_INT16, RGB_FLOAT16, RGB_INT16, R_FLOAT16}
           then FillHeights 2 65535 (map (\<lambda>s. real (unat s)) (shorts_of data)) imgHeight imgWidth pitch subSampling
                  (unat vertSize) sz scale flipY heights
           else Some heights })"

definition ImageHeightmap_Filename :: "Image \<Rightarrow> string" where
  "ImageHeightmap_Filename img = Image_Filename img"

definition ImageHeightmap_Height :: "Image \<Rightarrow> 32 word" where
  "ImageHeightmap_Height img = Image_Height img"

definition ImageHeightmap_Width :: "Image \<Rightarrow> 32 word" where
  "ImageHeightmap_Width img = Image_Width img"

definition ImageHeightmap_MaxElevation :: "'c color_ops \<Rightarrow> Image \<Rightarrow> real option" where
  "ImageHeightmap_MaxElevation C img = map_option (red_of C) (MaxColor C img)"

subsection \<open>Dem\<close>

text \<open>GDAL with a data set of type \<open>'d\<close>, the spherical coordinates of gz-math of type \<open>'s\<close>, and the
  functions of gz-math on numbers.\<close>

record ('d, 's) gdal =
  GDALOpen :: "string \<Rightarrow> 'd option"
  raster_count :: "'d \<Rightarrow> int"
  raster_size :: "'d \<Rightarrow> 32 word \<times> 32 word"
  geo_transform :: "'d \<Rightarrow> (real \<times> real \<times> real \<times> real \<times> real \<times> real) option"
  coordinate_transformation :: "'d \<Rightarrow> 's \<Rightarrow> (real \<times> real \<Rightarrow> real \<times> real) option"
  raster_io :: "'d \<Rightarrow> 32 word \<times> 32 word \<Rightarrow> nat \<times> nat \<Rightarrow> real list option"
  no_data_value :: "'d \<Rightarrow> int \<times> real option"
  distance_between :: "'s \<Rightarrow> real \<times> real \<Rightarrow> real \<times> real \<Rightarrow> real"
  is_power_of_two :: "32 word \<Rightarrow> bool"
  round_up_power_of_two :: "32 word \<Rightarrow> 32 word"
  equal_f :: "real \<Rightarrow> real \<Rightarrow> bool"
  MAX_D :: real
  FLT_MAX :: real

record ('d, 's) Dem =
  dataSet :: "'d option"
  worldWidth :: real
  worldHeight :: real
  dem_side :: "32 word"
  maxXSize :: "32 word"
  maxYSize :: "32 word"
  configuredXSize :: "32 word"
  configuredYSize :: "32 word"
  minElevation :: real
  maxElevation :: real
  demData :: "real list"
  dem_filename :: string
  isUnknownDem :: bool
  sphericalCoordinates :: 's

text \<open>The numbers without an initial value in the code are given.\<close>

definition Dem_new :: "'s \<Rightarrow> 32 word \<Rightarrow> real \<Rightarrow> ('d, 's) Dem" where
  "Dem_new sc u r =
     \<lparr> dataSet = None, worldWidth = r, worldHeight = r, dem_side = u, maxXSize = - 1, maxYSize = - 1,
       configuredXSize = u, configuredYSize = u, minElevation = r, maxElevation = r, demData = [],
       dem_filename = [], isUnknownDem = False, sphericalCoordinates = sc \<rparr>"

definition SetSphericalCoordinates :: "'s \<Rightarrow> ('d, 's) Dem \<Rightarrow> ('d, 's) Dem" where
  "SetSphericalCoordinates sc d = d \<lparr> sphericalCoordinates := sc \<rparr>"

definition RasterXSizeLimit :: "('d, 's) Dem \<Rightarrow> 32 word" where
  "RasterXSizeLimit d = maxXSize d"

definition SetRasterXSizeLimit :: "32 word \<Rightarrow> ('d, 's) Dem \<Rightarrow> ('d, 's) Dem" where
  "SetRasterXSizeLimit l d = d \<lparr> maxXSize := l \<rparr>"

definition RasterYSizeLimit :: "('d, 's) Dem \<Rightarrow> 32 word" where
  "RasterYSizeLimit d = maxYSize d"

definition SetRasterYSizeLimit :: "32 word \<Rightarrow> ('d, 's) Dem \<Rightarrow> ('d, 's) Dem" where
  "SetRasterYSizeLimit l d = d \<lparr> maxYSize := l \<rparr>"

definition Dem_Height :: "('d, 's) Dem \<Rightarrow> 32 word" where
  "Dem_Height d = dem_side d"

definition Dem_Width :: "('d, 's) Dem \<Rightarrow> 32 word" where
  "Dem_Width d = dem_side d"

definition WorldWidth :: "('d, 's) Dem \<Rightarrow> real" where
  "WorldWidth d = worldWidth d"

definition WorldHeight :: "('d, 's) Dem \<Rightarrow> real" where
  "WorldHeight d = worldHeight d"

definition MinElevation :: "('d, 's) Dem \<Rightarrow> real" where
  "MinElevation d = minElevation d"

definition MaxElevation :: "('d, 's) Dem \<Rightarrow> real" where
  "MaxElevation d = maxElevation d"

definition Dem_Filename :: "('d, 's) Dem \<Rightarrow> string" where
  "Dem_Filename d = dem_filename d"

text \<open>Latitude and longitude of a place, \<^const>\<open>None\<close> inside for the result \<open>false\<close>.\<close>

definition GeoReference ::
    "('d, 's) gdal \<Rightarrow> real \<Rightarrow> real \<Rightarrow> ('d, 's) Dem \<Rightarrow> (real \<times> real) option option" where
  "GeoReference G x y d =
     (if isUnknownDem d then Some None
      else
        (case dataSet d of
           None \<Rightarrow> None
         | Some ds \<Rightarrow>
             (case geo_transform G ds of
                None \<Rightarrow> Some None
              | Some (g0, g1, g2, g3, g4, g5) \<Rightarrow>
                  (case coordinate_transformation G ds (sphericalCoordinates d) of
                     None \<Rightarrow> Some None
                   | Some cT \<Rightarrow>
                       (case cT (g0 + x * g1 + y * g2, g3 + x * g4 + y * g5) of
                          (xGeoDeg, yGeoDeg) \<Rightarrow> Some (Some (yGeoDeg, xGeoDeg)))))))"

definition GeoReferenceOrigin :: "('d, 's) gdal \<Rightarrow> ('d, 's) Dem \<Rightarrow> (real \<times> real) option option" where
  "GeoReferenceOrigin G d = GeoReference G 0 0 d"

definition ConfigureLoadedSize :: "('d, 's) gdal \<Rightarrow> 'd \<Rightarrow> ('d, 's) Dem \<Rightarrow> bool \<times> ('d, 's) Dem" where
  "ConfigureLoadedSize G ds d =
     (case raster_size G ds of
        (nx, ny) \<Rightarrow>
          if nx = 0 \<or> ny = 0 then (False, d)
          else (True, d \<lparr> configuredXSize := min nx (maxXSize d), configuredYSize := min ny (maxYSize d) \<rparr>))"

subsubsection \<open>Reading the raster\<close>

text \<open>The size the raster is scaled to: the side and the side divided by the ratio of the sizes,
  the \<open>float\<close> ratio taken as a real.\<close>

definition dest_size :: "32 word \<Rightarrow> 32 word \<Rightarrow> 32 word \<Rightarrow> nat \<times> nat" where
  "dest_size side xs ys =
     (let s = real (unat side); x = real (unat xs); y = real (unat ys)
      in if xs > ys then (unat side, nat \<lfloor>s / (x / y)\<rfloor>) else (nat \<lfloor>s / (y / x)\<rfloor>, unat side))"

fun copy_rows :: "nat list \<Rightarrow> nat \<Rightarrow> nat \<Rightarrow> real list \<Rightarrow> real list \<Rightarrow> real list option" where
  "copy_rows [] width destWidth buffer dem = Some dem"
| "copy_rows (y # ys) width destWidth buffer dem =
     (let src = take destWidth (drop (wrap32 (int (destWidth * y))) buffer); start = wrap32 (int (width * y))
      in if length src = destWidth \<and> start + destWidth \<le> length dem
         then copy_rows ys width destWidth buffer (take start dem @ src @ drop (start + destWidth) dem)
         else None)"

definition LoadData :: "('d, 's) gdal \<Rightarrow> 'd \<Rightarrow> ('d, 's) Dem \<Rightarrow> (int \<times> ('d, 's) Dem) option" where
  "LoadData G ds d =
     (case dest_size (dem_side d) (configuredXSize d) (configuredYSize d) of
        (destWidth, destHeight) \<Rightarrow>
          (case raster_io G ds (configuredXSize d, configuredYSize d) (destWidth, destHeight) of
             None \<Rightarrow> Some (- 1, d)
           | Some buffer \<Rightarrow>
               (let side = unat (dem_side d)
                in map_option (\<lambda>dem. (0, d \<lparr> demData := dem \<rparr>))
                     (copy_rows [0..<destHeight] side destWidth buffer
                       (resize (side * side) (FLT_MAX G) (demData d))))))"

subsubsection \<open>The elevations\<close>

definition skip_elevation :: "('d, 's) gdal \<Rightarrow> real option \<Rightarrow> real \<Rightarrow> bool" where
  "skip_elevation G noData v \<longleftrightarrow>
     equal_f G v (FLT_MAX G) \<or> (case noData of None \<Rightarrow> False | Some nd \<Rightarrow> equal_f G v nd)"

fun elevation_range :: "('d, 's) gdal \<Rightarrow> real option \<Rightarrow> real list \<Rightarrow> real \<times> real \<Rightarrow> real \<times> real" where
  "elevation_range G noData [] mm = mm"
| "elevation_range G noData (v # vs) (mn, mx) =
     (if skip_elevation G noData v then elevation_range G noData vs (mn, mx)
      else elevation_range G noData vs (if v < mn then v else mn, if v > mx then v else mx))"

text \<open>The value of the raster that marks a missing sample; \<^const>\<open>None\<close> is not a number.\<close>

definition noDataValue :: "('d, 's) gdal \<Rightarrow> 'd \<Rightarrow> real option" where
  "noDataValue G ds = (let (validNoData, v) = no_data_value G ds in if validNoData \<le> 0 then Some (- 9999) else v)"

definition find_elevations :: "('d, 's) gdal \<Rightarrow> 'd \<Rightarrow> ('d, 's) Dem \<Rightarrow> ('d, 's) Dem" where
  "find_elevations G ds d =
     (let (mn, mx) = elevation_range G (noDataValue G ds) (demData d) (MAX_D G, - MAX_D G)
      in d \<lparr> minElevation := mn, maxElevation := mx,
             demData := map (\<lambda>v. if equal_f G v (FLT_MAX G) then mn else v) (demData d) \<rparr>)"

subsubsection \<open>Load\<close>

definition terrain_side :: "('d, 's) gdal \<Rightarrow> 32 word \<Rightarrow> 32 word" where
  "terrain_side G n =
     (if is_power_of_two G (n - 1) then n else round_up_power_of_two G n + 1)"

text \<open>The result is whether there is a data set, an old one included.\<close>

definition openInGdal :: "('d, 's) gdal \<Rightarrow> string \<Rightarrow> ('d, 's) Dem \<Rightarrow> bool \<times> ('d, 's) Dem" where
  "openInGdal G name d =
     (let d1 = (case GDALOpen G name of Some ds \<Rightarrow> d \<lparr> dataSet := Some ds \<rparr> | None \<Rightarrow> d)
      in (dataSet d1 \<noteq> None, d1))"

definition world_size :: "('d, 's) gdal \<Rightarrow> ('d, 's) Dem \<Rightarrow> ('d, 's) Dem option" where
  "world_size G d =
     (let x = real_of_int (sint (configuredXSize d)); y = real_of_int (sint (configuredYSize d));
          unknown = d \<lparr> worldWidth := - 1, worldHeight := - 1, isUnknownDem := True \<rparr>
      in do {
           upLeft \<leftarrow> GeoReference G 0 0 d;
           upRight \<leftarrow> GeoReference G x 0 d;
           lowLeft \<leftarrow> GeoReference G 0 y d;
           Some (case (upLeft, upRight, lowLeft) of
                   (Some a, Some b, Some c) \<Rightarrow>
                     d \<lparr> worldWidth := distance_between G (sphericalCoordinates d) a b,
                         worldHeight := distance_between G (sphericalCoordinates d) a c \<rparr>
                 | _ \<Rightarrow> unknown) })"

text \<open>The part behind the opening of the file.\<close>

definition load_dataset :: "('d, 's) gdal \<Rightarrow> ('d, 's) Dem \<Rightarrow> (int \<times> ('d, 's) Dem) option" where
  "load_dataset G d =
     (case dataSet d of
        None \<Rightarrow> None
      | Some ds \<Rightarrow>
          if raster_count G ds \<noteq> 1 then Some (- 1, d)
          else
            (case ConfigureLoadedSize G ds d of
               (ok, d1) \<Rightarrow>
                 if \<not> ok then Some (- 1, d1)
                 else do {
                   d2 \<leftarrow> world_size G d1;
                   let d3 = d2 \<lparr> dem_side := max (terrain_side G (configuredXSize d2))
                                               (terrain_side G (configuredYSize d2)) \<rparr>;
                   (r, d4) \<leftarrow> LoadData G ds d3;
                   if r \<noteq> 0 then Some (- 1, d4) else Some (0, find_elevations G ds d4) }))"

definition Dem_Load ::
    "('d, 's) gdal \<Rightarrow> (string \<Rightarrow> bool) \<Rightarrow> (string \<Rightarrow> bool) \<Rightarrow> string \<Rightarrow> SystemPaths \<Rightarrow> string \<Rightarrow> ('d, 's) Dem \<Rightarrow>
     (int \<times> ('d, 's) Dem) option" where
  "Dem_Load G ex isdir dir sp filename d =
     do {
       p \<leftarrow> findFilePath ex isdir dir sp filename;
       fullName \<leftarrow> (if \<not> ex p then findFile ex dir sp filename True else Some filename);
       let d1 = d \<lparr> dem_filename := fullName \<rparr>;
       p2 \<leftarrow> findFilePath ex isdir dir sp fullName;
       (case openInGdal G (if \<not> ex p2 then filename else fullName) d1 of
          (ok, d2) \<Rightarrow> if \<not> ok then Some (- 1, d2) else load_dataset G d2) }"

text \<open>\<^const>\<open>None\<close> inside is the infinity that marks coordinates out of range.\<close>

definition Dem_Elevation :: "real \<Rightarrow> real \<Rightarrow> ('d, 's) Dem \<Rightarrow> real option option" where
  "Dem_Elevation x y d =
     (let w = real (unat (dem_side d))
      in if x \<ge> w \<or> y \<ge> w then Some None
         else if x \<le> - 1 \<or> y \<le> - 1 then None
         else
           (let idx = word_of_int \<lfloor>max 0 y\<rfloor> * dem_side d + word_of_int \<lfloor>max 0 x\<rfloor> :: 32 word
            in map_option Some (elem_at (demData d) (unat idx))))"

definition Dem_FillHeightMap ::
    "int \<Rightarrow> 32 word \<Rightarrow> Vector3d \<Rightarrow> Vector3d \<Rightarrow> bool \<Rightarrow> ('d, 's) Dem \<Rightarrow> real list \<Rightarrow> real list option" where
  "Dem_FillHeightMap subSampling vertSize sz scale flipY d heights =
     (if subSampling \<le> 0 then Some heights
      else
        (let heights = resize (unat (vertSize * vertSize)) 0 heights;
             side = uint (dem_side d);
             px = (\<lambda>y x. elem_at (demData d) (wrap32 (y * side + x)));
             height = (\<lambda>y x.
               do {
                 yc \<leftarrow> grid_cell subSampling side y;
                 xc \<leftarrow> grid_cell subSampling side x;
                 v \<leftarrow> between4 px yc xc;
                 let h = minElevation d + (v - minElevation d) * vZ scale;
                 let h = (if vZ sz < 0 then - h else h);
                 Some (if vZ sz \<ge> 0 \<and> h < minElevation d then minElevation d else h) })
         in fill_cells height (height_index flipY (unat vertSize)) (cells (unat vertSize)) heights))"

subsection \<open>Loading a heightmap of either kind\<close>

definition isSupportedImageHeightmapFileExtension :: "string \<Rightarrow> bool" where
  "isSupportedImageHeightmapFileExtension filename \<longleftrightarrow>
     (if filename = [] then False
      else (let lowerFullPath = lowercase filename
            in EndsWith lowerFullPath ''.png'' \<or> EndsWith lowerFullPath ''.jpg'' \<or> EndsWith lowerFullPath ''.jpeg''))"

datatype ('d, 's) heightmap_data = Image_data Image | Dem_data "('d, 's) Dem"

text \<open>The record \<open>d0\<close> is the new \<open>Dem\<close> with its members without initial value; \<^const>\<open>None\<close> inside is
  the null pointer.\<close>

definition loadHeightmapData ::
    "string stb_source \<Rightarrow> ('d, 's) gdal \<Rightarrow> ('d, 's) Dem \<Rightarrow> (string \<Rightarrow> bool) \<Rightarrow> (string \<Rightarrow> bool) \<Rightarrow> string \<Rightarrow>
     SystemPaths \<Rightarrow> string \<Rightarrow> 's \<Rightarrow> ('d, 's) heightmap_data option option" where
  "loadHeightmapData stb G d0 ex isdir dir sp filename sc =
     (if filename = [] then Some None
      else if isSupportedImageHeightmapFileExtension filename
      then do {
        (r, img) \<leftarrow> ImageHeightmap_Load stb ex dir sp filename ImageHeightmap_new;
        Some (if r < 0 then None else Some (Image_data img)) }
      else do {
        (r, d) \<leftarrow> Dem_Load G ex isdir dir sp filename (SetSphericalCoordinates sc d0);
        Some (if r < 0 then None else Some (Dem_data d)) })"

end
