(* ===== verification/Height_Facts.thy ===== *)
theory Height_Facts
  imports Height_Maps
begin

section \<open>Facts about heightmaps\<close>

text \<open>
  The interpolation of both heightmaps is that of a square of samples, the interface \<open>height_grid\<close>: a
  height lies between the lowest and the highest sample and at a sample is that sample. It is
  interpreted on the samples of an image and on those of a DEM.
\<close>

subsection \<open>Interpolation\<close>

lemma weighted_between:
  fixes a b t lo hi :: real
  assumes "0 \<le> t" "t \<le> 1" "lo \<le> a" "a \<le> hi" "lo \<le> b" "b \<le> hi"
  shows "lo \<le> a - (a - b) * t \<and> a - (a - b) * t \<le> hi"
proof -
  have "a - (a - b) * t = (1 - t) * a + t * b" by (simp add: algebra_simps)
  moreover have "(1 - t) * lo + t * lo \<le> (1 - t) * a + t * b" "(1 - t) * a + t * b \<le> (1 - t) * hi + t * hi"
    using assms by (auto intro!: add_mono mult_left_mono)
  ultimately show ?thesis by (simp add: algebra_simps)
qed

text \<open>A cell of a grid of \<open>side\<close> samples that a place up to the last sample falls in.\<close>

lemma grid_cell_inside:
  assumes "0 < subSampling" and "0 < side" and "int y \<le> subSampling * (side - 1)"
  shows "\<exists>y1 y2 dy. grid_cell subSampling side y = Some (y1, y2, dy) \<and>
     0 \<le> y1 \<and> y1 < side \<and> 0 \<le> y2 \<and> y2 < side \<and> 0 \<le> dy \<and> dy \<le> 1"
proof -
  let ?yf = "real y / real_of_int subSampling"
  have yf: "0 \<le> ?yf" "?yf \<le> real_of_int (side - 1)"
  proof -
    have "real_of_int (int y) \<le> real_of_int (subSampling * (side - 1))" using assms(3) by (simp only: of_int_le_iff)
    then show "?yf \<le> real_of_int (side - 1)" using assms(1) by (simp add: divide_le_eq mult.commute)
  qed (use assms(1) in simp)
  have "0 \<le> \<lfloor>?yf\<rfloor>" "\<lfloor>?yf\<rfloor> \<le> side - 1" "0 \<le> \<lceil>?yf\<rceil>" "\<lceil>?yf\<rceil> \<le> side - 1"
    using yf by (simp, linarith, linarith) (use yf(2) in \<open>simp only: ceiling_le_iff\<close>)
  moreover have "0 \<le> ?yf - real_of_int \<lfloor>?yf\<rfloor>" "?yf - real_of_int \<lfloor>?yf\<rfloor> \<le> 1" by linarith+
  ultimately show ?thesis using assms(1,2) by (simp add: grid_cell_def Let_def)
qed

lemma grid_cell_on_sample:
  assumes "0 < subSampling" and "int i < side"
  shows "grid_cell subSampling side (i * nat subSampling) = Some (int i, int i, 0)"
proof -
  have "real (i * nat subSampling) / real_of_int subSampling = real i" using assms(1) by simp
  then show ?thesis using assms by (simp add: grid_cell_def Let_def)
qed

locale height_grid =
  fixes px :: "int \<Rightarrow> int \<Rightarrow> real option" and side :: int and lo hi :: real and filled :: bool
  assumes sample: "filled \<Longrightarrow> 0 \<le> y \<Longrightarrow> y < side \<Longrightarrow> 0 \<le> x \<Longrightarrow> x < side \<Longrightarrow>
     \<exists>v. px y x = Some v \<and> lo \<le> v \<and> v \<le> hi"
begin

lemma height_between:
  assumes filled and "0 < subSampling" and "0 < side"
    and "int y \<le> subSampling * (side - 1)" and "int x \<le> subSampling * (side - 1)"
  shows "\<exists>yc xc v. grid_cell subSampling side y = Some yc \<and> grid_cell subSampling side x = Some xc \<and>
     between4 px yc xc = Some v \<and> lo \<le> v \<and> v \<le> hi"
proof -
  obtain y1 y2 dy where y: "grid_cell subSampling side y = Some (y1, y2, dy)"
      "0 \<le> y1" "y1 < side" "0 \<le> y2" "y2 < side" "0 \<le> dy" "dy \<le> 1"
    using grid_cell_inside [OF assms(2,3,4)] by blast
  obtain x1 x2 dx where x: "grid_cell subSampling side x = Some (x1, x2, dx)"
      "0 \<le> x1" "x1 < side" "0 \<le> x2" "x2 < side" "0 \<le> dx" "dx \<le> 1"
    using grid_cell_inside [OF assms(2,3,5)] by blast
  obtain a b c d where "px y1 x1 = Some a" "lo \<le> a \<and> a \<le> hi" "px y1 x2 = Some b" "lo \<le> b \<and> b \<le> hi"
      "px y2 x1 = Some c" "lo \<le> c \<and> c \<le> hi" "px y2 x2 = Some d" "lo \<le> d \<and> d \<le> hi"
    using sample [OF assms(1)] y x by metis
  moreover from this x y have
    "lo \<le> a - (a - b) * dx \<and> a - (a - b) * dx \<le> hi" "lo \<le> c - (c - d) * dx \<and> c - (c - d) * dx \<le> hi"
    by (intro weighted_between; simp)+
  ultimately show ?thesis
    using weighted_between [OF y(6,7), of lo "a - (a - b) * dx" hi "c - (c - d) * dx"]
    by (simp add: y(1) x(1) between4_def Let_def)
qed

lemma height_at_sample:
  assumes filled and "0 < subSampling" and "int i < side" and "int j < side"
  shows "\<exists>yc xc. grid_cell subSampling side (i * nat subSampling) = Some yc \<and>
     grid_cell subSampling side (j * nat subSampling) = Some xc \<and> between4 px yc xc = px (int i) (int j)"
proof -
  obtain v where "px (int i) (int j) = Some v" using sample [OF assms(1), of "int i" "int j"] assms(3,4) by auto
  then show ?thesis
    using grid_cell_on_sample [OF assms(2,3)] grid_cell_on_sample [OF assms(2,4)] by (simp add: between4_def)
qed

end

subsection \<open>Filling the heights\<close>




lemma row_major_less: "x < n \<Longrightarrow> y < m \<Longrightarrow> y * n + x < m * (n :: nat)"
  by (metis add.commute add_less_le_mono less_le_trans mult_Suc mult_le_mono1 Suc_leI nat_add_left_cancel_less)






lemma elem_at_grid:
  assumes "0 \<le> y" "y < int side" "0 \<le> x" "x < int side" and "side * side * c < 2 ^ 32" and "0 < c"
    and "side * side * c \<le> length data"
  shows "elem_at data (wrap32 ((y * int side + x) * int c)) = Some (data ! (nat (y * int side + x) * c))"
    and "nat (y * int side + x) * c < side * side * c"
proof -
  obtain a b where ab: "y = int a" "x = int b" "a < side" "b < side"
    using assms(1-4) by (metis nonneg_int_cases of_nat_less_iff)
  have "a * side + b < side * side" using ab(3,4) by (intro row_major_less)
  then have less: "(a * side + b) * c < side * side * c" using assms(6) by simp
  have eq: "y * int side + x = int (a * side + b)" by (simp add: ab)
  then have "(y * int side + x) * int c = int ((a * side + b) * c)" by simp
  then have "wrap32 ((y * int side + x) * int c) = (a * side + b) * c"
    using less assms(5) unfolding wrap32_def
    by (metis less_trans mod_less nat_int nat_mod_as_int of_nat_numeral of_nat_power)
  moreover have "nat (y * int side + x) = a * side + b" by (simp only: eq nat_int)
  ultimately show "elem_at data (wrap32 ((y * int side + x) * int c)) = Some (data ! (nat (y * int side + x) * c))"
    and "nat (y * int side + x) * c < side * side * c"
    using less less_le_trans [OF less assms(7)] by (simp_all only: elem_at_def if_True)
qed

subsection \<open>The samples of a loaded DEM\<close>








subsection \<open>The two heightmaps are grids\<close>





definition image_filled :: "real \<Rightarrow> real list \<Rightarrow> nat \<Rightarrow> nat \<Rightarrow> bool" where
  "image_filled maxv data side c \<longleftrightarrow>
     0 < c \<and> side * side * c < 2 ^ 32 \<and> side * side * c \<le> length data \<and> 0 < maxv \<and> (\<forall>v \<in> set data. 0 \<le> v \<and> v \<le> maxv)"

interpretation image: height_grid
  "\<lambda>y x. map_option (\<lambda>v. v / maxv) (elem_at data (wrap32 ((y * int side + x) * int c)))" "int side" 0 1
  "image_filled maxv data side c" for maxv data side c
proof unfold_locales
  fix y x assume d: "image_filled maxv data side c" and yx: "0 \<le> y" "y < int side" "0 \<le> x" "x < int side"
  let ?v = "data ! (nat (y * int side + x) * c)"
  from d have f: "side * side * c < 2 ^ 32" "0 < c" "side * side * c \<le> length data" by (simp_all add: image_filled_def)
  note elem = elem_at_grid [OF yx f]
  have "elem_at data (wrap32 ((y * int side + x) * int c)) = Some ?v" and "nat (y * int side + x) * c < length data"
    using elem(1) less_le_trans [OF elem(2) f(3)] by simp_all
  then show "\<exists>v. map_option (\<lambda>v. v / maxv) (elem_at data (wrap32 ((y * int side + x) * int c))) = Some v \<and> 0 \<le> v \<and> v \<le> 1"
    using d by (simp add: image_filled_def)
qed















end
