(* ===== verification/Material_Density.thy ===== *)
theory Material_Density
  imports Complex_Main Flag_Set Std_Map
begin

section \<open>MaterialDensity and Timer\<close>

text \<open>
  \<^verbatim>\<open>src/src/MaterialDensity.cc\<close>: a table of densities behind a function with a static map, which
  is the state here, since \<open>operator []\<close> enters a zero for a material that is not in it. The order of
  the map is that of the enumeration. Densities are reals. \<^verbatim>\<open>src/src/Timer.cc\<close> is at the end; the
  clock is an argument.
\<close>

subsection \<open>The materials\<close>

datatype density_type =
  STYROFOAM | PINE | WOOD | OAK | ICE | WATER | PLASTIC | CONCRETE | ALUMINUM | STEEL_ALLOY |
  STEEL_STAINLESS | IRON | BRASS | COPPER | TUNGSTEN | END

fun type_number :: "density_type \<Rightarrow> nat" where
  "type_number STYROFOAM = 0" | "type_number PINE = 1" | "type_number WOOD = 2"
| "type_number OAK = 3" | "type_number ICE = 4" | "type_number WATER = 5"
| "type_number PLASTIC = 6" | "type_number CONCRETE = 7" | "type_number ALUMINUM = 8"
| "type_number STEEL_ALLOY = 9" | "type_number STEEL_STAINLESS = 10" | "type_number IRON = 11"
| "type_number BRASS = 12" | "type_number COPPER = 13" | "type_number TUNGSTEN = 14"
| "type_number END = 15"

definition density_types :: "density_type list" where
  "density_types =
     [STYROFOAM, PINE, WOOD, OAK, ICE, WATER, PLASTIC, CONCRETE, ALUMINUM, STEEL_ALLOY,
      STEEL_STAINLESS, IRON, BRASS, COPPER, TUNGSTEN, END]"

lemma type_number_nth: "density_types ! type_number t = t"
  by (cases t) (simp_all add: density_types_def)

lemma type_number_inject [simp]: "type_number t = type_number u \<longleftrightarrow> t = u"
  by (metis type_number_nth)

instantiation density_type :: linorder
begin

definition less_eq_density_type :: "density_type \<Rightarrow> density_type \<Rightarrow> bool" where
  "t \<le> u \<longleftrightarrow> type_number t \<le> type_number u"

definition less_density_type :: "density_type \<Rightarrow> density_type \<Rightarrow> bool" where
  "t < u \<longleftrightarrow> type_number t < type_number u"

instance
  by standard (auto simp: less_eq_density_type_def less_density_type_def)

end

definition materialDensityIface :: EnumIface where
  "materialDensityIface = gzEnum 0 15
     [''Styrofoam'', ''Pine'', ''Wood'', ''Oak'', ''Ice'', ''Water'', ''Plastic'', ''Concrete'',
      ''Aluminum'', ''Steel, Alloy'', ''Steel, Stainless'', ''Iron'', ''Brass'', ''Copper'',
      ''Tungsten'', ''end'']"

type_synonym densities = "(density_type, real) omap"

definition GetMaterialsMap :: densities where
  "GetMaterialsMap =
     [(STYROFOAM, 75), (PINE, 373), (WOOD, 700), (OAK, 710), (ICE, 916), (WATER, 1000),
      (PLASTIC, 1175), (CONCRETE, 2000), (ALUMINUM, 2700), (STEEL_ALLOY, 7600),
      (STEEL_STAINLESS, 7800), (IRON, 7870), (BRASS, 8600), (COPPER, 8940), (TUNGSTEN, 19300)]"

definition Density :: "density_type \<Rightarrow> densities \<Rightarrow> real \<times> densities" where
  "Density t mats = (case map_of mats t of Some d \<Rightarrow> (d, mats) | None \<Rightarrow> (0, mput t 0 mats))"

definition Density_named :: "string \<Rightarrow> densities \<Rightarrow> real \<times> densities" where
  "Density_named s mats =
     (let t = density_types ! Enum_Set materialDensityIface (type_number END) s
      in if t \<noteq> END then Density t mats else (- 1, mats))"

text \<open>\<open>std::numeric_limits<double>::max()\<close>.\<close>

definition DBL_MAX :: real where
  "DBL_MAX = (2 - 1 / 2 ^ 52) * 2 ^ 1023"

fun nearest_loop ::
    "real \<Rightarrow> real \<Rightarrow> densities \<Rightarrow> real \<Rightarrow> density_type \<times> real \<Rightarrow> density_type \<times> real" where
  "nearest_loop v eps [] least result = result"
| "nearest_loop v eps (mat # mats) least result =
     (let diff = \<bar>snd mat - v\<bar>
      in if diff < least \<and> diff < eps then nearest_loop v eps mats diff mat
         else nearest_loop v eps mats least result)"

definition Nearest :: "densities \<Rightarrow> real \<Rightarrow> real \<Rightarrow> density_type \<times> real" where
  "Nearest mats v eps = nearest_loop v eps mats DBL_MAX (END, - 1)"

definition NearestMaterial :: "densities \<Rightarrow> real \<Rightarrow> real \<Rightarrow> density_type" where
  "NearestMaterial mats v eps = fst (Nearest mats v eps)"

subsection \<open>Lemmas\<close>

text \<open>The table is ordered, so the loop visits the materials in the order of the enumeration.\<close>

lemma GetMaterialsMap_ordered: "ordered GetMaterialsMap"
  by (simp add: GetMaterialsMap_def less_density_type_def)

lemma Density_ordered [wf_intro]: "ordered mats \<Longrightarrow> ordered (snd (Density t mats))"
  by (auto simp: Density_def wf_intro split: option.splits)

text \<open>What the loop holds behind a part of the table: the first of the closest entries within the
  limit, if there is one.\<close>

definition closest :: "real \<Rightarrow> real \<Rightarrow> densities \<Rightarrow> density_type \<times> real \<Rightarrow> bool" where
  "closest v limit mats r \<longleftrightarrow>
     (\<exists>pre post. mats = pre @ r # post \<and> \<bar>snd r - v\<bar> < limit \<and>
        (\<forall>m \<in> set pre. \<bar>snd r - v\<bar> < \<bar>snd m - v\<bar>) \<and> (\<forall>m \<in> set post. \<bar>snd r - v\<bar> \<le> \<bar>snd m - v\<bar>))"

lemma closest_Cons:
  assumes "closest v limit mats q" and "limit \<le> \<bar>snd mat - v\<bar>"
  shows "closest v limit (mat # mats) q"
proof -
  obtain pre post where "mats = pre @ q # post" "\<bar>snd q - v\<bar> < limit"
    "\<forall>m \<in> set pre. \<bar>snd q - v\<bar> < \<bar>snd m - v\<bar>" "\<forall>m \<in> set post. \<bar>snd q - v\<bar> \<le> \<bar>snd m - v\<bar>"
    using assms(1) unfolding closest_def by blast
  then show ?thesis
    using assms(2) unfolding closest_def by (intro exI [of _ "mat # pre"] exI [of _ post]) auto
qed

lemma nearest_loop_closest:
  "least \<le> limit \<Longrightarrow> limit = min eps DBL_MAX \<Longrightarrow>
     (closest v least mats (nearest_loop v eps mats least r)) \<or>
     (nearest_loop v eps mats least r = r \<and> (\<forall>m \<in> set mats. least \<le> \<bar>snd m - v\<bar>))"
proof (induction mats arbitrary: least r)
  case (Cons mat mats)
  show ?case
  proof (cases "\<bar>snd mat - v\<bar> < least")
    case True
    let ?d = "\<bar>snd mat - v\<bar>"
    have step: "nearest_loop v eps (mat # mats) least r = nearest_loop v eps mats ?d mat"
      using True Cons.prems by simp
    consider "closest v ?d mats (nearest_loop v eps mats ?d mat)"
      | "nearest_loop v eps mats ?d mat = mat" "\<forall>m \<in> set mats. ?d \<le> \<bar>snd m - v\<bar>"
      using Cons.IH [of ?d mat] True Cons.prems by auto
    then show ?thesis
    proof cases
      case 1
      then obtain pre post where "mats = pre @ nearest_loop v eps mats ?d mat # post"
        and "\<bar>snd (nearest_loop v eps mats ?d mat) - v\<bar> < ?d"
        and "\<forall>m \<in> set pre. \<bar>snd (nearest_loop v eps mats ?d mat) - v\<bar> < \<bar>snd m - v\<bar>"
        and "\<forall>m \<in> set post. \<bar>snd (nearest_loop v eps mats ?d mat) - v\<bar> \<le> \<bar>snd m - v\<bar>"
        unfolding closest_def by blast
      then have "closest v least (mat # mats) (nearest_loop v eps mats ?d mat)"
        using True unfolding closest_def by (intro exI [of _ "mat # pre"] exI [of _ post]) auto
      then show ?thesis using step by simp
    next
      case 2
      then have "closest v least (mat # mats) mat"
        using True unfolding closest_def by (intro exI [of _ "[]"] exI [of _ mats]) auto
      then show ?thesis using step 2(1) by simp
    qed
  next
    case False
    then have step: "nearest_loop v eps (mat # mats) least r = nearest_loop v eps mats least r"
      by simp
    show ?thesis
      using Cons.IH [OF Cons.prems, of r] closest_Cons [of v least mats "nearest_loop v eps mats least r" mat] False
      unfolding step by (auto simp del: split_paired_All)
  qed
qed simp

lemma nearest_loop_small_eps:
  "eps \<le> least \<Longrightarrow> nearest_loop v eps mats least r = nearest_loop v eps mats eps r"
proof (induction mats)
  case (Cons mat mats)
  then show ?case by (auto simp: Let_def)
qed simp

subsection \<open>Properties\<close>

text \<open>
  \<open>Nearest\<close> gives the first of the entries whose density is closest to the value, when one is
  closer than the limit (and than the largest double), and the error pair when none is.
\<close>

theorem Nearest_closest:
  "if \<exists>m \<in> set mats. \<bar>snd m - v\<bar> < min eps DBL_MAX
   then closest v (min eps DBL_MAX) mats (Nearest mats v eps)
   else Nearest mats v eps = (END, - 1)"
proof -
  have eq: "Nearest mats v eps = nearest_loop v eps mats (min eps DBL_MAX) (END, - 1)"
    using nearest_loop_small_eps [of eps DBL_MAX] by (auto simp: Nearest_def min_def)
  from nearest_loop_closest [OF order_refl refl, of v eps mats "(END, - 1)"]
  consider "closest v (min eps DBL_MAX) mats (Nearest mats v eps)"
    | "Nearest mats v eps = (END, - 1)" "\<forall>m \<in> set mats. min eps DBL_MAX \<le> \<bar>snd m - v\<bar>"
    unfolding eq by blast
  then show ?thesis
  proof cases
    case 1
    moreover from 1 obtain m where "m \<in> set mats" "\<bar>snd m - v\<bar> < min eps DBL_MAX"
      unfolding closest_def by (metis in_set_conv_decomp)
    ultimately show ?thesis by auto
  next
    case 2
    then have "\<not> (\<exists>m \<in> set mats. \<bar>snd m - v\<bar> < min eps DBL_MAX)" by (meson not_le)
    then show ?thesis using 2(1) by (simp only: if_False)
  qed
qed

text \<open>Every material is found by its name and has the density of the table, which stays as it is; an
  unknown name gives -1.\<close>

lemma Density_named_table:
  assumes "(t, d) \<in> set GetMaterialsMap"
  shows "Density_named (Enum_Str materialDensityIface (type_number t)) GetMaterialsMap = (d, GetMaterialsMap)"
proof -
  have "distinct (enum_names materialDensityIface)" by code_simp
  moreover have "type_number t < length (enum_names materialDensityIface)"
    by (cases t) (simp_all add: materialDensityIface_def gzEnum_def)
  ultimately have "Enum_Set materialDensityIface e (Enum_Str materialDensityIface (type_number t)) = type_number t" for e
    by (rule Enum_Set_Str)
  moreover have "map_of GetMaterialsMap t = Some d"
    using assms ordered_distinct [OF GetMaterialsMap_ordered] by simp
  moreover have "t \<noteq> END" using assms by (auto simp: GetMaterialsMap_def)
  ultimately show ?thesis
    by (simp add: Density_named_def type_number_nth Density_def)
qed

lemma Density_named_unknown:
  assumes "s \<notin> set (enum_names materialDensityIface)"
  shows "Density_named s mats = (- 1, mats)"
  by (simp add: Density_named_def Enum_Set_unknown [OF assms] density_types_def)

text \<open>Asking for the density of \<open>END\<close> gives 0, not the documented -1, and enters \<open>END\<close> in the table:
  from then on it is the material nearest to a small density.\<close>

lemma Density_END_enters:
  "fst (Density END GetMaterialsMap) = 0"
  "NearestMaterial (snd (Density END GetMaterialsMap)) 10 20 = END \<and>
   Nearest (snd (Density END GetMaterialsMap)) 10 20 = (END, 0) \<and> Nearest GetMaterialsMap 10 20 = (END, - 1)"
  by (simp_all add: Density_def GetMaterialsMap_def NearestMaterial_def Nearest_def DBL_MAX_def
      less_density_type_def)

subsection \<open>Timer\<close>

record Timer =
  tm_start :: real
  tm_stop :: real
  tm_running :: bool

definition Timer_new :: "Timer" where
  "Timer_new = \<lparr> tm_start = 0, tm_stop = 0, tm_running = False \<rparr>"

definition Timer_Start :: "real \<Rightarrow> Timer \<Rightarrow> Timer" where
  "Timer_Start now t = t \<lparr> tm_start := now, tm_running := True \<rparr>"

definition Timer_Stop :: "real \<Rightarrow> Timer \<Rightarrow> Timer" where
  "Timer_Stop now t = t \<lparr> tm_stop := now, tm_running := False \<rparr>"

definition Timer_Running :: "Timer \<Rightarrow> bool" where
  "Timer_Running t = tm_running t"

definition ElapsedTime :: "real \<Rightarrow> Timer \<Rightarrow> real" where
  "ElapsedTime now t = (if tm_running t then now - tm_start t else tm_stop t - tm_start t)"

text \<open>The elapsed time runs while the timer does and then stays.\<close>

lemma ElapsedTime_interval:
  "ElapsedTime now (Timer_Start a t) = now - a"
  "ElapsedTime now (Timer_Stop b (Timer_Start a t)) = b - a"
  by (simp_all add: ElapsedTime_def Timer_Start_def Timer_Stop_def)

end
