(* ===== verification/Input_Events.thy ===== *)
theory Input_Events
  imports Complex_Main "HOL-Library.Word"
begin

section \<open>MouseEvent and KeyEvent\<close>

text \<open>
  \<^verbatim>\<open>events/src/MouseEvent.cc\<close> and \<^verbatim>\<open>events/src/KeyEvent.cc\<close>: descriptions of input events. A mouse
  event is copied with its private data, so it is the record of that data. A key event can be
  moved from, which leaves a null pointer behind: its objects live in a store of pointers, \<^const>\<open>None\<close>
  the null one, and every access through a null pointer is undefined.
\<close>

subsection \<open>MouseEvent\<close>

datatype MouseButton = NO_BUTTON | LEFT | MIDDLE | RIGHT

fun button_number :: "MouseButton \<Rightarrow> 32 word" where
  "button_number NO_BUTTON = 0"
| "button_number LEFT = 1"
| "button_number MIDDLE = 2"
| "button_number RIGHT = 4"

datatype MouseEventType = MOUSE_NO_EVENT | MOUSE_MOVE | MOUSE_PRESS | MOUSE_RELEASE | MOUSE_SCROLL

record MouseEvent =
  ms_pos :: "int \<times> int"
  ms_prevPos :: "int \<times> int"
  ms_pressPos :: "int \<times> int"
  ms_scroll :: "int \<times> int"
  ms_moveScale :: real
  ms_dragging :: bool
  ms_type :: MouseEventType
  ms_button :: MouseButton
  ms_buttons :: "32 word"
  ms_shift :: bool
  ms_alt :: bool
  ms_control :: bool

definition MouseEvent_new :: MouseEvent where
  "MouseEvent_new =
     \<lparr> ms_pos = (0, 0), ms_prevPos = (0, 0), ms_pressPos = (0, 0), ms_scroll = (0, 0),
       ms_moveScale = 1 / 100, ms_dragging = False, ms_type = MOUSE_NO_EVENT,
       ms_button = NO_BUTTON, ms_buttons = button_number NO_BUTTON,
       ms_shift = False, ms_alt = False, ms_control = False \<rparr>"

definition Mouse_Pos :: "MouseEvent \<Rightarrow> int \<times> int" where
  "Mouse_Pos e = ms_pos e"

definition Mouse_SetPos :: "int \<times> int \<Rightarrow> MouseEvent \<Rightarrow> MouseEvent" where
  "Mouse_SetPos v e = e \<lparr> ms_pos := v \<rparr>"

definition Mouse_SetPos_xy :: "int \<Rightarrow> int \<Rightarrow> MouseEvent \<Rightarrow> MouseEvent" where
  "Mouse_SetPos_xy x y e = e \<lparr> ms_pos := (x, y) \<rparr>"

definition Mouse_PrevPos :: "MouseEvent \<Rightarrow> int \<times> int" where
  "Mouse_PrevPos e = ms_prevPos e"

definition Mouse_SetPrevPos :: "int \<times> int \<Rightarrow> MouseEvent \<Rightarrow> MouseEvent" where
  "Mouse_SetPrevPos v e = e \<lparr> ms_prevPos := v \<rparr>"

definition Mouse_SetPrevPos_xy :: "int \<Rightarrow> int \<Rightarrow> MouseEvent \<Rightarrow> MouseEvent" where
  "Mouse_SetPrevPos_xy x y e = e \<lparr> ms_prevPos := (x, y) \<rparr>"

definition Mouse_PressPos :: "MouseEvent \<Rightarrow> int \<times> int" where
  "Mouse_PressPos e = ms_pressPos e"

definition Mouse_SetPressPos :: "int \<times> int \<Rightarrow> MouseEvent \<Rightarrow> MouseEvent" where
  "Mouse_SetPressPos v e = e \<lparr> ms_pressPos := v \<rparr>"

definition Mouse_SetPressPos_xy :: "int \<Rightarrow> int \<Rightarrow> MouseEvent \<Rightarrow> MouseEvent" where
  "Mouse_SetPressPos_xy x y e = e \<lparr> ms_pressPos := (x, y) \<rparr>"

definition Mouse_Scroll :: "MouseEvent \<Rightarrow> int \<times> int" where
  "Mouse_Scroll e = ms_scroll e"

definition Mouse_SetScroll :: "int \<times> int \<Rightarrow> MouseEvent \<Rightarrow> MouseEvent" where
  "Mouse_SetScroll v e = e \<lparr> ms_scroll := v \<rparr>"

definition Mouse_SetScroll_xy :: "int \<Rightarrow> int \<Rightarrow> MouseEvent \<Rightarrow> MouseEvent" where
  "Mouse_SetScroll_xy x y e = e \<lparr> ms_scroll := (x, y) \<rparr>"

definition Mouse_MoveScale :: "MouseEvent \<Rightarrow> real" where
  "Mouse_MoveScale e = ms_moveScale e"

definition Mouse_SetMoveScale :: "real \<Rightarrow> MouseEvent \<Rightarrow> MouseEvent" where
  "Mouse_SetMoveScale v e = e \<lparr> ms_moveScale := v \<rparr>"

definition Mouse_Dragging :: "MouseEvent \<Rightarrow> bool" where
  "Mouse_Dragging e = ms_dragging e"

definition Mouse_SetDragging :: "bool \<Rightarrow> MouseEvent \<Rightarrow> MouseEvent" where
  "Mouse_SetDragging v e = e \<lparr> ms_dragging := v \<rparr>"

definition Mouse_Type :: "MouseEvent \<Rightarrow> MouseEventType" where
  "Mouse_Type e = ms_type e"

definition Mouse_SetType :: "MouseEventType \<Rightarrow> MouseEvent \<Rightarrow> MouseEvent" where
  "Mouse_SetType v e = e \<lparr> ms_type := v \<rparr>"

definition Mouse_Button :: "MouseEvent \<Rightarrow> MouseButton" where
  "Mouse_Button e = ms_button e"

definition Mouse_SetButton :: "MouseButton \<Rightarrow> MouseEvent \<Rightarrow> MouseEvent" where
  "Mouse_SetButton v e = e \<lparr> ms_button := v \<rparr>"

definition Mouse_Buttons :: "MouseEvent \<Rightarrow> 32 word" where
  "Mouse_Buttons e = ms_buttons e"

definition Mouse_SetButtons :: "32 word \<Rightarrow> MouseEvent \<Rightarrow> MouseEvent" where
  "Mouse_SetButtons v e = e \<lparr> ms_buttons := v \<rparr>"

definition Mouse_Shift :: "MouseEvent \<Rightarrow> bool" where
  "Mouse_Shift e = ms_shift e"

definition Mouse_SetShift :: "bool \<Rightarrow> MouseEvent \<Rightarrow> MouseEvent" where
  "Mouse_SetShift v e = e \<lparr> ms_shift := v \<rparr>"

definition Mouse_Alt :: "MouseEvent \<Rightarrow> bool" where
  "Mouse_Alt e = ms_alt e"

definition Mouse_SetAlt :: "bool \<Rightarrow> MouseEvent \<Rightarrow> MouseEvent" where
  "Mouse_SetAlt v e = e \<lparr> ms_alt := v \<rparr>"

definition Mouse_Control :: "MouseEvent \<Rightarrow> bool" where
  "Mouse_Control e = ms_control e"

definition Mouse_SetControl :: "bool \<Rightarrow> MouseEvent \<Rightarrow> MouseEvent" where
  "Mouse_SetControl v e = e \<lparr> ms_control := v \<rparr>"

text \<open>A copy owns a copy of the data; assignment replaces all of it.\<close>

definition MouseEvent_copy :: "MouseEvent \<Rightarrow> MouseEvent" where
  "MouseEvent_copy other = other"

definition MouseEvent_assign :: "MouseEvent \<Rightarrow> MouseEvent \<Rightarrow> MouseEvent" where
  "MouseEvent_assign other e = other"

subsection \<open>KeyEvent\<close>

datatype KeyEventType = KEY_NO_EVENT | KEY_PRESS | KEY_RELEASE

record KeyEvent =
  ke_type :: KeyEventType
  ke_key :: int
  ke_text :: string
  ke_control :: bool
  ke_shift :: bool
  ke_alt :: bool

text \<open>The private data every event object points to, by the name of the object.\<close>

type_synonym 'o key_events = "'o \<Rightarrow> KeyEvent option"

definition KeyEvent_private :: KeyEvent where
  "KeyEvent_private =
     \<lparr> ke_type = KEY_NO_EVENT, ke_key = 0, ke_text = [], ke_control = False, ke_shift = False,
       ke_alt = False \<rparr>"

definition KeyEvent_new :: "'o \<Rightarrow> 'o key_events \<Rightarrow> 'o key_events" where
  "KeyEvent_new a s = s(a := Some KeyEvent_private)"

text \<open>The copy reads through the pointer of the other event.\<close>

definition KeyEvent_copy :: "'o \<Rightarrow> 'o \<Rightarrow> 'o key_events \<Rightarrow> 'o key_events option" where
  "KeyEvent_copy a other s = map_option (\<lambda>p. s(a := Some p)) (s other)"

definition KeyEvent_move :: "'o \<Rightarrow> 'o \<Rightarrow> 'o key_events \<Rightarrow> 'o key_events" where
  "KeyEvent_move a other s = s(a := s other, other := None)"

definition KeyEvent_assign :: "'o \<Rightarrow> 'o \<Rightarrow> 'o key_events \<Rightarrow> 'o key_events option" where
  "KeyEvent_assign a other s =
     (if a = other then Some s
      else (case (s a, s other) of (Some _, Some p) \<Rightarrow> Some (s(a := Some p)) | _ \<Rightarrow> None))"

text \<open>The move assignment resets its own pointer before it takes the other one, without a test for
  self-assignment.\<close>

definition KeyEvent_move_assign :: "'o \<Rightarrow> 'o \<Rightarrow> 'o key_events \<Rightarrow> 'o key_events" where
  "KeyEvent_move_assign a other s =
     (let s1 = s(a := None) in s1(other := None, a := s1 other))"

definition Key_Type :: "'o \<Rightarrow> 'o key_events \<Rightarrow> KeyEventType option" where
  "Key_Type a s = map_option ke_type (s a)"

definition Key_SetType :: "KeyEventType \<Rightarrow> 'o \<Rightarrow> 'o key_events \<Rightarrow> 'o key_events option" where
  "Key_SetType v a s = map_option (\<lambda>p. s(a := Some (p \<lparr> ke_type := v \<rparr>))) (s a)"

definition Key_Key :: "'o \<Rightarrow> 'o key_events \<Rightarrow> int option" where
  "Key_Key a s = map_option ke_key (s a)"

definition Key_SetKey :: "int \<Rightarrow> 'o \<Rightarrow> 'o key_events \<Rightarrow> 'o key_events option" where
  "Key_SetKey v a s = map_option (\<lambda>p. s(a := Some (p \<lparr> ke_key := v \<rparr>))) (s a)"

definition Key_Text :: "'o \<Rightarrow> 'o key_events \<Rightarrow> string option" where
  "Key_Text a s = map_option ke_text (s a)"

definition Key_SetText :: "string \<Rightarrow> 'o \<Rightarrow> 'o key_events \<Rightarrow> 'o key_events option" where
  "Key_SetText v a s = map_option (\<lambda>p. s(a := Some (p \<lparr> ke_text := v \<rparr>))) (s a)"

definition Key_Control :: "'o \<Rightarrow> 'o key_events \<Rightarrow> bool option" where
  "Key_Control a s = map_option ke_control (s a)"

definition Key_SetControl :: "bool \<Rightarrow> 'o \<Rightarrow> 'o key_events \<Rightarrow> 'o key_events option" where
  "Key_SetControl v a s = map_option (\<lambda>p. s(a := Some (p \<lparr> ke_control := v \<rparr>))) (s a)"

definition Key_Shift :: "'o \<Rightarrow> 'o key_events \<Rightarrow> bool option" where
  "Key_Shift a s = map_option ke_shift (s a)"

definition Key_SetShift :: "bool \<Rightarrow> 'o \<Rightarrow> 'o key_events \<Rightarrow> 'o key_events option" where
  "Key_SetShift v a s = map_option (\<lambda>p. s(a := Some (p \<lparr> ke_shift := v \<rparr>))) (s a)"

definition Key_Alt :: "'o \<Rightarrow> 'o key_events \<Rightarrow> bool option" where
  "Key_Alt a s = map_option ke_alt (s a)"

definition Key_SetAlt :: "bool \<Rightarrow> 'o \<Rightarrow> 'o key_events \<Rightarrow> 'o key_events option" where
  "Key_SetAlt v a s = map_option (\<lambda>p. s(a := Some (p \<lparr> ke_alt := v \<rparr>))) (s a)"

text \<open>The copy does not share the data with its original: a later change of one is not seen by the
  other.\<close>

lemma KeyEvent_copy_apart:
  assumes "a \<noteq> b" "KeyEvent_copy a b s = Some s1" "Key_SetText v b s1 = Some s2"
  shows "Key_Text a s2 = Key_Text b s" "Key_Text b s2 = Some v"
  using assms by (auto simp: KeyEvent_copy_def Key_SetText_def Key_Text_def)

text \<open>An event that is moved to another has no data left; one that is moved to itself loses it.\<close>

lemma KeyEvent_move_assign_moves:
  "a \<noteq> b \<Longrightarrow> KeyEvent_move_assign a b s = s(a := s b, b := None)"
  by (simp add: KeyEvent_move_assign_def fun_eq_iff)

lemma KeyEvent_move_assign_self: "Key_Text a (KeyEvent_move_assign a a s) = None"
  by (simp add: KeyEvent_move_assign_def Key_Text_def)

end
