(* ===== verification/Temp_Directory.thy ===== *)
theory Temp_Directory
  imports Filesystem_Paths
begin

section \<open>TempDirectory: a working directory for the life of an object\<close>

text \<open>
  \<^verbatim>\<open>src/src/TempDirectory.cc\<close> on POSIX, over the disk operations of \<open>Filesystem_Paths\<close> with
  \<open>std::filesystem::temp_directory_path\<close> and \<open>mkdtemp\<close> as further parameters. The result of \<open>chdir\<close> is
  ignored by the code, and here. \<open>errno\<close> only reaches the text of a warning and is left out.
\<close>

record 'd temp_ops = "'d fs_ops" +
  os_temp_directory_path :: "'d \<Rightarrow> ec \<times> string"
  os_mkdtemp :: "string \<Rightarrow> 'd \<Rightarrow> string option \<times> 'd"

abbreviation fs_part :: "('d, 'x) fs_ops_scheme \<Rightarrow> 'd fs_ops" where
  "fs_part os \<equiv> fs_ops.truncate os"

definition tempDirectoryPath :: "'d temp_ops \<Rightarrow> 'd \<Rightarrow> string" where
  "tempDirectoryPath os d =
     (let (e, ret) = os_temp_directory_path os d in if \<not> fsWarn e then [] else ret)"

text \<open>The function that throws: \<^const>\<open>None\<close> is the \<open>std::system_error\<close>.\<close>

definition createTempDirectory_throwing ::
    "'d temp_ops \<Rightarrow> string \<Rightarrow> string \<Rightarrow> 'd \<Rightarrow> string option \<times> 'd" where
  "createTempDirectory_throwing os baseName parent d =
     (let fullTemplate = path_append parent (baseName @ ''XXXXXX'');
          (ok, d1) = createDirectories (fs_part os) parent d
      in if \<not> ok then (None, d1)
         else os_mkdtemp os fullTemplate d1)"

definition createTempDirectory :: "'d temp_ops \<Rightarrow> string \<Rightarrow> string \<Rightarrow> 'd \<Rightarrow> string \<times> 'd" where
  "createTempDirectory os baseName parent d =
     (case createTempDirectory_throwing os baseName parent d of
        (None, d1) \<Rightarrow> ([], d1)
      | (Some p, d1) \<Rightarrow> (p, d1))"

record TempDirectory =
  td_oldPath :: string
  td_path :: string
  td_isValid :: bool
  td_doCleanup :: bool

definition TempDirectory_in ::
    "'d temp_ops \<Rightarrow> string \<Rightarrow> string \<Rightarrow> string \<Rightarrow> bool \<Rightarrow> 'd \<Rightarrow> TempDirectory \<times> 'd" where
  "TempDirectory_in os root base subDir cleanup d =
     (let t = \<lparr> td_oldPath = cwd (fs_part os) d, td_path = [], td_isValid = False, td_doCleanup = cleanup \<rparr>
      in if root = [] then (t, d)
         else
           let tempPath = (if subDir \<noteq> [] then joinPaths root subDir else root);
               (path, d1) = createTempDirectory os base tempPath d;
               (t1, d2) =
                 (if path \<noteq> [] then (t \<lparr> td_isValid := True \<rparr>, snd (chdir (fs_part os) path d1))
                  else (t, d1))
           in (t1 \<lparr> td_path := cwd (fs_part os) d2 \<rparr>, d2))"

definition TempDirectory_new ::
    "'d temp_ops \<Rightarrow> string \<Rightarrow> string \<Rightarrow> bool \<Rightarrow> 'd \<Rightarrow> TempDirectory \<times> 'd" where
  "TempDirectory_new os base subDir cleanup d =
     TempDirectory_in os (tempDirectoryPath os d) base subDir cleanup d"

definition TempDirectory_destroy :: "'d temp_ops \<Rightarrow> TempDirectory \<Rightarrow> 'd \<Rightarrow> 'd" where
  "TempDirectory_destroy os t d =
     (let d1 = snd (chdir (fs_part os) (td_oldPath t) d)
      in if td_isValid t \<and> td_doCleanup t then snd (removeAll (fs_part os) (td_path t) d1) else d1)"

definition TempDirectory_Valid :: "TempDirectory \<Rightarrow> bool" where
  "TempDirectory_Valid t = td_isValid t"

definition SetDoCleanup :: "bool \<Rightarrow> TempDirectory \<Rightarrow> TempDirectory" where
  "SetDoCleanup c t = t \<lparr> td_doCleanup := c \<rparr>"

definition DoCleanup :: "TempDirectory \<Rightarrow> bool" where
  "DoCleanup t = td_doCleanup t"

definition TempDirectory_Path :: "TempDirectory \<Rightarrow> string" where
  "TempDirectory_Path t = td_path t"

subsection \<open>A file system\<close>

text \<open>What the code relies on. Making a directory does not change the working directory. Removing a
  path that once was a working directory keeps the present one, unless the present one is that
  path or lies below it: then POSIX leaves the process without a working directory, and nothing is
  assumed. A path that was the working directory is the working directory again after a \<open>chdir\<close> to it
  that succeeds (no directory on the way has become a symbolic link), and a \<open>chdir\<close> that fails does
  nothing.\<close>

definition inside :: "string \<Rightarrow> string \<Rightarrow> bool" where
  "inside q p \<longleftrightarrow> q = p \<or> take (length p + 1) q = p @ ''/'' \<or> p = ''/''"

definition keeps_cwd :: "'d temp_ops \<Rightarrow> bool" where
  "keeps_cwd os \<longleftrightarrow>
     (\<forall>p d q. os_current_path os d = (None, q) \<longrightarrow>
        os_current_path os (snd (os_create_directories os p d)) = (None, q) \<and>
        os_current_path os (snd (os_mkdtemp os p d)) = (None, q)) \<and>
     (\<forall>p d0 d q. os_current_path os d0 = (None, p) \<and> os_current_path os d = (None, q) \<and> \<not> inside q p \<longrightarrow>
        os_current_path os (snd (os_remove_all os p d)) = (None, q))"

definition chdir_returns :: "'d temp_ops \<Rightarrow> bool" where
  "chdir_returns os \<longleftrightarrow>
     (\<forall>d0 p d. os_current_path os d0 = (None, p) \<and> fst (os_set_current_path os p d) = None \<longrightarrow>
        os_current_path os (snd (os_set_current_path os p d)) = (None, p)) \<and>
     (\<forall>p d. fst (os_set_current_path os p d) \<noteq> None \<longrightarrow> snd (os_set_current_path os p d) = d)"

lemma fs_part_sel [simp]:
  "os_current_path (fs_part os) = os_current_path os"
  "os_set_current_path (fs_part os) = os_set_current_path os"
  "os_create_directories (fs_part os) = os_create_directories os"
  "os_remove_all (fs_part os) = os_remove_all os"
  by (simp_all add: fs_ops.truncate_def)

lemma snd_chdir [simp]: "snd (chdir os p d) = snd (os_set_current_path os p d)"
  by (simp add: chdir_def split: prod.splits)

lemma snd_removeAll [simp]: "snd (removeAll os p d) = snd (os_remove_all os p d)"
  by (simp add: removeAll_def split: prod.splits)

lemma cwd_Some [simp]: "os_current_path os d = (None, p) \<Longrightarrow> cwd os d = p"
  by (simp add: cwd_def fsWarn_def)

lemma createTempDirectory_cwd:
  assumes "keeps_cwd os" "os_current_path os d = (None, q)"
  shows "os_current_path os (snd (createTempDirectory os b p d)) = (None, q)"
proof -
  obtain e d1 where c: "os_create_directories os p d = (e, d1)" by fastforce
  have "os_current_path os d1 = (None, q)"
    using assms c unfolding keeps_cwd_def by (metis snd_conv)
  moreover from this have "os_current_path os (snd (os_mkdtemp os r d1)) = (None, q)" for r
    using assms unfolding keeps_cwd_def by blast
  ultimately show ?thesis
    by (simp add: createTempDirectory_def createTempDirectory_throwing_def createDirectories_def c
        split: prod.splits option.splits) (metis snd_conv)
qed

subsection \<open>Properties\<close>

text \<open>
  C28. The life of a temporary directory. Whatever the program does between its construction and its
  destruction, and with the clean-up flag at \<open>c\<close> when it is destroyed: when the old working directory
  can still be entered, the destructor first goes back to it; then, only when the object is valid and the
  flag is set, it removes the path of the object, which is the working directory the constructor
  ended in. When it removes nothing, or the path removed is neither the old working directory
  nor one above it, the program is in the old working directory at the end. When the constructor could
  not enter the directory it had made, the object is valid all the same and its path is the old working
  directory: with the flag set, that is what is removed.
\<close>

theorem TempDirectory_life:
  assumes "keeps_cwd os" and "chdir_returns os" and "os_current_path os d0 = (None, old)"
    and "TempDirectory_in os root base subd cleanup d0 = (t, d1)"
    and "fst (os_set_current_path os old d) = None"
  shows "DoCleanup t = cleanup \<and>
    (let d' = snd (os_set_current_path os old d); after = TempDirectory_destroy os (SetDoCleanup c t) d
     in os_current_path os d' = (None, old) \<and>
        after = (if TempDirectory_Valid t \<and> c then snd (os_remove_all os (TempDirectory_Path t) d') else d') \<and>
        (\<not> (TempDirectory_Valid t \<and> c) \<or>
           (\<exists>p. os_current_path os d1 = (None, p) \<and> \<not> inside old p) \<longrightarrow>
         os_current_path os after = (None, old))) \<and>
    (TempDirectory_Valid t \<longrightarrow> TempDirectory_Path t = cwd (fs_part os) d1) \<and>
    (\<forall>e. (let (path, dm) = createTempDirectory os base (if subd \<noteq> [] then joinPaths root subd else root) d0
         in path \<noteq> [] \<and> root \<noteq> [] \<and> fst (os_set_current_path os path dm) = Some e) \<longrightarrow>
       TempDirectory_Valid t \<and> TempDirectory_Path t = old)"
proof -
  let ?tmp = "if subd \<noteq> [] then joinPaths root subd else root"
  let ?there = "snd (os_set_current_path os old d)"
  obtain path dm where m: "createTempDirectory os base ?tmp d0 = (path, dm)" by fastforce
  have dm: "os_current_path os dm = (None, old)"
    using createTempDirectory_cwd [OF assms(1,3), of base ?tmp] m by simp
  have t: "td_oldPath t = old" "td_doCleanup t = cleanup"
      "td_isValid t \<longrightarrow> td_path t = cwd (fs_part os) d1"
    using assms(3,4) by (auto simp: TempDirectory_in_def Let_def m split: if_splits)
  have returned: "os_current_path os ?there = (None, old)"
    using assms(2,3,5) unfolding chdir_returns_def by blast
  have removing: "os_current_path os (snd (os_remove_all os (td_path t) ?there)) = (None, old)"
    if "td_isValid t" "os_current_path os d1 = (None, p)" "\<not> inside old p" for p
    using assms(1) returned that t(3) unfolding keeps_cwd_def by (simp del: split_paired_All)
  have destroy: "TempDirectory_destroy os (SetDoCleanup c t) d =
      (if td_isValid t \<and> c then snd (os_remove_all os (td_path t) ?there) else ?there)"
    by (simp add: Let_def TempDirectory_destroy_def SetDoCleanup_def t(1))
  have stuck: "td_isValid t \<and> td_path t = old"
    if "path \<noteq> []" "root \<noteq> []" "fst (os_set_current_path os path dm) = Some e" for e
  proof -
    have "snd (os_set_current_path os path dm) = dm"
      using assms(2) that(3) unfolding chdir_returns_def by (metis option.distinct(1))
    then show ?thesis using assms(4) that dm by (auto simp: TempDirectory_in_def Let_def m split: if_splits)
  qed
  show ?thesis
    using t returned removing stuck
    by (auto simp: Let_def m destroy DoCleanup_def TempDirectory_Valid_def TempDirectory_Path_def)
qed

text \<open>A disk: the working directory and the directories. The working directory is lost when it is
  removed, as on POSIX.\<close>

type_synonym small_disk = "string \<times> string list"

definition small_os :: "small_disk temp_ops" where
  "small_os =
     \<lparr> os_exists = \<lambda>(c, ds) p. p \<in> set ds, os_is_directory = \<lambda>(c, ds) p. p \<in> set ds,
       os_is_regular_file = \<lambda>d p. False,
       os_create_directory = \<lambda>p (c, ds). (None, c, (if p \<in> set ds then ds else p # ds)),
       os_create_directories = \<lambda>p (c, ds). (None, c, (if p \<in> set ds then ds else p # ds)),
       os_absolute = \<lambda>d p. (None, p), os_current_path = \<lambda>(c, ds). if c \<in> set ds then (None, c) else (Some 2, []),
       os_set_current_path = \<lambda>p (c, ds). if p \<in> set ds then (None, p, ds) else (Some 2, c, ds),
       os_copy_file = \<lambda>p q d. (False, Some 1, d), os_copy = \<lambda>p q d. (Some 1, d),
       os_rename = \<lambda>p q d. (Some 1, d), os_remove = \<lambda>p (c, ds). (p \<in> set ds, None, c, [q \<leftarrow> ds. q \<noteq> p]),
       os_remove_all = \<lambda>p (c, ds). (None, c, [q \<leftarrow> ds. \<not> inside q p]),
       os_temp_directory_path = \<lambda>d. (None, ''/tmp''),
       os_mkdtemp = \<lambda>p (c, ds). (Some p, c, (if p \<in> set ds then ds else p # ds)) \<rparr>"

text \<open>A disk on which another process takes the new directory away before it is entered.\<close>

definition racing_os :: "small_disk temp_ops" where
  "racing_os = small_os \<lparr> os_mkdtemp := \<lambda>p (c, ds). (Some p, c, ds) \<rparr>"

lemma small_os_laws: "keeps_cwd racing_os" "chdir_returns racing_os" "keeps_cwd small_os" "chdir_returns small_os"
  by (auto simp: keeps_cwd_def chdir_returns_def racing_os_def small_os_def split: if_splits)

lemma TempDirectory_life_witness:
  "(\<exists>t d1. TempDirectory_in small_os ''/tmp'' ''x'' [] True (''/home'', [''/home'', ''/tmp'']) = (t, d1) \<and>
     d1 = (''/tmp/xXXXXXX'', [''/tmp/xXXXXXX'', ''/home'', ''/tmp'']) \<and>
     TempDirectory_destroy small_os (SetDoCleanup True t) d1 = (''/home'', [''/home'', ''/tmp''])) \<and>
   (\<exists>t d1. TempDirectory_in racing_os ''/tmp'' ''x'' [] True (''/home'', [''/home'', ''/tmp'']) = (t, d1) \<and>
     d1 = (''/home'', [''/home'', ''/tmp'']) \<and>
     TempDirectory_destroy racing_os (SetDoCleanup True t) d1 = (''/home'', [''/tmp'']))"
proof -
  let ?d = "(''/home'', [''/home'', ''/tmp''])" and ?e = "(''/tmp/xXXXXXX'', [''/tmp/xXXXXXX'', ''/home'', ''/tmp''])"
  have made: "TempDirectory_in small_os ''/tmp'' ''x'' [] True ?d =
      (\<lparr> td_oldPath = ''/home'', td_path = ''/tmp/xXXXXXX'', td_isValid = True, td_doCleanup = True \<rparr>, ?e)"
    by code_simp
  have raced: "TempDirectory_in racing_os ''/tmp'' ''x'' [] True ?d =
      (\<lparr> td_oldPath = ''/home'', td_path = ''/home'', td_isValid = True, td_doCleanup = True \<rparr>, ?d)"
    by code_simp
  have ok: "os_current_path small_os ?d = (None, ''/home'')" "fst (os_set_current_path small_os ''/home'' ?e) = None"
      "os_current_path racing_os ?d = (None, ''/home'')" "fst (os_set_current_path racing_os ''/home'' ?d) = None"
    by code_simp+
  have "TempDirectory_destroy small_os (SetDoCleanup True
      \<lparr> td_oldPath = ''/home'', td_path = ''/tmp/xXXXXXX'', td_isValid = True, td_doCleanup = True \<rparr>) ?e = ?d"
  proof -
    have "snd (os_remove_all small_os ''/tmp/xXXXXXX'' (snd (os_set_current_path small_os ''/home'' ?e))) = ?d" by code_simp
    then show ?thesis
      using TempDirectory_life [OF small_os_laws(3,4) ok(1) made ok(2), of True]
      by (simp add: Let_def TempDirectory_Valid_def TempDirectory_Path_def)
  qed
  moreover have "TempDirectory_destroy racing_os (SetDoCleanup True
      \<lparr> td_oldPath = ''/home'', td_path = ''/home'', td_isValid = True, td_doCleanup = True \<rparr>) ?d = (''/home'', [''/tmp''])"
  proof -
    have "snd (os_remove_all racing_os ''/home'' (snd (os_set_current_path racing_os ''/home'' ?d))) = (''/home'', [''/tmp''])" by code_simp
    then show ?thesis
      using TempDirectory_life [OF small_os_laws(1,2) ok(3) raced ok(4), of True]
      by (simp add: Let_def TempDirectory_Valid_def TempDirectory_Path_def)
  qed
  ultimately show ?thesis using made raced by blast
qed

end
