(* ===== verification/Signal_Handler.thy ===== *)
theory Signal_Handler
  imports Std_Map "HOL-Library.Word"
begin

section \<open>SignalHandler: signals through a pipe\<close>

text \<open>
  \<^verbatim>\<open>src/src/SignalHandler.cc\<close>. The signal handler of the process writes one byte to a pipe; a thread
  reads the bytes and calls every registered wrapper, which calls the callbacks of its
  \<open>SignalHandler\<close>. The state has the global map of wrappers, the counter that numbers them, the pipe
  and the private data of the handlers that live, by address. The mutexes make one
  operation at a time, so an operation is a step; a callback that uses the object it is called from
  waits for itself and is not modelled. Whether \<open>std::signal\<close> succeeds and the capacity of the pipe
  are arguments; the counter is an \<open>int\<close> no program exhausts. \<^const>\<open>None\<close> is undefined behaviour.
\<close>

record 'cb SignalHandlerPrivate =
  sig_callbacks :: "'cb list"
  sig_initialized :: bool
  wrapperIndex :: int

record 'cb signal_state =
  sig_handlers :: "nat \<Rightarrow> 'cb SignalHandlerPrivate option"
  gOnSignalWrappers :: "(int, nat) omap"
  sig_counter :: int
  sig_pipe :: "8 word list"
  pipe_running :: bool

definition signals_0 :: "'cb signal_state" where
  "signals_0 =
     \<lparr> sig_handlers = Map.empty, gOnSignalWrappers = [], sig_counter = 0, sig_pipe = [], pipe_running = False \<rparr>"

text \<open>A write to a full pipe fails, since its descriptor does not block, and the signal is lost.\<close>

definition onSignalWriteToSelfPipe :: "nat \<Rightarrow> int \<Rightarrow> 'cb signal_state \<Rightarrow> 'cb signal_state" where
  "onSignalWriteToSelfPipe capacity v s =
     (if length (sig_pipe s) < capacity then s \<lparr> sig_pipe := sig_pipe s @ [word_of_int v] \<rparr> else s)"

definition SelfPipe_Initialize :: "'cb signal_state \<Rightarrow> 'cb signal_state" where
  "SelfPipe_Initialize s = s \<lparr> pipe_running := True \<rparr>"

definition SignalHandler_new :: "bool \<Rightarrow> bool \<Rightarrow> nat \<Rightarrow> 'cb signal_state \<Rightarrow> 'cb signal_state" where
  "SignalHandler_new int_ok term_ok a s =
     (let h = \<lparr> sig_callbacks = [], sig_initialized = False, wrapperIndex = - 1 \<rparr>;
          s1 = SelfPipe_Initialize (s \<lparr> sig_handlers := (sig_handlers s)(a \<mapsto> h) \<rparr>)
      in if \<not> int_ok then s1
         else if \<not> term_ok then s1
         else s1 \<lparr> gOnSignalWrappers := mput (sig_counter s) a (gOnSignalWrappers s),
                   sig_counter := sig_counter s + 1,
                   sig_handlers := (sig_handlers s)(a \<mapsto>
                     h \<lparr> wrapperIndex := sig_counter s, sig_initialized := True \<rparr>) \<rparr>)"

definition SignalHandler_destroy :: "nat \<Rightarrow> 'cb signal_state \<Rightarrow> 'cb signal_state option" where
  "SignalHandler_destroy a s =
     map_option (\<lambda>h. s \<lparr> gOnSignalWrappers := filter (\<lambda>e. fst e \<noteq> wrapperIndex h) (gOnSignalWrappers s),
                         sig_handlers := (sig_handlers s)(a := None) \<rparr>) (sig_handlers s a)"

definition Initialized :: "nat \<Rightarrow> 'cb signal_state \<Rightarrow> bool option" where
  "Initialized a s = map_option sig_initialized (sig_handlers s a)"

definition SetInitialized :: "bool \<Rightarrow> nat \<Rightarrow> 'cb signal_state \<Rightarrow> 'cb signal_state option" where
  "SetInitialized b a s =
     map_option (\<lambda>h. s \<lparr> sig_handlers := (sig_handlers s)(a \<mapsto> h \<lparr> sig_initialized := b \<rparr>) \<rparr>) (sig_handlers s a)"

definition AddCallback :: "'cb \<Rightarrow> nat \<Rightarrow> 'cb signal_state \<Rightarrow> (bool \<times> 'cb signal_state) option" where
  "AddCallback cb a s =
     map_option (\<lambda>h.
       if sig_initialized h
       then (True, s \<lparr> sig_handlers := (sig_handlers s)(a \<mapsto> h \<lparr> sig_callbacks := sig_callbacks h @ [cb] \<rparr>) \<rparr>)
       else (False, s)) (sig_handlers s a)"

text \<open>The calls a signal makes, in order: the handler, the callback and the signal.\<close>

type_synonym 'cb call = "nat \<times> 'cb \<times> int"

definition OnSignal :: "int \<Rightarrow> nat \<Rightarrow> 'cb signal_state \<Rightarrow> 'cb call list option" where
  "OnSignal sg a s = map_option (\<lambda>h. map (\<lambda>cb. (a, cb, sg)) (sig_callbacks h)) (sig_handlers s a)"

fun call_wrappers :: "int \<Rightarrow> (int, nat) omap \<Rightarrow> 'cb signal_state \<Rightarrow> 'cb call list option" where
  "call_wrappers sg [] s = Some []"
| "call_wrappers sg ((k, a) # ws) s =
     (case OnSignal sg a s of
        None \<Rightarrow> None
      | Some cs \<Rightarrow> map_option ((@) cs) (call_wrappers sg ws s))"

text \<open>One turn of the loop of the thread; it waits while the pipe is empty.\<close>

definition CheckPipe :: "'cb signal_state \<Rightarrow> ('cb call list \<times> 'cb signal_state) option" where
  "CheckPipe s =
     (case sig_pipe s of
        [] \<Rightarrow> Some ([], s)
      | b # r \<Rightarrow>
          (if \<not> pipe_running s then Some ([], s \<lparr> sig_pipe := r \<rparr>)
           else map_option (\<lambda>cs. (cs, s \<lparr> sig_pipe := r \<rparr>)) (call_wrappers (uint b) (gOnSignalWrappers s) s)))"

definition SelfPipe_destroy :: "nat \<Rightarrow> 'cb signal_state \<Rightarrow> 'cb signal_state" where
  "SelfPipe_destroy capacity s = onSignalWriteToSelfPipe capacity 127 (s \<lparr> pipe_running := False \<rparr>)"

subsection \<open>The steps of a program\<close>

inductive sig_step :: "'cb signal_state \<Rightarrow> 'cb signal_state \<Rightarrow> bool" where
  new: "sig_handlers s a = None \<Longrightarrow> sig_step s (SignalHandler_new i t a s)"
| destroy: "SignalHandler_destroy a s = Some s' \<Longrightarrow> sig_step s s'"
| init: "SetInitialized b a s = Some s' \<Longrightarrow> sig_step s s'"
| add: "AddCallback cb a s = Some (r, s') \<Longrightarrow> sig_step s s'"
| signal: "sig_step s (onSignalWriteToSelfPipe capacity v s)"
| check: "CheckPipe s = Some (cs, s') \<Longrightarrow> sig_step s s'"

inductive sig_reach :: "'cb signal_state \<Rightarrow> bool" where
  start: "sig_reach signals_0"
| step: "sig_reach s \<Longrightarrow> sig_step s s' \<Longrightarrow> sig_reach s'"

text \<open>Every wrapper belongs to a handler that lives and has its number; a handler has at most one.\<close>

definition sig_inv :: "'cb signal_state \<Rightarrow> bool" where
  "sig_inv s \<longleftrightarrow> ordered (gOnSignalWrappers s) \<and>
     (\<forall>k a. (k, a) \<in> set (gOnSignalWrappers s) \<longrightarrow>
        0 \<le> k \<and> k < sig_counter s \<and> (\<exists>h. sig_handlers s a = Some h \<and> wrapperIndex h = k)) \<and>
     (\<forall>a h. sig_handlers s a = Some h \<longrightarrow>
        wrapperIndex h = - 1 \<or> (wrapperIndex h, a) \<in> set (gOnSignalWrappers s)) \<and>
     0 \<le> sig_counter s"

lemma sig_invI:
  assumes "ordered (gOnSignalWrappers s)"
    and "\<And>k a. (k, a) \<in> set (gOnSignalWrappers s) \<Longrightarrow>
        0 \<le> k \<and> k < sig_counter s \<and> (\<exists>h. sig_handlers s a = Some h \<and> wrapperIndex h = k)"
    and "\<And>a h. sig_handlers s a = Some h \<Longrightarrow>
        wrapperIndex h = - 1 \<or> (wrapperIndex h, a) \<in> set (gOnSignalWrappers s)"
    and "0 \<le> sig_counter s"
  shows "sig_inv s"
  using assms unfolding sig_inv_def by blast

lemma sig_inv_same_wrappers:
  assumes "sig_inv s" and "gOnSignalWrappers s' = gOnSignalWrappers s" and "sig_counter s' = sig_counter s"
    and "\<And>a. map_option wrapperIndex (sig_handlers s' a) = map_option wrapperIndex (sig_handlers s a)"
  shows "sig_inv s'"
proof (rule sig_invI)
  have h: "(\<exists>h. sig_handlers s' a = Some h \<and> wrapperIndex h = k) \<longleftrightarrow> (\<exists>h. sig_handlers s a = Some h \<and> wrapperIndex h = k)"
    for a k using assms(4) [of a] by (cases "sig_handlers s a"; cases "sig_handlers s' a") auto
  fix k a assume "(k, a) \<in> set (gOnSignalWrappers s')"
  then show "0 \<le> k \<and> k < sig_counter s' \<and> (\<exists>h. sig_handlers s' a = Some h \<and> wrapperIndex h = k)"
    using assms(1) unfolding sig_inv_def assms(2,3) h by blast
next
  fix a h assume "sig_handlers s' a = Some h"
  then obtain h0 where "sig_handlers s a = Some h0" "wrapperIndex h0 = wrapperIndex h"
    using assms(4) [of a] by (cases "sig_handlers s a") auto
  then show "wrapperIndex h = - 1 \<or> (wrapperIndex h, a) \<in> set (gOnSignalWrappers s')"
    using assms(1) unfolding sig_inv_def assms(2) by metis
qed (use assms in \<open>auto simp: sig_inv_def\<close>)

lemma sig_inv_new:
  assumes inv: "sig_inv s" and fresh: "sig_handlers s a = None"
  shows "sig_inv (SignalHandler_new i t a s)"
proof (cases "i \<and> t")
  case True
  have old: "0 \<le> k \<and> k < sig_counter s \<and> b \<noteq> a \<and> (\<exists>h. sig_handlers s b = Some h \<and> wrapperIndex h = k)"
    if "(k, b) \<in> set (gOnSignalWrappers s)" for k b
    using that inv fresh unfolding sig_inv_def by force
  have "\<forall>e \<in> set (gOnSignalWrappers s). fst e < sig_counter s" using old by auto
  then have w: "mput (sig_counter s) a (gOnSignalWrappers s) = gOnSignalWrappers s @ [(sig_counter s, a)]"
    by (rule mput_end)
  show ?thesis
  proof (rule sig_invI)
    show "ordered (gOnSignalWrappers (SignalHandler_new i t a s))"
      using True inv by (auto simp: SignalHandler_new_def sig_inv_def SelfPipe_Initialize_def wf_intro)
  qed (use True inv in \<open>auto simp: SignalHandler_new_def SelfPipe_Initialize_def w sig_inv_def Let_def
        split: if_splits dest: old less_imp_le\<close>)
next
  case False
  have "b \<noteq> a" if "(k, b) \<in> set (gOnSignalWrappers s)" for k b
    using that inv fresh unfolding sig_inv_def by force
  then show ?thesis
    using False inv by (auto simp: SignalHandler_new_def SelfPipe_Initialize_def sig_inv_def Let_def)
qed

lemma sig_inv_destroy:
  assumes inv: "sig_inv s" and d: "SignalHandler_destroy a s = Some s'"
  shows "sig_inv s'"
proof -
  from d obtain h where h: "sig_handlers s a = Some h"
    and s': "s' = s \<lparr> gOnSignalWrappers := filter (\<lambda>e. fst e \<noteq> wrapperIndex h) (gOnSignalWrappers s),
                     sig_handlers := (sig_handlers s)(a := None) \<rparr>"
    by (auto simp: SignalHandler_destroy_def)
  have other: "wrapperIndex h' \<noteq> wrapperIndex h" if "b \<noteq> a" "sig_handlers s b = Some h'" "wrapperIndex h' \<noteq> - 1" for b h'
  proof
    assume eq: "wrapperIndex h' = wrapperIndex h"
    with inv that h have "(wrapperIndex h, b) \<in> set (gOnSignalWrappers s)" "(wrapperIndex h, a) \<in> set (gOnSignalWrappers s)"
      unfolding sig_inv_def by metis+
    moreover have "distinct (mkeys (gOnSignalWrappers s))"
      using inv by (intro ordered_distinct) (simp add: sig_inv_def)
    ultimately show False using that(1) by (metis map_of_is_SomeI option.inject)
  qed
  have o: "ordered (filter P (gOnSignalWrappers s))" for P
    using inv by (simp add: sig_inv_def sorted_wrt_map sorted_wrt_filter)
  show ?thesis
  proof (rule sig_invI)
    show "ordered (gOnSignalWrappers s')" using o by (simp add: s')
    fix k b assume kb: "(k, b) \<in> set (gOnSignalWrappers s')"
    then show "0 \<le> k \<and> k < sig_counter s' \<and> (\<exists>h. sig_handlers s' b = Some h \<and> wrapperIndex h = k)"
      using inv h unfolding s' sig_inv_def by force
  next
    fix b h' assume "sig_handlers s' b = Some h'"
    then show "wrapperIndex h' = - 1 \<or> (wrapperIndex h', b) \<in> set (gOnSignalWrappers s')"
      using inv other [of b h'] unfolding s' sig_inv_def by (auto split: if_splits)
  qed (use inv in \<open>simp add: s' sig_inv_def\<close>)
qed

lemma sig_inv_step: "sig_inv (s :: 'cb signal_state) \<Longrightarrow> sig_step s s' \<Longrightarrow> sig_inv s'"
proof (erule sig_step.cases; hypsubst)
  fix b a and s' s :: "'cb signal_state" assume "sig_inv s" "SetInitialized b a s = Some s'"
  then show "sig_inv s'" by (elim sig_inv_same_wrappers) (auto simp: SetInitialized_def)
next
  fix cb a r and s' s :: "'cb signal_state" assume "sig_inv s" "AddCallback cb a s = Some (r, s')"
  then show "sig_inv s'" by (elim sig_inv_same_wrappers) (auto simp: AddCallback_def split: if_splits)
next
  fix s :: "'cb signal_state" and c v assume "sig_inv s"
  then show "sig_inv (onSignalWriteToSelfPipe c v s)"
    by (elim sig_inv_same_wrappers) (auto simp: onSignalWriteToSelfPipe_def)
next
  fix cs and s' s :: "'cb signal_state" assume "sig_inv s" "CheckPipe s = Some (cs, s')"
  then show "sig_inv s'"
    by (elim sig_inv_same_wrappers) (auto simp: CheckPipe_def split: list.splits if_splits)
qed (auto intro: sig_inv_new sig_inv_destroy)

lemma sig_inv_reach: "sig_reach s \<Longrightarrow> sig_inv s"
proof (induction rule: sig_reach.induct)
  case start
  then show ?case by (simp add: signals_0_def sig_inv_def)
next
  case (step s s')
  then show ?case by (blast intro: sig_inv_step)
qed

definition handler_callbacks :: "'cb signal_state \<Rightarrow> nat \<Rightarrow> 'cb list" where
  "handler_callbacks s a = (case sig_handlers s a of None \<Rightarrow> [] | Some h \<Rightarrow> sig_callbacks h)"

lemma call_wrappers_live:
  "\<forall>w \<in> set ws. sig_handlers s (snd w) \<noteq> None \<Longrightarrow>
     call_wrappers sg ws s = Some (concat (map (\<lambda>a. map (\<lambda>cb. (a, cb, sg)) (handler_callbacks s a)) (map snd ws)))"
  by (induction ws) (auto simp: OnSignal_def handler_callbacks_def)

subsection \<open>Properties\<close>

text \<open>
  C27. In every state a program can reach, reading a byte from the pipe calls, with the signal that was
  written, each callback of each handler that is registered once and no other: the handlers all
  live, and they are those whose constructor succeeded and that are not destroyed.
\<close>

theorem signals_reach_callbacks:
  assumes "sig_reach s" and "sig_pipe s = b # r" and "pipe_running s"
  shows "\<exists>live. distinct live \<and>
     set live = {a. \<exists>h. sig_handlers s a = Some h \<and> wrapperIndex h \<noteq> - 1} \<and>
     CheckPipe s = Some (concat (map (\<lambda>a. map (\<lambda>cb. (a, cb, uint b)) (handler_callbacks s a)) live),
                         s \<lparr> sig_pipe := r \<rparr>)"
proof (intro exI conjI)
  note inv = sig_inv_reach [OF assms(1)]
  let ?live = "map snd (gOnSignalWrappers s)"
  have idx: "\<exists>h. sig_handlers s a = Some h \<and> wrapperIndex h = k \<and> 0 \<le> k" if "(k, a) \<in> set (gOnSignalWrappers s)" for k a
    using that inv unfolding sig_inv_def by blast
  show "distinct ?live"
    unfolding distinct_map
  proof
    show "distinct (gOnSignalWrappers s)"
      using inv by (auto simp: sig_inv_def dest!: ordered_distinct simp: distinct_map)
    show "inj_on snd (set (gOnSignalWrappers s))"
      using idx by (auto simp: inj_on_def) (metis option.inject)
  qed
  show "set ?live = {a. \<exists>h. sig_handlers s a = Some h \<and> wrapperIndex h \<noteq> - 1}"
    using idx inv unfolding sig_inv_def by force
  have "\<forall>w \<in> set (gOnSignalWrappers s). sig_handlers s (snd w) \<noteq> None" using idx by force
  from call_wrappers_live [OF this]
  show "CheckPipe s = Some (concat (map (\<lambda>a. map (\<lambda>cb. (a, cb, uint b)) (handler_callbacks s a)) ?live),
                         s \<lparr> sig_pipe := r \<rparr>)"
    using assms(2,3) by (simp add: CheckPipe_def)
qed

definition signals_1 :: "string signal_state" where
  "signals_1 =
     onSignalWriteToSelfPipe 16 2 (snd (the (AddCallback ''stop'' 7 (SignalHandler_new True True 7 signals_0))))"

lemma signals_reach_callbacks_witness:
  "\<exists>s'. CheckPipe signals_1 = Some ([(7, ''stop'', 2)], s')"
proof -
  let ?s = "SignalHandler_new True True 7 signals_0 :: string signal_state"
  obtain s2 where a: "AddCallback ''stop'' 7 ?s = Some (True, s2)"
    by (simp add: AddCallback_def SignalHandler_new_def SelfPipe_Initialize_def signals_0_def)
  have "sig_step signals_0 ?s" by (rule sig_step.new) (simp add: signals_0_def)
  then have "sig_reach ?s" by (rule sig_reach.step [OF sig_reach.start])
  then have "sig_reach s2" using sig_step.add [OF a] by (rule sig_reach.step)
  then have r: "sig_reach signals_1"
    unfolding signals_1_def a by (auto intro: sig_reach.step sig_step.signal)
  have s1: "signals_1 = \<lparr> sig_handlers = [7 \<mapsto> \<lparr> sig_callbacks = [''stop''], sig_initialized = True, wrapperIndex = 0 \<rparr>],
      gOnSignalWrappers = [(0, 7)], sig_counter = 1, sig_pipe = [2], pipe_running = True \<rparr>"
    by (simp add: signals_1_def AddCallback_def SignalHandler_new_def SelfPipe_Initialize_def signals_0_def
        onSignalWriteToSelfPipe_def)
  from signals_reach_callbacks [OF r, of 2 "[]"] obtain live where
    "set live = {a. \<exists>h. sig_handlers signals_1 a = Some h \<and> wrapperIndex h \<noteq> - 1}" "distinct live"
    "CheckPipe signals_1 = Some (concat (map (\<lambda>a. map (\<lambda>cb. (a, cb, 2)) (handler_callbacks signals_1 a)) live),
        signals_1 \<lparr> sig_pipe := [] \<rparr>)"
    by (auto simp: s1)
  moreover from this(1,2) have "live = [7]"
    by (cases live; cases "tl live") (auto simp: s1 split: if_splits)
  ultimately show ?thesis by (simp add: s1 handler_callbacks_def)
qed

end
