(* ===== verification/Spec2Isabelle.thy ===== *)
theory Spec2Isabelle
  imports Base64_Codec Sha1_Digest System_Paths Worker_Pool Battery_Model Csv_Reader Event_System Mesh_Model Skeleton_Model Trajectory
    Manager_Facts Moving_Window Data_Frame Material_Pbr Stl_Loader Bvh_Animation Svg_Polylines
    Collada_Corners Collada_Hang Image_Colors Height_Facts Material_Density Input_Events Temp_Directory Signal_Handler
begin

text \<open>
  gz-common is the base library of the Gazebo simulator. Its code is C++: classes with private data
  behind a pointer, written over the standard library, the numeric classes of gz-math and a few
  C libraries. This development models the hand-written classes of the library one method at a time.

  \<^bold>\<open>Parts of the program and the theories that model them\<close>

  \<^item> \<open>Cpp_Prelude\<close>, \<open>Number_Text\<close>, \<open>Std_Map\<close>, \<open>Gz_Math\<close>: the parts of the standard library the code
    uses (\<open>std::string\<close> with \<open>find\<close>, \<open>substr\<close> and \<open>npos\<close>; \<open>stoi\<close> and its relatives; \<open>std::map\<close> in key
    order) and the interface to gz-math, with the lemmas the other theories share.
  \<^item> \<open>String_Utils\<close>, \<open>Text_Util\<close>: \<^verbatim>\<open>src/src/StringUtils.cc\<close>, and the text, hash and environment
    functions of \<^verbatim>\<open>src/src/Util.cc\<close>. \<open>Sha1_Digest\<close>: the SHA-1 class there, against FIPS 180-1.
    \<open>Base64_Codec\<close>: \<^verbatim>\<open>src/src/Base64.cc\<close>.
  \<^item> \<open>Uri_Path\<close>, \<open>Uri_Query\<close>, \<open>Uri_Authority\<close>, \<open>Uri\<close>: the five classes of \<^verbatim>\<open>src/src/URI.cc\<close>. Path,
    query, fragment and authority offer \<open>Valid\<close> and \<open>Parse\<close> to \<open>URI\<close>; the locale \<open>uri_part\<close> states
    what \<open>URI\<close> relies on and is interpreted on each.
  \<^item> \<open>Filesystem_Paths\<close>, \<open>System_Paths\<close>, \<open>Temp_Directory\<close>: \<^verbatim>\<open>src/src/Filesystem.cc\<close>,
    \<^verbatim>\<open>SystemPaths.cc\<close> and \<^verbatim>\<open>TempDirectory.cc\<close>. Loaders of the graphics part ask \<open>System_Paths\<close> where a
    file is.
  \<^item> \<open>Worker_Pool\<close>, \<open>Event_System\<close>, \<open>Signal_Handler\<close>: \<^verbatim>\<open>src/src/WorkerPool.cc\<close>,
    \<^verbatim>\<open>events/include/gz/common/Event.hh\<close> and \<^verbatim>\<open>src/src/SignalHandler.cc\<close>: the concurrent and the
    callback-driven parts, as steps over an explicit state.
  \<^item> \<open>Battery_Model\<close>, \<open>Material_Density\<close> (with \<^verbatim>\<open>src/src/Timer.cc\<close>), \<open>Input_Events\<close>, \<open>Moving_Window\<close>,
    \<open>Flag_Set\<close>: the small classes \<^verbatim>\<open>Battery.cc\<close>, \<^verbatim>\<open>MaterialDensity.cc\<close>, \<^verbatim>\<open>MouseEvent.cc\<close>,
    \<^verbatim>\<open>KeyEvent.cc\<close> and the templates \<^verbatim>\<open>MovingWindowFilter.hh\<close>, \<^verbatim>\<open>FlagSet.hh\<close>, \<^verbatim>\<open>EnumIface.hh\<close>.
  \<^item> \<open>Csv_Reader\<close>, \<open>Data_Frame\<close>: \<^verbatim>\<open>io/src/CSVStreams.cc\<close> and the templates that read its rows into
    columns, \<^verbatim>\<open>DataFrame.hh\<close> and \<^verbatim>\<open>IOBase.hh\<close>.
  \<^item> \<open>Sub_Mesh\<close>, \<open>Mesh_Model\<close>, \<open>Material_Pbr\<close>: \<^verbatim>\<open>graphics/src/SubMesh.cc\<close>, \<^verbatim>\<open>Mesh.cc\<close>,
    \<^verbatim>\<open>Material.cc\<close> and \<^verbatim>\<open>Pbr.cc\<close>. A mesh owns its sub-meshes.
  \<^item> \<open>Mesh_Shapes\<close>, \<open>Shape_Facts\<close>, \<open>Shape_Facts2\<close>, \<open>Polyline_Mesh\<close>, \<open>Polyline_Facts\<close>, \<open>Mesh_Manager\<close>,
    \<open>Manager_Facts\<close>: \<^verbatim>\<open>graphics/src/MeshManager.cc\<close>: the generated shapes, the extruded polylines, the
    registry of meshes and the merging of sub-meshes. The rings and segments of the sphere, the
    cylinder and the cone share the locale \<open>grid\<close>.
  \<^item> \<open>Keyframe_Animation\<close>, \<open>Trajectory\<close>: \<^verbatim>\<open>graphics/src/KeyFrame.cc\<close> and \<^verbatim>\<open>Animation.cc\<close>.
  \<^item> \<open>Skeleton_Node\<close>, \<open>Node_Animation\<close>, \<open>Skeleton_Model\<close>: \<^verbatim>\<open>graphics/src/NodeTransform.cc\<close>,
    \<^verbatim>\<open>SkeletonNode.cc\<close>, \<^verbatim>\<open>NodeAnimation.cc\<close>, \<^verbatim>\<open>SkeletonAnimation.cc\<close> and \<^verbatim>\<open>Skeleton.cc\<close>. The
    nodes of a skeleton point at each other, so they live in a heap of addresses with allocation and
    deletion; using or deleting a freed address is an error of the model.
  \<^item> \<open>Stl_Loader\<close>, \<open>Bvh_Loader\<close>, \<open>Bvh_Animation\<close>, \<open>Svg_Path\<close>, \<open>Svg_Facts\<close>, \<open>Svg_Polylines\<close>:
    \<^verbatim>\<open>graphics/src/STLLoader.cc\<close>, \<^verbatim>\<open>BVHLoader.cc\<close> with its caller in \<^verbatim>\<open>Skeleton.cc\<close>, and
    \<^verbatim>\<open>SVGLoader.cc\<close>. The locale \<open>grouped\<close> is what the expansion of the path commands relies on.
  \<^item> \<open>Collada_Source\<close>, \<open>Collada_Mesh\<close>, \<open>Collada_Material\<close>, \<open>Collada_Skeleton\<close>, \<open>Collada_Animation\<close>,
    \<open>Collada_Loader\<close>: \<^verbatim>\<open>graphics/src/ColladaLoader.cc\<close> in the order of a file: sources of vertices, primitives,
    materials, bones, animations, and the walk over the scene. \<open>Collada_Facts\<close>, \<open>Collada_Corners\<close> and
    \<open>Collada_Hang\<close> are about them, \<open>Collada_Sample\<close> is a document the theorems are applied to.
  \<^item> \<open>Image_Model\<close>, \<open>Image_Facts\<close>, \<open>Image_Colors\<close>: \<^verbatim>\<open>graphics/src/Image.cc\<close> and the template of its
    header. \<open>Height_Maps\<close>, \<open>Height_Facts\<close>: \<^verbatim>\<open>geospatial/src/ImageHeightmap.cc\<close> over an image, and
    \<^verbatim>\<open>Dem.cc\<close> over GDAL; the locale \<open>height_grid\<close> is the square of samples both interpolate in.

  \<^bold>\<open>How state and operations correspond\<close>

  The private data of a class is a record with the names of its members. A method is a definition of
  its name (with the name of the class in front where two classes share a name) that takes the record
  last and returns it updated, together with the result of the method. Constructors end in \<open>_new\<close> or
  carry the name of the class. Branches, early returns and the order of the updates are those of the
  code. A range-\<open>for\<close> or a counted loop is structural recursion over the list it walks; a loop with a
  measure is a \<open>function\<close> with its termination proof; a loop that the code does not bound
  is a \<open>partial_function (option)\<close>, so that \<^const>\<open>None\<close> is also the loop that does not return, and
  every theorem about such a loop states that it returns, or that it does not. Where the code can run into undefined
  behaviour (an iterator or an index out of range, a null or a freed pointer) or throws, the result
  is \<^const>\<open>None\<close> too; a theorem that the result is \<^const>\<open>Some\<close> therefore says that the code returns
  and that it does neither. There is no fuel in the development.

  Integers of 32 bits are words where the code lets them wrap (indices and sizes of meshes, images
  and heightmaps, counters) and 8-bit and 16-bit words in bytes and samples; positions in strings
  and vectors are natural numbers with \<open>npos\<close> as a value of its own. A \<open>double\<close> or \<open>float\<close> is a real
  number: no rounding except in the steps along an SVG curve, where it decides the number of points, and no
  infinities except where a branch tests for them. Log
  messages are left out.

  \<^bold>\<open>Parameters\<close>

  Code that is not in the repository is an argument: the file system and the environment, the system
  calls of temporary directories, the clock, the vector, matrix, quaternion, color and spline classes
  of gz-math, the codecs and the resizer of the vendored stb library, the triangulation of the vendored CDT
  library (which may throw), the rounded addition and division of \<open>double\<close>, the XML tree tinyxml2 hands over, GDAL, and the byte format of floats. What a theorem needs of one of them
  is a hypothesis of the theorem, and its witness gives a function for which it holds.

  \<^bold>\<open>What the groups of lemmas show\<close>

  \<^item> Text formats. What a class prints it reads back: URIs, URI authorities and paths, Base64, CSV rows,
    binary STL; the ASCII STL and BVH readers build the mesh and the skeleton that the file describes. The primitives of a
    Collada document load as the corners they list, although vertices are shared; polygons are cut into fans; a document on which the loader
    runs for ever is given, round by round.
    SHA-1 fed in pieces is the digest of the standard.
  \<^item> Meshes. The generated shapes name existing vertices only; the volume of a closed mesh does not depend on its
    place; the arrays handed to a renderer hold the corners of the triangles; recomputed normals are
    the sums over the faces; the edges of an extruded polyline are the steps of the polyline.
  \<^item> Ownership. The registry of meshes frees each mesh once; a skeleton frees its nodes once, except after a second
    \<open>RootNode\<close>.
  \<^item> Concurrency. Whatever the schedule, the worker pool runs each order once, loses no wake-up and
    its destructor ends; signals reach every registered callback in their order; an event calls the subscribers that are
    enabled.
  \<^item> Animations, images and heightmaps. Interpolated values stay between the samples and are exact at the samples,
    a trajectory reaches its waypoints, conversions of pixels to more channels can be undone where they keep
    all of them; a sampled curve has as many points as asked for or one more, and joined segments come out as
    closed and open polylines.

  \<^bold>\<open>Not modelled\<close>

  The Assimp and OBJ loaders and the Collada exporter (\<^verbatim>\<open>graphics/src/AssimpLoader.cc\<close>,
  \<^verbatim>\<open>OBJLoader.cc\<close>, \<^verbatim>\<open>ColladaExporter.cc\<close>), which walk the trees of assimp and tinyobj and build a tree of XML; \<open>MeshManager::Export\<close> and the convex decomposition, which hand over to them and to
  V-HACD; audio and video (\<^verbatim>\<open>av/src\<close>), calls into ffmpeg; the profiler, a front end of Remotery; the
  console, output through spdlog; plugins, and the printing of objects to streams; the Windows branches;
  the vendored libraries (stb, CDT, V-HACD, tinyobj, Remotery).
\<close>

end
